(* ===== verification/Prelude.thy ===== *)
theory Prelude
  imports Complex_Main "HOL-Library.Word" "HOL-Library.List_Lexorder" "HOL-Library.Char_ord"
    "HOL-Library.Product_Lexorder"
begin

text \<open>
  Shared vocabulary of the development.

  \<^item> Machine integers of the Rust sources are words of their width (\<open>u8\<close> .. \<open>u64\<close>);
    \<open>checked_add\<close> is Rust's checked addition and \<open>saturating_sub\<close> its saturating subtraction.
  \<^item> A Rust \<open>Result<T, E>\<close> is the sum \<open>'e + 'a\<close> with \<open>Inl\<close> the error; \<open>bind_r\<close> is the question
    mark operator.
  \<^item> A Rust \<open>BTreeMap\<close> is an association list with strictly increasing keys, so that iteration
    order is the order of the list. The locale \<open>ordered_map\<close> states what the sources rely on
    (lookup after insert and remove, and preservation of the order) and is interpreted on the
    association-list operations \<open>bt_get\<close>, \<open>bt_insert\<close> and \<open>bt_remove\<close>.
  \<^item> A Rust \<open>f64\<close> is \<open>f64\<close> below: a finite value is the rational it denotes.

  The collections \<open>result_simps\<close> and \<open>bt_simps\<close> carry the rewriting of the component proofs.
\<close>

named_theorems result_simps \<open>elimination of the result monad\<close>
named_theorems bt_simps \<open>laws of ordered association lists\<close>

section \<open>Machine integers\<close>

type_synonym u8 = "8 word"
type_synonym u16 = "16 word"
type_synonym u32 = "32 word"
type_synonym u64 = "64 word"

definition checked_add :: "'a::len word \<Rightarrow> 'a word \<Rightarrow> 'a word option" where
  "checked_add a b = (if unat a + unat b < 2 ^ LENGTH('a) then Some (a + b) else None)"

definition saturating_add :: "'a::len word \<Rightarrow> 'a word \<Rightarrow> 'a word" where
  "saturating_add a b = (if unat a + unat b < 2 ^ LENGTH('a) then a + b else - 1)"

definition saturating_sub :: "'a::len word \<Rightarrow> 'a word \<Rightarrow> 'a word" where
  "saturating_sub a b = (if a < b then 0 else a - b)"

lemma checked_add_Some:
  "checked_add a b = Some c \<Longrightarrow> c = a + b \<and> unat c = unat a + unat b"
  by (auto simp: checked_add_def unat_word_ariths split: if_splits)

lemma unat_saturating_sub: "unat (saturating_sub a b) = unat a - unat b"
  by (auto simp: saturating_sub_def unat_sub word_less_nat_alt word_le_nat_alt not_less)

lemma unat_saturating_add:
  fixes a b :: "'a::len word"
  shows "unat (saturating_add a b) = min (unat a + unat b) (2 ^ LENGTH('a) - 1)"
proof -
  have "unat (- 1 :: 'a word) = 2 ^ LENGTH('a) - 1"
    by (simp add: unsigned_minus_1_eq_mask mask_eq_exp_minus_1)
  then show ?thesis
    by (auto simp: saturating_add_def unat_word_ariths)
qed

section \<open>Floating point values\<close>

datatype f64 = Finite rat | PosInf | NegInf | NaN

definition is_finite :: "f64 \<Rightarrow> bool" where
  "is_finite x = (case x of Finite _ \<Rightarrow> True | _ \<Rightarrow> False)"

definition in_f64_range :: "rat \<Rightarrow> rat \<Rightarrow> f64 \<Rightarrow> bool" where
  "in_f64_range lo hi x = (case x of Finite q \<Rightarrow> lo \<le> q \<and> q \<le> hi | _ \<Rightarrow> False)"

section \<open>Results\<close>

type_synonym ('a, 'e) result = "'e + 'a"

definition bind_r :: "'e + 'a \<Rightarrow> ('a \<Rightarrow> 'e + 'b) \<Rightarrow> 'e + 'b" where
  "bind_r m f = (case m of Inl e \<Rightarrow> Inl e | Inr x \<Rightarrow> f x)"

definition map_err :: "('e \<Rightarrow> 'f) \<Rightarrow> 'e + 'a \<Rightarrow> 'f + 'a" where
  "map_err f m = (case m of Inl e \<Rightarrow> Inl (f e) | Inr x \<Rightarrow> Inr x)"

definition is_ok :: "'e + 'a \<Rightarrow> bool" where
  "is_ok m = (case m of Inl _ \<Rightarrow> False | Inr _ \<Rightarrow> True)"

definition ok_or :: "'a option \<Rightarrow> 'e \<Rightarrow> 'e + 'a" where
  "ok_or m e = (case m of None \<Rightarrow> Inl e | Some x \<Rightarrow> Inr x)"

lemma bind_r_simps [simp, result_simps]:
  "bind_r (Inl e) f = Inl e"
  "bind_r (Inr x) f = f x"
  by (simp_all add: bind_r_def)

lemma bind_r_eq_Inr [result_simps]:
  "bind_r m f = Inr y \<longleftrightarrow> (\<exists>x. m = Inr x \<and> f x = Inr y)"
  by (cases m) auto

lemma bind_r_eq_Inl [result_simps]:
  "bind_r m f = Inl e \<longleftrightarrow> m = Inl e \<or> (\<exists>x. m = Inr x \<and> f x = Inl e)"
  by (cases m) auto

lemma map_err_simps [simp, result_simps]:
  "map_err g (Inl e) = Inl (g e)"
  "map_err g (Inr x) = Inr x"
  "map_err g m = Inr x \<longleftrightarrow> m = Inr x"
  by (cases m; auto simp: map_err_def)+

lemma ok_or_simps [simp, result_simps]:
  "ok_or None e = Inl e"
  "ok_or (Some x) e = Inr x"
  "ok_or m e = Inr y \<longleftrightarrow> m = Some y"
  by (cases m; auto simp: ok_or_def)+

lemma is_ok_simps [simp]: "is_ok (Inl e) = False" "is_ok (Inr x) = True"
  by (simp_all add: is_ok_def)

text \<open>A loop that stops at the first error.\<close>

fun try_fold :: "('a \<Rightarrow> 's \<Rightarrow> 'e + 's) \<Rightarrow> 'a list \<Rightarrow> 's \<Rightarrow> 'e + 's" where
  "try_fold f [] s = Inr s"
| "try_fold f (x # xs) s = bind_r (f x s) (try_fold f xs)"

lemma try_fold_cong [fundef_cong]:
  assumes "xs = ys" "s = t" "\<And>x s. x \<in> set ys \<Longrightarrow> f x s = g x s"
  shows "try_fold f xs s = try_fold g ys t"
proof -
  have "(\<And>x s. x \<in> set ys \<Longrightarrow> f x s = g x s) \<Longrightarrow> try_fold f ys t = try_fold g ys t" for t
    by (induction ys arbitrary: t) (auto simp: bind_r_def split: sum.split)
  with assms show ?thesis by simp
qed

section \<open>Ordered maps\<close>

type_synonym ('k, 'v) bmap = "('k \<times> 'v) list"

definition bt_wf :: "('k::linorder, 'v) bmap \<Rightarrow> bool" where
  "bt_wf m = sorted_wrt (<) (map fst m)"

definition bt_get :: "('k, 'v) bmap \<Rightarrow> 'k \<Rightarrow> 'v option" where
  "bt_get m k = map_of m k"

fun bt_insert :: "'k::linorder \<Rightarrow> 'v \<Rightarrow> ('k, 'v) bmap \<Rightarrow> ('k, 'v) bmap" where
  "bt_insert k v [] = [(k, v)]"
| "bt_insert k v ((a, b) # m) =
     (if k < a then (k, v) # (a, b) # m
      else if k = a then (k, v) # m
      else (a, b) # bt_insert k v m)"

definition bt_remove :: "'k \<Rightarrow> ('k, 'v) bmap \<Rightarrow> ('k, 'v) bmap" where
  "bt_remove k m = filter (\<lambda>(a, _). a \<noteq> k) m"

definition bt_contains :: "('k, 'v) bmap \<Rightarrow> 'k \<Rightarrow> bool" where
  "bt_contains m k = (bt_get m k \<noteq> None)"

definition bt_keys :: "('k, 'v) bmap \<Rightarrow> 'k list" where
  "bt_keys m = map fst m"

definition bt_values :: "('k, 'v) bmap \<Rightarrow> 'v list" where
  "bt_values m = map snd m"

definition bt_of_list :: "('k::linorder \<times> 'v) list \<Rightarrow> ('k, 'v) bmap" where
  "bt_of_list xs = fold (\<lambda>(k, v). bt_insert k v) xs []"

text \<open>The interface the sources use of an ordered map.\<close>

locale ordered_map =
  fixes get :: "'m \<Rightarrow> 'k::linorder \<Rightarrow> 'v option"
    and ins :: "'k \<Rightarrow> 'v \<Rightarrow> 'm \<Rightarrow> 'm"
    and del :: "'k \<Rightarrow> 'm \<Rightarrow> 'm"
    and emp :: "'m"
    and entries :: "'m \<Rightarrow> ('k \<times> 'v) list"
    and wf :: "'m \<Rightarrow> bool"
  assumes get_emp: "get emp k = None"
    and get_ins: "get (ins k v m) = (get m)(k \<mapsto> v)"
    and get_del: "get (del k m) = (get m)(k := None)"
    and wf_emp: "wf emp"
    and wf_ins: "wf m \<Longrightarrow> wf (ins k v m)"
    and wf_del: "wf m \<Longrightarrow> wf (del k m)"
    and entries_sorted: "wf m \<Longrightarrow> sorted_wrt (<) (map fst (entries m))"
    and get_entries: "get m k = map_of (entries m) k"
begin

lemma get_same: "get (ins k v m) k = Some v"
  by (simp add: get_ins)

lemma get_other: "k' \<noteq> k \<Longrightarrow> get (ins k v m) k' = get m k'"
  by (simp add: get_ins)

lemma get_del_same: "get (del k m) k = None"
  by (simp add: get_del)

lemma in_entries: "wf m \<Longrightarrow> (k, v) \<in> set (entries m) \<longleftrightarrow> get m k = Some v"
  using entries_sorted [of m] get_entries [of m k]
  by (auto intro!: map_of_is_SomeI dest: map_of_SomeD simp: strict_sorted_iff)

lemma dom_finite: "finite (dom (get m))"
proof -
  have "get m = map_of (entries m)"
    by (rule ext) (rule get_entries)
  then show ?thesis
    by (simp add: finite_dom_map_of)
qed

lemma ins_ins: "get (ins k v (ins k w m)) = get (ins k v m)"
  by (simp add: get_ins)

lemma ins_del: "get (ins k v (del k m)) = get (ins k v m)"
  by (simp add: get_ins get_del)

end

lemma bt_get_insert: "bt_get (bt_insert k v m) = (bt_get m)(k \<mapsto> v)"
  by (induction k v m rule: bt_insert.induct) (auto simp: bt_get_def fun_eq_iff)

lemma bt_get_remove: "bt_get (bt_remove k m) = (bt_get m)(k := None)"
  by (induction m) (auto simp: bt_get_def bt_remove_def fun_eq_iff)

lemma fst_bt_insert: "set (map fst (bt_insert k v m)) = insert k (set (map fst m))"
  by (induction k v m rule: bt_insert.induct) auto

lemma bt_wf_insert: "bt_wf m \<Longrightarrow> bt_wf (bt_insert k v m)"
proof (induction k v m rule: bt_insert.induct)
  case (2 k v a b m)
  have "y \<in> set (bt_insert k v m) \<Longrightarrow> fst y = k \<or> fst y \<in> fst ` set m" for y
    using fst_bt_insert [of k v m] by force
  with 2 show ?case
    by (fastforce simp: bt_wf_def)
qed (simp add: bt_wf_def)

lemma bt_wf_remove: "bt_wf m \<Longrightarrow> bt_wf (bt_remove k m)"
  by (induction m) (auto simp: bt_wf_def bt_remove_def)

interpretation bt: ordered_map bt_get bt_insert bt_remove "[]" "\<lambda>m. m" bt_wf
proof unfold_locales
  show "bt_get [] k = None" for k :: 'a
    by (simp add: bt_get_def)
  show "bt_get (bt_insert k v m) = (bt_get m)(k \<mapsto> v)" for k :: 'a and v :: 'b and m
    by (rule bt_get_insert)
  show "bt_get (bt_remove k m) = (bt_get m)(k := None)" for k :: 'a and m :: "('a, 'b) bmap"
    by (rule bt_get_remove)
  show "sorted_wrt (<) (map fst m)" if "bt_wf m" for m :: "('a, 'b) bmap"
    using that by (simp add: bt_wf_def)
  show "bt_wf ([] :: ('a, 'b) bmap)"
    by (simp add: bt_wf_def)
qed (simp_all add: bt_wf_insert bt_wf_remove bt_get_def)

lemmas bt_laws [bt_simps] =
  bt.get_ins bt.get_del bt.get_emp bt.wf_emp bt.wf_ins bt.wf_del

lemma bt_get_Cons [bt_simps]:
  "bt_get ((a, b) # m) k = (if a = k then Some b else bt_get m k)"
  by (simp add: bt_get_def)

lemma bt_wf_distinct: "bt_wf m \<Longrightarrow> distinct (bt_keys m)"
  by (simp add: bt_wf_def bt_keys_def strict_sorted_iff)

lemma bt_get_mem: "bt_get m k = Some v \<Longrightarrow> (k, v) \<in> set m"
  by (simp add: bt_get_def map_of_SomeD)

lemma bt_mem_get: "bt_wf m \<Longrightarrow> (k, v) \<in> set m \<Longrightarrow> bt_get m k = Some v"
  by (rule bt.in_entries [THEN iffD1])

lemma bt_ext:
  assumes "bt_wf m" "bt_wf m'" "bt_get m = bt_get m'"
  shows "m = m'"
proof -
  have keys: "map fst n = sorted_list_of_set (dom (bt_get n))" if "bt_wf n" for n :: "('a, 'b) bmap"
  proof -
    have "set (map fst n) = dom (bt_get n)"
      by (simp add: bt_get_def [abs_def] dom_map_of_conv_image_fst)
    then show ?thesis
      using that by (metis bt_wf_def sorted_list_of_set.idem_if_sorted_distinct strict_sorted_iff)
  qed
  have rows: "n = map (\<lambda>k. (k, the (bt_get n k))) (map fst n)" if "bt_wf n" for n :: "('a, 'b) bmap"
  proof -
    have "map ((\<lambda>k. (k, the (bt_get n k))) \<circ> fst) n = map (\<lambda>p. p) n"
      using that by (intro map_cong) (auto simp: bt_mem_get)
    then show ?thesis by simp
  qed
  show ?thesis
    using rows [OF assms(1)] rows [OF assms(2)] keys [OF assms(1)] keys [OF assms(2)] assms(3) by metis
qed

lemma bt_contains_keys: "bt_contains m k \<longleftrightarrow> k \<in> set (bt_keys m)"
  by (force simp: bt_contains_def bt_get_def bt_keys_def map_of_eq_None_iff)

lemma length_bt_remove: "length (bt_remove k m) \<le> length m"
  by (simp add: bt_remove_def)

lemma length_bt_insert:
  "bt_contains m k \<Longrightarrow> bt_wf m \<Longrightarrow> length (bt_insert k v m) = length m"
proof (induction k v m rule: bt_insert.induct)
  case (2 k v a b m)
  show ?case
  proof (cases "k < a")
    case True
    with "2.prems" have "k \<notin> fst ` set ((a, b) # m)"
      by (auto simp: bt_wf_def dest: order.strict_trans)
    then show ?thesis
      using "2.prems" by (auto simp: bt_contains_keys bt_keys_def)
  qed (use 2 in \<open>auto simp: bt_contains_def bt_get_def bt_wf_def\<close>)
qed (simp add: bt_contains_def bt_get_def)

section \<open>Lists\<close>

text \<open>A checked walk over a list with the elements met so far (Rust: \<open>set.insert(x)\<close> as a condition).\<close>

fun all_new :: "'a list \<Rightarrow> 'a list \<Rightarrow> bool list" where
  "all_new seen [] = []"
| "all_new seen (x # xs) = (x \<notin> set seen) # all_new (x # seen) xs"

lemma all_new_distinct:
  "(\<forall>b \<in> set (all_new seen xs). b) \<longleftrightarrow> distinct xs \<and> set xs \<inter> set seen = {}"
  by (induction seen xs rule: all_new.induct) auto

text \<open>All pairs of a list with the first component before the second.\<close>

fun pairs :: "'a list \<Rightarrow> ('a \<times> 'a) list" where
  "pairs [] = []"
| "pairs (x # xs) = map (Pair x) xs @ pairs xs"

lemma pairs_sorted_wrt: "(\<forall>(a, b) \<in> set (pairs xs). R a b) \<longleftrightarrow> sorted_wrt R xs"
  by (induction xs) auto

lemma sorted_wrt_nth_sym:
  assumes "sorted_wrt R xs" "i < length xs" "j < length xs" "i \<noteq> j" "\<And>a b. R a b \<Longrightarrow> R b a"
  shows "R (xs ! i) (xs ! j)"
  using assms by (metis linorder_neqE_nat sorted_wrt_nth_less)

end
