(* ===== verification/Rust_Text.thy ===== *)
theory Rust_Text
  imports Prelude
begin

text \<open>
  The part of Rust's text library the sources use. A Rust \<open>String\<close> is a vector of UTF-8 bytes,
  so it is modelled as \<open>string\<close>: \<open>length\<close> is \<open>str::len\<close>, \<open>''..''\<close> literals are ASCII strings,
  \<open>chars\<close> decodes the Unicode scalar values, and \<open>utf16_len\<close> counts \<open>encode_utf16()\<close> units.
  Decimal printing and parsing follow \<open>Display\<close> and \<open>FromStr\<close> of the unsigned integers (a leading
  plus sign is accepted), and \<open>parse_ipv4\<close> follows \<open>Ipv4Addr::from_str\<close> (four octets without
  leading zeros). The round trips \<open>parse_uint_dec\<close>, \<open>join_split_on\<close> and \<open>parse_ipv4_show\<close> show that these
  definitions invert the printers.
\<close>

section \<open>ASCII classes\<close>

definition byte :: "char \<Rightarrow> nat" where
  "byte c = of_char c"

definition is_ascii_digit :: "char \<Rightarrow> bool" where
  "is_ascii_digit c = (48 \<le> byte c \<and> byte c \<le> 57)"

definition is_ascii_lowercase :: "char \<Rightarrow> bool" where
  "is_ascii_lowercase c = (97 \<le> byte c \<and> byte c \<le> 122)"

definition is_ascii_uppercase :: "char \<Rightarrow> bool" where
  "is_ascii_uppercase c = (65 \<le> byte c \<and> byte c \<le> 90)"

definition is_ascii_alphabetic :: "char \<Rightarrow> bool" where
  "is_ascii_alphabetic c = (is_ascii_lowercase c \<or> is_ascii_uppercase c)"

definition is_ascii_alphanumeric :: "char \<Rightarrow> bool" where
  "is_ascii_alphanumeric c = (is_ascii_alphabetic c \<or> is_ascii_digit c)"

definition is_ascii_hexdigit :: "char \<Rightarrow> bool" where
  "is_ascii_hexdigit c =
     (is_ascii_digit c \<or> (97 \<le> byte c \<and> byte c \<le> 102) \<or> (65 \<le> byte c \<and> byte c \<le> 70))"

definition to_ascii_lower_char :: "char \<Rightarrow> char" where
  "to_ascii_lower_char c = (if is_ascii_uppercase c then char_of (byte c + 32) else c)"

definition to_ascii_lowercase :: "string \<Rightarrow> string" where
  "to_ascii_lowercase s = map to_ascii_lower_char s"

lemmas ascii_defs = is_ascii_digit_def is_ascii_lowercase_def is_ascii_uppercase_def
  is_ascii_alphabetic_def is_ascii_alphanumeric_def is_ascii_hexdigit_def byte_def

section \<open>Prefixes, suffixes and splitting\<close>

definition starts_with :: "string \<Rightarrow> string \<Rightarrow> bool" where
  "starts_with p s = (take (length p) s = p)"

definition ends_with :: "string \<Rightarrow> string \<Rightarrow> bool" where
  "ends_with p s = (length p \<le> length s \<and> drop (length s - length p) s = p)"

definition strip_prefix :: "string \<Rightarrow> string \<Rightarrow> string option" where
  "strip_prefix p s = (if starts_with p s then Some (drop (length p) s) else None)"

fun split_on :: "char \<Rightarrow> string \<Rightarrow> string list" where
  "split_on c [] = [[]]"
| "split_on c (x # xs) =
     (if x = c then [] # split_on c xs
      else (case split_on c xs of [] \<Rightarrow> [[x]] | y # ys \<Rightarrow> (x # y) # ys))"

fun join_with :: "string \<Rightarrow> string list \<Rightarrow> string" where
  "join_with sep [] = []"
| "join_with sep [x] = x"
| "join_with sep (x # y # xs) = x @ sep @ join_with sep (y # xs)"

lemma split_on_nonempty [simp]: "split_on c s \<noteq> []"
  by (induction c s rule: split_on.induct) (auto split: list.splits)

lemma join_split_on: "join_with [c] (split_on c s) = s"
proof (induction c s rule: split_on.induct)
  case (2 c x xs)
  then show ?case
    by (cases "split_on c xs"; cases "tl (split_on c xs)") auto
qed simp

lemma split_on_no_sep: "p \<in> set (split_on c s) \<Longrightarrow> c \<notin> set p"
proof (induction c s arbitrary: p rule: split_on.induct)
  case (2 c x xs)
  then show ?case
    by (cases "split_on c xs") (auto split: if_splits)
qed simp

lemma split_on_piece: "c \<notin> set p \<Longrightarrow> split_on c p = [p]"
  by (induction p) auto

lemma split_on_append: "c \<notin> set p \<Longrightarrow> split_on c (p @ c # s) = p # split_on c s"
  by (induction p) auto

section \<open>Searching\<close>

definition strip_suffix :: "string \<Rightarrow> string \<Rightarrow> string option" where
  "strip_suffix p s = (if ends_with p s then Some (take (length s - length p) s) else None)"

definition split_once :: "char \<Rightarrow> string \<Rightarrow> (string \<times> string) option" where
  "split_once c s =
     (case dropWhile (\<lambda>x. x \<noteq> c) s of [] \<Rightarrow> None | _ # rest \<Rightarrow> Some (takeWhile (\<lambda>x. x \<noteq> c) s, rest))"

definition rsplit_once :: "char \<Rightarrow> string \<Rightarrow> (string \<times> string) option" where
  "rsplit_once c s = map_option (\<lambda>(a, b). (rev b, rev a)) (split_once c (rev s))"

text \<open>\<open>str::split_once\<close> and \<open>str::contains\<close> with a string pattern.\<close>

fun split_once_str :: "string \<Rightarrow> string \<Rightarrow> (string \<times> string) option" where
  "split_once_str p [] = (if p = [] then Some ([], []) else None)"
| "split_once_str p (x # xs) =
     (if starts_with p (x # xs) then Some ([], drop (length p) (x # xs))
      else map_option (\<lambda>(a, b). (x # a, b)) (split_once_str p xs))"

definition contains_str :: "string \<Rightarrow> string \<Rightarrow> bool" where
  "contains_str p s = (split_once_str p s \<noteq> None)"

definition replace_char :: "char \<Rightarrow> char \<Rightarrow> string \<Rightarrow> string" where
  "replace_char a b s = map (\<lambda>c. if c = a then b else c) s"

lemma starts_with_iff: "starts_with p s \<longleftrightarrow> (\<exists>r. s = p @ r)"
  unfolding starts_with_def by (metis append_eq_conv_conj append_take_drop_id)

lemma starts_with_append [simp]: "starts_with p (p @ r)"
  by (simp add: starts_with_def)

lemma ends_with_iff: "ends_with p s \<longleftrightarrow> (\<exists>r. s = r @ p)"
proof
  assume "ends_with p s"
  then have "s = take (length s - length p) s @ p"
    unfolding ends_with_def by (metis append_take_drop_id)
  then show "\<exists>r. s = r @ p" by blast
qed (auto simp: ends_with_def)

lemma strip_suffix_Some: "strip_suffix p s = Some r \<longleftrightarrow> s = r @ p"
  by (auto simp: strip_suffix_def ends_with_iff)

lemma strip_prefix_Some: "strip_prefix p s = Some r \<longleftrightarrow> s = p @ r"
  by (auto simp: strip_prefix_def starts_with_iff)

lemma split_once_Some: "split_once c s = Some (a, b) \<longleftrightarrow> s = a @ c # b \<and> c \<notin> set a"
proof
  assume *: "split_once c s = Some (a, b)"
  then obtain x where d: "dropWhile (\<lambda>x. x \<noteq> c) s = x # b" and a: "a = takeWhile (\<lambda>x. x \<noteq> c) s"
    by (auto simp: split_once_def split: list.splits)
  have "x = c" using hd_dropWhile [of "\<lambda>x. x \<noteq> c" s] d by simp
  with d a show "s = a @ c # b \<and> c \<notin> set a"
    by (metis (mono_tags, lifting) set_takeWhileD takeWhile_dropWhile_id)
next
  assume "s = a @ c # b \<and> c \<notin> set a"
  then have "takeWhile (\<lambda>x. x \<noteq> c) s = a" "dropWhile (\<lambda>x. x \<noteq> c) s = c # b"
    by (auto simp: takeWhile_append dropWhile_append)
  then show "split_once c s = Some (a, b)" by (simp add: split_once_def)
qed

lemma split_once_None: "split_once c s = None \<longleftrightarrow> c \<notin> set s"
proof -
  have "split_once c s = None \<longleftrightarrow> dropWhile (\<lambda>x. x \<noteq> c) s = []"
    unfolding split_once_def by (rule list.exhaust [of "dropWhile (\<lambda>x. x \<noteq> c) s"]) (simp_all only: list.case option.simps list.simps simp_thms)
  then show ?thesis by (auto simp: dropWhile_eq_Nil_conv)
qed

lemma rsplit_once_Some: "rsplit_once c s = Some (a, b) \<longleftrightarrow> s = a @ c # b \<and> c \<notin> set b"
proof -
  have "rsplit_once c s = Some (a, b) \<longleftrightarrow> split_once c (rev s) = Some (rev b, rev a)"
    unfolding rsplit_once_def by (auto simp: map_option_case split: option.splits)
  also have "\<dots> \<longleftrightarrow> s = a @ c # b \<and> c \<notin> set b"
    unfolding split_once_Some by (metis append.assoc append_Cons append_Nil rev_append rev_rev_ident rev_singleton_conv set_rev)
  finally show ?thesis .
qed

lemma rsplit_once_None: "rsplit_once c s = None \<longleftrightarrow> c \<notin> set s"
  by (simp add: rsplit_once_def split_once_None)

lemma split_once_str_sound: "split_once_str p s = Some (a, b) \<Longrightarrow> s = a @ p @ b"
proof (induction p s arbitrary: a b rule: split_once_str.induct)
  case (2 p x xs)
  show ?case
  proof (cases "starts_with p (x # xs)")
    case True
    with 2(2) show ?thesis by (auto simp: starts_with_iff)
  qed (use 2 in auto)
qed (simp split: if_splits)

lemma contains_str_iff: "contains_str p s \<longleftrightarrow> (\<exists>a b. s = a @ p @ b)"
proof
  show "contains_str p s \<Longrightarrow> \<exists>a b. s = a @ p @ b"
    unfolding contains_str_def using split_once_str_sound by fastforce
next
  have "split_once_str p (a @ p @ b) \<noteq> None" for a b
  proof (induction a)
    case Nil
    then show ?case by (cases "p @ b") (auto simp: starts_with_iff dest: sym)
  qed auto
  then show "\<exists>a b. s = a @ p @ b \<Longrightarrow> contains_str p s"
    by (auto simp: contains_str_def)
qed

section \<open>Unicode\<close>

text \<open>Decoding of UTF-8. Strings of the program are valid UTF-8, so the last cases do not arise.\<close>

fun utf8_decode :: "nat list \<Rightarrow> nat list" where
  "utf8_decode [] = []"
| "utf8_decode (a # bs) =
     (if a < 128 then a # utf8_decode bs
      else if a < 224 then
        (case bs of b # r \<Rightarrow> ((a - 192) * 64 + (b - 128)) # utf8_decode r | [] \<Rightarrow> [a])
      else if a < 240 then
        (case bs of b # c # r \<Rightarrow> ((a - 224) * 4096 + (b - 128) * 64 + (c - 128)) # utf8_decode r
         | _ \<Rightarrow> [a])
      else
        (case bs of b # c # d # r \<Rightarrow>
           ((a - 240) * 262144 + (b - 128) * 4096 + (c - 128) * 64 + (d - 128)) # utf8_decode r
         | _ \<Rightarrow> [a]))"

definition chars :: "string \<Rightarrow> nat list" where
  "chars s = utf8_decode (map byte s)"

definition len_utf8 :: "nat \<Rightarrow> nat" where
  "len_utf8 c = (if c < 128 then 1 else if c < 2048 then 2 else if c < 65536 then 3 else 4)"

definition utf16_len :: "string \<Rightarrow> nat" where
  "utf16_len s = sum_list (map (\<lambda>c. if c < 65536 then 1 else 2) (chars s))"

text \<open>\<open>char::is_whitespace\<close> is the Unicode property White\_Space.\<close>

definition is_whitespace :: "nat \<Rightarrow> bool" where
  "is_whitespace c =
     ((9 \<le> c \<and> c \<le> 13) \<or> c = 32 \<or> c = 133 \<or> c = 160 \<or> c = 5760 \<or> (8192 \<le> c \<and> c \<le> 8202) \<or>
      c = 8232 \<or> c = 8233 \<or> c = 8239 \<or> c = 8287 \<or> c = 12288)"

text \<open>\<open>char::is_control\<close> is the general category Cc.\<close>

definition is_control :: "nat \<Rightarrow> bool" where
  "is_control c = (c < 32 \<or> (127 \<le> c \<and> c \<le> 159))"

definition trim_chars :: "nat list \<Rightarrow> nat list" where
  "trim_chars cs = rev (dropWhile is_whitespace (rev (dropWhile is_whitespace cs)))"

text \<open>\<open>s.trim() == s\<close> and \<open>s.trim().is_empty()\<close>.\<close>

definition is_trimmed :: "string \<Rightarrow> bool" where
  "is_trimmed s = (trim_chars (chars s) = chars s)"

definition is_blank :: "string \<Rightarrow> bool" where
  "is_blank s = (trim_chars (chars s) = [])"

text \<open>\<open>str::trim\<close>: valid UTF-8 text without the white space around it.\<close>

definition utf8_encode :: "nat list \<Rightarrow> string" where
  "utf8_encode cs = concat (map (\<lambda>c. map char_of (
     if c < 128 then [c]
     else if c < 2048 then [192 + c div 64, 128 + c mod 64]
     else if c < 65536 then [224 + c div 4096, 128 + c div 64 mod 64, 128 + c mod 64]
     else [240 + c div 262144, 128 + c div 4096 mod 64, 128 + c div 64 mod 64, 128 + c mod 64])) cs)"

definition trim :: "string \<Rightarrow> string" where
  "trim s = utf8_encode (trim_chars (chars s))"

lemma chars_ascii: "list_all (\<lambda>c. byte c < 128) s \<Longrightarrow> chars s = map byte s"
  by (induction s) (auto simp: chars_def)

section \<open>Decimal numbers\<close>

definition digit :: "nat \<Rightarrow> char" where
  "digit n = char_of (48 + n)"

fun dec :: "nat \<Rightarrow> string" where
  "dec n = (if n < 10 then [digit n] else dec (n div 10) @ [digit (n mod 10)])"

declare dec.simps [simp del]

definition digits_val :: "string \<Rightarrow> nat" where
  "digits_val s = foldl (\<lambda>n c. 10 * n + (byte c - 48)) 0 s"

definition strip_plus :: "string \<Rightarrow> string" where
  "strip_plus s = (case s of [] \<Rightarrow> [] | c # r \<Rightarrow> if c = CHR ''+'' then r else s)"

text \<open>\<open>str::parse\<close> for an unsigned integer of the given width.\<close>

definition parse_uint :: "nat \<Rightarrow> string \<Rightarrow> nat option" where
  "parse_uint width s =
     (let ds = strip_plus s
      in if ds = [] \<or> \<not> list_all is_ascii_digit ds then None
         else if digits_val ds < 2 ^ width then Some (digits_val ds) else None)"

lemma byte_digit: "n < 10 \<Longrightarrow> byte (digit n) = 48 + n"
  by (simp add: byte_def digit_def)

lemma digit_is_digit: "n < 10 \<Longrightarrow> is_ascii_digit (digit n)"
  by (simp add: is_ascii_digit_def byte_digit)

lemma dec_nonempty [simp]: "dec n \<noteq> []"
  by (subst dec.simps) simp

lemma dec_digits: "list_all is_ascii_digit (dec n)"
proof (induction n rule: dec.induct)
  case (1 n)
  then show ?case
    by (subst dec.simps) (auto simp: digit_is_digit)
qed

lemma digits_val_dec: "digits_val (dec n) = n"
proof (induction n rule: dec.induct)
  case (1 n)
  then show ?case
    by (subst dec.simps) (auto simp: digits_val_def byte_digit)
qed

lemma hd_dec_not_zero: "0 < n \<Longrightarrow> hd (dec n) \<noteq> CHR ''0''"
proof (induction n rule: dec.induct)
  case (1 n)
  show ?case
  proof (cases "n < 10")
    case True
    then have "byte (hd (dec n)) = 48 + n"
      by (subst dec.simps) (simp add: byte_digit)
    with "1.prems" show ?thesis
      by (auto simp: byte_def)
  next
    case False
    then have "hd (dec n) = hd (dec (n div 10))"
      by (subst dec.simps) simp
    with 1 False show ?thesis
      by simp
  qed
qed

lemma digit_not: "is_ascii_digit c \<Longrightarrow> c \<noteq> CHR ''+'' \<and> c \<noteq> CHR ''.'' \<and> c \<noteq> CHR '':''"
  by (auto simp: is_ascii_digit_def byte_def)

lemma dec_no: "CHR ''.'' \<notin> set (dec n) \<and> CHR '':'' \<notin> set (dec n) \<and> CHR ''+'' \<notin> set (dec n)"
  using dec_digits [of n] by (auto simp: list_all_iff dest!: digit_not)

lemma strip_plus_dec: "strip_plus (dec n) = dec n"
  using dec_no [of n] by (auto simp: strip_plus_def split: list.splits)

lemma parse_uint_dec: "n < 2 ^ w \<Longrightarrow> parse_uint w (dec n) = Some n"
  by (simp add: parse_uint_def strip_plus_dec dec_digits digits_val_dec)

lemma parse_uint_bound: "parse_uint w s = Some n \<Longrightarrow> n < 2 ^ w"
  by (auto simp: parse_uint_def Let_def split: if_splits)

lemma dec_inj: "dec m = dec n \<longleftrightarrow> m = n"
  by (metis digits_val_dec)

lemma length_dec_le: "n < 10 ^ k \<Longrightarrow> 0 < k \<Longrightarrow> length (dec n) \<le> k"
proof (induction n arbitrary: k rule: dec.induct)
  case (1 n)
  show ?case
  proof (cases "n < 10")
    case True
    then show ?thesis
      using "1.prems" by (subst dec.simps) simp
  next
    case False
    then obtain j where k: "k = Suc j" "0 < j"
      using "1.prems" by (cases k; cases "k - 1") auto
    with "1.prems" have "n div 10 < 10 ^ j"
      by (simp add: less_mult_imp_div_less mult.commute)
    with 1 False k have "length (dec (n div 10)) \<le> j"
      by blast
    with False k show ?thesis
      by (subst dec.simps) simp
  qed
qed

section \<open>IPv4 addresses\<close>

type_synonym ipv4 = u32

definition ipv4_of_octets :: "nat \<Rightarrow> nat \<Rightarrow> nat \<Rightarrow> nat \<Rightarrow> ipv4" where
  "ipv4_of_octets a b c d = word_of_nat (a * 16777216 + b * 65536 + c * 256 + d)"

definition octet :: "nat \<Rightarrow> ipv4 \<Rightarrow> nat" where
  "octet i ip = (unat ip div 256 ^ (3 - i)) mod 256"

definition parse_octet :: "string \<Rightarrow> nat option" where
  "parse_octet s =
     (if s \<noteq> [] \<and> length s \<le> 3 \<and> list_all is_ascii_digit s \<and>
         (1 < length s \<longrightarrow> hd s \<noteq> CHR ''0'') \<and> digits_val s \<le> 255
      then Some (digits_val s) else None)"

definition parse_ipv4 :: "string \<Rightarrow> ipv4 option" where
  "parse_ipv4 s =
     (case map parse_octet (split_on (CHR ''.'') s) of
        [Some a, Some b, Some c, Some d] \<Rightarrow> Some (ipv4_of_octets a b c d)
      | _ \<Rightarrow> None)"

definition show_ipv4 :: "ipv4 \<Rightarrow> string" where
  "show_ipv4 ip =
     join_with ''.'' [dec (octet 0 ip), dec (octet 1 ip), dec (octet 2 ip), dec (octet 3 ip)]"

definition is_loopback :: "ipv4 \<Rightarrow> bool" where
  "is_loopback ip = (octet 0 ip = 127)"

definition is_link_local :: "ipv4 \<Rightarrow> bool" where
  "is_link_local ip = (octet 0 ip = 169 \<and> octet 1 ip = 254)"

definition is_multicast :: "ipv4 \<Rightarrow> bool" where
  "is_multicast ip = (224 \<le> octet 0 ip \<and> octet 0 ip \<le> 239)"

definition is_unspecified :: "ipv4 \<Rightarrow> bool" where
  "is_unspecified ip = (ip = 0)"

text \<open>The definitions that evaluate a concrete text.\<close>

lemmas text_eval = byte_def chars_def is_whitespace_def is_control_def trim_chars_def is_trimmed_def
  is_blank_def ascii_defs utf16_len_def strip_plus_def digits_val_def parse_uint_def parse_octet_def
  digit_def dec.simps starts_with_def ends_with_def strip_prefix_def

lemmas ipv4_eval = parse_ipv4_def ipv4_of_octets_def octet_def is_loopback_def is_link_local_def
  is_multicast_def is_unspecified_def

lemma octet_bound: "octet i ip \<le> 255"
proof -
  have "octet i ip < 256"
    by (simp add: octet_def)
  then show ?thesis by simp
qed

lemma parse_octet_dec: "n \<le> 255 \<Longrightarrow> parse_octet (dec n) = Some n"
proof -
  assume n: "n \<le> 255"
  have "length (dec n) \<le> 3"
    using n by (intro length_dec_le) auto
  moreover have "1 < length (dec n) \<Longrightarrow> hd (dec n) \<noteq> CHR ''0''"
    using hd_dec_not_zero [of n] by (cases "n = 0") (auto simp: dec.simps [of 0])
  ultimately show ?thesis
    using n by (simp add: parse_octet_def dec_digits digits_val_dec)
qed

lemma ipv4_octets: "ipv4_of_octets (octet 0 ip) (octet 1 ip) (octet 2 ip) (octet 3 ip) = ip"
proof -
  have "(n div 16777216) mod 256 * 16777216 + (n div 65536) mod 256 * 65536 + (n div 256) mod 256 * 256 + n mod 256 = n"
    if n: "n < 4294967296" for n :: nat
  proof -
    define q r t where "q = n div 256" and "r = q div 256" and "t = r div 256"
    have q: "n = q * 256 + n mod 256" and r: "q = r * 256 + q mod 256" and t: "r = t * 256 + r mod 256"
      by (simp_all add: q_def r_def t_def)
    have d: "n div 65536 = r" "n div 16777216 = t"
      by (simp_all add: q_def r_def t_def flip: div_mult2_eq)
    have "t < 256"
      using n by (simp add: d(2) [symmetric] less_mult_imp_div_less)
    then show ?thesis
      unfolding d using q r t by (simp add: q_def [symmetric])
  qed
  moreover have "unat ip < 4294967296"
    using unsigned_less [of ip, where 'a = nat] by simp
  ultimately have "octet 0 ip * 16777216 + octet 1 ip * 65536 + octet 2 ip * 256 + octet 3 ip = unat ip"
    by (simp add: octet_def)
  then have "ipv4_of_octets (octet 0 ip) (octet 1 ip) (octet 2 ip) (octet 3 ip) = word_of_nat (unat ip)"
    by (simp only: ipv4_of_octets_def)
  then show ?thesis by simp
qed

lemma parse_ipv4_show: "parse_ipv4 (show_ipv4 ip) = Some ip"
proof -
  have "split_on (CHR ''.'') (show_ipv4 ip) =
      [dec (octet 0 ip), dec (octet 1 ip), dec (octet 2 ip), dec (octet 3 ip)]"
    using dec_no by (simp add: show_ipv4_def split_on_append split_on_piece)
  then show ?thesis
    using ipv4_octets [of ip] by (simp add: parse_ipv4_def parse_octet_dec octet_bound)
qed

end
