(* ===== verification/Doc_Model.thy ===== *)
theory Doc_Model
  imports Rust_Text
begin

text \<open>
  The desired-state document (ndimon-types/src/model.rs and the endpoint identity of tessera.rs).
  Every enum is a datatype with the source's variants (prefixed where two enums share a variant
  name), every struct a record with one field per source field (prefixed by a short form of the
  struct's name, because record selectors are global), and every \<open>Default\<close> instance and
  constructor function a definition. \<open>BTreeMap\<close> fields are ordered association lists
  (Prelude), \<open>Vec\<close> fields lists.
\<close>

section \<open>Enumerations\<close>

type_synonym output_id = u8

datatype operation_mode = Decode | Encode
datatype decode_mode = DecodeAuto | DecodeHardware | DecodeSoftware
datatype watchdog_mode = WatchdogDisabled | WatchdogPassive | WatchdogActive
datatype weekday = Sun | Mon | Tue | Wed | Thu | Fri | Sat
datatype scale_mode = Letterbox | Stretch | Crop
datatype screen_saver = SaverSplash | SaverBlack | SaverCapture
datatype tally_mode = TallyOn | TallyOff | TallyVideo
datatype color_space = Yuv | Rgb
datatype transport = Rudp | Multicast | MultiTcp | Udp | Tcp
datatype audio_engine = V1 | V2
datatype endpoint_type = EpNdi | EpAlsa
datatype mapping_kind = MappingDefault
datatype network_backend = Networkmanager | Networkd | Netplan | Ifupdown
datatype address_mode = Dhcp | Static
datatype confirm_policy = RequireManagementAddress | TokenOnly
datatype direction = Rx | Tx
datatype clock_role = ClockAuto | ClockFollower | ClockLeader
datatype backdrop = Gradient | Flat

section \<open>JSON values\<close>

text \<open>
  Values of \<open>serde_json::Value\<close>. An object is the map it denotes, listed in key order: equality of
  objects in the sources does not look at the insertion order, and printing is a parameter.
\<close>

datatype json =
    JNull
  | JBool bool
  | JInt int
  | JFloat f64
  | JString string
  | JArray "json list"
  | JObject "(string, json) bmap"

section \<open>JSON access\<close>

definition obj_get :: "(string, json) bmap \<Rightarrow> string \<Rightarrow> json" where
  "obj_get m k = (case bt_get m k of None \<Rightarrow> JNull | Some v \<Rightarrow> v)"

definition json_index :: "json \<Rightarrow> string \<Rightarrow> json" where
  "json_index v k = (case v of JObject m \<Rightarrow> obj_get m k | _ \<Rightarrow> JNull)"

definition json_strings :: "json \<Rightarrow> string list" where
  "json_strings v =
     (case v of JArray xs \<Rightarrow> List.map_filter (\<lambda>x. case x of JString s \<Rightarrow> Some s | _ \<Rightarrow> None) xs | _ \<Rightarrow> [])"

definition json_text :: "json \<Rightarrow> string option" where
  "json_text v = (case v of JString t \<Rightarrow> Some t | _ \<Rightarrow> None)"

definition json_remove :: "string \<Rightarrow> json \<Rightarrow> json option \<times> json" where
  "json_remove k v = (case v of JObject m \<Rightarrow> (bt_get m k, JObject (bt_remove k m)) | _ \<Rightarrow> (None, v))"

definition json_get :: "json \<Rightarrow> string \<Rightarrow> json option" where
  "json_get v k = (case v of JObject m \<Rightarrow> bt_get m k | _ \<Rightarrow> None)"

definition as_u64 :: "json \<Rightarrow> nat option" where
  "as_u64 v = (case v of JInt n \<Rightarrow> if 0 \<le> n \<and> n < 2 ^ 64 then Some (nat n) else None | _ \<Rightarrow> None)"

text \<open>Assignment through \<open>IndexMut\<close>: the value is an object or null there.\<close>

definition json_set :: "string \<Rightarrow> json \<Rightarrow> json \<Rightarrow> json" where
  "json_set k x v = (case v of JObject m \<Rightarrow> JObject (bt_insert k x m) | _ \<Rightarrow> JObject [(k, x)])"

definition is_object :: "json \<Rightarrow> bool" where
  "is_object v = (case v of JObject _ \<Rightarrow> True | _ \<Rightarrow> False)"

section \<open>Device, outputs and NDI\<close>

record reboot_schedule =
  rs_enabled :: bool
  rs_time :: string
  rs_days :: "weekday list"

definition default_reboot_schedule :: reboot_schedule where
  "default_reboot_schedule =
     \<lparr>rs_enabled = False, rs_time = ''04:00'', rs_days = [Sun, Mon, Tue, Wed, Thu, Fri, Sat]\<rparr>"

record about =
  ab_group_name :: string
  ab_mac_address :: string
  ab_device_name :: string
  ab_host_name :: string

definition default_about :: about where
  "default_about =
     \<lparr>ab_group_name = ''public'', ab_mac_address = [], ab_device_name = [], ab_host_name = []\<rparr>"

record device =
  dev_hostname :: string
  dev_ndi_alias :: string
  dev_mode :: operation_mode
  dev_decode_mode :: decode_mode
  dev_watchdog_mode :: watchdog_mode
  dev_ntp_server :: string
  dev_reboot_schedule :: reboot_schedule
  dev_about :: about
  dev_analog_audio_in_gain :: u8
  dev_analog_audio_out_gain :: u8
  dev_plugin_feeds :: "string list"
  dev_allow_insecure_feeds :: bool
  dev_web_allowed_hosts :: "string list"

definition default_device :: device where
  "default_device =
     \<lparr>dev_hostname = [], dev_ndi_alias = [], dev_mode = Decode, dev_decode_mode = DecodeAuto,
      dev_watchdog_mode = WatchdogActive, dev_ntp_server = [],
      dev_reboot_schedule = default_reboot_schedule, dev_about = default_about,
      dev_analog_audio_in_gain = 50, dev_analog_audio_out_gain = 50,
      dev_plugin_feeds = [], dev_allow_insecure_feeds = False, dev_web_allowed_hosts = []\<rparr>"

datatype resolution = ResAuto | ResMode (res_width: u32) (res_height: u32) (res_refresh_hz: f64)

record output_video =
  ov_resolution :: resolution
  ov_scale_mode :: scale_mode
  ov_rotation :: u16

definition default_output_video :: output_video where
  "default_output_video = \<lparr>ov_resolution = ResAuto, ov_scale_mode = Letterbox, ov_rotation = 0\<rparr>"

record ndi_source_ref =
  src_name :: string
  src_endpoint :: string

definition new_ndi_source_ref :: "string \<Rightarrow> string \<Rightarrow> ndi_source_ref" where
  "new_ndi_source_ref name ep = \<lparr>src_name = name, src_endpoint = ep\<rparr>"

record output_cfg =
  out_alias :: string
  out_source :: "ndi_source_ref option"
  out_video :: output_video
  out_screensaver :: screen_saver
  out_source_selection :: string

definition default_output :: output_cfg where
  "default_output =
     \<lparr>out_alias = [], out_source = None, out_video = default_output_video,
      out_screensaver = SaverBlack, out_source_selection = ''NDI''\<rparr>"

record ndi =
  ndi_receive :: transport
  ndi_discovery_servers :: "string list"
  ndi_groups :: "string list"
  ndi_off_subnet_sources :: "string list"
  ndi_tally :: tally_mode
  ndi_color_space :: color_space
  ndi_receiver_advertising :: bool
  ndi_remote_control :: bool

definition default_ndi :: ndi where
  "default_ndi =
     \<lparr>ndi_receive = Rudp, ndi_discovery_servers = [], ndi_groups = [''public''],
      ndi_off_subnet_sources = [], ndi_tally = TallyOff, ndi_color_space = Yuv,
      ndi_receiver_advertising = True, ndi_remote_control = False\<rparr>"

section \<open>Audio\<close>

record audio_engine_settings =
  as_enabled :: bool
  as_rate :: u32
  as_period_frames :: u32
  as_master :: string
  as_memory_budget_mib :: u32

definition default_audio_engine_settings :: audio_engine_settings where
  "default_audio_engine_settings =
     \<lparr>as_enabled = True, as_rate = 48000, as_period_frames = 512, as_master = ''hdmi'',
      as_memory_budget_mib = 64\<rparr>"

record audio_source =
  aso_kind :: endpoint_type
  aso_enabled :: bool
  aso_channels :: u16
  aso_output :: "output_id option"
  aso_alsa_pcm :: "string option"
  aso_endpoint :: string
  aso_resource :: string
  aso_channel_start :: u32
  aso_channel_count :: u16
  aso_gain_db :: f64
  aso_delay_ms :: u32

record audio_sink =
  asi_enabled :: bool
  asi_channels :: u16
  asi_alsa_pcm :: string
  asi_endpoint :: string
  asi_resource :: string
  asi_channel_start :: u32
  asi_channel_count :: u16
  asi_delay_ms :: u32
  asi_mix :: "(string, f64) bmap"

record audio_route =
  ar_output :: output_id
  ar_source :: string
  ar_sink :: string
  ar_enabled :: bool
  ar_gain_db :: f64
  ar_delay_ms :: u32
  ar_mapping :: mapping_kind

record audio_input =
  ai_endpoint :: string
  ai_gain_db :: f64
  ai_delay_ms :: u32

record audio_destination =
  ad_endpoint :: string
  ad_delay_ms :: u32

record audio_definitions =
  adf_sources :: "(string, audio_source) bmap"
  adf_sinks :: "(string, audio_sink) bmap"

record output_audio =
  oa_enabled :: bool
  oa_primary :: bool
  oa_inputs :: "audio_input list"
  oa_destinations :: "audio_destination list"
  oa_legacy_matrix :: bool
  oa_definitions :: audio_definitions

record audio =
  au_engine :: audio_engine
  au_settings :: audio_engine_settings
  au_sources :: "(string, audio_source) bmap"
  au_sinks :: "(string, audio_sink) bmap"
  au_outputs :: "(output_id, output_audio) bmap"
  au_routes :: "(string, audio_route) bmap"
  au_video_delay_ms :: u32

definition ndi_audio_source :: "output_id \<Rightarrow> audio_source" where
  "ndi_audio_source out =
     \<lparr>aso_kind = EpNdi, aso_enabled = True, aso_channels = 2, aso_output = Some out,
      aso_alsa_pcm = None, aso_endpoint = ''ndi-'' @ dec (unat out), aso_resource = [],
      aso_channel_start = 1, aso_channel_count = 2, aso_gain_db = Finite 0, aso_delay_ms = 0\<rparr>"

definition alsa_audio_source :: "string \<Rightarrow> u16 \<Rightarrow> audio_source" where
  "alsa_audio_source pcm channels =
     (ndi_audio_source 1)\<lparr>aso_kind := EpAlsa, aso_output := None, aso_alsa_pcm := Some pcm,
        aso_channels := channels, aso_channel_count := channels, aso_endpoint := []\<rparr>"

definition new_audio_sink :: "string \<Rightarrow> u16 \<Rightarrow> audio_sink" where
  "new_audio_sink pcm channels =
     \<lparr>asi_enabled = True, asi_channels = channels, asi_alsa_pcm = pcm, asi_endpoint = [],
      asi_resource = [], asi_channel_start = 1, asi_channel_count = channels, asi_delay_ms = 0,
      asi_mix = []\<rparr>"

definition new_audio_input :: "string \<Rightarrow> f64 \<Rightarrow> u32 \<Rightarrow> audio_input" where
  "new_audio_input ep gain delay = \<lparr>ai_endpoint = ep, ai_gain_db = gain, ai_delay_ms = delay\<rparr>"

definition new_audio_destination :: "string \<Rightarrow> u32 \<Rightarrow> audio_destination" where
  "new_audio_destination ep delay = \<lparr>ad_endpoint = ep, ad_delay_ms = delay\<rparr>"

definition new_audio_route :: "output_id \<Rightarrow> string \<Rightarrow> string \<Rightarrow> audio_route" where
  "new_audio_route out source sink =
     \<lparr>ar_output = out, ar_source = source, ar_sink = sink, ar_enabled = True,
      ar_gain_db = Finite 0, ar_delay_ms = 0, ar_mapping = MappingDefault\<rparr>"

definition default_output_audio :: output_audio where
  "default_output_audio =
     \<lparr>oa_enabled = False, oa_primary = False, oa_inputs = [], oa_destinations = [],
      oa_legacy_matrix = False, oa_definitions = \<lparr>adf_sources = [], adf_sinks = []\<rparr>\<rparr>"

definition default_audio :: audio where
  "default_audio =
     (let sink = (new_audio_sink ''auto'' 2)\<lparr>asi_endpoint := ''hdmi-1'', asi_resource := ''hdmi:1'',
                   asi_mix := [(''ndi'', Finite 0)]\<rparr>
      in \<lparr>au_engine = V1, au_settings = default_audio_engine_settings,
          au_sources = [(''ndi'', ndi_audio_source 1)],
          au_sinks = [(''hdmi'', sink)],
          au_outputs = [(1, default_output_audio\<lparr>oa_enabled := True, oa_primary := True,
             oa_inputs := [new_audio_input ''ndi-1'' (Finite 0) 0],
             oa_destinations := [new_audio_destination ''hdmi-1'' 0]\<rparr>)],
          au_routes = [(''primary'', new_audio_route 1 ''ndi'' ''hdmi'')],
          au_video_delay_ms = 0\<rparr>)"

section \<open>Network profiles\<close>

record network_profile =
  np_id :: string
  np_name :: string
  np_vlan_id :: "u16 option"
  np_mode :: address_mode
  np_address :: string
  np_prefix :: u8
  np_gateway :: string
  np_dns :: "string list"
  np_dns_search :: "string list"

record network_roles =
  nr_management :: string
  nr_ndi :: string
  nr_audio :: string

record network_profiles =
  nps_interface :: string
  nps_backend :: "network_backend option"
  nps_networks :: "network_profile list"
  nps_roles :: network_roles
  nps_confirm_policy :: confirm_policy

definition default_network_roles :: network_roles where
  "default_network_roles = \<lparr>nr_management = [], nr_ndi = [], nr_audio = []\<rparr>"

definition default_network_profiles :: network_profiles where
  "default_network_profiles =
     \<lparr>nps_interface = [], nps_backend = None, nps_networks = [],
      nps_roles = default_network_roles, nps_confirm_policy = TokenOnly\<rparr>"

definition dhcp_profile :: "string \<Rightarrow> string \<Rightarrow> network_profile" where
  "dhcp_profile ident name =
     \<lparr>np_id = ident, np_name = name, np_vlan_id = None, np_mode = Dhcp, np_address = [],
      np_prefix = 0, np_gateway = [], np_dns = [], np_dns_search = []\<rparr>"

section \<open>Tessera\<close>

record tessera_device =
  td_name :: string
  td_sample_rate :: u32
  td_encoding :: u8
  td_latency_us :: u32
  td_rx_channels :: u16
  td_tx_channels :: u16
  td_rx_labels :: "(u16, string) bmap"
  td_tx_labels :: "(u16, string) bmap"
  td_advertise_devices :: bool

record tessera_clock =
  tc_role :: clock_role
  tc_priority :: u8

record tessera_flow =
  tf_id :: string
  tf_direction :: direction
  tf_peer :: "string option"
  tf_port :: u16
  tf_any_source :: bool
  tf_frames_per_packet :: "u16 option"

record tessera =
  te_enabled :: bool
  te_device :: tessera_device
  te_clock :: tessera_clock
  te_flows :: "tessera_flow list"
  te_locks :: "(string, string) bmap"
  te_network_binding :: "string option"
  te_protocol_flow_lock :: bool

definition PREFERRED_LEADER_BELOW :: u8 where "PREFERRED_LEADER_BELOW = 64"
definition DEFAULT_PRIORITY :: u8 where "DEFAULT_PRIORITY = 128"

definition clock_conflicts :: "tessera_clock \<Rightarrow> bool" where
  "clock_conflicts c = (tc_role c = ClockFollower \<and> tc_priority c < PREFERRED_LEADER_BELOW)"

definition clock_effective :: "tessera_clock \<Rightarrow> tessera_clock" where
  "clock_effective c =
     \<lparr>tc_role = tc_role c,
      tc_priority = (if clock_conflicts c then DEFAULT_PRIORITY else tc_priority c)\<rparr>"

definition owned_locks :: "(string, string) bmap" where
  "owned_locks = bt_of_list (map (\<lambda>key. (key, ''ndimon-control''))
     [''device.name'', ''device.sample_rate'', ''device.encoding'', ''device.latency'',
      ''device.rx_channels'', ''device.tx_channels'', ''device.rx_channel_labels'',
      ''device.tx_channel_labels'', ''clock.role'', ''clock.priority'', ''flows''])"

definition new_tessera :: "string \<Rightarrow> u32 \<Rightarrow> tessera" where
  "new_tessera name latency_us =
     \<lparr>te_enabled = True,
      te_device = \<lparr>td_name = name, td_sample_rate = 48000, td_encoding = 24,
        td_latency_us = latency_us, td_rx_channels = 2, td_tx_channels = 2,
        td_rx_labels = [], td_tx_labels = [], td_advertise_devices = True\<rparr>,
      te_clock = \<lparr>tc_role = ClockAuto, tc_priority = 128\<rparr>,
      te_flows = [], te_locks = owned_locks, te_network_binding = None,
      te_protocol_flow_lock = True\<rparr>"

definition tx_flow :: "string \<Rightarrow> string \<Rightarrow> u16 \<Rightarrow> tessera_flow" where
  "tx_flow ident peer port =
     \<lparr>tf_id = ident, tf_direction = Tx, tf_peer = Some peer, tf_port = port,
      tf_any_source = False, tf_frames_per_packet = None\<rparr>"

section \<open>Display, presets and plugins\<close>

record asset_ref =
  asr_sha256 :: string
  asr_media_type :: string

definition new_asset_ref :: "string \<Rightarrow> string \<Rightarrow> asset_ref" where
  "new_asset_ref sha media = \<lparr>asr_sha256 = sha, asr_media_type = media\<rparr>"

record splash =
  sp_bg_idle :: string
  sp_bg_live :: string
  sp_accent_idle :: string
  sp_accent_live :: string
  sp_logo :: "asset_ref option"
  sp_logo_x_pct :: f64
  sp_logo_y_pct :: f64
  sp_logo_w_pct :: f64
  sp_text_idle :: string
  sp_text_live :: string
  sp_text_height_pct :: f64
  sp_backdrop :: backdrop
  sp_show_signal_text :: bool
  sp_show_device_name :: bool
  sp_show_device_url :: bool
  sp_show_sources_available :: bool

definition default_splash :: splash where
  "default_splash =
     \<lparr>sp_bg_idle = ''#0D1B2A'', sp_bg_live = ''#0D2B1A'', sp_accent_idle = ''#4488CC'',
      sp_accent_live = ''#22FF88'', sp_logo = None, sp_logo_x_pct = Finite 50,
      sp_logo_y_pct = Finite 50, sp_logo_w_pct = Finite 50, sp_text_idle = ''No Signal'',
      sp_text_live = ''Signal Available'', sp_text_height_pct = Finite 4, sp_backdrop = Gradient,
      sp_show_signal_text = True, sp_show_device_name = True, sp_show_device_url = True,
      sp_show_sources_available = True\<rparr>"

record osd =
  osd_enabled :: bool
  osd_text :: string

record display =
  di_splash :: splash
  di_osd :: osd

definition default_display :: display where
  "default_display = \<lparr>di_splash = default_splash, di_osd = \<lparr>osd_enabled = False, osd_text = []\<rparr>\<rparr>"

record preset =
  pr_source :: ndi_source_ref
  pr_position :: "u32 option"

definition new_preset :: "ndi_source_ref \<Rightarrow> preset" where
  "new_preset src = \<lparr>pr_source = src, pr_position = None\<rparr>"

record plugin_state =
  pl_installed :: bool
  pl_enabled :: bool
  pl_version :: string
  pl_state :: "(string, json) bmap option"

definition default_plugin_state :: plugin_state where
  "default_plugin_state =
     \<lparr>pl_installed = False, pl_enabled = False, pl_version = [], pl_state = None\<rparr>"

section \<open>The document\<close>

definition SCHEMA_VERSION :: u32 where "SCHEMA_VERSION = 1"

record desired_state =
  ds_schema_version :: u32
  ds_revision :: u64
  ds_device :: device
  ds_outputs :: "(output_id, output_cfg) bmap"
  ds_ndi :: ndi
  ds_audio :: audio
  ds_network :: network_profiles
  ds_tessera :: "tessera option"
  ds_display :: display
  ds_presets :: "(string, preset) bmap"
  ds_plugins :: "(string, plugin_state) bmap"

definition default_desired_state :: desired_state where
  "default_desired_state =
     \<lparr>ds_schema_version = SCHEMA_VERSION, ds_revision = 0, ds_device = default_device,
      ds_outputs = [(1, default_output)], ds_ndi = default_ndi, ds_audio = default_audio,
      ds_network = default_network_profiles, ds_tessera = None, ds_display = default_display,
      ds_presets = [], ds_plugins = []\<rparr>"

section \<open>Tessera endpoint identities\<close>

record tessera_endpoint =
  ep_direction :: direction
  ep_start :: u32
  ep_channels :: u16

definition direction_name :: "tessera_endpoint \<Rightarrow> string" where
  "direction_name e = (case ep_direction e of Rx \<Rightarrow> ''rx'' | Tx \<Rightarrow> ''tx'')"

definition endpoint_id :: "tessera_endpoint \<Rightarrow> string" where
  "endpoint_id e =
     ''tessera-'' @ direction_name e @ ''-'' @ dec (unat (ep_start e)) @ ''-'' @ dec (unat (ep_channels e))"

definition endpoint_pcm :: "tessera_endpoint \<Rightarrow> string" where
  "endpoint_pcm e =
     ''ndimon_tessera_'' @ direction_name e @ ''_'' @ dec (unat (ep_start e)) @ ''_'' @ dec (unat (ep_channels e))"

definition endpoint_resource :: "tessera_endpoint \<Rightarrow> string" where
  "endpoint_resource e = ''tessera:main:'' @ direction_name e"

definition endpoint_legacy :: "tessera_endpoint \<Rightarrow> string" where
  "endpoint_legacy e = (case ep_direction e of Rx \<Rightarrow> ''net-in'' | Tx \<Rightarrow> ''net-out'')"

definition endpoint_is_rx :: "string \<Rightarrow> string \<Rightarrow> bool" where
  "endpoint_is_rx ident resource =
     (ident = ''net-in'' \<or> starts_with ''tessera-rx-'' ident \<or> resource = ''tessera:main:rx'')"

definition endpoint_is_tx :: "string \<Rightarrow> string \<Rightarrow> bool" where
  "endpoint_is_tx ident resource =
     (ident = ''net-out'' \<or> starts_with ''tessera-tx-'' ident \<or> resource = ''tessera:main:tx'')"

section \<open>Properties of the data model\<close>

lemma clock_effective_no_conflict: "\<not> clock_conflicts (clock_effective c)"
  by (auto simp: clock_effective_def clock_conflicts_def PREFERRED_LEADER_BELOW_def DEFAULT_PRIORITY_def)

lemma clock_effective_idem: "clock_effective (clock_effective c) = clock_effective c"
  using clock_effective_no_conflict [of c] by (simp add: clock_effective_def [of "clock_effective c"])

lemma clock_effective_id: "\<not> clock_conflicts c \<Longrightarrow> clock_effective c = c"
  by (simp add: clock_effective_def)

end
