(* ===== verification/Doc_Validation.thy ===== *)
theory Doc_Validation
  imports Doc_Model
begin

unbundle bit_operations_syntax

text \<open>
  The portable validation of the desired-state document (ndimon-types/src/validation.rs).

  A \<open>Validator\<close> method of the source pushes field errors on a list and goes on; here each method
  is a function that returns the errors it pushes, in the order it pushes them, and the caller
  concatenates. Loops with local sets (identifiers, tags, subnets, contributions) are recursions
  with those sets as arguments. \<open>validate\<close> takes one parameter, \<open>to_vec\<close>: the size limit of a
  plugin subtree is taken from the bytes \<open>serde_json::to_vec\<close> prints.

  The second half states what an accepted document guarantees: usable and pairwise disjoint static
  subnets, distinct tags and identifiers, existing roles, one physical writer per audio channel,
  distinct contributions, one receive flow. The proofs go through \<open>check_nil\<close>: an empty error list
  means that every check of the walk held.
\<close>

section \<open>Field errors\<close>

record field_error =
  fe_field :: string
  fe_reason :: string

definition new_field_error :: "string \<Rightarrow> string \<Rightarrow> field_error" where
  "new_field_error path reason = \<lparr>fe_field = path, fe_reason = reason\<rparr>"

section \<open>Lexical checks\<close>

definition MAX_DNS_SEARCH :: nat where "MAX_DNS_SEARCH = 6"

definition identifier_ok :: "string \<Rightarrow> bool" where
  "identifier_ok v =
     (v \<noteq> [] \<and> length v \<le> 32 \<and> is_ascii_lowercase (hd v) \<and>
      list_all (\<lambda>b. is_ascii_lowercase b \<or> is_ascii_digit b \<or> b = CHR ''-'') v)"

definition valid_version :: "string \<Rightarrow> bool" where
  "valid_version v =
     (v \<noteq> [] \<and> is_ascii_digit (hd v) \<and>
      list_all (\<lambda>b. is_ascii_alphanumeric b \<or> b \<in> set ''.+:~-'') v)"

definition valid_pcm :: "string \<Rightarrow> bool" where
  "valid_pcm v =
     (v \<noteq> [] \<and> length v \<le> 512 \<and>
      list_all (\<lambda>b. is_ascii_alphanumeric b \<or> b \<in> set '':_=,.+-'') v)"

definition controls :: "string \<Rightarrow> bool" where
  "controls v = list_ex (\<lambda>c. c < 32 \<or> c = 127) (chars v)"

definition valid_host :: "string \<Rightarrow> bool" where
  "valid_host v =
     (if v = [] \<or> 253 < length v then False
      else if list_all (\<lambda>b. is_ascii_digit b \<or> b = CHR ''.'') v then parse_ipv4 v \<noteq> None
      else list_all (\<lambda>part.
             part \<noteq> [] \<and> length part \<le> 63 \<and> is_ascii_alphanumeric (hd part) \<and>
             is_ascii_alphanumeric (last part) \<and>
             list_all (\<lambda>b. is_ascii_alphanumeric b \<or> b = CHR ''-'') part) (split_on (CHR ''.'') v))"

definition ndi_endpoint :: "string \<Rightarrow> bool" where
  "ndi_endpoint v =
     (case split_on (CHR '':'') v of
        [ip] \<Rightarrow> parse_ipv4 ip \<noteq> None
      | [ip, p] \<Rightarrow> parse_ipv4 ip \<noteq> None \<and> \<not> starts_with ''0'' p \<and>
          (case parse_uint 16 p of Some n \<Rightarrow> 0 < n | None \<Rightarrow> False)
      | _ \<Rightarrow> False)"

definition overlap :: "string \<Rightarrow> u32 \<Rightarrow> u16 \<Rightarrow> string \<Rightarrow> u32 \<Rightarrow> u16 \<Rightarrow> bool" where
  "overlap ar a ac br b bc =
     (ar \<noteq> [] \<and> ar = br \<and> unat a < unat b + unat bc \<and> unat b < unat a + unat ac)"

definition show_opt_u8 :: "u8 option \<Rightarrow> string" where
  "show_opt_u8 x = (case x of None \<Rightarrow> ''None'' | Some n \<Rightarrow> ''Some('' @ dec (unat n) @ '')'')"

definition source_identity :: "audio_source \<Rightarrow> string" where
  "source_identity s =
     (if aso_kind s = EpNdi then ''ndi:'' @ show_opt_u8 (aso_output s)
      else if aso_resource s = [] then ''alsa:'' @ (case aso_alsa_pcm s of None \<Rightarrow> [] | Some p \<Rightarrow> p)
      else aso_resource s @ '':'' @ dec (unat (aso_channel_start s)) @ '':'' @
           dec (unat (aso_channel_count s)))"

definition sink_identity :: "audio_sink \<Rightarrow> string" where
  "sink_identity s =
     (if asi_resource s = [] then ''alsa:'' @ asi_alsa_pcm s
      else asi_resource s @ '':'' @ dec (unat (asi_channel_start s)) @ '':'' @
           dec (unat (asi_channel_count s)))"

definition json_string_size :: "string \<Rightarrow> nat" where
  "json_string_size v =
     2 + sum_list (map (\<lambda>c. if c \<in> {34, 92, 10, 13, 9, 8, 12} then 2
                            else if c < 32 then 6 else len_utf8 c) (chars v))"

text \<open>
  The literals of the source and their lengths: \<open>"id":\<close> 5, \<open>,"direction":\<close> 13, \<open>,"port":\<close> 8,
  \<open>,"peer":\<close> 8, \<open>,"any_source":true\<close> 18 and \<open>,"frames_per_packet":\<close> 21.
\<close>

definition flow_size :: "tessera_flow \<Rightarrow> nat" where
  "flow_size f =
     2 + 5 + json_string_size (tf_id f) + 13 +
     json_string_size (case tf_direction f of Rx \<Rightarrow> ''rx'' | Tx \<Rightarrow> ''tx'') + 8 +
     length (dec (unat (tf_port f))) +
     (case tf_peer f of None \<Rightarrow> 0 | Some p \<Rightarrow> 8 + json_string_size p) +
     (if tf_any_source f then 18 else 0) +
     (case tf_frames_per_packet f of None \<Rightarrow> 0 | Some n \<Rightarrow> 21 + length (dec (unat n)))"

definition flow_write_size :: "tessera_flow list \<Rightarrow> nat" where
  "flow_write_size flows = 2 + sum_list (map flow_size flows) + (length flows - 1)"

definition valid_device_label :: "string \<Rightarrow> bool" where
  "valid_device_label v =
     (v \<noteq> [] \<and> length v \<le> 63 \<and> is_ascii_alphanumeric (hd v) \<and> is_ascii_alphanumeric (last v) \<and>
      list_all (\<lambda>b. is_ascii_alphanumeric b \<or> b = CHR ''-'') v)"

text \<open>
  \<open>value.parse::<IpAddr>()\<close> is only reached when every label is alphanumeric with hyphens; such a
  text has no colon, so only the IPv4 branch of the parser can accept it.
\<close>

definition valid_web_hostname :: "string \<Rightarrow> bool" where
  "valid_web_hostname v =
     (v \<noteq> [] \<and> length v \<le> 253 \<and> list_all valid_device_label (split_on (CHR ''.'') v) \<and>
      parse_ipv4 v = None \<and>
      (let label = last (split_on (CHR ''.'') v)
       in list_ex is_ascii_alphabetic label \<and>
          \<not> (case strip_prefix ''0x'' (to_ascii_lowercase label) of
               None \<Rightarrow> False
             | Some hex \<Rightarrow> hex \<noteq> [] \<and> list_all is_ascii_hexdigit hex)))"

definition valid_dns_search_domain :: "string \<Rightarrow> bool" where
  "valid_dns_search_domain v =
     (v \<noteq> [] \<and> length v \<le> 253 \<and> list_all valid_device_label (split_on (CHR ''.'') v))"

definition valid_device_ntp :: "string \<Rightarrow> bool" where
  "valid_device_ntp v =
     (if length (split_on (CHR ''.'') v) = 4 \<and> list_all (\<lambda>b. is_ascii_digit b \<or> b = CHR ''.'') v
      then parse_ipv4 v \<noteq> None
      else length v \<le> 253 \<and> list_all valid_device_label (split_on (CHR ''.'') v))"

section \<open>Alias to host name\<close>

definition hostname_code :: "nat \<Rightarrow> bool" where
  "hostname_code c =
     ((48 \<le> c \<and> c \<le> 57) \<or> (65 \<le> c \<and> c \<le> 90) \<or> (97 \<le> c \<and> c \<le> 122) \<or> c = 45)"

fun alias_walk :: "nat list \<Rightarrow> bool \<Rightarrow> nat list \<Rightarrow> nat list" where
  "alias_walk [] separator out = out"
| "alias_walk (ch # cs) separator out =
     (if hostname_code ch
      then alias_walk cs False ((if separator \<and> out \<noteq> [] then out @ [45] else out) @ [ch])
      else alias_walk cs True out)"

definition trim_dashes :: "nat list \<Rightarrow> nat list" where
  "trim_dashes cs = rev (dropWhile (\<lambda>c. c = 45) (rev (dropWhile (\<lambda>c. c = 45) cs)))"

definition alias_hostname :: "string \<Rightarrow> string" where
  "alias_hostname alias =
     (let out = alias_walk (trim_chars (chars alias)) False [];
          value = take 63 (trim_dashes out)
      in if value = [] then ''ndimon'' else map char_of value)"

section \<open>The validator\<close>

definition check :: "bool \<Rightarrow> string \<Rightarrow> string \<Rightarrow> field_error list" where
  "check condition path reason = (if condition then [] else [new_field_error path reason])"

definition range_check :: "nat \<Rightarrow> nat \<Rightarrow> nat \<Rightarrow> string \<Rightarrow> field_error list" where
  "range_check v lo hi path =
     check (lo \<le> v \<and> v \<le> hi) path (''must be '' @ dec lo @ ''..='' @ dec hi)"

definition gain_check :: "f64 \<Rightarrow> string \<Rightarrow> field_error list" where
  "gain_check v path =
     check (is_finite v \<and> in_f64_range (-60) 12 v) path ''must be finite and -60..=12 dB''"

definition output_id_check :: "output_id \<Rightarrow> string \<Rightarrow> field_error list" where
  "output_id_check ident path = range_check (unat ident) 1 8 path"

definition source_ref_check :: "ndi_source_ref \<Rightarrow> string \<Rightarrow> field_error list" where
  "source_ref_check src path =
     check (src_name src \<noteq> [] \<and> src_name src \<noteq> ''None'') (path @ ''.name'')
       ''must name a source (use null to forget)'' @
     check (src_endpoint src = [] \<or> ndi_endpoint (src_endpoint src)) (path @ ''.endpoint'')
       ''must be IPv4 with optional port 1..=65535''"

definition index_path :: "string \<Rightarrow> nat \<Rightarrow> string" where
  "index_path path i = path @ ''['' @ dec i @ '']''"

definition each :: "(nat \<Rightarrow> 'a \<Rightarrow> field_error list) \<Rightarrow> 'a list \<Rightarrow> field_error list" where
  "each f xs = concat (map (\<lambda>(i, x). f i x) (enumerate 0 xs))"

definition reboot_time_ok :: "string \<Rightarrow> bool" where
  "reboot_time_ok t =
     (length t = 5 \<and> t ! 2 = CHR '':'' \<and>
      list_all (\<lambda>(i, b). i = 2 \<or> is_ascii_digit b) (enumerate 0 t) \<and>
      (case parse_uint 8 (take 2 t) of Some h \<Rightarrow> h < 24 | None \<Rightarrow> False) \<and>
      (case parse_uint 8 (drop 3 t) of Some m \<Rightarrow> m < 60 | None \<Rightarrow> False))"

definition feed_url_ok :: "bool \<Rightarrow> string \<Rightarrow> bool" where
  "feed_url_ok allow_insecure url =
     (let body = (case strip_prefix ''https://'' url of
                    Some s \<Rightarrow> Some s
                  | None \<Rightarrow> if allow_insecure then strip_prefix ''http://'' url else None)
      in case body of
           None \<Rightarrow> False
         | Some s \<Rightarrow> s \<noteq> [] \<and> \<not> starts_with ''/'' s \<and>
             CHR ''@'' \<notin> set (hd (split_on (CHR ''/'') s)) \<and>
             \<not> list_ex (\<lambda>c. is_whitespace c \<or> is_control c) (chars s))"

definition device_check :: "device \<Rightarrow> field_error list" where
  "device_check d =
     check (length (dev_web_allowed_hosts d) \<le> 16) ''device.web_allowed_hosts''
       ''at most 16 additional host names'' @
     each (\<lambda>i host. check (valid_web_hostname host \<and> host = to_ascii_lowercase host)
             (index_path ''device.web_allowed_hosts'' i)
             ''must be a lower-case DNS hostname without wildcards, ports or IP literals'')
          (dev_web_allowed_hosts d) @
     check (is_trimmed (dev_ndi_alias d)) ''device.ndi_alias'' ''must be trimmed'' @
     check (dev_hostname d = [] \<or> (length (dev_hostname d) \<le> 63 \<and> valid_device_label (dev_hostname d)))
       ''device.hostname'' ''must be a hostname label of at most 63 bytes'' @
     check (dev_ntp_server d = [] \<or> valid_device_ntp (dev_ntp_server d))
       ''device.ntp_server'' ''invalid NTP host'' @
     (let schedule = dev_reboot_schedule d
      in check (reboot_time_ok (rs_time schedule)) ''device.reboot_schedule.time''
           ''must be HH:MM (24 hour)'' @
         check (\<not> rs_enabled schedule \<or> rs_days schedule \<noteq> []) ''device.reboot_schedule.days''
           ''enabled schedule requires a weekday'' @
         check (length (remdups (rs_days schedule)) = length (rs_days schedule))
           ''device.reboot_schedule.days'' ''weekdays must be distinct'') @
     range_check (unat (dev_analog_audio_in_gain d)) 0 100 ''device.analog_audio_in_gain'' @
     range_check (unat (dev_analog_audio_out_gain d)) 0 100 ''device.analog_audio_out_gain'' @
     each (\<lambda>i url. check (feed_url_ok (dev_allow_insecure_feeds d) url)
             (index_path ''device.plugin_feeds'' i)
             ''feed URL requires HTTPS without credentials (HTTP needs explicit opt-in)'')
          (dev_plugin_feeds d)"

definition node_geometry_check ::
  "u16 \<Rightarrow> u32 \<Rightarrow> u16 \<Rightarrow> string \<Rightarrow> string \<Rightarrow> string \<Rightarrow> field_error list" where
  "node_geometry_check channels start count ep resource path =
     range_check (unat channels) 1 16 (path @ ''.channels'') @
     range_check (unat start) 1 65535 (path @ ''.channel_start'') @
     check (count = channels) (path @ ''.channel_count'') ''must equal channels'' @
     check (unat start + unat channels \<le> 65536) (path @ ''.channel_start'')
       ''channel range overflows'' @
     check (length (chars ep) \<le> 160) (path @ ''.endpoint'') ''at most 160 characters'' @
     check (length (chars resource) \<le> 160) (path @ ''.resource'') ''at most 160 characters''"

definition source_check :: "audio_source \<Rightarrow> string \<Rightarrow> field_error list" where
  "source_check s path =
     node_geometry_check (aso_channels s) (aso_channel_start s) (aso_channel_count s)
       (aso_endpoint s) (aso_resource s) path @
     (case aso_kind s of
        EpNdi \<Rightarrow>
          check (aso_alsa_pcm s = None) (path @ ''.alsa_pcm'') ''NDI has no ALSA PCM'' @
          (case aso_output s of
             Some out \<Rightarrow> output_id_check out (path @ ''.output'')
           | None \<Rightarrow> check False (path @ ''.output'') ''NDI requires an output'')
      | EpAlsa \<Rightarrow>
          check (aso_output s = None) (path @ ''.output'') ''ALSA has no NDI output'' @
          check (case aso_alsa_pcm s of None \<Rightarrow> False | Some p \<Rightarrow> valid_pcm p)
            (path @ ''.alsa_pcm'') ''invalid ALSA PCM'') @
     gain_check (aso_gain_db s) (path @ ''.gain_db'') @
     range_check (unat (aso_delay_ms s)) 0 5000 (path @ ''.delay_ms'')"

definition sink_check :: "audio_sink \<Rightarrow> string \<Rightarrow> field_error list" where
  "sink_check s path =
     node_geometry_check (asi_channels s) (asi_channel_start s) (asi_channel_count s)
       (asi_endpoint s) (asi_resource s) path @
     check (valid_pcm (asi_alsa_pcm s)) (path @ ''.alsa_pcm'') ''invalid ALSA PCM'' @
     range_check (unat (asi_delay_ms s)) 0 5000 (path @ ''.delay_ms'') @
     concat (map (\<lambda>(ident, gain).
        check (identifier_ok ident) (path @ ''.mix.'' @ ident) ''invalid source ID'' @
        gain_check gain (path @ ''.mix.'' @ ident)) (asi_mix s))"

section \<open>Audio graph\<close>

definition audio_settings_check :: "audio \<Rightarrow> field_error list" where
  "audio_settings_check a =
     range_check (unat (as_rate (au_settings a))) 48000 48000 ''audio.settings.rate'' @
     check (as_period_frames (au_settings a) \<in> {128, 256, 512, 1024, 2048})
       ''audio.settings.period_frames'' ''must be 128, 256, 512, 1024 or 2048'' @
     range_check (unat (as_memory_budget_mib (au_settings a))) 1 512 ''audio.settings.memory_budget_mib'' @
     range_check (unat (au_video_delay_ms a)) 0 5000 ''audio.video_delay_ms'' @
     check (length (au_sources a) \<le> 32) ''audio.sources'' ''at most 32 sources'' @
     check (length (au_sinks a) \<le> 32) ''audio.sinks'' ''at most 32 sinks'' @
     check (length (au_outputs a) \<le> 8) ''audio.outputs'' ''at most 8 outputs'' @
     check (if au_sources a = [] \<and> au_sinks a = [] \<and> au_routes a = []
            then as_master (au_settings a) = []
            else (case bt_get (au_sinks a) (as_master (au_settings a)) of
                    None \<Rightarrow> False | Some s \<Rightarrow> asi_enabled s))
       ''audio.settings.master'' ''must name an enabled sink, or be empty for an empty graph''"

definition audio_nodes_check :: "audio \<Rightarrow> field_error list" where
  "audio_nodes_check a =
     concat (map (\<lambda>(ident, source).
        check (identifier_ok ident) (''audio.sources.'' @ ident) ''invalid source ID'' @
        source_check source (''audio.sources.'' @ ident)) (au_sources a)) @
     concat (map (\<lambda>(ident, sink).
        check (identifier_ok ident) (''audio.sinks.'' @ ident) ''invalid sink ID'' @
        sink_check sink (''audio.sinks.'' @ ident)) (au_sinks a))"

definition same_writer :: "audio_sink \<Rightarrow> audio_sink \<Rightarrow> bool" where
  "same_writer a b =
     ((asi_alsa_pcm a = asi_alsa_pcm b \<and> (asi_alsa_pcm a \<noteq> ''auto'' \<or> asi_resource a = asi_resource b)) \<or>
      overlap (asi_resource a) (asi_channel_start a) (asi_channel_count a)
        (asi_resource b) (asi_channel_start b) (asi_channel_count b))"

definition writers_check :: "audio \<Rightarrow> field_error list" where
  "writers_check a =
     (if au_engine a = V2
      then concat (map (\<lambda>((ident, x), (other, y)).
             check (\<not> same_writer x y) (''audio.sinks.'' @ ident)
               (''overlapping physical writer with '' @ other)) (pairs (au_sinks a)))
      else [])"

definition route_gain_ok :: "audio_engine \<Rightarrow> f64 \<Rightarrow> string \<Rightarrow> field_error list" where
  "route_gain_ok e gain path =
     (if e = V2 then gain_check gain path
      else check (is_finite gain \<and> in_f64_range (-120) 24 gain) path
             ''v1 effective gain must be -120..=24'')"

definition route_static :: "audio \<Rightarrow> string \<Rightarrow> audio_route \<Rightarrow> field_error list" where
  "route_static a ident r =
     (let path = ''audio.routes.'' @ ident
      in check (identifier_ok ident) path ''invalid route ID'' @
         output_id_check (ar_output r) (path @ ''.output'') @
         check (bt_contains (au_outputs a) (ar_output r)) (path @ ''.output'') ''missing output'' @
         check (bt_contains (au_sources a) (ar_source r)) (path @ ''.source'') ''missing source'' @
         check (bt_contains (au_sinks a) (ar_sink r)) (path @ ''.sink'') ''missing sink'' @
         route_gain_ok (au_engine a) (ar_gain_db r) (path @ ''.gain_db'') @
         range_check (unat (ar_delay_ms r)) 0 (if au_engine a = V1 then 10000 else 5000)
           (path @ ''.delay_ms''))"

text \<open>The contribution of a route: its source and sink identities, when every part is enabled.\<close>

definition contribution :: "audio \<Rightarrow> audio_route \<Rightarrow> (string \<times> string) option" where
  "contribution a r =
     (case (bt_get (au_sources a) (ar_source r), bt_get (au_sinks a) (ar_sink r),
            bt_get (au_outputs a) (ar_output r)) of
        (Some source, Some sink, Some out) \<Rightarrow>
          if ar_enabled r \<and> oa_enabled out \<and> aso_enabled source \<and> asi_enabled sink
          then Some (source_identity source, sink_identity sink) else None
      | _ \<Rightarrow> None)"

type_synonym selected = "(output_id, string list) bmap"

definition select_input :: "audio_route \<Rightarrow> selected \<Rightarrow> selected" where
  "select_input r inputs =
     bt_insert (ar_output r)
       (insort_insert (ar_source r)
          (case bt_get inputs (ar_output r) of None \<Rightarrow> [] | Some xs \<Rightarrow> xs)) inputs"

fun route_walk ::
  "audio \<Rightarrow> (string \<times> string) list \<Rightarrow> selected \<Rightarrow> (string \<times> audio_route) list \<Rightarrow>
   field_error list \<times> selected" where
  "route_walk a seen inputs [] = ([], inputs)"
| "route_walk a seen inputs ((ident, r) # rs) =
     (case contribution a r of
        None \<Rightarrow>
          (let (errors, final) = route_walk a seen inputs rs
           in (route_static a ident r @ errors, final))
      | Some key \<Rightarrow>
          (let (errors, final) = route_walk a (key # seen) (select_input r inputs) rs
           in (route_static a ident r @
               check (key \<notin> set seen) (''audio.routes.'' @ ident)
                 ''duplicate canonical source/sink contribution'' @ errors, final)))"

definition selection_check :: "audio \<Rightarrow> selected \<Rightarrow> field_error list" where
  "selection_check a inputs =
     concat (map (\<lambda>(out, ids).
       concat (map (\<lambda>(x, y).
         check (source_identity x \<noteq> source_identity y \<and>
                \<not> overlap (aso_resource x) (aso_channel_start x) (aso_channel_count x)
                    (aso_resource y) (aso_channel_start y) (aso_channel_count y))
           (''audio.outputs.'' @ dec (unat out) @ ''.inputs'') ''overlapping source selections'')
         (pairs (List.map_filter (bt_get (au_sources a)) ids)))) inputs)"

definition endpoint_choice_check :: "string \<Rightarrow> string \<Rightarrow> field_error list" where
  "endpoint_choice_check ep path =
     check (ep \<noteq> [] \<and> length (chars ep) \<le> 160) (path @ ''.endpoint'')
       ''endpoint must be 1..=160 characters''"

definition output_audio_check :: "audio \<Rightarrow> output_id \<Rightarrow> output_audio \<Rightarrow> field_error list" where
  "output_audio_check a ident out =
     (let path = ''audio.outputs.'' @ dec (unat ident)
      in output_id_check ident path @
         check (length (oa_inputs out) \<le> 32) (path @ ''.inputs'') ''at most 32 inputs'' @
         check (length (oa_destinations out) \<le> 32) (path @ ''.destinations'') ''at most 32 destinations'' @
         each (\<lambda>i input.
             endpoint_choice_check (ai_endpoint input) (index_path (path @ ''.inputs'') i) @
             gain_check (ai_gain_db input) (index_path (path @ ''.inputs'') i @ ''.gain_db'') @
             range_check (unat (ai_delay_ms input)) 0 5000
               (index_path (path @ ''.inputs'') i @ ''.delay_ms'')) (oa_inputs out) @
         each (\<lambda>i dest.
             endpoint_choice_check (ad_endpoint dest) (index_path (path @ ''.destinations'') i) @
             range_check (unat (ad_delay_ms dest)) 0 5000
               (index_path (path @ ''.destinations'') i @ ''.delay_ms'') @
             (if au_engine a = V2 \<and> oa_enabled out
              then concat (map (\<lambda>input.
                     check (unat (ai_delay_ms input) + unat (ad_delay_ms dest) \<le> 5000)
                       (index_path (path @ ''.destinations'') i @ ''.delay_ms'')
                       ''combined input/destination delay exceeds 5000 ms'') (oa_inputs out))
              else [])) (oa_destinations out) @
         concat (map (\<lambda>(kind, ids).
             if oa_enabled out
             then check (length (remdups ids) = length ids) (path @ ''.'' @ kind)
                    ''duplicate endpoint choice''
             else [])
           [(''inputs'', map ai_endpoint (oa_inputs out)),
            (''destinations'', map ad_endpoint (oa_destinations out))]) @
         concat (map (\<lambda>(node, source).
             check (identifier_ok node) (path @ ''.definitions.sources.'' @ node) ''invalid source ID'' @
             source_check source (path @ ''.definitions.sources.'' @ node))
           (adf_sources (oa_definitions out))) @
         concat (map (\<lambda>(node, sink).
             check (identifier_ok node) (path @ ''.definitions.sinks.'' @ node) ''invalid sink ID'' @
             sink_check sink (path @ ''.definitions.sinks.'' @ node))
           (adf_sinks (oa_definitions out))))"

definition audio_check :: "audio \<Rightarrow> field_error list" where
  "audio_check a =
     (let (route_errors, inputs) = route_walk a [] [] (au_routes a)
      in audio_settings_check a @ audio_nodes_check a @ writers_check a @ route_errors @
         selection_check a inputs @
         concat (map (\<lambda>(ident, out). output_audio_check a ident out) (au_outputs a)))"

section \<open>Network\<close>

definition netmask :: "u8 \<Rightarrow> u32" where
  "netmask prefix = push_bit (32 - unat prefix) (- 1)"

definition subnet_first :: "ipv4 \<Rightarrow> u8 \<Rightarrow> u32" where
  "subnet_first ip prefix = ip AND netmask prefix"

definition subnet_last :: "ipv4 \<Rightarrow> u8 \<Rightarrow> u32" where
  "subnet_last ip prefix = subnet_first ip prefix OR NOT (netmask prefix)"

definition interface_name_ok :: "string \<Rightarrow> bool" where
  "interface_name_ok v =
     (v \<noteq> [] \<and> length v \<le> 15 \<and>
      list_all (\<lambda>b. is_ascii_alphanumeric b \<or> b = CHR ''_'' \<or> b = CHR ''-'') v)"

definition prefix_ok :: "u8 \<Rightarrow> bool" where
  "prefix_ok p = (8 \<le> unat p \<and> unat p \<le> 30)"

text \<open>The subnet a row claims, when it is static with a parsable address and a usable prefix.\<close>

definition row_subnet :: "network_profile \<Rightarrow> (u32 \<times> u32) option" where
  "row_subnet row =
     (if np_mode row = Dhcp then None
      else case parse_ipv4 (np_address row) of
             None \<Rightarrow> None
           | Some ip \<Rightarrow>
               if prefix_ok (np_prefix row)
               then Some (subnet_first ip (np_prefix row), subnet_last ip (np_prefix row)) else None)"

definition row_common :: "network_profiles \<Rightarrow> string \<Rightarrow> network_profile \<Rightarrow> field_error list" where
  "row_common n path row =
     check (np_id row = nr_management (nps_roles n) \<or>
            (np_gateway row = [] \<and> np_dns row = [] \<and> np_dns_search row = [])) path
       ''gateway, DNS and search domains belong only to management'' @
     check (length (np_dns_search row) \<le> MAX_DNS_SEARCH) (path @ ''.dns_search'')
       ''at most 6 DNS search domains'' @
     each (\<lambda>j domain. check (valid_dns_search_domain domain) (index_path (path @ ''.dns_search'') j)
             ''must be a host name'') (np_dns_search row) @
     check (length (np_dns row) \<le> 3) (path @ ''.dns'') ''at most 3 DNS servers'' @
     each (\<lambda>j ip. check (parse_ipv4 ip \<noteq> None) (index_path (path @ ''.dns'') j) ''must be IPv4'')
       (np_dns row)"

definition row_address ::
  "string \<Rightarrow> (u32 \<times> u32) list \<Rightarrow> network_profile \<Rightarrow> field_error list" where
  "row_address path subnets row =
     (if np_mode row = Dhcp
      then check (np_address row = [] \<and> np_prefix row = 0 \<and> np_gateway row = [] \<and> np_dns row = [])
             path ''DHCP settings must be normalized (empty static fields)''
      else
        range_check (unat (np_prefix row)) 8 30 (path @ ''.prefix'') @
        check (parse_ipv4 (np_address row) \<noteq> None) (path @ ''.address'') ''must be IPv4'' @
        check (np_gateway row = [] \<or> parse_ipv4 (np_gateway row) \<noteq> None) (path @ ''.gateway'')
          ''must be IPv4'' @
        (case parse_ipv4 (np_address row) of
           None \<Rightarrow> []
         | Some ip \<Rightarrow>
             check (\<not> is_loopback ip \<and> \<not> is_link_local ip \<and> \<not> is_multicast ip \<and> \<not> is_unspecified ip)
               (path @ ''.address'') ''must be usable unicast IPv4'' @
             (if prefix_ok (np_prefix row)
              then
                (let mask = netmask (np_prefix row);
                     first = subnet_first ip (np_prefix row);
                     last = subnet_last ip (np_prefix row)
                 in check (ip \<noteq> first \<and> ip \<noteq> last) (path @ ''.address'')
                      ''network/broadcast addresses are not usable'' @
                    (case parse_ipv4 (np_gateway row) of
                       None \<Rightarrow> []
                     | Some gw \<Rightarrow> check (gw AND mask = first) (path @ ''.gateway'')
                         ''gateway must be in the same subnet'') @
                    check (\<not> list_ex (\<lambda>(a, b). first \<le> b \<and> a \<le> last) subnets)
                      (path @ ''.address'') ''static subnets overlap'')
              else [])))"

definition row_tag :: "network_profiles \<Rightarrow> string \<Rightarrow> u16 option list \<Rightarrow> network_profile \<Rightarrow> field_error list" where
  "row_tag n path tags row =
     check (np_vlan_id row \<notin> set tags) (path @ ''.vlan_id'') ''duplicate VLAN/untagged network'' @
     (case np_vlan_id row of
        None \<Rightarrow> []
      | Some tag \<Rightarrow>
          range_check (unat tag) 1 4094 (path @ ''.vlan_id'') @
          check (length (nps_interface n @ ''.'' @ dec (unat tag)) \<le> 15) (path @ ''.vlan_id'')
            ''derived interface exceeds 15 bytes'')"

definition row_name_ok :: "string \<Rightarrow> bool" where
  "row_name_ok name = (\<not> is_blank name \<and> length (chars name) \<le> 64 \<and> \<not> list_ex (\<lambda>c. c < 32) (chars name))"

definition list_of_option :: "'a option \<Rightarrow> 'a list" where
  "list_of_option x = (case x of None \<Rightarrow> [] | Some v \<Rightarrow> [v])"

fun network_rows ::
  "network_profiles \<Rightarrow> nat \<Rightarrow> string list \<Rightarrow> u16 option list \<Rightarrow> (u32 \<times> u32) list \<Rightarrow>
   network_profile list \<Rightarrow> field_error list \<times> string list \<times> u16 option list" where
  "network_rows n i ids tags subnets [] = ([], ids, tags)"
| "network_rows n i ids tags subnets (row # rows) =
     (let path = index_path ''network.networks'' i;
          ids' = (if identifier_ok (np_id row) \<and> np_id row \<notin> set ids then np_id row # ids else ids);
          tags' = (if np_vlan_id row \<in> set tags then tags else np_vlan_id row # tags);
          (errors, final_ids, final_tags) =
            network_rows n (Suc i) ids' tags' (subnets @ list_of_option (row_subnet row)) rows
      in (check (identifier_ok (np_id row) \<and> np_id row \<notin> set ids) (path @ ''.id'')
            ''must be a unique identifier'' @
          check (row_name_ok (np_name row)) (path @ ''.name'')
            ''nonempty name of at most 64 characters without controls'' @
          row_tag n path tags row @
          row_common n path row @
          row_address path subnets row @ errors, final_ids, final_tags))"

definition network_check :: "network_profiles \<Rightarrow> field_error list" where
  "network_check n =
     (if nps_backend n = None
      then check (nps_interface n = [] \<and> nps_networks n = [] \<and> nps_roles n = default_network_roles)
             ''network'' ''unadopted network must have empty interface, networks and roles''
      else
        (let (errors, ids, tags) = network_rows n 0 [] [] [] (nps_networks n)
         in check (interface_name_ok (nps_interface n)) ''network.interface'' ''invalid physical interface'' @
            check (1 \<le> length (nps_networks n) \<and> length (nps_networks n) \<le> 9) ''network.networks''
              ''configure 1..=9 networks'' @
            errors @
            check (length (filter (\<lambda>t. t \<noteq> None) tags) \<le> 8) ''network.networks''
              ''at most 8 tagged VLANs'' @
            concat (map (\<lambda>(role, ident).
                check (ident \<in> set ids) (''network.roles.'' @ role) ''role must name an existing network'')
              [(''management'', nr_management (nps_roles n)), (''ndi'', nr_ndi (nps_roles n)),
               (''audio'', nr_audio (nps_roles n))])))"

section \<open>Tessera and display\<close>

definition labels_check :: "string \<Rightarrow> u16 \<Rightarrow> (u16, string) bmap \<Rightarrow> field_error list" where
  "labels_check dir count labels =
     concat (map (\<lambda>(channel, label).
       (let path = ''tessera.device.'' @ dir @ ''_labels.'' @ dec (unat channel)
        in range_check (unat channel) 1 (unat count) path @
           check (length label \<le> 31 \<and> \<not> controls label) path
             ''label must be at most 31 UTF-8 bytes without controls'')) labels)"

definition tessera_active :: "audio \<Rightarrow> bool" where
  "tessera_active a =
     (list_ex (\<lambda>s. aso_enabled s \<and> starts_with ''tessera:'' (aso_resource s)) (bt_values (au_sources a)) \<or>
      list_ex (\<lambda>s. asi_enabled s \<and> starts_with ''tessera:'' (asi_resource s)) (bt_values (au_sinks a)))"

type_synonym flow_target = "direction \<times> string option \<times> u16 \<times> bool"

definition flow_target :: "tessera_flow \<Rightarrow> flow_target" where
  "flow_target f = (tf_direction f, tf_peer f, tf_port f, tf_any_source f)"

definition flow_id_ok :: "string \<Rightarrow> bool" where
  "flow_id_ok v =
     (v \<noteq> [] \<and> length v \<le> 32 \<and>
      list_all (\<lambda>b. is_ascii_alphanumeric b \<or> b = CHR ''_'' \<or> b = CHR ''-'') v)"

definition flow_peer_ok :: "string option \<Rightarrow> bool" where
  "flow_peer_ok peer =
     (case Option.bind peer parse_ipv4 of
        None \<Rightarrow> False
      | Some ip \<Rightarrow> octet 0 ip \<noteq> 0 \<and> octet 0 ip \<noteq> 127 \<and> octet 0 ip < 224)"

fun flows_walk ::
  "nat \<Rightarrow> string list \<Rightarrow> flow_target list \<Rightarrow> tessera_flow list \<Rightarrow> field_error list" where
  "flows_walk i ids targets [] = []"
| "flows_walk i ids targets (f # fs) =
     (let path = index_path ''tessera.flows'' i
      in check (flow_id_ok (tf_id f) \<and> tf_id f \<notin> set ids) (path @ ''.id'')
           ''unique ID of 1..=32 ASCII letters/digits/_/- required'' @
         range_check (unat (tf_port f)) 1024 65535 (path @ ''.port'') @
         check (flow_target f \<notin> set targets) path ''duplicate peer/port/direction flow'' @
         check (\<not> tf_any_source f \<or>
                (tf_direction f = Rx \<and> (case tf_peer f of None \<Rightarrow> True | Some p \<Rightarrow> p = [])))
           (path @ ''.any_source'') ''RX only and excludes peer'' @
         (if tf_any_source f then []
          else check (flow_peer_ok (tf_peer f)) (path @ ''.peer'') ''must be canonical unicast IPv4'') @
         (case tf_frames_per_packet f of
            None \<Rightarrow> []
          | Some frames \<Rightarrow>
              check (tf_direction f = Tx) (path @ ''.frames_per_packet'') ''TX only'' @
              range_check (unat frames) 1 1024 (path @ ''.frames_per_packet'')) @
         flows_walk (Suc i)
           (if flow_id_ok (tf_id f) \<and> tf_id f \<notin> set ids then tf_id f # ids else ids)
           (flow_target f # targets) fs)"

definition tessera_check :: "tessera \<Rightarrow> audio \<Rightarrow> field_error list" where
  "tessera_check t a =
     (let d = te_device t
      in check (td_name d \<noteq> [] \<and> length (td_name d) \<le> 31 \<and> \<not> controls (td_name d))
           ''tessera.device.name'' ''must be 1..=31 UTF-8 bytes without controls'' @
         range_check (unat (td_sample_rate d)) 8000 384000 ''tessera.device.sample_rate'' @
         check (td_encoding d \<in> {16, 24, 32}) ''tessera.device.encoding'' ''must be 16, 24 or 32'' @
         range_check (unat (td_latency_us d)) 1 1000000 ''tessera.device.latency_us'' @
         range_check (unat (td_rx_channels d)) 1 16 ''tessera.device.rx_channels'' @
         range_check (unat (td_tx_channels d)) 1 16 ''tessera.device.tx_channels'' @
         labels_check ''rx'' (td_rx_channels d) (td_rx_labels d) @
         labels_check ''tx'' (td_tx_channels d) (td_tx_labels d) @
         check (\<not> tessera_active a \<or> td_sample_rate d = 48000) ''tessera.device.sample_rate''
           ''active NDIMon audio endpoints require 48000 Hz'' @
         flows_walk 0 [] [] (te_flows t) @
         check (length (filter (\<lambda>f. tf_direction f = Rx) (te_flows t)) \<le> 1) ''tessera.flows''
           ''only one RX flow; it carries all channels'' @
         check (flow_write_size (te_flows t) \<le> 60000) ''tessera.flows'' ''flow set exceeds 60 KB'')"

definition display_check :: "display \<Rightarrow> field_error list" where
  "display_check d =
     (let s = di_splash d
      in concat (map (\<lambda>(name, v).
             check (is_finite v \<and> in_f64_range 0 100 v) (''display.splash.'' @ name)
               ''must be finite and 0..=100'')
           [(''logo_x_pct'', sp_logo_x_pct s), (''logo_y_pct'', sp_logo_y_pct s),
            (''logo_w_pct'', sp_logo_w_pct s), (''text_height_pct'', sp_text_height_pct s)]) @
         (case sp_logo s of
            None \<Rightarrow> []
          | Some logo \<Rightarrow>
              check (length (asr_sha256 logo) = 64 \<and>
                     list_all (\<lambda>b. is_ascii_digit b \<or> (97 \<le> byte b \<and> byte b \<le> 102)) (asr_sha256 logo))
                ''display.splash.logo.sha256'' ''must be lowercase SHA-256'' @
              check (asr_media_type logo \<in> {''image/png'', ''image/jpeg''})
                ''display.splash.logo.media_type'' ''logo must be PNG or JPEG (Splash.js)'') @
         check (utf16_len (osd_text (di_osd d)) \<le> 128) ''display.osd.text'' ''at most 128 UTF-16 units'')"

section \<open>The whole document\<close>

definition output_check :: "output_id \<Rightarrow> output_cfg \<Rightarrow> field_error list" where
  "output_check ident out =
     (let path = ''outputs.'' @ dec (unat ident)
      in output_id_check ident path @
         check (is_trimmed (out_alias out)) (path @ ''.alias'') ''must be trimmed'' @
         check (out_source_selection out = ''NDI'') (path @ ''.source_selection'') ''only NDI is supported'' @
         (case out_source out of None \<Rightarrow> [] | Some src \<Rightarrow> source_ref_check src (path @ ''.source'')) @
         check (ov_rotation (out_video out) \<in> {0, 180}) (path @ ''.video.rotation'')
           ''must be 0 or 180; planner must also check plane support'' @
         (case ov_resolution (out_video out) of
            ResAuto \<Rightarrow> []
          | ResMode width height refresh_hz \<Rightarrow>
              check (0 < width) (path @ ''.video.resolution.mode.width'') ''must be positive'' @
              check (0 < height) (path @ ''.video.resolution.mode.height'') ''must be positive'' @
              check (case refresh_hz of Finite q \<Rightarrow> 0 \<le> q | _ \<Rightarrow> False)
                (path @ ''.video.resolution.mode.refresh_hz'') ''must be finite and nonnegative''))"

definition ndi_check :: "ndi \<Rightarrow> field_error list" where
  "ndi_check n =
     check (ndi_groups n \<noteq> []) ''ndi.groups'' ''at least one group'' @
     each (\<lambda>i group. check (\<not> is_blank group \<and> CHR '','' \<notin> set group) (index_path ''ndi.groups'' i)
             ''must be a nonempty individual group'') (ndi_groups n) @
     each (\<lambda>i ip. check (parse_ipv4 ip \<noteq> None) (index_path ''ndi.off_subnet_sources'' i) ''must be IPv4'')
       (ndi_off_subnet_sources n) @
     each (\<lambda>i host. check (valid_host host) (index_path ''ndi.discovery_servers'' i)
             ''must be an IP address or hostname'') (ndi_discovery_servers n)"

definition preset_check :: "string \<Rightarrow> preset \<Rightarrow> field_error list" where
  "preset_check name p =
     (let path = ''presets.'' @ name
      in check (name \<noteq> [] \<and> is_trimmed name \<and> utf16_len name \<le> 64) path
           ''name must be trimmed, nonempty and at most 64 UTF-16 units'' @
         source_ref_check (pr_source p) (path @ ''.source''))"

definition plugin_check ::
  "((string, json) bmap option \<Rightarrow> string option) \<Rightarrow> string \<Rightarrow> plugin_state \<Rightarrow> field_error list" where
  "plugin_check to_vec name p =
     (let path = ''plugins.'' @ name
      in check (identifier_ok name \<and> 2 \<le> length name) path ''invalid plugin name'' @
         check (\<not> pl_enabled p \<or> pl_installed p) (path @ ''.enabled'') ''enabled plugin must be installed'' @
         check (case to_vec (pl_state p) of None \<Rightarrow> False | Some bytes \<Rightarrow> length bytes \<le> 1024 * 1024)
           (path @ ''.state'') ''plugin data exceeds 1 MiB'' @
         check (pl_version p = [] \<or> valid_version (pl_version p)) (path @ ''.version'')
           ''invalid plugin version'')"

definition document_errors ::
  "((string, json) bmap option \<Rightarrow> string option) \<Rightarrow> desired_state \<Rightarrow> field_error list" where
  "document_errors to_vec st =
     check (ds_schema_version st = SCHEMA_VERSION) ''schema_version'' ''unsupported schema version'' @
     device_check (ds_device st) @
     check (length (ds_outputs st) \<le> 8) ''outputs'' ''at most 8 outputs'' @
     concat (map (\<lambda>(ident, out). output_check ident out) (ds_outputs st)) @
     ndi_check (ds_ndi st) @
     audio_check (ds_audio st) @
     concat (map (\<lambda>ident. check (bt_contains (ds_outputs st) ident)
        (''audio.outputs.'' @ dec (unat ident)) ''output is not configured'') (bt_keys (au_outputs (ds_audio st)))) @
     network_check (ds_network st) @
     (case ds_tessera st of None \<Rightarrow> [] | Some t \<Rightarrow> tessera_check t (ds_audio st)) @
     display_check (ds_display st) @
     check (length (ds_presets st) \<le> 32) ''presets'' ''at most 32 presets'' @
     concat (map (\<lambda>(name, p). preset_check name p) (ds_presets st)) @
     concat (map (\<lambda>(name, p). plugin_check to_vec name p) (ds_plugins st))"

definition validate ::
  "((string, json) bmap option \<Rightarrow> string option) \<Rightarrow> desired_state \<Rightarrow> (unit, field_error list) result" where
  "validate to_vec st =
     (let errors = document_errors to_vec st in if errors = [] then Inr () else Inl errors)"

section \<open>What an empty error list means\<close>

named_theorems nil_simps \<open>empty error lists\<close>

lemma check_nil [simp, nil_simps]: "check c p r = [] \<longleftrightarrow> c"
  by (simp add: check_def)

lemma check_True [simp]: "check True p r = []"
  by simp

lemma range_check_nil [simp, nil_simps]: "range_check v lo hi p = [] \<longleftrightarrow> lo \<le> v \<and> v \<le> hi"
  by (simp add: range_check_def)

lemma gain_check_nil [simp, nil_simps]: "gain_check v p = [] \<longleftrightarrow> in_f64_range (- 60) 12 v"
  by (cases v) (auto simp: gain_check_def is_finite_def in_f64_range_def)

lemma each_nil [nil_simps]: "each f xs = [] \<longleftrightarrow> (\<forall>i < length xs. f i (xs ! i) = [])"
proof -
  have "set (enumerate 0 xs) = (\<lambda>i. (i, xs ! i)) ` {..<length xs}"
    by (force simp: in_set_enumerate_eq)
  then show ?thesis
    by (auto simp: each_def)
qed

lemma each_Nil [simp]: "each f [] = []"
  by (simp add: each_def)

lemma concat_map_nil [nil_simps]: "concat (map f xs) = [] \<longleftrightarrow> (\<forall>x \<in> set xs. f x = [])"
  by auto

lemma validate_ok: "validate to_vec st = Inr () \<longleftrightarrow> document_errors to_vec st = []"
  by (simp add: validate_def Let_def)

lemma document_errors_parts:
  assumes "document_errors to_vec st = []"
  shows "network_check (ds_network st) = []" "audio_check (ds_audio st) = []"
    "\<And>t. ds_tessera st = Some t \<Longrightarrow> tessera_check t (ds_audio st) = []"
    "ds_schema_version st = SCHEMA_VERSION" "length (ds_outputs st) \<le> 8" "length (ds_presets st) \<le> 32"
    "\<And>i cfg. (i, cfg) \<in> set (ds_outputs st) \<Longrightarrow> output_check i cfg = []"
    "\<And>nm p. (nm, p) \<in> set (ds_presets st) \<Longrightarrow> preset_check nm p = []"
    "\<And>nm p. (nm, p) \<in> set (ds_plugins st) \<Longrightarrow> plugin_check to_vec nm p = []"
    "\<And>i. i \<in> set (bt_keys (au_outputs (ds_audio st))) \<Longrightarrow> bt_contains (ds_outputs st) i"
  using assms by (force simp: document_errors_def)+

lemma document_errors_revision [simp]:
  "document_errors to_vec (st\<lparr>ds_revision := r\<rparr>) = document_errors to_vec st"
  by (simp add: document_errors_def cong: option.case_cong)

lemma validate_renumber [simp]: "validate to_vec (st\<lparr>ds_revision := r\<rparr>) = validate to_vec st"
  by (simp add: validate_def)

section \<open>Subnets\<close>

definition in_subnet :: "ipv4 \<Rightarrow> ipv4 \<Rightarrow> u8 \<Rightarrow> bool" where
  "in_subnet x ip prefix = (x AND netmask prefix = ip AND netmask prefix)"

lemma in_subnet_interval:
  assumes "in_subnet x ip p"
  shows "subnet_first ip p \<le> x" "x \<le> subnet_last ip p"
proof -
  have first: "subnet_first ip p = x AND netmask p"
    using assms by (simp add: in_subnet_def subnet_first_def)
  then show "subnet_first ip p \<le> x"
    by (simp add: word_and_le2)
  have "subnet_last ip p = x OR NOT (netmask p)"
    unfolding subnet_last_def first by (simp add: bit_eq_iff bit_simps) blast
  then show "x \<le> subnet_last ip p"
    by (simp add: le_word_or2)
qed

definition disjoint_ranges :: "u32 \<times> u32 \<Rightarrow> u32 \<times> u32 \<Rightarrow> bool" where
  "disjoint_ranges s t = (\<not> (fst s \<le> snd t \<and> fst t \<le> snd s))"

lemma disjoint_ranges_sym: "disjoint_ranges s t \<Longrightarrow> disjoint_ranges t s"
  by (auto simp: disjoint_ranges_def)

lemma row_address_subnet:
  assumes "row_address path subnets row = []" "row_subnet row = Some s" "t \<in> set subnets"
  shows "disjoint_ranges t s"
  using assms
  by (auto simp: row_address_def row_subnet_def Let_def list_ex_iff disjoint_ranges_def
      split: if_splits option.splits)

definition claimed_subnets :: "network_profile list \<Rightarrow> (u32 \<times> u32) list" where
  "claimed_subnets rows = concat (map (\<lambda>row. list_of_option (row_subnet row)) rows)"

lemma network_rows_subnets:
  assumes "fst (network_rows n i ids tags subnets rows) = []" "sorted_wrt disjoint_ranges subnets"
  shows "sorted_wrt disjoint_ranges (subnets @ claimed_subnets rows)"
  using assms
proof (induction n i ids tags subnets rows rule: network_rows.induct)
  case (2 n i ids tags subnets row rows)
  from 2(2) have row: "row_address (index_path ''network.networks'' i) subnets row = []"
    by (auto simp: Let_def split: prod.splits)
  have "sorted_wrt disjoint_ranges (subnets @ list_of_option (row_subnet row))"
    using 2(3) row_address_subnet [OF row]
    by (auto simp: sorted_wrt_append list_of_option_def split: option.splits)
  with 2(2) show ?case
    using "2.IH" [OF refl refl refl]
    by (auto simp: Let_def claimed_subnets_def split: prod.splits)
qed (simp add: claimed_subnets_def)

text \<open>What the row loop checked, for one row.\<close>

definition row_accepted :: "network_profiles \<Rightarrow> network_profile \<Rightarrow> bool" where
  "row_accepted n row =
     (identifier_ok (np_id row) \<and> row_common n [] row = [] \<and> row_address [] [] row = [] \<and>
      (case np_vlan_id row of None \<Rightarrow> True | Some tag \<Rightarrow> 1 \<le> unat tag \<and> unat tag \<le> 4094))"

lemma row_common_path: "row_common n path row = [] \<Longrightarrow> row_common n path' row = []"
  by (simp add: row_common_def nil_simps)

lemma row_address_path: "row_address path subnets row = [] \<Longrightarrow> row_address path' [] row = []"
  by (auto simp: row_address_def Let_def split: if_splits option.splits)

lemma network_rows_spec:
  assumes "network_rows n i ids tags subnets rows = ([], ids', tags')"
  shows "ids' = rev (map np_id rows) @ ids \<and> tags' = rev (map np_vlan_id rows) @ tags \<and>
    distinct (map np_id rows) \<and> set (map np_id rows) \<inter> set ids = {} \<and>
    distinct (map np_vlan_id rows) \<and> set (map np_vlan_id rows) \<inter> set tags = {} \<and>
    list_all (row_accepted n) rows"
  using assms
proof (induction n i ids tags subnets rows rule: network_rows.induct)
  case (2 n i ids tags subnets row rows)
  let ?path = "index_path ''network.networks'' i"
  have here: "identifier_ok (np_id row)" "np_id row \<notin> set ids" "np_vlan_id row \<notin> set tags"
    "row_common n ?path row = []" "row_address ?path subnets row = []"
    "case np_vlan_id row of None \<Rightarrow> True | Some tag \<Rightarrow> 1 \<le> unat tag \<and> unat tag \<le> 4094"
    using "2.prems" by (auto simp: Let_def row_tag_def split: prod.splits option.splits)
  then have "row_accepted n row"
    by (auto simp: row_accepted_def intro: row_common_path row_address_path)
  moreover have "network_rows n (Suc i) (np_id row # ids) (np_vlan_id row # tags)
       (subnets @ list_of_option (row_subnet row)) rows = ([], ids', tags')"
    using "2.prems" here by (auto simp: Let_def split: prod.splits)
  ultimately show ?case
    using "2.IH" [OF refl refl refl] here by auto
qed simp

lemma claimed_subnets_rows:
  assumes "sorted_wrt disjoint_ranges (claimed_subnets rows)"
  shows "sorted_wrt (\<lambda>r r'. \<forall>s t. row_subnet r = Some s \<longrightarrow> row_subnet r' = Some t \<longrightarrow>
           disjoint_ranges s t) rows"
  using assms
  by (induction rows)
     (force simp: claimed_subnets_def list_of_option_def sorted_wrt_append split: option.splits)+

lemma network_check_adopted:
  assumes "network_check n = []" "nps_backend n \<noteq> None"
  shows "fst (network_rows n 0 [] [] [] (nps_networks n)) = []"
    "list_all (row_accepted n) (nps_networks n)"
    "distinct (map np_id (nps_networks n))" "distinct (map np_vlan_id (nps_networks n))"
    "1 \<le> length (nps_networks n)" "length (nps_networks n) \<le> 9"
    "{nr_management (nps_roles n), nr_ndi (nps_roles n), nr_audio (nps_roles n)} \<subseteq>
       np_id ` set (nps_networks n)"
proof -
  obtain ids tags where rows: "network_rows n 0 [] [] [] (nps_networks n) = ([], ids, tags)"
    using assms by (auto simp: network_check_def Let_def split: prod.splits)
  then show "fst (network_rows n 0 [] [] [] (nps_networks n)) = []"
    by simp
  from network_rows_spec [OF rows]
  show "list_all (row_accepted n) (nps_networks n)"
    "distinct (map np_id (nps_networks n))" "distinct (map np_vlan_id (nps_networks n))"
    by auto
  show "1 \<le> length (nps_networks n)" "length (nps_networks n) \<le> 9"
    using assms rows by (auto simp: network_check_def Let_def)
  have "ids = rev (map np_id (nps_networks n))"
    using network_rows_spec [OF rows] by simp
  then show "{nr_management (nps_roles n), nr_ndi (nps_roles n), nr_audio (nps_roles n)} \<subseteq>
       np_id ` set (nps_networks n)"
    using assms rows by (auto simp: network_check_def Let_def)
qed

lemma network_check_nth:
  assumes "network_check n = []" "i < length (nps_networks n)"
  shows "nps_backend n \<noteq> None" "row_accepted n (nps_networks n ! i)"
proof -
  show backend: "nps_backend n \<noteq> None"
    using assms by (cases "nps_backend n") (auto simp: network_check_def)
  show "row_accepted n (nps_networks n ! i)"
    using network_check_adopted(2) [OF assms(1) backend] assms(2) by (simp add: list_all_length)
qed

lemma row_accepted_static:
  assumes "row_accepted n row" "np_mode row \<noteq> Dhcp"
  obtains ip where "parse_ipv4 (np_address row) = Some ip" "prefix_ok (np_prefix row)"
    "row_subnet row = Some (subnet_first ip (np_prefix row), subnet_last ip (np_prefix row))"
    "ip \<noteq> subnet_first ip (np_prefix row)" "ip \<noteq> subnet_last ip (np_prefix row)"
    "\<And>gw. parse_ipv4 (np_gateway row) = Some gw \<Longrightarrow> in_subnet gw ip (np_prefix row)"
    "np_gateway row = [] \<or> parse_ipv4 (np_gateway row) \<noteq> None"
    "\<not> is_loopback ip" "\<not> is_multicast ip" "\<not> is_unspecified ip" "\<not> is_link_local ip"
proof -
  have "row_address [] [] row = []"
    using assms(1) by (simp add: row_accepted_def)
  moreover from this assms(2) obtain ip where "parse_ipv4 (np_address row) = Some ip"
    by (auto simp: row_address_def)
  ultimately show thesis
    using that assms(2)
    by (auto simp: row_address_def row_subnet_def Let_def prefix_ok_def in_subnet_def subnet_first_def
        split: if_splits option.splits)
qed

section \<open>The accepted audio graph\<close>

text \<open>The physical channels a sink writes.\<close>

definition writes_channel :: "audio_sink \<Rightarrow> string \<Rightarrow> nat \<Rightarrow> bool" where
  "writes_channel s resource ch =
     (resource \<noteq> [] \<and> asi_resource s = resource \<and>
      unat (asi_channel_start s) \<le> ch \<and> ch < unat (asi_channel_start s) + unat (asi_channel_count s))"

lemma writes_same: "writes_channel x res ch \<Longrightarrow> writes_channel y res ch \<Longrightarrow> same_writer x y"
  by (auto simp: writes_channel_def same_writer_def overlap_def)

lemma same_writer_sym: "same_writer x y \<Longrightarrow> same_writer y x"
  by (auto simp: same_writer_def overlap_def)

lemma audio_check_parts:
  assumes "audio_check a = []"
  shows "writers_check a = []" "fst (route_walk a [] [] (au_routes a)) = []"
    "audio_settings_check a = []" "audio_nodes_check a = []"
    "selection_check a (snd (route_walk a [] [] (au_routes a))) = []"
  using assms by (auto simp: audio_check_def split: prod.splits)

lemma writers_distinct:
  assumes "writers_check a = []" "au_engine a = V2"
    "bt_get (au_sinks a) k = Some x" "bt_get (au_sinks a) k' = Some y" "k \<noteq> k'"
  shows "\<not> same_writer x y"
proof -
  let ?R = "\<lambda>p q. \<not> same_writer (snd p) (snd q)"
  have "\<forall>(p, q) \<in> set (pairs (au_sinks a)). ?R p q"
    using assms(1,2) by (fastforce simp: writers_check_def concat_map_nil)
  then have sorted: "sorted_wrt ?R (au_sinks a)"
    by (simp add: pairs_sorted_wrt)
  obtain i j where ij: "i < length (au_sinks a)" "au_sinks a ! i = (k, x)"
    "j < length (au_sinks a)" "au_sinks a ! j = (k', y)"
    using assms(3,4) by (meson bt_get_mem in_set_conv_nth)
  with assms(5) have "i \<noteq> j" by auto
  with sorted_wrt_nth_sym [OF sorted ij(1,3)] ij show ?thesis
    using same_writer_sym by auto
qed

lemma route_walk_contributions:
  assumes "fst (route_walk a seen inputs routes) = []"
  shows "distinct (List.map_filter (contribution a \<circ> snd) routes) \<and>
    set (List.map_filter (contribution a \<circ> snd) routes) \<inter> set seen = {}"
  using assms
  by (induction a seen inputs routes rule: route_walk.induct)
     (auto simp: List.map_filter_simps split: prod.splits option.splits)

lemma route_walk_static:
  assumes "fst (route_walk a seen inputs routes) = []" "(k, r) \<in> set routes"
  shows "route_static a k r = []"
  using assms
  by (induction a seen inputs routes rule: route_walk.induct)
     (auto split: prod.splits option.splits)

section \<open>Tessera flows\<close>

lemma flows_walk_spec:
  assumes "flows_walk i ids targets flows = []"
  shows "distinct (map tf_id flows) \<and> set (map tf_id flows) \<inter> set ids = {} \<and>
    distinct (map flow_target flows) \<and> set (map flow_target flows) \<inter> set targets = {} \<and>
    list_all (\<lambda>f. flow_id_ok (tf_id f) \<and> 1024 \<le> unat (tf_port f) \<and>
       (tf_any_source f \<longrightarrow> tf_direction f = Rx) \<and> (\<not> tf_any_source f \<longrightarrow> flow_peer_ok (tf_peer f))) flows"
  using assms
proof (induction i ids targets flows rule: flows_walk.induct)
  case (2 i ids targets f fs)
  have here: "flow_id_ok (tf_id f)" "tf_id f \<notin> set ids" "flow_target f \<notin> set targets"
    "1024 \<le> unat (tf_port f)" "tf_any_source f \<longrightarrow> tf_direction f = Rx"
    "\<not> tf_any_source f \<longrightarrow> flow_peer_ok (tf_peer f)"
    using "2.prems" by (simp_all add: Let_def split: if_splits)
  then have "flows_walk (Suc i) (tf_id f # ids) (flow_target f # targets) fs = []"
    using "2.prems" by (simp add: Let_def)
  from "2.IH" [OF refl] this here(1,2)
  have "distinct (map tf_id fs) \<and> set (map tf_id fs) \<inter> set (tf_id f # ids) = {} \<and>
    distinct (map flow_target fs) \<and> set (map flow_target fs) \<inter> set (flow_target f # targets) = {} \<and>
    list_all (\<lambda>f. flow_id_ok (tf_id f) \<and> 1024 \<le> unat (tf_port f) \<and>
       (tf_any_source f \<longrightarrow> tf_direction f = Rx) \<and> (\<not> tf_any_source f \<longrightarrow> flow_peer_ok (tf_peer f))) fs"
    by (simp only: if_True simp_thms)
  with here show ?case
    by simp
qed simp

section \<open>Host names from aliases\<close>

lemma hostname_code_dash: "hostname_code 45"
  by (simp add: hostname_code_def)

lemma alias_walk_codes:
  assumes "\<forall>c \<in> set out. hostname_code c"
  shows "\<forall>c \<in> set (alias_walk cs sep out). hostname_code c"
  using assms
proof (induction cs sep out rule: alias_walk.induct)
  case (2 ch cs separator out)
  show ?case
  proof (cases "hostname_code ch")
    case True
    then have "\<forall>c \<in> set ((if separator \<and> out \<noteq> [] then out @ [45] else out) @ [ch]). hostname_code c"
      using "2.prems" hostname_code_dash by auto
    with "2.IH"(1) True show ?thesis by simp
  next
    case False
    with "2.IH"(2) [OF False "2.prems"] show ?thesis by (simp only: alias_walk.simps if_False simp_thms)
  qed
qed (simp only: alias_walk.simps)

lemma set_trim_dashes: "set (trim_dashes cs) \<subseteq> set cs"
  unfolding trim_dashes_def by (auto dest!: set_dropWhileD)

lemma trim_dashes_ends:
  assumes "trim_dashes cs \<noteq> []"
  shows "hd (trim_dashes cs) \<noteq> 45" "last (trim_dashes cs) \<noteq> 45"
proof -
  let ?l = "dropWhile (\<lambda>c. c = 45) cs"
  have rest: "dropWhile (\<lambda>c. c = 45) (rev ?l) \<noteq> []"
    using assms by (simp add: trim_dashes_def)
  then show "last (trim_dashes cs) \<noteq> 45"
    using hd_dropWhile [OF rest] by (simp add: trim_dashes_def last_rev)
  have "?l \<noteq> []" using rest by (auto simp del: dropWhile_eq_Nil_conv)
  moreover have "hd (trim_dashes cs) = hd ?l"
  proof -
    obtain ys where "rev ?l = ys @ dropWhile (\<lambda>c. c = 45) (rev ?l)"
      by (metis takeWhile_dropWhile_id)
    then have "?l = trim_dashes cs @ rev ys"
      unfolding trim_dashes_def by (metis rev_append rev_rev_ident)
    with assms show ?thesis by (metis hd_append)
  qed
  ultimately show "hd (trim_dashes cs) \<noteq> 45"
    using hd_dropWhile [of "\<lambda>c. c = 45" cs] by simp
qed

lemma hostname_code_char:
  assumes "hostname_code c"
  shows "c \<noteq> 45 \<Longrightarrow> is_ascii_alphanumeric (char_of c)"
    "is_ascii_alphanumeric (char_of c) \<or> char_of c = CHR ''-''"
proof -
  have dash: "char_of (45::nat) = CHR ''-''"
    by code_simp
  show "c \<noteq> 45 \<Longrightarrow> is_ascii_alphanumeric (char_of c)"
    using assms by (auto simp: hostname_code_def ascii_defs)
  then show "is_ascii_alphanumeric (char_of c) \<or> char_of c = CHR ''-''"
    using dash by (cases "c = 45") auto
qed

text \<open>
  For every alias the derived host name is a label the validator accepts, except when the cut
  to 63 bytes leaves a hyphen at its end.
\<close>

theorem alias_hostname_shape:
  "valid_device_label (alias_hostname alias) \<or>
   (length (alias_hostname alias) = 63 \<and> last (alias_hostname alias) = CHR ''-'')"
proof -
  define out where "out = trim_dashes (alias_walk (trim_chars (chars alias)) False [])"
  have codes: "\<forall>c \<in> set out. hostname_code c"
    using alias_walk_codes [of "[]"] set_trim_dashes unfolding out_def by fastforce
  show ?thesis
  proof (cases "take 63 out = []")
    case True
    then have "alias_hostname alias = ''ndimon''"
      by (simp add: alias_hostname_def Let_def out_def)
    then show ?thesis
      by (simp add: valid_device_label_def ascii_defs)
  next
    case False
    then have out: "out \<noteq> []" by auto
    have name: "alias_hostname alias = map char_of (take 63 out)"
      using False by (simp add: alias_hostname_def Let_def out_def)
    have ends: "hd out \<noteq> 45" "last out \<noteq> 45"
      using out trim_dashes_ends unfolding out_def by auto
    have len: "length (alias_hostname alias) \<le> 63" "alias_hostname alias \<noteq> []"
      using out by (auto simp: name)
    have first: "is_ascii_alphanumeric (hd (alias_hostname alias))"
      using out ends codes by (auto simp: name hd_map intro!: hostname_code_char)
    have all: "\<forall>b \<in> set (alias_hostname alias). is_ascii_alphanumeric b \<or> b = CHR ''-''"
      using codes hostname_code_char(2) by (auto simp: name dest!: in_set_takeD)
    show ?thesis
    proof (cases "length out < 63")
      case True
      then have "last (alias_hostname alias) = char_of (last out)"
        using out by (simp add: name last_map)
      then have "is_ascii_alphanumeric (last (alias_hostname alias))"
        using out ends codes by (auto intro!: hostname_code_char)
      with first all len show ?thesis
        by (auto simp: valid_device_label_def list_all_iff)
    next
      case False
      then have "length (alias_hostname alias) = 63"
        by (simp add: name)
      with first all len show ?thesis
        by (auto simp: valid_device_label_def list_all_iff)
    qed
  qed
qed

section \<open>Concrete documents\<close>

text \<open>A document with two static networks and one served by DHCP, used as a concrete input.\<close>

definition static_row :: "string \<Rightarrow> u16 option \<Rightarrow> string \<Rightarrow> u8 \<Rightarrow> string \<Rightarrow> network_profile" where
  "static_row ident tag address prefix gateway =
     \<lparr>np_id = ident, np_name = ident, np_vlan_id = tag, np_mode = Static, np_address = address,
      np_prefix = prefix, np_gateway = gateway, np_dns = [], np_dns_search = []\<rparr>"

definition sample_network :: network_profiles where
  "sample_network =
     \<lparr>nps_interface = ''eth0'', nps_backend = Some Networkd,
      nps_networks = [static_row ''mgmt'' None ''10.0.0.5'' 24 ''10.0.0.1'',
                      static_row ''media'' (Some 20) ''10.0.1.5'' 24 []],
      nps_roles = \<lparr>nr_management = ''mgmt'', nr_ndi = ''media'', nr_audio = ''media''\<rparr>,
      nps_confirm_policy = TokenOnly\<rparr>"

definition sample_document :: desired_state where
  "sample_document = default_desired_state\<lparr>ds_network := sample_network\<rparr>"

lemma default_routes:
  "route_walk default_audio [] [] (au_routes default_audio) = ([], [(1, [''ndi''])])"
  by (simp add: default_audio_def new_audio_route_def contribution_def route_static_def text_eval
      identifier_ok_def bt_get_def default_output_audio_def ndi_audio_source_def new_audio_sink_def
      select_input_def bt_contains_def output_id_check_def route_gain_ok_def is_finite_def
      in_f64_range_def range_check_def Let_def check_def insort_insert_key_def)

lemma default_audio_ok: "audio_check default_audio = []"
  unfolding audio_check_def default_routes
  by (simp add: default_audio_def nil_simps audio_settings_check_def audio_nodes_check_def
      writers_check_def selection_check_def output_audio_check_def default_audio_engine_settings_def
      bt_get_def default_output_audio_def Let_def output_id_check_def endpoint_choice_check_def
      new_audio_input_def new_audio_destination_def in_f64_range_def text_eval is_finite_def
      source_check_def sink_check_def node_geometry_check_def ndi_audio_source_def
      new_audio_sink_def identifier_ok_def valid_pcm_def)

lemma default_parts_ok:
  "device_check default_device = []" "output_check 1 default_output = []"
  "network_check default_network_profiles = []"
  by code_simp+

lemma default_ndi_ok: "ndi_check default_ndi = []"
  by (simp add: ndi_check_def nil_simps default_ndi_def text_eval nth_Cons')

lemma default_display_ok: "display_check default_display = []"
  by (simp add: display_check_def default_display_def nil_simps text_eval default_splash_def
      is_finite_def in_f64_range_def)

lemmas default_ok = default_audio_ok default_parts_ok default_ndi_ok default_display_ok

lemma document_with_audio_ok:
  assumes "audio_check a = []" "set (bt_keys (au_outputs a)) \<subseteq> {1}"
    "\<And>t. tess = Some t \<Longrightarrow> tessera_check t a = []"
  shows "validate to_vec (default_desired_state\<lparr>ds_audio := a, ds_tessera := tess\<rparr>) = Inr ()"
  using assms
  by (auto simp: validate_ok document_errors_def default_desired_state_def default_ok bt_contains_def
      bt_get_def split: option.splits)

lemma document_with_network_ok:
  "network_check n = [] \<Longrightarrow> validate to_vec (default_desired_state\<lparr>ds_network := n\<rparr>) = Inr ()"
  by (simp add: validate_ok document_errors_def default_desired_state_def default_ok)
     (simp add: default_audio_def bt_keys_def bt_contains_def bt_get_def Let_def)

lemma sample_addresses:
  "parse_ipv4 ''10.0.0.5'' = Some 0x0A000005" "parse_ipv4 ''10.0.0.1'' = Some 0x0A000001"
  "parse_ipv4 ''10.0.1.5'' = Some 0x0A000105" "parse_ipv4 [] = None"
  by (simp_all add: ipv4_eval text_eval)

lemma netmask_24: "netmask 24 = 0xFFFFFF00"
  by (simp add: netmask_def mask_eq_exp_minus_1)

lemma sample_network_ok: "network_check sample_network = []"
  by (simp add: network_check_def sample_network_def static_row_def nil_simps text_eval
      interface_name_ok_def identifier_ok_def row_name_ok_def row_tag_def row_common_def
      row_address_def row_subnet_def list_of_option_def MAX_DNS_SEARCH_def sample_addresses Let_def
      subnet_first_def subnet_last_def netmask_24 prefix_ok_def octet_def is_loopback_def
      is_link_local_def is_multicast_def is_unspecified_def)

definition two_sinks :: audio where
  "two_sinks =
     default_audio\<lparr>au_engine := V2, au_sources := [], au_outputs := [], au_routes := [],
       au_settings := default_audio_engine_settings\<lparr>as_master := ''a''\<rparr>,
       au_sinks := [(''a'', new_audio_sink ''hw:0'' 2), (''b'', new_audio_sink ''hw:1'' 2)]\<rparr>"

lemma two_sinks_ok: "audio_check two_sinks = []"
  by (simp add: audio_check_def two_sinks_def default_audio_def nil_simps audio_settings_check_def
      audio_nodes_check_def writers_check_def selection_check_def default_audio_engine_settings_def
      bt_get_def Let_def sink_check_def node_geometry_check_def new_audio_sink_def identifier_ok_def
      valid_pcm_def text_eval same_writer_def overlap_def)

definition one_flow :: tessera where
  "one_flow = (new_tessera ''ndimon'' 2000)\<lparr>te_flows := [tx_flow ''tx1'' ''10.0.0.5'' 6000]\<rparr>"

lemma one_flow_ok: "tessera_check one_flow default_audio = []"
  by (simp add: tessera_check_def one_flow_def new_tessera_def tx_flow_def nil_simps text_eval Let_def
      controls_def labels_check_def flow_id_ok_def flow_target_def flow_peer_ok_def ipv4_eval
      flow_write_size_def flow_size_def json_string_size_def len_utf8_def)

section \<open>Properties\<close>

text \<open>
  The document the program starts from passes its own validation.
\<close>

theorem default_valid: "validate to_vec default_desired_state = Inr ()"
  using document_with_network_ok [OF default_parts_ok(3), of to_vec]
  by (simp add: default_desired_state_def)

text \<open>
  C35: In an accepted document no IPv4 address lies in the subnets of two different static networks.
\<close>

theorem accepted_subnets_disjoint:
  assumes "validate to_vec st = Inr ()"
    and "i < length (nps_networks (ds_network st))" "j < length (nps_networks (ds_network st))" "i \<noteq> j"
    and "a = nps_networks (ds_network st) ! i" "b = nps_networks (ds_network st) ! j"
    and "np_mode a \<noteq> Dhcp" "np_mode b \<noteq> Dhcp"
    and "parse_ipv4 (np_address a) = Some ip" "parse_ipv4 (np_address b) = Some ip'"
    and "in_subnet x ip (np_prefix a)"
  shows "\<not> in_subnet x ip' (np_prefix b)"
proof
  assume other: "in_subnet x ip' (np_prefix b)"
  let ?n = "ds_network st"
  have ok: "network_check ?n = []"
    using assms(1) by (simp add: validate_ok document_errors_parts)
  note acc = network_check_nth [OF ok]
  have "row_subnet a = Some (subnet_first ip (np_prefix a), subnet_last ip (np_prefix a))"
    using row_accepted_static [OF acc(2) [OF assms(2)]] assms by auto
  moreover have "row_subnet b = Some (subnet_first ip' (np_prefix b), subnet_last ip' (np_prefix b))"
    using row_accepted_static [OF acc(2) [OF assms(3)]] assms by auto
  moreover have "\<forall>s t. row_subnet a = Some s \<longrightarrow> row_subnet b = Some t \<longrightarrow> disjoint_ranges s t"
    unfolding assms(5,6)
    using network_rows_subnets [OF network_check_adopted(1) [OF ok acc(1) [OF assms(2)]]] assms(2-4)
    by (intro sorted_wrt_nth_sym [OF claimed_subnets_rows]) (auto intro: disjoint_ranges_sym)
  ultimately show False
    using in_subnet_interval [OF assms(11)] in_subnet_interval [OF other]
    by (auto simp: disjoint_ranges_def)
qed

theorem accepted_subnets_disjoint_witness:
  "\<not> in_subnet 0x0A000009 0x0A000105 24 \<and> in_subnet 0x0A000009 0x0A000005 24"
proof -
  have here: "in_subnet 0x0A000009 0x0A000005 24"
    by (simp add: in_subnet_def netmask_24)
  have "\<not> in_subnet 0x0A000009 0x0A000105 (np_prefix (nps_networks sample_network ! 1))"
    by (rule accepted_subnets_disjoint [where st = sample_document and i = 0 and j = 1 and ip = "0x0A000005"
          and a = "nps_networks sample_network ! 0" and to_vec = "\<lambda>_. None"])
       (use here sample_addresses document_with_network_ok [OF sample_network_ok] in
         \<open>simp_all add: sample_document_def sample_network_def static_row_def\<close>)
  with here show ?thesis
    by (simp add: sample_network_def static_row_def)
qed

text \<open>
  In an accepted document with an adopted network the identifiers and the VLAN tags of the rows
  are distinct, every role names an existing row, and only the management row has a gateway or a
  DNS server.
\<close>

theorem accepted_network_identities:
  assumes "validate to_vec st = Inr ()" and "n = ds_network st" and "nps_backend n \<noteq> None"
  shows "distinct (map np_id (nps_networks n)) \<and> distinct (map np_vlan_id (nps_networks n)) \<and>
    {nr_management (nps_roles n), nr_ndi (nps_roles n), nr_audio (nps_roles n)} \<subseteq>
      np_id ` set (nps_networks n) \<and>
    (\<forall>row \<in> set (nps_networks n). np_id row \<noteq> nr_management (nps_roles n) \<longrightarrow>
       np_gateway row = [] \<and> np_dns row = [] \<and> np_dns_search row = [])"
proof -
  have ok: "network_check n = []"
    using assms by (simp add: validate_ok document_errors_parts)
  note parts = network_check_adopted [OF ok assms(3)]
  then have "\<forall>row \<in> set (nps_networks n). np_id row \<noteq> nr_management (nps_roles n) \<longrightarrow>
       np_gateway row = [] \<and> np_dns row = [] \<and> np_dns_search row = []"
    by (auto simp: list_all_iff row_accepted_def row_common_def)
  with parts(3,4,7) show ?thesis by blast
qed

theorem accepted_network_identities_witness:
  "distinct (map np_id (nps_networks sample_network)) \<and> np_gateway (nps_networks sample_network ! 1) = []"
  using accepted_network_identities [where st = sample_document and n = sample_network
      and to_vec = "\<lambda>_. None"] document_with_network_ok [OF sample_network_ok]
  by (auto simp: sample_document_def sample_network_def static_row_def)

text \<open>
  In an accepted document a static network has a unicast host address strictly between the
  network and the broadcast address of its subnet, and a gateway of that subnet or none.
\<close>

theorem accepted_static_address:
  assumes "validate to_vec st = Inr ()" and "row \<in> set (nps_networks (ds_network st))"
    and "np_mode row = Static"
  shows "\<exists>ip. parse_ipv4 (np_address row) = Some ip \<and> \<not> is_loopback ip \<and> \<not> is_multicast ip \<and>
    subnet_first ip (np_prefix row) < ip \<and> ip < subnet_last ip (np_prefix row) \<and>
    (np_gateway row = [] \<or> (\<exists>gw. parse_ipv4 (np_gateway row) = Some gw \<and> in_subnet gw ip (np_prefix row)))"
proof -
  obtain i where i: "i < length (nps_networks (ds_network st))" "row = nps_networks (ds_network st) ! i"
    using assms(2) by (metis in_set_conv_nth)
  have "network_check (ds_network st) = []"
    using assms(1) by (simp add: validate_ok document_errors_parts)
  then have "row_accepted (ds_network st) row"
    using network_check_nth(2) i by blast
  moreover have "np_mode row \<noteq> Dhcp"
    using assms(3) by simp
  ultimately obtain ip where ip: "parse_ipv4 (np_address row) = Some ip"
    "ip \<noteq> subnet_first ip (np_prefix row)" "ip \<noteq> subnet_last ip (np_prefix row)"
    "\<And>gw. parse_ipv4 (np_gateway row) = Some gw \<Longrightarrow> in_subnet gw ip (np_prefix row)"
    "np_gateway row = [] \<or> parse_ipv4 (np_gateway row) \<noteq> None"
    "\<not> is_loopback ip" "\<not> is_multicast ip"
    by (rule row_accepted_static) metis
  have "in_subnet ip ip (np_prefix row)"
    by (simp add: in_subnet_def)
  from in_subnet_interval [OF this] ip show ?thesis
    by (metis option.exhaust order_le_imp_less_or_eq)
qed

theorem accepted_static_address_witness:
  "\<exists>ip. parse_ipv4 ''10.0.0.5'' = Some ip \<and> subnet_first ip 24 < ip \<and> ip < subnet_last ip 24"
  using accepted_static_address [where st = sample_document and to_vec = "\<lambda>_. None"
      and row = "static_row ''mgmt'' None ''10.0.0.5'' 24 ''10.0.0.1''"]
    document_with_network_ok [OF sample_network_ok]
  by (auto simp: sample_document_def sample_network_def static_row_def)



text \<open>
  In an accepted document every route names an existing output, source and sink, and no two
  active routes carry the same source to the same sink.
\<close>

theorem accepted_routes:
  assumes "validate to_vec st = Inr ()" and "a = ds_audio st"
  shows "distinct (List.map_filter (contribution a \<circ> snd) (au_routes a)) \<and>
    (\<forall>(k, r) \<in> set (au_routes a). bt_contains (au_outputs a) (ar_output r) \<and>
       bt_contains (ds_outputs st) (ar_output r) \<and>
       bt_contains (au_sources a) (ar_source r) \<and> bt_contains (au_sinks a) (ar_sink r))"
proof -
  have doc: "document_errors to_vec st = []"
    using assms by (simp add: validate_ok)
  have walk: "fst (route_walk a [] [] (au_routes a)) = []"
    using audio_check_parts(2) document_errors_parts(2) [OF doc] assms(2) by simp
  have "bt_contains (au_outputs a) (ar_output r) \<and> bt_contains (ds_outputs st) (ar_output r) \<and>
       bt_contains (au_sources a) (ar_source r) \<and> bt_contains (au_sinks a) (ar_sink r)"
    if "(k, r) \<in> set (au_routes a)" for k r
    using route_walk_static [OF walk that] document_errors_parts(10) [OF doc] assms(2)
    by (auto simp: route_static_def Let_def bt_contains_keys)
  with route_walk_contributions [OF walk] show ?thesis by auto
qed

theorem accepted_routes_witness:
  "distinct (List.map_filter (contribution default_audio \<circ> snd) (au_routes default_audio)) \<and>
   bt_contains (au_sinks default_audio) ''hdmi''"
  using accepted_routes [where st = default_desired_state and to_vec = "\<lambda>_. None" and a = default_audio]
    document_with_network_ok [OF default_parts_ok(3), of "\<lambda>_. None"]
  by (simp add: default_desired_state_def) (auto simp: default_audio_def new_audio_route_def Let_def)

text \<open>
  In an accepted document the Tessera flows have distinct names and distinct targets, and at
  most one of them receives.
\<close>

theorem accepted_flows:
  assumes "validate to_vec st = Inr ()" and "ds_tessera st = Some t"
  shows "distinct (map tf_id (te_flows t)) \<and> distinct (map flow_target (te_flows t)) \<and>
    length (filter (\<lambda>f. tf_direction f = Rx) (te_flows t)) \<le> 1 \<and>
    flow_write_size (te_flows t) \<le> 60000"
proof -
  have "tessera_check t (ds_audio st) = []"
    using assms by (simp add: validate_ok document_errors_parts)
  then show ?thesis
    using flows_walk_spec [of 0 "[]" "[]" "te_flows t"] by (auto simp: tessera_check_def Let_def)
qed

theorem accepted_flows_witness:
  "distinct (map tf_id (te_flows one_flow)) \<and> flow_write_size (te_flows one_flow) \<le> 60000"
proof -
  have "validate (\<lambda>_. None) (default_desired_state\<lparr>ds_audio := default_audio, ds_tessera := Some one_flow\<rparr>) = Inr ()"
    using default_audio_ok one_flow_ok
    by (intro document_with_audio_ok) (auto simp: default_audio_def bt_keys_def Let_def)
  from accepted_flows [OF this, of one_flow] show ?thesis by simp
qed

text \<open>
  Validation does not look at the revision number: a document can be given the next revision
  after it was validated, and a document that differs from an accepted one in nothing else is
  accepted too.
\<close>

theorem validate_revision:
  assumes "validate to_vec st = Inr ()" and "st'\<lparr>ds_revision := 0\<rparr> = st\<lparr>ds_revision := 0\<rparr>"
  shows "validate to_vec st' = Inr ()"
  using assms by (metis validate_renumber)

theorem validate_revision_witness:
  "validate (\<lambda>_. None) (default_desired_state\<lparr>ds_revision := 5\<rparr>) = Inr ()"
  by (rule validate_revision [where st = default_desired_state])
     (use document_with_network_ok [OF default_parts_ok(3), of "\<lambda>_. None"] in
       \<open>simp_all add: default_desired_state_def\<close>)

text \<open>
  An alias of 62 letters, a space and one more letter gives a host name of 63 bytes that ends
  in a hyphen and that the validator of the same file refuses.
\<close>

theorem alias_hostname_hyphen:
  "\<not> valid_device_label (alias_hostname ''aaaaaaaaaaaaaaaaaaaaaaaaaaaaaaaaaaaaaaaaaaaaaaaaaaaaaaaaaaaaaa b'')"
  by (simp add: valid_device_label_def alias_hostname_def Let_def text_eval hostname_code_def trim_dashes_def)

text \<open>
  An NDI endpoint may carry a plus sign before its port number, which the documented form
  (IPv4 with optional port 1..=65535) does not show.
\<close>

theorem ndi_endpoint_plus: "ndi_endpoint ''10.0.0.5:+80''"
  by (simp add: ndi_endpoint_def ipv4_eval text_eval)

end
