(* ===== verification/Wire.thy ===== *)
theory Wire
  imports Doc_Validation
begin

text \<open>
  The wire vocabulary of the control plane (ndimon-types/src/wire.rs and network.rs): domains,
  origins, commands and their requests, impacts, errors, events and observations, with the
  functions the wire types carry (\<open>requires_confirmation\<close>, \<open>needs_confirmation\<close>, \<open>http_status\<close>, the
  texts of errors). A variant whose name another enum of the sources also has carries a prefix.

  \<open>Domain\<close>, \<open>Service\<close> and \<open>ImpactScope\<close> derive \<open>Ord\<close> in the sources, in declaration order; they are
  instances of \<open>linorder\<close> here, so they can be keys of ordered maps.
\<close>

section \<open>Domains and scopes\<close>

datatype domain = DDevice | DOutputs | DNdi | DAudio | DNetwork | DTessera | DDisplay | DPresets | DPlugins

primrec domain_index :: "domain \<Rightarrow> nat" where
  "domain_index DDevice = 0"
| "domain_index DOutputs = 1"
| "domain_index DNdi = 2"
| "domain_index DAudio = 3"
| "domain_index DNetwork = 4"
| "domain_index DTessera = 5"
| "domain_index DDisplay = 6"
| "domain_index DPresets = 7"
| "domain_index DPlugins = 8"

lemma domain_index_inj: "domain_index a = domain_index b \<Longrightarrow> a = b"
  by (cases a; cases b) simp_all

instantiation domain :: linorder
begin

definition less_eq_domain :: "domain \<Rightarrow> domain \<Rightarrow> bool" where
  "less_eq_domain a b = (domain_index a \<le> domain_index b)"

definition less_domain :: "domain \<Rightarrow> domain \<Rightarrow> bool" where
  "less_domain a b = (domain_index a < domain_index b)"

instance
  by standard (auto simp: less_eq_domain_def less_domain_def dest: domain_index_inj)

end

datatype impact_scope = ScopeNone | ScopeOutput | ScopeService | ScopeDevice | ScopeNetwork | ScopeSystem

primrec scope_index :: "impact_scope \<Rightarrow> nat" where
  "scope_index ScopeNone = 0"
| "scope_index ScopeOutput = 1"
| "scope_index ScopeService = 2"
| "scope_index ScopeDevice = 3"
| "scope_index ScopeNetwork = 4"
| "scope_index ScopeSystem = 5"

lemma scope_index_inj: "scope_index a = scope_index b \<Longrightarrow> a = b"
  by (cases a; cases b) simp_all

instantiation impact_scope :: linorder
begin

definition less_eq_impact_scope :: "impact_scope \<Rightarrow> impact_scope \<Rightarrow> bool" where
  "less_eq_impact_scope a b = (scope_index a \<le> scope_index b)"

definition less_impact_scope :: "impact_scope \<Rightarrow> impact_scope \<Rightarrow> bool" where
  "less_impact_scope a b = (scope_index a < scope_index b)"

instance
  by standard (auto simp: less_eq_impact_scope_def less_impact_scope_def dest: scope_index_inj)

end

lemma ScopeNone_least: "ScopeNone \<le> s"
  by (simp add: less_eq_impact_scope_def)

section \<open>Origins\<close>

datatype origin =
    OUi (ui_session: string)
  | OCli (cli_uid: u32)
  | OPlugin (plugin_origin: string)
  | OTessera (tessera_peer: string)
  | OBoot
  | OMigration
  | ODiscoveryServer

definition requires_confirmation :: "origin \<Rightarrow> bool" where
  "requires_confirmation o' =
     (case o' of OBoot \<Rightarrow> False | OMigration \<Rightarrow> False | OTessera _ \<Rightarrow> False
      | ODiscoveryServer \<Rightarrow> False | _ \<Rightarrow> True)"

section \<open>Commands\<close>

record device_patch =
  dp_hostname :: "string option"
  dp_ndi_alias :: "string option"
  dp_mode :: "operation_mode option"
  dp_decode_mode :: "decode_mode option"
  dp_watchdog_mode :: "watchdog_mode option"
  dp_ntp_server :: "string option"
  dp_reboot_schedule :: "reboot_schedule option"
  dp_about :: "about option"
  dp_analog_audio_in_gain :: "u8 option"
  dp_analog_audio_out_gain :: "u8 option"
  dp_plugin_feeds :: "string list option"
  dp_allow_insecure_feeds :: "bool option"
  dp_web_allowed_hosts :: "string list option"

datatype service = SvcDecoder | SvcFinder | SvcControl | SvcWatchdog | SvcTessera

primrec service_index :: "service \<Rightarrow> nat" where
  "service_index SvcDecoder = 0"
| "service_index SvcFinder = 1"
| "service_index SvcControl = 2"
| "service_index SvcWatchdog = 3"
| "service_index SvcTessera = 4"

lemma service_index_inj: "service_index a = service_index b \<Longrightarrow> a = b"
  by (cases a; cases b) simp_all

instantiation service :: linorder
begin

definition less_eq_service :: "service \<Rightarrow> service \<Rightarrow> bool" where
  "less_eq_service a b = (service_index a \<le> service_index b)"

definition less_service :: "service \<Rightarrow> service \<Rightarrow> bool" where
  "less_service a b = (service_index a < service_index b)"

instance
  by standard (auto simp: less_eq_service_def less_service_def dest: service_index_inj)

end

datatype service_action = ActStart | ActStop | ActRestart | ActReload
datatype tessera_service_action = TesStart | TesStop | TesRestart | TesReload
datatype restore_scope =
  RestoreAll | RestoreSettings | RestoreSources | RestoreAudio | RestoreNetwork | RestoreDisplay | RestorePlugins

record backup_document =
  bd_document :: desired_state
  bd_assets :: "asset_ref list"
  bd_legacy_sections :: "string list"
  bd_legacy_fingerprint :: string

definition new_backup_document :: "desired_state \<Rightarrow> backup_document" where
  "new_backup_document doc =
     \<lparr>bd_document = doc, bd_assets = [], bd_legacy_sections = [], bd_legacy_fingerprint = []\<rparr>"

datatype network_product = ProductNdimon | ProductTessera

definition state_directory :: "network_product \<Rightarrow> string" where
  "state_directory p =
     (case p of ProductNdimon \<Rightarrow> ''/var/lib/ndimon-network'' | ProductTessera \<Rightarrow> ''/var/lib/tessera-network'')"

record network_handoff =
  nh_product :: network_product
  nh_id :: string

datatype (plugins only: size) command =
    SetDevice device_patch
  | SelectSource output_id ndi_source_ref
  | ForgetSource output_id
  | ReconnectSource output_id
  | RetrySource output_id ndi_source_ref
  | AdoptRemoteSource output_id "ndi_source_ref option"
  | PutOutputSettings "(output_id, output_cfg) bmap" "ndi option" "(output_id, bool) bmap"
  | SetOutputAlias output_id string
  | SetOutputVideo output_id output_video
  | SetScreenSaver output_id screen_saver
  | SetNdi ndi
  | RefreshNdi
  | ResetNdiDiscovery
  | CaptureFrame output_id
  | SetAudioEngine audio_engine
  | PutAudio audio
  | PutOutputAudio output_id output_audio bool
  | PutAudioSource string audio_source
  | PutAudioSink string audio_sink
  | RemoveAudioEndpoints "string list"
  | StageNetwork network_profiles
  | ConfirmNetwork string
  | RevertNetwork string
  | RollbackNetwork
  | AcceptNetworkRecovery
  | PrepareNetworkHandoff
  | CancelNetworkHandoff string
  | ImportNetworkHandoff network_handoff
  | CommitNetworkHandoff network_handoff
  | SetTessera tessera
  | TesseraService tessera_service_action
  | RestoreTessera tessera audio
  | PutTesseraFlows "tessera_flow list"
  | SetTesseraLabel direction u16 "string option"
  | SetDisplay display
  | PreviewSplash bool
  | SetLogo "asset_ref option"
  | SavePreset string preset
  | RecallPreset string output_id
  | DeletePreset string
  | ImportBackup backup_document restore_scope
  | UndoRestore string
  | InstallPlugin string string string bool bool
  | UpdatePlugin string string string bool bool
  | SetPluginEnabled string bool "string option"
  | RemovePlugin string bool bool
  | CancelPluginJob string
  | ResetPluginState
  | SetPluginData string "(string, json) bmap"
  | PluginAction string string "(string, string) bmap"
  | ServiceControl service service_action
  | Reboot
  | RestartStack
  | InstallUpdate "asset_ref option" "string option" bool
  | ReloadConfig

record network_session_path =
  nsp_peer :: string
  nsp_local :: string

type_synonym impact_token = string

record command_request =
  cr_command :: command
  cr_expect_revision :: "u64 option"
  cr_expect_impact :: "impact_token option"
  cr_confirm :: bool
  cr_network_session :: "network_session_path option"
  cr_expect_activity :: "u64 option"

definition new_command_request :: "command \<Rightarrow> command_request" where
  "new_command_request c =
     \<lparr>cr_command = c, cr_expect_revision = None, cr_expect_impact = None, cr_confirm = False,
      cr_network_session = None, cr_expect_activity = None\<rparr>"

section \<open>Impacts and reports\<close>

datatype apply_status = Started | Done | StepFailed

record apply_step =
  st_step :: string
  st_status :: apply_status
  st_detail :: "string option"

definition new_apply_step :: "string \<Rightarrow> apply_status \<Rightarrow> apply_step" where
  "new_apply_step name status = \<lparr>st_step = name, st_status = status, st_detail = None\<rparr>"

record interruption =
  in_domain :: domain
  in_target :: string
  in_expected_duration_ms :: "u64 option"

definition new_interruption :: "domain \<Rightarrow> string \<Rightarrow> u64 option \<Rightarrow> interruption" where
  "new_interruption d target ms =
     \<lparr>in_domain = d, in_target = target, in_expected_duration_ms = ms\<rparr>"

record impact =
  im_scope :: impact_scope
  im_restarts :: "service list"
  im_interruptions :: "interruption list"
  im_lines :: "string list"
  im_token :: impact_token
  im_counterpart :: "json option"

definition default_impact :: impact where
  "default_impact =
     \<lparr>im_scope = ScopeNone, im_restarts = [], im_interruptions = [], im_lines = [], im_token = [],
      im_counterpart = None\<rparr>"

definition new_impact :: "impact_scope \<Rightarrow> impact" where
  "new_impact scope = default_impact\<lparr>im_scope := scope\<rparr>"

definition needs_confirmation :: "impact \<Rightarrow> bool" where
  "needs_confirmation i = (im_scope i \<noteq> ScopeNone)"

definition describe :: "impact \<Rightarrow> string" where
  "describe i = join_with [CHR 0x0A] (im_lines i)"

record apply_report =
  rep_impact :: impact
  rep_steps :: "apply_step list"
  rep_pending_restart :: "domain list"

definition default_apply_report :: apply_report where
  "default_apply_report = \<lparr>rep_impact = default_impact, rep_steps = [], rep_pending_restart = []\<rparr>"

record command_reply =
  rp_revision :: u64
  rp_report :: apply_report

text \<open>
  \<open>Impact::sealed\<close>. JSON printing and the SHA-256 digest are parameters: \<open>to_vec\<close> prints one
  interruption and \<open>digest\<close> is the hexadecimal digest of the printed tuple. \<open>slice::dedup\<close> after a
  sort is \<open>remdups_adj\<close>.
\<close>

type_synonym seal_input = "command \<times> impact_scope \<times> service list \<times> string list \<times> string list"

definition sealed ::
  "(interruption \<Rightarrow> string) \<Rightarrow> (seal_input \<Rightarrow> string) \<Rightarrow> command \<Rightarrow> string list \<Rightarrow> impact \<Rightarrow> impact" where
  "sealed to_vec digest c context i =
     (let restarts = remdups_adj (sort (im_restarts i));
          interruptions = remdups_adj (sort (map to_vec (im_interruptions i)))
      in i\<lparr>im_token := ''v1-'' @ digest (c, im_scope i, restarts, interruptions, context)\<rparr>)"

section \<open>Errors\<close>

datatype api_error =
    Invalid string string "field_error list"
  | Locked string "string option"
  | ConfirmationRequired impact
  | RevisionConflict u64
  | DriftError string
  | NotFound string
  | PermissionDenied
  | RateLimited
  | Unsupported string
  | ApplyFailed domain string string
  | Internal string
  | Unauthorized
  | NotPending
  | Expired
  | StillApplying
  | TokenMismatch
  | WrongAddress

definition invalid :: "field_error list \<Rightarrow> api_error" where
  "invalid errors =
     (let first = (case errors of [] \<Rightarrow> new_field_error [] ''invalid value'' | e # _ \<Rightarrow> e)
      in Invalid (fe_field first) (fe_reason first) errors)"

definition http_status :: "api_error \<Rightarrow> nat" where
  "http_status e =
     (case e of
        Invalid _ _ _ \<Rightarrow> 400
      | Unauthorized \<Rightarrow> 401
      | PermissionDenied \<Rightarrow> 403
      | TokenMismatch \<Rightarrow> 403
      | NotFound _ \<Rightarrow> 404
      | Locked _ _ \<Rightarrow> 409
      | ConfirmationRequired _ \<Rightarrow> 409
      | RevisionConflict _ \<Rightarrow> 409
      | DriftError _ \<Rightarrow> 409
      | StillApplying \<Rightarrow> 409
      | WrongAddress \<Rightarrow> 409
      | NotPending \<Rightarrow> 410
      | Expired \<Rightarrow> 410
      | RateLimited \<Rightarrow> 429
      | Unsupported _ \<Rightarrow> 501
      | ApplyFailed d step _ \<Rightarrow> (if d = DNetwork \<and> step = ''recover'' then 409 else 500)
      | Internal _ \<Rightarrow> 500)"

definition counts_network_token_failure :: "api_error \<Rightarrow> bool" where
  "counts_network_token_failure e =
     (case e of TokenMismatch \<Rightarrow> True | Internal _ \<Rightarrow> True | _ \<Rightarrow> False)"

primrec domain_debug :: "domain \<Rightarrow> string" where
  "domain_debug DDevice = ''Device''"
| "domain_debug DOutputs = ''Outputs''"
| "domain_debug DNdi = ''Ndi''"
| "domain_debug DAudio = ''Audio''"
| "domain_debug DNetwork = ''Network''"
| "domain_debug DTessera = ''Tessera''"
| "domain_debug DDisplay = ''Display''"
| "domain_debug DPresets = ''Presets''"
| "domain_debug DPlugins = ''Plugins''"

definition error_text :: "api_error \<Rightarrow> string" where
  "error_text e =
     (case e of
        Invalid field reason _ \<Rightarrow> field @ '': '' @ reason
      | Locked field by' \<Rightarrow>
          field @ '' is locked'' @ (case by' of None \<Rightarrow> [] | Some v \<Rightarrow> '' by '' @ v)
      | ConfirmationRequired i \<Rightarrow> ''Confirmation required: '' @ describe i
      | RevisionConflict r \<Rightarrow> ''State changed (revision '' @ dec (unat r) @ '')''
      | DriftError path \<Rightarrow> ''Network handoff artifact changed: '' @ path
      | NotFound what \<Rightarrow> ''Not found: '' @ what
      | Unsupported what \<Rightarrow> ''Unsupported: '' @ what
      | ApplyFailed d step reason \<Rightarrow> domain_debug d @ '' failed at '' @ step @ '': '' @ reason
      | Internal message \<Rightarrow> message
      | PermissionDenied \<Rightarrow> ''Permission denied''
      | RateLimited \<Rightarrow> ''Too many requests''
      | Unauthorized \<Rightarrow> ''Login required''
      | NotPending \<Rightarrow> ''No network change is pending''
      | Expired \<Rightarrow> ''Network confirmation expired; previous settings restored''
      | StillApplying \<Rightarrow> ''Network change is still applying''
      | TokenMismatch \<Rightarrow> ''Network confirmation token does not match''
      | WrongAddress \<Rightarrow> ''Confirm through the new management address'')"

definition field_error_text :: "field_error \<Rightarrow> string" where
  "field_error_text e = fe_field e @ '': '' @ fe_reason e"

section \<open>Observations and events\<close>

datatype sync_status = InSync | Applying | PendingRestart | PendingConfirmation | SyncFailed | SyncDrift

datatype network_phase =
  PhStaged | PhApplying | PhApplied | PhConfirmed | PhReverting | PhReverted | PhExpired | PhFailed

record domain_observed =
  do_status :: sync_status
  do_applied_revision :: "u64 option"
  do_detail :: "string option"

definition default_domain_observed :: domain_observed where
  "default_domain_observed = \<lparr>do_status = InSync, do_applied_revision = None, do_detail = None\<rparr>"

record drift =
  dr_domain :: domain
  dr_path :: string
  dr_artifact :: "string option"
  dr_foreign :: "string option"
  dr_selector :: string
  dr_interface :: string
  dr_neutralized :: bool
  dr_blocking :: bool

definition new_drift :: "domain \<Rightarrow> string \<Rightarrow> drift" where
  "new_drift d path =
     \<lparr>dr_domain = d, dr_path = path, dr_artifact = None, dr_foreign = None, dr_selector = [],
      dr_interface = [], dr_neutralized = False, dr_blocking = False\<rparr>"

record pending_network =
  pn_revision :: u64
  pn_expires_at :: string
  pn_phase :: network_phase
  pn_job_id :: string
  pn_remaining_seconds :: u64
  pn_management_address :: "ipv4 option"
  pn_management_port :: u16
  pn_confirm_policy :: confirm_policy
  pn_recovery_pending :: bool
  pn_apply_error :: "api_error option"
  pn_recovery_error :: "api_error option"

record observed =
  ob_revision :: u64
  ob_domains :: "(domain, domain_observed) bmap"
  ob_drift :: "drift list"
  ob_network_pending :: "pending_network option"

definition default_observed :: observed where
  "default_observed = \<lparr>ob_revision = 0, ob_domains = [], ob_drift = [], ob_network_pending = None\<rparr>"

datatype status_source = FromDecoder | FromFinder | FromTessera | FromNetwork | FromServices

datatype event =
    StateChanged u64 "domain list" origin
  | ApplyProgress u64 string apply_status "string option"
  | ObservedEvent domain domain_observed
  | DriftEvent drift
  | NetworkPendingEvent u64 string network_phase
  | StatusEvent status_source json

section \<open>Queries\<close>

datatype catalog = AudioEndpoints | NdiSources | NetworkInterfaces | DisplayModes

datatype (plugins only: size) query =
    QSession | QState | QStateDomain domain | QObserved | QCatalog catalog "string option" | QStatus | QHealth
  | QServices | QWatchdogStats | QVersion | QVaapiInfo | QHostname | QNtp | QRebootSchedule | QAboutMe
  | QAudioSettings | QOutputAudio string | QAudioStatus | QNetworkStatus | QNetworkProfiles
  | QNetworkPending string | QPreviewNetwork network_profiles | QCheckNetworkAddress string | QPlugins
  | QPluginFeed | QRefreshPluginFeed | QPreparePluginInstall string string "string option" | QPluginJob string
  | QPluginStatus string | QTesseraStatus | QTesseraMetrics | QTesseraDiagnostics | QTesseraFlows
  | QUnsupported string | QExportBackup restore_scope | QBackupSnapshots | QInspectBackup backup_document
  | QEvents

section \<open>Network evidence\<close>

record network_handoff_receipt =
  nhr_source :: network_handoff
  nhr_document_sha256 :: string

record network_backend_metadata =
  nbm_handoff :: "network_handoff_receipt option"
  nbm_parent_source :: string
  nbm_parent_definition :: string
  nbm_parent_non_ip :: json
  nbm_sources :: "string list"
  nbm_dhcp_metric :: u32
  nbm_static_metric :: u32
  nbm_nm_parent_uuid :: "string option"
  nbm_nm_owned :: "(string, string) bmap"

definition default_network_backend_metadata :: network_backend_metadata where
  "default_network_backend_metadata =
     \<lparr>nbm_handoff = None, nbm_parent_source = [], nbm_parent_definition = [],
      nbm_parent_non_ip = JObject [], nbm_sources = [], nbm_dhcp_metric = 1024,
      nbm_static_metric = 0, nbm_nm_parent_uuid = None, nbm_nm_owned = []\<rparr>"

definition metric :: "network_backend_metadata \<Rightarrow> network_profile \<Rightarrow> u32" where
  "metric m p = (if np_mode p = Dhcp then nbm_dhcp_metric m else nbm_static_metric m)"

section \<open>Properties\<close>

lemma distinct_dedup: "sorted xs \<Longrightarrow> distinct (remdups_adj xs)"
  by (induction xs rule: remdups_adj.induct) (auto simp: order.antisym)

lemma dedup_sort: "remdups_adj (sort xs) = sorted_list_of_set (set xs)"
proof -
  have "sorted (remdups_adj (sort xs))" "distinct (remdups_adj (sort xs))"
    by (simp_all add: distinct_dedup sorted_remdups_adj)
  then show ?thesis
    by (metis finite_set remdups_adj_set set_sort sorted_list_of_set.idem_if_sorted_distinct)
qed

text \<open>
  The confirmation token does not depend on the presentation: two impacts with the same
  scope, the same set of restarts and the same set of interruptions are sealed with the same
  token, whatever the order, the repetitions and the lines.
\<close>

theorem sealed_presentation:
  assumes "im_scope i = im_scope j" and "set (im_restarts i) = set (im_restarts j)"
    and "set (im_interruptions i) = set (im_interruptions j)"
  shows "im_token (sealed to_vec digest c context i) = im_token (sealed to_vec digest c context j)"
proof -
  show ?thesis
    using assms by (simp add: sealed_def Let_def dedup_sort)
qed

theorem sealed_presentation_witness:
  "im_token (sealed (\<lambda>_. []) (\<lambda>(c, s, rs, is, ctx). map (\<lambda>r. CHR ''r'') rs) Reboot []
     (default_impact\<lparr>im_restarts := [SvcFinder, SvcDecoder]\<rparr>)) =
   im_token (sealed (\<lambda>_. []) (\<lambda>(c, s, rs, is, ctx). map (\<lambda>r. CHR ''r'') rs) Reboot []
     (default_impact\<lparr>im_restarts := [SvcDecoder, SvcFinder, SvcDecoder]\<rparr>))"
  by (rule sealed_presentation) (auto simp: default_impact_def)

end
