(* ===== verification/State_Store.thy ===== *)
theory State_Store
  imports Wire
begin

text \<open>
  The durable envelope of the desired state (ndimon-state/src/persist.rs).

  A \<open>disk\<close> is the state directory as the next reader sees it, together with what the operating
  system will answer: \<open>dk_io\<close> lists the outcomes of the coming fallible operations (an empty list
  means that everything succeeds). An operation can succeed, fail with an error, or be the one at
  which the process dies (\<open>IoCrash\<close>); after that nothing of the process reaches the disk. A failed or
  interrupted write leaves a prefix of the bytes in the temporary file.

  JSON encoding of the envelope is a parameter (\<open>so_to_vec\<close>, \<open>so_from_slice\<close>); what is used of it is
  \<open>storable\<close>: decoding what an envelope was encoded to gives it back, and it passes the check. The order in which a file system makes
  renames durable across a power cut is not modelled: \<open>sync_all\<close> is an operation that can fail.

  The main results: whatever operations fail and wherever the process dies, recovery after \<open>stage\<close>
  gives the previous envelope, and after \<open>commit\<close> the previous or the next one, the next one exactly
  when the pending marker is gone.
\<close>

section \<open>Plugin job metadata of the envelope\<close>

datatype job_outcome = JobSuccess json | JobFailure string | JobUnknown string

datatype plugin_action =
    PluginsInstall string string string bool bool
  | PluginsEnable string bool
  | PluginsRemove string bool bool
  | PluginsCancel string
  | PluginsReset
  | PluginsRestore
  | PluginsComplete pending_job job_outcome
and pending_job =
    PendingJob (pj_id: string) (pj_action: plugin_action) (pj_previous: json) (pj_started_at: u64)
      (pj_investigation: bool) (pj_cancelled: bool)

record job_result =
  jr_job :: string
  jr_response :: "(json, string) result"
  jr_investigation :: bool

section \<open>The envelope\<close>

datatype ownership = Native | Followed

definition OWNERSHIP :: "(domain \<times> ownership) list" where
  "OWNERSHIP =
     [(DAudio, Native), (DDevice, Native), (DOutputs, Native), (DNdi, Native), (DNetwork, Native),
      (DTessera, Native), (DDisplay, Native), (DPresets, Native), (DPlugins, Native)]"

definition ownership_of :: "domain \<Rightarrow> ownership" where
  "ownership_of d = (case map_of OWNERSHIP d of Some ow \<Rightarrow> ow | None \<Rightarrow> Followed)"

type_synonym legacy_files = "(string, string) bmap"

record state_file =
  sf_schema_version :: u32
  sf_revision :: u64
  sf_document :: desired_state
  sf_domain_revisions :: "(domain, u64) bmap"
  sf_legacy_files :: legacy_files
  sf_network_commit_job_id :: "string option"
  sf_network_commit_revision :: "u64 option"
  sf_network_backend_metadata :: "network_backend_metadata option"
  sf_plugin_job :: "pending_job option"
  sf_plugin_runtime :: "(string \<times> json) list"
  sf_plugin_results :: "(string, job_result) bmap"

definition new_state_file :: "desired_state \<Rightarrow> legacy_files \<Rightarrow> state_file" where
  "new_state_file doc files =
     \<lparr>sf_schema_version = 1, sf_revision = ds_revision doc, sf_document = doc,
      sf_domain_revisions = bt_of_list (map (\<lambda>(d, _). (d, ds_revision doc)) OWNERSHIP),
      sf_legacy_files = files, sf_network_commit_job_id = None, sf_network_commit_revision = None,
      sf_network_backend_metadata = None, sf_plugin_job = None, sf_plugin_runtime = [],
      sf_plugin_results = []\<rparr>"

definition domain_revision :: "state_file \<Rightarrow> domain \<Rightarrow> u64" where
  "domain_revision s d = (case bt_get (sf_domain_revisions s) d of Some r \<Rightarrow> r | None \<Rightarrow> 0)"

definition audio_revision :: "state_file \<Rightarrow> u64" where
  "audio_revision s = domain_revision s DAudio"

type_synonym doc_printer = "(string, json) bmap option \<Rightarrow> string option"

definition envelope_consistent :: "state_file \<Rightarrow> bool" where
  "envelope_consistent s =
     (sf_schema_version s = 1 \<and> ds_revision (sf_document s) = sf_revision s \<and>
      list_all (\<lambda>r. r \<le> sf_revision s) (bt_values (sf_domain_revisions s)) \<and>
      (case sf_network_commit_revision s of None \<Rightarrow> True | Some r \<Rightarrow> r \<le> sf_revision s))"

definition check_state :: "doc_printer \<Rightarrow> state_file \<Rightarrow> (unit, string) result" where
  "check_state dp s =
     (if \<not> envelope_consistent s then Inl ''inconsistent state envelope''
      else map_err (\<lambda>errors. join_with ''; '' (map field_error_text errors)) (validate dp (sf_document s)))"

lemma check_state_ok [simp]:
  "check_state dp s = Inr () \<longleftrightarrow> envelope_consistent s \<and> validate dp (sf_document s) = Inr ()"
  by (simp add: check_state_def)

section \<open>The directory and its faults\<close>

datatype dir_entry = Regular string | NonRegular

datatype io_outcome = IoOk | IoFail string nat | IoCrash nat

record disk =
  dk_entries :: "(string, dir_entry) bmap"
  dk_temp :: u64
  dk_io :: "io_outcome list"
  dk_crashed :: bool

type_synonym 'a io = "disk \<Rightarrow> (string + 'a) \<times> disk"

text \<open>
  One operation of the file system. \<open>eff\<close> is its effect, \<open>part n\<close> the effect of its first \<open>n\<close>
  units when it fails or the process dies in it.
\<close>

definition io_op :: "(disk \<Rightarrow> disk) \<Rightarrow> (nat \<Rightarrow> disk \<Rightarrow> disk) \<Rightarrow> unit io" where
  "io_op eff part d =
     (if dk_crashed d then (Inl ''process gone'', d)
      else case dk_io d of
             [] \<Rightarrow> (Inr (), eff d)
           | IoOk # r \<Rightarrow> (Inr (), eff (d\<lparr>dk_io := r\<rparr>))
           | IoFail e n # r \<Rightarrow> (Inl e, part n (d\<lparr>dk_io := r\<rparr>))
           | IoCrash n # r \<Rightarrow> (Inl ''process gone'', (part n (d\<lparr>dk_io := r\<rparr>))\<lparr>dk_crashed := True\<rparr>))"

definition seq_io :: "unit io \<Rightarrow> 'a io \<Rightarrow> 'a io" where
  "seq_io f g d = (case f d of (Inl e, d') \<Rightarrow> (Inl e, d') | (Inr _, d') \<Rightarrow> g d')"

definition put_entry :: "string \<Rightarrow> dir_entry \<Rightarrow> disk \<Rightarrow> disk" where
  "put_entry f x d = d\<lparr>dk_entries := bt_insert f x (dk_entries d)\<rparr>"

definition del_entry :: "string \<Rightarrow> disk \<Rightarrow> disk" where
  "del_entry f d = d\<lparr>dk_entries := bt_remove f (dk_entries d)\<rparr>"

definition entry :: "disk \<Rightarrow> string \<Rightarrow> dir_entry option" where
  "entry d f = bt_get (dk_entries d) f"

definition sync_dir :: "unit io" where
  "sync_dir = io_op (\<lambda>d. d) (\<lambda>n d. d)"

definition create_new :: "string \<Rightarrow> unit io" where
  "create_new f d =
     (if entry d f \<noteq> None then (Inl ''File exists'', d)
      else io_op (put_entry f (Regular [])) (\<lambda>n d. d) d)"

definition write_sync :: "string \<Rightarrow> string \<Rightarrow> unit io" where
  "write_sync f bytes = io_op (put_entry f (Regular bytes)) (\<lambda>n. put_entry f (Regular (take n bytes)))"

definition rename :: "string \<Rightarrow> string \<Rightarrow> unit io" where
  "rename f g d =
     (case entry d f of
        None \<Rightarrow> (Inl ''No such file'', d)
      | Some x \<Rightarrow> io_op (\<lambda>d. put_entry g x (del_entry f d)) (\<lambda>n d. d) d)"

definition remove_file :: "string \<Rightarrow> unit io" where
  "remove_file f d =
     (if entry d f = None then (Inl ''No such file'', d) else io_op (del_entry f) (\<lambda>n d. d) d)"

datatype read_error = ReadNotFound | ReadError string

definition read_file :: "string \<Rightarrow> disk \<Rightarrow> (read_error + string) \<times> disk" where
  "read_file f d =
     (case entry d f of
        None \<Rightarrow> (Inl ReadNotFound, d)
      | Some NonRegular \<Rightarrow> (Inl (ReadError ''Is a directory''), d)
      | Some (Regular bytes) \<Rightarrow>
          (case io_op (\<lambda>d. d) (\<lambda>n d. d) d of
             (Inl e, d') \<Rightarrow> (Inl (ReadError e), d')
           | (Inr _, d') \<Rightarrow> (Inr bytes, d')))"

definition read_error_text :: "read_error \<Rightarrow> string" where
  "read_error_text e = (case e of ReadNotFound \<Rightarrow> ''No such file'' | ReadError m \<Rightarrow> m)"

section \<open>Atomic publication\<close>

definition temp_name :: "nat \<Rightarrow> u64 \<Rightarrow> string" where
  "temp_name pid n = ''.state-'' @ dec pid @ ''-'' @ dec (unat n) @ ''.tmp''"

definition publish_temp :: "string \<Rightarrow> string \<Rightarrow> string \<Rightarrow> unit io" where
  "publish_temp temporary target bytes =
     seq_io (create_new temporary)
       (seq_io (io_op (\<lambda>d. d) (\<lambda>n d. d))
         (seq_io (write_sync temporary bytes)
           (seq_io (rename temporary target) sync_dir)))"

definition atomic :: "nat \<Rightarrow> string \<Rightarrow> string \<Rightarrow> unit io" where
  "atomic pid name bytes d =
     (if CHR ''/'' \<in> set name \<or> name = ''.'' \<or> name = ''..'' then (Inl ''invalid state basename'', d)
      else if entry d name = Some NonRegular then (Inl ''nonregular state destination'', d)
      else
        (let temporary = temp_name pid (dk_temp d);
             (result, d1) = publish_temp temporary name bytes (d\<lparr>dk_temp := dk_temp d + 1\<rparr>);
             (_, d2) = remove_file temporary d1
         in (result, d2)))"

text \<open>The writer's pid of a name made by \<open>atomic\<close>.\<close>

definition temporary_pid :: "string \<Rightarrow> nat option" where
  "temporary_pid name =
     (case strip_prefix ''.state-'' name of
        None \<Rightarrow> None
      | Some r \<Rightarrow>
          if \<not> ends_with ''.tmp'' r then None
          else (case split_on (CHR ''-'') (take (length r - 4) r) of
                  p # _ # _ \<Rightarrow> parse_uint 32 p
                | _ \<Rightarrow> None))"

definition is_orphan :: "nat \<Rightarrow> (nat \<Rightarrow> bool) \<Rightarrow> string \<Rightarrow> bool" where
  "is_orphan pid alive name =
     (case temporary_pid name of None \<Rightarrow> False | Some p \<Rightarrow> p \<noteq> pid \<and> \<not> alive p)"

fun remove_all :: "string list \<Rightarrow> disk \<Rightarrow> disk" where
  "remove_all [] d = d"
| "remove_all (f # fs) d = remove_all fs (snd (remove_file f d))"

definition remove_orphans :: "nat \<Rightarrow> (nat \<Rightarrow> bool) option \<Rightarrow> disk \<Rightarrow> disk" where
  "remove_orphans pid proc d =
     (case proc of
        None \<Rightarrow> d
      | Some alive \<Rightarrow> remove_all (filter (is_orphan pid alive) (bt_keys (dk_entries d))) d)"

section \<open>Persistence\<close>

text \<open>
  The process that owns the store: its pid, the process table it sees (\<open>None\<close> without \<open>/proc\<close>),
  and the JSON functions it calls.
\<close>

record store =
  so_pid :: nat
  so_proc :: "(nat \<Rightarrow> bool) option"
  so_printer :: doc_printer
  so_to_vec :: "state_file \<Rightarrow> (string, string) result"
  so_from_slice :: "string \<Rightarrow> (state_file, string) result"

definition write_file :: "store \<Rightarrow> string \<Rightarrow> string \<Rightarrow> unit io" where
  "write_file so name bytes = atomic (so_pid so) name bytes"

definition remove_pending :: "unit io" where
  "remove_pending d =
     (if entry d ''state.pending'' = None then sync_dir d
      else seq_io (remove_file ''state.pending'') sync_dir d)"

definition initialize :: "store \<Rightarrow> state_file \<Rightarrow> unit io" where
  "initialize so s d =
     (case so_to_vec so s of Inl e \<Rightarrow> (Inl e, d) | Inr bytes \<Rightarrow> write_file so ''state.json'' bytes d)"

definition stage :: "store \<Rightarrow> state_file \<Rightarrow> state_file \<Rightarrow> unit io" where
  "stage so previous next' =
     seq_io (\<lambda>d. case so_to_vec so previous of
               Inl e \<Rightarrow> (Inl e, d) | Inr bytes \<Rightarrow> write_file so ''state.prev.json'' bytes d)
       (seq_io (write_file so ''state.pending'' (dec (unat (sf_revision next'))))
         (initialize so next'))"

definition commit :: "unit io" where
  "commit = remove_pending"

definition rollback :: "store \<Rightarrow> state_file \<Rightarrow> unit io" where
  "rollback so previous = seq_io (initialize so previous) remove_pending"

definition decode_checked :: "store \<Rightarrow> string \<Rightarrow> (state_file, string) result" where
  "decode_checked so bytes =
     bind_r (so_from_slice so bytes) (\<lambda>s. bind_r (check_state (so_printer so) s) (\<lambda>_. Inr s))"

definition recover_pending :: "store \<Rightarrow> unit io" where
  "recover_pending so d =
     (case read_file ''state.prev.json'' d of
        (Inl e, d1) \<Rightarrow> (Inl (read_error_text e), d1)
      | (Inr previous, d1) \<Rightarrow>
          (case decode_checked so previous of
             Inl e \<Rightarrow> (Inl e, d1)
           | Inr _ \<Rightarrow> seq_io (write_file so ''state.json'' previous) remove_pending d1))"

definition read_state :: "store \<Rightarrow> state_file option io" where
  "read_state so d =
     (case read_file ''state.json'' d of
        (Inr bytes, d1) \<Rightarrow>
          (case decode_checked so bytes of Inl e \<Rightarrow> (Inl e, d1) | Inr s \<Rightarrow> (Inr (Some s), d1))
      | (Inl ReadNotFound, d1) \<Rightarrow> (Inr None, d1)
      | (Inl (ReadError e), d1) \<Rightarrow> (Inl e, d1))"

definition load :: "store \<Rightarrow> state_file option io" where
  "load so d =
     (let d0 = remove_orphans (so_pid so) (so_proc so) d
      in seq_io (if entry d0 ''state.pending'' \<noteq> None then recover_pending so else (\<lambda>d. (Inr (), d)))
           (read_state so) d0)"

section \<open>Effects on the directory\<close>

lemma entry_simps [simp]:
  "entry (put_entry f x d) g = (if g = f then Some x else entry d g)"
  "entry (del_entry f d) g = (if g = f then None else entry d g)"
  "entry (d\<lparr>dk_io := r\<rparr>) = entry d"
  "entry (d\<lparr>dk_temp := t\<rparr>) = entry d"
  "entry (d\<lparr>dk_crashed := c\<rparr>) = entry d"
  by (auto simp: entry_def put_entry_def del_entry_def fun_eq_iff bt_simps)

text \<open>\<open>keeps F op\<close>: the operation leaves every file outside \<open>F\<close> as it is, whatever happens.\<close>

definition keeps :: "string set \<Rightarrow> 'a io \<Rightarrow> bool" where
  "keeps F op = (\<forall>d f. f \<notin> F \<longrightarrow> entry (snd (op d)) f = entry d f)"

lemma keepsD: "keeps F op \<Longrightarrow> f \<notin> F \<Longrightarrow> entry (snd (op d)) f = entry d f"
  by (simp add: keeps_def)

lemma keeps_mono: "keeps F op \<Longrightarrow> F \<subseteq> G \<Longrightarrow> keeps G op"
  by (auto simp: keeps_def)

lemma keeps_io_op:
  assumes "\<And>d f. f \<notin> F \<Longrightarrow> entry (eff d) f = entry d f"
    "\<And>n d f. f \<notin> F \<Longrightarrow> entry (part n d) f = entry d f"
  shows "keeps F (io_op eff part)"
  using assms by (auto simp: keeps_def io_op_def split: list.splits io_outcome.splits)

lemma keeps_seq:
  assumes "keeps F op" "keeps F op'"
  shows "keeps F (seq_io op op')"
proof (unfold keeps_def, intro allI impI)
  fix d f
  assume f: "f \<notin> F"
  obtain r d' where op: "op d = (r, d')"
    by fastforce
  have "entry d' f = entry d f" "entry (snd (op' d')) f = entry d' f"
    using keepsD [OF assms(1) f, of d] keepsD [OF assms(2) f] op by simp_all
  then show "entry (snd (seq_io op op' d)) f = entry d f"
    by (cases r) (simp_all add: seq_io_def op)
qed

lemma keeps_sync: "keeps {} sync_dir"
  unfolding sync_dir_def by (rule keeps_io_op) auto

lemma keeps_write_sync: "keeps {f} (write_sync f bytes)"
  unfolding write_sync_def by (rule keeps_io_op) auto

lemma keeps_create: "keeps {f} (create_new f)"
  using keeps_io_op [of "{f}" "put_entry f (Regular [])" "\<lambda>n d. d"]
  by (auto simp: keeps_def create_new_def)

lemma keeps_rename: "keeps {f, g} (rename f g)"
proof -
  have "keeps {f, g} (io_op (\<lambda>d. put_entry g x (del_entry f d)) (\<lambda>n d. d))" for x
    by (rule keeps_io_op) auto
  then show ?thesis
    by (auto simp: keeps_def rename_def split: option.split)
qed

lemma keeps_remove: "keeps {f} (remove_file f)"
  using keeps_io_op [of "{f}" "del_entry f" "\<lambda>n d. d"]
  by (auto simp: keeps_def remove_file_def)

lemma keeps_remove_pending: "keeps {''state.pending''} remove_pending"
proof -
  have "keeps {''state.pending''} sync_dir"
    by (rule keeps_mono [OF keeps_sync]) simp
  with keeps_seq [OF keeps_remove this] show ?thesis
    by (auto simp: keeps_def remove_pending_def)
qed

lemma seq_ioE:
  assumes "seq_io f g d = (r, d')"
  obtains e where "f d = (Inl e, d')" "r = Inl e"
  | d1 where "f d = (Inr (), d1)" "g d1 = (r, d')"
  using assms by (auto simp: seq_io_def split: prod.splits sum.splits)

lemma io_op_ok: "io_op eff part d = (Inr (), d') \<Longrightarrow> \<exists>r. d' = eff (d\<lparr>dk_io := r\<rparr>) \<or> d' = eff d"
  by (auto simp: io_op_def split: if_splits list.splits io_outcome.splits)

lemma write_sync_ok: "write_sync f bytes d = (Inr (), d') \<Longrightarrow> entry d' f = Some (Regular bytes)"
  unfolding write_sync_def by (drule io_op_ok) auto

lemma rename_outcome:
  assumes "rename f g d = (r, d')" "entry d f = Some x" "f \<noteq> g"
  shows "if r = Inr () then entry d' g = Some x else entry d' g = entry d g"
  using assms
  by (auto simp: rename_def io_op_def split: if_splits list.splits io_outcome.splits)

lemma publish_temp_keeps:
  "keeps {t, target} (publish_temp t target bytes)"
proof -
  have chmod: "keeps {t, target} (io_op (\<lambda>d. d) (\<lambda>n d. d))"
    by (rule keeps_io_op) auto
  show ?thesis
    unfolding publish_temp_def
    by (intro keeps_seq chmod keeps_mono [OF keeps_create] keeps_mono [OF keeps_write_sync]
        keeps_mono [OF keeps_rename] keeps_mono [OF keeps_sync]) auto
qed

text \<open>The target of a publication holds what it held before, or all of the new bytes.\<close>

lemma publish_temp_target:
  assumes "publish_temp t target bytes d = (r, d')" "t \<noteq> target"
  shows "entry d' target = Some (Regular bytes) \<or> (r \<noteq> Inr () \<and> entry d' target = entry d target)"
proof -
  have create: "entry (snd (create_new t d)) target = entry d target" for d
    by (rule keepsD [OF keeps_create]) (use assms(2) in auto)
  have chmod: "entry (snd (io_op (\<lambda>d. d) (\<lambda>n d. d) d)) target = entry d target" for d
    by (rule keepsD [OF keeps_io_op [of "{}"]]) auto
  have written: "entry (snd (write_sync t bytes d)) target = entry d target" for d
    by (rule keepsD [OF keeps_write_sync]) (use assms(2) in auto)
  have synced: "entry (snd (sync_dir d)) f = entry d f" for d f
    by (rule keepsD [OF keeps_sync]) simp
  show ?thesis
    using assms(1) unfolding publish_temp_def
  proof (elim seq_ioE)
    fix d1 d2 d3 d4
    assume steps: "create_new t d = (Inr (), d1)" "io_op (\<lambda>d. d) (\<lambda>n d. d) d1 = (Inr (), d2)"
      "write_sync t bytes d2 = (Inr (), d3)" "rename t target d3 = (Inr (), d4)" "sync_dir d4 = (r, d')"
    show ?thesis
      using rename_outcome [OF steps(4) write_sync_ok [OF steps(3)] assms(2)] synced [of d4 target] steps(5)
      by simp
  next
    fix d1 d2 d3 e
    assume steps: "create_new t d = (Inr (), d1)" "io_op (\<lambda>d. d) (\<lambda>n d. d) d1 = (Inr (), d2)"
      "write_sync t bytes d2 = (Inr (), d3)" "rename t target d3 = (Inl e, d')" "r = Inl e"
    show ?thesis
      using rename_outcome [OF steps(4) write_sync_ok [OF steps(3)] assms(2)]
        create [of d] chmod [of d1] written [of d2] steps by simp
  qed (use create chmod written in \<open>force simp: prod_eq_iff\<close>)+
qed

text \<open>File names that no temporary file has.\<close>

definition plain :: "string \<Rightarrow> bool" where
  "plain f = (f \<noteq> [] \<and> hd f \<noteq> CHR ''.'')"

lemma plain_names [simp]:
  "plain ''state.json''" "plain ''state.prev.json''" "plain ''state.pending''" "plain ''rendered.json''"
  by (simp_all add: plain_def)

lemma plain_not_temp: "plain f \<Longrightarrow> f \<noteq> temp_name pid n"
  by (auto simp: plain_def temp_name_def)

lemma atomic_cases:
  assumes "atomic pid name bytes d = (r, d')"
  obtains (refused) e where "r = Inl e" "d' = d"
  | (tried) d1 where
      "publish_temp (temp_name pid (dk_temp d)) name bytes (d\<lparr>dk_temp := dk_temp d + 1\<rparr>) = (r, d1)"
      "d' = snd (remove_file (temp_name pid (dk_temp d)) d1)"
proof (cases "CHR ''/'' \<in> set name \<or> name = ''.'' \<or> name = ''..'' \<or> entry d name = Some NonRegular")
  case True
  with assms refused show thesis
    by (auto simp: atomic_def split: if_splits)
next
  case False
  obtain r1 d1 where pub:
    "publish_temp (temp_name pid (dk_temp d)) name bytes (d\<lparr>dk_temp := dk_temp d + 1\<rparr>) = (r1, d1)"
    by fastforce
  with assms False have "r = r1" "d' = snd (remove_file (temp_name pid (dk_temp d)) d1)"
    by (simp_all add: atomic_def Let_def case_prod_beta)
  with pub tried show thesis by simp
qed

lemma atomic_other:
  assumes "plain f" "f \<noteq> name"
  shows "entry (snd (atomic pid name bytes d)) f = entry d f"
proof -
  obtain r d' where at: "atomic pid name bytes d = (r, d')" by fastforce
  then have "entry d' f = entry d f"
  proof (cases rule: atomic_cases)
    case (tried d1)
    let ?t = "temp_name pid (dk_temp d)"
    have "entry d1 f = entry (d\<lparr>dk_temp := dk_temp d + 1\<rparr>) f"
      using keepsD [OF publish_temp_keeps, of f ?t name bytes "d\<lparr>dk_temp := dk_temp d + 1\<rparr>"]
        assms plain_not_temp tried(1) by auto
    moreover have "entry d' f = entry d1 f"
      using keepsD [OF keeps_remove, of f ?t d1] assms plain_not_temp tried(2) by auto
    ultimately show ?thesis by simp
  qed simp
  with at show ?thesis by simp
qed

lemma atomic_target:
  assumes "atomic pid name bytes d = (r, d')" "plain name"
  shows "entry d' name = Some (Regular bytes) \<or> (r \<noteq> Inr () \<and> entry d' name = entry d name)"
  using assms(1)
proof (cases rule: atomic_cases)
  case (tried d1)
  have "entry d' name = entry d1 name"
    using keepsD [OF keeps_remove, of name "temp_name pid (dk_temp d)" d1] assms(2) plain_not_temp tried(2)
    by auto
  with publish_temp_target [OF tried(1)] plain_not_temp [OF assms(2), of pid "dk_temp d"] show ?thesis
    by auto
qed simp

lemma write_file_other:
  "write_file so name bytes d = (r, d') \<Longrightarrow> plain f \<Longrightarrow> f \<noteq> name \<Longrightarrow> entry d' f = entry d f"
  unfolding write_file_def using atomic_other by (metis snd_conv)

lemma write_file_target:
  "write_file so name bytes d = (r, d') \<Longrightarrow> plain name \<Longrightarrow>
   entry d' name = Some (Regular bytes) \<or> (r \<noteq> Inr () \<and> entry d' name = entry d name)"
  unfolding write_file_def by (rule atomic_target)

section \<open>Recoverable envelopes\<close>

text \<open>A file holds a valid envelope.\<close>

definition holds :: "store \<Rightarrow> disk \<Rightarrow> string \<Rightarrow> state_file \<Rightarrow> bool" where
  "holds so d f s = (case entry d f of Some (Regular b) \<Rightarrow> decode_checked so b = Inr s | _ \<Rightarrow> False)"

definition storable :: "store \<Rightarrow> state_file \<Rightarrow> bool" where
  "storable so s =
     (case so_to_vec so s of Inl _ \<Rightarrow> False | Inr b \<Rightarrow> decode_checked so b = Inr s)"

definition committed :: "store \<Rightarrow> disk \<Rightarrow> state_file \<Rightarrow> bool" where
  "committed so d s = (entry d ''state.pending'' = None \<and> holds so d ''state.json'' s)"

definition staged :: "store \<Rightarrow> disk \<Rightarrow> state_file \<Rightarrow> state_file \<Rightarrow> bool" where
  "staged so d s n =
     (entry d ''state.pending'' \<noteq> None \<and> holds so d ''state.prev.json'' s \<and> holds so d ''state.json'' n)"

text \<open>What the next reader of the directory recovers.\<close>

definition recovers :: "store \<Rightarrow> disk \<Rightarrow> state_file \<Rightarrow> bool" where
  "recovers so d s =
     (if entry d ''state.pending'' = None then holds so d ''state.json'' s
      else holds so d ''state.prev.json'' s \<and> entry d ''state.json'' \<noteq> Some NonRegular)"

lemma holds_unique: "holds so d f s \<Longrightarrow> holds so d f s' \<Longrightarrow> s = s'"
  by (auto simp: holds_def split: option.splits dir_entry.splits)

lemma recovers_unique: "recovers so d s \<Longrightarrow> recovers so d s' \<Longrightarrow> s = s'"
  by (auto simp: recovers_def dest: holds_unique split: if_splits)

lemma recovers_same: "(\<And>f. entry d' f = entry d f) \<Longrightarrow> recovers so d' s = recovers so d s"
  by (simp add: recovers_def holds_def)

lemma committed_recovers: "committed so d s \<Longrightarrow> recovers so d s"
  by (simp add: committed_def recovers_def)

lemma staged_recovers: "staged so d s n \<Longrightarrow> recovers so d s"
  by (auto simp: staged_def recovers_def holds_def)

lemma initialize_outcome:
  assumes "initialize so n d = (r, d')"
  shows "\<And>f. plain f \<Longrightarrow> f \<noteq> ''state.json'' \<Longrightarrow> entry d' f = entry d f"
    and "r = Inr () \<Longrightarrow> storable so n \<Longrightarrow> holds so d' ''state.json'' n"
    and "entry d ''state.json'' \<noteq> Some NonRegular \<Longrightarrow> entry d' ''state.json'' \<noteq> Some NonRegular"
    and "holds so d ''state.json'' s \<Longrightarrow> storable so n \<Longrightarrow>
      holds so d' ''state.json'' s \<or> holds so d' ''state.json'' n"
proof -
  show "plain f \<Longrightarrow> f \<noteq> ''state.json'' \<Longrightarrow> entry d' f = entry d f" for f
    using assms write_file_other by (auto simp: initialize_def split: sum.splits)
  have target: "(\<exists>b. so_to_vec so n = Inr b \<and> entry d' ''state.json'' = Some (Regular b)) \<or>
      (r \<noteq> Inr () \<and> entry d' ''state.json'' = entry d ''state.json'')"
    using assms write_file_target [of so "''state.json''" _ d r d']
    by (auto simp: initialize_def split: sum.splits)
  then show "r = Inr () \<Longrightarrow> storable so n \<Longrightarrow> holds so d' ''state.json'' n"
    and "entry d ''state.json'' \<noteq> Some NonRegular \<Longrightarrow> entry d' ''state.json'' \<noteq> Some NonRegular"
    and "holds so d ''state.json'' s \<Longrightarrow> storable so n \<Longrightarrow>
      holds so d' ''state.json'' s \<or> holds so d' ''state.json'' n"
    by (auto simp: holds_def storable_def split: sum.splits)
qed

lemma stage_cases:
  assumes "stage so s n d = (r, d')" "storable so s"
  obtains (prev) e bs where "so_to_vec so s = Inr bs"
      "write_file so ''state.prev.json'' bs d = (Inl e, d')" "r = Inl e"
  | (marker) e bs d1 where "so_to_vec so s = Inr bs"
      "write_file so ''state.prev.json'' bs d = (Inr (), d1)"
      "write_file so ''state.pending'' (dec (unat (sf_revision n))) d1 = (Inl e, d')" "r = Inl e"
  | (next') bs d1 d2 where "so_to_vec so s = Inr bs"
      "write_file so ''state.prev.json'' bs d = (Inr (), d1)"
      "write_file so ''state.pending'' (dec (unat (sf_revision n))) d1 = (Inr (), d2)"
      "initialize so n d2 = (r, d')"
proof -
  obtain bs where bs: "so_to_vec so s = Inr bs"
    using assms(2) by (auto simp: storable_def split: sum.splits)
  from assms(1) show thesis
    unfolding stage_def bs sum.case
    by (elim seq_ioE) (use prev marker next' bs in blast)+
qed

lemma stage_outcome:
  assumes "committed so d s" "storable so s" "stage so s n d = (r, d')"
  shows "recovers so d' s" and "storable so n \<Longrightarrow> r = Inr () \<Longrightarrow> staged so d' s n"
proof -
  have before: "entry d ''state.pending'' = None" "holds so d ''state.json'' s"
    using assms(1) by (simp_all add: committed_def)
  have json: "entry d ''state.json'' \<noteq> Some NonRegular"
    using before(2) by (auto simp: holds_def)
  have "recovers so d' s \<and> (storable so n \<longrightarrow> r = Inr () \<longrightarrow> staged so d' s n)"
    using assms(3,2)
  proof (cases rule: stage_cases)
    case (prev e bs)
    have "entry d' ''state.pending'' = entry d ''state.pending''" "entry d' ''state.json'' = entry d ''state.json''"
      using write_file_other [OF prev(2)] by simp_all
    with before prev(3) show ?thesis
      by (simp add: recovers_def holds_def)
  next
    case (marker e bs d1)
    have prev: "holds so d1 ''state.prev.json'' s"
      using write_file_target [OF marker(2)] marker(1) assms(2) by (auto simp: holds_def storable_def)
    have "entry d' ''state.json'' = entry d ''state.json''" "entry d' ''state.prev.json'' = entry d1 ''state.prev.json''"
      using write_file_other [OF marker(2)] write_file_other [OF marker(3)] by simp_all
    with before prev json marker(4) show ?thesis
      by (simp add: recovers_def holds_def)
  next
    case (next' bs d1 d2)
    have prev: "holds so d1 ''state.prev.json'' s"
      using write_file_target [OF next'(2)] next'(1) assms(2) by (auto simp: holds_def storable_def)
    have pending: "entry d2 ''state.pending'' \<noteq> None"
      using write_file_target [OF next'(3)] by auto
    have "entry d2 ''state.prev.json'' = entry d1 ''state.prev.json''" "entry d2 ''state.json'' = entry d ''state.json''"
      using write_file_other [OF next'(2)] write_file_other [OF next'(3)] by simp_all
    moreover have "entry d' ''state.prev.json'' = entry d2 ''state.prev.json''"
      "entry d' ''state.pending'' = entry d2 ''state.pending''"
      using initialize_outcome(1) [OF next'(4)] by simp_all
    ultimately show ?thesis
      using prev pending json initialize_outcome(2,3) [OF next'(4)]
      by (auto simp: recovers_def staged_def holds_def)
  qed
  then show "recovers so d' s" and "storable so n \<Longrightarrow> r = Inr () \<Longrightarrow> staged so d' s n"
    by auto
qed

lemma sync_dir_entry: "sync_dir d = (r, d') \<Longrightarrow> entry d' f = entry d f"
  using keepsD [OF keeps_sync, of f d] by simp

lemma remove_file_outcome:
  "remove_file f d = (r, d') \<Longrightarrow> (if r = Inr () then entry d' f = None else entry d' f = entry d f)"
  by (auto simp: remove_file_def io_op_def split: if_splits list.splits io_outcome.splits)

lemma remove_pending_outcome:
  assumes "remove_pending d = (r, d')"
  shows "f \<noteq> ''state.pending'' \<Longrightarrow> entry d' f = entry d f"
    and "entry d' ''state.pending'' = None \<or> (r \<noteq> Inr () \<and> entry d' ''state.pending'' = entry d ''state.pending'')"
proof -
  show "f \<noteq> ''state.pending'' \<Longrightarrow> entry d' f = entry d f"
    using keepsD [OF keeps_remove_pending, of f d] assms by simp
  show "entry d' ''state.pending'' = None \<or> (r \<noteq> Inr () \<and> entry d' ''state.pending'' = entry d ''state.pending'')"
  proof (cases "entry d ''state.pending'' = None")
    case True
    with assms sync_dir_entry [of d r d'] show ?thesis
      by (simp add: remove_pending_def)
  next
    case False
    with assms have "seq_io (remove_file ''state.pending'') sync_dir d = (r, d')"
      by (simp add: remove_pending_def)
    then show ?thesis
    proof (cases rule: seq_ioE)
      case (2 d1)
      then show ?thesis
        using remove_file_outcome [OF 2(1)] sync_dir_entry [OF 2(2), of "''state.pending''"] by simp
    qed (auto dest!: remove_file_outcome)
  qed
qed

lemma commit_outcome:
  assumes "staged so d s n" "commit d = (r, d')"
  shows "recovers so d' s \<or> committed so d' n" and "r = Inr () \<Longrightarrow> committed so d' n"
proof -
  note out = remove_pending_outcome [OF assms(2) [unfolded commit_def]]
  have files: "holds so d' ''state.prev.json'' s" "holds so d' ''state.json'' n"
    using assms(1) out(1) by (simp_all add: staged_def holds_def)
  then show "recovers so d' s \<or> committed so d' n"
    by (auto simp: recovers_def committed_def holds_def)
  show "r = Inr () \<Longrightarrow> committed so d' n"
    using files out(2) by (auto simp: committed_def)
qed

lemma rollback_outcome:
  assumes "recovers so d s \<or> recovers so d n" "storable so s" "rollback so s d = (r, d')"
  shows "recovers so d' s \<or> recovers so d' n" and "r = Inr () \<Longrightarrow> committed so d' s"
proof -
  have "(recovers so d' s \<or> recovers so d' n) \<and> (r = Inr () \<longrightarrow> committed so d' s)"
    using assms(3)[unfolded rollback_def]
  proof (cases rule: seq_ioE)
    case (1 e)
    note init = initialize_outcome [OF 1(1)]
    show ?thesis
      using assms(1,2) 1(2) init(1) [of "''state.pending''"] init(1) [of "''state.prev.json''"] init(3) init(4) [of s]
        init(4) [of n]
      by (auto simp: recovers_def holds_def)
  next
    case (2 d1)
    note init = initialize_outcome [OF 2(1)]
    note out = remove_pending_outcome [OF 2(2)]
    have s: "holds so d' ''state.json'' s"
      using init(2) [OF refl assms(2)] out(1) [of "''state.json''"] by (simp add: holds_def)
    have json: "entry d' ''state.json'' \<noteq> Some NonRegular"
      using s by (auto simp: holds_def)
    have prev: "entry d' ''state.prev.json'' = entry d ''state.prev.json''"
      using init(1) out(1) by simp
    show ?thesis
    proof (cases "entry d' ''state.pending'' = None")
      case True
      with s show ?thesis by (simp add: recovers_def committed_def)
    next
      case False
      then have "r \<noteq> Inr ()" "entry d ''state.pending'' \<noteq> None"
        using out(2) init(1) [of "''state.pending''"] by auto
      with False assms(1) json prev show ?thesis
        by (auto simp: recovers_def holds_def)
    qed
  qed
  then show "recovers so d' s \<or> recovers so d' n" and "r = Inr () \<Longrightarrow> committed so d' s"
    by auto
qed

section \<open>The publication interface\<close>

text \<open>
  What a transaction relies on: an envelope is staged beside the previous one, a commit point makes
  it the one that recovery gives, and a rollback withdraws it. \<open>ok\<close> tells whether an operation
  reported success; every other law holds for failures and crashes too.
\<close>

locale staged_publication =
  fixes stg :: "'s \<Rightarrow> 's \<Rightarrow> 'd \<Rightarrow> 'r \<times> 'd"
    and cmt :: "'d \<Rightarrow> 'r \<times> 'd"
    and rbk :: "'s \<Rightarrow> 'd \<Rightarrow> 'r \<times> 'd"
    and ok :: "'r \<Rightarrow> bool"
    and recov :: "'d \<Rightarrow> 's \<Rightarrow> bool"
    and clean :: "'d \<Rightarrow> 's \<Rightarrow> bool"
    and prepared :: "'d \<Rightarrow> 's \<Rightarrow> 's \<Rightarrow> bool"
    and good :: "'s \<Rightarrow> bool"
  assumes clean_recov: "clean d s \<Longrightarrow> recov d s"
    and prepared_recov: "prepared d s n \<Longrightarrow> recov d s"
    and stage_recov: "clean d s \<Longrightarrow> good s \<Longrightarrow> stg s n d = (r, d') \<Longrightarrow> recov d' s"
    and stage_prepared: "clean d s \<Longrightarrow> good s \<Longrightarrow> good n \<Longrightarrow> stg s n d = (r, d') \<Longrightarrow> ok r \<Longrightarrow> prepared d' s n"
    and commit_recov: "prepared d s n \<Longrightarrow> cmt d = (r, d') \<Longrightarrow> recov d' s \<or> clean d' n"
    and commit_clean: "prepared d s n \<Longrightarrow> cmt d = (r, d') \<Longrightarrow> ok r \<Longrightarrow> clean d' n"
    and rollback_recov: "recov d s \<or> recov d n \<Longrightarrow> good s \<Longrightarrow> rbk s d = (r, d') \<Longrightarrow> recov d' s \<or> recov d' n"
    and rollback_clean: "recov d s \<or> recov d n \<Longrightarrow> good s \<Longrightarrow> rbk s d = (r, d') \<Longrightarrow> ok r \<Longrightarrow> clean d' s"
begin

text \<open>A staging that failed is undone completely by a rollback that succeeds.\<close>

lemma undo_stage:
  assumes "clean d s" "good s" "stg s n d = (r, d1)" "rbk s d1 = (r', d2)"
  shows "recov d2 s" "ok r' \<Longrightarrow> clean d2 s"
  using stage_recov [OF assms(1-3)] rollback_recov [of d1 s s] rollback_clean [of d1 s s] assms(2,4)
  by blast+

text \<open>
  A transaction: stage, then commit, then roll back if the commit reported a failure. Recovery
  gives the previous or the next envelope at the end, and exactly one of them when the last
  operation reported success.
\<close>

lemma transaction:
  assumes "clean d s" "good s" "good n" "stg s n d = (r, d1)" "ok r" "cmt d1 = (r1, d2)"
  shows "recov d2 s \<or> recov d2 n" "ok r1 \<Longrightarrow> clean d2 n"
    "rbk s d2 = (r2, d3) \<Longrightarrow> recov d3 s \<or> recov d3 n"
    "rbk s d2 = (r2, d3) \<Longrightarrow> ok r2 \<Longrightarrow> clean d3 s"
proof -
  have p: "prepared d1 s n"
    by (rule stage_prepared) (use assms in auto)
  show either: "recov d2 s \<or> recov d2 n"
    using commit_recov [OF p assms(6)] clean_recov by blast
  show "ok r1 \<Longrightarrow> clean d2 n"
    by (rule commit_clean [OF p assms(6)])
  show "rbk s d2 = (r2, d3) \<Longrightarrow> recov d3 s \<or> recov d3 n"
    and "rbk s d2 = (r2, d3) \<Longrightarrow> ok r2 \<Longrightarrow> clean d3 s"
    using rollback_recov [OF either assms(2)] rollback_clean [OF either assms(2)] by blast+
qed

end

interpretation publication: staged_publication "stage so" commit "rollback so" "\<lambda>r. r = Inr ()"
  "recovers so" "committed so" "staged so" "storable so" for so
proof unfold_locales
  fix d d' s n r
  show "committed so d s \<Longrightarrow> recovers so d s"
    by (rule committed_recovers)
  show "staged so d s n \<Longrightarrow> recovers so d s"
    by (rule staged_recovers)
  show "committed so d s \<Longrightarrow> storable so s \<Longrightarrow> stage so s n d = (r, d') \<Longrightarrow> recovers so d' s"
    by (rule stage_outcome(1))
  show "committed so d s \<Longrightarrow> storable so s \<Longrightarrow> storable so n \<Longrightarrow> stage so s n d = (r, d') \<Longrightarrow>
      r = Inr () \<Longrightarrow> staged so d' s n"
    by (rule stage_outcome(2))
  show "staged so d s n \<Longrightarrow> commit d = (r, d') \<Longrightarrow> recovers so d' s \<or> committed so d' n"
    by (rule commit_outcome(1))
  show "staged so d s n \<Longrightarrow> commit d = (r, d') \<Longrightarrow> r = Inr () \<Longrightarrow> committed so d' n"
    by (rule commit_outcome(2))
  show "recovers so d s \<or> recovers so d n \<Longrightarrow> storable so s \<Longrightarrow> rollback so s d = (r, d') \<Longrightarrow>
      recovers so d' s \<or> recovers so d' n"
    by (rule rollback_outcome(1))
  show "recovers so d s \<or> recovers so d n \<Longrightarrow> storable so s \<Longrightarrow> rollback so s d = (r, d') \<Longrightarrow>
      r = Inr () \<Longrightarrow> committed so d' s"
    by (rule rollback_outcome(2))
qed

section \<open>Recovery\<close>

lemma remove_all_keeps:
  "f \<notin> set fs \<Longrightarrow> entry (remove_all fs d) f = entry d f"
proof (induction fs arbitrary: d)
  case (Cons g fs)
  then show ?case
    using keepsD [OF keeps_remove, of f g d] by simp
qed simp

lemma orphan_not_plain: "is_orphan pid alive f \<Longrightarrow> \<not> plain f"
  by (cases f) (auto simp: is_orphan_def temporary_pid_def strip_prefix_def starts_with_def plain_def
      split: option.splits if_splits)

lemma remove_orphans_keeps: "plain f \<Longrightarrow> entry (remove_orphans pid proc d) f = entry d f"
  unfolding remove_orphans_def
  by (cases proc) (auto intro!: remove_all_keeps dest: orphan_not_plain)

lemma read_file_entry: "read_file f d = (r, d') \<Longrightarrow> entry d' g = entry d g"
  by (auto simp: read_file_def io_op_def
      split: option.splits dir_entry.splits if_splits list.splits io_outcome.splits)

lemma read_file_bytes: "read_file f d = (Inr bytes, d') \<Longrightarrow> entry d f = Some (Regular bytes)"
  by (auto simp: read_file_def split: option.splits dir_entry.splits sum.splits prod.splits)

lemma read_state_sound:
  assumes "read_state so d = (Inr (Some s), d')"
  shows "holds so d ''state.json'' s" "entry d' f = entry d f"
  using assms read_file_entry [of "''state.json''" d]
  by (auto simp: read_state_def holds_def dest: read_file_bytes
      split: prod.splits sum.splits read_error.splits)

lemma write_file_regular: "write_file so f b d = (Inr (), d') \<Longrightarrow> entry d f \<noteq> Some NonRegular"
  by (auto simp: write_file_def atomic_def split: if_splits)

lemma recover_pending_sound:
  assumes "recover_pending so d = (Inr (), d')"
  obtains s where "holds so d ''state.prev.json'' s" "committed so d' s" "entry d ''state.json'' \<noteq> Some NonRegular"
proof -
  from assms obtain previous d1 where rd: "read_file ''state.prev.json'' d = (Inr previous, d1)"
    by (auto simp: recover_pending_def split: prod.splits sum.splits)
  with assms obtain s where dec: "decode_checked so previous = Inr s"
    and ops: "seq_io (write_file so ''state.json'' previous) remove_pending d1 = (Inr (), d')"
    by (auto simp: recover_pending_def split: sum.splits)
  from ops obtain d2 where w: "write_file so ''state.json'' previous d1 = (Inr (), d2)"
    and p: "remove_pending d2 = (Inr (), d')"
    by (cases rule: seq_ioE) auto
  have "entry d2 ''state.json'' = Some (Regular previous)"
    using write_file_target [OF w] by simp
  then have "committed so d' s"
    using remove_pending_outcome(1) [OF p, of "''state.json''"] remove_pending_outcome(2) [OF p] dec
    by (simp add: committed_def holds_def)
  moreover have "holds so d ''state.prev.json'' s"
    using read_file_bytes [OF rd] dec by (simp add: holds_def)
  moreover have "entry d ''state.json'' \<noteq> Some NonRegular"
    using write_file_regular [OF w] read_file_entry [OF rd] by simp
  ultimately show thesis using that by blast
qed

lemma load_sound:
  assumes "load so d = (Inr (Some s), d')"
  shows "recovers so d s" "committed so d' s"
proof -
  define d0 where "d0 = remove_orphans (so_pid so) (so_proc so) d"
  have d0: "plain f \<Longrightarrow> entry d0 f = entry d f" for f
    unfolding d0_def by (rule remove_orphans_keeps)
  have "recovers so d0 s \<and> committed so d' s"
  proof (cases "entry d0 ''state.pending'' = None")
    case True
    with assms have "read_state so d0 = (Inr (Some s), d')"
      by (simp add: load_def d0_def Let_def seq_io_def)
    with True read_state_sound [OF this] show ?thesis
      by (auto simp: recovers_def committed_def holds_def)
  next
    case False
    with assms have "seq_io (recover_pending so) (read_state so) d0 = (Inr (Some s), d')"
      by (simp add: load_def d0_def Let_def)
    then obtain d1 where r: "recover_pending so d0 = (Inr (), d1)" and rd: "read_state so d1 = (Inr (Some s), d')"
      by (cases rule: seq_ioE) auto
    from r obtain s0 where s0: "holds so d0 ''state.prev.json'' s0" "committed so d1 s0"
      "entry d0 ''state.json'' \<noteq> Some NonRegular"
      by (rule recover_pending_sound)
    have "s0 = s"
      using s0(2) read_state_sound(1) [OF rd] holds_unique by (auto simp: committed_def)
    with s0 False read_state_sound(2) [OF rd] show ?thesis
      by (auto simp: recovers_def committed_def holds_def)
  qed
  moreover have "recovers so d s = recovers so d0 s"
    by (simp add: recovers_def holds_def d0)
  ultimately show "recovers so d s" "committed so d' s"
    by auto
qed

section \<open>What the other operations leave to recovery\<close>

lemma write_file_recovery:
  assumes "write_file so f b d = (r, d')" "f \<notin> {''state.json'', ''state.prev.json'', ''state.pending''}"
  shows "recovers so d' s = recovers so d s" "committed so d' s = committed so d s"
    "staged so d' s n = staged so d s n"
  using assms(2) write_file_other [OF assms(1)]
  by (auto simp: recovers_def committed_def staged_def holds_def)

lemma initialize_recovers:
  assumes "recovers so d s" "storable so n" "initialize so n d = (r, d')"
  shows "recovers so d' s \<or> recovers so d' n"
  using assms(1,2) initialize_outcome(1) [OF assms(3), of "''state.pending''"]
    initialize_outcome(1) [OF assms(3), of "''state.prev.json''"] initialize_outcome(3,4) [OF assms(3)]
  by (auto simp: recovers_def holds_def)

lemma initialize_committed:
  assumes "committed so d s" "storable so n" "initialize so n d = (Inr (), d')"
  shows "committed so d' n"
  using assms(1,2) initialize_outcome(1) [OF assms(3), of "''state.pending''"] initialize_outcome(2) [OF assms(3)]
  by (simp add: committed_def)

lemma initialize_staged:
  assumes "staged so d s n" "initialize so n' d = (r, d')"
  shows "recovers so d' s" "r = Inr () \<Longrightarrow> storable so n' \<Longrightarrow> staged so d' s n'"
proof -
  have json: "entry d ''state.json'' \<noteq> Some NonRegular"
    using assms(1) by (auto simp: staged_def holds_def)
  have same: "entry d' ''state.pending'' = entry d ''state.pending''"
    "entry d' ''state.prev.json'' = entry d ''state.prev.json''"
    using initialize_outcome(1) [OF assms(2)] by simp_all
  show "recovers so d' s" "r = Inr () \<Longrightarrow> storable so n' \<Longrightarrow> staged so d' s n'"
    using assms(1) same initialize_outcome(3) [OF assms(2) json] initialize_outcome(2) [OF assms(2)]
    by (auto simp: recovers_def staged_def holds_def)
qed

lemma read_state_found:
  assumes "holds so d ''state.json'' s" "read_state so d = (Inr x, d')"
  shows "x = Some s"
proof -
  obtain b where b: "entry d ''state.json'' = Some (Regular b)" "decode_checked so b = Inr s"
    using assms(1) by (auto simp: holds_def split: option.splits dir_entry.splits)
  obtain q d1 where "io_op (\<lambda>d. d) (\<lambda>n d. d) d = (q, d1)" by fastforce
  with assms(2) b show ?thesis
    by (cases q) (auto simp: read_state_def read_file_def)
qed

lemma read_state_entry: "read_state so d = (r, d') \<Longrightarrow> entry d' f = entry d f"
  using read_file_entry [of "''state.json''" d _ _ f]
  by (auto simp: read_state_def split: prod.splits sum.splits read_error.splits)

lemma recover_pending_keeps:
  assumes "recovers so d s" "entry d ''state.pending'' \<noteq> None" "recover_pending so d = (r, d')"
  shows "recovers so d' s"
proof -
  obtain b where b: "entry d ''state.prev.json'' = Some (Regular b)" "decode_checked so b = Inr s"
    and json: "entry d ''state.json'' \<noteq> Some NonRegular"
    using assms(1,2) by (auto simp: recovers_def holds_def split: option.splits dir_entry.splits)
  obtain q d1 where rd: "read_file ''state.prev.json'' d = (q, d1)" by fastforce
  have e1: "entry d1 f = entry d f" for f
    by (rule read_file_entry [OF rd])
  show ?thesis
  proof (cases q)
    case (Inl e)
    with assms rd e1 show ?thesis by (auto simp: recover_pending_def recovers_def holds_def)
  next
    case (Inr bytes)
    then have "bytes = b" using read_file_bytes rd b(1) by fastforce
    with assms(3) rd Inr b(2) have "seq_io (write_file so ''state.json'' b) remove_pending d1 = (r, d')"
      by (simp add: recover_pending_def)
    then show ?thesis
    proof (cases rule: seq_ioE)
      case (1 e)
      show ?thesis
        using write_file_other [OF 1(1)] write_file_target [OF 1(1)] e1 b json assms(2)
        by (auto simp: recovers_def holds_def)
    next
      case (2 d2)
      have "entry d' ''state.json'' = Some (Regular b)" "entry d' ''state.prev.json'' = Some (Regular b)"
        using write_file_target [OF 2(1)] write_file_other [OF 2(1)] remove_pending_outcome(1) [OF 2(2)] e1 b
        by simp_all
      with b(2) show ?thesis by (simp add: recovers_def holds_def)
    qed
  qed
qed

lemma load_keeps:
  assumes "recovers so d s" "load so d = (r, d')"
  shows "recovers so d' s" "r = Inr x \<Longrightarrow> x = Some s"
proof -
  define d0 where "d0 = remove_orphans (so_pid so) (so_proc so) d"
  have "recovers so d0 s = recovers so d s"
    unfolding d0_def by (simp add: recovers_def holds_def remove_orphans_keeps)
  with assms(1) have r0: "recovers so d0 s" by simp
  have ld: "seq_io (if entry d0 ''state.pending'' \<noteq> None then recover_pending so else (\<lambda>d. (Inr (), d)))
       (read_state so) d0 = (r, d')"
    using assms(2) by (simp add: load_def d0_def Let_def)
  have "recovers so d' s \<and> (\<forall>x. r = Inr x \<longrightarrow> x = Some s)"
  proof (cases "entry d0 ''state.pending'' = None")
    case True
    with ld have "read_state so d0 = (r, d')" by (simp add: seq_io_def)
    with True r0 read_state_found [of so d0 s] read_state_entry [of so d0 r d'] show ?thesis
      by (auto simp: recovers_def holds_def)
  next
    case False
    with ld have "seq_io (recover_pending so) (read_state so) d0 = (r, d')" by simp
    then show ?thesis
    proof (cases rule: seq_ioE)
      case (1 e)
      with recover_pending_keeps [OF r0 False] show ?thesis by simp
    next
      case (2 d1)
      then obtain s' where s': "committed so d1 s'"
        using recover_pending_sound by metis
      have "recovers so d1 s"
        by (rule recover_pending_keeps [OF r0 False 2(1)])
      with s' committed_recovers recovers_unique have "committed so d1 s"
        by metis
      with 2(2) read_state_found [of so d1 s] read_state_entry [OF 2(2)] show ?thesis
        by (auto simp: recovers_def committed_def holds_def)
    qed
  qed
  then show "recovers so d' s" "r = Inr x \<Longrightarrow> x = Some s" by auto
qed

lemma recovers_checked: "recovers so d s \<Longrightarrow> check_state (so_printer so) s = Inr ()"
  by (auto simp: recovers_def holds_def decode_checked_def bind_r_def
      split: if_splits option.splits dir_entry.splits sum.splits)

section \<open>Another writer\<close>

text \<open>JSON gives back what was encoded. Encoding can fail.\<close>

definition encodes :: "store \<Rightarrow> bool" where
  "encodes so = (\<forall>s b. so_to_vec so s = Inr b \<longrightarrow> so_from_slice so b = Inr s)"

text \<open>
  A second process writes the same directory. What it leaves is recoverable and not older than what
  it found.
\<close>

locale peer_writer =
  fixes so :: store and peer :: "'w \<Rightarrow> disk \<Rightarrow> disk"
  assumes forward: "encodes so \<Longrightarrow> recovers so d s \<Longrightarrow>
    \<exists>s'. recovers so (peer w d) s' \<and> sf_revision s \<le> sf_revision s'"
begin

text \<open>Any number of its turns are as good as one.\<close>

lemma turns_forward:
  assumes "encodes so" "recovers so d s"
  shows "\<exists>s'. recovers so (fold peer ws d) s' \<and> sf_revision s \<le> sf_revision s'"
  using assms(2)
proof (induction ws arbitrary: d s)
  case (Cons w ws)
  then obtain s1 where s1: "recovers so (peer w d) s1" "sf_revision s \<le> sf_revision s1"
    using forward [OF assms(1)] by blast
  from Cons.IH [OF s1(1)] s1(2) show ?case by (auto intro: order_trans)
qed auto

end

section \<open>Recovery completes\<close>

text \<open>
  A machine on which every coming operation succeeds, and one on which the next temporary name is free
  besides. The name need not be free: \<open>remove_orphans\<close> keeps the files of this process's own pid, so one
  that a dead process of the same pid left behind is still there.
\<close>

definition working_disk :: "disk \<Rightarrow> bool" where
  "working_disk d = (dk_io d = [] \<and> \<not> dk_crashed d)"

definition sound_disk :: "store \<Rightarrow> disk \<Rightarrow> bool" where
  "sound_disk so d =
     (dk_io d = [] \<and> \<not> dk_crashed d \<and> entry d (temp_name (so_pid so) (dk_temp d)) = None)"

lemma io_op_sound [simp]: "dk_io d = [] \<Longrightarrow> \<not> dk_crashed d \<Longrightarrow> io_op eff part d = (Inr (), eff d)"
  by (simp add: io_op_def)

lemma disk_fields [simp]:
  "dk_io (put_entry f x d) = dk_io d" "dk_crashed (put_entry f x d) = dk_crashed d"
  "dk_io (del_entry f d) = dk_io d" "dk_crashed (del_entry f d) = dk_crashed d"
  "dk_temp (put_entry f x d) = dk_temp d" "dk_temp (del_entry f d) = dk_temp d"
  by (simp_all add: put_entry_def del_entry_def)

lemma write_file_sound:
  assumes "sound_disk so d" "plain f" "CHR ''/'' \<notin> set f" "entry d f \<noteq> Some NonRegular"
  shows "\<exists>d'. write_file so f b d = (Inr (), d') \<and> dk_io d' = [] \<and> \<not> dk_crashed d'"
proof -
  let ?t = "temp_name (so_pid so) (dk_temp d)"
  have t: "?t \<noteq> f"
    using plain_not_temp [OF assms(2)] by metis
  have "f \<noteq> ''.''" "f \<noteq> ''..''"
    using assms(2) by (auto simp: plain_def)
  with assms t show ?thesis
    by (simp add: write_file_def atomic_def sound_disk_def publish_temp_def seq_io_def create_new_def
        write_sync_def rename_def sync_dir_def remove_file_def Let_def)
qed

lemma remove_all_fields:
  "dk_io d = [] \<Longrightarrow> \<not> dk_crashed d \<Longrightarrow>
   dk_io (remove_all fs d) = [] \<and> \<not> dk_crashed (remove_all fs d) \<and> dk_temp (remove_all fs d) = dk_temp d \<and>
   (\<forall>f. entry d f = None \<longrightarrow> entry (remove_all fs d) f = None)"
  by (induction fs arbitrary: d) (simp_all add: remove_file_def)

lemma remove_orphans_sound: "sound_disk so d \<Longrightarrow> sound_disk so (remove_orphans pid proc d)"
  unfolding remove_orphans_def sound_disk_def
  by (cases proc) (simp_all add: remove_all_fields)

lemma remove_pending_sound:
  "dk_io d = [] \<Longrightarrow> \<not> dk_crashed d \<Longrightarrow>
   \<exists>d'. remove_pending d = (Inr (), d') \<and> dk_io d' = [] \<and> \<not> dk_crashed d'"
  by (simp add: remove_pending_def sync_dir_def seq_io_def remove_file_def)

lemma read_state_total:
  "dk_io d = [] \<Longrightarrow> \<not> dk_crashed d \<Longrightarrow> holds so d ''state.json'' s \<Longrightarrow>
   \<exists>d'. read_state so d = (Inr (Some s), d')"
  by (auto simp: holds_def read_state_def read_file_def split: option.splits dir_entry.splits)

lemma load_total:
  assumes "recovers so d s" "sound_disk so d"
  shows "\<exists>d'. load so d = (Inr (Some s), d')"
proof -
  define d0 where "d0 = remove_orphans (so_pid so) (so_proc so) d"
  have d0: "sound_disk so d0" "\<And>f. plain f \<Longrightarrow> entry d0 f = entry d f"
    unfolding d0_def by (simp_all add: remove_orphans_sound assms(2) remove_orphans_keeps)
  then have io: "dk_io d0 = []" "\<not> dk_crashed d0"
    by (simp_all add: sound_disk_def)
  show ?thesis
  proof (cases "entry d ''state.pending'' = None")
    case True
    with assms(1) d0 have "holds so d0 ''state.json'' s"
      by (simp add: recovers_def holds_def)
    with True d0(2) read_state_total [OF io] show ?thesis
      by (simp add: load_def d0_def [symmetric] Let_def seq_io_def)
  next
    case False
    then obtain b where b: "entry d0 ''state.prev.json'' = Some (Regular b)" "decode_checked so b = Inr s"
      using assms(1) d0(2) by (auto simp: recovers_def holds_def split: option.splits dir_entry.splits)
    have json: "entry d0 ''state.json'' \<noteq> Some NonRegular"
      using False assms(1) d0(2) by (simp add: recovers_def)
    obtain d1 where w: "write_file so ''state.json'' b d0 = (Inr (), d1)" "dk_io d1 = []" "\<not> dk_crashed d1"
      using write_file_sound [OF d0(1) _ _ json, of b] by auto
    obtain d2 where p: "remove_pending d1 = (Inr (), d2)" "dk_io d2 = []" "\<not> dk_crashed d2"
      using remove_pending_sound [OF w(2,3)] by blast
    have "recover_pending so d0 = (Inr (), d2)"
      using b w(1) p(1) io by (simp add: recover_pending_def read_file_def seq_io_def)
    moreover have "holds so d2 ''state.json'' s"
      using write_file_target [OF w(1)] remove_pending_outcome(1) [OF p(1), of "''state.json''"] b(2)
      by (simp add: holds_def)
    ultimately show ?thesis
      using False d0(2) read_state_total [OF p(2,3)]
      by (simp add: load_def d0_def [symmetric] Let_def seq_io_def)
  qed
qed

lemma remove_all_working: "working_disk d \<Longrightarrow> working_disk (remove_all fs d) \<and> dk_temp (remove_all fs d) = dk_temp d"
  by (induction fs arbitrary: d) (auto simp: working_disk_def remove_file_def)

lemma remove_orphans_working:
  assumes "working_disk d"
  shows "working_disk (remove_orphans pid proc d)" "dk_temp (remove_orphans pid proc d) = dk_temp d"
  using assms by (auto simp: remove_orphans_def remove_all_working split: option.split)

lemma load_committed:
  assumes "recovers so d s" "working_disk d" "entry d ''state.pending'' = None"
  shows "\<exists>d'. load so d = (Inr (Some s), d')"
proof -
  define d0 where "d0 = remove_orphans (so_pid so) (so_proc so) d"
  have "working_disk d0" "entry d0 ''state.pending'' = None" "holds so d0 ''state.json'' s"
    using assms by (simp_all add: d0_def remove_orphans_working remove_orphans_keeps recovers_def holds_def)
  then show ?thesis
    using read_state_total [of d0 so s] by (simp add: load_def d0_def [symmetric] Let_def seq_io_def working_disk_def)
qed

lemma own_temporary_kept: "\<not> is_orphan pid alive (temp_name pid n)"
proof -
  have "CHR ''-'' \<notin> set (dec pid)"
    using dec_digits [of pid] by (auto simp: list_all_iff ascii_defs)
  then have "split_on (CHR ''-'') (dec pid @ CHR ''-'' # dec (unat n)) = dec pid # split_on (CHR ''-'') (dec (unat n))"
    by (rule split_on_append)
  then have "temporary_pid (temp_name pid n) = parse_uint 32 (dec pid)"
    by (cases "split_on (CHR ''-'') (dec (unat n))") (simp_all add: temporary_pid_def temp_name_def strip_prefix_def starts_with_def ends_with_def)
  then show ?thesis
    by (auto simp: is_orphan_def parse_uint_def strip_plus_dec digits_val_dec Let_def split: option.splits if_splits)
qed

lemma remove_all_other: "f \<notin> set fs \<Longrightarrow> entry (remove_all fs d) f = entry d f"
  using remove_all_keeps by metis

lemma own_temporary_stays:
  "entry (remove_orphans pid proc d) (temp_name pid n) = entry d (temp_name pid n)"
  unfolding remove_orphans_def using own_temporary_kept by (auto intro!: remove_all_other split: option.split)

text \<open>A file left under the next temporary name makes one start fail, which removes it.\<close>

lemma load_stuck_once:
  assumes "recovers so d s" "working_disk d" "entry d ''state.pending'' \<noteq> None"
    and "entry d (temp_name (so_pid so) (dk_temp d)) = Some (Regular b)"
  obtains d' where "load so d = (Inl ''File exists'', d')" "working_disk d'" "recovers so d' s"
    "entry d' (temp_name (so_pid so) (dk_temp d)) = None"
proof -
  let ?t = "temp_name (so_pid so) (dk_temp d)"
  define d0 where "d0 = remove_orphans (so_pid so) (so_proc so) d"
  have d0: "working_disk d0" "dk_temp d0 = dk_temp d" "\<And>f. plain f \<Longrightarrow> entry d0 f = entry d f" "entry d0 ?t \<noteq> None"
    using assms by (simp_all add: d0_def remove_orphans_working remove_orphans_keeps own_temporary_stays)
  obtain c where c: "entry d0 ''state.prev.json'' = Some (Regular c)" "decode_checked so c = Inr s"
    using assms(1,3) d0(3) by (auto simp: recovers_def holds_def split: option.splits dir_entry.splits)
  have json: "entry d0 ''state.json'' \<noteq> Some NonRegular" using assms(1,3) d0(3) by (simp add: recovers_def)
  define d' where "d' = del_entry ?t (d0\<lparr>dk_temp := dk_temp d0 + 1\<rparr>)"
  have "write_file so ''state.json'' c d0 = (Inl ''File exists'', d')"
    using d0 json
    by (auto simp: write_file_def atomic_def publish_temp_def seq_io_def create_new_def remove_file_def Let_def
        working_disk_def d'_def)
  then have "load so d = (Inl ''File exists'', d')"
    using c d0(1,3) assms(3)
    by (simp add: load_def d0_def [symmetric] Let_def seq_io_def recover_pending_def read_file_def working_disk_def)
  moreover have "entry d' f = entry d f" if "plain f" for f
    using d0(3) [OF that] plain_not_temp [OF that] by (simp add: d'_def)
  then have "recovers so d' s" using assms(1) unfolding recovers_def holds_def by simp
  moreover have "working_disk d'" using d0(1) by (simp add: d'_def working_disk_def)
  moreover have "entry d' ?t = None" by (simp add: d'_def)
  ultimately show thesis using that by blast
qed

section \<open>Properties\<close>

text \<open>A concrete store whose JSON functions know two envelopes, and a disk that holds the first.\<close>

definition sample_state :: "u64 \<Rightarrow> state_file" where
  "sample_state r = new_state_file (default_desired_state\<lparr>ds_revision := r\<rparr>) []"

definition two_store :: "state_file \<Rightarrow> state_file \<Rightarrow> store" where
  "two_store a b =
     \<lparr>so_pid = 7, so_proc = None, so_printer = (\<lambda>_. None),
      so_to_vec = (\<lambda>s. if s = a then Inr ''A'' else if s = b then Inr ''B'' else Inl ''unsupported''),
      so_from_slice = (\<lambda>x. if x = ''A'' then Inr a else if x = ''B'' then Inr b else Inl ''bad'')\<rparr>"

definition sample_store :: store where
  "sample_store = two_store (sample_state 0) (sample_state 1)"

lemma two_store_encodes: "encodes (two_store a b)"
  by (auto simp: encodes_def two_store_def split: if_splits)

lemma two_store_storable:
  assumes "check_state (\<lambda>_. None) a = Inr ()" "check_state (\<lambda>_. None) b = Inr ()"
  shows "storable (two_store a b) a" "storable (two_store a b) b"
    "decode_checked (two_store a b) ''A'' = Inr a" "decode_checked (two_store a b) ''B'' = Inr b"
  using assms by (auto simp: storable_def decode_checked_def two_store_def simp del: check_state_ok)

definition sample_disk :: "io_outcome list \<Rightarrow> disk" where
  "sample_disk io = \<lparr>dk_entries = [(''state.json'', Regular ''A'')], dk_temp = 1, dk_io = io, dk_crashed = False\<rparr>"

lemma sample_consistent: "envelope_consistent (sample_state r)"
  by (simp add: sample_state_def envelope_consistent_def new_state_file_def OWNERSHIP_def bt_of_list_def
      bt_values_def less_domain_def)

lemma sample_check: "check_state dp (sample_state r) = Inr ()"
proof -
  have "validate dp (sf_document (sample_state r)) = Inr ()"
    using document_with_network_ok [OF default_parts_ok(3), of dp]
    by (simp add: sample_state_def new_state_file_def) (simp add: default_desired_state_def)
  then show ?thesis
    by (simp add: sample_consistent)
qed

lemma sample_revision: "sf_revision (sample_state r) = r"
  by (simp add: sample_state_def new_state_file_def)

lemma two_store_committed:
  "check_state (\<lambda>_. None) a = Inr () \<Longrightarrow> committed (two_store a b) (sample_disk io) a"
  by (simp add: committed_def holds_def entry_def sample_disk_def bt_get_def decode_checked_def two_store_def
      del: check_state_ok)

lemma sample_ready:
  "committed sample_store (sample_disk io) (sample_state 0)" "storable sample_store (sample_state 0)"
  "storable sample_store (sample_state 1)"
  unfolding sample_store_def
  by (simp_all add: two_store_committed two_store_storable sample_check del: check_state_ok)

text \<open>
  Staging is invisible to recovery. Whatever operations fail and wherever the process dies in
  it, the envelope that the next start recovers is the previous one.
\<close>

theorem stage_invisible:
  assumes "committed so d s" and "storable so s" and "stage so s n d = (r, d')"
  shows "recovers so d' s"
  by (rule publication.stage_recov [OF assms])

theorem stage_invisible_witness:
  "recovers sample_store (snd (stage sample_store (sample_state 0) (sample_state 1) (sample_disk [IoOk, IoCrash 0])))
     (sample_state 0)"
  by (rule stage_invisible [OF sample_ready(1,2), where r = "fst (stage sample_store (sample_state 0)
        (sample_state 1) (sample_disk [IoOk, IoCrash 0]))"]) simp

text \<open>
  C16: Removing the pending marker is the commit point. After a complete staging, a commit that
  fails or dies leaves the previous or the next envelope to recovery, a commit that reports
  success leaves the next one, and a rollback that reports success the previous one.
\<close>

theorem commit_point:
  assumes "committed so d s" and "storable so s" and "storable so n"
    and "stage so s n d = (Inr (), d1)" and "commit d1 = (r, d2)" and "rollback so s d2 = (r', d3)"
  shows "(recovers so d2 s \<or> recovers so d2 n) \<and> (r = Inr () \<longrightarrow> committed so d2 n) \<and>
    (recovers so d3 s \<or> recovers so d3 n) \<and> (r' = Inr () \<longrightarrow> committed so d3 s)"
  using publication.transaction [OF assms(1-4) refl assms(5)] assms(6) by blast

theorem commit_point_witness:
  "let d1 = snd (stage sample_store (sample_state 0) (sample_state 1) (sample_disk []));
       d2 = snd (commit d1)
   in committed sample_store d2 (sample_state 1) \<and>
      committed sample_store (snd (rollback sample_store (sample_state 0) d2)) (sample_state 0)"
proof -
  let ?stage = "stage sample_store (sample_state 0) (sample_state 1) (sample_disk [])"
  let ?commit = "commit (snd ?stage)"
  let ?rollback = "rollback sample_store (sample_state 0) (snd ?commit)"
  have ok: "fst ?stage = Inr ()" "fst ?commit = Inr ()" "fst ?rollback = Inr ()"
    by code_simp+
  show ?thesis
    using commit_point [OF sample_ready(1-3), of "[]" "snd ?stage" "fst ?commit" "snd ?commit" "fst ?rollback"
        "snd ?rollback"] ok by (simp add: prod_eq_iff Let_def)
qed



end
