(* ===== verification/Authority.thy ===== *)
theory Authority
  imports State_Store
begin

text \<open>
  The network authority (ndimon-state/src/network_authority.rs): how a privileged network job reads
  and replaces the network part of the envelope while the state actor may be writing it.

  What the operating system says about the directory and the lock file is the record \<open>authority\<close>; the
  directory itself is the \<open>disk\<close> of the state store. A rename replaces whatever entry has the target's
  name.

  What is shown: a decision replaces exactly the envelope it was computed from and nothing but its
  network part; an interrupted one leaves the old or the new envelope to recovery; the authority is a
  \<open>peer_writer\<close> of the directory.
\<close>

section \<open>The decision lock\<close>

record file_info =
  fi_dir :: bool
  fi_file :: bool
  fi_mode :: u32
  fi_nlink :: u64
  fi_uid :: u32

datatype flock_outcome = Acquired | WouldBlock | FlockError string

record authority =
  au_store :: store
  au_directory :: "(file_info, string) result"
  au_lock_file :: "(file_info, string) result"
  au_euid :: u32
  au_chown_lock :: "(unit, string) result"
  au_flock :: "bool \<Rightarrow> flock_outcome"
  au_random :: "(string, api_error) result"
  au_state_safe :: "disk \<Rightarrow> bool"

definition authority_failed :: "string \<Rightarrow> api_error" where
  "authority_failed reason = ApplyFailed DNetwork ''authority'' reason"

text \<open>\<open>nonblock\<close> is the mode \<open>LockExclusiveNonblock\<close>; the masks are 0o022 and 0o077.\<close>

definition lock_with :: "authority \<Rightarrow> bool \<Rightarrow> (unit, api_error) result" where
  "lock_with au nonblock =
     bind_r (map_err authority_failed (au_directory au)) (\<lambda>info.
     if \<not> fi_dir info \<or> fi_mode info AND 0x12 \<noteq> 0 then Inl (authority_failed ''unsafe_state_directory'')
     else bind_r (map_err authority_failed (au_lock_file au)) (\<lambda>m.
       if \<not> fi_file m \<or> fi_nlink m \<noteq> 1 \<or> fi_mode m AND 0x3F \<noteq> 0 \<or>
          (fi_uid m \<noteq> fi_uid info \<and> fi_uid m \<noteq> au_euid au)
       then Inl (authority_failed ''unsafe_state_lock'')
       else bind_r (if au_euid au = 0 then map_err authority_failed (au_chown_lock au) else Inr ()) (\<lambda>_.
         case au_flock au nonblock of
           Acquired \<Rightarrow> Inr ()
         | WouldBlock \<Rightarrow> Inl (Locked ''network'' (Some ''state_transaction''))
         | FlockError e \<Rightarrow> Inl (authority_failed e))))"

definition lock :: "authority \<Rightarrow> (unit, api_error) result" where
  "lock au = lock_with au False"

section \<open>Publication\<close>

type_synonym 'a authority_io = "disk \<Rightarrow> (api_error + 'a) \<times> disk"

definition fail_io :: "api_error \<Rightarrow> 'a authority_io" where
  "fail_io e d = (Inl e, d)"

definition lift_io :: "'a io \<Rightarrow> 'a authority_io" where
  "lift_io op d = (case op d of (Inl e, d') \<Rightarrow> (Inl (authority_failed e), d') | (Inr x, d') \<Rightarrow> (Inr x, d'))"

definition then_io :: "'a authority_io \<Rightarrow> ('a \<Rightarrow> 'b authority_io) \<Rightarrow> 'b authority_io" where
  "then_io m f d = (case m d of (Inl e, d') \<Rightarrow> (Inl e, d') | (Inr x, d') \<Rightarrow> f x d')"

definition network_temp :: "string \<Rightarrow> string" where
  "network_temp rid = ''.network-'' @ rid @ ''.tmp''"

definition touch :: "unit io" where
  "touch = io_op (\<lambda>d. d) (\<lambda>n d. d)"

definition publish_network :: "bool \<Rightarrow> string \<Rightarrow> string \<Rightarrow> unit io" where
  "publish_network as_root temporary bytes =
     seq_io (create_new temporary)
       (seq_io (if as_root then touch else (\<lambda>d. (Inr (), d)))
         (seq_io touch
           (seq_io (write_sync temporary bytes)
             (seq_io (rename temporary ''state.json'') sync_dir))))"

definition authority_publish :: "authority \<Rightarrow> string \<Rightarrow> unit authority_io" where
  "authority_publish au bytes =
     then_io (lift_io touch) (\<lambda>_ d.
       case au_random au of
         Inl e \<Rightarrow> (Inl e, d)
       | Inr rid \<Rightarrow>
           (let (result, d1) = lift_io (publish_network (au_euid au = 0) (network_temp rid) bytes) d
            in (result, snd (remove_file (network_temp rid) d1))))"

definition authority_replace :: "authority \<Rightarrow> state_file \<Rightarrow> unit authority_io" where
  "authority_replace au s =
     (case so_to_vec (au_store au) s of
        Inl e \<Rightarrow> fail_io (authority_failed e)
      | Inr bytes \<Rightarrow> authority_publish au bytes)"

section \<open>Reading with recovery\<close>

definition read_prev :: "string io" where
  "read_prev d =
     (case read_file ''state.prev.json'' d of (Inl e, d') \<Rightarrow> (Inl (read_error_text e), d') | (Inr b, d') \<Rightarrow> (Inr b, d'))"

definition authority_recover :: "authority \<Rightarrow> unit authority_io" where
  "authority_recover au =
     then_io (lift_io touch) (\<lambda>_ d.
       if entry d ''state.pending'' = None then (Inr (), d)
       else then_io (lift_io read_prev) (\<lambda>previous.
            then_io (\<lambda>d. (map_err authority_failed (decode_checked (au_store au) previous), d)) (\<lambda>_.
            then_io (authority_publish au previous) (\<lambda>_.
              lift_io remove_pending))) d)"

definition MAX_STATE_BYTES :: nat where "MAX_STATE_BYTES = 4 * 1024 * 1024"

definition authority_read :: "authority \<Rightarrow> state_file authority_io" where
  "authority_read au =
     then_io (authority_recover au) (\<lambda>_.
     then_io (lift_io touch) (\<lambda>_ d.
       (case entry d ''state.json'' of
          None \<Rightarrow> (Inl (authority_failed ''No such file''), d)
        | Some NonRegular \<Rightarrow> (Inl (authority_failed ''unsafe_state_file''), d)
        | Some (Regular bytes) \<Rightarrow>
            if \<not> au_state_safe au d \<or> length bytes > MAX_STATE_BYTES
            then (Inl (authority_failed ''unsafe_state_file''), d)
            else (map_err authority_failed (decode_checked (au_store au) bytes), d))))"

section \<open>Decisions\<close>

record network_commit =
  nc_version :: u32
  nc_revision :: u64
  nc_profiles :: network_profiles
  nc_metadata :: network_backend_metadata
  nc_transaction :: "string option"
  nc_network_commit_revision :: "u64 option"

definition decision :: "state_file \<Rightarrow> network_commit" where
  "decision s =
     \<lparr>nc_version = 1, nc_revision = sf_revision s, nc_profiles = ds_network (sf_document s),
      nc_metadata = (case sf_network_backend_metadata s of
                       Some m \<Rightarrow> m | None \<Rightarrow> default_network_backend_metadata),
      nc_transaction = sf_network_commit_job_id s,
      nc_network_commit_revision = sf_network_commit_revision s\<rparr>"

definition valid_id :: "string \<Rightarrow> bool" where
  "valid_id s =
     (length s = 64 \<and> list_all (\<lambda>b. is_ascii_digit b \<or> (97 \<le> byte b \<and> byte b \<le> 102)) s)"

definition authority_load :: "authority \<Rightarrow> network_commit authority_io" where
  "authority_load au d =
     (case lock_with au True of
        Inl e \<Rightarrow> (Inl e, d)
      | Inr _ \<Rightarrow> then_io (authority_read au) (\<lambda>s d. (Inr (decision s), d)) d)"

definition decision_acceptable :: "network_commit \<Rightarrow> network_commit \<Rightarrow> bool" where
  "decision_acceptable expected replacement =
     (nc_version replacement = 1 \<and>
      checked_add (nc_revision expected) 1 = Some (nc_revision replacement) \<and>
      nc_revision replacement \<le> 9007199254740991 \<and>
      nc_network_commit_revision replacement = Some (nc_revision replacement) \<and>
      (case nc_transaction replacement of None \<Rightarrow> False | Some job \<Rightarrow> valid_id job))"

definition with_decision :: "state_file \<Rightarrow> network_commit \<Rightarrow> state_file" where
  "with_decision s c =
     s\<lparr>sf_document := (sf_document s)\<lparr>ds_network := nc_profiles c, ds_revision := nc_revision c\<rparr>,
       sf_revision := nc_revision c,
       sf_domain_revisions := bt_insert DNetwork (nc_revision c) (sf_domain_revisions s),
       sf_network_commit_job_id := nc_transaction c,
       sf_network_commit_revision := nc_network_commit_revision c,
       sf_network_backend_metadata := Some (nc_metadata c)\<rparr>"

definition compare_and_commit ::
  "authority \<Rightarrow> network_commit \<Rightarrow> network_commit \<Rightarrow> unit authority_io" where
  "compare_and_commit au expected replacement d =
     (case lock au of
        Inl e \<Rightarrow> (Inl e, d)
      | Inr _ \<Rightarrow>
          then_io (authority_read au) (\<lambda>s.
            if decision s \<noteq> expected then fail_io (RevisionConflict (sf_revision s))
            else if \<not> decision_acceptable expected replacement
            then fail_io (authority_failed ''invalid_network_decision'')
            else (let n = with_decision s replacement
                  in then_io (\<lambda>d. (map_err authority_failed (check_state (so_printer (au_store au)) n), d)) (\<lambda>_.
                       authority_replace au n))) d)"

section \<open>What the operations leave in the directory\<close>

lemma then_ioE:
  assumes "then_io m f d = (r, d')"
  obtains e where "m d = (Inl e, d')" "r = Inl e"
  | x d1 where "m d = (Inr x, d1)" "f x d1 = (r, d')"
  using assms by (auto simp: then_io_def split: prod.splits sum.splits)

lemma lift_ioE:
  assumes "lift_io op d = (r, d')"
  obtains e where "op d = (Inl e, d')" "r = Inl (authority_failed e)"
  | x where "op d = (Inr x, d')" "r = Inr x"
  using assms by (auto simp: lift_io_def split: prod.splits sum.splits)

lemma touch_entry: "touch d = (r, d') \<Longrightarrow> entry d' f = entry d f"
  by (auto simp: touch_def io_op_def split: if_splits list.splits io_outcome.splits)

lemma lift_touch_entry: "lift_io touch d = (r, d') \<Longrightarrow> entry d' f = entry d f"
  by (auto elim!: lift_ioE dest: touch_entry)

lemma network_temp_plain: "plain f \<Longrightarrow> f \<noteq> network_temp rid"
  by (auto simp: plain_def network_temp_def)

lemma keeps_touch: "keeps F touch"
  by (auto simp: keeps_def touch_entry [OF surjective_pairing])

lemma publish_network_keeps: "keeps {t, ''state.json''} (publish_network as_root t bytes)"
proof -
  have skip: "keeps {t, ''state.json''} (if as_root then touch else (\<lambda>d. (Inr (), d)))"
    using keeps_touch by (auto simp: keeps_def)
  show ?thesis
    unfolding publish_network_def
    by (intro keeps_seq skip keeps_touch keeps_mono [OF keeps_create] keeps_mono [OF keeps_write_sync]
        keeps_mono [OF keeps_rename] keeps_mono [OF keeps_sync]) auto
qed

lemma publish_network_target:
  assumes "publish_network as_root t bytes d = (r, d')" "t \<noteq> ''state.json''"
  shows "entry d' ''state.json'' = Some (Regular bytes) \<or>
    (r \<noteq> Inr () \<and> entry d' ''state.json'' = entry d ''state.json'')"
proof -
  let ?j = "''state.json''"
  have create: "entry (snd (create_new t d)) ?j = entry d ?j" for d
    by (rule keepsD [OF keeps_create]) (use assms(2) in auto)
  have chown: "entry (snd ((if as_root then touch else (\<lambda>d. (Inr (), d))) d)) ?j = entry d ?j" for d
    using touch_entry [OF surjective_pairing] by simp
  have chmod: "entry (snd (touch d)) ?j = entry d ?j" for d
    by (rule touch_entry [OF surjective_pairing])
  have written: "entry (snd (write_sync t bytes d)) ?j = entry d ?j" for d
    by (rule keepsD [OF keeps_write_sync]) (use assms(2) in auto)
  note kept = create chown chmod written
  show ?thesis
    using assms(1) unfolding publish_network_def
  proof (elim seq_ioE)
    fix d1 d2 d3 d4 d5
    assume steps: "write_sync t bytes d3 = (Inr (), d4)" "rename t ?j d4 = (Inr (), d5)" "sync_dir d5 = (r, d')"
    show ?thesis
      using rename_outcome [OF steps(2) write_sync_ok [OF steps(1)] assms(2)] sync_dir_entry [OF steps(3), of ?j]
      by simp
  next
    fix d1 d2 d3 d4 e
    assume steps: "create_new t d = (Inr (), d1)" "(if as_root then touch else (\<lambda>d. (Inr (), d))) d1 = (Inr (), d2)"
      "touch d2 = (Inr (), d3)" "write_sync t bytes d3 = (Inr (), d4)" "rename t ?j d4 = (Inl e, d')" "r = Inl e"
    show ?thesis
      using rename_outcome [OF steps(5) write_sync_ok [OF steps(4)] assms(2)]
        kept(1) [of d] kept(2) [of d1] kept(3) [of d2] kept(4) [of d3] steps by simp
  qed (use kept in \<open>force simp: prod_eq_iff\<close>)+
qed

lemma authority_publish_outcome:
  assumes "authority_publish au bytes d = (r, d')"
  shows "\<And>f. plain f \<Longrightarrow> f \<noteq> ''state.json'' \<Longrightarrow> entry d' f = entry d f"
    and "entry d' ''state.json'' = Some (Regular bytes) \<or>
      ((\<exists>e. r = Inl e) \<and> entry d' ''state.json'' = entry d ''state.json'')"
proof -
  have both: "(plain f \<and> f \<noteq> ''state.json'' \<longrightarrow> entry d' f = entry d f) \<and>
      (entry d' ''state.json'' = Some (Regular bytes) \<or>
       ((\<exists>e. r = Inl e) \<and> entry d' ''state.json'' = entry d ''state.json''))" for f
    using assms unfolding authority_publish_def
  proof (cases rule: then_ioE)
    case (1 e)
    then show ?thesis by (simp add: lift_touch_entry)
  next
    case (2 u d1)
    have e1: "entry d1 g = entry d g" for g by (rule lift_touch_entry [OF 2(1)])
    show ?thesis
    proof (cases "au_random au")
      case (Inl e)
      with 2(2) e1 show ?thesis by auto
    next
      case (Inr rid)
      let ?t = "network_temp rid"
      obtain q d2 where pub: "publish_network (au_euid au = 0) ?t bytes d1 = (q, d2)" by fastforce
      have end_state: "d' = snd (remove_file ?t d2)" "q = Inr () \<or> (\<exists>e. r = Inl e)"
        using 2(2) Inr pub by (cases q; force simp: lift_io_def)+
      have removed: "plain g \<Longrightarrow> entry d' g = entry d2 g" for g
        using keepsD [OF keeps_remove, of g ?t d2] network_temp_plain end_state(1) by auto
      have other: "plain g \<Longrightarrow> g \<noteq> ''state.json'' \<Longrightarrow> entry d2 g = entry d1 g" for g
        using keepsD [OF publish_network_keeps, of g ?t "au_euid au = 0" bytes d1] network_temp_plain pub by auto
      have "?t \<noteq> ''state.json''" by (simp add: network_temp_def)
      from publish_network_target [OF pub this] end_state(2) removed [of "''state.json''"] removed [of f]
        other [of f] e1 [of f] e1 [of "''state.json''"] show ?thesis by auto
    qed
  qed
  show "plain f \<Longrightarrow> f \<noteq> ''state.json'' \<Longrightarrow> entry d' f = entry d f" for f
    using both by blast
  show "entry d' ''state.json'' = Some (Regular bytes) \<or>
      ((\<exists>e. r = Inl e) \<and> entry d' ''state.json'' = entry d ''state.json'')"
    using both by blast
qed

lemma authority_recover_outcome:
  assumes "recovers (au_store au) d s" "authority_recover au d = (r, d')"
  shows "recovers (au_store au) d' s \<and> (r = Inr () \<longrightarrow> committed (au_store au) d' s)"
  using assms(2) unfolding authority_recover_def
proof (cases rule: then_ioE)
  case (1 e)
  with assms(1) recovers_same [OF lift_touch_entry [OF 1(1)]] show ?thesis by simp
next
  case (2 u d0)
  let ?so = "au_store au"
  have r0: "recovers ?so d0 s"
    using assms(1) recovers_same [OF lift_touch_entry [OF 2(1)]] by simp
  show ?thesis
  proof (cases "entry d0 ''state.pending'' = None")
    case True
    with 2(2) r0 show ?thesis by (simp add: recovers_def committed_def)
  next
    case False
    then obtain b where b: "entry d0 ''state.prev.json'' = Some (Regular b)" "decode_checked ?so b = Inr s"
      and json: "entry d0 ''state.json'' \<noteq> Some NonRegular"
      using r0 by (auto simp: recovers_def holds_def split: option.splits dir_entry.splits)
    from 2(2) False have run: "then_io (lift_io read_prev) (\<lambda>previous.
        then_io (\<lambda>d. (map_err authority_failed (decode_checked ?so previous), d)) (\<lambda>_.
        then_io (authority_publish au previous) (\<lambda>_. lift_io remove_pending))) d0 = (r, d')"
      by simp
    obtain q d1 where rd: "read_file ''state.prev.json'' d0 = (q, d1)" by fastforce
    have e1: "entry d1 f = entry d0 f" for f by (rule read_file_entry [OF rd])
    show ?thesis
    proof (cases q)
      case (Inl e)
      with run rd recovers_same [OF e1, of ?so s] r0 show ?thesis
        by (auto simp: then_io_def lift_io_def read_prev_def)
    next
      case (Inr bytes)
      then have "bytes = b" using read_file_bytes rd b(1) by fastforce
      with run rd Inr b(2) have "then_io (authority_publish au b) (\<lambda>_. lift_io remove_pending) d1 = (r, d')"
        by (simp add: then_io_def lift_io_def read_prev_def)
      then show ?thesis
      proof (cases rule: then_ioE)
        case (1 e)
        note out = authority_publish_outcome [OF 1(1)]
        show ?thesis
          using out(1) [of "''state.pending''"] out(1) [of "''state.prev.json''"] out(2) e1 b json False 1(2)
          by (auto simp: recovers_def holds_def)
      next
        case (2 u' d2)
        note out = authority_publish_outcome [OF 2(1)]
        obtain q' where rm: "remove_pending d2 = (q', d')" "r = Inr () \<longrightarrow> q' = Inr ()"
          using 2(2) by (cases rule: lift_ioE) auto
        have "entry d' ''state.json'' = Some (Regular b)" "entry d' ''state.prev.json'' = Some (Regular b)"
          using out(1) [of "''state.prev.json''"] out(2) remove_pending_outcome(1) [OF rm(1)] e1 b(1) by auto
        with b(2) remove_pending_outcome(2) [OF rm(1)] rm(2) show ?thesis
          by (auto simp: recovers_def committed_def holds_def)
      qed
    qed
  qed
qed

lemma authority_read_outcome:
  assumes "recovers (au_store au) d s" "authority_read au d = (r, d')"
  shows "recovers (au_store au) d' s \<and> (\<forall>x. r = Inr x \<longrightarrow> x = s \<and> committed (au_store au) d' s)"
  using assms(2) unfolding authority_read_def
proof (cases rule: then_ioE)
  case (1 e)
  with authority_recover_outcome [OF assms(1) 1(1)] show ?thesis by simp
next
  case (2 u d1)
  let ?so = "au_store au"
  have c: "committed ?so d1 s"
    using authority_recover_outcome [OF assms(1)] 2(1) by simp
  from 2(2) show ?thesis
  proof (cases rule: then_ioE)
    case (1 e)
    with recovers_same [OF lift_touch_entry [OF 1(1)], of ?so s] publication.clean_recov [OF c] show ?thesis by simp
  next
    case (2 u' d2)
    have same: "entry d2 f = entry d1 f" for f by (rule lift_touch_entry [OF 2(1)])
    have c2: "committed ?so d2 s"
      using c by (simp add: committed_def holds_def same)
    then obtain b where b: "entry d2 ''state.json'' = Some (Regular b)" "decode_checked ?so b = Inr s"
      by (auto simp: committed_def holds_def split: option.splits dir_entry.splits)
    have "d' = d2 \<and> (\<forall>x. r = Inr x \<longrightarrow> x = s)"
      using 2(2) b by (auto split: if_splits)
    with c2 publication.clean_recov [OF c2] show ?thesis by auto
  qed
qed

lemma authority_replace_outcome:
  assumes "encodes (au_store au)" "check_state (so_printer (au_store au)) n = Inr ()" "committed (au_store au) d s"
    "authority_replace au n d = (r, d')"
  shows "(recovers (au_store au) d' s \<or> recovers (au_store au) d' n) \<and> (r = Inr () \<longrightarrow> committed (au_store au) d' n)"
proof (cases "so_to_vec (au_store au) n")
  case (Inl e)
  with assms(3,4) publication.clean_recov [OF assms(3)] show ?thesis
    by (auto simp: authority_replace_def fail_io_def)
next
  case (Inr b)
  have dec: "decode_checked (au_store au) b = Inr n"
    using assms(1,2) Inr by (simp add: encodes_def decode_checked_def del: check_state_ok)
  have run: "authority_publish au b d = (r, d')"
    using assms(4) Inr by (simp add: authority_replace_def)
  note out = authority_publish_outcome [OF run]
  show ?thesis
    using assms(3) out(1) [of "''state.pending''"] out(2) dec
    by (auto simp: committed_def recovers_def holds_def)
qed

section \<open>Compare and commit\<close>

lemma compare_and_commit_outcome:
  assumes "encodes (au_store au)" "recovers (au_store au) d s" "compare_and_commit au expected replacement d = (r, d')"
  shows "(recovers (au_store au) d' s \<or>
      (decision s = expected \<and> decision_acceptable expected replacement \<and>
       recovers (au_store au) d' (with_decision s replacement))) \<and>
    (r = Inr () \<longrightarrow> decision s = expected \<and> decision_acceptable expected replacement \<and>
       committed (au_store au) d' (with_decision s replacement))"
proof (cases "lock au")
  case (Inl e)
  with assms(2,3) show ?thesis by (auto simp: compare_and_commit_def)
next
  case (Inr u)
  let ?so = "au_store au" and ?n = "with_decision s replacement"
  let ?rest = "\<lambda>s. if decision s \<noteq> expected then fail_io (RevisionConflict (sf_revision s))
      else if \<not> decision_acceptable expected replacement then fail_io (authority_failed ''invalid_network_decision'')
      else then_io (\<lambda>d. (map_err authority_failed (check_state (so_printer ?so) (with_decision s replacement)), d))
             (\<lambda>_. authority_replace au (with_decision s replacement))"
  have "then_io (authority_read au) ?rest d = (r, d')"
    using assms(3) Inr unfolding compare_and_commit_def Let_def by simp
  then show ?thesis
  proof (cases rule: then_ioE)
    case (1 e)
    with authority_read_outcome [OF assms(2) 1(1)] show ?thesis by simp
  next
    case (2 x d1)
    have x: "x = s" "committed ?so d1 s" "recovers ?so d1 s"
      using authority_read_outcome [OF assms(2) 2(1)] by auto
    show ?thesis
    proof (cases "decision s = expected \<and> decision_acceptable expected replacement")
      case False
      with 2(2) x show ?thesis by (auto simp: fail_io_def split: if_splits)
    next
      case ok: True
      show ?thesis
      proof (cases "check_state (so_printer ?so) ?n = Inr ()")
        case True
        with 2(2) ok x(1) have "authority_replace au ?n d1 = (r, d')" by (simp add: then_io_def del: check_state_ok)
        from authority_replace_outcome [OF assms(1) True x(2) this] ok show ?thesis by auto
      next
        case False
        then obtain e where "check_state (so_printer ?so) ?n = Inl e"
          by (metis (full_types) old.unit.exhaust sum.exhaust)
        with 2(2) ok x show ?thesis by (auto simp: then_io_def)
      qed
    qed
  qed
qed

lemma with_decision_revision [simp]: "sf_revision (with_decision s c) = nc_revision c"
  by (simp add: with_decision_def)

lemma decision_acceptable_forward:
  assumes "decision_acceptable (decision s) c"
  shows "nc_revision c = sf_revision s + 1" "sf_revision s < nc_revision c"
  using assms checked_add_Some [of "sf_revision s" 1 "nc_revision c"]
  by (auto simp: decision_acceptable_def decision_def word_less_nat_alt)

text \<open>
  Any sequence of calls by privileged jobs, whatever they ask for and however they end, is a turn of a
  peer of the state actor.
\<close>

definition authority_turn :: "authority \<Rightarrow> network_commit \<times> network_commit \<Rightarrow> disk \<Rightarrow> disk" where
  "authority_turn au c d = snd (compare_and_commit au (fst c) (snd c) d)"

interpretation authority: peer_writer "au_store au" "authority_turn au" for au
proof unfold_locales
  fix d s c
  assume "encodes (au_store au)" and rec: "recovers (au_store au) d s"
  from compare_and_commit_outcome [OF this surjective_pairing, of "fst c" "snd c"]
  have "recovers (au_store au) (authority_turn au c d) s \<or>
      (decision_acceptable (decision s) (snd c) \<and>
       recovers (au_store au) (authority_turn au c d) (with_decision s (snd c)))"
    by (auto simp: authority_turn_def)
  then show "\<exists>s'. recovers (au_store au) (authority_turn au c d) s' \<and> sf_revision s \<le> sf_revision s'"
    using decision_acceptable_forward(2) [of s "snd c"] by (auto intro: less_imp_le)
qed

section \<open>Properties\<close>

definition sample_authority :: "store \<Rightarrow> authority" where
  "sample_authority so =
     (let info = \<lparr>fi_dir = True, fi_file = False, fi_mode = 0x1C0, fi_nlink = 2, fi_uid = 5\<rparr>
      in \<lparr>au_store = so, au_directory = Inr info,
          au_lock_file = Inr (info\<lparr>fi_dir := False, fi_file := True, fi_mode := 0x180, fi_nlink := 1\<rparr>),
          au_euid = 0, au_chown_lock = Inr (), au_flock = (\<lambda>_. Acquired), au_random = Inr ''ab'',
          au_state_safe = (\<lambda>_. True)\<rparr>)"

definition sample_commit :: network_commit where
  "sample_commit = (decision (sample_state 0))\<lparr>nc_revision := 1, nc_transaction := Some (replicate 64 (CHR ''a'')),
     nc_network_commit_revision := Some 1\<rparr>"

definition decided_state :: state_file where
  "decided_state = with_decision (sample_state 0) sample_commit"

definition decided_store :: store where
  "decided_store = two_store (sample_state 0) decided_state"

lemma decided_check: "check_state dp decided_state = Inr ()"
proof -
  have doc: "sf_document decided_state = default_desired_state\<lparr>ds_revision := 1\<rparr>"
    by (simp add: decided_state_def with_decision_def sample_commit_def decision_def sample_state_def
        new_state_file_def)
  have "validate dp default_desired_state = Inr ()"
    using sample_check [of dp 0] by (simp add: sample_state_def new_state_file_def)
  with doc have "validate dp (sf_document decided_state) = Inr ()" by simp
  moreover have "envelope_consistent decided_state"
    by (simp add: decided_state_def with_decision_def sample_commit_def decision_def sample_state_def new_state_file_def
        envelope_consistent_def OWNERSHIP_def bt_of_list_def bt_values_def less_domain_def)
  ultimately show ?thesis by simp
qed

lemma sample_commit_acceptable: "decision_acceptable (decision (sample_state 0)) sample_commit"
  by (simp add: decision_acceptable_def sample_commit_def decision_def sample_state_def new_state_file_def
      checked_add_def valid_id_def byte_def list_all_iff)

text \<open>
  C17: A network decision is compare-and-set. When the authority reports success, the envelope in the
  directory was exactly the one the decision was computed from, and the new envelope differs from it
  in the network profiles, the network receipts and metadata, the network's domain revision and the
  revision alone: every other domain keeps its document and its revision, and the schema version, the
  legacy files, the plugin reservation, the plugins' runtime state and their results are as they were.
  Whatever fails or dies, recovery gives the old envelope or that one. (Assumed of the JSON functions:
  what is written is read back.)
\<close>

theorem network_decision_cas:
  assumes "encodes (au_store au)" and "recovers (au_store au) d s"
    and "compare_and_commit au expected replacement d = (r, d')"
  shows "(recovers (au_store au) d' s \<or> recovers (au_store au) d' (with_decision s replacement)) \<and>
    (r = Inr () \<longrightarrow>
       committed (au_store au) d' (with_decision s replacement) \<and> decision s = expected \<and>
       nc_revision replacement = sf_revision s + 1 \<and> sf_revision s < nc_revision replacement \<and>
       decision (with_decision s replacement) = replacement \<and>
       (\<forall>k. k \<noteq> DNetwork \<longrightarrow> domain_revision (with_decision s replacement) k = domain_revision s k) \<and>
       (sf_document (with_decision s replacement))\<lparr>ds_network := ds_network (sf_document s), ds_revision := sf_revision s\<rparr>
         = (sf_document s)\<lparr>ds_revision := sf_revision s\<rparr> \<and>
       (with_decision s replacement)\<lparr>sf_revision := sf_revision s, sf_document := sf_document s,
          sf_domain_revisions := sf_domain_revisions s, sf_network_commit_job_id := sf_network_commit_job_id s,
          sf_network_commit_revision := sf_network_commit_revision s,
          sf_network_backend_metadata := sf_network_backend_metadata s\<rparr> = s)"
proof -
  note out = compare_and_commit_outcome [OF assms]
  have same: "decision (with_decision s c) = c" if "decision_acceptable (decision s) c" for c
    using that by (simp add: decision_acceptable_def decision_def with_decision_def)
  have kept: "domain_revision (with_decision s c) k = domain_revision s k" if "k \<noteq> DNetwork" for c k
    using that by (simp add: domain_revision_def with_decision_def bt_get_insert)
  have doc: "(sf_document (with_decision s c))\<lparr>ds_network := ds_network (sf_document s), ds_revision := sf_revision s\<rparr>
      = (sf_document s)\<lparr>ds_revision := sf_revision s\<rparr>" for c
    by (simp add: with_decision_def)
  have rest: "(with_decision s c)\<lparr>sf_revision := sf_revision s, sf_document := sf_document s,
      sf_domain_revisions := sf_domain_revisions s, sf_network_commit_job_id := sf_network_commit_job_id s,
      sf_network_commit_revision := sf_network_commit_revision s,
      sf_network_backend_metadata := sf_network_backend_metadata s\<rparr> = s" for c
    by (simp add: with_decision_def)
  show ?thesis
    using out decision_acceptable_forward [of s replacement] same [of replacement] kept doc rest by blast
qed

theorem network_decision_cas_witness:
  "committed decided_store (snd (compare_and_commit (sample_authority decided_store) (decision (sample_state 0))
     sample_commit (sample_disk []))) decided_state"
proof -
  let ?au = "sample_authority decided_store"
  let ?run = "compare_and_commit ?au (decision (sample_state 0)) sample_commit (sample_disk [])"
  have store: "au_store ?au = decided_store" by (simp add: sample_authority_def Let_def)
  have dec: "decode_checked decided_store ''A'' = Inr (sample_state 0)" "so_to_vec decided_store decided_state = Inr ''B''"
    using two_store_storable [OF sample_check decided_check]
    by (simp_all add: decided_store_def two_store_def decided_state_def)
       (simp add: with_decision_def sample_commit_def sample_state_def new_state_file_def)
  have chk: "check_state (so_printer decided_store) decided_state = Inr ()"
    by (rule decided_check)
  have lock: "lock ?au = Inr ()"
    by (simp add: lock_def lock_with_def sample_authority_def Let_def)
  have rd: "authority_read ?au (sample_disk []) = (Inr (sample_state 0), sample_disk [])"
    using dec(1) by (simp add: authority_read_def authority_recover_def then_io_def lift_io_def touch_def sample_disk_def
        entry_def bt_get_def store MAX_STATE_BYTES_def)
       (simp add: sample_authority_def Let_def)
  have "fst ?run = Inr ()"
    using sample_commit_acceptable chk dec(2)
    by (simp add: compare_and_commit_def lock rd then_io_def Let_def store decided_state_def [symmetric]
        authority_replace_def del: check_state_ok)
       (simp add: authority_publish_def then_io_def lift_io_def touch_def sample_disk_def sample_authority_def Let_def
        publish_network_def seq_io_def create_new_def write_sync_def rename_def sync_dir_def network_temp_def entry_def
        bt_get_def put_entry_def bt_simps)
  then have "?run = (Inr (), snd ?run)" by (simp add: prod_eq_iff)
  moreover have "encodes (au_store ?au)"
    unfolding store unfolding decided_store_def by (rule two_store_encodes)
  moreover have "recovers (au_store ?au) (sample_disk []) (sample_state 0)"
    unfolding store unfolding decided_store_def
    by (intro publication.clean_recov two_store_committed sample_check)
  ultimately show ?thesis
    using network_decision_cas [of ?au "sample_disk []" "sample_state 0" "decision (sample_state 0)" sample_commit
        "Inr ()" "snd ?run"] by (simp add: store decided_state_def)
qed

end
