(* ===== verification/Planner.thy ===== *)
theory Planner
  imports State_Store
begin

text \<open>
  Routing and planning of commands (ndimon-state/src/plan.rs, domains/mod.rs, backup.rs).

  A \<open>DomainModule\<close> is a trait object in the sources; here it is a record of functions, the part the
  planner calls being \<open>planner_module\<close>. The registry lists one registration per domain in the
  sources' order, for given modules. JSON serialization, printing and digests are the fields of
  \<open>planner_env\<close>.

  The results: routing gives every command at most one domain and the registry covers every domain
  once; the difference walk reports no path exactly when two documents agree up to keys that are
  null; merged impacts ask for confirmation exactly when a part does; a plan has a domain for every
  reported path.
\<close>

section \<open>Actions and plans\<close>

datatype audio_action = CheckAudio | PreparePcms | RenderAudio | ReloadAudio | RestartDecoder
datatype network_action = NetworkStage | NetworkConfirm | NetworkRecover
datatype display_action = DisplayApplyConfig
datatype outputs_action =
    OutputsConnect output_id
  | OutputsForget output_id
  | OutputsForgetNow output_id
  | OutputsResolution output_id
  | OutputsRotation output_id
  | OutputsScale output_id
  | OutputsReconnect output_id
  | OutputsRetry output_id string string
  | OutputsDeliver
datatype ndi_action = NdiDeliver | NdiRestartDecoder | NdiRefresh | NdiReset
datatype device_action =
    DeviceHostname
  | DeviceTimeSync
  | DeviceRebootSchedule
  | DeviceApplyConfig
  | DeviceReboot
  | DeviceRestartStack
  | DeviceInstallUpdate string bool
  | DeviceServiceControl service service_action
datatype tessera_action = TesseraReload | TesseraServiceAct tessera_service_action
datatype presets_action = PresetsRender

datatype action =
    ActionAudio audio_action
  | ActionNetwork network_action
  | ActionDisplay display_action
  | ActionOutputs outputs_action
  | ActionNdi ndi_action
  | ActionDevice device_action
  | ActionTessera tessera_action
  | ActionPresets presets_action
  | ActionPlugins plugin_action

record domain_plan =
  dpl_actions :: "action list"
  dpl_impact :: impact

definition default_domain_plan :: domain_plan where
  "default_domain_plan = \<lparr>dpl_actions = [], dpl_impact = default_impact\<rparr>"

record plan =
  pp_paths :: "string list"
  pp_domains :: "domain list"
  pp_actions :: "action list"
  pp_impact :: impact
  pp_confirmation :: "string option option"
  pp_external_confirmation :: bool
  pp_session :: "network_session_path option"

section \<open>Modules and the registry\<close>

record planner_module =
  dm_imperative :: "command \<Rightarrow> bool"
  dm_external_confirmation :: "command \<Rightarrow> bool"
  dm_reduce :: "desired_state \<Rightarrow> command \<Rightarrow> (desired_state, api_error) result"
  dm_plan :: "desired_state \<Rightarrow> desired_state \<Rightarrow> command \<Rightarrow> (domain_plan, api_error) result"

definition followed_error :: api_error where
  "followed_error = Unsupported ''domain is followed; use its legacy writer until ownership moves''"

text \<open>The default methods of the trait.\<close>

definition default_planner_module :: planner_module where
  "default_planner_module =
     \<lparr>dm_imperative = (\<lambda>_. False), dm_external_confirmation = (\<lambda>_. False),
      dm_reduce = (\<lambda>_ _. Inl followed_error),
      dm_plan = (\<lambda>_ _ _. Inr default_domain_plan)\<rparr>"

definition copy_field :: "domain \<Rightarrow> desired_state \<Rightarrow> desired_state \<Rightarrow> desired_state" where
  "copy_field d next' imported =
     (case d of
        DNetwork \<Rightarrow> next'\<lparr>ds_network := ds_network imported\<rparr>
      | DTessera \<Rightarrow> next'\<lparr>ds_tessera := ds_tessera imported\<rparr>
      | DAudio \<Rightarrow> next'\<lparr>ds_audio := ds_audio imported\<rparr>
      | DDevice \<Rightarrow> next'\<lparr>ds_device := ds_device imported\<rparr>
      | DOutputs \<Rightarrow> next'\<lparr>ds_outputs := ds_outputs imported\<rparr>
      | DNdi \<Rightarrow> next'\<lparr>ds_ndi := ds_ndi imported\<rparr>
      | DDisplay \<Rightarrow> next'\<lparr>ds_display := ds_display imported\<rparr>
      | DPresets \<Rightarrow> next'\<lparr>ds_presets := ds_presets imported\<rparr>
      | DPlugins \<Rightarrow> next'\<lparr>ds_plugins := ds_plugins imported\<rparr>)"

record 'm registration =
  rg_domain :: domain
  rg_name :: string
  rg_module :: "'m planner_module_scheme"

definition registry_order :: "(domain \<times> string) list" where
  "registry_order =
     [(DNetwork, ''network''), (DTessera, ''tessera''), (DAudio, ''audio''), (DDevice, ''device''),
      (DOutputs, ''outputs''), (DNdi, ''ndi''), (DDisplay, ''display''), (DPresets, ''presets''),
      (DPlugins, ''plugins'')]"

definition registry :: "(domain \<Rightarrow> 'm planner_module_scheme) \<Rightarrow> 'm registration list" where
  "registry mods =
     map (\<lambda>(d, n). \<lparr>rg_domain = d, rg_name = n, rg_module = mods d\<rparr>) registry_order"

definition get_registration ::
  "(domain \<Rightarrow> 'm planner_module_scheme) \<Rightarrow> domain \<Rightarrow> ('m registration, api_error) result" where
  "get_registration mods d = ok_or (List.find (\<lambda>r. rg_domain r = d) (registry mods)) followed_error"

section \<open>Routing\<close>

definition COMMAND_ROUTES :: "(domain \<times> (command \<Rightarrow> bool)) list" where
  "COMMAND_ROUTES =
     [(DAudio, \<lambda>c. case c of PutAudio _ \<Rightarrow> True | SetAudioEngine _ \<Rightarrow> True | PutAudioSource _ _ \<Rightarrow> True
         | PutAudioSink _ _ \<Rightarrow> True | RemoveAudioEndpoints _ \<Rightarrow> True | PutOutputAudio _ _ _ \<Rightarrow> True
         | ImportBackup _ scope \<Rightarrow> scope = RestoreAudio | _ \<Rightarrow> False),
      (DDevice, \<lambda>c. case c of SetDevice _ \<Rightarrow> True | Reboot \<Rightarrow> True | RestartStack \<Rightarrow> True
         | InstallUpdate _ _ _ \<Rightarrow> True | ServiceControl _ _ \<Rightarrow> True | _ \<Rightarrow> False),
      (DOutputs, \<lambda>c. case c of SelectSource _ _ \<Rightarrow> True | ForgetSource _ \<Rightarrow> True
         | AdoptRemoteSource _ _ \<Rightarrow> True | ReconnectSource _ \<Rightarrow> True | RetrySource _ _ \<Rightarrow> True
         | PutOutputSettings _ _ _ \<Rightarrow> True | SetOutputAlias _ _ \<Rightarrow> True | SetOutputVideo _ _ \<Rightarrow> True
         | SetScreenSaver _ _ \<Rightarrow> True | CaptureFrame _ \<Rightarrow> True | _ \<Rightarrow> False),
      (DNdi, \<lambda>c. case c of SetNdi _ \<Rightarrow> True | RefreshNdi \<Rightarrow> True | ResetNdiDiscovery \<Rightarrow> True | _ \<Rightarrow> False),
      (DNetwork, \<lambda>c. case c of StageNetwork _ \<Rightarrow> True | ConfirmNetwork _ \<Rightarrow> True | RevertNetwork _ \<Rightarrow> True
         | RollbackNetwork \<Rightarrow> True | AcceptNetworkRecovery \<Rightarrow> True | PrepareNetworkHandoff \<Rightarrow> True
         | CancelNetworkHandoff _ \<Rightarrow> True | ImportNetworkHandoff _ \<Rightarrow> True
         | CommitNetworkHandoff _ \<Rightarrow> True | _ \<Rightarrow> False),
      (DTessera, \<lambda>c. case c of TesseraService _ \<Rightarrow> True | RestoreTessera _ _ \<Rightarrow> True | SetTessera _ \<Rightarrow> True
         | PutTesseraFlows _ \<Rightarrow> True | SetTesseraLabel _ _ _ \<Rightarrow> True | _ \<Rightarrow> False),
      (DDisplay, \<lambda>c. case c of SetDisplay _ \<Rightarrow> True | PreviewSplash _ \<Rightarrow> True | SetLogo _ \<Rightarrow> True
         | ImportBackup _ scope \<Rightarrow> scope = RestoreDisplay | _ \<Rightarrow> False),
      (DPresets, \<lambda>c. case c of SavePreset _ _ \<Rightarrow> True | DeletePreset _ \<Rightarrow> True | _ \<Rightarrow> False),
      (DPlugins, \<lambda>c. case c of InstallPlugin _ _ _ _ _ \<Rightarrow> True | UpdatePlugin _ _ _ _ _ \<Rightarrow> True
         | SetPluginEnabled _ _ _ \<Rightarrow> True | RemovePlugin _ _ _ \<Rightarrow> True | CancelPluginJob _ \<Rightarrow> True
         | ResetPluginState \<Rightarrow> True | SetPluginData _ _ \<Rightarrow> True | _ \<Rightarrow> False)]"

definition command_domain :: "command \<Rightarrow> domain option" where
  "command_domain c = map_option fst (List.find (\<lambda>(_, owns). owns c) COMMAND_ROUTES)"

section \<open>Backup operations\<close>

definition backup_handles :: "command \<Rightarrow> bool" where
  "backup_handles c =
     (case c of ImportBackup _ scope \<Rightarrow> scope \<in> {RestoreAll, RestoreSettings, RestoreSources} | _ \<Rightarrow> False)"

definition restore_selects :: "restore_scope \<Rightarrow> domain \<Rightarrow> bool" where
  "restore_selects scope d =
     (case scope of
        RestoreAll \<Rightarrow> d \<noteq> DNetwork
      | RestoreSettings \<Rightarrow> d \<noteq> DNetwork \<and> d \<noteq> DPlugins
      | RestoreSources \<Rightarrow> d \<in> {DPresets, DOutputs, DNdi}
      | _ \<Rightarrow> False)"

definition backup_reduce :: "doc_printer \<Rightarrow> desired_state \<Rightarrow> command \<Rightarrow> (desired_state, api_error) result" where
  "backup_reduce dp st c =
     (case c of
        ImportBackup doc scope \<Rightarrow>
          bind_r (map_err invalid (validate dp (bd_document doc))) (\<lambda>_.
            Inr (fold (\<lambda>(d, _) s. if restore_selects scope d \<and> ownership_of d = Native
                                  then copy_field d s (bd_document doc) else s) registry_order st))
      | _ \<Rightarrow> Inl (Unsupported ''undo must be resolved against the backup store''))"

definition backup_context :: "desired_state \<Rightarrow> command \<Rightarrow> string list" where
  "backup_context previous c =
     (if backup_handles c then [''backup_revision_context:'' @ dec (unat (ds_revision previous))] else [])"

definition planning_order ::
  "(domain \<Rightarrow> 'm planner_module_scheme) \<Rightarrow> command \<Rightarrow> 'm registration list" where
  "planning_order mods c =
     (if backup_handles c
      then sort_key (\<lambda>r. case rg_domain r of DAudio \<Rightarrow> 0 | DOutputs \<Rightarrow> 1 | DNdi \<Rightarrow> 2 | DDisplay \<Rightarrow> 3
             | DDevice \<Rightarrow> 4 | DPresets \<Rightarrow> 5 | DTessera \<Rightarrow> 6 | DPlugins \<Rightarrow> 7 | DNetwork \<Rightarrow> (8::nat)) (registry mods)
      else registry mods)"

definition reduce :: 
  "doc_printer \<Rightarrow> (domain \<Rightarrow> 'm planner_module_scheme) \<Rightarrow> desired_state \<Rightarrow> command \<Rightarrow>
   (desired_state, api_error) result" where
  "reduce dp mods st c =
     (if backup_handles c then backup_reduce dp st c
      else bind_r (ok_or (command_domain c) followed_error) (\<lambda>d.
             bind_r (get_registration mods d) (\<lambda>r.
               if ownership_of (rg_domain r) \<noteq> Native then Inl followed_error
               else dm_reduce (rg_module r) st c)))"

section \<open>Restore-wide impact\<close>

definition network_impact :: "json \<Rightarrow> impact" where
  "network_impact preview =
     (if json_index preview ''unchanged'' = JBool True then default_impact
      else
        (let services = json_strings (json_index preview ''interruptions'');
             typed = (\<lambda>s. if s = ''tesserad.service'' then Some SvcTessera
                          else if s = ''ndimon-finder.service'' then Some SvcFinder
                          else if s = ''ndimon-r.service'' then Some SvcDecoder else None);
             name = (\<lambda>s. if s = ''tesserad.service'' then ''Tessera network audio''
                         else if s = ''ndimon-finder.service'' then ''NDI source discovery''
                         else if s = ''ndimon-r.service'' then ''the decoder'' else s)
         in (new_impact ScopeNetwork)\<lparr>
              im_restarts := List.map_filter typed services,
              im_interruptions := map (\<lambda>s. new_interruption DNetwork s (Some 90000)) services,
              im_lines := map (\<lambda>s. ''Restart '' @ name s @ '' to use the changed network.'') services @
                [''Apply the network settings. Keep them within 60 seconds after they are active, or the previous settings are restored.'']\<rparr>))"

text \<open>\<open>push\<close> of an element that is not there yet.\<close>

definition push_new :: "'a list \<Rightarrow> 'a \<Rightarrow> 'a list" where
  "push_new xs x = (if x \<in> set xs then xs else xs @ [x])"

definition merge_impact :: "impact \<Rightarrow> impact \<Rightarrow> impact" where
  "merge_impact i c =
     i\<lparr>im_scope := max (im_scope i) (im_scope c),
       im_restarts := foldl push_new (im_restarts i) (im_restarts c),
       im_interruptions := foldl push_new (im_interruptions i) (im_interruptions c),
       im_lines := im_lines i @ im_lines c\<rparr>"

definition backup_impact :: "command \<Rightarrow> impact" where
  "backup_impact c =
     (case c of
        ImportBackup doc _ \<Rightarrow>
          (let sections = bd_legacy_sections doc;
               i0 = default_impact;
               i1 = (if list_ex (\<lambda>s. s \<in> {''outputs'', ''discovery'', ''transport'', ''display'', ''device'', ''identity''}) sections
                     then i0\<lparr>im_scope := ScopeService, im_restarts := im_restarts i0 @ [SvcDecoder],
                             im_interruptions := im_interruptions i0 @ [new_interruption DOutputs ''decoder video/audio'' (Some 3000)],
                             im_lines := im_lines i0 @ [''Restart the decoder to restore followed settings; video and audio pause briefly'']\<rparr>
                     else i0);
               i2 = (if list_ex (\<lambda>s. s = ''plugins'') sections
                     then i1\<lparr>im_scope := max (im_scope i1) ScopeService,
                             im_interruptions := im_interruptions i1 @ [new_interruption DPlugins ''plugin services and audio routing'' None],
                             im_lines := im_lines i1 @ [''Run plugin restore hooks, which can restart plugin services and replace audio routing'']\<rparr>
                     else i1)
           in if list_ex (\<lambda>s. s = ''network'') sections
              then merge_impact i2 (network_impact (JObject [(''interruptions'',
                     JArray [JString ''ndimon-r.service'', JString ''ndimon-finder.service'', JString ''tesserad.service''])]))
              else i2)
      | _ \<Rightarrow> default_impact)"

section \<open>Differences\<close>

definition merged_keys :: "(string, json) bmap \<Rightarrow> (string, json) bmap \<Rightarrow> string list" where
  "merged_keys x y = sorted_list_of_set (set (bt_keys x) \<union> set (bt_keys y))"

lemma size_bt_get: "bt_get m k = Some v \<Longrightarrow> size v < size_list (size_prod (\<lambda>_. 0) size) m"
  by (induction m) (auto simp: bt_get_def split: if_splits)

lemma size_obj_get_le: "size (obj_get m k) \<le> size_list (size_prod (\<lambda>_. 0) size) m"
  using size_bt_get [of m k] by (auto simp: obj_get_def split: option.splits intro: less_imp_le)

lemma size_obj_get_less: "k \<in> set (bt_keys m) \<Longrightarrow> size (obj_get m k) < size_list (size_prod (\<lambda>_. 0) size) m"
  using size_bt_get [of m k] bt_contains_keys [of m k]
  by (auto simp: obj_get_def bt_contains_def split: option.splits)

lemma size_merged:
  assumes "k \<in> set (merged_keys x y)"
  shows "size (obj_get x k) + size (obj_get y k) < size (JObject x) + size (JObject y)"
proof -
  have "k \<in> set (bt_keys x) \<or> k \<in> set (bt_keys y)"
    using assms by (simp add: merged_keys_def)
  then show ?thesis
    using size_obj_get_less [of k x] size_obj_get_less [of k y] size_obj_get_le [of x k]
      size_obj_get_le [of y k] by auto
qed

function diff :: "string \<Rightarrow> json \<Rightarrow> json \<Rightarrow> string list" where
  "diff path a b =
     (if a = b then []
      else case (a, b) of
             (JObject x, JObject y) \<Rightarrow>
               concat (map (\<lambda>k. diff (path @ ''.'' @ k) (obj_get x k) (obj_get y k)) (merged_keys x y))
           | _ \<Rightarrow> [path])"
  by pat_completeness auto

termination diff
  by (relation "measure (\<lambda>(path, a, b). size a + size b)") (auto dest: size_merged)

declare diff.simps [simp del]

section \<open>Plans\<close>

record planner_env =
  pe_printer :: doc_printer
  pe_to_value :: "desired_state \<Rightarrow> (json, string) result"
  pe_print_actions :: "action list \<Rightarrow> (string, string) result"
  pe_print_interruption :: "interruption \<Rightarrow> string"
  pe_digest :: "seal_input \<Rightarrow> string"

type_synonym plan_parts = "string list \<times> domain list \<times> action list \<times> impact"

fun plan_walk ::
  "json \<Rightarrow> json \<Rightarrow> desired_state \<Rightarrow> desired_state \<Rightarrow> command \<Rightarrow> 'm registration list \<Rightarrow> plan_parts \<Rightarrow>
   (plan_parts, api_error) result" where
  "plan_walk a b previous next' c [] parts = Inr parts"
| "plan_walk a b previous next' c (r # rs) (paths, changed, actions, imp) =
     (let found = diff (rg_name r) (json_index a (rg_name r)) (json_index b (rg_name r));
          paths' = paths @ found
      in if found = [] \<and> \<not> (command_domain c = Some (rg_domain r) \<and> dm_imperative (rg_module r) c)
         then plan_walk a b previous next' c rs (paths', changed, actions, imp)
         else bind_r (dm_plan (rg_module r) previous next' c) (\<lambda>p.
                plan_walk a b previous next' c rs
                  (paths', changed @ [rg_domain r], actions @ dpl_actions p, merge_impact imp (dpl_impact p))))"

definition make_plan ::
  "planner_env \<Rightarrow> (domain \<Rightarrow> 'm planner_module_scheme) \<Rightarrow> desired_state \<Rightarrow> desired_state \<Rightarrow> command \<Rightarrow>
   (plan, api_error) result" where
  "make_plan pe mods previous next' c =
     bind_r (map_err Internal (pe_to_value pe previous)) (\<lambda>a.
     bind_r (map_err Internal (pe_to_value pe next')) (\<lambda>b.
     bind_r (plan_walk a b previous next' c (planning_order mods c) ([], [], [], default_impact))
       (\<lambda>(paths, changed, actions, imp).
         let external = list_ex (\<lambda>d. case get_registration mods d of
                          Inl _ \<Rightarrow> False | Inr r \<Rightarrow> dm_external_confirmation (rg_module r) c) changed;
             imp' = merge_impact imp (backup_impact c);
             context0 = paths @ backup_context previous c
         in bind_r (case command_domain c of
                      None \<Rightarrow> Inr context0
                    | Some d \<Rightarrow> bind_r (get_registration mods d) (\<lambda>r.
                        Inr (context0 @ [rg_name r @ ''_revision_context:'' @ dec (unat (ds_revision previous))])))
              (\<lambda>context.
            bind_r (map_err Internal (pe_print_actions pe actions)) (\<lambda>printed.
              Inr \<lparr>pp_paths = paths, pp_domains = changed, pp_actions = actions,
                   pp_impact = sealed (pe_print_interruption pe) (pe_digest pe) c (context @ [printed]) imp',
                   pp_confirmation = None, pp_external_confirmation = external, pp_session = None\<rparr>)))))"

section \<open>Routing and registration\<close>

lemma registration_of:
  "get_registration mods d = Inr \<lparr>rg_domain = d, rg_name = the (map_of registry_order d), rg_module = mods d\<rparr>"
  by (cases d) (simp_all add: get_registration_def registry_def registry_order_def)

lemma ownership_native: "ownership_of d = Native"
  by (cases d) (simp_all add: ownership_of_def OWNERSHIP_def)

lemma registry_domains: "map rg_domain (registry mods) = map fst registry_order"
  by (simp add: registry_def registry_order_def)

lemma planning_order_set: "set (planning_order mods c) = set (registry mods)"
  by (simp add: planning_order_def)

lemma distinct_planning_order: "distinct (map rg_domain (planning_order mods c))"
proof -
  have "distinct (map rg_domain (registry mods))"
    by (simp add: registry_def registry_order_def)
  then have "distinct (registry mods)" "inj_on rg_domain (set (registry mods))"
    by (simp_all add: distinct_map)
  then show ?thesis
    by (simp add: distinct_map planning_order_def)
qed

section \<open>Differences up to absent keys\<close>

fun json_wf :: "json \<Rightarrow> bool" where
  "json_wf (JArray xs) = (\<forall>x \<in> set xs. json_wf x)"
| "json_wf (JObject m) = (bt_wf m \<and> (\<forall>p \<in> set m. json_wf (snd p)))"
| "json_wf _ = True"

text \<open>A value without the object keys that are null.\<close>

fun jnorm :: "json \<Rightarrow> json" where
  "jnorm (JObject m) = JObject (filter (\<lambda>p. snd p \<noteq> JNull) (map (\<lambda>p. (fst p, jnorm (snd p))) m))"
| "jnorm v = v"

lemma jnorm_null [simp]: "jnorm v = JNull \<longleftrightarrow> v = JNull" "JNull = jnorm v \<longleftrightarrow> v = JNull"
  by (cases v; auto)+

definition norm_entries :: "(string, json) bmap \<Rightarrow> (string, json) bmap" where
  "norm_entries m = filter (\<lambda>p. snd p \<noteq> JNull) (map (\<lambda>p. (fst p, jnorm (snd p))) m)"

lemma jnorm_object: "jnorm (JObject m) = JObject (norm_entries m)"
  by (simp add: norm_entries_def)

lemma norm_entries_wf: "bt_wf m \<Longrightarrow> bt_wf (norm_entries m)"
  unfolding norm_entries_def
proof (induction m)
  case (Cons p m)
  then show ?case
    by (auto simp: bt_wf_def)
qed (simp add: bt_wf_def)

lemma norm_entries_get:
  "bt_wf m \<Longrightarrow> bt_get (norm_entries m) k = (if obj_get m k = JNull then None else Some (jnorm (obj_get m k)))"
proof (induction m)
  case (Cons p m)
  obtain a b where p: "p = (a, b)" by fastforce
  have wf: "bt_wf m" and fresh: "\<And>q. q \<in> set m \<Longrightarrow> a < fst q"
    using Cons.prems by (auto simp: bt_wf_def p)
  have none: "bt_get m a = None"
    using fresh by (force simp: bt_get_def map_of_eq_None_iff)
  show ?case
  proof (cases "k = a")
    case True
    have "bt_get (norm_entries m) a = None"
      using Cons.IH [OF wf] True none by (simp add: obj_get_def)
    with True show ?thesis
      by (simp add: p norm_entries_def obj_get_def bt_simps)
  next
    case False
    with Cons.IH [OF wf] show ?thesis
      by (simp add: p norm_entries_def obj_get_def bt_simps)
  qed
qed (simp add: norm_entries_def obj_get_def bt_get_def)

lemma norm_entries_eq:
  assumes "bt_wf x" "bt_wf y"
  shows "norm_entries x = norm_entries y \<longleftrightarrow>
    (\<forall>k \<in> set (merged_keys x y). jnorm (obj_get x k) = jnorm (obj_get y k))"
proof -
  have absent: "obj_get m k = JNull" if "k \<notin> set (bt_keys m)" for m k
    using that bt_contains_keys [of m k] by (simp add: obj_get_def bt_contains_def)
  have "norm_entries x = norm_entries y \<longleftrightarrow> (\<forall>k. bt_get (norm_entries x) k = bt_get (norm_entries y) k)"
    using bt_ext [OF norm_entries_wf norm_entries_wf, OF assms] by auto
  also have "\<dots> \<longleftrightarrow> (\<forall>k. jnorm (obj_get x k) = jnorm (obj_get y k))"
  proof -
    have "(if u = JNull then None else Some (jnorm u)) = (if v = JNull then None else Some (jnorm v)) \<longleftrightarrow>
        jnorm u = jnorm v" for u v
      by (cases "u = JNull"; cases "v = JNull") auto
    then show ?thesis
      using assms by (simp add: norm_entries_get)
  qed
  also have "\<dots> \<longleftrightarrow> (\<forall>k \<in> set (merged_keys x y). jnorm (obj_get x k) = jnorm (obj_get y k))"
  proof -
    have "jnorm (obj_get x k) = jnorm (obj_get y k)" if "k \<notin> set (merged_keys x y)" for k
      using that absent [of k x] absent [of k y] by (simp add: merged_keys_def)
    then show ?thesis by blast
  qed
  finally show ?thesis .
qed

lemma obj_get_wf: "json_wf (JObject m) \<Longrightarrow> json_wf (obj_get m k)"
  by (force simp: obj_get_def dest: bt_get_mem split: option.splits)

lemma diff_nil:
  assumes "json_wf a" "json_wf b"
  shows "diff path a b = [] \<longleftrightarrow> jnorm a = jnorm b"
  using assms
proof (induction path a b rule: diff.induct)
  case (1 path a b)
  show ?case
  proof (cases "a = b")
    case True
    then show ?thesis by (simp add: diff.simps)
  next
    case False
    show ?thesis
    proof (cases "\<exists>x y. a = JObject x \<and> b = JObject y")
      case True
      then obtain x y where xy: "a = JObject x" "b = JObject y" by blast
      have "diff path a b = [] \<longleftrightarrow>
          (\<forall>k \<in> set (merged_keys x y). diff (path @ ''.'' @ k) (obj_get x k) (obj_get y k) = [])"
        using False xy by (subst diff.simps) auto
      also have "\<dots> \<longleftrightarrow> (\<forall>k \<in> set (merged_keys x y). jnorm (obj_get x k) = jnorm (obj_get y k))"
        using "1.IH" [OF False refl xy] "1.prems" xy by (auto simp: obj_get_wf)
      also have "\<dots> \<longleftrightarrow> jnorm a = jnorm b"
        using norm_entries_eq [of x y] "1.prems" xy by (simp add: jnorm_object del: jnorm.simps)
      finally show ?thesis .
    next
      case other: False
      then have "diff path a b = [path]"
        using False by (subst diff.simps) (auto split: json.splits)
      moreover have "jnorm a \<noteq> jnorm b"
        using other False by (cases a; cases b) auto
      ultimately show ?thesis by simp
    qed
  qed
qed

section \<open>What a plan contains\<close>

definition found_paths :: "json \<Rightarrow> json \<Rightarrow> 'm registration \<Rightarrow> string list" where
  "found_paths a b r = diff (rg_name r) (json_index a (rg_name r)) (json_index b (rg_name r))"

definition planned :: "json \<Rightarrow> json \<Rightarrow> command \<Rightarrow> 'm registration \<Rightarrow> bool" where
  "planned a b c r =
     (found_paths a b r \<noteq> [] \<or> (command_domain c = Some (rg_domain r) \<and> dm_imperative (rg_module r) c))"

lemma plan_walk_Cons:
  "plan_walk a b previous next' c (r # rs) (paths, changed, actions, imp) =
     (if planned a b c r
      then bind_r (dm_plan (rg_module r) previous next' c) (\<lambda>p.
             plan_walk a b previous next' c rs
               (paths @ found_paths a b r, changed @ [rg_domain r], actions @ dpl_actions p,
                merge_impact imp (dpl_impact p)))
      else plan_walk a b previous next' c rs (paths @ found_paths a b r, changed, actions, imp))"
  by (auto simp: found_paths_def planned_def Let_def)

lemma plan_walk_parts:
  assumes "plan_walk a b previous next' c rs (paths, changed, actions, imp) = Inr (p, d, acts, i)"
  shows "p = paths @ concat (map (found_paths a b) rs) \<and>
    d = changed @ map rg_domain (filter (planned a b c) rs)"
  using assms
proof (induction rs arbitrary: paths changed actions imp)
  case (Cons r rs)
  show ?case
  proof (cases "planned a b c r")
    case True
    with Cons.prems obtain q :: domain_plan where "plan_walk a b previous next' c rs
        (paths @ found_paths a b r, changed @ [rg_domain r], actions @ dpl_actions q,
         merge_impact imp (dpl_impact q)) = Inr (p, d, acts, i)"
      unfolding plan_walk_Cons by (auto simp: bind_r_eq_Inr)
    from Cons.IH [OF this] True show ?thesis by simp
  next
    case False
    with Cons.prems have "plan_walk a b previous next' c rs
        (paths @ found_paths a b r, changed, actions, imp) = Inr (p, d, acts, i)"
      unfolding plan_walk_Cons by simp
    from Cons.IH [OF this] False show ?thesis by simp
  qed
qed simp

lemma plan_walk_total:
  assumes "\<forall>r \<in> set rs. \<exists>p. dm_plan (rg_module r) previous next' c = Inr p"
  shows "\<exists>parts'. plan_walk a b previous next' c rs parts = Inr parts'"
  using assms
proof (induction rs arbitrary: parts)
  case (Cons r rs)
  obtain paths changed actions imp where parts: "parts = (paths, changed, actions, imp)"
    by (cases parts)
  obtain p where "dm_plan (rg_module r) previous next' c = Inr p"
    using Cons.prems by auto
  with Cons show ?case
    unfolding parts plan_walk_Cons by simp
next
  case Nil
  show ?case
    by (cases parts) simp
qed

lemma make_plan_parts:
  assumes "make_plan pe mods previous next' c = Inr p"
  obtains a b where "pe_to_value pe previous = Inr a" "pe_to_value pe next' = Inr b"
    "pp_paths p = concat (map (found_paths a b) (planning_order mods c))"
    "pp_domains p = map rg_domain (filter (planned a b c) (planning_order mods c))"
    "pp_confirmation p = None"
proof -
  from assms obtain a b paths changed actions imp where
    json: "pe_to_value pe previous = Inr a" "pe_to_value pe next' = Inr b"
    and walk: "plan_walk a b previous next' c (planning_order mods c) ([], [], [], default_impact) =
      Inr (paths, changed, actions, imp)"
    and fields: "pp_paths p = paths" "pp_domains p = changed" "pp_confirmation p = None"
    unfolding make_plan_def by (auto simp: bind_r_eq_Inr Let_def split: prod.splits option.splits)
  with plan_walk_parts [OF walk] show thesis
    by (intro that [of a b]) simp_all
qed

lemma merge_scope: "im_scope (merge_impact i c) = max (im_scope i) (im_scope c)"
  by (simp add: merge_impact_def)

lemma set_push_new: "set (push_new xs x) = insert x (set xs)"
  by (auto simp: push_new_def)

lemma set_foldl_push: "set (foldl push_new xs ys) = set xs \<union> set ys"
  by (induction ys arbitrary: xs) (auto simp: set_push_new)

lemma distinct_push: "distinct xs \<Longrightarrow> distinct (foldl push_new xs ys)"
  by (induction ys arbitrary: xs) (auto simp: push_new_def)

lemma restore_keeps_network:
  "ds_network (fold (\<lambda>(d, _) s. if restore_selects scope d \<and> ownership_of d = Native
      then copy_field d s doc else s) registry_order st) = ds_network st"
  "ds_revision (fold (\<lambda>(d, _) s. if restore_selects scope d \<and> ownership_of d = Native
      then copy_field d s doc else s) registry_order st) = ds_revision st"
  by (cases scope; simp add: registry_order_def restore_selects_def copy_field_def ownership_native)+

lemma length_filter_weaken:
  "(\<And>x. x \<in> set xs \<Longrightarrow> P x \<Longrightarrow> Q x) \<Longrightarrow> length (filter P xs) \<le> length (filter Q xs)"
  by (induction xs) (auto simp: le_SucI)

section \<open>Properties\<close>

text \<open>
  C26: Every command is owned by at most one domain: no two routes of the table match the same
  command, so the first match is the only one.
\<close>

theorem routes_exclusive:
  "length (filter (\<lambda>(d, owns). owns c) COMMAND_ROUTES) \<le> 1"
proof -
  have "\<exists>d. \<forall>r \<in> set COMMAND_ROUTES. (snd r) c \<longrightarrow> fst r = d"
  proof (cases c)
    case (ImportBackup doc scope)
    then show ?thesis
      by (intro exI [of _ "if scope = RestoreAudio then DAudio else DDisplay"]) (simp add: COMMAND_ROUTES_def)
  qed (simp_all add: COMMAND_ROUTES_def)
  then obtain d where d: "\<forall>r \<in> set COMMAND_ROUTES. (snd r) c \<longrightarrow> fst r = d"
    by blast
  have "length (filter (\<lambda>(d, owns). owns c) COMMAND_ROUTES) \<le> length (filter (\<lambda>r. fst r = d) COMMAND_ROUTES)"
    using d by (intro length_filter_weaken) (auto simp: case_prod_beta)
  also have "\<dots> \<le> 1"
    by (cases d) (simp_all add: COMMAND_ROUTES_def)
  finally show ?thesis .
qed

text \<open>
  C25: The difference walk is exact: for well-formed values it reports no path if and only if the
  values agree after removing the keys that are null.
\<close>

theorem diff_exact:
  assumes "json_wf a" and "json_wf b"
  shows "diff path a b = [] \<longleftrightarrow> jnorm a = jnorm b"
  using assms by (rule diff_nil)

theorem diff_exact_witness:
  "diff ''d'' (JObject [(''k'', JNull), (''x'', JBool True)]) (JObject [(''x'', JBool True)]) = [] \<and>
   diff ''d'' (JObject [(''x'', JBool True)]) (JObject [(''x'', JBool False)]) \<noteq> []"
  using diff_exact [of "JObject [(''k'', JNull), (''x'', JBool True)]" "JObject [(''x'', JBool True)]" "''d''"]
    diff_exact [of "JObject [(''x'', JBool True)]" "JObject [(''x'', JBool False)]" "''d''"]
  by (simp add: bt_wf_def)

text \<open>
  Merging impacts loses nothing and repeats nothing: the result needs confirmation exactly
  when one of the parts does, and its restarts and interruptions are those of both parts.
\<close>

theorem merge_impact_complete:
  "needs_confirmation (merge_impact i c) = (needs_confirmation i \<or> needs_confirmation c) \<and>
   set (im_restarts (merge_impact i c)) = set (im_restarts i) \<union> set (im_restarts c) \<and>
   set (im_interruptions (merge_impact i c)) = set (im_interruptions i) \<union> set (im_interruptions c)"
proof -
  have "max s t = ScopeNone \<longleftrightarrow> s = ScopeNone \<and> t = ScopeNone" for s t
    by (metis ScopeNone_least max.absorb_iff2 max.cobounded1 max.commute order.antisym)
  then show ?thesis
    by (auto simp: needs_confirmation_def merge_impact_def set_foldl_push)
qed

text \<open>
  C24: A plan names each domain at most once and accounts for every change: it names a domain if
  and only if the document of that domain changed (up to null keys) or the command is an operation
  of that domain, and it is free of paths only if no domain changed.
\<close>

theorem plan_accounts:
  assumes "make_plan pe mods previous next' c = Inr p"
    and "pe_to_value pe previous = Inr a" and "pe_to_value pe next' = Inr b"
    and "json_wf (json_index a n)" and "json_wf (json_index b n)" and "(d, n) \<in> set registry_order"
  shows "distinct (pp_domains p) \<and>
    (d \<in> set (pp_domains p) \<longleftrightarrow>
       jnorm (json_index a n) \<noteq> jnorm (json_index b n) \<or>
       (command_domain c = Some d \<and> dm_imperative (mods d) c)) \<and>
    (pp_paths p = [] \<longrightarrow> jnorm (json_index a n) = jnorm (json_index b n))"
proof -
  from assms(1-3) have parts:
    "pp_paths p = concat (map (found_paths a b) (planning_order mods c))"
    "pp_domains p = map rg_domain (filter (planned a b c) (planning_order mods c))"
    by (auto elim: make_plan_parts)
  let ?r = "\<lparr>rg_domain = d, rg_name = n, rg_module = mods d\<rparr>"
  have r: "?r \<in> set (registry mods)"
    using assms(6) by (force simp: registry_def)
  have inj: "inj_on rg_domain (set (registry mods))"
    using distinct_planning_order [of mods c] by (simp add: distinct_map planning_order_set)
  have only: "r = ?r" if "r \<in> set (registry mods)" "rg_domain r = d" for r
    using inj_onD [OF inj, of r ?r] that r by simp
  have paths: "found_paths a b ?r = [] \<longleftrightarrow> jnorm (json_index a n) = jnorm (json_index b n)"
    using diff_nil [OF assms(4,5)] by (simp add: found_paths_def)
  have "distinct (pp_domains p)"
    unfolding parts using distinct_planning_order [of mods c] by (simp add: distinct_map_filter)
  moreover have "d \<in> set (pp_domains p) \<longleftrightarrow> planned a b c ?r"
  proof
    assume "d \<in> set (pp_domains p)"
    then obtain r where "r \<in> set (registry mods)" "rg_domain r = d" "planned a b c r"
      unfolding parts by (auto simp: planning_order_set)
    then show "planned a b c ?r"
      using only by metis
  next
    assume "planned a b c ?r"
    with r have "?r \<in> set (filter (planned a b c) (planning_order mods c))"
      by (simp add: planning_order_set)
    from imageI [OF this, of rg_domain] show "d \<in> set (pp_domains p)"
      unfolding parts by simp
  qed
  moreover have "pp_paths p = [] \<longrightarrow> found_paths a b ?r = []"
    using r by (simp add: parts planning_order_set)
  ultimately show ?thesis
    using paths by (simp add: planned_def)
qed

definition sample_planner :: planner_env where
  "sample_planner =
     \<lparr>pe_printer = (\<lambda>_. None),
      pe_to_value = (\<lambda>st. Inr (JObject [(''device'', JInt (uint (ds_revision st)))])),
      pe_print_actions = (\<lambda>_. Inr []), pe_print_interruption = (\<lambda>_. []), pe_digest = (\<lambda>_. [])\<rparr>"

lemma sample_plan:
  "\<exists>p. make_plan sample_planner (\<lambda>_. default_planner_module) default_desired_state
      (default_desired_state\<lparr>ds_revision := 1\<rparr>) ReloadConfig = Inr p"
proof -
  have "\<forall>r \<in> set (registry (\<lambda>_. default_planner_module)). \<exists>p. dm_plan (rg_module r) st st' ReloadConfig = Inr p" for st st'
    by (simp add: registry_def registry_order_def default_planner_module_def)
  then obtain paths changed actions imp where walk:
    "plan_walk (JObject [(''device'', JInt 0)]) (JObject [(''device'', JInt 1)]) default_desired_state
      (default_desired_state\<lparr>ds_revision := 1\<rparr>) ReloadConfig
      (registry (\<lambda>_. default_planner_module)) ([], [], [], default_impact) = Inr (paths, changed, actions, imp)"
    using plan_walk_total by (metis prod_cases4)
  have "ds_revision default_desired_state = 0" "command_domain ReloadConfig = None" "\<not> backup_handles ReloadConfig"
    by (simp_all add: default_desired_state_def command_domain_def COMMAND_ROUTES_def backup_handles_def)
  with walk show ?thesis
    by (simp add: make_plan_def sample_planner_def planning_order_def Let_def)
qed

theorem plan_accounts_witness:
  "\<exists>p. make_plan sample_planner (\<lambda>_. default_planner_module) default_desired_state
      (default_desired_state\<lparr>ds_revision := 1\<rparr>) ReloadConfig = Inr p \<and> DDevice \<in> set (pp_domains p)"
proof -
  obtain p where p: "make_plan sample_planner (\<lambda>_. default_planner_module) default_desired_state
      (default_desired_state\<lparr>ds_revision := 1\<rparr>) ReloadConfig = Inr p"
    using sample_plan by blast
  have "DDevice \<in> set (pp_domains p)"
    using plan_accounts [OF p, where d = DDevice and n = "''device''"]
    by (simp add: sample_planner_def json_index_def obj_get_def bt_get_def registry_order_def
        default_desired_state_def)
  with p show ?thesis by blast
qed

text \<open>
  C23: Restoring a backup never touches the network document or the revision: those change only
  through the confirmed network transaction and the commit.
\<close>

theorem restore_spares_network:
  assumes "backup_reduce dp st c = Inr st'"
  shows "ds_network st' = ds_network st \<and> ds_revision st' = ds_revision st"
proof -
  from assms obtain doc scope where c: "c = ImportBackup doc scope"
    by (auto simp: backup_reduce_def split: command.splits)
  with assms show ?thesis
    using restore_keeps_network [of scope "bd_document doc" st] by (auto simp: backup_reduce_def bind_r_eq_Inr)
qed

theorem restore_spares_network_witness:
  "\<exists>st'. backup_reduce (\<lambda>_. None) default_desired_state
      (ImportBackup (new_backup_document sample_document) RestoreAll) = Inr st' \<and>
    ds_network st' = ds_network default_desired_state"
proof -
  have "validate (\<lambda>_. None) sample_document = Inr ()"
    unfolding sample_document_def by (rule document_with_network_ok [OF sample_network_ok])
  then obtain st' where "backup_reduce (\<lambda>_. None) default_desired_state
      (ImportBackup (new_backup_document sample_document) RestoreAll) = Inr st'"
    by (simp add: backup_reduce_def new_backup_document_def)
  with restore_spares_network [OF this] show ?thesis by blast
qed

end
