(* ===== verification/State_Actor.thy ===== *)
theory State_Actor
  imports Planner
begin

text \<open>
  The state actor (ndimon-state/src/lib.rs, apply.rs, commands.rs, observations.rs): the one task
  that owns the committed document.

  The actor's fields are the record \<open>actor\<close>. Every handler is a function \<open>actor \<Rightarrow> result \<times> actor\<close>;
  \<open>and_then\<close> is the question mark operator, which keeps what was done so far and skips the rest.
  The parts the actor calls through trait objects are records of functions: a \<open>domain_module\<close>
  extends the planner's part of the trait, an \<open>applier\<close> acts on an outside world of type \<open>'w\<close> (decoder,
  privileged helper, systemd). Other processes that take the decision lock can change the state
  directory whenever the actor does not hold it: \<open>ae_external\<close> is what they did by the time the
  actor takes the lock in \<open>refresh\<close>, \<open>ae_interleave\<close> what they did before a write that the actor makes
  after it gave the lock back. Rendering (ndimon-render) and the asset store are parameters.

  What is shown: the committed envelope stays consistent and valid and its revision moves only
  forward, one step per commit; a compare-and-set request commits only against the revision it
  names; a failed transaction leaves the previous envelope to recovery; disruptive changes are not
  applied without confirmation; nothing is written after shutdown.
\<close>

section \<open>The traits\<close>

record 'w domain_module = planner_module +
  dm_guard :: "state_file \<Rightarrow> command option \<Rightarrow> 'w \<Rightarrow> (unit, api_error) result \<times> 'w"
  dm_operation_observed :: "observed \<Rightarrow> json \<Rightarrow> (event list \<times> observed, api_error) result"
  dm_prepare :: "state_file \<Rightarrow> state_file \<Rightarrow> command \<Rightarrow> (state_file, api_error) result"
  dm_reservation :: "state_file \<Rightarrow> state_file \<Rightarrow> state_file option"
  dm_release_reservation :: "state_file \<Rightarrow> string \<Rightarrow> state_file"
  dm_accepted :: "state_file \<Rightarrow> state_file \<Rightarrow> command \<Rightarrow> json \<Rightarrow> (bool \<times> state_file \<times> json, api_error) result"
  dm_completion :: "state_file \<Rightarrow> json \<Rightarrow> ((state_file \<times> plan) option, api_error) result"
  dm_completed :: "state_file \<Rightarrow> json \<Rightarrow> (state_file, api_error) result"
  dm_project_observed :: "state_file \<Rightarrow> domain_observed \<Rightarrow> domain_observed"
  dm_validate_assets :: "desired_state \<Rightarrow> (unit, string) result"
  dm_query :: "state_file \<Rightarrow> query \<Rightarrow> ('w \<Rightarrow> (json, api_error) result \<times> 'w) option"
  dm_observe_state :: "state_file \<Rightarrow> observed \<Rightarrow> observed \<Rightarrow> 'w \<Rightarrow> (event list \<times> observed, api_error) result \<times> 'w"
  dm_live_checked :: "state_file \<Rightarrow> plan \<Rightarrow> command \<Rightarrow> ('w \<Rightarrow> (json, api_error) result \<times> 'w) option"

definition default_domain_module :: "'w domain_module" where
  "default_domain_module =
     planner_module.extend default_planner_module
       \<lparr>dm_guard = (\<lambda>_ _ w. (Inr (), w)),
        dm_operation_observed = (\<lambda>ob _. Inr ([], ob)),
        dm_prepare = (\<lambda>_ next' _. Inr next'),
        dm_reservation = (\<lambda>_ _. None),
        dm_release_reservation = (\<lambda>s _. s),
        dm_accepted = (\<lambda>_ next' _ apply. Inr (False, next', apply)),
        dm_completion = (\<lambda>_ _. Inr None),
        dm_completed = (\<lambda>s _. Inr s),
        dm_project_observed = (\<lambda>_ ob. ob),
        dm_validate_assets = (\<lambda>_. Inr ()),
        dm_query = (\<lambda>_ _. None),
        dm_observe_state = (\<lambda>_ _ next' w. (Inr ([], next'), w)),
        dm_live_checked = (\<lambda>_ _ _. None)\<rparr>"

record 'w applier =
  ap_replay :: "state_file \<Rightarrow> 'w \<Rightarrow> (unit, api_error) result \<times> 'w"
  ap_render :: "state_file \<Rightarrow> 'w \<Rightarrow> (json, string) result \<times> 'w"
  ap_preflight :: "state_file \<Rightarrow> state_file \<Rightarrow> plan \<Rightarrow> 'w \<Rightarrow> (unit, string) result \<times> 'w"
  ap_apply_checked :: "state_file \<Rightarrow> plan \<Rightarrow> 'w \<Rightarrow> (json, api_error) result \<times> 'w"
  ap_rollback :: "state_file \<Rightarrow> plan \<Rightarrow> 'w \<Rightarrow> (unit, string) result \<times> 'w"
  ap_decoder :: "json \<Rightarrow> 'w \<Rightarrow> (json, string) result \<times> 'w"

record 'w actor_env =
  ae_store :: store
  ae_planner :: planner_env
  ae_modules :: "domain \<Rightarrow> 'w domain_module"
  ae_applier :: "'w applier"
  ae_external :: "'w \<Rightarrow> disk \<Rightarrow> disk"
  ae_interleave :: "'w \<Rightarrow> disk \<Rightarrow> disk"
  ae_manifest :: "state_file \<Rightarrow> (json, string) result"
  ae_print_json :: "json \<Rightarrow> (string, string) result"
  ae_impact_of :: "json \<Rightarrow> (impact, string) result"
  ae_artifacts :: "state_file \<Rightarrow> legacy_files \<Rightarrow> ((domain \<times> string \<times> string \<times> string option) list, string) result"
  ae_sha256 :: "string \<Rightarrow> string"
  ae_native_paths :: "string list"
  ae_print_event :: "event \<Rightarrow> string"
  ae_snapshots :: "'w \<Rightarrow> json"
  ae_backup_json :: "backup_document \<Rightarrow> (json, string) result"
  ae_impact_json :: "impact \<Rightarrow> json"
  ae_observed_json :: "observed \<Rightarrow> (json, string) result"

record 'w actor =
  ac_closing :: bool
  ac_activity :: u64
  ac_commands :: "command list"
  ac_state :: state_file
  ac_disk :: disk
  ac_world :: 'w
  ac_events :: "event list"
  ac_observations :: "(domain, domain_observed) bmap"
  ac_failed :: "(domain, string) bmap"
  ac_native_drift :: "(domain \<times> string, string) bmap"
  ac_replay_failed :: "domain list"
  ac_last_observed :: observed

type_synonym ('w, 'a) handler = "'w actor \<Rightarrow> (api_error + 'a) \<times> 'w actor"

section \<open>Sequencing\<close>

definition give :: "'a \<Rightarrow> ('w, 'a) handler" where
  "give x a = (Inr x, a)"

definition refuse :: "api_error \<Rightarrow> ('w, 'a) handler" where
  "refuse e a = (Inl e, a)"

definition and_then :: "('w, 'a) handler \<Rightarrow> ('a \<Rightarrow> ('w, 'b) handler) \<Rightarrow> ('w, 'b) handler" where
  "and_then m f a = (case m a of (Inl e, a') \<Rightarrow> (Inl e, a') | (Inr x, a') \<Rightarrow> f x a')"

definition of_result :: "(api_error + 'a) \<Rightarrow> ('w, 'a) handler" where
  "of_result r a = (r, a)"

definition modify :: "('w actor \<Rightarrow> 'w actor) \<Rightarrow> ('w, unit) handler" where
  "modify f a = (Inr (), f a)"

definition on_disk :: "'a io \<Rightarrow> ('w, string + 'a) handler" where
  "on_disk op a = (case op (ac_disk a) of (r, d) \<Rightarrow> (Inr r, a\<lparr>ac_disk := d\<rparr>))"

definition on_world :: "('w \<Rightarrow> 'r \<times> 'w) \<Rightarrow> ('w, 'r) handler" where
  "on_world op a = (case op (ac_world a) of (r, w) \<Rightarrow> (Inr r, a\<lparr>ac_world := w\<rparr>))"

fun each_act :: "('a \<Rightarrow> ('w, unit) handler) \<Rightarrow> 'a list \<Rightarrow> ('w, unit) handler" where
  "each_act f [] = give ()"
| "each_act f (x # xs) = and_then (f x) (\<lambda>_. each_act f xs)"

definition send_event :: "event \<Rightarrow> ('w, unit) handler" where
  "send_event e = modify (\<lambda>a. a\<lparr>ac_events := ac_events a @ [e]\<rparr>)"

definition progress :: "u64 \<Rightarrow> string \<Rightarrow> apply_status \<Rightarrow> string option \<Rightarrow> ('w, unit) handler" where
  "progress revision step status detail = send_event (ApplyProgress revision step status detail)"

definition record_activity :: "command \<Rightarrow> ('w, unit) handler" where
  "record_activity c = modify (\<lambda>a. a\<lparr>ac_activity := ac_activity a + 1, ac_commands := ac_commands a @ [c]\<rparr>)"

definition domain_name :: "domain \<Rightarrow> string" where
  "domain_name d = (case map_of registry_order d of Some n \<Rightarrow> n | None \<Rightarrow> [])"

section \<open>Refresh and replay\<close>

definition changed_domains :: "json \<Rightarrow> json \<Rightarrow> domain list" where
  "changed_domains previous next' =
     map fst (filter (\<lambda>(_, n). json_index previous n \<noteq> json_index next' n) registry_order)"

definition adopt :: "'w actor_env \<Rightarrow> state_file \<Rightarrow> ('w, unit) handler" where
  "adopt env s a =
     (if s = ac_state a then (Inr (), a)
      else and_then (of_result (map_err Internal (pe_to_value (ae_planner env) (sf_document (ac_state a))))) (\<lambda>previous.
           and_then (of_result (map_err Internal (pe_to_value (ae_planner env) (sf_document s)))) (\<lambda>next'.
           and_then (modify (\<lambda>a. a\<lparr>ac_state := s\<rparr>)) (\<lambda>_.
             if changed_domains previous next' = [] then give ()
             else send_event (StateChanged (sf_revision s) (changed_domains previous next') OMigration)))) a)"

definition take_lock :: "'w actor_env \<Rightarrow> ('w, unit) handler" where
  "take_lock env a =
     (case io_op (\<lambda>d. d) (\<lambda>n d. d) (ae_external env (ac_world a) (ac_disk a)) of
        (Inl e, d) \<Rightarrow> (Inl (ApplyFailed DNetwork ''authority'' e), a\<lparr>ac_disk := d\<rparr>)
      | (Inr _, d) \<Rightarrow> (Inr (), a\<lparr>ac_disk := d\<rparr>))"

definition refresh :: "'w actor_env \<Rightarrow> ('w, unit) handler" where
  "refresh env =
     and_then (take_lock env) (\<lambda>_.
     and_then (on_disk (load (ae_store env))) (\<lambda>loaded.
       case loaded of
         Inl e \<Rightarrow> refuse (Internal e)
       | Inr None \<Rightarrow> give ()
       | Inr (Some s) \<Rightarrow> adopt env s))"

text \<open>The actor works on without the lock: another process may have written meanwhile.\<close>

definition unlocked :: "'w actor_env \<Rightarrow> ('w, unit) handler" where
  "unlocked env = modify (\<lambda>a. a\<lparr>ac_disk := ae_interleave env (ac_world a) (ac_disk a)\<rparr>)"

definition insert_sorted :: "domain \<Rightarrow> domain list \<Rightarrow> domain list" where
  "insert_sorted d ds = insort_insert d ds"

definition replay :: "'w actor_env \<Rightarrow> ('w, unit) handler" where
  "replay env =
     and_then (refresh env) (\<lambda>_ a.
       (case ap_replay (ae_applier env) (ac_state a) (ac_world a) of
          (Inr _, w) \<Rightarrow>
            (Inr (), a\<lparr>ac_world := w, ac_failed := fold bt_remove (ac_replay_failed a) (ac_failed a),
                       ac_replay_failed := []\<rparr>)
        | (Inl e, w) \<Rightarrow>
            (Inl e,
             (case e of
                ApplyFailed d _ _ \<Rightarrow>
                  a\<lparr>ac_world := w, ac_failed := bt_insert d (error_text e) (ac_failed a),
                    ac_replay_failed := insert_sorted d (ac_replay_failed a)\<rparr>
              | _ \<Rightarrow> a\<lparr>ac_world := w\<rparr>))))"

section \<open>Reservations and restore\<close>

definition reserve :: "'w actor_env \<Rightarrow> state_file \<Rightarrow> plan \<Rightarrow> ('w, unit) handler" where
  "reserve env next' p =
     each_act (\<lambda>d a. case dm_reservation (ae_modules env d) (ac_state a) next' of
         None \<Rightarrow> (Inr (), a)
       | Some reserved \<Rightarrow>
           and_then (on_disk (initialize (ae_store env) reserved)) (\<lambda>r.
             case r of Inl e \<Rightarrow> refuse (Internal e) | Inr _ \<Rightarrow> modify (\<lambda>a. a\<lparr>ac_state := reserved\<rparr>)) a)
       (pp_domains p)"

definition release_reservation :: "'w actor_env \<Rightarrow> plan \<Rightarrow> string \<Rightarrow> ('w, unit) handler" where
  "release_reservation env p reason a =
     (let next' = foldl (\<lambda>s d. dm_release_reservation (ae_modules env d) s reason) (ac_state a) (pp_domains p)
      in if next' = ac_state a then (Inr (), a)
         else and_then (on_disk (initialize (ae_store env) next')) (\<lambda>r.
                case r of Inl e \<Rightarrow> refuse (Internal e) | Inr _ \<Rightarrow> modify (\<lambda>a. a\<lparr>ac_state := next'\<rparr>)) a)"

text \<open>The last part of \<open>restore\<close>: render the restored state and publish its manifest.\<close>

definition render_restored :: "'w actor_env \<Rightarrow> string \<Rightarrow> ('w, string) handler" where
  "render_restored env detail a =
     (case ap_render (ae_applier env) (ac_state a) (ac_world a) of
        (Inl e, w) \<Rightarrow> (Inr (detail @ ''; rollback render failed: '' @ e), a\<lparr>ac_world := w\<rparr>)
      | (Inr manifest, w) \<Rightarrow>
          (case ae_print_json env manifest of
             Inl e \<Rightarrow> (Inl (Internal e), a\<lparr>ac_world := w\<rparr>)
           | Inr bytes \<Rightarrow>
               (case write_file (ae_store env) ''rendered.json'' bytes (ac_disk a) of
                  (Inl e, d) \<Rightarrow>
                    (Inr (detail @ ''; rollback manifest failed: '' @ e), a\<lparr>ac_world := w, ac_disk := d\<rparr>)
                | (Inr _, d) \<Rightarrow> (Inr detail, a\<lparr>ac_world := w, ac_disk := d\<rparr>))))"

text \<open>After the rollback of the envelope: roll the effects back, render again and report the failure.\<close>

definition restore_effects :: "'w actor_env \<Rightarrow> plan \<Rightarrow> string \<Rightarrow> ('w, string) handler" where
  "restore_effects env p reason =
     and_then (\<lambda>a. on_world (ap_rollback (ae_applier env) (ac_state a) p) a) (\<lambda>rb.
     and_then (render_restored env
                 (case rb of Inr _ \<Rightarrow> reason | Inl e \<Rightarrow> reason @ ''; rollback failed: '' @ e)) (\<lambda>detail.
     and_then (modify (\<lambda>a. a\<lparr>ac_failed := fold (\<lambda>d. bt_insert d detail) (pp_domains p) (ac_failed a)\<rparr>)) (\<lambda>_.
     and_then (each_act (\<lambda>d a. progress (sf_revision (ac_state a) + 1) (domain_name d) StepFailed (Some detail) a)
                 (pp_domains p)) (\<lambda>_.
       give detail))))"

definition restore :: "'w actor_env \<Rightarrow> plan \<Rightarrow> string \<Rightarrow> ('w, string) handler" where
  "restore env p reason =
     and_then (release_reservation env p reason) (\<lambda>_.
     and_then (\<lambda>a. on_disk (rollback (ae_store env) (ac_state a)) a) (\<lambda>r.
       case r of Inl e \<Rightarrow> refuse (Internal e) | Inr _ \<Rightarrow> restore_effects env p reason))"

section \<open>Admission of a command\<close>

definition guards :: "'w actor_env \<Rightarrow> command option \<Rightarrow> ('w, unit) handler" where
  "guards env c =
     each_act (\<lambda>(d, _) a.
         if ownership_of d = Native
         then and_then (on_world (dm_guard (ae_modules env d) (ac_state a) c)) of_result a
         else (Inr (), a)) registry_order"

definition MAX_REVISION :: u64 where "MAX_REVISION = 9007199254740991"

definition next_revision :: "u64 \<Rightarrow> (u64, api_error) result" where
  "next_revision r =
     (case checked_add r 1 of
        Some n \<Rightarrow> if n \<le> MAX_REVISION then Inr n else Inl (Internal ''revision exhausted'')
      | None \<Rightarrow> Inl (Internal ''revision exhausted''))"

definition cas_revision :: "domain option \<Rightarrow> state_file \<Rightarrow> u64" where
  "cas_revision cas s = (case cas of None \<Rightarrow> sf_revision s | Some d \<Rightarrow> domain_revision s d)"

definition planned_confirmation :: "command_request \<Rightarrow> origin \<Rightarrow> string option option" where
  "planned_confirmation req o' =
     (case cr_expect_impact req of
        Some t \<Rightarrow> Some (Some t)
      | None \<Rightarrow> if cr_confirm req \<or> \<not> requires_confirmation o' then Some None else None)"

definition confirmation_missing :: "command_request \<Rightarrow> origin \<Rightarrow> plan \<Rightarrow> bool" where
  "confirmation_missing req o' p =
     (\<not> pp_external_confirmation p \<and>
      ((case cr_expect_impact req of None \<Rightarrow> False | Some t \<Rightarrow> t \<noteq> im_token (pp_impact p)) \<or>
       (needs_confirmation (pp_impact p) \<and> requires_confirmation o' \<and> cr_expect_impact req = None \<and>
        \<not> cr_confirm req)))"

text \<open>Everything \<open>submit\<close> decides before it records the command: the candidate and its plan.\<close>

definition decide ::
  "'w actor_env \<Rightarrow> command_request \<Rightarrow> origin \<Rightarrow> domain option \<Rightarrow> state_file \<Rightarrow>
   (state_file \<times> plan, api_error) result" where
  "decide env req o' cas s =
     (let revision = cas_revision cas s;
          c = cr_command req;
          pe = ae_planner env
      in if (case cr_expect_revision req of None \<Rightarrow> False | Some r \<Rightarrow> r \<noteq> revision)
         then Inl (RevisionConflict revision)
         else
           bind_r (reduce (pe_printer pe) (ae_modules env) (sf_document s) c) (\<lambda>doc.
           bind_r (map_err invalid (validate (pe_printer pe) doc)) (\<lambda>_.
           bind_r (make_plan pe (ae_modules env)
                     (case cas of None \<Rightarrow> sf_document s
                      | Some d \<Rightarrow> (sf_document s)\<lparr>ds_revision := domain_revision s d\<rparr>) doc c) (\<lambda>p0.
             let p1 = p0\<lparr>pp_session := cr_network_session req, pp_confirmation := planned_confirmation req o'\<rparr>
             in if confirmation_missing req o' p1 then Inl (ConfirmationRequired (pp_impact p1))
                else Inr (s\<lparr>sf_document := doc\<rparr>,
                          if backup_handles c then p1\<lparr>pp_confirmation := Some None\<rparr> else p1)))))"

fun prepare_all ::
  "(domain \<Rightarrow> 'w domain_module) \<Rightarrow> state_file \<Rightarrow> command \<Rightarrow> domain list \<Rightarrow> state_file \<Rightarrow>
   (state_file, api_error) result" where
  "prepare_all mods s c [] next' = Inr next'"
| "prepare_all mods s c (d # ds) next' =
     bind_r (dm_prepare (mods d) s next' c) (\<lambda>n. prepare_all mods s c ds n)"

fun accept_all ::
  "(domain \<Rightarrow> 'w domain_module) \<Rightarrow> state_file \<Rightarrow> command \<Rightarrow> domain list \<Rightarrow> bool \<Rightarrow> state_file \<Rightarrow> json \<Rightarrow>
   (bool \<times> state_file \<times> json, api_error) result" where
  "accept_all mods s c [] changed next' apply = Inr (changed, next', apply)"
| "accept_all mods s c (d # ds) changed next' apply =
     bind_r (dm_accepted (mods d) s next' c apply) (\<lambda>(ch, n, v). accept_all mods s c ds (changed \<or> ch) n v)"

text \<open>The second walk of a runtime operation interleaves \<open>prepare\<close> and \<open>accepted\<close> per domain.\<close>

fun prepare_accept_all ::
  "(domain \<Rightarrow> 'w domain_module) \<Rightarrow> state_file \<Rightarrow> command \<Rightarrow> domain list \<Rightarrow> bool \<Rightarrow> state_file \<Rightarrow> json \<Rightarrow>
   (bool \<times> state_file \<times> json, api_error) result" where
  "prepare_accept_all mods s c [] changed next' apply = Inr (changed, next', apply)"
| "prepare_accept_all mods s c (d # ds) changed next' apply =
     bind_r (dm_prepare (mods d) s next' c) (\<lambda>n0.
     bind_r (dm_accepted (mods d) s n0 c apply) (\<lambda>(ch, n, v).
       prepare_accept_all mods s c ds (changed \<or> ch) n v))"

definition apply_command ::
  "'w actor_env \<Rightarrow> state_file \<Rightarrow> plan \<Rightarrow> command option \<Rightarrow> 'w \<Rightarrow> (json, api_error) result \<times> 'w" where
  "apply_command env s p c w =
     (let live = (case c of
                    None \<Rightarrow> None
                  | Some cmd \<Rightarrow> (case command_domain cmd of
                        None \<Rightarrow> None
                      | Some d \<Rightarrow> dm_live_checked (ae_modules env d) s p cmd))
      in if pp_paths p = []
         then (case live of
                 Some effect \<Rightarrow> effect w
               | None \<Rightarrow>
                   if pp_actions p = [] then (Inr (JObject [(''ok'', JBool True)]), w)
                   else ap_apply_checked (ae_applier env) s p w)
         else ap_apply_checked (ae_applier env) s p w)"

record submission =
  su_reply :: command_reply
  su_audio_revision :: u64
  su_domain_revision :: u64
  su_apply :: json

definition submission_of :: "state_file \<Rightarrow> apply_report \<Rightarrow> domain option \<Rightarrow> json \<Rightarrow> submission" where
  "submission_of s report owner apply =
     \<lparr>su_reply = \<lparr>rp_revision = sf_revision s, rp_report = report\<rparr>,
      su_audio_revision = audio_revision s,
      su_domain_revision = (case owner of None \<Rightarrow> sf_revision s | Some d \<Rightarrow> domain_revision s d),
      su_apply = apply\<rparr>"

section \<open>Runtime operations\<close>

definition effect_owner :: "command \<Rightarrow> plan \<Rightarrow> domain option" where
  "effect_owner c p =
     (case command_domain c of
        Some d \<Rightarrow> Some d
      | None \<Rightarrow> (case pp_domains p of [] \<Rightarrow> None | d # _ \<Rightarrow> Some d))"

definition applying_steps ::
  "(domain \<Rightarrow> 'w domain_module) \<Rightarrow> state_file \<Rightarrow> domain list \<Rightarrow> apply_step list \<Rightarrow> apply_step list" where
  "applying_steps mods s ds steps =
     foldl (\<lambda>acc d.
       let ob = dm_project_observed (mods d) s default_domain_observed
       in if do_status ob = Applying
          then filter (\<lambda>x. st_step x \<noteq> domain_name d) acc @
               [(new_apply_step (domain_name d) Started)\<lparr>st_detail := do_detail ob\<rparr>]
          else acc) steps ds"

definition preflight :: "'w actor_env \<Rightarrow> domain \<Rightarrow> state_file \<Rightarrow> plan \<Rightarrow> ('w, unit) handler" where
  "preflight env owner next' p =
     and_then (\<lambda>a. on_world (ap_preflight (ae_applier env) (ac_state a) next' p) a) (\<lambda>r.
       case r of Inl reason \<Rightarrow> refuse (ApplyFailed owner ''preflight'' reason) | Inr _ \<Rightarrow> give ())"

definition only_if :: "bool \<Rightarrow> ('w, unit) handler \<Rightarrow> ('w, unit) handler" where
  "only_if b m = (if b then m else give ())"

definition runtime_failed ::
  "'w actor_env \<Rightarrow> domain \<Rightarrow> plan \<Rightarrow> api_error \<Rightarrow> ('w, submission) handler" where
  "runtime_failed env owner p error =
     (let reason = error_text error
      in and_then (release_reservation env p reason) (\<lambda>_.
         and_then (\<lambda>a. on_world (ap_rollback (ae_applier env) (ac_state a) p) a) (\<lambda>rb.
         and_then (only_if (pp_actions p \<noteq> []) (\<lambda>a.
             progress (sf_revision (ac_state a)) (domain_name owner) StepFailed (Some reason) a)) (\<lambda>_.
           case rb of
             Inl e \<Rightarrow> refuse (ApplyFailed owner ''rollback'' (reason @ ''; rollback failed: '' @ e))
           | Inr _ \<Rightarrow> refuse error))))"

definition observe_operation :: "'w actor_env \<Rightarrow> domain option \<Rightarrow> json \<Rightarrow> ('w, unit) handler" where
  "observe_operation env owner apply a =
     (case owner of
        None \<Rightarrow> (Inr (), a)
      | Some d \<Rightarrow>
          (case dm_operation_observed (ae_modules env d) (ac_last_observed a) apply of
             Inl e \<Rightarrow> (Inl e, a)
           | Inr (events, ob) \<Rightarrow> (Inr (), a\<lparr>ac_last_observed := ob, ac_events := ac_events a @ events\<rparr>)))"

definition ignore_error :: "('w, unit) handler \<Rightarrow> ('w, unit) handler" where
  "ignore_error m a = (Inr (), snd (m a))"

text \<open>After a runtime operation: adopt what was committed meanwhile and keep its receipts.\<close>

definition keep_receipts ::
  "'w actor_env \<Rightarrow> command \<Rightarrow> plan \<Rightarrow> json \<Rightarrow> ('w, json) handler" where
  "keep_receipts env c p apply a =
     (case prepare_accept_all (ae_modules env) (ac_state a) c (pp_domains p) False (ac_state a) apply of
        Inl e \<Rightarrow> (Inl e, a)
      | Inr (changed, next', v) \<Rightarrow>
          if \<not> changed then (Inr v, a)
          else and_then (and_then (on_disk (initialize (ae_store env) next')) (\<lambda>r.
                 case r of Inl e \<Rightarrow> refuse (Internal e)
                 | Inr _ \<Rightarrow> modify (\<lambda>a. a\<lparr>ac_state := next'\<rparr>))) (\<lambda>_. give v) a)"

definition settle_runtime ::
  "'w actor_env \<Rightarrow> command \<Rightarrow> plan \<Rightarrow> json \<Rightarrow> ('w, json) handler" where
  "settle_runtime env c p apply a0 =
     and_then (refresh env) (\<lambda>_.
     and_then (\<lambda>a. only_if (sf_revision (ac_state a) \<noteq> sf_revision (ac_state a0)) (ignore_error (replay env)) a) (\<lambda>_.
     and_then (refresh env) (\<lambda>_.
       keep_receipts env c p apply))) a0"

definition runtime_done ::
  "'w actor_env \<Rightarrow> command \<Rightarrow> domain \<Rightarrow> plan \<Rightarrow> json \<Rightarrow> ('w, submission) handler" where
  "runtime_done env c eff p value =
     (let v1 = snd (json_remove ''_render_manifest'' value);
          (found, v2) = json_remove ''_impact'' v1
      in and_then (of_result (case found of
                     None \<Rightarrow> Inr (pp_impact p)
                   | Some j \<Rightarrow> map_err Internal (ae_impact_of env j))) (\<lambda>imp.
         and_then (observe_operation env (command_domain c) v2) (\<lambda>_.
         and_then (settle_runtime env c p v2) (\<lambda>v3 a.
           let steps = (if pp_actions p \<noteq> [] then [new_apply_step (domain_name eff) Done] else []);
               report = default_apply_report\<lparr>rep_impact := imp,
                 rep_steps := applying_steps (ae_modules env) (ac_state a) (pp_domains p) steps\<rparr>
           in (Inr (submission_of (ac_state a) report (command_domain c) v3), a)))))"

definition run_runtime ::
  "'w actor_env \<Rightarrow> command \<Rightarrow> state_file \<Rightarrow> plan \<Rightarrow> ('w, submission) handler" where
  "run_runtime env c next' p =
     (let eff = (case effect_owner c p of Some d \<Rightarrow> d | None \<Rightarrow> DPresets);
          has_actions = (pp_actions p \<noteq> [])
      in and_then (preflight env eff next' p) (\<lambda>_.
         and_then (reserve env next' p) (\<lambda>_.
         and_then (only_if has_actions (\<lambda>a. progress (sf_revision (ac_state a)) (domain_name eff) Started None a)) (\<lambda>_.
         and_then (on_world (apply_command env next' p (Some c))) (\<lambda>r.
           case r of
             Inl error \<Rightarrow> and_then (unlocked env) (\<lambda>_. runtime_failed env eff p error)
           | Inr value \<Rightarrow>
               and_then (only_if has_actions (\<lambda>a.
                   progress (sf_revision (ac_state a)) (domain_name eff) Done None a)) (\<lambda>_.
                 runtime_done env c eff p value))))))"

section \<open>Durable transactions\<close>

definition number_candidate :: "u64 \<Rightarrow> domain list \<Rightarrow> state_file \<Rightarrow> state_file" where
  "number_candidate n ds next' =
     next'\<lparr>sf_revision := n, sf_document := (sf_document next')\<lparr>ds_revision := n\<rparr>,
           sf_domain_revisions := foldl (\<lambda>m d. bt_insert d n m) (sf_domain_revisions next') ds\<rparr>"

definition validate_assets_all ::
  "(domain \<Rightarrow> 'w domain_module) \<Rightarrow> desired_state \<Rightarrow> domain list \<Rightarrow> ('w, unit) handler" where
  "validate_assets_all mods doc =
     each_act (\<lambda>d. of_result (map_err (\<lambda>reason. ApplyFailed d ''preflight'' reason)
       (dm_validate_assets (mods d) doc)))"

definition stage_or_undo :: "store \<Rightarrow> state_file \<Rightarrow> state_file \<Rightarrow> unit io" where
  "stage_or_undo so previous next' d =
     (case stage so previous next' d of
        (Inr _, d1) \<Rightarrow> (Inr (), d1)
      | (Inl e, d1) \<Rightarrow>
          (case rollback so previous d1 of
             (Inr _, d2) \<Rightarrow> (Inl e, d2)
           | (Inl e', d2) \<Rightarrow> (Inl (e @ ''; persistence rollback failed: '' @ e'), d2)))"

definition publish :: "store \<Rightarrow> state_file option \<Rightarrow> string \<Rightarrow> unit io" where
  "publish so candidate manifest =
     seq_io (case candidate of None \<Rightarrow> (\<lambda>d. (Inr (), d)) | Some n \<Rightarrow> initialize so n)
       (seq_io (write_file so ''rendered.json'' manifest) commit)"

definition durable_failed ::
  "'w actor_env \<Rightarrow> domain \<Rightarrow> plan \<Rightarrow> api_error \<Rightarrow> ('w, submission) handler" where
  "durable_failed env owner p error =
     and_then (restore env p (error_text error)) (\<lambda>restored.
       if restored \<noteq> error_text error then refuse (ApplyFailed owner ''rollback'' restored)
       else and_then (only_if (case error of ConfirmationRequired _ \<Rightarrow> True | _ \<Rightarrow> False)
              (modify (\<lambda>a. a\<lparr>ac_failed := fold bt_remove (pp_domains p) (ac_failed a)\<rparr>))) (\<lambda>_.
            refuse error))"

definition committed_report ::
  "'w actor_env \<Rightarrow> command \<Rightarrow> origin \<Rightarrow> plan \<Rightarrow> json \<Rightarrow> ('w, submission) handler" where
  "committed_report env c o' p apply =
     and_then (modify (\<lambda>a. a\<lparr>ac_failed := fold bt_remove (pp_domains p) (ac_failed a),
         ac_native_drift := filter (\<lambda>((d, _), _). d \<notin> set (pp_domains p)) (ac_native_drift a)\<rparr>)) (\<lambda>_ a.
     (let s = ac_state a;
          seen = (\<lambda>d. dm_project_observed (ae_modules env d) s default_domain_observed);
          status = (\<lambda>d. if do_status (seen d) = Applying then Started else Done);
          steps = map (\<lambda>d. (new_apply_step (domain_name d) (status d))\<lparr>st_detail := do_detail (seen d)\<rparr>) (pp_domains p);
          report = default_apply_report\<lparr>rep_impact := pp_impact p, rep_steps := steps\<rparr>;
          events = map (\<lambda>d. ApplyProgress (sf_revision s) (domain_name d) (status d) (do_detail (seen d))) (pp_domains p) @
                   [StateChanged (sf_revision s) (pp_domains p) o'] @
                   map (\<lambda>d. ObservedEvent d (dm_project_observed (ae_modules env d) s
                       (default_domain_observed\<lparr>do_applied_revision := Some (domain_revision s d)\<rparr>))) (pp_domains p)
      in (Inr (submission_of s report (command_domain c) apply), a\<lparr>ac_events := ac_events a @ events\<rparr>)))"

definition commit_durable ::
  "'w actor_env \<Rightarrow> command \<Rightarrow> origin \<Rightarrow> domain \<Rightarrow> plan \<Rightarrow> string \<Rightarrow> bool \<times> state_file \<times> json \<Rightarrow>
   ('w, submission) handler" where
  "commit_durable env c o' owner p bytes = (\<lambda>(changed, n, apply).
     and_then (on_disk (publish (ae_store env) (if changed then Some n else None) bytes)) (\<lambda>r.
       case r of
         Inl reason \<Rightarrow>
           and_then (restore env p reason) (\<lambda>detail. refuse (ApplyFailed owner ''commit'' detail))
       | Inr _ \<Rightarrow>
           and_then (modify (\<lambda>a. a\<lparr>ac_state := n\<rparr>)) (\<lambda>_. committed_report env c o' p apply)))"

definition finish_durable ::
  "'w actor_env \<Rightarrow> command \<Rightarrow> origin \<Rightarrow> domain \<Rightarrow> plan \<Rightarrow> state_file \<Rightarrow> json \<Rightarrow> json \<Rightarrow> ('w, submission) handler" where
  "finish_durable env c o' owner p next' fallback value =
     (let (found, v1) = json_remove ''_render_manifest'' value;
          manifest = (case found of Some m \<Rightarrow> if m = JNull then fallback else m | None \<Rightarrow> fallback)
      in and_then (of_result (map_err Internal (ae_print_json env manifest))) (\<lambda>bytes.
         and_then (\<lambda>a. of_result (accept_all (ae_modules env) (ac_state a) c (pp_domains p) False next' v1) a)
           (commit_durable env c o' owner p bytes)))"

text \<open>With the candidate staged: apply it, then commit or restore.\<close>

definition apply_durable ::
  "'w actor_env \<Rightarrow> command \<Rightarrow> origin \<Rightarrow> domain \<Rightarrow> plan \<Rightarrow> state_file \<Rightarrow> json \<Rightarrow> ('w, submission) handler" where
  "apply_durable env c o' owner p next' fallback =
     and_then (each_act (\<lambda>d. progress (sf_revision next') (domain_name d) Started None) (pp_domains p)) (\<lambda>_.
     and_then (on_world (apply_command env next' p (Some c))) (\<lambda>r.
       case r of
         Inl error \<Rightarrow> durable_failed env owner p error
       | Inr value \<Rightarrow> finish_durable env c o' owner p next' fallback value))"

definition stage_durable ::
  "'w actor_env \<Rightarrow> command \<Rightarrow> origin \<Rightarrow> domain \<Rightarrow> plan \<Rightarrow> state_file \<Rightarrow> ('w, submission) handler" where
  "stage_durable env c o' owner p next' =
     and_then (of_result (map_err Internal (ae_manifest env next'))) (\<lambda>fallback.
     and_then (validate_assets_all (ae_modules env) (sf_document next') (pp_domains p)) (\<lambda>_.
     and_then (preflight env owner next' p) (\<lambda>_.
     and_then (reserve env next' p) (\<lambda>_.
     and_then (\<lambda>a. on_disk (stage_or_undo (ae_store env) (ac_state a) next') a) (\<lambda>staging.
       case staging of
         Inl e \<Rightarrow> refuse (Internal e)
       | Inr _ \<Rightarrow> apply_durable env c o' owner p next' fallback)))))"

definition run_durable ::
  "'w actor_env \<Rightarrow> command \<Rightarrow> origin \<Rightarrow> state_file \<Rightarrow> plan \<Rightarrow> ('w, submission) handler" where
  "run_durable env c o' next0 p =
     and_then (of_result (ok_or (effect_owner c p) (Internal ''empty restore plan''))) (\<lambda>owner.
     and_then (\<lambda>a. of_result (next_revision (sf_revision (ac_state a))) a) (\<lambda>revision.
       stage_durable env c o' owner p (number_candidate revision (pp_domains p) next0)))"

section \<open>Submit\<close>

definition check_activity :: "command_request \<Rightarrow> ('w, unit) handler" where
  "check_activity req a =
     (case cr_expect_activity req of
        Some n \<Rightarrow> if n \<noteq> ac_activity a then (Inl (Internal ''command superseded by newer activity''), a) else (Inr (), a)
      | None \<Rightarrow> (Inr (), a))"

text \<open>Up to the decision: the envelope is current, no newer activity, every guard agrees.\<close>

definition prologue :: "'w actor_env \<Rightarrow> command_request \<Rightarrow> ('w, unit) handler" where
  "prologue env req =
     and_then (refresh env) (\<lambda>_.
     and_then (check_activity req) (\<lambda>_.
     and_then (guards env (Some (cr_command req))) (\<lambda>_.
       refresh env)))"

definition submit ::
  "'w actor_env \<Rightarrow> command_request \<Rightarrow> origin \<Rightarrow> domain option \<Rightarrow> ('w, submission) handler" where
  "submit env req o' cas =
     and_then (prologue env req) (\<lambda>_.
     and_then (\<lambda>a. of_result (decide env req o' cas (ac_state a)) a) (\<lambda>(next', p).
     and_then (\<lambda>a. of_result (prepare_all (ae_modules env) (ac_state a) (cr_command req) (pp_domains p) next') a) (\<lambda>prepared.
     and_then (record_activity (cr_command req)) (\<lambda>_.
       if pp_paths p = [] then run_runtime env (cr_command req) prepared p
       else run_durable env (cr_command req) o' prepared p))))"

section \<open>Completion of asynchronous work\<close>

definition completion_manifest ::
  "'w actor_env \<Rightarrow> plan \<Rightarrow> state_file \<Rightarrow> json \<Rightarrow> ('w, json) handler" where
  "completion_manifest env p next' apply =
     (let found = json_index apply ''_render_manifest''
      in if found \<noteq> JNull then give found
         else and_then (on_world (ap_render (ae_applier env) next')) (\<lambda>r.
                case r of
                  Inr manifest \<Rightarrow> give manifest
                | Inl reason \<Rightarrow> and_then (restore env p reason) (\<lambda>detail. refuse (Internal detail))))"

definition completion_report :: "'w actor_env \<Rightarrow> domain \<Rightarrow> bool \<Rightarrow> json \<Rightarrow> ('w, unit) handler" where
  "completion_report env d changed apply =
     and_then (modify (\<lambda>a. a\<lparr>ac_failed := (case json_text (json_index apply ''_domain_failure'') of
          Some reason \<Rightarrow> bt_insert d reason (ac_failed a) | None \<Rightarrow> bt_remove d (ac_failed a))\<rparr>)) (\<lambda>_ a.
     (let s = ac_state a;
          base = default_domain_observed\<lparr>do_applied_revision := Some (domain_revision s d)\<rparr>;
          ob0 = (case bt_get (ac_failed a) d of
                   None \<Rightarrow> base | Some reason \<Rightarrow> base\<lparr>do_status := SyncFailed, do_detail := Some reason\<rparr>);
          ob = dm_project_observed (ae_modules env d) s ob0;
          events = (if changed then [StateChanged (sf_revision s) [d] OMigration] else []) @
                   [ApplyProgress (sf_revision s) (domain_name d)
                      (if do_status ob = SyncFailed then StepFailed else Done) (do_detail ob),
                    ObservedEvent d ob]
      in (Inr (), a\<lparr>ac_events := ac_events a @ events\<rparr>)))"

definition commit_completion ::
  "'w actor_env \<Rightarrow> domain \<Rightarrow> bool \<Rightarrow> plan \<Rightarrow> state_file \<Rightarrow> json \<Rightarrow> string \<Rightarrow> ('w, unit) handler" where
  "commit_completion env d changed p n apply bytes =
     and_then (on_disk (publish (ae_store env) (Some n) bytes)) (\<lambda>r.
       case r of
         Inl reason \<Rightarrow> and_then (restore env p reason) (\<lambda>detail. refuse (Internal detail))
       | Inr _ \<Rightarrow> and_then (modify (\<lambda>a. a\<lparr>ac_state := n\<rparr>)) (\<lambda>_. completion_report env d changed apply))"

definition finish_completion ::
  "'w actor_env \<Rightarrow> domain \<Rightarrow> bool \<Rightarrow> plan \<Rightarrow> state_file \<Rightarrow> json \<Rightarrow> ('w, unit) handler" where
  "finish_completion env d changed p next' apply =
     (case dm_completed (ae_modules env d) next' apply of
        Inl e \<Rightarrow> and_then (restore env p (error_text e)) (\<lambda>detail. refuse (Internal detail))
      | Inr n \<Rightarrow>
          and_then (completion_manifest env p n apply) (\<lambda>manifest.
          and_then (of_result (map_err Internal (ae_print_json env manifest)))
            (commit_completion env d changed p n apply)))"

definition number_completion :: "domain \<Rightarrow> state_file \<Rightarrow> state_file \<Rightarrow> (bool \<times> state_file, api_error) result" where
  "number_completion d s next0 =
     (if sf_document next0 \<noteq> sf_document s
      then bind_r (next_revision (sf_revision s)) (\<lambda>r. Inr (True, number_candidate r [d] next0))
      else Inr (False, next0))"

definition apply_completion ::
  "'w actor_env \<Rightarrow> domain \<Rightarrow> bool \<Rightarrow> plan \<Rightarrow> state_file \<Rightarrow> ('w, unit) handler" where
  "apply_completion env d changed p next' =
     and_then (on_world (apply_command env next' p None)) (\<lambda>r.
       case r of
         Inl e \<Rightarrow> and_then (restore env p (error_text e)) (\<lambda>detail. refuse (ApplyFailed d ''completion'' detail))
       | Inr value \<Rightarrow> finish_completion env d changed p next' value)"

definition run_completion ::
  "'w actor_env \<Rightarrow> domain \<Rightarrow> state_file \<Rightarrow> plan \<Rightarrow> ('w, unit) handler" where
  "run_completion env d next0 p =
     and_then (of_result (map_err invalid (validate (pe_printer (ae_planner env)) (sf_document next0)))) (\<lambda>_.
     and_then (\<lambda>a. on_world (ap_preflight (ae_applier env) (ac_state a) next0 p) a) (\<lambda>pre.
     and_then (of_result (map_err Internal pre)) (\<lambda>_.
     and_then (\<lambda>a. of_result (number_completion d (ac_state a) next0) a) (\<lambda>(changed, next').
     and_then (\<lambda>a. on_disk (stage_or_undo (ae_store env) (ac_state a) next') a) (\<lambda>staging.
       case staging of
         Inl e \<Rightarrow> refuse (Internal e)
       | Inr _ \<Rightarrow> apply_completion env d changed p next')))))"

definition complete :: "'w actor_env \<Rightarrow> domain \<Rightarrow> json \<Rightarrow> ('w, unit) handler" where
  "complete env d result =
     and_then (refresh env) (\<lambda>_.
     and_then (guards env None) (\<lambda>_.
     and_then (refresh env) (\<lambda>_.
     and_then (\<lambda>a. of_result (dm_completion (ae_modules env d) (ac_state a) result) a) (\<lambda>found.
       case found of None \<Rightarrow> give () | Some (next', p) \<Rightarrow> run_completion env d next' p))))"

section \<open>Followed files\<close>

definition check_native_drift :: "'w actor_env \<Rightarrow> legacy_files \<Rightarrow> ('w, unit) handler" where
  "check_native_drift env files =
     and_then (\<lambda>a. of_result (map_err Internal (ae_artifacts env (ac_state a) files)) a) (\<lambda>artifacts.
       each_act (\<lambda>(d, path, expected, actual) a.
           if actual = Some expected
           then (Inr (), a\<lparr>ac_native_drift := bt_remove (d, path) (ac_native_drift a)\<rparr>)
           else (let foreign = (case actual of Some b \<Rightarrow> ae_sha256 env b | None \<Rightarrow> ''missing'')
                 in if bt_get (ac_native_drift a) (d, path) = Some foreign then (Inr (), a)
                    else (Inr (), a\<lparr>ac_native_drift := bt_insert (d, path) foreign (ac_native_drift a),
                           ac_events := ac_events a @ [DriftEvent ((new_drift d path)\<lparr>
                             dr_artifact := Some (ae_sha256 env expected), dr_foreign := Some foreign\<rparr>)]\<rparr>)))
         artifacts)"

definition followed_changes :: "json \<Rightarrow> json \<Rightarrow> domain list" where
  "followed_changes before after =
     filter (\<lambda>d. ownership_of d = Followed \<and> json_index before (domain_name d) \<noteq> json_index after (domain_name d))
       (map fst OWNERSHIP)"

definition merge_followed_files :: "string list \<Rightarrow> legacy_files \<Rightarrow> legacy_files \<Rightarrow> legacy_files" where
  "merge_followed_files native kept imported =
     foldl (\<lambda>files path. case bt_get kept path of
              None \<Rightarrow> bt_remove path files
            | Some raw \<Rightarrow> bt_insert path raw (bt_remove path files)) imported native"

definition publish_followed :: "store \<Rightarrow> state_file \<Rightarrow> state_file \<Rightarrow> bool \<Rightarrow> unit io" where
  "publish_followed so previous candidate changed_revision d =
     (if \<not> changed_revision then initialize so candidate d
      else case seq_io (stage so previous candidate) commit d of
             (Inr _, d1) \<Rightarrow> (Inr (), d1)
           | (Inl reason, d1) \<Rightarrow>
               (case rollback so previous d1 of
                  (Inr _, d2) \<Rightarrow> (Inl reason, d2)
                | (Inl e, d2) \<Rightarrow> (Inl (reason @ ''; followed-state rollback failed: '' @ e), d2)))"

definition follow_with ::
  "'w actor_env \<Rightarrow> state_file \<Rightarrow> domain list \<Rightarrow> ('w, unit) handler" where
  "follow_with env imported ds a =
     (let s = ac_state a;
          files = merge_followed_files (ae_native_paths env) (sf_legacy_files s) (sf_legacy_files imported);
          next0 = s\<lparr>sf_document := foldl (\<lambda>doc d. copy_field d doc (sf_document imported)) (sf_document s) ds,
                    sf_legacy_files := files\<rparr>
      in if ds = [] \<and> files = sf_legacy_files s then (Inr (), a)
         else and_then (of_result (map_err invalid (validate (pe_printer (ae_planner env)) (sf_document next0)))) (\<lambda>_.
              and_then (of_result (if ds = [] then Inr next0
                          else bind_r (next_revision (sf_revision next0)) (\<lambda>r. Inr (number_candidate r ds next0)))) (\<lambda>next'.
              and_then (on_disk (publish_followed (ae_store env) s next' (ds \<noteq> []))) (\<lambda>r.
                case r of
                  Inl e \<Rightarrow> refuse (Internal e)
                | Inr _ \<Rightarrow>
                    and_then (modify (\<lambda>a. a\<lparr>ac_state := next'\<rparr>)) (\<lambda>_.
                      only_if (ds \<noteq> []) (and_then (ignore_error (replay env)) (\<lambda>_ a.
                        send_event (StateChanged (sf_revision (ac_state a)) ds OMigration) a)))))) a)"

definition follow :: "'w actor_env \<Rightarrow> state_file \<Rightarrow> ('w, unit) handler" where
  "follow env imported =
     and_then (refresh env) (\<lambda>_.
     and_then (guards env None) (\<lambda>_.
     and_then (refresh env) (\<lambda>_.
     and_then (check_native_drift env (sf_legacy_files imported)) (\<lambda>_.
     and_then (\<lambda>a. of_result (map_err Internal (pe_to_value (ae_planner env) (sf_document (ac_state a)))) a) (\<lambda>before.
     and_then (of_result (map_err Internal (pe_to_value (ae_planner env) (sf_document imported)))) (\<lambda>after.
       follow_with env imported (followed_changes before after)))))))"

section \<open>Queries\<close>

definition inspect_backup :: "'w actor_env \<Rightarrow> state_file \<Rightarrow> backup_document \<Rightarrow> (json, api_error) result" where
  "inspect_backup env s document =
     (let c = ImportBackup document RestoreAll; pe = ae_planner env
      in bind_r (backup_reduce (pe_printer pe) (sf_document s) c) (\<lambda>next'.
         bind_r (map_err invalid (validate (pe_printer pe) next')) (\<lambda>_.
         bind_r (make_plan pe (ae_modules env) (sf_document s) next' c) (\<lambda>p.
           Inr (JObject [(''impact'', ae_impact_json env (pp_impact p)),
                         (''paths'', JArray (map JString (pp_paths p))),
                         (''revision'', JInt (uint (sf_revision s)))])))))"

definition backup_query :: "'w actor_env \<Rightarrow> state_file \<Rightarrow> query \<Rightarrow> 'w \<Rightarrow> (json, api_error) result option" where
  "backup_query env s q w =
     (case q of
        QBackupSnapshots \<Rightarrow> Some (Inr (JObject [(''snapshots'', ae_snapshots env w)]))
      | QExportBackup _ \<Rightarrow>
          (let doc = new_backup_document (sf_document s)
           in Some (map_err Internal (ae_backup_json env
                (case sp_logo (di_splash (ds_display (sf_document s))) of
                   None \<Rightarrow> doc | Some asset \<Rightarrow> doc\<lparr>bd_assets := bd_assets doc @ [asset]\<rparr>))))
      | QInspectBackup document \<Rightarrow> Some (inspect_backup env s document)
      | _ \<Rightarrow> None)"

definition observed_domain :: "'w actor_env \<Rightarrow> 'w actor \<Rightarrow> domain \<Rightarrow> domain_observed" where
  "observed_domain env a d =
     (let kept = (case bt_get (ac_observations a) d of Some ob \<Rightarrow> ob | None \<Rightarrow> default_domain_observed);
          status = (if bt_get (ac_failed a) d \<noteq> None then SyncFailed
                    else if list_ex (\<lambda>((k, _), _). k = d) (ac_native_drift a) then SyncDrift
                    else do_status kept);
          detail = (case bt_get (ac_failed a) d of Some reason \<Rightarrow> Some reason | None \<Rightarrow> do_detail kept)
      in dm_project_observed (ae_modules env d) (ac_state a)
           (kept\<lparr>do_applied_revision := Some (domain_revision (ac_state a) d), do_status := status, do_detail := detail\<rparr>))"

definition native_domains :: "domain list" where
  "native_domains = filter (\<lambda>d. ownership_of d = Native) (map fst registry_order)"

definition assemble_observed :: "'w actor_env \<Rightarrow> 'w actor \<Rightarrow> observed" where
  "assemble_observed env a =
     default_observed\<lparr>ob_revision := sf_revision (ac_state a),
       ob_domains := foldl (\<lambda>m d. bt_insert d (observed_domain env a d) m) [] native_domains,
       ob_drift := map (\<lambda>((d, path), _). new_drift d path) (ac_native_drift a)\<rparr>"

fun observe_domains :: "'w actor_env \<Rightarrow> domain list \<Rightarrow> observed \<Rightarrow> ('w, observed) handler" where
  "observe_domains env [] ob = give ob"
| "observe_domains env (d # ds) ob =
     and_then (\<lambda>a. on_world (dm_observe_state (ae_modules env d) (ac_state a) (ac_last_observed a) ob) a) (\<lambda>r.
       case r of
         Inl e \<Rightarrow> refuse e
       | Inr (events, ob') \<Rightarrow>
           and_then (each_act send_event events) (\<lambda>_. observe_domains env ds ob'))"

fun first_query :: "'w actor_env \<Rightarrow> state_file \<Rightarrow> query \<Rightarrow> domain list \<Rightarrow> ('w \<Rightarrow> (json, api_error) result \<times> 'w) option" where
  "first_query env s q [] = None"
| "first_query env s q (d # ds) =
     (case dm_query (ae_modules env d) s q of Some effect \<Rightarrow> Some effect | None \<Rightarrow> first_query env s q ds)"

definition own_query :: "'w actor_env \<Rightarrow> query \<Rightarrow> ('w, json) handler" where
  "own_query env q a =
     (case q of
        QState \<Rightarrow> of_result (map_err Internal (pe_to_value (ae_planner env) (sf_document (ac_state a)))) a
      | QStateDomain d \<Rightarrow>
          of_result (bind_r (map_err Internal (pe_to_value (ae_planner env) (sf_document (ac_state a)))) (\<lambda>v.
            Inr (JObject [(''domain_revision'', case bt_get (sf_domain_revisions (ac_state a)) d of
                             None \<Rightarrow> JNull | Some r \<Rightarrow> JInt (uint r)),
                          (''revision'', JInt (uint (sf_revision (ac_state a)))),
                          (''state'', json_index v (domain_name d))]))) a
      | QStatus \<Rightarrow>
          and_then (on_world (ap_decoder (ae_applier env) (JObject [(''action'', JString ''status'')])))
            (\<lambda>r. of_result (map_err Internal r)) a
      | QObserved \<Rightarrow>
          and_then (observe_domains env native_domains (assemble_observed env a)) (\<lambda>ob.
          and_then (modify (\<lambda>a. a\<lparr>ac_last_observed := ob\<rparr>)) (\<lambda>_.
            of_result (map_err Internal (ae_observed_json env ob)))) a
      | _ \<Rightarrow> (Inl (Unsupported ''query is owned by another control-plane module''), a))"

definition answer_query :: "'w actor_env \<Rightarrow> query \<Rightarrow> ('w, json) handler" where
  "answer_query env q =
     and_then (refresh env) (\<lambda>_ a.
       case backup_query env (ac_state a) q (ac_world a) of
         Some reply \<Rightarrow> of_result reply a
       | None \<Rightarrow>
           (case first_query env (ac_state a) q (map fst registry_order) of
              Some effect \<Rightarrow> and_then (on_world effect) of_result a
            | None \<Rightarrow> own_query env q a))"

section \<open>Boot, shutdown and the message loop\<close>

definition boot :: "'w actor_env \<Rightarrow> ('w, unit) handler" where
  "boot env =
     and_then (refresh env) (\<lambda>_.
     and_then (each_act (\<lambda>(d, _) a. if ownership_of d = Native
                 then of_result (map_err Internal (dm_validate_assets (ae_modules env d) (sf_document (ac_state a)))) a
                 else (Inr (), a)) registry_order) (\<lambda>_.
     and_then (\<lambda>a. on_world (ap_render (ae_applier env) (ac_state a)) a) (\<lambda>r.
       case r of
         Inl e \<Rightarrow> refuse (Internal e)
       | Inr manifest \<Rightarrow>
           and_then (of_result (map_err Internal (ae_print_json env manifest))) (\<lambda>bytes.
           and_then (unlocked env) (\<lambda>_.
           and_then (on_disk (write_file (ae_store env) ''rendered.json'' bytes)) (\<lambda>w.
             case w of Inl e \<Rightarrow> refuse (Internal e) | Inr _ \<Rightarrow> give ()))))))"

definition record_observation :: "'w actor_env \<Rightarrow> event \<Rightarrow> 'w actor \<Rightarrow> 'w actor" where
  "record_observation env e a =
     (case e of
        DriftEvent dr \<Rightarrow>
          (let key = (dr_domain dr, dr_path dr); signature = ae_print_event env e
           in if bt_get (ac_native_drift a) key = Some signature then a
              else a\<lparr>ac_native_drift := bt_insert key signature (ac_native_drift a), ac_events := ac_events a @ [e]\<rparr>)
      | ObservedEvent d delta \<Rightarrow>
          a\<lparr>ac_observations := bt_insert d delta (ac_observations a), ac_events := ac_events a @ [e]\<rparr>
      | _ \<Rightarrow> a\<lparr>ac_events := ac_events a @ [e]\<rparr>)"

datatype (plugins only: size) message =
    MObservation event
  | MQuery query
  | MSnapshot
  | MSubmit command_request origin "domain option"
  | MFollow state_file
  | MBoot
  | MReplay
  | MComplete domain json
  | MShutdown

definition stopping :: api_error where
  "stopping = Internal ''the control plane is shutting down''"

definition finish :: "'w actor_env \<Rightarrow> ('w, unit) handler" where
  "finish env = refresh env"

definition handle :: "'w actor_env \<Rightarrow> message \<Rightarrow> ('w, unit) handler" where
  "handle env m a =
     (case m of
        MObservation e \<Rightarrow> (Inr (), record_observation env e a)
      | MSnapshot \<Rightarrow> refresh env a
      | MQuery q \<Rightarrow> and_then (answer_query env q) (\<lambda>_. give ()) a
      | MShutdown \<Rightarrow> finish env (a\<lparr>ac_closing := True\<rparr>)
      | _ \<Rightarrow>
          if ac_closing a then (Inl stopping, a)
          else (case m of
                  MSubmit req o' cas \<Rightarrow> and_then (submit env req o' cas) (\<lambda>_. give ()) a
                | MFollow imported \<Rightarrow> follow env imported a
                | MBoot \<Rightarrow> boot env a
                | MReplay \<Rightarrow> replay env a
                | MComplete d result \<Rightarrow> complete env d result a
                | _ \<Rightarrow> (Inr (), a)))"

end
