(* ===== verification/Actor_Safety.thy ===== *)
theory Actor_Safety
  imports State_Actor
begin

text \<open>
  What the state actor guarantees of the committed envelope.

  \<open>triple P m Q E\<close> is a Hoare triple for a handler over the actor's envelope and its directory: from
  \<open>P\<close>, the handler \<open>m\<close> ends in \<open>Q\<close> when it returns a value and in \<open>E\<close> when it returns an error. The
  locale \<open>governed_modules\<close> is what the actor needs of the domain modules (their hooks touch receipts,
  never the numbered decision); with the contract \<open>peer_writer\<close> of the other process that writes the
  envelope it makes up \<open>sound_actor\<close>, in which every handler keeps the invariant \<open>abreast\<close>.
\<close>

section \<open>Envelopes\<close>

definition checked :: "store \<Rightarrow> state_file \<Rightarrow> bool" where
  "checked so s = (check_state (so_printer so) s = Inr ())"

text \<open>The numbered decision of an envelope: everything but receipts and imported text.\<close>

definition numbers :: "state_file \<Rightarrow> u32 \<times> u64 \<times> u64 \<times> (domain, u64) bmap \<times> u64 option" where
  "numbers s = (sf_schema_version s, sf_revision s, ds_revision (sf_document s), sf_domain_revisions s,
     sf_network_commit_revision s)"

definition intent :: "state_file \<Rightarrow> desired_state \<times> u32 \<times> u64 \<times> u64 \<times> (domain, u64) bmap \<times> u64 option" where
  "intent s = (sf_document s, numbers s)"

lemma intent_fields:
  assumes "intent s = intent t"
  shows "sf_revision s = sf_revision t" "sf_document s = sf_document t"
    "sf_domain_revisions s = sf_domain_revisions t" "checked so s = checked so t" "numbers s = numbers t"
  using assms by (auto simp: intent_def numbers_def checked_def envelope_consistent_def split: option.splits)

lemma numbers_fields: "numbers s = numbers t \<Longrightarrow> sf_revision s = sf_revision t"
  by (simp add: numbers_def)

lemma recovers_checked': "recovers so d s \<Longrightarrow> checked so s"
  unfolding checked_def by (rule recovers_checked)

lemma to_vec_storable:
  "encodes so \<Longrightarrow> checked so s \<Longrightarrow> so_to_vec so s = Inr b \<Longrightarrow> storable so s"
  by (simp add: encodes_def checked_def storable_def decode_checked_def del: check_state_ok)

lemma initialize_any:
  assumes "encodes so" "checked so n" "initialize so n d = (r, d')"
  shows "recovers so d s \<Longrightarrow> recovers so d' s \<or> recovers so d' n" "r = Inr () \<Longrightarrow> storable so n"
    "r = Inr () \<Longrightarrow> committed so d s \<Longrightarrow> committed so d' n"
proof -
  have "(\<exists>e. r = Inl e) \<and> d' = d \<or> storable so n"
    using assms to_vec_storable [of so n] by (auto simp: initialize_def split: sum.splits)
  then show "recovers so d s \<Longrightarrow> recovers so d' s \<or> recovers so d' n" "r = Inr () \<Longrightarrow> storable so n"
    "r = Inr () \<Longrightarrow> committed so d s \<Longrightarrow> committed so d' n"
    using initialize_recovers [of so d s n r d'] initialize_committed [of so d s n d'] assms(3) by auto
qed

lemma rollback_any:
  assumes "encodes so" "checked so s" "recovers so d x" "rollback so s d = (r, d')"
  shows "recovers so d' x \<or> recovers so d' s" "r = Inr () \<Longrightarrow> committed so d' s"
proof -
  have "(recovers so d' x \<or> recovers so d' s) \<and> (r = Inr () \<longrightarrow> committed so d' s)"
  proof (cases "so_to_vec so s")
    case (Inl e)
    with assms(3,4) show ?thesis
      by (auto simp: rollback_def seq_io_def initialize_def)
  next
    case (Inr b)
    note st = to_vec_storable [OF assms(1,2) Inr]
    show ?thesis
      using publication.rollback_recov [of so d s x, OF _ st assms(4)]
        publication.rollback_clean [of so d s x, OF _ st assms(4)] assms(3) by auto
  qed
  then show "recovers so d' x \<or> recovers so d' s" "r = Inr () \<Longrightarrow> committed so d' s" by auto
qed

lemma stage_any:
  assumes "encodes so" "checked so s" "checked so n" "committed so d s" "stage so s n d = (r, d')"
  shows "recovers so d' s" "r = Inr () \<Longrightarrow> staged so d' s n"
proof -
  have "recovers so d' s \<and> (r = Inr () \<longrightarrow> staged so d' s n)"
  proof (cases "so_to_vec so s")
    case (Inl e)
    with assms(4,5) show ?thesis
      by (auto simp: stage_def seq_io_def publication.clean_recov)
  next
    case (Inr b)
    note st = to_vec_storable [OF assms(1,2) Inr]
    have "storable so n" if "r = Inr ()"
    proof -
      from that have "\<exists>d0. initialize so n d0 = (Inr (), d')"
        using assms(5) unfolding stage_def by (elim seq_ioE) auto
      then show ?thesis
        using initialize_any(2) [OF assms(1,3)] by blast
    qed
    then show ?thesis
      using publication.stage_recov [OF assms(4) st assms(5)]
        publication.stage_prepared [OF assms(4) st _ assms(5)] by blast
  qed
  then show "recovers so d' s" "r = Inr () \<Longrightarrow> staged so d' s n" by auto
qed

lemma stage_or_undo_any:
  assumes "encodes so" "checked so s" "checked so n" "committed so d s" "stage_or_undo so s n d = (r, d')"
  shows "recovers so d' s" "r = Inr () \<Longrightarrow> staged so d' s n"
proof -
  obtain q d1 where st: "stage so s n d = (q, d1)" by fastforce
  obtain q2 d2 where rb: "rollback so s d1 = (q2, d2)" by fastforce
  note any = stage_any [OF assms(1-4) st]
  show "recovers so d' s" "r = Inr () \<Longrightarrow> staged so d' s n"
    using assms(5) any rollback_any(1) [OF assms(1,2) any(1) rb]
    by (cases q; cases q2; auto simp: stage_or_undo_def st rb)+
qed

lemma commit_staged:
  assumes "staged so d s n" "seq_io (write_file so ''rendered.json'' m) commit d = (r, d')"
  shows "recovers so d' s \<or> recovers so d' n" "r = Inr () \<Longrightarrow> committed so d' n"
proof -
  have "(recovers so d' s \<or> recovers so d' n) \<and> (r = Inr () \<longrightarrow> committed so d' n)"
    using assms(2)
  proof (cases rule: seq_ioE)
    case (1 e)
    with write_file_recovery(1) [OF 1(1), of s] assms(1) show ?thesis
      by (simp add: publication.prepared_recov)
  next
    case (2 d1)
    then have "staged so d1 s n"
      using write_file_recovery(3) [OF 2(1), of s n] assms(1) by simp
    from commit_outcome [OF this 2(2)] show ?thesis
      using publication.clean_recov by blast
  qed
  then show "recovers so d' s \<or> recovers so d' n" "r = Inr () \<Longrightarrow> committed so d' n" by auto
qed

lemma publish_any:
  assumes "encodes so" "staged so d s n" "checked so n'" "publish so (if changed then Some n' else None) m d = (r, d')"
  shows "recovers so d' s \<or> recovers so d' (if changed then n' else n)"
    "r = Inr () \<Longrightarrow> committed so d' (if changed then n' else n)"
proof -
  have "(recovers so d' s \<or> recovers so d' (if changed then n' else n)) \<and>
      (r = Inr () \<longrightarrow> committed so d' (if changed then n' else n))"
  proof (cases changed)
    case True
    with assms(4) have "seq_io (initialize so n') (seq_io (write_file so ''rendered.json'' m) commit) d = (r, d')"
      by (simp add: publish_def)
    then show ?thesis
    proof (cases rule: seq_ioE)
      case (1 e)
      with initialize_staged(1) [OF assms(2) 1(1)] show ?thesis by simp
    next
      case (2 d1)
      have "staged so d1 s n'"
        by (rule initialize_staged(2) [OF assms(2) 2(1) refl initialize_any(2) [OF assms(1,3) 2(1) refl]])
      from commit_staged [OF this 2(2)] True show ?thesis by simp
    qed
  next
    case False
    with assms(4) have "seq_io (write_file so ''rendered.json'' m) commit d = (r, d')"
      by (simp add: publish_def seq_io_def)
    with False commit_staged [OF assms(2), of m r d'] show ?thesis by simp
  qed
  then show "recovers so d' s \<or> recovers so d' (if changed then n' else n)"
    "r = Inr () \<Longrightarrow> committed so d' (if changed then n' else n)" by auto
qed

section \<open>Triples\<close>

definition triple ::
  "(state_file \<Rightarrow> disk \<Rightarrow> bool) \<Rightarrow> ('w, 'a) handler \<Rightarrow> ('a \<Rightarrow> state_file \<Rightarrow> disk \<Rightarrow> bool) \<Rightarrow>
   (state_file \<Rightarrow> disk \<Rightarrow> bool) \<Rightarrow> bool" where
  "triple P m Q E =
     (\<forall>a r a'. P (ac_state a) (ac_disk a) \<longrightarrow> m a = (r, a') \<longrightarrow>
        (case r of Inl _ \<Rightarrow> E (ac_state a') (ac_disk a') | Inr x \<Rightarrow> Q x (ac_state a') (ac_disk a')))"

lemma tripleI:
  assumes "\<And>a r a'. P (ac_state a) (ac_disk a) \<Longrightarrow> m a = (r, a') \<Longrightarrow>
    (case r of Inl _ \<Rightarrow> E (ac_state a') (ac_disk a') | Inr x \<Rightarrow> Q x (ac_state a') (ac_disk a'))"
  shows "triple P m Q E"
  using assms by (simp add: triple_def)

lemma tripleD:
  assumes "triple P m Q E" "P (ac_state a) (ac_disk a)"
  shows "m a = (Inr x, a') \<Longrightarrow> Q x (ac_state a') (ac_disk a')"
    "m a = (Inl e, a') \<Longrightarrow> E (ac_state a') (ac_disk a')"
  using assms unfolding triple_def by (metis sum.case(2)) (metis assms sum.case(1) triple_def)

lemma triple_weaken:
  assumes "triple P' m Q' E'" "\<And>s d. P s d \<Longrightarrow> P' s d" "\<And>x s d. Q' x s d \<Longrightarrow> Q x s d" "\<And>s d. E' s d \<Longrightarrow> E s d"
  shows "triple P m Q E"
proof (rule tripleI)
  fix a r a'
  assume "P (ac_state a) (ac_disk a)" "m a = (r, a')"
  with assms tripleD [OF assms(1), of a] show
    "case r of Inl _ \<Rightarrow> E (ac_state a') (ac_disk a') | Inr x \<Rightarrow> Q x (ac_state a') (ac_disk a')"
    by (cases r) auto
qed

lemma triple_and_then:
  assumes "triple P m Q E" "\<And>x. triple (Q x) (f x) R E"
  shows "triple P (and_then m f) R E"
proof (rule tripleI)
  fix a r a'
  assume P: "P (ac_state a) (ac_disk a)" and run: "and_then m f a = (r, a')"
  obtain q a1 where m: "m a = (q, a1)" by fastforce
  show "case r of Inl _ \<Rightarrow> E (ac_state a') (ac_disk a') | Inr x \<Rightarrow> R x (ac_state a') (ac_disk a')"
  proof (cases q)
    case (Inl e)
    with run m tripleD(2) [OF assms(1) P] show ?thesis by (auto simp: and_then_def)
  next
    case (Inr x)
    with run m have "f x a1 = (r, a')" by (simp add: and_then_def)
    with tripleD [OF assms(2), OF tripleD(1) [OF assms(1) P, OF m [unfolded Inr]]] show ?thesis
      by (cases r) auto
  qed
qed

lemma triple_pure: "(K \<Longrightarrow> triple P m Q E) \<Longrightarrow> triple (\<lambda>s d. P s d \<and> K) m Q E"
  unfolding triple_def by blast

lemma triple_at: "(\<And>s0. triple (\<lambda>s d. P s d \<and> s = s0) m Q E) \<Longrightarrow> triple P m Q E"
  unfolding triple_def by blast

lemma triple_ignore_error: "triple P m (\<lambda>_. Q) Q \<Longrightarrow> triple P (ignore_error m) (\<lambda>_. Q) E"
  unfolding triple_def ignore_error_def by (auto split: sum.splits) (metis prod.collapse sum.exhaust)

lemma triple_give: "(\<And>s d. P s d \<Longrightarrow> Q x s d) \<Longrightarrow> triple P (give x) Q E"
  by (auto simp: triple_def give_def)

lemma triple_refuse: "(\<And>s d. P s d \<Longrightarrow> E s d) \<Longrightarrow> triple P (refuse e) Q E"
  by (auto simp: triple_def refuse_def)

lemma triple_of_result:
  "(\<And>s d x. P s d \<Longrightarrow> r = Inr x \<Longrightarrow> Q x s d) \<Longrightarrow> (\<And>s d. P s d \<Longrightarrow> E s d) \<Longrightarrow> triple P (of_result r) Q E"
  by (auto simp: triple_def of_result_def split: sum.splits)

lemma triple_result_at:
  "(\<And>s d x. P s d \<Longrightarrow> f s = Inr x \<Longrightarrow> Q x s d) \<Longrightarrow> (\<And>s d. P s d \<Longrightarrow> E s d) \<Longrightarrow>
   triple P (\<lambda>a. of_result (f (ac_state a)) a) Q E"
  by (auto simp: triple_def of_result_def split: sum.splits)

lemma triple_on_disk:
  "(\<And>s d r d'. P s d \<Longrightarrow> op d = (r, d') \<Longrightarrow> Q r s d') \<Longrightarrow> triple P (on_disk op) Q E"
  by (auto simp: triple_def on_disk_def split: prod.splits)

lemma triple_on_disk_at:
  "(\<And>s d r d'. P s d \<Longrightarrow> op s d = (r, d') \<Longrightarrow> Q r s d') \<Longrightarrow> triple P (\<lambda>a. on_disk (op (ac_state a)) a) Q E"
  by (auto simp: triple_def on_disk_def split: prod.splits)

lemma triple_on_world: "triple P (on_world op) (\<lambda>_. P) E"
  by (auto simp: triple_def on_world_def split: prod.splits)

lemma triple_on_world_at: "triple P (\<lambda>a. on_world (op (ac_state a)) a) (\<lambda>_. P) E"
  by (auto simp: triple_def on_world_def split: prod.splits)

lemma triple_set_state:
  "(\<And>s d. P s d \<Longrightarrow> Q () n d) \<Longrightarrow> triple P (modify (\<lambda>a. a\<lparr>ac_state := n\<rparr>)) Q E"
  by (auto simp: triple_def modify_def)

text \<open>A handler that touches neither the envelope nor the directory.\<close>

definition silent :: "('w, 'a) handler \<Rightarrow> bool" where
  "silent m = (\<forall>a r a'. m a = (r, a') \<longrightarrow> ac_state a' = ac_state a \<and> ac_disk a' = ac_disk a)"

lemma triple_silent: "silent m \<Longrightarrow> (\<And>s d. P s d \<Longrightarrow> E s d) \<Longrightarrow> triple P m (\<lambda>_. P) E"
  by (force simp: triple_def silent_def split: sum.splits)

lemma triple_each_act:
  assumes "\<And>x. x \<in> set xs \<Longrightarrow> triple P (f x) (\<lambda>_. P) E"
  shows "triple P (each_act f xs) (\<lambda>_. P) E"
  using assms
proof (induction xs)
  case Nil
  show ?case by (simp add: triple_give)
next
  case (Cons x xs)
  show ?case
    by (simp, rule triple_and_then [where Q = "\<lambda>_. P"]) (use Cons in auto)
qed

lemma silent_and_then: "silent m \<Longrightarrow> (\<And>x. silent (f x)) \<Longrightarrow> silent (and_then m f)"
  unfolding silent_def and_then_def
  by (auto split: prod.splits sum.splits)

lemma silent_each_act: "(\<And>x. silent (f x)) \<Longrightarrow> silent (each_act f xs)"
proof (induction xs)
  case Nil
  then show ?case by (simp add: silent_def give_def)
next
  case (Cons x xs)
  then show ?case by (simp add: silent_and_then)
qed

lemma silent_basic [simp]:
  "silent (give x)" "silent (refuse e)" "silent (of_result r)" "silent (on_world op)" "silent (send_event ev)"
  "silent (progress v t u w)" "silent (record_activity c)"
  by (auto simp: silent_def give_def refuse_def of_result_def on_world_def send_event_def progress_def modify_def
      record_activity_def split: prod.splits)

lemma silent_activity: "silent (check_activity req)"
  by (auto simp: silent_def check_activity_def split: option.splits if_splits)

lemma silent_guards: "silent (guards env c)"
  unfolding guards_def
  by (rule silent_each_act) (auto simp: silent_def and_then_def on_world_def of_result_def split: prod.splits if_splits sum.splits)

section \<open>Interfaces\<close>

text \<open>
  The hooks of the domain modules: they may add receipts to an envelope, and a completion may also
  change the document, but no hook renumbers anything.
\<close>

locale governed_modules =
  fixes mods :: "domain \<Rightarrow> 'w domain_module"
  assumes prepare_law: "dm_prepare (mods k) s n c = Inr n' \<Longrightarrow> intent n' = intent n"
    and reservation_law: "dm_reservation (mods k) s n = Some n' \<Longrightarrow> intent n' = intent s"
    and release_law: "intent (dm_release_reservation (mods k) s reason) = intent s"
    and accepted_law: "dm_accepted (mods k) s n c v = Inr (ch, n', v') \<Longrightarrow> intent n' = intent n"
    and completion_law: "dm_completion (mods k) s v = Inr (Some (n, p)) \<Longrightarrow> numbers n = numbers s"
    and completed_law: "dm_completed (mods k) s v = Inr n \<Longrightarrow> intent n = intent s"
begin

lemma prepare_all_intent: "prepare_all mods s c ks n = Inr n' \<Longrightarrow> intent n' = intent n"
  by (induction ks arbitrary: n) (auto simp: result_simps dest!: prepare_law)

lemma accept_all_intent:
  "accept_all mods s c ks ch n v = Inr (ch', n', v') \<Longrightarrow> intent n' = intent n"
  by (induction ks arbitrary: ch n v) (auto simp: result_simps dest!: accepted_law)

lemma prepare_accept_all_intent:
  "prepare_accept_all mods s c ks ch n v = Inr (ch', n', v') \<Longrightarrow> intent n' = intent n"
  by (induction ks arbitrary: ch n v) (auto simp: result_simps dest!: prepare_law accepted_law)

lemma release_all_intent:
  "intent (foldl (\<lambda>s k. dm_release_reservation (mods k) s reason) s ks) = intent s"
  by (induction ks arbitrary: s) (simp_all add: release_law)

end

text \<open>
  An environment whose modules keep the numbering, whose JSON round-trips, which checks documents the
  same way before and after storing them, and whose peer moves forward.
\<close>

locale sound_actor = governed_modules "ae_modules env" + peer_writer "ae_store env" "ae_external env" +
  mid: peer_writer "ae_store env" "ae_interleave env"
  for env :: "'w actor_env" +
  assumes round_trip: "encodes (ae_store env)"
    and one_printer: "so_printer (ae_store env) = pe_printer (ae_planner env)"

section \<open>The stages of a transaction\<close>

text \<open>
  Where a transaction stands, as predicates of the actor's envelope and the directory. \<open>i\<close> and \<open>j\<close> are
  the decisions of the base and of the candidate.
\<close>

definition settled :: "store \<Rightarrow> _ \<Rightarrow> state_file \<Rightarrow> disk \<Rightarrow> bool" where
  "settled so i s d = (intent s = i \<and> checked so s \<and> (\<exists>x. committed so d x \<and> intent x = i))"

definition resting :: "store \<Rightarrow> _ \<Rightarrow> state_file \<Rightarrow> disk \<Rightarrow> bool" where
  "resting so i s d = (intent s = i \<and> checked so s \<and> committed so d s)"

definition in_flight :: "store \<Rightarrow> _ \<Rightarrow> state_file \<Rightarrow> state_file \<Rightarrow> disk \<Rightarrow> bool" where
  "in_flight so i n s d = (intent s = i \<and> checked so s \<and> staged so d s n)"

definition torn :: "store \<Rightarrow> _ \<Rightarrow> _ \<Rightarrow> state_file \<Rightarrow> disk \<Rightarrow> bool" where
  "torn so i j s d =
     (intent s = i \<and> checked so s \<and> (\<exists>x. recovers so d x \<and> (intent x = i \<or> intent x = j)))"

lemma resting_settled: "resting so i s d \<Longrightarrow> settled so i s d"
  by (auto simp: resting_def settled_def)

lemma resting_torn: "resting so i s d \<Longrightarrow> torn so i j s d"
  unfolding resting_def torn_def using publication.clean_recov by blast

lemma settled_torn: "settled so i s d \<Longrightarrow> torn so i j s d"
  unfolding settled_def torn_def using publication.clean_recov by blast

lemma in_flight_torn: "in_flight so i n s d \<Longrightarrow> torn so i j s d"
  unfolding in_flight_def torn_def using publication.prepared_recov by blast

lemma torn_initialize:
  assumes "encodes so" "torn so i j s d" "intent n = i" "initialize so n d = (r, d')"
  shows "torn so i j s d'"
proof -
  obtain x where x: "recovers so d x" "intent x = i \<or> intent x = j" and s: "intent s = i" "checked so s"
    using assms(2) by (auto simp: torn_def)
  have "checked so n"
    using s assms(3) intent_fields(4) by metis
  from initialize_any(1) [OF assms(1) this assms(4) x(1)] x(2) s assms(3) show ?thesis
    by (auto simp: torn_def)
qed

text \<open>Writing a receipt of the same decision.\<close>

lemma triple_store_receipt:
  assumes "encodes so" "intent n = i"
  shows "triple (resting so i)
      (and_then (on_disk (initialize so n)) (\<lambda>r. case r of Inl e \<Rightarrow> refuse (Internal e)
         | Inr _ \<Rightarrow> modify (\<lambda>a. a\<lparr>ac_state := n\<rparr>)))
      (\<lambda>_. resting so i) (torn so i j)" (is ?A)
    and "triple (torn so i j)
      (and_then (on_disk (initialize so n)) (\<lambda>r. case r of Inl e \<Rightarrow> refuse (Internal e)
         | Inr _ \<Rightarrow> modify (\<lambda>a. a\<lparr>ac_state := n\<rparr>)))
      (\<lambda>_. torn so i j) (torn so i j)" (is ?B)
proof -
  have good: "checked so n" if "intent s = i" "checked so s" for s
    using that assms(2) intent_fields(4) by metis
  show ?A
  proof (rule triple_and_then [where Q = "\<lambda>r s d. torn so i j s d \<and> (r = Inr () \<longrightarrow> committed so d n \<and> checked so n)"])
    show "triple (resting so i) (on_disk (initialize so n))
        (\<lambda>r s d. torn so i j s d \<and> (r = Inr () \<longrightarrow> committed so d n \<and> checked so n)) (torn so i j)"
    proof (rule triple_on_disk, intro conjI impI)
      fix s d r d'
      assume P: "resting so i s d" and run: "initialize so n d = (r, d')"
      show "torn so i j s d'"
        by (rule torn_initialize [OF assms(1) resting_torn [OF P] assms(2) run])
      show n: "checked so n"
        using P good by (auto simp: resting_def)
      assume "r = Inr ()"
      then show "committed so d' n"
        using initialize_any(3) [OF assms(1) n run] P by (auto simp: resting_def)
    qed
    show "triple (\<lambda>s d. torn so i j s d \<and> (r = Inr () \<longrightarrow> committed so d n \<and> checked so n))
        (case r of Inl e \<Rightarrow> refuse (Internal e) | Inr _ \<Rightarrow> modify (\<lambda>a. a\<lparr>ac_state := n\<rparr>))
        (\<lambda>_. resting so i) (torn so i j)" for r
      by (cases r) (auto intro!: triple_refuse triple_set_state simp: resting_def assms(2))
  qed
  show ?B
  proof (rule triple_and_then [where Q = "\<lambda>r. torn so i j"])
    show "triple (torn so i j) (on_disk (initialize so n)) (\<lambda>r. torn so i j) (torn so i j)"
      using torn_initialize [OF assms(1) _ assms(2)] by (intro triple_on_disk) auto
    show "triple (torn so i j) (case r of Inl e \<Rightarrow> refuse (Internal e) | Inr _ \<Rightarrow> modify (\<lambda>a. a\<lparr>ac_state := n\<rparr>))
        (\<lambda>_. torn so i j) (torn so i j)" for r
      using assms(2) good
      by (cases r) (auto intro!: triple_refuse triple_set_state simp: torn_def)
  qed
qed

section \<open>Reservation and restore\<close>

context sound_actor
begin

abbreviation so where "so \<equiv> ae_store env"

lemma triple_reserve: "triple (resting so i) (reserve env next' p) (\<lambda>_. resting so i) (torn so i j)"
  unfolding reserve_def
proof (rule triple_each_act)
  fix k
  show "triple (resting so i) (\<lambda>a. case dm_reservation (ae_modules env k) (ac_state a) next' of
      None \<Rightarrow> (Inr (), a)
    | Some reserved \<Rightarrow> and_then (on_disk (initialize so reserved)) (\<lambda>r.
        case r of Inl e \<Rightarrow> refuse (Internal e) | Inr _ \<Rightarrow> modify (\<lambda>a. a\<lparr>ac_state := reserved\<rparr>)) a)
    (\<lambda>_. resting so i) (torn so i j)"
  proof (rule tripleI)
    fix a r a'
    assume P: "resting so i (ac_state a) (ac_disk a)"
      and run: "(case dm_reservation (ae_modules env k) (ac_state a) next' of
        None \<Rightarrow> (Inr (), a)
      | Some reserved \<Rightarrow> and_then (on_disk (initialize so reserved)) (\<lambda>r.
          case r of Inl e \<Rightarrow> refuse (Internal e) | Inr _ \<Rightarrow> modify (\<lambda>a. a\<lparr>ac_state := reserved\<rparr>)) a) = (r, a')"
    show "case r of Inl _ \<Rightarrow> torn so i j (ac_state a') (ac_disk a')
        | Inr _ \<Rightarrow> resting so i (ac_state a') (ac_disk a')"
    proof (cases "dm_reservation (ae_modules env k) (ac_state a) next'")
      case None
      with P run show ?thesis by auto
    next
      case (Some n)
      then have n: "intent n = i"
        using reservation_law P by (auto simp: resting_def)
      from tripleD [OF triple_store_receipt(1) [OF round_trip n, of j] P] run Some show ?thesis
        by (cases r) auto
    qed
  qed
qed

lemma triple_release:
  "triple (torn so i j) (release_reservation env p reason) (\<lambda>_. torn so i j) (torn so i j)"
proof (rule tripleI)
  fix a r a'
  assume P: "torn so i j (ac_state a) (ac_disk a)" and run: "release_reservation env p reason a = (r, a')"
  let ?n = "foldl (\<lambda>s k. dm_release_reservation (ae_modules env k) s reason) (ac_state a) (pp_domains p)"
  show "case r of Inl _ \<Rightarrow> torn so i j (ac_state a') (ac_disk a') | Inr _ \<Rightarrow> torn so i j (ac_state a') (ac_disk a')"
  proof (cases "?n = ac_state a")
    case True
    with P run show ?thesis by (auto simp: release_reservation_def)
  next
    case False
    have n: "intent ?n = i"
      using release_all_intent P by (simp add: torn_def)
    show ?thesis
      using tripleD [OF triple_store_receipt(2) [OF round_trip n, of j] P] run False
      by (cases r) (auto simp: release_reservation_def Let_def)
  qed
qed

lemma triple_rollback:
  "triple (torn so i j) (\<lambda>a. on_disk (rollback so (ac_state a)) a)
     (\<lambda>r s d. torn so i j s d \<and> (r = Inr () \<longrightarrow> resting so i s d)) (torn so i j)"
proof (rule triple_on_disk_at)
  fix s d r d'
  assume "torn so i j s d" and run: "rollback so s d = (r, d')"
  then obtain x where x: "intent s = i" "checked so s" "recovers so d x" "intent x = i \<or> intent x = j"
    by (auto simp: torn_def)
  from rollback_any [OF round_trip x(2,3) run] x show "torn so i j s d' \<and> (r = Inr () \<longrightarrow> resting so i s d')"
    by (auto simp: torn_def resting_def)
qed

lemma triple_render_restored:
  "triple (resting so i) (render_restored env detail) (\<lambda>_. resting so i) (torn so i j)"
proof (rule tripleI)
  fix a r a'
  assume P: "resting so i (ac_state a) (ac_disk a)" and run: "render_restored env detail a = (r, a')"
  have "ac_state a' = ac_state a \<and> (ac_disk a' = ac_disk a \<or>
      (\<exists>b q. write_file so ''rendered.json'' b (ac_disk a) = (q, ac_disk a')))"
    using run by (auto simp: render_restored_def split: prod.splits sum.splits)
  then have "resting so i (ac_state a') (ac_disk a')"
    using P write_file_recovery(2) [of so "''rendered.json''" _ "ac_disk a" _ "ac_disk a'"]
    by (auto simp: resting_def)
  then show "case r of Inl _ \<Rightarrow> torn so i j (ac_state a') (ac_disk a') | Inr _ \<Rightarrow> resting so i (ac_state a') (ac_disk a')"
    by (auto intro: resting_torn split: sum.splits)
qed

lemma triple_restore_effects:
  "triple (resting so i) (restore_effects env p reason) (\<lambda>_. resting so i) (torn so i j)"
  unfolding restore_effects_def
  by (intro triple_and_then [OF triple_on_world_at] triple_and_then [OF triple_render_restored]
      triple_silent silent_and_then silent_each_act resting_torn)
     (auto simp: silent_def modify_def progress_def send_event_def give_def)

lemma triple_restore: "triple (torn so i j) (restore env p reason) (\<lambda>_. resting so i) (torn so i j)"
  unfolding restore_def
proof (rule triple_and_then [OF triple_release], rule triple_and_then [OF triple_rollback])
  show "triple (\<lambda>s d. torn so i j s d \<and> (r = Inr () \<longrightarrow> resting so i s d))
     (case r of Inl e \<Rightarrow> refuse (Internal e) | Inr _ \<Rightarrow> restore_effects env p reason)
     (\<lambda>_. resting so i) (torn so i j)" for r :: "string + unit"
    by (cases r) (auto intro: triple_refuse triple_weaken [OF triple_restore_effects])
qed

end

section \<open>Durable transactions\<close>

lemma next_revision_forward:
  assumes "next_revision r = Inr n"
  shows "n = r + 1" "unat n = unat r + 1" "r < n" "n \<le> MAX_REVISION"
  using assms checked_add_Some [of r 1 n]
  by (auto simp: next_revision_def word_less_nat_alt split: option.splits if_splits)

lemma bt_insert_values: "set (bt_values (bt_insert k v m)) \<subseteq> insert v (set (bt_values m))"
  by (induction k v m rule: bt_insert.induct) (auto simp: bt_values_def)

lemma numbered_values:
  fixes r :: u64
  shows "list_all (\<lambda>v. v \<le> r) (bt_values m) \<Longrightarrow>
   list_all (\<lambda>v. v \<le> r) (bt_values (foldl (\<lambda>m k. bt_insert k r m) m ks))"
proof (induction ks arbitrary: m)
  case (Cons k ks)
  have "list_all (\<lambda>v. v \<le> r) (bt_values (bt_insert k r m))"
    unfolding list_all_iff
  proof
    fix v
    assume "v \<in> set (bt_values (bt_insert k r m))"
    then have "v = r \<or> v \<in> set (bt_values m)" using bt_insert_values [of k r m] by blast
    with Cons.prems show "v \<le> r" by (auto simp: list_all_iff)
  qed
  with Cons.IH show ?case by simp
qed simp

text \<open>An unnumbered candidate on top of an envelope.\<close>

definition candidate :: "store \<Rightarrow> state_file \<Rightarrow> state_file \<Rightarrow> bool" where
  "candidate so s n =
     (sf_schema_version n = sf_schema_version s \<and> sf_domain_revisions n = sf_domain_revisions s \<and>
      sf_network_commit_revision n = sf_network_commit_revision s \<and>
      validate (so_printer so) (sf_document n) = Inr ())"

lemma number_candidate_checked:
  assumes "checked so s" "candidate so s n" "next_revision (sf_revision s) = Inr r"
  shows "checked so (number_candidate r ks n)"
proof -
  have le: "sf_revision s \<le> r"
    using next_revision_forward(3) [OF assms(3)] by simp
  have "list_all (\<lambda>v. v \<le> r) (bt_values (sf_domain_revisions n))"
    using assms(1,2) le by (auto simp: checked_def envelope_consistent_def candidate_def list_all_iff)
  moreover have "case sf_network_commit_revision n of None \<Rightarrow> True | Some v \<Rightarrow> v \<le> r"
    using assms(1,2) le by (auto simp: checked_def envelope_consistent_def candidate_def split: option.splits)
  ultimately show ?thesis
    using assms(1,2) numbered_values
    by (simp add: checked_def candidate_def envelope_consistent_def number_candidate_def cong: option.case_cong)
qed

lemma numbered_domain_revision:
  "domain_revision (number_candidate r ks n) k = (if k \<in> set ks then r else domain_revision n k)"
proof -
  have "bt_get (foldl (\<lambda>m k. bt_insert k r m) m ks) k = (if k \<in> set ks then Some r else bt_get m k)" for m
    by (induction ks arbitrary: m) (auto simp: bt_get_insert)
  then show ?thesis
    by (simp add: domain_revision_def number_candidate_def)
qed

lemma submission_revision [simp]: "rp_revision (su_reply (submission_of s report owner v)) = sf_revision s"
  by (simp add: submission_of_def)

context sound_actor
begin

lemma triple_durable_failed:
  "triple (torn so i j) (durable_failed env owner p error) (\<lambda>_ _ _. False) (torn so i j)"
  unfolding durable_failed_def
proof (rule triple_and_then [OF triple_restore])
  show "triple (resting so i) (if restored \<noteq> error_text error then refuse (ApplyFailed owner ''rollback'' restored)
      else and_then (only_if (case error of ConfirmationRequired _ \<Rightarrow> True | _ \<Rightarrow> False)
              (modify (\<lambda>a. a\<lparr>ac_failed := fold bt_remove (pp_domains p) (ac_failed a)\<rparr>))) (\<lambda>_. refuse error))
      (\<lambda>_ _ _. False) (torn so i j)" for restored
    by (auto simp: triple_def refuse_def and_then_def only_if_def modify_def give_def
        intro: resting_torn split: api_error.splits)
qed

lemma triple_committed_report:
  "triple (settled so j) (committed_report env c o' p v)
     (\<lambda>su s d. settled so j s d \<and> rp_revision (su_reply su) = sf_revision s) E"
  by (auto simp: triple_def committed_report_def and_then_def modify_def Let_def)

lemma triple_commit_durable:
  assumes "checked so n" "intent n = j" "intent n' = j"
  shows "triple (in_flight so i n) (commit_durable env c o' owner p bytes (changed, n', v))
     (\<lambda>su s d. settled so j s d \<and> rp_revision (su_reply su) = sf_revision s) (torn so i j)"
  unfolding commit_durable_def prod.case
proof (rule triple_and_then)
  have c: "checked so n'"
    using assms intent_fields(4) by metis
  let ?Q = "\<lambda>r s d. torn so i j s d \<and> (r = Inr () \<longrightarrow> (\<exists>x. committed so d x \<and> intent x = j))"
  show "triple (in_flight so i n) (on_disk (publish so (if changed then Some n' else None) bytes)) ?Q (torn so i j)"
  proof (rule triple_on_disk)
    fix s d r d'
    assume P: "in_flight so i n s d" and run: "publish so (if changed then Some n' else None) bytes d = (r, d')"
    have st: "staged so d s n" using P by (simp add: in_flight_def)
    have "intent (if changed then n' else n) = j" using assms by simp
    with publish_any [OF round_trip st c run] P show "?Q r s d'"
      unfolding torn_def in_flight_def by blast
  qed
  show "triple (?Q r)
      (case r of Inl reason \<Rightarrow> and_then (restore env p reason) (\<lambda>detail. refuse (ApplyFailed owner ''commit'' detail))
       | Inr _ \<Rightarrow> and_then (modify (\<lambda>a. a\<lparr>ac_state := n'\<rparr>)) (\<lambda>_. committed_report env c o' p v))
      (\<lambda>su s d. settled so j s d \<and> rp_revision (su_reply su) = sf_revision s) (torn so i j)" for r
  proof (cases r)
    case (Inl reason)
    have "triple (torn so i j) (and_then (restore env p reason) (\<lambda>detail. refuse (ApplyFailed owner ''commit'' detail)))
      (\<lambda>su s d. settled so j s d \<and> rp_revision (su_reply su) = sf_revision s) (torn so i j)"
      by (rule triple_and_then [OF triple_restore]) (auto intro: triple_refuse resting_torn)
    with Inl show ?thesis
      by (auto elim: triple_weaken)
  next
    case (Inr u)
    show ?thesis
      unfolding Inr sum.case
      by (rule triple_and_then [OF triple_set_state triple_committed_report])
         (use assms(3) c in \<open>auto simp: settled_def\<close>)
  qed
qed

lemma triple_finish_durable:
  assumes "checked so n" "intent n = j"
  shows "triple (in_flight so i n) (finish_durable env c o' owner p n fallback value)
     (\<lambda>su s d. settled so j s d \<and> rp_revision (su_reply su) = sf_revision s) (torn so i j)"
proof -
  have commit: "triple (\<lambda>s d. in_flight so i n s d \<and> intent (fst (snd x)) = j) (commit_durable env c o' owner p bytes x)
      (\<lambda>su s d. settled so j s d \<and> rp_revision (su_reply su) = sf_revision s) (torn so i j)" for x bytes
    by (cases x, simp only: fst_conv snd_conv) (rule triple_pure, rule triple_commit_durable [OF assms])
  show ?thesis
    unfolding finish_durable_def Let_def case_prod_beta
    by (rule triple_and_then [OF triple_of_result [where Q = "\<lambda>_. in_flight so i n"]
          triple_and_then [OF triple_result_at commit]])
       (auto dest!: accept_all_intent simp: assms(2) intro: in_flight_torn)
qed

lemma silent_preflight: "silent (preflight env owner n p)"
  unfolding preflight_def silent_def and_then_def on_world_def
  by (auto simp: refuse_def give_def split: prod.splits sum.splits)

lemma silent_assets: "silent (validate_assets_all mods doc ks)"
  unfolding validate_assets_all_def by (rule silent_each_act) simp

lemma triple_stage:
  assumes "checked so n" "intent n = j"
  shows "triple (resting so i) (\<lambda>a. on_disk (stage_or_undo so (ac_state a) n) a)
     (\<lambda>r s d. torn so i j s d \<and> (r = Inr () \<longrightarrow> in_flight so i n s d)) (torn so i j)"
proof (rule triple_on_disk_at)
  fix s d r d'
  assume P: "resting so i s d" and run: "stage_or_undo so s n d = (r, d')"
  have c: "checked so s" "committed so d s" using P by (simp_all add: resting_def)
  from stage_or_undo_any [OF round_trip c(1) assms(1) c(2) run] P
  show "torn so i j s d' \<and> (r = Inr () \<longrightarrow> in_flight so i n s d')"
    by (auto simp: torn_def in_flight_def resting_def)
qed

lemma triple_apply_durable:
  assumes "checked so n" "intent n = j"
  shows "triple (in_flight so i n) (apply_durable env c o' owner p n fallback)
     (\<lambda>su s d. settled so j s d \<and> rp_revision (su_reply su) = sf_revision s) (torn so i j)"
proof -
  have "triple (in_flight so i n)
      (case r of Inl error \<Rightarrow> durable_failed env owner p error
       | Inr value \<Rightarrow> finish_durable env c o' owner p n fallback value)
      (\<lambda>su s d. settled so j s d \<and> rp_revision (su_reply su) = sf_revision s) (torn so i j)" for r
    by (cases r) (auto intro: triple_finish_durable [OF assms] triple_weaken [OF triple_durable_failed] in_flight_torn)
  then show ?thesis
    unfolding apply_durable_def
    by (intro triple_and_then [OF triple_silent] triple_and_then [OF triple_on_world])
       (auto intro: silent_each_act in_flight_torn)
qed

lemma triple_stage_durable:
  assumes "checked so n" "intent n = j"
  shows "triple (resting so i) (stage_durable env c o' owner p n)
     (\<lambda>su s d. settled so j s d \<and> rp_revision (su_reply su) = sf_revision s) (torn so i j)"
proof -
  have staged: "triple (\<lambda>s d. torn so i j s d \<and> (r = Inr () \<longrightarrow> in_flight so i n s d))
      (case r of Inl e \<Rightarrow> refuse (Internal e) | Inr _ \<Rightarrow> apply_durable env c o' owner p n fallback)
      (\<lambda>su s d. settled so j s d \<and> rp_revision (su_reply su) = sf_revision s) (torn so i j)" for r fallback
    by (cases r) (auto intro: triple_refuse triple_weaken [OF triple_apply_durable [OF assms]])
  note quiet = triple_and_then [OF triple_silent [where P = "resting so i"]]
  show ?thesis
    unfolding stage_durable_def
    by (rule quiet, simp, erule resting_torn, rule quiet, rule silent_assets, erule resting_torn,
        rule quiet, rule silent_preflight, erule resting_torn, rule triple_and_then [OF triple_reserve],
        rule triple_and_then [OF triple_stage [OF assms] staged])
qed

lemma triple_run_durable:
  assumes "candidate so s0 next0" "checked so s0" "next_revision (sf_revision s0) = Inr r"
    and j: "j = intent (number_candidate r (pp_domains p) next0)"
  shows "triple (resting so (intent s0)) (run_durable env c o' next0 p)
     (\<lambda>su s d. settled so j s d \<and> rp_revision (su_reply su) = sf_revision s) (torn so (intent s0) j)"
proof -
  let ?i = "intent s0"
  have rev: "sf_revision s = sf_revision s0" if "resting so ?i s d" for s d
    using that intent_fields(1) [of s s0] by (simp add: resting_def)
  have "triple (\<lambda>s d. resting so ?i s d \<and> v = r)
      (stage_durable env c o' owner p (number_candidate v (pp_domains p) next0))
      (\<lambda>su s d. settled so j s d \<and> rp_revision (su_reply su) = sf_revision s) (torn so ?i j)" for v owner
    by (rule triple_pure) (simp add: triple_stage_durable number_candidate_checked [OF assms(2,1,3)] j)
  then show ?thesis
    unfolding run_durable_def
    by (intro triple_and_then [OF triple_of_result [where Q = "\<lambda>_. resting so ?i"]]
          triple_and_then [OF triple_result_at [where Q = "\<lambda>v s d. resting so ?i s d \<and> v = r"]])
       (auto simp: rev assms(3) intro: resting_torn)
qed

end

section \<open>The invariant between turns\<close>

text \<open>
  The actor's envelope passes the check, is at revision \<open>r\<close> or later, and what the directory recovers
  is not older than it. \<open>fresh\<close> is the state after a refresh: the directory holds the same envelope.
\<close>

definition abreast :: "store \<Rightarrow> u64 \<Rightarrow> state_file \<Rightarrow> disk \<Rightarrow> bool" where
  "abreast so r s d =
     (checked so s \<and> r \<le> sf_revision s \<and> (\<exists>x. recovers so d x \<and> sf_revision s \<le> sf_revision x))"

definition fresh :: "store \<Rightarrow> u64 \<Rightarrow> state_file \<Rightarrow> disk \<Rightarrow> bool" where
  "fresh so r s d = (checked so s \<and> r \<le> sf_revision s \<and> committed so d s)"

definition at_least :: "store \<Rightarrow> u64 \<Rightarrow> disk \<Rightarrow> bool" where
  "at_least so k d = (\<exists>x. recovers so d x \<and> k \<le> sf_revision x)"

lemma fresh_abreast: "fresh so r s d \<Longrightarrow> abreast so r s d"
  unfolding fresh_def abreast_def using publication.clean_recov by blast

lemma fresh_resting: "fresh so r s d \<longleftrightarrow> resting so (intent s) s d \<and> r \<le> sf_revision s"
  by (auto simp: fresh_def resting_def)

lemma torn_abreast:
  assumes "torn so (intent s0) j s d" "r \<le> sf_revision s0" "j = intent n" "sf_revision s0 \<le> sf_revision n"
  shows "abreast so r s d"
proof -
  obtain x where x: "intent s = intent s0" "checked so s" "recovers so d x"
    "intent x = intent s0 \<or> intent x = intent n"
    using assms(1,3) by (auto simp: torn_def)
  have "sf_revision s = sf_revision s0" "sf_revision s0 \<le> sf_revision x"
    using x(1,4) assms(4) intent_fields(1) [of s s0] intent_fields(1) [of x s0] intent_fields(1) [of x n] by auto
  with x assms(2) show ?thesis by (auto simp: abreast_def)
qed

lemma settled_abreast:
  assumes "settled so (intent n) s d" "r \<le> sf_revision n"
  shows "abreast so r s d"
proof -
  obtain x where x: "intent s = intent n" "checked so s" "committed so d x" "intent x = intent n"
    using assms(1) by (auto simp: settled_def)
  with assms(2) publication.clean_recov [OF x(3)] intent_fields(1) [of s n] intent_fields(1) [of x n]
  show ?thesis by (auto simp: abreast_def)
qed

lemma lift_torn:
  assumes "\<And>i j. triple (torn so i j) m (\<lambda>_. torn so i j) (torn so i j)"
  shows "triple (abreast so r) m (\<lambda>_. abreast so r) (abreast so r)"
proof (rule tripleI)
  fix a q a'
  assume P: "abreast so r (ac_state a) (ac_disk a)" and run: "m a = (q, a')"
  then obtain x where x: "recovers so (ac_disk a) x" "sf_revision (ac_state a) \<le> sf_revision x"
    by (auto simp: abreast_def)
  with P have "torn so (intent (ac_state a)) (intent x) (ac_state a) (ac_disk a)"
    by (auto simp: abreast_def torn_def)
  from tripleD [OF assms this] run have "torn so (intent (ac_state a)) (intent x) (ac_state a') (ac_disk a')"
    by (cases q) auto
  then have "abreast so r (ac_state a') (ac_disk a')"
    by (rule torn_abreast) (use P x in \<open>auto simp: abreast_def\<close>)
  then show "case q of Inl _ \<Rightarrow> abreast so r (ac_state a') (ac_disk a')
      | Inr _ \<Rightarrow> abreast so r (ac_state a') (ac_disk a')"
    by (cases q) auto
qed

lemma lift_resting:
  assumes "\<And>i. triple (resting so i) m (\<lambda>_. resting so i) (torn so i i)"
  shows "triple (fresh so r) m (\<lambda>_. fresh so r) (abreast so r)"
proof (rule tripleI)
  fix a q a'
  assume P: "fresh so r (ac_state a) (ac_disk a)" and run: "m a = (q, a')"
  let ?i = "intent (ac_state a)"
  have pre: "resting so ?i (ac_state a) (ac_disk a)"
    using P by (simp add: fresh_resting)
  show "case q of Inl _ \<Rightarrow> abreast so r (ac_state a') (ac_disk a') | Inr _ \<Rightarrow> fresh so r (ac_state a') (ac_disk a')"
  proof (cases q)
    case (Inl e)
    with tripleD(2) [OF assms pre] run have "torn so ?i ?i (ac_state a') (ac_disk a')" by simp
    then have "abreast so r (ac_state a') (ac_disk a')"
      by (rule torn_abreast) (use P in \<open>auto simp: fresh_def\<close>)
    with Inl show ?thesis by simp
  next
    case (Inr x)
    with tripleD(1) [OF assms pre] run have rest: "resting so ?i (ac_state a') (ac_disk a')" by simp
    then have "sf_revision (ac_state a') = sf_revision (ac_state a)"
      by (intro intent_fields(1)) (simp add: resting_def)
    with Inr P rest show ?thesis by (auto simp: fresh_def resting_def)
  qed
qed

section \<open>Refresh\<close>

lemma io_id_entry: "io_op (\<lambda>d. d) (\<lambda>n d. d) d = (q, d') \<Longrightarrow> entry d' f = entry d f"
  by (auto simp: io_op_def split: if_splits list.splits io_outcome.splits)

context sound_actor
begin

lemma triple_take_lock:
  "triple (\<lambda>s d. P s \<and> at_least so k d) (take_lock env) (\<lambda>_ s d. P s \<and> at_least so k d) (\<lambda>s d. P s \<and> at_least so k d)"
proof (rule tripleI)
  fix a q a'
  assume P: "P (ac_state a) \<and> at_least so k (ac_disk a)" and run: "take_lock env a = (q, a')"
  then obtain x where x: "recovers so (ac_disk a) x" "k \<le> sf_revision x"
    by (auto simp: at_least_def)
  obtain x' where x': "recovers so (ae_external env (ac_world a) (ac_disk a)) x'" "sf_revision x \<le> sf_revision x'"
    using forward [OF round_trip x(1)] by blast
  obtain e d' where io: "io_op (\<lambda>d. d) (\<lambda>n d. d) (ae_external env (ac_world a) (ac_disk a)) = (e, d')"
    by fastforce
  have a': "ac_state a' = ac_state a" "ac_disk a' = d'"
    using run io by (auto simp: take_lock_def split: sum.splits)
  have "recovers so d' x'"
    using x'(1) recovers_same [of d', OF io_id_entry [OF io]] by simp
  then have "P (ac_state a') \<and> at_least so k (ac_disk a')"
    using P x(2) x'(2) a' by (auto simp: at_least_def intro: order_trans)
  then show "case q of Inl _ \<Rightarrow> P (ac_state a') \<and> at_least so k (ac_disk a')
      | Inr _ \<Rightarrow> P (ac_state a') \<and> at_least so k (ac_disk a')"
    by (cases q) auto
qed

lemma triple_load:
  "triple (\<lambda>s d. P s \<and> at_least so k d) (on_disk (load so))
     (\<lambda>q s d. P s \<and> at_least so k d \<and> (\<forall>y. q = Inr y \<longrightarrow> (\<exists>x. y = Some x \<and> fresh so k x d))) E"
proof (rule triple_on_disk)
  fix s d q d'
  assume P: "P s \<and> at_least so k d" and run: "load so d = (q, d')"
  then obtain x where x: "recovers so d x" "k \<le> sf_revision x"
    by (auto simp: at_least_def)
  note kept = load_keeps [OF x(1) run]
  have "\<exists>z. y = Some z \<and> fresh so k z d'" if "q = Inr y" for y
    using that kept(2) [of y] load_sound(2) [of so d x d'] run recovers_checked' [OF x(1)] x(2)
    by (auto simp: fresh_def)
  with P kept(1) x(2) show "P s \<and> at_least so k d' \<and> (\<forall>y. q = Inr y \<longrightarrow> (\<exists>x. y = Some x \<and> fresh so k x d'))"
    by (auto simp: at_least_def)
qed

lemma adopt_effect:
  assumes "adopt env x a = (q, a')"
  shows "ac_disk a' = ac_disk a" "ac_state a' = x \<or> (ac_state a' = ac_state a \<and> (\<exists>e. q = Inl e))"
proof -
  have "ac_disk a' = ac_disk a \<and> (ac_state a' = x \<or> (ac_state a' = ac_state a \<and> (\<exists>e. q = Inl e)))"
  proof (cases "x = ac_state a")
    case True
    with assms show ?thesis by (auto simp: adopt_def)
  next
    case False
    with assms show ?thesis
      by (auto simp: adopt_def and_then_def of_result_def modify_def send_event_def give_def
          split: sum.splits prod.splits if_splits)
  qed
  then show "ac_disk a' = ac_disk a" "ac_state a' = x \<or> (ac_state a' = ac_state a \<and> (\<exists>e. q = Inl e))" by auto
qed

text \<open>After a refresh the actor holds what the directory recovered, however old its own envelope was.\<close>

lemma triple_catch_up:
  "triple (\<lambda>s d. P s \<and> at_least so k d) (refresh env) (\<lambda>_. fresh so k)
     (\<lambda>s d. P s \<and> at_least so k d \<or> fresh so k s d)"
proof -
  have "triple (\<lambda>s d. P s \<and> at_least so k d \<and> (\<forall>y. q = Inr y \<longrightarrow> (\<exists>x. y = Some x \<and> fresh so k x d)))
      (case q of Inl e \<Rightarrow> refuse (Internal e) | Inr None \<Rightarrow> give () | Inr (Some s) \<Rightarrow> adopt env s)
      (\<lambda>_. fresh so k) (\<lambda>s d. P s \<and> at_least so k d \<or> fresh so k s d)" for q
  proof (cases q)
    case (Inl e)
    then show ?thesis by (auto intro: triple_refuse)
  next
    case (Inr y)
    show ?thesis
    proof (cases y)
      case None
      with Inr show ?thesis by (auto intro: triple_give)
    next
      case (Some x)
      show ?thesis
        unfolding Inr Some sum.case option.case
      proof (rule tripleI)
        fix a q a'
        assume "P (ac_state a) \<and> at_least so k (ac_disk a) \<and>
            (\<forall>y. Inr (Some x) = Inr y \<longrightarrow> (\<exists>x. y = Some x \<and> fresh so k x (ac_disk a)))"
          and "adopt env x a = (q, a')"
        then show "case q of Inl _ \<Rightarrow> P (ac_state a') \<and> at_least so k (ac_disk a') \<or> fresh so k (ac_state a') (ac_disk a')
            | Inr _ \<Rightarrow> fresh so k (ac_state a') (ac_disk a')"
          using adopt_effect [of x a q a'] by (cases q) auto
      qed
    qed
  qed
  note found = this
  have lock: "triple (\<lambda>s d. P s \<and> at_least so k d) (take_lock env) (\<lambda>_ s d. P s \<and> at_least so k d)
      (\<lambda>s d. P s \<and> at_least so k d \<or> fresh so k s d)"
    by (rule triple_weaken [OF triple_take_lock]) auto
  show ?thesis
    unfolding refresh_def by (rule triple_and_then [OF lock triple_and_then [OF triple_load found]])
qed

lemma triple_refresh: "triple (abreast so r) (refresh env) (\<lambda>_. fresh so r) (abreast so r)"
proof (rule triple_at)
  fix s0
  let ?P = "\<lambda>s. checked so s \<and> r \<le> sf_revision s \<and> s = s0"
  show "triple (\<lambda>s d. abreast so r s d \<and> s = s0) (refresh env) (\<lambda>_. fresh so r) (abreast so r)"
  proof (cases "r \<le> sf_revision s0")
    case True
    show ?thesis
      by (rule triple_weaken [OF triple_catch_up [of ?P "sf_revision s0"]])
         (use True in \<open>auto simp: abreast_def at_least_def fresh_def intro: publication.clean_recov\<close>)
  next
    case False
    then show ?thesis by (auto simp: triple_def abreast_def)
  qed
qed

lemma triple_refresh_again: "triple (fresh so r) (refresh env) (\<lambda>_. fresh so r) (abreast so r)"
  by (rule triple_weaken [OF triple_refresh]) (auto intro: fresh_abreast)

lemma triple_replay: "triple (abreast so r) (replay env) (\<lambda>_. abreast so r) (abreast so r)"
  unfolding replay_def
proof (rule triple_and_then [OF triple_refresh], rule triple_weaken [OF triple_silent])
  show "silent (\<lambda>a. case ap_replay (ae_applier env) (ac_state a) (ac_world a) of
          (Inr _, w) \<Rightarrow>
            (Inr (), a\<lparr>ac_world := w, ac_failed := fold bt_remove (ac_replay_failed a) (ac_failed a),
                       ac_replay_failed := []\<rparr>)
        | (Inl e, w) \<Rightarrow>
            (Inl e,
             (case e of
                ApplyFailed d _ _ \<Rightarrow>
                  a\<lparr>ac_world := w, ac_failed := bt_insert d (error_text e) (ac_failed a),
                    ac_replay_failed := insert_sorted d (ac_replay_failed a)\<rparr>
              | _ \<Rightarrow> a\<lparr>ac_world := w\<rparr>)))"
    by (auto simp: silent_def split: prod.splits sum.splits api_error.splits)
qed (auto intro: fresh_abreast)

end

section \<open>Submit\<close>

lemma triple_param: "(\<And>a0. triple P (H a0) Q E) \<Longrightarrow> triple P (\<lambda>a. H a a) Q E"
  unfolding triple_def by blast

lemma silent_only_if: "silent m \<Longrightarrow> silent (only_if b m)"
  by (simp add: only_if_def)

lemma silent_read: "(\<And>s. silent (m s)) \<Longrightarrow> silent (\<lambda>a. m (ac_state a) a)"
  unfolding silent_def by blast

lemma decide_result:
  assumes "decide env req o' cas s = Inr (n, p)"
  obtains doc where "n = s\<lparr>sf_document := doc\<rparr>" "validate (pe_printer (ae_planner env)) doc = Inr ()"
    "reduce (pe_printer (ae_planner env)) (ae_modules env) (sf_document s) (cr_command req) = Inr doc"
    "cr_expect_revision req = None \<or> cr_expect_revision req = Some (cas_revision cas s)"
  using assms
  by (auto simp: decide_def Let_def result_simps split: if_splits option.splits)

context sound_actor
begin

lemma decide_candidate: "decide env req o' cas s = Inr (n, p) \<Longrightarrow> candidate so s n"
  by (erule decide_result) (simp add: candidate_def one_printer)

lemma prepared_candidate:
  assumes "prepare_all (ae_modules env) s c ks n = Inr n'" "candidate so s n"
  shows "candidate so s n'"
  using prepare_all_intent [OF assms(1)] assms(2) by (simp add: candidate_def intent_def numbers_def)

lemma triple_unlocked: "triple (abreast so r) (unlocked env) (\<lambda>_. abreast so r) E"
proof (rule tripleI)
  fix a q a'
  assume P: "abreast so r (ac_state a) (ac_disk a)" and run: "unlocked env a = (q, a')"
  then obtain x where x: "recovers so (ac_disk a) x" "sf_revision (ac_state a) \<le> sf_revision x"
    by (auto simp: abreast_def)
  obtain x' where x': "recovers so (ae_interleave env (ac_world a) (ac_disk a)) x'" "sf_revision x \<le> sf_revision x'"
    using mid.forward [OF round_trip x(1)] by blast
  with x(2) have "sf_revision (ac_state a) \<le> sf_revision x'" by simp
  with P x'(1) run show "case q of Inl _ \<Rightarrow> E (ac_state a') (ac_disk a') | Inr _ \<Rightarrow> abreast so r (ac_state a') (ac_disk a')"
    by (auto simp: unlocked_def modify_def abreast_def)
qed

lemma triple_runtime_failed:
  "triple (abreast so r) (runtime_failed env owner p error) (\<lambda>_. abreast so r) (abreast so r)"
proof -
  have "silent (\<lambda>a. progress (sf_revision (ac_state a)) k st det a)" for k st det
    by (rule silent_read [where m = "\<lambda>s. progress (sf_revision s) k st det"]) simp
  then show ?thesis
    unfolding runtime_failed_def Let_def
    by (intro triple_and_then [OF lift_torn [OF triple_release]] triple_and_then [OF triple_on_world_at] triple_silent
        silent_and_then silent_only_if) (auto split: sum.split)
qed

lemma triple_keep_receipts:
  "triple (fresh so r) (keep_receipts env c p v) (\<lambda>_. fresh so r) (abreast so r)"
proof (rule lift_resting, rule tripleI)
  fix i a q a'
  assume P: "resting so i (ac_state a) (ac_disk a)" and run: "keep_receipts env c p v a = (q, a')"
  show "case q of Inl _ \<Rightarrow> torn so i i (ac_state a') (ac_disk a') | Inr _ \<Rightarrow> resting so i (ac_state a') (ac_disk a')"
  proof (cases "prepare_accept_all (ae_modules env) (ac_state a) c (pp_domains p) False (ac_state a) v")
    case (Inl e)
    with run P show ?thesis by (auto simp: keep_receipts_def intro: resting_torn)
  next
    case (Inr x)
    obtain changed n w where x: "x = (changed, n, w)" by (cases x)
    have n: "intent n = i"
      using prepare_accept_all_intent [OF Inr [unfolded x]] P by (simp add: resting_def)
    have store: "triple (resting so i) (and_then (and_then (on_disk (initialize so n)) (\<lambda>r.
                 case r of Inl e \<Rightarrow> refuse (Internal e)
                 | Inr _ \<Rightarrow> modify (\<lambda>a. a\<lparr>ac_state := n\<rparr>))) (\<lambda>_. give w)) (\<lambda>_. resting so i) (torn so i i)"
      by (rule triple_and_then [OF triple_store_receipt(1) [OF round_trip n] triple_give])
    show ?thesis
      using run Inr x P tripleD [OF store P] by (cases changed; cases q) (auto simp: keep_receipts_def)
  qed
qed

lemma triple_settle_runtime:
  "triple (abreast so r) (settle_runtime env c p v) (\<lambda>_. fresh so r) (abreast so r)"
proof -
  have again: "triple (fresh so r) (\<lambda>a. only_if (sf_revision (ac_state a) \<noteq> k) (ignore_error (replay env)) a)
      (\<lambda>_. abreast so r) (abreast so r)" for k
  proof (rule triple_param [where H = "\<lambda>a. only_if (sf_revision (ac_state a) \<noteq> k) (ignore_error (replay env))"])
    show "triple (fresh so r) (only_if b (ignore_error (replay env))) (\<lambda>_. abreast so r) (abreast so r)" for b
      unfolding only_if_def
      by (auto intro: triple_weaken [OF triple_ignore_error [OF triple_replay]] triple_give fresh_abreast)
  qed
  have "triple (abreast so r) (and_then (refresh env) (\<lambda>_.
     and_then (\<lambda>a. only_if (sf_revision (ac_state a) \<noteq> k) (ignore_error (replay env)) a) (\<lambda>_.
     and_then (refresh env) (\<lambda>_. keep_receipts env c p v)))) (\<lambda>_. fresh so r) (abreast so r)" for k
    by (rule triple_and_then [OF triple_refresh triple_and_then [OF again triple_and_then [OF triple_refresh
            triple_keep_receipts]]])
  then show ?thesis
    unfolding triple_def settle_runtime_def by blast
qed

lemma silent_observe: "silent (observe_operation env owner v)"
  by (auto simp: silent_def observe_operation_def split: option.splits sum.splits prod.splits)

lemma triple_runtime_done:
  "triple (abreast so r) (runtime_done env c k p v) (\<lambda>_. abreast so r) (abreast so r)"
  unfolding runtime_done_def Let_def case_prod_beta
  by (intro triple_and_then [OF triple_silent] triple_and_then [OF triple_settle_runtime])
     (auto simp: triple_def silent_observe intro: fresh_abreast)

lemma triple_run_runtime:
  "triple (fresh so r) (run_runtime env c n p) (\<lambda>_. abreast so r) (abreast so r)"
proof -
  have quiet: "silent (only_if b (\<lambda>a. progress (sf_revision (ac_state a)) k st det a))" for b k st det
    by (rule silent_only_if, rule silent_read [where m = "\<lambda>s. progress (sf_revision s) k st det"]) simp
  have outcome: "triple (abreast so r)
      (case q of Inl error \<Rightarrow> and_then (unlocked env) (\<lambda>_. runtime_failed env k p error)
       | Inr value \<Rightarrow> and_then (only_if b (\<lambda>a. progress (sf_revision (ac_state a)) kn Done None a)) (\<lambda>_.
           runtime_done env c k p value)) (\<lambda>_. abreast so r) (abreast so r)" for q k b kn
    by (cases q) (auto intro: triple_and_then [OF triple_unlocked triple_runtime_failed]
        triple_and_then [OF triple_silent [OF quiet] triple_runtime_done])
  note settle = triple_weaken [OF triple_and_then [OF triple_silent [OF quiet]
        triple_and_then [OF triple_on_world outcome]]]
  show ?thesis
    unfolding run_runtime_def Let_def
    by (rule triple_and_then [OF triple_silent [OF silent_preflight]], erule fresh_abreast,
        rule triple_and_then [OF lift_resting [OF triple_reserve]], rule settle)
       (auto intro: fresh_abreast)
qed

lemma triple_durable_abreast:
  "triple (\<lambda>s d. fresh so r s d \<and> candidate so s n) (run_durable env c o' n p) (\<lambda>_. abreast so r) (abreast so r)"
proof (rule triple_at)
  fix s0
  show "triple (\<lambda>s d. (fresh so r s d \<and> candidate so s n) \<and> s = s0) (run_durable env c o' n p)
      (\<lambda>_. abreast so r) (abreast so r)"
  proof (cases "next_revision (sf_revision s0)")
    case (Inl e)
    have "triple (\<lambda>s d. fresh so r s d \<and> s = s0) (run_durable env c o' n p) (\<lambda>_. abreast so r) (abreast so r)"
      unfolding run_durable_def
      by (rule triple_and_then [OF triple_silent triple_and_then [OF triple_result_at [where Q = "\<lambda>_ _ _. False"]]])
         (auto simp: Inl triple_def intro: fresh_abreast)
    then show ?thesis by (rule triple_weaken) auto
  next
    case (Inr v)
    let ?n = "number_candidate v (pp_domains p) n"
    have le: "sf_revision s0 \<le> sf_revision ?n"
      using next_revision_forward(3) [OF Inr] by (simp add: number_candidate_def)
    show ?thesis
    proof (cases "candidate so s0 n \<and> checked so s0 \<and> r \<le> sf_revision s0")
      case True
      show ?thesis
        by (rule triple_weaken [OF triple_run_durable [of s0 n v "intent ?n" p c o']])
           (use True Inr le in \<open>auto simp: fresh_resting intro: settled_abreast torn_abreast\<close>)
    next
      case False
      then show ?thesis by (auto simp: triple_def fresh_def)
    qed
  qed
qed

lemma triple_prologue: "triple (abreast so r) (prologue env req) (\<lambda>_. fresh so r) (abreast so r)"
  unfolding prologue_def
  by (rule triple_and_then [OF triple_refresh triple_and_then [OF triple_silent [OF silent_activity]
          triple_and_then [OF triple_silent [OF silent_guards] triple_refresh_again]]])
     (auto intro: fresh_abreast)

lemma triple_submit: "triple (abreast so r) (submit env req o' cas) (\<lambda>_. abreast so r) (abreast so r)"
proof -
  have run: "triple (\<lambda>s d. fresh so r s d \<and> candidate so s n)
      (if pp_paths p = [] then run_runtime env c n p else run_durable env c o' n p)
      (\<lambda>_. abreast so r) (abreast so r)" for n p c
    by (auto intro: triple_weaken [OF triple_run_runtime] triple_durable_abreast)
  have prepared: "triple (\<lambda>s d. fresh so r s d \<and> candidate so s (fst x))
      (case x of (n, p) \<Rightarrow>
        and_then (\<lambda>a. of_result (prepare_all (ae_modules env) (ac_state a) (cr_command req) (pp_domains p) n) a) (\<lambda>m.
        and_then (record_activity (cr_command req)) (\<lambda>_.
          if pp_paths p = [] then run_runtime env (cr_command req) m p else run_durable env (cr_command req) o' m p)))
      (\<lambda>_. abreast so r) (abreast so r)" for x
    unfolding case_prod_beta
    by (rule triple_and_then [OF triple_result_at triple_and_then [OF triple_silent run]])
       (auto dest: prepared_candidate intro: fresh_abreast)
  show ?thesis
    unfolding submit_def
    by (rule triple_and_then [OF triple_prologue triple_and_then [OF triple_result_at prepared]])
       (auto dest: decide_candidate intro: fresh_abreast)
qed

end

section \<open>Completion, followed files, boot\<close>

lemma number_completion_result:
  assumes "number_completion k s n = Inr (changed, m)" "numbers n = numbers s" "checked so s"
    "validate (so_printer so) (sf_document n) = Inr ()"
  shows "checked so m" "sf_revision s \<le> sf_revision m"
proof -
  have "checked so m \<and> sf_revision s \<le> sf_revision m"
  proof (cases "sf_document n = sf_document s")
    case True
    then have "intent n = intent s" using assms(2) by (simp add: intent_def)
    with True assms(1,3) intent_fields(1,4) [of n s] show ?thesis by (simp add: number_completion_def)
  next
    case False
    then obtain v where v: "next_revision (sf_revision s) = Inr v" "m = number_candidate v [k] n"
      using assms(1) by (auto simp: number_completion_def result_simps)
    have "candidate so s n"
      using assms(2,4) by (simp add: candidate_def numbers_def)
    then have "checked so m"
      unfolding v(2) by (rule number_candidate_checked [OF assms(3) _ v(1)])
    with next_revision_forward(3) [OF v(1)] show ?thesis
      by (simp add: v(2) number_candidate_def)
  qed
  then show "checked so m" "sf_revision s \<le> sf_revision m" by auto
qed

context sound_actor
begin

lemma triple_completion_manifest:
  "triple (in_flight so i n) (completion_manifest env p m v) (\<lambda>_. in_flight so i n) (torn so i j)"
proof -
  have "triple (in_flight so i n)
      (case q of Inr manifest \<Rightarrow> give manifest
       | Inl reason \<Rightarrow> and_then (restore env p reason) (\<lambda>detail. refuse (Internal detail)))
      (\<lambda>_. in_flight so i n) (torn so i j)" for q
    by (cases q) (auto intro!: triple_give triple_weaken [OF triple_and_then [OF triple_restore triple_refuse]]
        intro: in_flight_torn resting_torn)
  then show ?thesis
    unfolding completion_manifest_def Let_def
    by (auto intro: triple_give triple_and_then [OF triple_on_world])
qed

lemma triple_completion_report:
  "triple P (completion_report env k changed v) (\<lambda>_. P) E"
  by (auto simp: triple_def completion_report_def and_then_def modify_def Let_def)

lemma triple_commit_completion:
  assumes "checked so m" "intent m = j"
  shows "triple (in_flight so i n) (commit_completion env k changed p m v bytes) (\<lambda>_. settled so j) (torn so i j)"
  unfolding commit_completion_def
proof (rule triple_and_then)
  let ?Q = "\<lambda>r s d. torn so i j s d \<and> (r = Inr () \<longrightarrow> committed so d m)"
  show "triple (in_flight so i n) (on_disk (publish so (Some m) bytes)) ?Q (torn so i j)"
  proof (rule triple_on_disk)
    fix s d r d'
    assume P: "in_flight so i n s d" and run: "publish so (Some m) bytes d = (r, d')"
    have st: "staged so d s n" using P by (simp add: in_flight_def)
    from publish_any [OF round_trip st assms(1), of True bytes r d'] run P assms(2) show "?Q r s d'"
      unfolding torn_def in_flight_def by auto
  qed
  show "triple (?Q r)
      (case r of Inl reason \<Rightarrow> and_then (restore env p reason) (\<lambda>detail. refuse (Internal detail))
       | Inr _ \<Rightarrow> and_then (modify (\<lambda>a. a\<lparr>ac_state := m\<rparr>)) (\<lambda>_. completion_report env k changed v))
      (\<lambda>_. settled so j) (torn so i j)" for r
  proof (cases r)
    case (Inl reason)
    then show ?thesis
      by (auto intro!: triple_weaken [OF triple_and_then [OF triple_restore triple_refuse]] intro: resting_torn)
  next
    case (Inr u)
    show ?thesis
      unfolding Inr sum.case
      by (rule triple_and_then [OF triple_set_state triple_completion_report])
         (use assms in \<open>auto simp: settled_def\<close>)
  qed
qed

lemma triple_apply_completion:
  assumes "checked so n" "intent n = j"
  shows "triple (in_flight so i n) (apply_completion env k changed p n) (\<lambda>_. settled so j) (torn so i j)"
proof -
  have fail: "triple (in_flight so i n) (and_then (restore env p reason) (\<lambda>detail. refuse (f detail)))
      (\<lambda>_. settled so j) (torn so i j)" for reason f
    by (rule triple_weaken [OF triple_and_then [OF triple_restore triple_refuse]])
       (auto intro: in_flight_torn resting_torn)
  have finish: "triple (in_flight so i n) (finish_completion env k changed p n v) (\<lambda>_. settled so j) (torn so i j)" for v
  proof (cases "dm_completed (ae_modules env k) n v")
    case (Inl e)
    with fail show ?thesis by (simp add: finish_completion_def)
  next
    case (Inr m)
    have m: "intent m = j" "checked so m"
      using completed_law [OF Inr] assms intent_fields(4) [of m n] by simp_all
    have "triple (in_flight so i n) (and_then (completion_manifest env p m v) (\<lambda>manifest.
          and_then (of_result (map_err Internal (ae_print_json env manifest)))
            (commit_completion env k changed p m v))) (\<lambda>_. settled so j) (torn so i j)"
      by (rule triple_and_then [OF triple_completion_manifest triple_and_then [OF triple_silent
              triple_commit_completion [OF m(2,1)]]]) (auto intro: in_flight_torn)
    with Inr show ?thesis by (simp add: finish_completion_def)
  qed
  show ?thesis
    unfolding apply_completion_def
    by (rule triple_and_then [OF triple_on_world]) (auto intro: fail finish split: sum.split)
qed

lemma triple_run_completion:
  assumes "numbers n = numbers s0" "checked so s0" "r \<le> sf_revision s0"
  shows "triple (\<lambda>s d. fresh so r s d \<and> s = s0) (run_completion env k n p) (\<lambda>_. abreast so r) (abreast so r)"
proof -
  let ?P = "\<lambda>s d. fresh so r s d \<and> s = s0"
  have tail: "triple (\<lambda>s d. ?P s d \<and> number_completion k s0 n = Inr x)
      (case x of (changed, m) \<Rightarrow>
        and_then (\<lambda>a. on_disk (stage_or_undo so (ac_state a) m) a) (\<lambda>staging.
          case staging of Inl e \<Rightarrow> refuse (Internal e) | Inr _ \<Rightarrow> apply_completion env k changed p m))
      (\<lambda>_. abreast so r) (abreast so r)"
    if valid: "validate (so_printer so) (sf_document n) = Inr ()" for x
  proof (rule triple_pure)
    assume num: "number_completion k s0 n = Inr x"
    obtain changed m where x: "x = (changed, m)" by (cases x)
    note m = number_completion_result [OF num [unfolded x] assms(1,2) valid]
    have staged: "triple (\<lambda>s d. torn so (intent s0) (intent m) s d \<and> (q = Inr () \<longrightarrow> in_flight so (intent s0) m s d))
        (case q of Inl e \<Rightarrow> refuse (Internal e) | Inr _ \<Rightarrow> apply_completion env k changed p m)
        (\<lambda>_. settled so (intent m)) (torn so (intent s0) (intent m))" for q
      by (cases q) (auto intro: triple_refuse triple_weaken [OF triple_apply_completion [OF m(1) refl]])
    show "triple ?P (case x of (changed, m) \<Rightarrow>
        and_then (\<lambda>a. on_disk (stage_or_undo so (ac_state a) m) a) (\<lambda>staging.
          case staging of Inl e \<Rightarrow> refuse (Internal e) | Inr _ \<Rightarrow> apply_completion env k changed p m))
      (\<lambda>_. abreast so r) (abreast so r)"
      unfolding x prod.case
      by (rule triple_weaken [OF triple_and_then [OF triple_stage [OF m(1) refl] staged]])
         (use m assms(3) in \<open>auto simp: fresh_resting intro: settled_abreast torn_abreast\<close>)
  qed
  show ?thesis
  proof (cases "validate (so_printer so) (sf_document n) = Inr ()")
    case True
    have "silent (of_result q)" for q by simp
    then show ?thesis
      unfolding run_completion_def
      by (intro triple_and_then [OF triple_silent [where P = ?P]] triple_and_then [OF triple_on_world_at [where P = ?P]]
            triple_and_then [OF triple_result_at [where P = ?P and Q = "\<lambda>x s d. ?P s d \<and> number_completion k s0 n = Inr x"]]
            tail [OF True])
         (auto intro: fresh_abreast)
  next
    case False
    then obtain e where "validate (pe_printer (ae_planner env)) (sf_document n) = Inl e"
      using one_printer by (metis old.sum.exhaust old.unit.exhaust)
    then show ?thesis
      by (auto simp: triple_def run_completion_def and_then_def of_result_def intro: fresh_abreast)
  qed
qed

lemma triple_complete: "triple (abreast so r) (complete env k v) (\<lambda>_. abreast so r) (abreast so r)"
proof -
  have run: "triple (\<lambda>s d. fresh so r s d \<and> dm_completion (ae_modules env k) s v = Inr found)
      (case found of None \<Rightarrow> give () | Some (n, p) \<Rightarrow> run_completion env k n p)
      (\<lambda>_. abreast so r) (abreast so r)" for found
  proof (cases found)
    case None
    then show ?thesis by (auto intro: triple_give fresh_abreast)
  next
    case (Some x)
    obtain n p where x: "x = (n, p)" by (cases x)
    show ?thesis
      unfolding Some x option.case prod.case
    proof (rule triple_at)
      fix s0
      show "triple (\<lambda>s d. (fresh so r s d \<and> dm_completion (ae_modules env k) s v = Inr (Some (n, p))) \<and> s = s0)
          (run_completion env k n p) (\<lambda>_. abreast so r) (abreast so r)"
      proof (cases "dm_completion (ae_modules env k) s0 v = Inr (Some (n, p)) \<and> checked so s0 \<and> r \<le> sf_revision s0")
        case True
        then have "numbers n = numbers s0" using completion_law by blast
        with True show ?thesis
          by (intro triple_weaken [OF triple_run_completion [of n s0 r]]) auto
      next
        case False
        then show ?thesis by (auto simp: triple_def fresh_def)
      qed
    qed
  qed
  show ?thesis
    unfolding complete_def
    by (rule triple_and_then [OF triple_refresh triple_and_then [OF triple_silent [OF silent_guards]
            triple_and_then [OF triple_refresh_again triple_and_then [OF triple_result_at run]]]])
       (auto intro: fresh_abreast)
qed

text \<open>Every domain is native, so following never changes the document.\<close>

lemma followed_changes_none: "followed_changes before after = []"
proof -
  have "ownership_of k = Native" if "k \<in> set (map fst OWNERSHIP)" for k
    using that by (auto simp: ownership_of_def OWNERSHIP_def)
  then show ?thesis
    unfolding followed_changes_def by (auto simp: filter_empty_conv)
qed

lemma triple_follow_with: "triple (fresh so r) (follow_with env imported []) (\<lambda>_. fresh so r) (abreast so r)"
proof (rule lift_resting, rule tripleI)
  fix i a q a'
  assume P: "resting so i (ac_state a) (ac_disk a)" and run: "follow_with env imported [] a = (q, a')"
  let ?files = "merge_followed_files (ae_native_paths env) (sf_legacy_files (ac_state a)) (sf_legacy_files imported)"
  let ?n = "(ac_state a)\<lparr>sf_legacy_files := ?files\<rparr>"
  have n: "intent ?n = i" using P by (simp add: resting_def intent_def numbers_def)
  have store: "triple (resting so i) (and_then (of_result (map_err invalid (validate (pe_printer (ae_planner env))
        (sf_document ?n)))) (\<lambda>_. and_then (on_disk (initialize so ?n)) (\<lambda>r.
          case r of Inl e \<Rightarrow> refuse (Internal e) | Inr _ \<Rightarrow> modify (\<lambda>a. a\<lparr>ac_state := ?n\<rparr>))))
      (\<lambda>_. resting so i) (torn so i i)"
    by (rule triple_and_then [OF triple_silent triple_store_receipt(1) [OF round_trip n]])
       (auto intro: resting_torn)
  show "case q of Inl _ \<Rightarrow> torn so i i (ac_state a') (ac_disk a') | Inr _ \<Rightarrow> resting so i (ac_state a') (ac_disk a')"
  proof (cases "?files = sf_legacy_files (ac_state a)")
    case True
    with P run show ?thesis by (auto simp: follow_with_def Let_def)
  next
    case False
    have "and_then (of_result (map_err invalid (validate (pe_printer (ae_planner env)) (sf_document ?n))))
        (\<lambda>_. and_then (on_disk (initialize so ?n)) (\<lambda>r.
          case r of Inl e \<Rightarrow> refuse (Internal e) | Inr _ \<Rightarrow> modify (\<lambda>a. a\<lparr>ac_state := ?n\<rparr>))) a = (q, a')"
      using run False
      by (auto simp: follow_with_def Let_def publish_followed_def only_if_def and_then_def of_result_def modify_def
          give_def on_disk_def refuse_def split: sum.splits prod.splits)
    with tripleD [OF store P] show ?thesis by (cases q) auto
  qed
qed

lemma silent_drift: "silent (check_native_drift env files)"
  unfolding check_native_drift_def
  by (intro silent_and_then silent_each_act)
     (auto simp: silent_def of_result_def Let_def split: if_splits)

lemma triple_follow: "triple (abreast so r) (follow env imported) (\<lambda>_. fresh so r) (abreast so r)"
proof -
  have printed: "silent (\<lambda>a. of_result (f (ac_state a)) a)" for f :: "state_file \<Rightarrow> api_error + json"
    by (auto simp: silent_def of_result_def)
  show ?thesis
    unfolding follow_def followed_changes_none
    by (rule triple_and_then [OF triple_refresh triple_and_then [OF triple_silent [OF silent_guards]
            triple_and_then [OF triple_refresh_again triple_and_then [OF triple_silent [OF silent_drift]
              triple_and_then [OF triple_silent [OF printed] triple_and_then [OF triple_silent triple_follow_with]]]]]])
       (auto intro: fresh_abreast)
qed

lemma triple_boot: "triple (abreast so r) (boot env) (\<lambda>_. abreast so r) (abreast so r)"
proof -
  have assets: "silent (each_act (\<lambda>(k, _) a. if ownership_of k = Native
      then of_result (map_err Internal (dm_validate_assets (ae_modules env k) (sf_document (ac_state a)))) a
      else (Inr (), a)) registry_order)"
    by (rule silent_each_act) (auto simp: silent_def of_result_def split: if_splits)
  have written: "triple (abreast so r) (on_disk (write_file so ''rendered.json'' bytes)) (\<lambda>_. abreast so r) (abreast so r)"
    for bytes
    by (rule triple_on_disk) (auto simp: abreast_def write_file_recovery)
  have render: "triple (abreast so r) (case q of Inl e \<Rightarrow> refuse (Internal e) | Inr manifest \<Rightarrow>
      and_then (of_result (map_err Internal (ae_print_json env manifest))) (\<lambda>bytes.
      and_then (unlocked env) (\<lambda>_.
      and_then (on_disk (write_file so ''rendered.json'' bytes)) (\<lambda>w.
        case w of Inl e \<Rightarrow> refuse (Internal e) | Inr _ \<Rightarrow> give ())))) (\<lambda>_. abreast so r) (abreast so r)" for q
    by (cases q) (auto intro!: triple_refuse triple_and_then [OF triple_silent]
        triple_and_then [OF triple_unlocked] triple_and_then [OF written] intro: triple_give split: sum.split)
  show ?thesis
    unfolding boot_def
    by (rule triple_and_then [OF triple_weaken [OF triple_refresh] triple_and_then [OF triple_silent [OF assets]
            triple_and_then [OF triple_on_world_at render]]]) (auto intro: fresh_abreast)
qed

lemma record_observation_silent:
  "ac_state (record_observation env e a) = ac_state a" "ac_disk (record_observation env e a) = ac_disk a"
  by (auto simp: record_observation_def Let_def split: event.splits if_splits)

lemma silent_observe_domains: "silent (observe_domains env ds ob)"
proof (induction env ds ob rule: observe_domains.induct)
  case (2 env d ds ob)
  have "silent (\<lambda>a. on_world (dm_observe_state (ae_modules env d) (ac_state a) (ac_last_observed a) ob) a)"
    by (auto simp: silent_def on_world_def split: prod.splits)
  then show ?case
    using 2 by (auto intro!: silent_and_then silent_each_act split: sum.split)
qed simp

lemma silent_own_query: "silent (own_query env q)"
proof -
  have "silent (and_then (observe_domains env native_domains ob) (\<lambda>ob.
      and_then (modify (\<lambda>a. a\<lparr>ac_last_observed := ob\<rparr>)) (\<lambda>_. of_result (map_err Internal (ae_observed_json env ob)))))" for ob
    by (intro silent_and_then silent_observe_domains) (auto simp: silent_def modify_def of_result_def)
  moreover have "silent (and_then (on_world (ap_decoder (ae_applier env) v)) (\<lambda>r. of_result (map_err Internal r)))" for v
    by (intro silent_and_then) simp_all
  ultimately show ?thesis
    unfolding silent_def own_query_def by (cases q) (auto simp: of_result_def)
qed

lemma triple_answer_query: "triple (abreast so r) (answer_query env q) (\<lambda>_. abreast so r) (abreast so r)"
proof -
  have "silent (\<lambda>a. case backup_query env (ac_state a) q (ac_world a) of
         Some reply \<Rightarrow> of_result reply a
       | None \<Rightarrow>
           (case first_query env (ac_state a) q (map fst registry_order) of
              Some effect \<Rightarrow> and_then (on_world effect) of_result a
            | None \<Rightarrow> own_query env q a))"
    using silent_own_query [of q]
    by (auto simp: silent_def of_result_def and_then_def on_world_def split: option.splits prod.splits sum.splits)
  then show ?thesis
    unfolding answer_query_def
    by (intro triple_and_then [OF triple_refresh] triple_weaken [OF triple_silent]) (auto intro: fresh_abreast)
qed

lemma triple_handle: "triple (abreast so r) (handle env m) (\<lambda>_. abreast so r) (abreast so r)"
proof (rule tripleI)
  fix a q a'
  assume P: "abreast so r (ac_state a) (ac_disk a)" and run: "handle env m a = (q, a')"
  have "abreast so r (ac_state a') (ac_disk a')"
  proof (cases m)
    case (MObservation e)
    with run P show ?thesis by (auto simp: handle_def record_observation_silent)
  next
    case MSnapshot
    with run tripleD [OF triple_refresh P] show ?thesis
      by (cases q) (auto simp: handle_def intro: fresh_abreast)
  next
    case (MQuery q')
    have "triple (abreast so r) (and_then (answer_query env q') (\<lambda>_. give ())) (\<lambda>_. abreast so r) (abreast so r)"
      by (rule triple_and_then [OF triple_answer_query triple_give])
    from run MQuery tripleD [OF this P] show ?thesis
      by (cases q) (auto simp: handle_def)
  next
    case MShutdown
    have "abreast so r (ac_state (a\<lparr>ac_closing := True\<rparr>)) (ac_disk (a\<lparr>ac_closing := True\<rparr>))"
      using P by simp
    from tripleD [OF triple_refresh this] MShutdown run show ?thesis
      by (cases q) (auto simp: handle_def finish_def intro: fresh_abreast)
  next
    case (MSubmit req o' cas)
    have "triple (abreast so r) (and_then (submit env req o' cas) (\<lambda>_. give ())) (\<lambda>_. abreast so r) (abreast so r)"
      by (rule triple_and_then [OF triple_submit triple_give])
    from run P MSubmit tripleD [OF this P] show ?thesis
      by (cases q; cases "ac_closing a") (auto simp: handle_def)
  next
    case (MFollow imported)
    with run P tripleD [OF triple_follow P] show ?thesis
      by (cases q; cases "ac_closing a") (auto simp: handle_def intro: fresh_abreast)
  next
    case MBoot
    with run P tripleD [OF triple_boot P] show ?thesis
      by (cases q; cases "ac_closing a") (auto simp: handle_def)
  next
    case MReplay
    with run P tripleD [OF triple_replay P] show ?thesis
      by (cases q; cases "ac_closing a") (auto simp: handle_def)
  next
    case (MComplete k v)
    with run P tripleD [OF triple_complete P] show ?thesis
      by (cases q; cases "ac_closing a") (auto simp: handle_def)
  qed
  then show "case q of Inl _ \<Rightarrow> abreast so r (ac_state a') (ac_disk a')
      | Inr _ \<Rightarrow> abreast so r (ac_state a') (ac_disk a')"
    by (cases q) auto
qed

end

end
