(* ===== verification/Actor_Theorems.thy ===== *)
theory Actor_Theorems
  imports Actor_Safety
begin

text \<open>
  The properties of the state actor, over the triples of \<open>Actor_Safety\<close>: the invariant between turns,
  the outcome of a durable command, refusal of stale requests, admission, shutdown. The concrete
  environments of the witnesses are at the place where they are used.
\<close>

section \<open>What a handler leaves alone\<close>

definition frame :: "('w actor \<Rightarrow> 'b) \<Rightarrow> ('w, 'a) handler \<Rightarrow> bool" where
  "frame f m = (\<forall>a. f (snd (m a)) = f a)"

lemma frame_and_then: "frame f m \<Longrightarrow> (\<And>x. frame f (g x)) \<Longrightarrow> frame f (and_then m g)"
  unfolding frame_def and_then_def by (auto split: prod.splits sum.splits) (metis snd_conv)+

lemma frame_each_act: "(\<And>x. frame f (g x)) \<Longrightarrow> frame f (each_act g xs)"
  by (induction xs) (auto simp: frame_and_then, simp add: frame_def give_def)

definition bookkeeping :: "('w actor \<Rightarrow> 'b) \<Rightarrow> bool" where
  "bookkeeping f =
     (\<forall>a d s ev. f (a\<lparr>ac_disk := d\<rparr>) = f a \<and> f (a\<lparr>ac_state := s\<rparr>) = f a \<and> f (a\<lparr>ac_events := ev\<rparr>) = f a)"

lemma bookkeeping_fields [simp]:
  "bookkeeping ac_world" "bookkeeping ac_activity" "bookkeeping ac_commands" "bookkeeping ac_closing"
  by (simp_all add: bookkeeping_def)

lemma frame_refresh:
  assumes "bookkeeping f"
  shows "frame f (refresh env)"
proof -
  have "frame f (take_lock env)"
    using assms by (auto simp: frame_def take_lock_def bookkeeping_def split: prod.splits sum.splits)
  moreover have "frame f (on_disk op)" for op :: "state_file option io"
    using assms by (auto simp: frame_def on_disk_def bookkeeping_def split: prod.splits)
  moreover have "frame f (adopt env s)" for s
  proof -
    have "f (snd (adopt env s a)) = f a" for a
    proof (cases "s = ac_state a")
      case False
      then show ?thesis
        using assms
        by (auto simp: adopt_def and_then_def of_result_def modify_def send_event_def give_def bookkeeping_def
            split: prod.splits sum.splits)
    qed (simp add: adopt_def)
    then show ?thesis by (simp add: frame_def)
  qed
  moreover have "frame f (refuse e)" "frame f (give ())" for e
    by (simp_all add: frame_def refuse_def give_def)
  ultimately show ?thesis
    unfolding refresh_def by (intro frame_and_then) (auto split: sum.split option.split)
qed

lemma frame_prologue:
  assumes "bookkeeping f" "\<And>a w. f (a\<lparr>ac_world := w\<rparr>) = f a"
  shows "frame f (prologue env req)"
  unfolding prologue_def guards_def
  by (intro frame_and_then frame_each_act frame_refresh assms(1))
     (use assms(2) in \<open>auto simp: frame_def check_activity_def and_then_def on_world_def of_result_def
        split: option.splits prod.splits sum.splits\<close>)

text \<open>A request is recorded only after the prologue, the decision and the hooks of its domains.\<close>

lemma prologue_fields:
  assumes "prologue env req a = (q, a1)"
  shows "ac_commands a1 = ac_commands a" "ac_activity a1 = ac_activity a" "ac_closing a1 = ac_closing a"
  using frame_prologue [of ac_commands env req] frame_prologue [of ac_activity env req]
    frame_prologue [of ac_closing env req] assms
  by (simp_all add: frame_def) (metis snd_conv)+

lemma submit_recorded:
  assumes "submit env req o' cas a = (r, a')" "ac_commands a' \<noteq> ac_commands a"
  obtains a1 n p n' where "prologue env req a = (Inr (), a1)" "decide env req o' cas (ac_state a1) = Inr (n, p)"
    "prepare_all (ae_modules env) (ac_state a1) (cr_command req) (pp_domains p) n = Inr n'"
proof -
  obtain q a1 where pro: "prologue env req a = (q, a1)" by fastforce
  note same = prologue_fields [OF pro]
  show thesis
  proof (cases q)
    case (Inl e)
    with assms pro same show thesis by (auto simp: submit_def and_then_def)
  next
    case (Inr u)
    show thesis
    proof (cases "decide env req o' cas (ac_state a1)")
      case (Inl e)
      with Inr assms pro same show thesis by (auto simp: submit_def and_then_def of_result_def)
    next
      case d: (Inr x)
      obtain n p where x: "x = (n, p)" by (cases x)
      show thesis
      proof (cases "prepare_all (ae_modules env) (ac_state a1) (cr_command req) (pp_domains p) n")
        case (Inl e)
        with Inr d x assms pro same show thesis by (auto simp: submit_def and_then_def of_result_def)
      next
        case (Inr n')
        with that [OF _ d [unfolded x]] pro \<open>q = Inr u\<close> show thesis by simp
      qed
    qed
  qed
qed

lemma decide_confirmed:
  assumes "decide env req o' cas s = Inr (n, p)"
  obtains doc p0 where
    "reduce (pe_printer (ae_planner env)) (ae_modules env) (sf_document s) (cr_command req) = Inr doc"
    "validate (pe_printer (ae_planner env)) doc = Inr ()" "sf_document n = doc"
    "make_plan (ae_planner env) (ae_modules env) (case cas of None \<Rightarrow> sf_document s
       | Some k \<Rightarrow> (sf_document s)\<lparr>ds_revision := domain_revision s k\<rparr>) doc (cr_command req) = Inr p0"
    "\<not> confirmation_missing req o' p0" "pp_impact p = pp_impact p0" "pp_paths p = pp_paths p0" "pp_domains p = pp_domains p0"
    "cr_expect_revision req = None \<or> cr_expect_revision req = Some (cas_revision cas s)"
  using assms
  by (auto simp: decide_def Let_def result_simps confirmation_missing_def split: if_splits option.splits)

section \<open>Environments\<close>

lemma default_hooks [simp]:
  "dm_prepare default_domain_module s n c = Inr n"
  "dm_reservation default_domain_module s n = None"
  "dm_release_reservation default_domain_module s reason = s"
  "dm_accepted default_domain_module s n c v = Inr (False, n, v)"
  "dm_completion default_domain_module s v = Inr None"
  "dm_completed default_domain_module s v = Inr s"
  "dm_guard default_domain_module s cmd w = (Inr (), w)"
  "dm_validate_assets default_domain_module doc = Inr ()"
  "dm_live_checked default_domain_module s p cm = None"
  "dm_project_observed default_domain_module s ob = ob"
  by (simp_all add: default_domain_module_def planner_module.extend_def)

interpretation defaults: governed_modules "\<lambda>_. default_domain_module"
  by unfold_locales auto

text \<open>A process that never writes is a peer.\<close>

interpretation idle: peer_writer so "\<lambda>w d. d" for so
  by unfold_locales auto

definition sample_applier :: "'w applier" where
  "sample_applier =
     \<lparr>ap_replay = (\<lambda>_ w. (Inr (), w)), ap_render = (\<lambda>_ w. (Inr JNull, w)), ap_preflight = (\<lambda>_ _ _ w. (Inr (), w)),
      ap_apply_checked = (\<lambda>_ _ w. (Inr (JObject []), w)), ap_rollback = (\<lambda>_ _ w. (Inr (), w)),
      ap_decoder = (\<lambda>_ w. (Inr JNull, w))\<rparr>"

definition sample_env :: "store \<Rightarrow> unit actor_env" where
  "sample_env so =
     \<lparr>ae_store = so, ae_planner = sample_planner\<lparr>pe_printer := so_printer so\<rparr>, ae_modules = (\<lambda>_. default_domain_module),
      ae_applier = sample_applier, ae_external = (\<lambda>_ d. d), ae_interleave = (\<lambda>_ d. d),
      ae_manifest = (\<lambda>_. Inr JNull), ae_print_json = (\<lambda>_. Inr []), ae_impact_of = (\<lambda>_. Inl ''impact''),
      ae_artifacts = (\<lambda>_ _. Inr []), ae_sha256 = (\<lambda>_. []), ae_native_paths = [], ae_print_event = (\<lambda>_. []),
      ae_snapshots = (\<lambda>_. JArray []), ae_backup_json = (\<lambda>_. Inr JNull), ae_impact_json = (\<lambda>_. JNull),
      ae_observed_json = (\<lambda>_. Inr JNull)\<rparr>"

lemma sample_env_sound:
  assumes "encodes so"
  shows "sound_actor (sample_env so)"
proof (rule sound_actor.intro)
  show "governed_modules (ae_modules (sample_env so))"
    using defaults.governed_modules_axioms by (simp add: sample_env_def)
  show "peer_writer (ae_store (sample_env so)) (ae_external (sample_env so))"
    "peer_writer (ae_store (sample_env so)) (ae_interleave (sample_env so))"
    using idle.peer_writer_axioms by (simp_all add: sample_env_def)
  show "sound_actor_axioms (sample_env so)"
    using assms by (simp add: sound_actor_axioms_def sample_env_def)
qed

definition sample_actor :: "state_file \<Rightarrow> disk \<Rightarrow> unit actor" where
  "sample_actor s d =
     \<lparr>ac_closing = False, ac_activity = 0, ac_commands = [], ac_state = s, ac_disk = d, ac_world = (), ac_events = [],
      ac_observations = [], ac_failed = [], ac_native_drift = [], ac_replay_failed = [], ac_last_observed = default_observed\<rparr>"

lemma sample_actor_ready:
  "checked sample_store (sample_state 0)" "recovers sample_store (sample_disk []) (sample_state 0)"
  "sound_actor (sample_env sample_store)"
  using publication.clean_recov [OF sample_ready(1)] sample_check sample_env_sound two_store_encodes
  by (simp_all add: checked_def sample_store_def del: check_state_ok)

section \<open>Properties\<close>

definition run_messages :: "'w actor_env \<Rightarrow> message list \<Rightarrow> 'w actor \<Rightarrow> 'w actor" where
  "run_messages env ms a = foldl (\<lambda>a m. snd (handle env m a)) a ms"

text \<open>
  C1: The actor's invariant. Whatever messages arrive, whatever effects, file operations or hooks fail,
  and whatever its peers commit meanwhile, the envelope the actor serves passes the check of a stored
  envelope, its revision never moves back, and recovery gives an envelope that is not older.
\<close>

theorem actor_invariant:
  assumes "sound_actor env" and "checked (ae_store env) (ac_state a)"
    and "recovers (ae_store env) (ac_disk a) x" and "sf_revision (ac_state a) \<le> sf_revision x"
    and "a' = run_messages env ms a"
  shows "check_state (so_printer (ae_store env)) (ac_state a') = Inr () \<and>
    sf_revision (ac_state a) \<le> sf_revision (ac_state a') \<and>
    (\<exists>x. recovers (ae_store env) (ac_disk a') x \<and> sf_revision (ac_state a') \<le> sf_revision x)"
proof -
  let ?so = "ae_store env" and ?r = "sf_revision (ac_state a)"
  have "abreast ?so ?r (ac_state b) (ac_disk b) \<Longrightarrow>
      abreast ?so ?r (ac_state (run_messages env ms b)) (ac_disk (run_messages env ms b))" for b
  proof (induction ms arbitrary: b)
    case (Cons m ms)
    obtain q b' where h: "handle env m b = (q, b')" by fastforce
    have "abreast ?so ?r (ac_state b') (ac_disk b')"
      using tripleD [OF sound_actor.triple_handle [OF assms(1)] Cons.prems] h by (cases q) auto
    from Cons.IH [OF this] h show ?case by (simp add: run_messages_def)
  qed (simp add: run_messages_def)
  moreover have "abreast ?so ?r (ac_state a) (ac_disk a)"
    using assms(2-4) by (auto simp: abreast_def)
  ultimately show ?thesis
    using assms(5) by (auto simp: abreast_def checked_def)
qed

theorem actor_invariant_witness:
  "check_state (so_printer sample_store)
     (ac_state (run_messages (sample_env sample_store) [MBoot, MSnapshot, MShutdown] (sample_actor (sample_state 0) (sample_disk []))))
   = Inr ()"
proof -
  have store: "ae_store (sample_env sample_store) = sample_store" by (simp add: sample_env_def)
  show ?thesis
    using actor_invariant [OF sample_actor_ready(3), of "sample_actor (sample_state 0) (sample_disk [])" "sample_state 0"]
      sample_actor_ready(1,2)
    by (simp add: store sample_actor_def del: check_state_ok)
qed

text \<open>
  C2: A durable command commits completely or not at all. From a current envelope, success means that
  the directory holds a checked envelope with the decision the actor now serves: the next revision,
  within the range of exact JSON numbers, the new document, and the new revision on exactly the domains
  of the plan. Failure leaves the actor on the old decision, and recovery gives the old decision or the
  whole new one.
\<close>

theorem durable_command:
  assumes "sound_actor env" and "checked (ae_store env) (ac_state a)"
    and "committed (ae_store env) (ac_disk a) (ac_state a)" and "candidate (ae_store env) (ac_state a) n"
    and "next_revision (sf_revision (ac_state a)) = Inr v" and "run_durable env c o' n p a = (r, a')"
  shows "(case r of
      Inr su \<Rightarrow>
        sf_revision (ac_state a') = sf_revision (ac_state a) + 1 \<and> sf_revision (ac_state a) < v \<and> v \<le> 9007199254740991 \<and>
        rp_revision (su_reply su) = v \<and> sf_document (ac_state a') = (sf_document n)\<lparr>ds_revision := v\<rparr> \<and>
        (\<forall>k. domain_revision (ac_state a') k = (if k \<in> set (pp_domains p) then v else domain_revision n k)) \<and>
        (\<exists>x. committed (ae_store env) (ac_disk a') x \<and> intent x = intent (ac_state a'))
    | Inl _ \<Rightarrow>
        intent (ac_state a') = intent (ac_state a) \<and>
        (\<exists>x. recovers (ae_store env) (ac_disk a') x \<and>
          (intent x = intent (ac_state a) \<or> intent x = intent (number_candidate v (pp_domains p) n))))"
proof -
  let ?so = "ae_store env" and ?j = "intent (number_candidate v (pp_domains p) n)"
  have "resting ?so (intent (ac_state a)) (ac_state a) (ac_disk a)"
    using assms(2,3) by (simp add: resting_def)
  note out = tripleD [OF sound_actor.triple_run_durable [OF assms(1,4,2,5) refl] this]
  have v: "v = sf_revision (ac_state a) + 1" "sf_revision (ac_state a) < v" "v \<le> 9007199254740991"
    using next_revision_forward [OF assms(5)] by (simp_all add: MAX_REVISION_def)
  show ?thesis
  proof (cases r)
    case (Inl e)
    with out(2) assms(6) show ?thesis by (auto simp: torn_def)
  next
    case (Inr su)
    have s: "settled ?so ?j (ac_state a') (ac_disk a')" "rp_revision (su_reply su) = sf_revision (ac_state a')"
      using out(1) assms(6) Inr by auto
    then have j: "intent (ac_state a') = ?j" by (simp add: settled_def)
    note f = intent_fields [OF j]
    have dr: "domain_revision (ac_state a') k = domain_revision (number_candidate v (pp_domains p) n) k" for k
      using f(3) by (simp add: domain_revision_def)
    show ?thesis
      unfolding Inr sum.case dr numbered_domain_revision
      using v s f(1,2) j by (auto simp: number_candidate_def settled_def)
  qed
qed

definition sample_plan_all :: plan where
  "sample_plan_all =
     \<lparr>pp_paths = [''device''], pp_domains = map fst OWNERSHIP, pp_actions = [], pp_impact = default_impact,
      pp_confirmation = None, pp_external_confirmation = False, pp_session = None\<rparr>"

lemma next_sample: "next_revision (sf_revision (sample_state 0)) = Inr 1" "next_revision 0 = Inr 1"
  by (simp_all add: sample_revision next_revision_def checked_add_def MAX_REVISION_def)

lemma sample_numbered:
  "number_candidate 1 [DAudio, DDevice, DOutputs, DNdi, DNetwork, DTessera, DDisplay, DPresets, DPlugins]
     (sample_state 0) = sample_state 1"
  by (simp add: number_candidate_def sample_state_def new_state_file_def OWNERSHIP_def bt_of_list_def less_domain_def)

lemma sample_stage: "fst (stage sample_store (sample_state 0) (sample_state 1) (sample_disk [])) = Inr ()"
  by code_simp

lemma sample_owner: "command_domain ResetPluginState = Some DPlugins"
  by (simp add: command_domain_def COMMAND_ROUTES_def)

theorem durable_command_witness:
  "let a = sample_actor (sample_state 0) (sample_disk []);
       a' = snd (run_durable (sample_env sample_store) ResetPluginState OMigration (sample_state 0) sample_plan_all a)
   in sf_revision (ac_state a') = 1 \<and> (\<exists>x. committed sample_store (ac_disk a') x \<and> intent x = intent (ac_state a'))"
proof -
  let ?a = "sample_actor (sample_state 0) (sample_disk [])"
  let ?run = "run_durable (sample_env sample_store) ResetPluginState OMigration (sample_state 0) sample_plan_all ?a"
  have store: "ae_store (sample_env sample_store) = sample_store" by (simp add: sample_env_def)
  obtain d1 where stage: "stage sample_store (sample_state 0) (sample_state 1) (sample_disk []) = (Inr (), d1)"
    and d1: "d1 = snd (stage sample_store (sample_state 0) (sample_state 1) (sample_disk []))"
    using sample_stage by (metis prod.collapse)
  have "fst (publish sample_store None [] d1) = Inr ()"
    unfolding d1 by code_simp
  then obtain d2 where publish: "publish sample_store None [] d1 = (Inr (), d2)"
    by (metis prod.collapse)
  have "\<exists>su. fst ?run = Inr su"
    by (simp add: run_durable_def and_then_def of_result_def effect_owner_def ok_or_def sample_owner next_sample sample_revision
        stage_durable_def sample_numbered sample_env_def sample_plan_all_def OWNERSHIP_def validate_assets_all_def
        give_def preflight_def on_world_def sample_applier_def reserve_def on_disk_def stage_or_undo_def stage
        apply_durable_def progress_def send_event_def modify_def apply_command_def finish_durable_def json_remove_def
        commit_durable_def publish committed_report_def Let_def sample_actor_def bt_get_def)
  then obtain su where su: "?run = (Inr su, snd ?run)"
    by (metis prod.collapse)
  have state: "ac_state ?a = sample_state 0" "ac_disk ?a = sample_disk []"
    by (simp_all add: sample_actor_def)
  have "candidate sample_store (sample_state 0) (sample_state 0)"
    using sample_actor_ready(1) by (simp add: candidate_def checked_def)
  with durable_command [OF sample_actor_ready(3), of ?a "sample_state 0" 1 ResetPluginState OMigration sample_plan_all
      "Inr su" "snd ?run"] su next_sample sample_actor_ready(1) sample_ready(1)
  show ?thesis
    by (simp add: store state sample_revision Let_def)
qed

text \<open>
  C3: No lost update. Once the directory holds a revision later than the one a request expects, the
  request is refused and is never recorded as accepted, even if the actor's own envelope is still the
  old one when the request arrives, and whatever its peers do meanwhile.
\<close>

theorem stale_request_refused:
  assumes "sound_actor env" and "recovers (ae_store env) (ac_disk a) x" and "v < sf_revision x"
    and "cr_expect_revision req = Some v" and "submit env req o' None a = (r, a')"
  shows "(\<exists>e. r = Inl e) \<and> ac_commands a' = ac_commands a \<and> ac_activity a' = ac_activity a"
proof -
  let ?so = "ae_store env" and ?k = "sf_revision x"
  obtain q a1 where pro: "prologue env req a = (q, a1)" by fastforce
  note same = prologue_fields [OF pro]
  show ?thesis
  proof (cases q)
    case (Inl e)
    with assms(5) pro same show ?thesis by (auto simp: submit_def and_then_def)
  next
    case (Inr u)
    have "triple (\<lambda>s d. True \<and> at_least ?so ?k d) (prologue env req) (\<lambda>_. fresh ?so ?k) (\<lambda>_ _. True)"
      unfolding prologue_def
      by (rule triple_and_then [OF triple_weaken [OF sound_actor.triple_catch_up [OF assms(1)]]
            triple_and_then [OF triple_silent [OF silent_activity] triple_and_then [OF triple_silent
                [OF silent_guards]
              triple_weaken [OF sound_actor.triple_refresh_again [OF assms(1)]]]]]) auto
    from tripleD(1) [OF this, of a u a1] pro Inr assms(2) have "fresh ?so ?k (ac_state a1) (ac_disk a1)"
      by (auto simp: at_least_def)
    then have "v \<noteq> sf_revision (ac_state a1)"
      using assms(3) by (auto simp: fresh_def)
    then have "decide env req o' None (ac_state a1) = Inl (RevisionConflict (sf_revision (ac_state a1)))"
      using assms(4) by (simp add: decide_def cas_revision_def Let_def)
    with assms(5) pro Inr same show ?thesis
      by (auto simp: submit_def and_then_def of_result_def)
  qed
qed

theorem stale_request_refused_witness:
  "\<exists>e. fst (submit (sample_env sample_store) ((new_command_request ReloadConfig)\<lparr>cr_expect_revision := Some 0\<rparr>) OMigration
     None (sample_actor (sample_state 0) ((sample_disk [])\<lparr>dk_entries := [(''state.json'', Regular ''B'')]\<rparr>))) = Inl e"
proof -
  let ?d = "(sample_disk [])\<lparr>dk_entries := [(''state.json'', Regular ''B'')]\<rparr>"
  have "decode_checked sample_store ''B'' = Inr (sample_state 1)"
    unfolding sample_store_def by (rule two_store_storable(4)) (rule sample_check)+
  then have "recovers sample_store ?d (sample_state 1)"
    by (simp add: recovers_def holds_def entry_def sample_disk_def bt_get_def)
  then show ?thesis
    using stale_request_refused [OF sample_actor_ready(3), where x = "sample_state 1" and v = 0 and
        a = "sample_actor (sample_state 0) ?d", OF _ _ _ surjective_pairing]
    by (simp add: sample_env_def sample_actor_def sample_revision)
qed

text \<open>
  C21: Admission. A request is recorded, and only then may have effects, if the envelope after the last
  refresh has the revision the request expects, the reduced document passes validation, and the plan's
  impact is confirmed: an impact token that is given is the token of this plan, and a disruptive
  change from an origin that has to confirm carries a token or an explicit confirmation, unless the
  domain confirms by itself.
\<close>

theorem admission:
  assumes "submit env req o' cas a = (r, a')" and "ac_commands a' \<noteq> ac_commands a"
  shows "\<exists>a1 doc p. prologue env req a = (Inr (), a1) \<and>
    reduce (pe_printer (ae_planner env)) (ae_modules env) (sf_document (ac_state a1)) (cr_command req) = Inr doc \<and>
    validate (pe_printer (ae_planner env)) doc = Inr () \<and>
    make_plan (ae_planner env) (ae_modules env) (case cas of None \<Rightarrow> sf_document (ac_state a1)
      | Some k \<Rightarrow> (sf_document (ac_state a1))\<lparr>ds_revision := domain_revision (ac_state a1) k\<rparr>) doc (cr_command req) = Inr p \<and>
    (cr_expect_revision req = None \<or> cr_expect_revision req = Some (cas_revision cas (ac_state a1))) \<and>
    (pp_external_confirmation p \<or>
     ((\<forall>t. cr_expect_impact req = Some t \<longrightarrow> t = im_token (pp_impact p)) \<and>
      (needs_confirmation (pp_impact p) \<and> requires_confirmation o' \<longrightarrow> cr_expect_impact req \<noteq> None \<or> cr_confirm req)))"
proof -
  obtain a1 n p n' where pro: "prologue env req a = (Inr (), a1)" and
    dec: "decide env req o' cas (ac_state a1) = Inr (n, p)"
    by (rule submit_recorded [OF assms])
  from dec obtain doc p0 where
    "reduce (pe_printer (ae_planner env)) (ae_modules env) (sf_document (ac_state a1)) (cr_command req) = Inr doc"
    "validate (pe_printer (ae_planner env)) doc = Inr ()"
    "make_plan (ae_planner env) (ae_modules env) (case cas of None \<Rightarrow> sf_document (ac_state a1)
      | Some k \<Rightarrow> (sf_document (ac_state a1))\<lparr>ds_revision := domain_revision (ac_state a1) k\<rparr>) doc (cr_command req) = Inr p0"
    "\<not> confirmation_missing req o' p0"
    "cr_expect_revision req = None \<or> cr_expect_revision req = Some (cas_revision cas (ac_state a1))"
    by (rule decide_confirmed)
  with pro show ?thesis
    by (intro exI [of _ a1] exI [of _ doc] exI [of _ p0]) (auto simp: confirmation_missing_def)
qed

definition refusing_env :: "unit actor_env" where
  "refusing_env =
     (sample_env sample_store)\<lparr>ae_modules := (\<lambda>_. default_domain_module\<lparr>dm_reduce := (\<lambda>st c. Inr st)\<rparr>),
       ae_applier := sample_applier\<lparr>ap_preflight := (\<lambda>_ _ _ w. (Inl ''busy'', w))\<rparr>\<rparr>"

lemma sample_refresh:
  assumes "ae_store env = sample_store" "ae_external env = (\<lambda>_ d. d)" "ac_state a = sample_state 0" "ac_disk a = sample_disk []"
  shows "refresh env a = (Inr (), a)"
proof -
  have "decode_checked sample_store ''A'' = Inr (sample_state 0)"
    unfolding sample_store_def by (rule two_store_storable(3)) (rule sample_check)+
  then have "load sample_store (sample_disk []) = (Inr (Some (sample_state 0)), sample_disk [])"
    by (simp add: load_def remove_orphans_def sample_store_def two_store_def Let_def entry_def sample_disk_def bt_get_def
        seq_io_def read_state_def read_file_def)
  moreover have "dk_io (sample_disk []) = []" "\<not> dk_crashed (sample_disk [])" by (simp_all add: sample_disk_def)
  ultimately show ?thesis
    using assms by (simp add: refresh_def and_then_def take_lock_def on_disk_def adopt_def)
qed

lemma refusing_decides:
  obtains n p where "decide refusing_env ((new_command_request ResetPluginState)\<lparr>cr_confirm := True\<rparr>) OMigration None
      (sample_state 0) = Inr (n, p)"
proof -
  let ?mods = "ae_modules refusing_env" and ?pe = "ae_planner refusing_env"
  let ?doc = "sf_document (sample_state 0)"
  have mods: "?mods = (\<lambda>_. default_domain_module\<lparr>dm_reduce := (\<lambda>st c. Inr st)\<rparr>)"
    by (simp add: refusing_env_def)
  have reduced: "reduce dp ?mods ?doc ResetPluginState = Inr ?doc" for dp
    by (simp add: reduce_def backup_handles_def sample_owner ok_or_def get_registration_def registry_def
        registry_order_def mods ownership_of_def OWNERSHIP_def)
  have "\<forall>r \<in> set (registry ?mods). \<exists>q. dm_plan (rg_module r) st st' ResetPluginState = Inr q" for st st'
    by (simp add: registry_def registry_order_def mods default_domain_module_def planner_module.extend_def
        default_planner_module_def)
  then have walk: "\<exists>w. plan_walk v v' ?doc ?doc ResetPluginState (registry ?mods) ([], [], [], default_impact) = Inr w" for v v'
    using plan_walk_total by blast
  have "\<exists>p. make_plan ?pe ?mods ?doc ?doc ResetPluginState = Inr p"
  proof -
    have pe: "\<exists>v. pe_to_value ?pe ?doc = Inr v" "pe_print_actions ?pe x = Inr []" for x
      by (simp_all add: refusing_env_def sample_env_def sample_planner_def)
    then obtain v where v: "pe_to_value ?pe ?doc = Inr v" by blast
    obtain x where x: "plan_walk v v ?doc ?doc ResetPluginState (registry ?mods) ([], [], [], default_impact) = Inr x"
      using walk by blast
    obtain paths changed actions imp where "x = (paths, changed, actions, imp)" by (cases x)
    note w = x [unfolded this]
    obtain g where "get_registration ?mods DPlugins = Inr g"
      by (simp add: get_registration_def ok_or_def registry_def registry_order_def)
    then show ?thesis
      by (simp add: make_plan_def v w pe(2) planning_order_def backup_handles_def sample_owner Let_def)
  qed
  then obtain p where "make_plan ?pe ?mods ?doc ?doc ResetPluginState = Inr p" ..
  moreover have "validate dp ?doc = Inr ()" for dp
    using sample_check [of dp 0] by simp
  ultimately show thesis
    using that reduced
    by (simp add: decide_def Let_def new_command_request_def confirmation_missing_def)
qed

theorem admission_witness:
  "\<exists>doc. reduce (pe_printer (ae_planner refusing_env)) (ae_modules refusing_env) (sf_document (sample_state 0))
       ResetPluginState = Inr doc \<and> validate (pe_printer (ae_planner refusing_env)) doc = Inr ()"
proof -
  let ?req = "(new_command_request ResetPluginState)\<lparr>cr_confirm := True\<rparr>"
  let ?a = "sample_actor (sample_state 0) (sample_disk [])"
  let ?run = "submit refusing_env ?req OMigration None ?a"
  obtain n p where dec: "decide refusing_env ?req OMigration None (sample_state 0) = Inr (n, p)"
    by (rule refusing_decides)
  have env: "ae_store refusing_env = sample_store" "ae_external refusing_env = (\<lambda>_ d. d)"
    by (simp_all add: refusing_env_def sample_env_def)
  have fields: "ac_state ?a = sample_state 0" "ac_disk ?a = sample_disk []" "ac_commands ?a = []"
    by (simp_all add: sample_actor_def)
  have hooks: "dm_guard (ae_modules refusing_env k) s c w = (Inr (), w)"
    "dm_prepare (ae_modules refusing_env k) s m c' = Inr m"
    "dm_validate_assets (ae_modules refusing_env k) doc = Inr ()" for k s c w m c' doc
    by (simp_all add: refusing_env_def)
  have guard: "guards refusing_env c ?a = (Inr (), ?a)" for c
    by (simp add: guards_def registry_order_def and_then_def on_world_def of_result_def hooks give_def)
  have pro: "prologue refusing_env ?req ?a = (Inr (), ?a)"
    by (simp add: prologue_def and_then_def sample_refresh [OF env fields(1,2)] check_activity_def guard
        new_command_request_def)
  have prep: "prepare_all (ae_modules refusing_env) s c ks m = Inr m" for s c ks m
    by (induction ks) (simp_all add: hooks)
  have assets: "validate_assets_all (ae_modules refusing_env) doc ks b = (Inr (), b)" for doc ks b
    unfolding validate_assets_all_def by (induction ks) (simp_all add: give_def and_then_def of_result_def hooks)
  have pre: "ac_commands (snd (and_then (preflight refusing_env k m p) f b)) = ac_commands b" for k m p f b
    by (simp add: preflight_def and_then_def on_world_def refuse_def refusing_env_def split: prod.split)
  have runtime: "ac_commands (snd (run_runtime refusing_env c m p b)) = ac_commands b" for c m b
    unfolding run_runtime_def Let_def by (rule pre)
  have manifest: "ae_manifest refusing_env m = Inr JNull" for m
    by (simp add: refusing_env_def sample_env_def)
  have "ac_commands (snd (stage_durable refusing_env c o' k p m b)) = ac_commands b" for c o' k m b
    by (simp add: stage_durable_def and_then_def [of "of_result _"] and_then_def [of "validate_assets_all _ _ _"]
        of_result_def manifest assets pre)
  then have durable: "ac_commands (snd (run_durable refusing_env c o' m p b)) = ac_commands b" for c o' m b
    by (simp add: run_durable_def and_then_def of_result_def split: sum.split)
  have command: "cr_command ?req = ResetPluginState" by (simp add: new_command_request_def)
  have "ac_commands (snd ?run) = [ResetPluginState]"
    by (simp add: submit_def and_then_def pro of_result_def fields dec prep command record_activity_def modify_def
        runtime durable)
  then have "ac_commands (snd ?run) \<noteq> ac_commands ?a"
    by (simp add: fields(3))
  from admission [OF surjective_pairing this] obtain doc where
    "reduce (pe_printer (ae_planner refusing_env)) (ae_modules refusing_env) (sf_document (ac_state ?a)) (cr_command ?req)
       = Inr doc" "validate (pe_printer (ae_planner refusing_env)) doc = Inr ()"
    unfolding pro by auto
  then show ?thesis
    unfolding fields(1) command by blast
qed

lemma frame_on_world: "(\<And>a w. f (a\<lparr>ac_world := w\<rparr>) = f a) \<Longrightarrow> frame f (on_world op)"
  by (auto simp: frame_def on_world_def split: prod.splits)

lemma frame_of_result: "frame f (of_result r)"
  by (simp add: frame_def of_result_def)

lemma frame_answer_query:
  assumes "bookkeeping f" "\<And>a w. f (a\<lparr>ac_world := w\<rparr>) = f a" "\<And>a ob. f (a\<lparr>ac_last_observed := ob\<rparr>) = f a"
  shows "frame f (answer_query env q)"
proof -
  note world = frame_on_world [OF assms(2)]
  have observe: "frame f (observe_domains env ks ob)" for ks ob
  proof (induction env ks ob rule: observe_domains.induct)
    case (1 env ob)
    then show ?case by (simp add: frame_def give_def)
  next
    case (2 env d ds ob)
    have "frame f (\<lambda>a. on_world (dm_observe_state (ae_modules env d) (ac_state a) (ac_last_observed a) ob) a)"
      using assms(2) by (auto simp: frame_def on_world_def split: prod.splits)
    moreover have "frame f (send_event e)" "frame f (refuse e')" for e and e' :: api_error
      using assms(1) by (auto simp: frame_def send_event_def modify_def refuse_def bookkeeping_def)
    ultimately show ?case
      using 2 by (auto intro!: frame_and_then frame_each_act split: sum.split)
  qed
  have stored: "frame f (modify (\<lambda>a. a\<lparr>ac_last_observed := ob\<rparr>))" for ob
    using assms(3) by (simp add: frame_def modify_def)
  have own: "f (snd (own_query env q a)) = f a" for a
  proof (cases q)
    case QStatus
    have "frame f (and_then (on_world (ap_decoder (ae_applier env) (JObject [(''action'', JString ''status'')])))
        (\<lambda>r. of_result (map_err Internal r)))"
      by (intro frame_and_then world frame_of_result)
    with QStatus show ?thesis by (simp add: own_query_def frame_def)
  next
    case QObserved
    have "frame f (and_then (observe_domains env native_domains (assemble_observed env a)) (\<lambda>ob.
        and_then (modify (\<lambda>a. a\<lparr>ac_last_observed := ob\<rparr>)) (\<lambda>_. of_result (map_err Internal (ae_observed_json env ob)))))"
      by (intro frame_and_then observe stored frame_of_result)
    with QObserved show ?thesis by (simp add: own_query_def frame_def)
  qed (simp_all add: own_query_def of_result_def)
  have effect: "f (snd (and_then (on_world e) of_result a)) = f a" for e :: "'a \<Rightarrow> (api_error + json) \<times> 'a" and a
    using frame_and_then [OF world frame_of_result, of e "\<lambda>r. r"] by (simp add: frame_def)
  have "frame f (\<lambda>a. case backup_query env (ac_state a) q (ac_world a) of
         Some reply \<Rightarrow> of_result reply a
       | None \<Rightarrow>
           (case first_query env (ac_state a) q (map fst registry_order) of
              Some effect \<Rightarrow> and_then (on_world effect) of_result a
            | None \<Rightarrow> own_query env q a))"
    by (simp add: frame_def own effect of_result_def split: option.split)
  then show ?thesis
    unfolding answer_query_def by (intro frame_and_then frame_refresh assms(1))
qed

definition is_query :: "message \<Rightarrow> bool" where
  "is_query m = (case m of MQuery _ \<Rightarrow> True | _ \<Rightarrow> False)"

lemma closing_step:
  assumes "ac_closing b" "b' = snd (handle env m b)"
  shows "ac_closing b'" "ac_commands b' = ac_commands b" "ac_activity b' = ac_activity b"
    "\<not> is_query m \<Longrightarrow> ac_world b' = ac_world b"
proof -
  note fr = frame_refresh [of ac_closing env] frame_refresh [of ac_world env] frame_refresh [of ac_commands env]
    frame_refresh [of ac_activity env]
  have "frame ac_closing (and_then (answer_query env q) (\<lambda>_. give ()))"
    "frame ac_commands (and_then (answer_query env q) (\<lambda>_. give ()))"
    "frame ac_activity (and_then (answer_query env q) (\<lambda>_. give ()))" for q
    by (intro frame_and_then frame_answer_query; simp add: frame_def give_def)+
  note queries = this [unfolded frame_def]
  have "ac_closing b' \<and> ac_commands b' = ac_commands b \<and> ac_activity b' = ac_activity b \<and>
      (\<not> is_query m \<longrightarrow> ac_world b' = ac_world b)"
    using assms fr queries
    by (cases m) (auto simp: handle_def frame_def finish_def record_observation_def is_query_def Let_def split: event.splits)
  then show "ac_closing b'" "ac_commands b' = ac_commands b" "ac_activity b' = ac_activity b"
    "\<not> is_query m \<Longrightarrow> ac_world b' = ac_world b" by auto
qed

text \<open>
  C22: Nothing is applied after shutdown. Once the actor is closing it stays so, and no message makes it
  record a command or count an activity; only queries still reach the outside world. Every message that
  could write is answered with the shutdown error and changes nothing.
\<close>

theorem shutdown_final:
  assumes "ac_closing a" and "a' = run_messages env ms a"
  shows "ac_closing a' \<and> ac_commands a' = ac_commands a \<and> ac_activity a' = ac_activity a \<and>
    (list_all (\<lambda>m. \<not> is_query m) ms \<longrightarrow> ac_world a' = ac_world a) \<and>
    (\<forall>req o' cas imported k v. \<forall>m \<in> {MSubmit req o' cas, MFollow imported, MBoot, MReplay, MComplete k v}.
      handle env m a' = (Inl stopping, a'))"
proof -
  have "ac_closing b \<Longrightarrow> ac_closing (run_messages env ms b) \<and> ac_commands (run_messages env ms b) = ac_commands b \<and>
      ac_activity (run_messages env ms b) = ac_activity b \<and>
      (list_all (\<lambda>m. \<not> is_query m) ms \<longrightarrow> ac_world (run_messages env ms b) = ac_world b)" for b
  proof (induction ms arbitrary: b)
    case (Cons m ms)
    with closing_step [OF Cons.prems refl, where env = env and m = m] show ?case by (simp add: run_messages_def)
  qed (simp add: run_messages_def)
  with assms show ?thesis by (auto simp: handle_def)
qed

theorem shutdown_final_witness:
  "ac_activity (run_messages (sample_env sample_store) [MReplay, MQuery QStatus, MBoot]
     ((sample_actor (sample_state 0) (sample_disk []))\<lparr>ac_closing := True\<rparr>)) = 0"
  using shutdown_final [of "(sample_actor (sample_state 0) (sample_disk []))\<lparr>ac_closing := True\<rparr>"
      _ "sample_env sample_store" "[MReplay, MQuery QStatus, MBoot]"] by (simp add: sample_actor_def)

end
