(* ===== verification/Privd_Values.thy ===== *)
theory Privd_Values
  imports Rust_Text
begin

text \<open>
  Bounded values and framing of the privileged protocol
  (\<open>ndimon-privd-proto/src/values.rs\<close> and \<open>codec.rs\<close>).

  Each string type of the protocol is the check of its \<open>TryFrom<String>\<close>; \<open>try_from\<close> is the macro
  \<open>string_value\<close> and \<open>bounded\<close> the macro of the numeric types. A frame is a big-endian 32-bit length
  followed by a body; the JSON encoding of the body is a parameter. Readers are the bytes still to
  come: \<open>read_exact\<close> takes a prefix and fails at the end of the input.

  The results: names that reach the file system or an argument vector are never paths or options,
  every release version is a Debian version, frames are read back one by one whatever follows them,
  and a reader never waits for more than the frame limit.
\<close>

section \<open>String values\<close>

definition try_from :: "(string \<Rightarrow> bool) \<Rightarrow> string \<Rightarrow> string \<Rightarrow> (string, string) result" where
  "try_from check reason s = (if check s then Inr s else Inl reason)"

definition label_ok :: "string \<Rightarrow> bool" where
  "label_ok s =
     (s \<noteq> [] \<and> length s \<le> 63 \<and> list_all (\<lambda>b. is_ascii_alphanumeric b \<or> b = CHR ''-'') s \<and>
      is_ascii_alphanumeric (hd s) \<and> is_ascii_alphanumeric (last s))"

definition plugin_ok :: "string \<Rightarrow> bool" where
  "plugin_ok s =
     (2 \<le> length s \<and> length s \<le> 32 \<and> is_ascii_lowercase (hd s) \<and>
      list_all (\<lambda>b. is_ascii_lowercase b \<or> is_ascii_digit b \<or> b = CHR ''-'') s)"

definition ntp_server_ok :: "string \<Rightarrow> bool" where
  "ntp_server_ok s =
     (if length (split_on (CHR ''.'') s) = 4 \<and> list_all (\<lambda>b. is_ascii_digit b \<or> b = CHR ''.'') s
      then parse_ipv4 s \<noteq> None
      else length s \<le> 253 \<and> list_all label_ok (split_on (CHR ''.'') s))"

definition network_id_ok :: "string \<Rightarrow> bool" where
  "network_id_ok s =
     (s \<noteq> [] \<and> length s \<le> 32 \<and> is_ascii_lowercase (hd s) \<and>
      list_all (\<lambda>b. is_ascii_lowercase b \<or> is_ascii_digit b \<or> b = CHR ''-'') s)"

definition interface_name_value :: "string \<Rightarrow> bool" where
  "interface_name_value s =
     (s \<noteq> [] \<and> length s \<le> 15 \<and> list_all (\<lambda>b. is_ascii_alphanumeric b \<or> b \<in> set ''_-'') s)"

definition flow_id_value :: "string \<Rightarrow> bool" where
  "flow_id_value s =
     (s \<noteq> [] \<and> length s \<le> 32 \<and> list_all (\<lambda>b. is_ascii_alphanumeric b \<or> b \<in> set ''_-'') s)"

definition network_token_ok :: "string \<Rightarrow> bool" where
  "network_token_ok s =
     (length s = 64 \<and> list_all (\<lambda>b. is_ascii_digit b \<or> (97 \<le> byte b \<and> byte b \<le> 102)) s)"

definition debian_version_ok :: "string \<Rightarrow> bool" where
  "debian_version_ok s =
     (s \<noteq> [] \<and> length s \<le> 128 \<and> is_ascii_digit (hd s) \<and>
      list_all (\<lambda>b. is_ascii_alphanumeric b \<or> b \<in> set ''.+:~-'') s)"

text \<open>\<open>[epoch:]upstream[-revision]\<close>: the rest after the epoch, and the upstream part of that.\<close>

definition release_epoch :: "string \<Rightarrow> (string \<times> bool) option" where
  "release_epoch s =
     (case split_once (CHR '':'') s of
        Some (epoch, rest) \<Rightarrow>
          if epoch = [] \<or> \<not> list_all is_ascii_digit epoch \<or> parse_uint 32 epoch = None then None
          else Some (rest, True)
      | None \<Rightarrow> Some (s, False))"

definition release_upstream :: "string \<Rightarrow> string option" where
  "release_upstream rest =
     (case rsplit_once (CHR ''-'') rest of
        Some (upstream, revision) \<Rightarrow>
          if revision = [] \<or> \<not> list_all (\<lambda>b. is_ascii_alphanumeric b \<or> b \<in> set ''+.~'') revision
          then None else Some upstream
      | None \<Rightarrow> Some rest)"

definition release_version :: "string \<Rightarrow> bool" where
  "release_version s =
     (if s = [] \<or> 128 < length s \<or> \<not> list_all (\<lambda>b. byte b < 128) s then False
      else
        (case release_epoch s of
           None \<Rightarrow> False
         | Some (rest, epoch) \<Rightarrow>
             (case release_upstream rest of
                None \<Rightarrow> False
              | Some upstream \<Rightarrow>
                  upstream \<noteq> [] \<and> is_ascii_digit (hd upstream) \<and>
                  list_all (\<lambda>b. is_ascii_alphanumeric b \<or> b \<in> set ''.+~-'' \<or> (epoch \<and> b = CHR '':'')) upstream)))"

definition archive_id_ok :: "string \<Rightarrow> bool" where
  "archive_id_ok s =
     (s \<noteq> [] \<and> length s \<le> 200 \<and> ends_with ''.tar.gz'' s \<and> is_ascii_alphanumeric (hd s) \<and>
      \<not> contains_str ''..'' s \<and> list_all (\<lambda>b. is_ascii_alphanumeric b \<or> b \<in> set ''._-'') s)"

definition import_id_ok :: "string \<Rightarrow> bool" where
  "import_id_ok s =
     (s \<noteq> [] \<and> length s \<le> 100 \<and> \<not> contains_str ''..'' s \<and> is_ascii_alphanumeric (hd s) \<and>
      list_all (\<lambda>b. is_ascii_alphanumeric b \<or> b \<in> set ''_.-'') s)"

definition plugin_job_ok :: "string \<Rightarrow> bool" where
  "plugin_job_ok s =
     (case strip_prefix ''ndimon-plugin-'' s of
        None \<Rightarrow> False
      | Some t \<Rightarrow>
          (case strip_suffix ''.service'' t of
             None \<Rightarrow> False
           | Some tail \<Rightarrow>
               (case rsplit_once (CHR ''-'') tail of
                  None \<Rightarrow> False
                | Some (name, number) \<Rightarrow>
                    plugin_ok name \<and> number \<noteq> [] \<and> length number \<le> 20 \<and> list_all is_ascii_digit number)))"

definition plugin_unit_ok :: "string \<Rightarrow> bool" where
  "plugin_unit_ok s =
     (length s \<le> 200 \<and> ends_with ''.service'' s \<and>
      list_all (\<lambda>b. is_ascii_alphanumeric b \<or> b \<in> set ''_@.-'') s)"

definition wall_time_ok :: "string \<Rightarrow> bool" where
  "wall_time_ok s =
     (length s = 5 \<and> s ! 2 = CHR '':'' \<and>
      list_all (\<lambda>(i, b). i = 2 \<or> is_ascii_digit b) (enumerate 0 s) \<and>
      (case parse_uint 8 (take 2 s) of Some v \<Rightarrow> v < 24 | None \<Rightarrow> False) \<and>
      (case parse_uint 8 (drop 3 s) of Some v \<Rightarrow> v < 60 | None \<Rightarrow> False))"

definition plugin_name_try_from :: "string \<Rightarrow> (string, string) result" where
  "plugin_name_try_from = try_from plugin_ok ''plugin name must match [a-z][a-z0-9-]{1,31}''"

definition archive_id_try_from :: "string \<Rightarrow> (string, string) result" where
  "archive_id_try_from = try_from archive_id_ok ''invalid archive id''"

definition debian_version_try_from :: "string \<Rightarrow> (string, string) result" where
  "debian_version_try_from = try_from debian_version_ok ''invalid Debian version''"

definition plugin_job_try_from :: "string \<Rightarrow> (string, string) result" where
  "plugin_job_try_from = try_from plugin_job_ok ''invalid plugin job unit''"

lemma try_from_simps [simp]:
  "try_from check reason s = Inr t \<longleftrightarrow> check s \<and> t = s"
  "try_from check reason s = Inl e \<longleftrightarrow> \<not> check s \<and> e = reason"
  by (auto simp: try_from_def)

lemmas value_try_from = plugin_name_try_from_def archive_id_try_from_def debian_version_try_from_def
  plugin_job_try_from_def

section \<open>Bounded numbers\<close>

definition bounded :: "string \<Rightarrow> nat \<Rightarrow> nat \<Rightarrow> u16 \<Rightarrow> (u16, string) result" where
  "bounded name lo hi v =
     (if lo \<le> unat v \<and> unat v \<le> hi then Inr v
      else Inl (name @ '' must be '' @ dec lo @ ''..'' @ dec hi))"

definition vlan_id_try_from :: "u16 \<Rightarrow> (u16, string) result" where
  "vlan_id_try_from = bounded ''VlanId'' 1 4094"

definition udp_port_try_from :: "u16 \<Rightarrow> (u16, string) result" where
  "udp_port_try_from = bounded ''UdpPort'' 1024 65535"

definition channel_count_try_from :: "u16 \<Rightarrow> (u16, string) result" where
  "channel_count_try_from = bounded ''ChannelCount'' 1 16"

definition first_channel_try_from :: "u16 \<Rightarrow> (u16, string) result" where
  "first_channel_try_from = bounded ''FirstChannel'' 1 65535"

definition frames_per_packet_try_from :: "u16 \<Rightarrow> (u16, string) result" where
  "frames_per_packet_try_from = bounded ''FramesPerPacket'' 1 1024"

section \<open>Frames\<close>

datatype io_error = UnexpectedEof | InvalidData string

definition MAX_FRAME_BYTES :: nat where "MAX_FRAME_BYTES = 8 * 1024 * 1024"

definition check_length :: "nat \<Rightarrow> (unit, io_error) result" where
  "check_length len =
     (if len = 0 \<or> MAX_FRAME_BYTES < len then Inl (InvalidData ''invalid privd frame length'') else Inr ())"

definition to_be_bytes :: "u32 \<Rightarrow> string" where
  "to_be_bytes w = map (\<lambda>i. char_of (unat (drop_bit i w) mod 256)) [24, 16, 8, 0]"

definition from_be_bytes :: "string \<Rightarrow> u32" where
  "from_be_bytes bs = foldl (\<lambda>w b. 256 * w + of_nat (byte b)) 0 bs"

definition encode :: "('a \<Rightarrow> (string, string) result) \<Rightarrow> 'a \<Rightarrow> (string, io_error) result" where
  "encode to_vec v =
     bind_r (map_err InvalidData (to_vec v)) (\<lambda>body.
     bind_r (check_length (length body)) (\<lambda>_.
       Inr (to_be_bytes (of_nat (length body)) @ body)))"

definition read_exact :: "nat \<Rightarrow> string \<Rightarrow> (string, io_error) result \<times> string" where
  "read_exact n input = (if length input < n then (Inl UnexpectedEof, []) else (Inr (take n input), drop n input))"

definition read_frame ::
  "(string \<Rightarrow> ('a, string) result) \<Rightarrow> string \<Rightarrow> ('a, io_error) result \<times> string" where
  "read_frame from_slice input =
     (case read_exact 4 input of
        (Inl e, rest) \<Rightarrow> (Inl e, rest)
      | (Inr header, rest) \<Rightarrow>
          (let len = unat (from_be_bytes header)
           in case check_length len of
                Inl e \<Rightarrow> (Inl e, rest)
              | Inr _ \<Rightarrow>
                  (case read_exact len rest of
                     (Inl e, rest') \<Rightarrow> (Inl e, rest')
                   | (Inr body, rest') \<Rightarrow> (map_err InvalidData (from_slice body), rest'))))"

definition write_frame ::
  "(string \<Rightarrow> 'w \<Rightarrow> (unit, io_error) result \<times> 'w) \<Rightarrow> ('w \<Rightarrow> (unit, io_error) result \<times> 'w) \<Rightarrow>
   ('a \<Rightarrow> (string, string) result) \<Rightarrow> 'a \<Rightarrow> 'w \<Rightarrow> (unit, io_error) result \<times> 'w" where
  "write_frame write_all flush to_vec v w =
     (case encode to_vec v of
        Inl e \<Rightarrow> (Inl e, w)
      | Inr frame \<Rightarrow>
          (case write_all frame w of
             (Inl e, w') \<Rightarrow> (Inl e, w')
           | (Inr _, w') \<Rightarrow> flush w'))"


text \<open>
  Frame after frame of one byte stream, to state that frames written one after the other are told apart.
  (The daemon itself reads one frame of a connection and the client one answer.)
\<close>

fun read_frames ::
  "(string \<Rightarrow> ('a, string) result) \<Rightarrow> nat \<Rightarrow> string \<Rightarrow> ('a, io_error) result list \<times> string" where
  "read_frames from_slice 0 input = ([], input)"
| "read_frames from_slice (Suc n) input =
     (case read_frame from_slice input of
        (Inl e, rest) \<Rightarrow> ([Inl e], rest)
      | (Inr v, rest) \<Rightarrow> (case read_frames from_slice n rest of (rs, rest') \<Rightarrow> (Inr v # rs, rest')))"

section \<open>Framing\<close>

lemma from_to_be_bytes: "from_be_bytes (to_be_bytes w) = w"
proof -
  define n where "n = unat w"
  have small: "n < 2 ^ 32" unfolding n_def using unsigned_less [of w] by simp
  then have part: "unat (drop_bit i w) mod 256 = n div 2 ^ i mod 256" for i
    using take_bit_nat_eq_self [of n 32]
    unfolding n_def unsigned_drop_bit_eq by (simp add: drop_bit_eq_div)
  have digits: "n div 65536 = n div 256 div 256" "n div 16777216 = n div 256 div 256 div 256"
    by (simp_all flip: div_mult2_eq)
  have "n = 256 * (n div 256) + n mod 256" "n div 256 = 256 * (n div 256 div 256) + n div 256 mod 256"
    "n div 256 div 256 = 256 * (n div 256 div 256 div 256) + n div 256 div 256 mod 256"
    "n div 256 div 256 div 256 < 256"
    using small by (simp_all flip: digits) (simp_all add: digits)
  then have "256 * (256 * (256 * (n div 2 ^ 24 mod 256) + n div 2 ^ 16 mod 256) + n div 2 ^ 8 mod 256) + n div 2 ^ 0 mod 256 = n"
    by (simp add: digits)
  then have "of_nat (256 * (256 * (256 * (n div 2 ^ 24 mod 256) + n div 2 ^ 16 mod 256) + n div 2 ^ 8 mod 256) + n div 2 ^ 0 mod 256) = (of_nat n :: u32)"
    by (simp only:)
  moreover have "(of_nat n :: u32) = w" by (simp add: n_def)
  ultimately show ?thesis
    unfolding from_be_bytes_def to_be_bytes_def part
    by (simp add: byte_def algebra_simps del: of_nat_Suc)
qed

lemma length_to_be_bytes [simp]: "length (to_be_bytes w) = 4"
  by (simp add: to_be_bytes_def)

lemma encode_Inr:
  "encode to_vec v = Inr frame \<longleftrightarrow>
     (\<exists>body. to_vec v = Inr body \<and> body \<noteq> [] \<and> length body \<le> MAX_FRAME_BYTES \<and>
        frame = to_be_bytes (of_nat (length body)) @ body)"
  by (auto simp: encode_def check_length_def result_simps split: if_splits)

lemma read_frame_encoded:
  assumes "encode to_vec v = Inr frame" "\<And>body. to_vec v = Inr body \<Longrightarrow> from_slice body = Inr v"
  shows "read_frame from_slice (frame @ rest) = (Inr v, rest)"
proof -
  from assms(1) obtain body where body: "to_vec v = Inr body" "body \<noteq> []" "length body \<le> MAX_FRAME_BYTES"
    and frame: "frame = to_be_bytes (of_nat (length body)) @ body"
    unfolding encode_Inr by blast
  have "unat (of_nat (length body) :: u32) = length body"
    using body(3) by (simp add: unsigned_of_nat MAX_FRAME_BYTES_def take_bit_nat_eq_self_iff)
  with body frame assms(2) [OF body(1)] show ?thesis
    by (simp add: read_frame_def read_exact_def from_to_be_bytes check_length_def)
qed

lemma read_frame_suffix:
  assumes "read_frame from_slice input = (r, rest)"
  shows "\<exists>used. input = used @ rest \<and> length used \<le> 4 + MAX_FRAME_BYTES"
proof -
  have exact: "\<exists>used. xs = used @ ys \<and> length used \<le> n" if "read_exact n xs = (q, ys)" for n xs q ys
    using that by (auto simp: read_exact_def split: if_splits intro: exI [of _ "take n xs"])
  obtain q mid where head: "read_exact 4 input = (q, mid)" by fastforce
  from exact [OF head] obtain u where u: "input = u @ mid" "length u \<le> 4" by blast
  have "rest = mid \<or> (\<exists>n q'. n \<le> MAX_FRAME_BYTES \<and> read_exact n mid = (q', rest))"
    using assms head
    by (auto simp: read_frame_def Let_def check_length_def split: sum.splits prod.splits if_splits)
  then show ?thesis
  proof
    assume "\<exists>n q'. n \<le> MAX_FRAME_BYTES \<and> read_exact n mid = (q', rest)"
    then obtain n q' where n: "n \<le> MAX_FRAME_BYTES" "read_exact n mid = (q', rest)" by blast
    from exact [OF n(2)] obtain u' where "mid = u' @ rest" "length u' \<le> n" by blast
    with u n(1) show ?thesis by (intro exI [of _ "u @ u'"]) auto
  qed (use u in auto)
qed

section \<open>Properties\<close>

lemma alnum_plain: "is_ascii_alphanumeric c \<Longrightarrow> c \<noteq> CHR ''/'' \<and> c \<noteq> CHR ''.'' \<and> c \<noteq> CHR ''-'' \<and> byte c \<noteq> 0"
  by (auto simp: ascii_defs)

lemma digit_alnum: "is_ascii_digit c \<Longrightarrow> is_ascii_alphanumeric c"
  by (simp add: is_ascii_alphanumeric_def)

lemma lower_alnum: "is_ascii_lowercase c \<Longrightarrow> is_ascii_alphanumeric c"
  by (simp add: is_ascii_alphanumeric_def is_ascii_alphabetic_def)

text \<open>A name that can be one component of a path and one word of an argument vector.\<close>

definition safe_word :: "string \<Rightarrow> bool" where
  "safe_word s =
     (s \<noteq> [] \<and> s \<noteq> ''.'' \<and> s \<noteq> ''..'' \<and> hd s \<noteq> CHR ''-'' \<and> list_all (\<lambda>c. c \<noteq> CHR ''/'' \<and> byte c \<noteq> 0) s)"

lemma safe_wordI:
  assumes "s \<noteq> []" "is_ascii_alphanumeric (hd s)"
    and "list_all (\<lambda>c. is_ascii_alphanumeric c \<or> c \<in> set ''_@.+:~-'') s"
  shows "safe_word s"
proof -
  have "s \<noteq> ''.''" "s \<noteq> ''..''" using assms(2) by (auto simp: ascii_defs)
  moreover have "list_all (\<lambda>c. c \<noteq> CHR ''/'' \<and> byte c \<noteq> 0) s"
    using assms(3) by (rule list.pred_mono_strong) (auto dest: alnum_plain simp: byte_def)
  ultimately show ?thesis
    using assms(1,2) alnum_plain [of "hd s"] by (simp add: safe_word_def)
qed

lemma list_all_weaken: "list_all P xs \<Longrightarrow> (\<And>x. P x \<Longrightarrow> Q x) \<Longrightarrow> list_all Q xs"
  by (auto simp: list_all_iff)

lemma plugin_ok_safe: "plugin_ok s \<Longrightarrow> safe_word s"
  by (rule safe_wordI) (auto simp: plugin_ok_def lower_alnum digit_alnum elim!: list_all_weaken)

lemma plugin_job_shape:
  "plugin_job_ok s \<longleftrightarrow>
     (\<exists>name number. s = ''ndimon-plugin-'' @ name @ ''-'' @ number @ ''.service'' \<and> plugin_ok name \<and>
        number \<noteq> [] \<and> length number \<le> 20 \<and> list_all is_ascii_digit number)"
proof
  show "plugin_job_ok s \<Longrightarrow> \<exists>name number. s = ''ndimon-plugin-'' @ name @ ''-'' @ number @ ''.service'' \<and> plugin_ok name \<and>
        number \<noteq> [] \<and> length number \<le> 20 \<and> list_all is_ascii_digit number"
    by (auto simp: plugin_job_ok_def strip_prefix_Some strip_suffix_Some rsplit_once_Some split: option.splits) blast
next
  assume "\<exists>name number. s = ''ndimon-plugin-'' @ name @ ''-'' @ number @ ''.service'' \<and> plugin_ok name \<and>
        number \<noteq> [] \<and> length number \<le> 20 \<and> list_all is_ascii_digit number"
  then obtain name number where s: "s = ''ndimon-plugin-'' @ name @ ''-'' @ number @ ''.service''" "plugin_ok name"
      "number \<noteq> []" "length number \<le> 20" "list_all is_ascii_digit number"
    by blast
  have "CHR ''-'' \<notin> set number" using s(5) by (auto simp: list_all_iff ascii_defs)
  then have "strip_prefix ''ndimon-plugin-'' s = Some (name @ ''-'' @ number @ ''.service'')"
    "strip_suffix ''.service'' (name @ ''-'' @ number @ ''.service'') = Some (name @ ''-'' @ number)"
    "rsplit_once (CHR ''-'') (name @ ''-'' @ number) = Some (name, number)"
    using s by (simp_all add: strip_prefix_Some strip_suffix_Some rsplit_once_Some)
  with s show "plugin_job_ok s" by (simp add: plugin_job_ok_def)
qed

lemma plugin_job_safe: "plugin_job_ok s \<Longrightarrow> safe_word s"
  unfolding plugin_job_shape
  by (elim exE conjE, rule safe_wordI)
    (auto simp: ascii_defs plugin_ok_def list_all_iff)

definition version_char :: "char \<Rightarrow> bool" where
  "version_char b = (is_ascii_alphanumeric b \<or> b \<in> set ''.+:~-'')"

lemma debian_version_alt:
  "debian_version_ok s \<longleftrightarrow> s \<noteq> [] \<and> length s \<le> 128 \<and> is_ascii_digit (hd s) \<and> list_all version_char s"
  by (simp add: debian_version_ok_def version_char_def [abs_def])

lemma release_epoch_split:
  assumes "release_epoch s = Some (rest, e)"
  obtains prefix where "s = prefix @ rest" "list_all version_char prefix" "prefix = [] \<or> is_ascii_digit (hd prefix)"
proof (cases "split_once (CHR '':'') s")
  case None
  with assms that [of "[]"] show ?thesis by (simp add: release_epoch_def)
next
  case (Some p)
  then obtain ep where p: "p = (ep, rest)" "ep \<noteq> []" "list_all is_ascii_digit ep"
    using assms by (auto simp: release_epoch_def split: if_splits prod.splits)
  then have "list_all version_char ep" "is_ascii_digit (hd ep)"
    by (auto simp: version_char_def digit_alnum elim: list_all_weaken) (cases ep; simp)
  with that [of "ep @ '':''"] Some p show ?thesis by (simp add: split_once_Some version_char_def)
qed

lemma release_upstream_split:
  assumes "release_upstream rest = Some upstream"
  obtains tail where "rest = upstream @ tail" "list_all version_char tail"
proof (cases "rsplit_once (CHR ''-'') rest")
  case None
  with assms that [of "[]"] show ?thesis by (simp add: release_upstream_def)
next
  case (Some p)
  then obtain rev where p: "p = (upstream, rev)" "list_all (\<lambda>b. is_ascii_alphanumeric b \<or> b \<in> set ''+.~'') rev"
    using assms by (auto simp: release_upstream_def split: if_splits prod.splits)
  then have "list_all version_char rev"
    by (auto simp: version_char_def elim!: list_all_weaken)
  with that [of "CHR ''-'' # rev"] Some p show ?thesis by (simp add: rsplit_once_Some version_char_def)
qed

lemma release_is_debian:
  assumes "release_version s"
  shows "debian_version_ok s"
proof -
  from assms obtain rest e upstream where parts: "length s \<le> 128" "release_epoch s = Some (rest, e)"
    "release_upstream rest = Some upstream" "upstream \<noteq> []" "is_ascii_digit (hd upstream)"
    and up: "list_all (\<lambda>b. is_ascii_alphanumeric b \<or> b \<in> set ''.+~-'' \<or> (e \<and> b = CHR '':'')) upstream"
    by (auto simp: release_version_def split: if_splits option.splits)
  from up have "list_all version_char upstream"
    by (rule list_all_weaken) (auto simp: version_char_def)
  moreover obtain prefix tail where "s = prefix @ rest" "list_all version_char prefix"
    "prefix = [] \<or> is_ascii_digit (hd prefix)" "rest = upstream @ tail" "list_all version_char tail"
    using release_epoch_split [OF parts(2)] release_upstream_split [OF parts(3)] by metis
  ultimately show ?thesis
    using parts by (cases prefix) (auto simp: debian_version_alt)
qed

text \<open>
  Protocol names are words, never paths or options. Every accepted host name, plugin name, network,
  archive and import id, job unit and version is non-empty, is not a dot name, has no slash and no NUL,
  and does not start with a hyphen; and an archive or import id has no dot-dot inside.
\<close>

theorem protocol_names_safe:
  assumes "label_ok s \<or> plugin_ok s \<or> network_id_ok s \<or> debian_version_ok s \<or> release_version s \<or>
    archive_id_ok s \<or> import_id_ok s \<or> plugin_job_ok s"
  shows "s \<noteq> [] \<and> s \<noteq> ''.'' \<and> s \<noteq> ''..'' \<and> hd s \<noteq> CHR ''-'' \<and> CHR ''/'' \<notin> set s \<and> CHR 0x00 \<notin> set s \<and>
    (archive_id_ok s \<or> import_id_ok s \<longrightarrow> (\<nexists>a b. s = a @ ''..'' @ b))"
proof -
  have version: "safe_word s" if "debian_version_ok s"
    using that by (intro safe_wordI) (auto simp: debian_version_ok_def digit_alnum elim!: list_all_weaken)
  have "safe_word s" if "label_ok s"
    using that by (intro safe_wordI) (auto simp: label_ok_def elim!: list_all_weaken)
  moreover have "safe_word s" if "network_id_ok s"
    using that by (intro safe_wordI) (auto simp: network_id_ok_def lower_alnum digit_alnum elim!: list_all_weaken)
  moreover have "safe_word s" if "archive_id_ok s"
    using that by (intro safe_wordI) (auto simp: archive_id_ok_def elim!: list_all_weaken)
  moreover have "safe_word s" if "import_id_ok s"
    using that by (intro safe_wordI) (auto simp: import_id_ok_def elim!: list_all_weaken)
  ultimately have "safe_word s"
    using assms version release_is_debian plugin_ok_safe plugin_job_safe by blast
  moreover have "byte (CHR 0x00) = 0" by (simp add: byte_def)
  ultimately have "s \<noteq> []" "s \<noteq> ''.''" "s \<noteq> ''..''" "hd s \<noteq> CHR ''-''" "CHR ''/'' \<notin> set s" "CHR 0x00 \<notin> set s"
    unfolding safe_word_def list_all_iff by blast+
  moreover have "archive_id_ok s \<or> import_id_ok s \<Longrightarrow> \<not> contains_str ''..'' s"
    by (auto simp: archive_id_ok_def import_id_ok_def)
  ultimately show ?thesis
    unfolding contains_str_iff by blast
qed

theorem protocol_names_safe_witness: "CHR ''/'' \<notin> set ''hello-plugin_1.2.0_amd64.tar.gz''"
  using protocol_names_safe [of "''hello-plugin_1.2.0_amd64.tar.gz''"]
  by (simp add: archive_id_ok_def ends_with_def ascii_defs contains_str_def starts_with_def)

text \<open>
  C37: Frames round-trip. Whatever values are sent one after the other and whatever follows them, a
  reader gets exactly those values in order and leaves exactly what follows. Each frame is the length
  and the body, within the frame limit.
\<close>

theorem frames_round_trip:
  assumes "list_all2 (\<lambda>v frame. encode to_vec v = Inr frame) vs frames"
    and "\<And>v body. v \<in> set vs \<Longrightarrow> to_vec v = Inr body \<Longrightarrow> from_slice body = Inr v"
  shows "read_frames from_slice (length vs) (concat frames @ rest) = (map Inr vs, rest) \<and>
    list_all (\<lambda>f. length f \<le> 4 + MAX_FRAME_BYTES) frames"
  using assms
proof (induction vs frames rule: list_all2_induct)
  case (Cons v vs f fs)
  have "read_frame from_slice (f @ concat fs @ rest) = (Inr v, concat fs @ rest)"
    using Cons by (intro read_frame_encoded) auto
  with Cons show ?case by (auto simp: encode_Inr)
qed simp

theorem frames_round_trip_witness:
  "read_frames Inr 2 (concat [to_be_bytes 2 @ ''{}'', to_be_bytes 4 @ ''null''] @ ''x'') = ([Inr ''{}'', Inr ''null''], ''x'')"
  using frames_round_trip [of Inr "[''{}'', ''null'']" "[to_be_bytes 2 @ ''{}'', to_be_bytes 4 @ ''null'']" Inr "''x''"]
  by (simp add: encode_def check_length_def MAX_FRAME_BYTES_def numeral_2_eq_2)

text \<open>
  A reader never waits for more than the limit. Whatever arrives, one frame consumes at most the
  header and the frame limit, and a length of zero or above the limit is refused after the header.
\<close>

theorem frame_bounded:
  assumes "read_frame from_slice input = (r, rest)"
  shows "(\<exists>used. input = used @ rest \<and> length used \<le> 4 + MAX_FRAME_BYTES) \<and>
    (4 \<le> length input \<and> (from_be_bytes (take 4 input) = 0 \<or> MAX_FRAME_BYTES < unat (from_be_bytes (take 4 input))) \<longrightarrow>
       r = Inl (InvalidData ''invalid privd frame length'') \<and> rest = drop 4 input)"
  using read_frame_suffix [OF assms] assms
  by (auto simp: read_frame_def read_exact_def check_length_def Let_def)

theorem frame_bounded_witness:
  "fst (read_frame Inr (to_be_bytes 0 @ ''abc'')) = Inl (InvalidData ''invalid privd frame length'')"
  using frame_bounded [of Inr "to_be_bytes 0 @ ''abc''", OF surjective_pairing]
  by (simp add: from_to_be_bytes)

end
