(* ===== verification/Privd_Proto.thy ===== *)
theory Privd_Proto
  imports Privd_Values Wire
begin

text \<open>
  The closed request set of the privileged daemon
  (\<open>ndimon-privd-proto/src/lib.rs\<close>, \<open>network.rs\<close>, \<open>network_native.rs\<close>).

  A value of \<open>request\<close> is a decoded \<open>Request\<close>: its string fields have passed the checks of
  \<open>Privd_Values\<close>, which \<open>request_well_typed\<close> states, and \<open>request_validate\<close> is the check that the
  decoder runs on top of them. Sizes of JSON encodings are parameters.
\<close>

section \<open>Errors, units and schedules\<close>

datatype proto_error =
    PInvalid string string
  | PPermissionDenied
  | PBusy
  | PFailed string string "int option"
  | PUnsupported string
  | PInternal string

definition proto_invalid :: "string \<Rightarrow> string \<Rightarrow> proto_error" where
  "proto_invalid field reason = PInvalid field reason"

definition proto_failed :: "string \<Rightarrow> string \<Rightarrow> proto_error" where
  "proto_failed step reason = PFailed step reason None"

primrec proto_error_text :: "proto_error \<Rightarrow> string" where
  "proto_error_text (PInvalid field reason) = ''invalid '' @ field @ '': '' @ reason"
| "proto_error_text PPermissionDenied = ''permission denied''"
| "proto_error_text PBusy = ''another operation is running''"
| "proto_error_text (PFailed step reason code) = step @ '': '' @ reason"
| "proto_error_text (PUnsupported what) = ''unsupported: '' @ what"
| "proto_error_text (PInternal message) = ''internal: '' @ message"

datatype managed_unit = UnitControl | UnitDecoder | UnitFinder

primrec managed_unit_name :: "managed_unit \<Rightarrow> string" where
  "managed_unit_name UnitControl = ''ndimon-control.service''"
| "managed_unit_name UnitDecoder = ''ndimon-r.service''"
| "managed_unit_name UnitFinder = ''ndimon-finder.service''"

datatype unit_action = UnitStart | UnitStop | UnitRestart | UnitReload

primrec unit_action_name :: "unit_action \<Rightarrow> string" where
  "unit_action_name UnitStart = ''start''"
| "unit_action_name UnitStop = ''stop''"
| "unit_action_name UnitRestart = ''restart''"
| "unit_action_name UnitReload = ''reload''"

datatype cpu_profile = CpuDecode | CpuRestore | CpuDisabled

primrec weekday_name :: "weekday \<Rightarrow> string" where
  "weekday_name Sun = ''Sun''"
| "weekday_name Mon = ''Mon''"
| "weekday_name Tue = ''Tue''"
| "weekday_name Wed = ''Wed''"
| "weekday_name Thu = ''Thu''"
| "weekday_name Fri = ''Fri''"
| "weekday_name Sat = ''Sat''"

datatype reboot_request = RebootDisabled | RebootDaily string | RebootWeekly string "weekday list"
datatype remove_mode = KeepState | Purge | Force
datatype bundle_action = BundleInstall bool | BundleUninstall bool
datatype plugin_archive = ArchiveDownload string | ArchiveImport string string

datatype legacy_config_file =
    FileAudio | FileAbout | FileDevice | FileReceive | FileFind | FileSplash | FileOsd | FilePlugins
  | FilePresets | FileAuth | FileNdiConfig | FileNdiGroup | FileDec1 | FileDec2 | FileDec3 | FileDec4
  | FileDec5 | FileDec6 | FileDec7 | FileDec8

primrec legacy_filename :: "legacy_config_file \<Rightarrow> string" where
  "legacy_filename FileAudio = ''ndimon-audio-settings.json''"
| "legacy_filename FileAbout = ''ndimon-about-settings.json''"
| "legacy_filename FileDevice = ''ndimon-device-settings.json''"
| "legacy_filename FileReceive = ''ndimon-rx-settings.json''"
| "legacy_filename FileFind = ''ndimon-find-settings.json''"
| "legacy_filename FileSplash = ''ndimon-splash-settings.json''"
| "legacy_filename FileOsd = ''ndimon-osd-settings.json''"
| "legacy_filename FilePlugins = ''ndimon-plugins.json''"
| "legacy_filename FilePresets = ''ndimon-presets.json''"
| "legacy_filename FileAuth = ''ndimon-auth.json''"
| "legacy_filename FileNdiConfig = ''ndi-config.json''"
| "legacy_filename FileNdiGroup = ''ndi-group.json''"
| "legacy_filename FileDec1 = ''ndimon-dec1-settings.json''"
| "legacy_filename FileDec2 = ''ndimon-dec2-settings.json''"
| "legacy_filename FileDec3 = ''ndimon-dec3-settings.json''"
| "legacy_filename FileDec4 = ''ndimon-dec4-settings.json''"
| "legacy_filename FileDec5 = ''ndimon-dec5-settings.json''"
| "legacy_filename FileDec6 = ''ndimon-dec6-settings.json''"
| "legacy_filename FileDec7 = ''ndimon-dec7-settings.json''"
| "legacy_filename FileDec8 = ''ndimon-dec8-settings.json''"

datatype logo_file = LogoPng | LogoJpg | LogoJpeg

primrec logo_filename :: "logo_file \<Rightarrow> string" where
  "logo_filename LogoPng = ''ndi-splash-logo.png''"
| "logo_filename LogoJpg = ''ndi-splash-logo.jpg''"
| "logo_filename LogoJpeg = ''ndi-splash-logo.jpeg''"

section \<open>Tessera flows and PCM ranges\<close>

record tessera_flow_spec =
  fs_id :: string
  fs_direction :: direction
  fs_port :: u16
  fs_peer :: "ipv4 option"
  fs_any_source :: bool
  fs_frames_per_packet :: "u16 option"

definition flow_spec_validate :: "tessera_flow_spec \<Rightarrow> (unit, proto_error) result" where
  "flow_spec_validate f =
     bind_r
       (if fs_any_source f
        then (if fs_direction f \<noteq> Rx \<or> fs_peer f \<noteq> None
              then Inl (proto_invalid ''flows'' ''any_source excludes peer and is RX only'') else Inr ())
        else (case fs_peer f of
                None \<Rightarrow> Inl (proto_invalid ''flows.peer'' ''unicast IPv4 required'')
              | Some p \<Rightarrow>
                  if is_multicast p \<or> is_loopback p \<or> is_unspecified p \<or> octet 0 p = 0 \<or> 240 \<le> octet 0 p
                  then Inl (proto_invalid ''flows.peer'' ''unicast IPv4 required'') else Inr ()))
       (\<lambda>_. if fs_frames_per_packet f \<noteq> None \<and> fs_direction f \<noteq> Tx
            then Inl (proto_invalid ''frames_per_packet'' ''TX only'') else Inr ())"

record tessera_pcm_spec =
  pcm_direction :: direction
  pcm_first_channel :: u16
  pcm_channels :: u16

section \<open>Transitional network requests\<close>

record network_settings =
  ns_mode :: address_mode
  ns_address :: "ipv4 option"
  ns_prefix :: u8
  ns_gateway :: "ipv4 option"
  ns_dns :: "ipv4 list"

definition optional_ipv4_try_from :: "string \<Rightarrow> (ipv4 option, string) result" where
  "optional_ipv4_try_from s =
     (if s = [] then Inr None
      else case parse_ipv4 s of Some v \<Rightarrow> Inr (Some v) | None \<Rightarrow> Inl ''invalid IPv4 address'')"

definition optional_ipv4_text :: "ipv4 option \<Rightarrow> string" where
  "optional_ipv4_text v = (case v of Some ip \<Rightarrow> show_ipv4 ip | None \<Rightarrow> [])"

definition network_settings_validate :: "network_settings \<Rightarrow> (unit, proto_error) result" where
  "network_settings_validate n =
     (if 3 < length (ns_dns n) then Inl (proto_invalid ''dns'' ''at most three addresses'')
      else if ns_mode n = Dhcp then Inr ()
      else case ns_address n of
             None \<Rightarrow> Inl (proto_invalid ''address'' ''static IPv4 required'')
           | Some address \<Rightarrow>
               if \<not> (8 \<le> unat (ns_prefix n) \<and> unat (ns_prefix n) \<le> 30)
               then Inl (proto_invalid ''prefix'' ''must be 8..30'')
               else
                 (let mask = netmask (ns_prefix n);
                      host = address AND NOT mask
                  in if host = 0 \<or> host = NOT mask \<or> is_loopback address \<or> is_link_local address \<or>
                        is_multicast address \<or> is_unspecified address
                     then Inl (proto_invalid ''address'' ''not a usable unicast address'')
                     else if (case ns_gateway n of None \<Rightarrow> False | Some g \<Rightarrow> g AND mask \<noteq> address AND mask)
                     then Inl (proto_invalid ''gateway'' ''outside subnet'')
                     else Inr ()))"

record vlan_settings =
  vs_id :: u16
  vs_mode :: address_mode
  vs_address :: "ipv4 option"
  vs_prefix :: u8
  vs_gateway :: "ipv4 option"
  vs_allow_gateway :: bool

definition vlan_settings_validate :: "vlan_settings \<Rightarrow> (unit, proto_error) result" where
  "vlan_settings_validate v =
     (if vs_gateway v \<noteq> None \<and> \<not> vs_allow_gateway v
      then Inl (proto_invalid ''gateway'' ''requires allow_gateway'')
      else network_settings_validate
             \<lparr>ns_mode = vs_mode v, ns_address = vs_address v, ns_prefix = vs_prefix v,
              ns_gateway = vs_gateway v, ns_dns = []\<rparr>)"

record wire_profile =
  wp_id :: string
  wp_name :: string
  wp_vlan_id :: "u16 option"
  wp_mode :: address_mode
  wp_address :: "ipv4 option"
  wp_prefix :: u8
  wp_gateway :: "ipv4 option"
  wp_dns :: "ipv4 list"

record wire_profiles =
  wps_version :: u32
  wps_revision :: u64
  wps_interface :: string
  wps_backend :: network_backend
  wps_networks :: "wire_profile list"
  wps_management :: string
  wps_ndi :: string
  wps_tessera :: string

text \<open>The walk over the rows, with the ids, tags and subnets met so far.\<close>

fun wire_rows ::
  "wire_profiles \<Rightarrow> string list \<Rightarrow> u16 option list \<Rightarrow> (u32 \<times> u32) list \<Rightarrow> wire_profile list \<Rightarrow>
   (u16 option list, proto_error) result" where
  "wire_rows p ids tags subnets [] = Inr tags"
| "wire_rows p ids tags subnets (n # ns) =
     (if is_blank (wp_name n) \<or> 64 < length (chars (wp_name n)) \<or> list_ex is_control (chars (wp_name n))
      then Inl (proto_invalid ''networks.name'' ''invalid name'')
      else if wp_id n \<in> set ids \<or> wp_vlan_id n \<in> set tags
      then Inl (proto_invalid ''networks'' ''duplicate id or VLAN'')
      else if (case wp_vlan_id n of None \<Rightarrow> False
               | Some v \<Rightarrow> 15 < length (wps_interface p) + 1 + length (dec (unat v)))
      then Inl (proto_invalid ''interface'' ''VLAN interface name too long'')
      else
        bind_r (network_settings_validate
                  \<lparr>ns_mode = wp_mode n, ns_address = wp_address n, ns_prefix = wp_prefix n,
                   ns_gateway = wp_gateway n, ns_dns = wp_dns n\<rparr>) (\<lambda>_.
          if wp_id n \<noteq> wps_management p \<and> (wp_gateway n \<noteq> None \<or> wp_dns n \<noteq> [])
          then Inl (proto_invalid ''networks.gateway'' ''gateway and DNS belong to management only'')
          else case (wp_mode n, wp_address n) of
                 (Static, Some a) \<Rightarrow>
                   (let mask = netmask (wp_prefix n); lo = a AND mask; hi = lo OR NOT mask
                    in if list_ex (\<lambda>(l, h). lo \<le> h \<and> l \<le> hi) subnets
                       then Inl (proto_invalid ''networks'' ''subnets overlap'')
                       else wire_rows p (wp_id n # ids) (wp_vlan_id n # tags) (subnets @ [(lo, hi)]) ns)
               | _ \<Rightarrow> wire_rows p (wp_id n # ids) (wp_vlan_id n # tags) subnets ns))"

definition wire_profiles_validate ::
  "(wire_profiles \<Rightarrow> (nat, string) result) \<Rightarrow> wire_profiles \<Rightarrow> (unit, proto_error) result" where
  "wire_profiles_validate json_len p =
     (if wps_version p \<noteq> 1 \<or> wps_networks p = [] \<or> 9 < length (wps_networks p)
      then Inl (proto_invalid ''networks'' ''version 1; one to nine networks required'')
      else
        bind_r (wire_rows p [] [] [] (wps_networks p)) (\<lambda>tags.
          if 8 < length (filter (\<lambda>t. t \<noteq> None) tags)
          then Inl (proto_invalid ''networks'' ''at most eight tagged VLANs'')
          else if list_ex (\<lambda>r. r \<notin> set (map wp_id (wps_networks p)))
                    [wps_management p, wps_ndi p, wps_tessera p]
          then Inl (proto_invalid ''roles'' ''removed network requires replacement'')
          else bind_r (map_err (proto_invalid ''profiles'') (json_len p)) (\<lambda>len.
                 if 65536 < len then Inl (proto_invalid ''profiles'' ''exceeds 64KiB'') else Inr ())))"

section \<open>Network calls\<close>

record network_request =
  nq_version :: u32
  nq_expect_revision :: u64
  nq_profiles :: network_profiles

definition new_network_request :: "u64 \<Rightarrow> network_profiles \<Rightarrow> network_request" where
  "new_network_request expect_revision profiles =
     \<lparr>nq_version = 1, nq_expect_revision = expect_revision, nq_profiles = profiles\<rparr>"

datatype (plugins only: size) network_call =
    CallStatus
  | CallObserve
  | CallCheckAddress string
  | CallPreview network_request
  | CallStage network_request "network_session_path option"
  | CallPending string
  | CallConfirm string "string option"
  | CallRevert string
  | CallRollback
  | CallAcceptCurrent
  | CallHandoffPrepare
  | CallHandoffCancel string
  | CallHandoffImport network_handoff
  | CallHandoffCommit network_handoff impact_token "network_session_path option"

definition is_read_only :: "network_call \<Rightarrow> bool" where
  "is_read_only c =
     (case c of CallStatus \<Rightarrow> True | CallObserve \<Rightarrow> True | CallCheckAddress _ \<Rightarrow> True
      | CallPreview _ \<Rightarrow> True | CallPending _ \<Rightarrow> True | _ \<Rightarrow> False)"

section \<open>Requests\<close>

datatype (plugins only: size) request =
    WriteLegacyConfig legacy_config_file json
  | WriteLegacyLogo logo_file string
  | RemoveLogo logo_file
  | RenderArtifacts u64
  | ServiceControlUnit managed_unit unit_action
  | RestartFinder | RestartStackUnits | StopCore | StartCore | RebootHost
  | SetHostname string
  | SetTimeSync "string option"
  | SetRebootSchedule reboot_request
  | StartUpdate
  | InstallRelease string bool
  | CheckUpdate
  | CpuTuning cpu_profile
  | NetworkNative network_call
  | NetworkStatusRequest
  | NetworkCheckAddress ipv4
  | NetworkApply network_settings
  | NetworkConfirmToken string
  | NetworkRollbackAll
  | NetworkVlanList
  | NetworkVlanApply vlan_settings string
  | NetworkVlanRemove u16 string
  | NetworkProfilesStatus
  | NetworkProfilesPreview wire_profiles
  | NetworkProfilesStage wire_profiles
  | NetworkProfilesConfirm string ipv4
  | NetworkProfilesRevert string
  | NetworkProfilesRollback | NetworkProfilesBoot | NetworkProfilesSyncTessera
  | PluginRuntimeStart string
  | PluginRuntimeStop string
  | PluginRuntimeStatus string
  | PluginResetStateRequest
  | PluginInspect string plugin_archive "string option"
  | PluginInstall string plugin_archive "string option" bool
  | PluginUninstall string remove_mode
  | PluginExec string string
  | PluginServiceControl string unit_action
  | PluginJobStatus string
  | PluginJobCancel string
  | TesseraWriteFlows "tessera_flow_spec list"
  | TesseraWriteAlsa u16 u16
  | TesseraWritePcms "tessera_pcm_spec list"
  | TesseraBundle bundle_action
  | TesseraServiceUnit unit_action
  | TesseraEnable | TesseraDisable

definition is_routine_read :: "request \<Rightarrow> bool" where
  "is_routine_read r = (case r of CheckUpdate \<Rightarrow> True | NetworkNative c \<Rightarrow> is_read_only c | _ \<Rightarrow> False)"

primrec request_kind :: "request \<Rightarrow> string" where
  "request_kind (WriteLegacyConfig f j) = ''write_legacy_config''"
| "request_kind (WriteLegacyLogo f b) = ''write_legacy_logo''"
| "request_kind (RemoveLogo f) = ''remove_logo''"
| "request_kind (RenderArtifacts r) = ''render_artifacts''"
| "request_kind (ServiceControlUnit u a) = ''service_control''"
| "request_kind RestartFinder = ''restart_finder''"
| "request_kind RestartStackUnits = ''restart_stack''"
| "request_kind StopCore = ''stop_core''"
| "request_kind StartCore = ''start_core''"
| "request_kind RebootHost = ''reboot''"
| "request_kind (SetHostname n) = ''set_hostname''"
| "request_kind (SetTimeSync s) = ''set_time_sync''"
| "request_kind (SetRebootSchedule s) = ''set_reboot_schedule''"
| "request_kind StartUpdate = ''start_update''"
| "request_kind (InstallRelease v f) = ''install_update''"
| "request_kind CheckUpdate = ''check_update''"
| "request_kind (CpuTuning p) = ''cpu_tuning''"
| "request_kind (NetworkNative c) = ''network_native''"
| "request_kind NetworkStatusRequest = ''network_status''"
| "request_kind (NetworkCheckAddress a) = ''network_check_address''"
| "request_kind (NetworkApply s) = ''network_apply''"
| "request_kind (NetworkConfirmToken t) = ''network_confirm''"
| "request_kind NetworkRollbackAll = ''network_rollback''"
| "request_kind NetworkVlanList = ''network_vlan_list''"
| "request_kind (NetworkVlanApply v ip) = ''network_vlan_apply''"
| "request_kind (NetworkVlanRemove i ip) = ''network_vlan_remove''"
| "request_kind NetworkProfilesStatus = ''network_profiles_status''"
| "request_kind (NetworkProfilesPreview p) = ''network_profiles_preview''"
| "request_kind (NetworkProfilesStage p) = ''network_profiles_stage''"
| "request_kind (NetworkProfilesConfirm t a) = ''network_profiles_confirm''"
| "request_kind (NetworkProfilesRevert t) = ''network_profiles_revert''"
| "request_kind NetworkProfilesRollback = ''network_profiles_rollback''"
| "request_kind NetworkProfilesBoot = ''network_profiles_boot''"
| "request_kind NetworkProfilesSyncTessera = ''network_profiles_sync_tessera''"
| "request_kind (PluginRuntimeStart n) = ''plugin_runtime_start''"
| "request_kind (PluginRuntimeStop n) = ''plugin_runtime_stop''"
| "request_kind (PluginRuntimeStatus n) = ''plugin_runtime_status''"
| "request_kind PluginResetStateRequest = ''plugin_reset_state''"
| "request_kind (PluginInspect n a v) = ''plugin_inspect''"
| "request_kind (PluginInstall n a v f) = ''plugin_install''"
| "request_kind (PluginUninstall n m) = ''plugin_uninstall''"
| "request_kind (PluginExec n c) = ''plugin_exec''"
| "request_kind (PluginServiceControl u a) = ''plugin_service_control''"
| "request_kind (PluginJobStatus j) = ''plugin_job_status''"
| "request_kind (PluginJobCancel j) = ''plugin_job_cancel''"
| "request_kind (TesseraWriteFlows f) = ''tessera_write_flows''"
| "request_kind (TesseraWriteAlsa r t) = ''tessera_write_alsa''"
| "request_kind (TesseraWritePcms p) = ''tessera_write_pcms''"
| "request_kind (TesseraBundle a) = ''tessera_bundle''"
| "request_kind (TesseraServiceUnit a) = ''tessera_service''"
| "request_kind TesseraEnable = ''tessera_enable''"
| "request_kind TesseraDisable = ''tessera_disable''"

definition MAX_CONFIG_BYTES :: nat where "MAX_CONFIG_BYTES = 4 * 1024 * 1024"

text \<open>The encoded sizes the checks look at.\<close>

record json_sizes =
  jz_value :: "json \<Rightarrow> (nat, string) result"
  jz_flows :: "tessera_flow_spec list \<Rightarrow> (nat, string) result"
  jz_profiles :: "wire_profiles \<Rightarrow> (nat, string) result"

fun flows_specs_walk :: "string list \<Rightarrow> nat \<Rightarrow> tessera_flow_spec list \<Rightarrow> (nat, proto_error) result" where
  "flows_specs_walk ids rx [] = Inr rx"
| "flows_specs_walk ids rx (f # fs) =
     bind_r (flow_spec_validate f) (\<lambda>_.
       if fs_id f \<in> set ids then Inl (proto_invalid ''flows.id'' ''unique flow id required'')
       else flows_specs_walk (fs_id f # ids) (if fs_direction f = Rx then rx + 1 else rx) fs)"

definition request_validate :: "json_sizes \<Rightarrow> request \<Rightarrow> (unit, proto_error) result" where
  "request_validate jz r =
     (case r of
        WriteLegacyConfig _ j \<Rightarrow>
          bind_r (map_err (proto_invalid ''json'') (jz_value jz j)) (\<lambda>len.
            if MAX_CONFIG_BYTES < len then Inl (proto_invalid ''json'' ''config exceeds 4 MiB'') else Inr ())
      | WriteLegacyLogo _ b \<Rightarrow>
          if (MAX_CONFIG_BYTES + 2) div 3 * 4 < length b
          then Inl (proto_invalid ''base64'' ''logo exceeds 4 MiB'') else Inr ()
      | SetRebootSchedule (RebootWeekly _ days) \<Rightarrow>
          if days = [] \<or> 7 < length days \<or> \<not> distinct days
          then Inl (proto_invalid ''days'' ''unique, nonempty weekdays required'') else Inr ()
      | NetworkApply s \<Rightarrow> network_settings_validate s
      | NetworkVlanApply v _ \<Rightarrow> vlan_settings_validate v
      | NetworkProfilesPreview p \<Rightarrow> wire_profiles_validate (jz_profiles jz) p
      | NetworkProfilesStage p \<Rightarrow> wire_profiles_validate (jz_profiles jz) p
      | TesseraWriteFlows flows \<Rightarrow>
          bind_r (map_err (proto_invalid ''flows'') (jz_flows jz flows)) (\<lambda>len.
            if 60000 < len then Inl (proto_invalid ''flows'' ''flows exceed 60KB plugin write limit'')
            else bind_r (flows_specs_walk [] 0 flows) (\<lambda>rx.
                   if 1 < rx then Inl (proto_invalid ''flows'' ''only one RX flow; all channels are carried'')
                   else Inr ()))
      | TesseraWritePcms ranges \<Rightarrow>
          if 128 < length ranges \<or>
             list_ex (\<lambda>r. 65536 < unat (pcm_first_channel r) + unat (pcm_channels r)) ranges
          then Inl (proto_invalid ''ranges'' ''invalid PCM range'') else Inr ()
      | PluginServiceControl _ UnitReload \<Rightarrow>
          Inl (proto_invalid ''action'' ''plugin service control allows start, stop or restart'')
      | _ \<Rightarrow> Inr ())"

text \<open>What the decoder has checked of the string and number fields before \<open>request_validate\<close>.\<close>

definition archive_well_typed :: "plugin_archive \<Rightarrow> bool" where
  "archive_well_typed a =
     (case a of ArchiveDownload i \<Rightarrow> archive_id_ok i | ArchiveImport d i \<Rightarrow> import_id_ok d \<and> archive_id_ok i)"

definition opt_all :: "('a \<Rightarrow> bool) \<Rightarrow> 'a option \<Rightarrow> bool" where
  "opt_all P m = (case m of None \<Rightarrow> True | Some x \<Rightarrow> P x)"

definition request_well_typed :: "request \<Rightarrow> bool" where
  "request_well_typed r =
     (case r of
        SetHostname n \<Rightarrow> label_ok n
      | SetTimeSync s \<Rightarrow> opt_all ntp_server_ok s
      | SetRebootSchedule s \<Rightarrow>
          (case s of RebootDisabled \<Rightarrow> True | RebootDaily t \<Rightarrow> wall_time_ok t | RebootWeekly t _ \<Rightarrow> wall_time_ok t)
      | InstallRelease v _ \<Rightarrow> release_version v
      | NetworkConfirmToken t \<Rightarrow> network_token_ok t
      | NetworkProfilesConfirm t _ \<Rightarrow> network_token_ok t
      | NetworkProfilesRevert t \<Rightarrow> network_token_ok t
      | NetworkVlanApply v _ \<Rightarrow> is_ok (vlan_id_try_from (vs_id v))
      | NetworkVlanRemove i _ \<Rightarrow> is_ok (vlan_id_try_from i)
      | PluginRuntimeStart n \<Rightarrow> plugin_ok n
      | PluginRuntimeStop n \<Rightarrow> plugin_ok n
      | PluginRuntimeStatus n \<Rightarrow> plugin_ok n
      | PluginInspect n a v \<Rightarrow> plugin_ok n \<and> archive_well_typed a \<and> opt_all debian_version_ok v
      | PluginInstall n a v _ \<Rightarrow> plugin_ok n \<and> archive_well_typed a \<and> opt_all debian_version_ok v
      | PluginUninstall n _ \<Rightarrow> plugin_ok n
      | PluginExec n c \<Rightarrow> plugin_ok n \<and> plugin_ok c
      | PluginServiceControl u _ \<Rightarrow> plugin_unit_ok u
      | PluginJobStatus j \<Rightarrow> plugin_job_ok j
      | PluginJobCancel j \<Rightarrow> plugin_job_ok j
      | _ \<Rightarrow> True)"

text \<open>Decoding: the typed fields first, then \<open>validate\<close>, whose error is reported as text.\<close>

definition decode_request :: "json_sizes \<Rightarrow> string \<Rightarrow> request \<Rightarrow> (request, string) result" where
  "decode_request jz reason r =
     (if \<not> request_well_typed r then Inl reason
      else bind_r (map_err proto_error_text (request_validate jz r)) (\<lambda>_. Inr r))"

section \<open>Lemmas\<close>

lemma optional_ipv4_round_trip: "optional_ipv4_try_from (optional_ipv4_text v) = Inr v"
proof (cases v)
  case (Some ip)
  have "show_ipv4 ip \<noteq> []" by (simp add: show_ipv4_def)
  with Some show ?thesis by (simp add: optional_ipv4_try_from_def optional_ipv4_text_def parse_ipv4_show)
qed (simp add: optional_ipv4_try_from_def optional_ipv4_text_def)

end
