(* ===== verification/Plugin_Manifest.thy ===== *)
theory Plugin_Manifest
  imports Privd_Proto
begin

text \<open>
  Plugin manifests and their data schemas (\<open>ndimon-privd-proto/src/plugin.rs\<close>).

  A \<open>manifest\<close> is a decoded \<open>Manifest\<close>; \<open>manifest_validate\<close> is the check shared by the builder, the
  installer and the host. Schemas and plugin data are JSON values: \<open>schema_visit\<close> threads the node
  counter of \<open>visit\<close>, \<open>value_check\<close> is the recursive check of \<open>validate_value\<close>; both recurse at most to
  the depth they allow, which is their termination measure. Sizes of encodings are a parameter, and a
  number compares as the \<open>f64\<close> it converts to. The program builds with insertion-ordered objects; a model
  object lists its keys in order, which can change which of several errors is reported first, never
  whether there is one.

  The results: a validated manifest is confined to its own units and directories, archive names parse
  back, and units of the host that the reserved list misses are within reach of a plugin name.
\<close>

section \<open>Numbers of JSON values\<close>

fun bit_length :: "nat \<Rightarrow> nat" where
  "bit_length n = (if n = 0 then 0 else Suc (bit_length (n div 2)))"

declare bit_length.simps [simp del]

text \<open>\<open>as f64\<close> of an integer: 53 bits, to nearest, ties to even.\<close>

definition int_to_f64 :: "int \<Rightarrow> rat" where
  "int_to_f64 n =
     (let m = nat \<bar>n\<bar>; s = bit_length m - 53; q = m div 2 ^ s; r = m mod 2 ^ s;
          up = (2 ^ s < 2 * r \<or> (2 ^ s = 2 * r \<and> odd q))
      in of_int (sgn n * int ((if up then q + 1 else q) * 2 ^ s)))"

definition as_f64 :: "json \<Rightarrow> rat option" where
  "as_f64 v = (case v of JInt n \<Rightarrow> Some (int_to_f64 n) | JFloat (Finite q) \<Rightarrow> Some q | _ \<Rightarrow> None)"

definition is_number :: "json \<Rightarrow> bool" where
  "is_number v = (case v of JInt _ \<Rightarrow> True | JFloat _ \<Rightarrow> True | _ \<Rightarrow> False)"

definition as_array :: "json \<Rightarrow> json list option" where
  "as_array v = (case v of JArray xs \<Rightarrow> Some xs | _ \<Rightarrow> None)"

section \<open>Names and paths\<close>

definition simple_file :: "string \<Rightarrow> bool" where
  "simple_file s =
     (case split_once (CHR ''.'') s of
        None \<Rightarrow> False
      | Some (stem, ext) \<Rightarrow>
          stem \<noteq> [] \<and> ext \<noteq> [] \<and> list_all (\<lambda>b. is_ascii_alphanumeric b \<or> b \<in> set ''_-'') stem \<and>
          list_all is_ascii_alphanumeric ext)"

definition safe_manifest_path :: "string \<Rightarrow> bool" where
  "safe_manifest_path s =
     (starts_with ''/'' s \<and> 1 < length s \<and>
      list_all (\<lambda>b. is_ascii_alphanumeric b \<or> b \<in> set ''_./-'') s \<and>
      \<not> list_ex (\<lambda>p. p = ''..'') (split_on (CHR ''/'') s))"

definition native_lifecycle :: "string \<Rightarrow> bool" where
  "native_lifecycle name = (name = ''tessera'')"

definition ARCHIVE_ARCHITECTURES :: "string list" where
  "ARCHIVE_ARCHITECTURES = [''amd64'', ''arm64'']"

definition archive_name :: "string \<Rightarrow> string \<Rightarrow> string \<Rightarrow> string" where
  "archive_name plugin version arch =
     plugin @ ''-plugin_'' @ replace_char (CHR ''~'') (CHR ''-'') version @ ''_'' @ arch @ ''.tar.gz''"

definition parse_archive_name :: "string \<Rightarrow> string \<Rightarrow> (string \<times> string) option" where
  "parse_archive_name file arch =
     (case split_once_str ''-plugin_'' file of
        None \<Rightarrow> None
      | Some (name, suffix) \<Rightarrow>
          map_option (Pair name) (strip_suffix (''_'' @ arch @ ''.tar.gz'') suffix))"

definition reserved_units :: "string list" where
  "reserved_units =
     [''ssh.service'', ''sshd.service'', ''ndimon-r.service'', ''ndimon-api.service'',
      ''ndimon-finder.service'', ''ndimon-control.service'', ''ndimon-watchdog.service'']"

definition permitted_service :: "string \<Rightarrow> string \<Rightarrow> bool" where
  "permitted_service name u =
     (u \<notin> set reserved_units \<and>
      ((name = ''tessera'' \<and> u = ''tesserad.service'') \<or>
       (name = ''bluetooth'' \<and> u = ''bluealsa.service'') \<or>
       u = name @ ''.service'' \<or>
       list_ex (\<lambda>p. starts_with p u) [name @ ''-'', name @ ''@'', ''ndimon-'' @ name @ ''.'', ''ndimon-'' @ name @ ''-'']))"

definition permitted_group :: "string \<Rightarrow> string \<Rightarrow> bool" where
  "permitted_group name grp =
     (grp \<notin> set [''root'', ''sudo'', ''wheel'', ''adm'', ''shadow'', ''disk'', ''docker'', ''lxd'', ''kmem'',
                    ''systemd-journal'', ''ndimon'', ''ndimon-priv'', ''ndimon-priv-control'', ''ndimon-priv-api'',
                    ''ndimon-control''] \<and>
      (name = ''tessera'' \<or> grp \<notin> set [''tessera'', ''tessera-admin'']))"

definition relative_path :: "string \<Rightarrow> bool" where
  "relative_path path =
     (path \<noteq> [] \<and> length path \<le> 240 \<and>
      list_all (\<lambda>p. p \<noteq> [] \<and> p \<noteq> ''.'' \<and> p \<noteq> ''..'' \<and>
        list_all (\<lambda>c. is_ascii_alphanumeric c \<or> c \<in> set ''._-'') p) (split_on (CHR ''/'') path))"

definition command_name :: "string \<Rightarrow> bool" where
  "command_name name =
     (name \<noteq> [] \<and> length name \<le> 64 \<and>
      list_all (\<lambda>c. is_ascii_lowercase c \<or> is_ascii_digit c \<or> c \<in> set ''_-'') name)"

section \<open>Schemas\<close>

definition schema_types :: "string list" where
  "schema_types = [''object'', ''array'', ''string'', ''boolean'', ''integer'', ''number'', ''null'']"

fun required_names :: "json \<Rightarrow> string list \<Rightarrow> json list \<Rightarrow> (unit, string) result" where
  "required_names s seen [] = Inr ()"
| "required_names s seen (n # ns) =
     (case n of
        JString name \<Rightarrow>
          if name \<in> set seen \<or> json_get (json_index s ''properties'') name = None
          then Inl ''unknown or duplicate required property''
          else required_names s (name # seen) ns
      | _ \<Rightarrow> Inl ''required names must be strings'')"

definition bounds_inverted :: "json \<Rightarrow> bool" where
  "bounds_inverted s =
     list_ex (\<lambda>(lo, hi). case (as_f64 (json_index s lo), as_f64 (json_index s hi)) of
                 (Some a, Some b) \<Rightarrow> b < a | _ \<Rightarrow> False)
       [(''minLength'', ''maxLength''), (''minItems'', ''maxItems''),
        (''minProperties'', ''maxProperties''), (''minimum'', ''maximum'')]"

text \<open>One keyword of a schema of the given kind; the nodes below it are visited by \<open>visit\<close>.\<close>

definition schema_keyword ::
  "(json \<Rightarrow> nat \<Rightarrow> string + nat) \<Rightarrow> json \<Rightarrow> string \<Rightarrow> string \<times> json \<Rightarrow> nat \<Rightarrow> string + nat" where
  "schema_keyword visit s kind = (\<lambda>(key, v) nodes.
     if key = ''type'' then Inr nodes
     else if key = ''properties'' \<and> kind = ''object'' then
       (case v of JObject m \<Rightarrow> try_fold visit (bt_values m) nodes | _ \<Rightarrow> Inl ''properties must be an object'')
     else if key = ''required'' \<and> kind = ''object'' then
       (case v of JArray names \<Rightarrow> bind_r (required_names s [] names) (\<lambda>_. Inr nodes)
        | _ \<Rightarrow> Inl ''required must be an array'')
     else if key = ''additionalProperties'' \<and> kind = ''object'' \<and> (case v of JBool _ \<Rightarrow> True | _ \<Rightarrow> False) then Inr nodes
     else if key = ''items'' \<and> kind = ''array'' then visit v nodes
     else if key \<in> {''minLength'', ''maxLength''} \<and> kind = ''string'' \<and> as_u64 v \<noteq> None then Inr nodes
     else if key \<in> {''minItems'', ''maxItems''} \<and> kind = ''array'' \<and> as_u64 v \<noteq> None then Inr nodes
     else if key \<in> {''minProperties'', ''maxProperties''} \<and> kind = ''object'' \<and> as_u64 v \<noteq> None then Inr nodes
     else if key \<in> {''minimum'', ''maximum''} \<and> kind \<in> {''number'', ''integer''} \<and> is_number v then Inr nodes
     else if key = ''enum'' \<and> (case v of JArray xs \<Rightarrow> xs \<noteq> [] \<and> length xs \<le> 256 | _ \<Rightarrow> False) then Inr nodes
     else Inl (''unsupported schema keyword '' @ key))"

lemma schema_keyword_cong [fundef_cong]:
  assumes "s = s'" "kind = kind'" "e = e'" "n = n'" "\<And>v m. visit v m = visit' v m"
  shows "schema_keyword visit s kind e n = schema_keyword visit' s' kind' e' n'"
proof -
  have "visit = visit'" using assms(5) by blast
  with assms show ?thesis by simp
qed

function schema_visit :: "nat \<Rightarrow> json \<Rightarrow> nat \<Rightarrow> string + nat" where
  "schema_visit depth s nodes =
     (if 16 < depth \<or> 1024 < nodes + 1 then Inl ''schema complexity limit''
      else case s of
             JObject m \<Rightarrow>
               (case json_index s ''type'' of
                  JString kind \<Rightarrow>
                    if kind \<notin> set schema_types then Inl ''unsupported schema type''
                    else bind_r (try_fold (schema_keyword (\<lambda>v n. schema_visit (depth + 1) v n) s kind) m (nodes + 1)) (\<lambda>n.
                           if bounds_inverted s then Inl ''inverted schema bounds'' else Inr n)
                | _ \<Rightarrow> Inl ''schema type required'')
           | _ \<Rightarrow> Inl ''schema must be an object'')"
  by pat_completeness auto

termination schema_visit
  by (relation "measure (\<lambda>(depth, _). 17 - depth)") auto

declare schema_visit.simps [simp del]

definition validate_schema :: "(json \<Rightarrow> (nat, string) result) \<Rightarrow> json \<Rightarrow> (unit, string) result" where
  "validate_schema size_of s =
     bind_r (size_of s) (\<lambda>len.
       if 32 * 1024 < len then Inl ''schema exceeds 32 KiB''
       else bind_r (schema_visit 0 s 0) (\<lambda>_. Inr ()))"

section \<open>Values\<close>

definition has_type :: "string \<Rightarrow> json \<Rightarrow> bool" where
  "has_type kind v =
     (if kind = ''object'' then is_object v
      else if kind = ''array'' then (case v of JArray _ \<Rightarrow> True | _ \<Rightarrow> False)
      else if kind = ''string'' then (case v of JString _ \<Rightarrow> True | _ \<Rightarrow> False)
      else if kind = ''boolean'' then (case v of JBool _ \<Rightarrow> True | _ \<Rightarrow> False)
      else if kind = ''integer'' then (case v of JInt _ \<Rightarrow> True | _ \<Rightarrow> False)
      else if kind = ''number'' then is_number v
      else if kind = ''null'' then v = JNull
      else False)"

definition length_ok :: "json \<Rightarrow> nat \<Rightarrow> string \<Rightarrow> string \<Rightarrow> bool" where
  "length_ok s n lo hi =
     (\<not> (case as_u64 (json_index s lo) of Some b \<Rightarrow> n < b | None \<Rightarrow> False) \<and>
      \<not> (case as_u64 (json_index s hi) of Some b \<Rightarrow> b < n | None \<Rightarrow> False))"

definition range_ok :: "json \<Rightarrow> json \<Rightarrow> bool" where
  "range_ok s v =
     (case as_f64 v of
        None \<Rightarrow> True
      | Some n \<Rightarrow>
          \<not> (case as_f64 (json_index s ''minimum'') of Some b \<Rightarrow> n < b | None \<Rightarrow> False) \<and>
          \<not> (case as_f64 (json_index s ''maximum'') of Some b \<Rightarrow> b < n | None \<Rightarrow> False))"

definition value_lengths :: "json \<Rightarrow> json \<Rightarrow> bool" where
  "value_lengths s v =
     (case v of
        JObject m \<Rightarrow> length_ok s (length m) ''minProperties'' ''maxProperties''
      | JArray xs \<Rightarrow> length_ok s (length xs) ''minItems'' ''maxItems''
      | JString t \<Rightarrow> length_ok s (length (chars t)) ''minLength'' ''maxLength''
      | _ \<Rightarrow> True)"

fun required_present :: "(string, json) bmap \<Rightarrow> json list \<Rightarrow> (unit, string) result" where
  "required_present m [] = Inr ()"
| "required_present m (n # ns) =
     (case n of
        JString name \<Rightarrow> if bt_get m name = None then Inl ''required property missing'' else required_present m ns
      | _ \<Rightarrow> Inl ''invalid required'')"

function value_check :: "nat \<Rightarrow> json \<Rightarrow> json \<Rightarrow> string + unit" where
  "value_check depth s v =
     (if 32 < depth then Inl ''plugin data nesting limit''
      else case json_index s ''type'' of
             JString kind \<Rightarrow>
               if \<not> has_type kind v then Inl (''expected '' @ kind)
               else if (case json_index s ''enum'' of JArray a \<Rightarrow> v \<notin> set a | _ \<Rightarrow> False)
               then Inl ''value outside enum''
               else
                 bind_r
                   (case v of
                      JObject m \<Rightarrow>
                        bind_r (required_present m (case json_index s ''required'' of JArray a \<Rightarrow> a | _ \<Rightarrow> [])) (\<lambda>_.
                          try_fold (\<lambda>(key, item) _.
                            case json_get (json_index s ''properties'') key of
                              Some child \<Rightarrow> value_check (depth + 1) child item
                            | None \<Rightarrow>
                                if json_index s ''additionalProperties'' = JBool False
                                then Inl (''unknown property '' @ key) else Inr ()) m ())
                    | JArray xs \<Rightarrow>
                        (case json_get s ''items'' of
                           Some child \<Rightarrow> try_fold (\<lambda>item _. value_check (depth + 1) child item) xs ()
                         | None \<Rightarrow> Inr ())
                    | _ \<Rightarrow> Inr ())
                   (\<lambda>_. if \<not> value_lengths s v then Inl ''length outside schema bounds''
                        else if \<not> range_ok s v then Inl ''number outside schema bounds'' else Inr ())
           | _ \<Rightarrow> Inl ''schema type required'')"
  by pat_completeness auto

termination value_check
  by (relation "measure (\<lambda>(depth, _). 33 - depth)") auto

declare value_check.simps [simp del]

definition validate_value :: "(json \<Rightarrow> (nat, string) result) \<Rightarrow> json \<Rightarrow> json \<Rightarrow> (unit, string) result" where
  "validate_value size_of s v =
     bind_r (size_of v) (\<lambda>len.
       if 1024 * 1024 < len then Inl ''plugin data exceeds 1 MiB'' else value_check 0 s v)"

section \<open>Manifests\<close>

record process =
  pr_exec :: string
  pr_args :: "string list"

record state_schema =
  ss_schema :: json
  ss_default :: json

record command_schema =
  cs_input :: json
  cs_output :: json

record manifest =
  mf_name :: string
  mf_schema_version :: "u32 option"
  mf_process :: "process option"
  mf_state :: "state_schema option"
  mf_commands :: "(string, command_schema) bmap"
  mf_events :: "string list"
  mf_version :: string
  mf_title :: string
  mf_min_ndimon :: string
  mf_icon :: string
  mf_routes :: string
  mf_ui :: string
  mf_backup :: "string option"
  mf_install :: string
  mf_uninstall :: string
  mf_priv_commands :: "string list"
  mf_services :: "string list"
  mf_supplementary_groups :: "string list"
  mf_readwrite_paths :: "string list"
  mf_config_files :: "string list"

definition process_error :: "string \<Rightarrow> proto_error" where
  "process_error reason = proto_invalid ''manifest.process'' reason"

definition validate_process :: "(json \<Rightarrow> (nat, string) result) \<Rightarrow> manifest \<Rightarrow> (unit, proto_error) result" where
  "validate_process size_of mf =
     (case mf_process mf of
        None \<Rightarrow>
          if (case mf_schema_version mf of Some v \<Rightarrow> v \<noteq> 1 | None \<Rightarrow> False) \<or> mf_state mf \<noteq> None \<or>
             mf_commands mf \<noteq> [] \<or> mf_events mf \<noteq> []
          then Inl (process_error ''v2 declarations require process'') else Inr ()
      | Some p \<Rightarrow>
          if mf_schema_version mf \<noteq> Some 2 \<or> \<not> relative_path (pr_exec p) \<or> 32 < length (pr_args p) \<or>
             list_ex (\<lambda>s. 1024 < length s \<or> list_ex is_control (chars s)) (pr_args p)
          then Inl (process_error ''invalid process version, executable or arguments'')
          else
            bind_r (ok_or (mf_state mf) (process_error ''state schema required'')) (\<lambda>st.
            bind_r (map_err process_error (validate_schema size_of (ss_schema st))) (\<lambda>_.
              if \<not> is_object (ss_default st) \<or> json_index (ss_schema st) ''type'' \<noteq> JString ''object''
              then Inl (process_error ''state must be an object'')
              else
                bind_r (map_err process_error (validate_value size_of (ss_schema st) (ss_default st))) (\<lambda>_.
                  if 64 < length (mf_commands mf) then Inl (process_error ''too many commands'')
                  else
                    bind_r (try_fold (\<lambda>(name, c) _.
                        if \<not> command_name name then Inl (process_error ''invalid command name'')
                        else bind_r (map_err process_error (validate_schema size_of (cs_input c))) (\<lambda>_.
                               map_err process_error (validate_schema size_of (cs_output c)))) (mf_commands mf) ()) (\<lambda>_.
                      if \<not> distinct (mf_events mf) \<or>
                         list_ex (\<lambda>e. e \<notin> set [''state_changed'', ''observed'', ''drift'', ''resync'']) (mf_events mf)
                      then Inl (process_error ''invalid or duplicate consumed event'') else Inr ())))))"

definition in_scope :: "string \<Rightarrow> string \<Rightarrow> bool" where
  "in_scope name path =
     list_ex (\<lambda>base. path = base @ name \<or> starts_with (base @ name @ ''/'') path \<or>
         (name = ''tessera'' \<and> starts_with (base @ ''tessera'') path))
       [''/run/'', ''/var/lib/'', ''/etc/'']"

text \<open>The checks of \<open>Manifest::validate\<close> in order; each line is one early return.\<close>

definition manifest_validate ::
  "(json \<Rightarrow> (nat, string) result) \<Rightarrow> string \<Rightarrow> string option \<Rightarrow> manifest \<Rightarrow> (unit, proto_error) result" where
  "manifest_validate size_of name expected mf =
     (if mf_name mf \<noteq> name then Inl (proto_invalid ''manifest.name'' ''plugin name mismatch'')
      else if (case expected of Some v \<Rightarrow> v \<noteq> mf_version mf | None \<Rightarrow> False)
      then Inl (proto_invalid ''manifest.version'' ''bundle version mismatch'')
      else if \<not> (1 \<le> length (chars (mf_title mf)) \<and> length (chars (mf_title mf)) \<le> 40) \<or>
         \<not> starts_with ''bi-'' (mf_icon mf) \<or> length (mf_icon mf) \<le> 3 \<or>
         \<not> list_all (\<lambda>b. is_ascii_lowercase b \<or> is_ascii_digit b \<or> b = CHR ''-'') (drop 3 (mf_icon mf))
      then Inl (proto_invalid ''manifest'' ''invalid title or icon'')
      else if list_ex (\<lambda>s. \<not> simple_file s)
           ([mf_routes mf, mf_ui mf, mf_install mf, mf_uninstall mf] @
            (case mf_backup mf of Some b \<Rightarrow> [b] | None \<Rightarrow> []))
      then Inl (proto_invalid ''manifest'' ''invalid entry filename'')
      else if list_ex (\<lambda>l. \<not> distinct l)
           [mf_priv_commands mf, mf_services mf, mf_supplementary_groups mf, mf_readwrite_paths mf, mf_config_files mf]
      then Inl (proto_invalid ''manifest'' ''duplicate declaration'')
      else
        bind_r (try_fold (\<lambda>g _.
            bind_r (map_err (proto_invalid ''supplementary_groups'') (plugin_name_try_from g)) (\<lambda>_.
              if \<not> permitted_group name g then Inl (proto_invalid ''supplementary_groups'' ''privileged group'')
              else Inr ())) (mf_supplementary_groups mf) ()) (\<lambda>_.
        bind_r (try_fold (\<lambda>u _. if \<not> permitted_service name u
            then Inl (proto_invalid ''services'' ''unscoped service'') else Inr ()) (mf_services mf) ()) (\<lambda>_.
        bind_r (try_fold (\<lambda>p _. if \<not> safe_manifest_path p
            then Inl (proto_invalid ''manifest'' ''invalid configuration path'') else Inr ())
            (mf_config_files mf @ mf_readwrite_paths mf) ()) (\<lambda>_.
        bind_r (try_fold (\<lambda>p _. if \<not> in_scope name p
            then Inl (proto_invalid ''readwrite_paths'' ''unscoped writable path'') else Inr ())
            (mf_readwrite_paths mf) ()) (\<lambda>_.
          validate_process size_of mf)))))"

section \<open>Confinement\<close>

lemma try_fold_checks:
  "try_fold (\<lambda>x _. if \<not> P x then Inl e else Inr ()) xs () = Inr () \<longleftrightarrow> list_all P xs"
  by (induction xs) auto

lemma try_fold_unit_mem:
  fixes f :: "'a \<Rightarrow> unit \<Rightarrow> 'e + unit"
  shows "try_fold f xs () = Inr () \<Longrightarrow> x \<in> set xs \<Longrightarrow> f x () = Inr ()"
  by (induction xs) (auto simp: result_simps)

lemma if_Inl [result_simps]: "(if c then Inl e else m) = Inr x \<longleftrightarrow> \<not> c \<and> m = Inr x"
  by simp

lemma bind_unit:
  fixes m :: "'e + unit"
  shows "bind_r m f = Inr y \<longleftrightarrow> m = Inr () \<and> f () = Inr y"
  by (cases m) auto

text \<open>Lexical resolution of a path: empty and dot components drop, dot-dot removes the one before.\<close>

fun walk_path :: "string list \<Rightarrow> string list \<Rightarrow> string list" where
  "walk_path stack [] = rev stack"
| "walk_path stack (c # cs) =
     (if c = [] \<or> c = ''.'' then walk_path stack cs
      else if c = ''..'' then walk_path (tl stack) cs
      else walk_path (c # stack) cs)"

definition resolve_path :: "string \<Rightarrow> string list" where
  "resolve_path p = walk_path [] (split_on (CHR ''/'') p)"

definition lies_below :: "string \<Rightarrow> string \<Rightarrow> bool" where
  "lies_below name p =
     list_ex (\<lambda>dir. take (length dir + 1) (resolve_path p) = dir @ [name]) [[''run''], [''var'', ''lib''], [''etc'']]"

lemma walk_path_forward: "''..'' \<notin> set cs \<Longrightarrow> \<exists>tail. walk_path stack cs = rev stack @ tail"
  by (induction stack cs rule: walk_path.induct) auto

lemma split_on_rest:
  "c \<notin> set p \<Longrightarrow> rest = [] \<or> rest = c # r \<Longrightarrow> \<exists>cs. split_on c (p @ rest) = p # cs"
  by (auto simp: split_on_append split_on_piece)

lemma split_on_base:
  "base \<in> {''/run/'', ''/var/lib/'', ''/etc/''} \<Longrightarrow>
     \<exists>dir \<in> {[''run''], [''var'', ''lib''], [''etc'']}. split_on (CHR ''/'') (base @ x) = [] # dir @ split_on (CHR ''/'') x \<and>
       list_all (\<lambda>c. c \<noteq> [] \<and> c \<noteq> ''.'' \<and> c \<noteq> ''..'') dir"
  by (elim insertE emptyE) simp_all

lemma walk_path_names:
  "list_all (\<lambda>c. c \<noteq> [] \<and> c \<noteq> ''.'' \<and> c \<noteq> ''..'') dir \<Longrightarrow> walk_path stack (dir @ cs) = walk_path (rev dir @ stack) cs"
  by (induction dir arbitrary: stack) auto

lemma scope_resolves:
  assumes name: "CHR ''/'' \<notin> set name" "name \<noteq> []" "name \<noteq> ''.''" "name \<noteq> ''..''"
    and path: "path = base @ name \<or> starts_with (base @ name @ ''/'') path" "''..'' \<notin> set (split_on (CHR ''/'') path)"
    and base: "base \<in> {''/run/'', ''/var/lib/'', ''/etc/''}"
  shows "lies_below name path"
proof -
  from path(1) obtain rest where rest: "path = base @ name @ rest" "rest = [] \<or> (\<exists>r. rest = CHR ''/'' # r)"
    by (auto simp: starts_with_iff)
  then obtain cs where cs: "split_on (CHR ''/'') (name @ rest) = name # cs"
    using split_on_rest [OF name(1)] by blast
  obtain dir where dir: "dir \<in> {[''run''], [''var'', ''lib''], [''etc'']}"
    "split_on (CHR ''/'') path = [] # dir @ name # cs"
    "list_all (\<lambda>c. c \<noteq> [] \<and> c \<noteq> ''.'' \<and> c \<noteq> ''..'') dir"
    using split_on_base [OF base, of "name @ rest"] unfolding rest(1) cs by blast
  then have "''..'' \<notin> set cs" using path(2) by simp
  then obtain tail where "walk_path (name # rev dir) cs = rev (name # rev dir) @ tail"
    using walk_path_forward by blast
  moreover have "resolve_path path = walk_path (name # rev dir) cs"
    using name(2-4) walk_path_names [OF dir(3), of "[]" "name # cs"] by (simp add: resolve_path_def dir(2))
  ultimately have "take (length dir + 1) (resolve_path path) = dir @ [name]" by simp
  with dir(1) show ?thesis unfolding lies_below_def list_ex_iff by auto
qed

lemma in_scope_resolves:
  assumes "in_scope name path" "name \<noteq> ''tessera''" "''..'' \<notin> set (split_on (CHR ''/'') path)" "safe_word name"
  shows "lies_below name path"
proof -
  from assms(1,2) obtain base where "base \<in> {''/run/'', ''/var/lib/'', ''/etc/''}"
    "path = base @ name \<or> starts_with (base @ name @ ''/'') path"
    unfolding in_scope_def list_ex_iff by (simp only: set_simps) blast
  moreover have "CHR ''/'' \<notin> set name" "name \<noteq> []" "name \<noteq> ''.''" "name \<noteq> ''..''"
    using assms(4) unfolding safe_word_def list_all_iff by blast+
  ultimately show ?thesis
    using assms(3) by (intro scope_resolves)
qed


definition hello_manifest :: manifest where
  "hello_manifest =
     \<lparr>mf_name = ''hello'', mf_schema_version = None, mf_process = None, mf_state = None, mf_commands = [], mf_events = [],
      mf_version = ''1.0'', mf_title = ''Hello'', mf_min_ndimon = ''1.0'', mf_icon = ''bi-puzzle'', mf_routes = ''routes.js'',
      mf_ui = ''ui.html'', mf_backup = None, mf_install = ''install.sh'', mf_uninstall = ''uninstall.sh'',
      mf_priv_commands = [], mf_services = [''ndimon-hello.service''], mf_supplementary_groups = [''audio''],
      mf_readwrite_paths = [''/var/lib/hello/data''], mf_config_files = []\<rparr>"

lemma hello_parts:
  "safe_manifest_path ''/var/lib/hello/data''" "in_scope ''hello'' ''/var/lib/hello/data''"
  "permitted_service ''hello'' ''ndimon-hello.service''" "permitted_group ''hello'' ''audio''" "plugin_ok ''audio''"
  "simple_file ''routes.js''" "simple_file ''ui.html''" "simple_file ''install.sh''" "simple_file ''uninstall.sh''"
  "starts_with ''bi-'' ''bi-puzzle''" "plugin_ok ''hello''"
  by (simp_all add: safe_manifest_path_def in_scope_def permitted_service_def permitted_group_def plugin_ok_def
      simple_file_def split_once_def starts_with_def reserved_units_def ascii_defs)

lemma hello_valid: "manifest_validate (\<lambda>_. Inr 0) ''hello'' None hello_manifest = Inr ()"
  using hello_parts
  by (simp add: manifest_validate_def hello_manifest_def value_try_from try_from_def validate_process_def chars_def
      ascii_defs)


section \<open>Archive names\<close>

lemma split_once_str_first:
  assumes "c \<notin> set p" "c \<notin> set w"
  shows "split_once_str (w @ [c]) (p @ w @ c # rest) = Some (p, rest)"
  using assms(1)
proof (induction p)
  case Nil
  show ?case by (cases w) (auto simp: starts_with_def)
next
  case (Cons x p)
  have "\<not> starts_with (w @ [c]) (x # p @ w @ c # rest)"
  proof
    assume "starts_with (w @ [c]) (x # p @ w @ c # rest)"
    then have "(x # p @ w @ c # rest) ! length w = c"
      unfolding starts_with_iff by (metis append.assoc append_Cons nth_append_length)
    moreover have "(x # p @ w @ c # rest) ! length w \<in> set (x # p @ w)"
      using nth_append [of "x # p @ w" "c # rest" "length w"] nth_mem [of "length w" "x # p @ w"] by simp
    ultimately show False using Cons.prems assms(2) by auto
  qed
  with Cons show ?case by simp
qed

text \<open>
  Archive names round-trip. The name built for a plugin, a version and an architecture parses back
  for that architecture to the plugin and the version (with its tildes written as hyphens), and for no
  other architecture.
\<close>

theorem archive_name_round_trip:
  assumes "plugin_ok p" and "arch \<in> set ARCHIVE_ARCHITECTURES" and "arch' \<in> set ARCHIVE_ARCHITECTURES"
  shows "parse_archive_name (archive_name p v arch) arch' =
    (if arch' = arch then Some (p, replace_char (CHR ''~'') (CHR ''-'') v) else None)"
proof -
  let ?v = "replace_char (CHR ''~'') (CHR ''-'') v"
  have "CHR ''_'' \<notin> set p"
    using assms(1) by (auto simp: plugin_ok_def list_all_iff ascii_defs)
  then have "split_once_str (''-plugin'' @ ''_'') (p @ ''-plugin'' @ CHR ''_'' # ?v @ ''_'' @ arch @ ''.tar.gz'')
      = Some (p, ?v @ ''_'' @ arch @ ''.tar.gz'')"
    by (intro split_once_str_first) auto
  then have "split_once_str ''-plugin_'' (archive_name p v arch) = Some (p, ?v @ ''_'' @ arch @ ''.tar.gz'')"
    by (simp add: archive_name_def)
  moreover have "strip_suffix (''_'' @ arch' @ ''.tar.gz'') (?v @ ''_'' @ arch @ ''.tar.gz'') =
      (if arch' = arch then Some ?v else None)"
    using assms(2,3) by (auto simp: ARCHIVE_ARCHITECTURES_def strip_suffix_def ends_with_def)
  ultimately show ?thesis by (simp add: parse_archive_name_def)
qed

theorem archive_name_round_trip_witness:
  "parse_archive_name (archive_name ''hello'' ''1.2~rc1'' ''arm64'') ''arm64'' = Some (''hello'', ''1.2-rc1'')"
  using archive_name_round_trip [OF hello_parts(11), of "''arm64''" "''arm64''" "''1.2~rc1''"]
  by (simp add: ARCHIVE_ARCHITECTURES_def replace_char_def)

section \<open>Units of the host\<close>

text \<open>
  The list of host units is not complete: a plugin named \<open>privd\<close> may declare the unit of the
  privileged daemon itself, and plugins named \<open>net-boot\<close> and \<open>state-import\<close> the units that restore the
  network at boot and import the state.
\<close>

theorem host_units_within_reach:
  "plugin_ok ''privd'' \<and> permitted_service ''privd'' ''ndimon-privd.service'' \<and>
   plugin_ok ''net-boot'' \<and> permitted_service ''net-boot'' ''ndimon-net-boot.service'' \<and>
   plugin_ok ''state-import'' \<and> permitted_service ''state-import'' ''ndimon-state-import.service''"
  by (simp add: plugin_ok_def permitted_service_def reserved_units_def starts_with_def ascii_defs)

end
