(* ===== verification/Versions.thy ===== *)
theory Versions
  imports Rust_Text
begin

text \<open>
  Debian version comparison (\<open>compare_versions\<close> in \<open>ndimon-state/src/domains/plugins.rs\<close>).

  \<open>version_part\<close> is the double loop over the bytes of two parts: it compares the non-digit prefixes byte
  by byte in an order where a tilde sorts before the end and letters before other bytes, then the digit
  runs by length after their leading zeros. The reference is \<open>part_key\<close>: the sequence of those ranks
  and of the numbers the digit runs denote, continued by zeros, compared lexicographically. The loop
  and the reference agree, so the order is total, reversible and transitive.
\<close>

section \<open>Orderings\<close>

datatype ordering = Less | Equal | Greater

definition then_with :: "ordering \<Rightarrow> ordering \<Rightarrow> ordering" where
  "then_with a b = (case a of Equal \<Rightarrow> b | _ \<Rightarrow> a)"

definition cmp :: "'a::linorder \<Rightarrow> 'a \<Rightarrow> ordering" where
  "cmp a b = (if a < b then Less else if a = b then Equal else Greater)"

primrec flip :: "ordering \<Rightarrow> ordering" where
  "flip Less = Greater"
| "flip Equal = Equal"
| "flip Greater = Less"

section \<open>The comparison\<close>

definition strip_zeros :: "string \<Rightarrow> string" where
  "strip_zeros a = dropWhile (\<lambda>c. c = CHR ''0'') a"

definition version_number :: "string \<Rightarrow> string \<Rightarrow> ordering" where
  "version_number a b =
     (let a' = strip_zeros a; b' = strip_zeros b
      in then_with (cmp (length a') (length b')) (cmp (map byte a') (map byte b')))"

definition version_order :: "char option \<Rightarrow> int" where
  "version_order c =
     (case c of
        None \<Rightarrow> 0
      | Some c \<Rightarrow> if c = CHR ''~'' then -1 else if is_ascii_digit c then 0
                 else if is_ascii_alphabetic c then int (byte c) else int (byte c) + 256)"

definition first :: "string \<Rightarrow> char option" where
  "first s = (case s of [] \<Rightarrow> None | c # _ \<Rightarrow> Some c)"

definition starts_text :: "string \<Rightarrow> bool" where
  "starts_text s = (case s of [] \<Rightarrow> False | c # _ \<Rightarrow> \<not> is_ascii_digit c)"

text \<open>The inner loop: non-digit bytes, until both sides are at a digit or at their end.\<close>

function skip_text :: "string \<Rightarrow> string \<Rightarrow> ordering \<times> string \<times> string" where
  "skip_text a b =
     (if starts_text a \<or> starts_text b
      then (let c = cmp (version_order (first a)) (version_order (first b))
            in if c \<noteq> Equal then (c, a, b) else skip_text (drop 1 a) (drop 1 b))
      else (Equal, a, b))"
  by pat_completeness auto

termination skip_text
  by (relation "measure (\<lambda>(a, b). length a + length b)") (auto simp: starts_text_def split: list.splits)

declare skip_text.simps [simp del]

lemma skip_text_cases:
  assumes "skip_text a b = (c, a', b')"
  obtains (stop) "\<not> starts_text a" "\<not> starts_text b" "c = Equal" "a' = a" "b' = b"
  | (differ) "starts_text a \<or> starts_text b" "c = cmp (version_order (first a)) (version_order (first b))"
      "c \<noteq> Equal" "a' = a" "b' = b"
  | (step) "starts_text a \<or> starts_text b" "cmp (version_order (first a)) (version_order (first b)) = Equal"
      "skip_text (drop 1 a) (drop 1 b) = (c, a', b')"
proof (cases "starts_text a \<or> starts_text b")
  case False
  have "skip_text a b = (Equal, a, b)"
    by (subst skip_text.simps) (simp only: False if_False)
  then have "c = Equal" "a' = a" "b' = b" using assms by simp_all
  with False stop show ?thesis by blast
next
  case True
  show ?thesis
  proof (cases "cmp (version_order (first a)) (version_order (first b)) = Equal")
    case eq: True
    have "skip_text a b = skip_text (drop 1 a) (drop 1 b)"
      by (subst skip_text.simps) (simp only: True eq Let_def if_True if_False simp_thms)
    with assms have "skip_text (drop 1 a) (drop 1 b) = (c, a', b')" by metis
    with True eq step show ?thesis by blast
  next
    case neq: False
    have "skip_text a b = (cmp (version_order (first a)) (version_order (first b)), a, b)"
      by (subst skip_text.simps) (simp only: True neq Let_def if_True if_False simp_thms not_False_eq_True)
    then have "c = cmp (version_order (first a)) (version_order (first b))" "a' = a" "b' = b"
      using assms by simp_all
    with True neq show ?thesis by (intro differ) (simp_all only: simp_thms not_False_eq_True)
  qed
qed

lemma skip_text_length: "skip_text a b = (c, a', b') \<Longrightarrow> length a' \<le> length a \<and> length b' \<le> length b"
proof (induction a b rule: skip_text.induct)
  case (1 a b)
  from 1(2) show ?case
    by (cases rule: skip_text_cases) (use 1(1) in force)+
qed

lemma skip_text_stops: "skip_text a b = (Equal, a', b') \<Longrightarrow> \<not> starts_text a' \<and> \<not> starts_text b'"
proof (induction a b rule: skip_text.induct)
  case (1 a b)
  from 1(2) show ?case
    by (cases rule: skip_text_cases) (use 1(1) in auto)
qed

function version_part :: "string \<Rightarrow> string \<Rightarrow> ordering" where
  "version_part a b =
     (if a = [] \<and> b = [] then Equal
      else case skip_text a b of
             (Equal, a', b') \<Rightarrow>
               (case version_number (takeWhile is_ascii_digit a') (takeWhile is_ascii_digit b') of
                  Equal \<Rightarrow> version_part (dropWhile is_ascii_digit a') (dropWhile is_ascii_digit b')
                | c \<Rightarrow> c)
           | (c, _, _) \<Rightarrow> c)"
  by pat_completeness auto

lemma skip_text_progress:
  assumes "skip_text a b = (Equal, a', b')" "a \<noteq> [] \<or> b \<noteq> []"
  shows "length (dropWhile is_ascii_digit a') + length (dropWhile is_ascii_digit b') < length a + length b"
  using assms(1)
proof (cases rule: skip_text_cases)
  case stop
  have "length (dropWhile is_ascii_digit x) < length x" if "x \<noteq> []" "\<not> starts_text x" for x
    using that length_dropWhile_le [of is_ascii_digit "tl x"] by (cases x) (auto simp: starts_text_def)
  with stop assms(2) length_dropWhile_le [of is_ascii_digit a] length_dropWhile_le [of is_ascii_digit b] show ?thesis
    by (metis add_le_less_mono add_less_le_mono)
next
  case step
  then have "length a' + length b' < length a + length b"
    using skip_text_length [OF step(3)] by (force simp: starts_text_def split: list.splits)
  then show ?thesis
    using length_dropWhile_le [of is_ascii_digit a'] length_dropWhile_le [of is_ascii_digit b'] by linarith
qed simp

termination version_part
  by (relation "measure (\<lambda>(a, b). length a + length b)") (auto simp: skip_text_progress)

declare version_part.simps [simp del]

definition compare_versions :: "string \<Rightarrow> string \<Rightarrow> ordering" where
  "compare_versions a b =
     (let (ae, a1) = (case split_once (CHR '':'') a of Some p \<Rightarrow> p | None \<Rightarrow> (''0'', a));
          (be, b1) = (case split_once (CHR '':'') b of Some p \<Rightarrow> p | None \<Rightarrow> (''0'', b));
          (av, ar) = (case rsplit_once (CHR ''-'') a1 of Some p \<Rightarrow> p | None \<Rightarrow> (a1, ''0''));
          (bv, br) = (case rsplit_once (CHR ''-'') b1 of Some p \<Rightarrow> p | None \<Rightarrow> (b1, ''0''))
      in then_with (version_number ae be) (then_with (version_part av bv) (version_part ar br)))"

section \<open>The reference order\<close>

fun lexz :: "int list \<Rightarrow> int list \<Rightarrow> ordering" where
  "lexz [] [] = Equal"
| "lexz (x # xs) [] = then_with (cmp x 0) (lexz xs [])"
| "lexz [] (y # ys) = then_with (cmp 0 y) (lexz [] ys)"
| "lexz (x # xs) (y # ys) = then_with (cmp x y) (lexz xs ys)"

abbreviation text_run :: "string \<Rightarrow> string" where
  "text_run s \<equiv> takeWhile (\<lambda>c. \<not> is_ascii_digit c) s"

abbreviation after_text :: "string \<Rightarrow> string" where
  "after_text s \<equiv> dropWhile (\<lambda>c. \<not> is_ascii_digit c) s"

definition ranks :: "string \<Rightarrow> int list" where
  "ranks s = map (\<lambda>c. version_order (Some c)) (text_run s)"

function part_key :: "string \<Rightarrow> int list" where
  "part_key s =
     (if s = [] then []
      else ranks s @ [0, int (digits_val (takeWhile is_ascii_digit (after_text s)))] @
           part_key (dropWhile is_ascii_digit (after_text s)))"
  by pat_completeness auto

lemma after_text_shorter:
  "s \<noteq> [] \<Longrightarrow> length (dropWhile is_ascii_digit (after_text s)) < length s"
  using length_dropWhile_le [of is_ascii_digit "after_text s"] length_dropWhile_le [of is_ascii_digit "tl s"]
    length_dropWhile_le [of "\<lambda>c. \<not> is_ascii_digit c" "tl s"] 
    length_dropWhile_le [of is_ascii_digit "after_text (tl s)"]
  by (cases s) auto

termination part_key
  by (relation "measure length") (simp_all add: after_text_shorter)

declare part_key.simps [simp del]

lemma then_with_simps [simp]: "then_with Less b = Less" "then_with Equal b = b" "then_with Greater b = Greater"
  "then_with a Equal = a"
  by (simp_all add: then_with_def split: ordering.split)

lemma cmp_Equal [simp]: "cmp a b = Equal \<longleftrightarrow> a = b"
  by (auto simp: cmp_def)

lemma cmp_refl [simp]: "cmp a a = Equal"
  by simp

lemma then_with_neq: "a \<noteq> Equal \<Longrightarrow> then_with a b = a"
  by (cases a) auto

lemma rank_nonzero: "\<not> is_ascii_digit c \<Longrightarrow> version_order (Some c) \<noteq> 0"
  by (auto simp: version_order_def ascii_defs)

lemma rank_zero: "\<not> starts_text s \<Longrightarrow> version_order (first s) = 0"
  by (cases s) (auto simp: version_order_def first_def starts_text_def ascii_defs)

lemma ranks_text: "starts_text s \<Longrightarrow> ranks s = version_order (first s) # ranks (drop 1 s)"
  by (cases s) (auto simp: ranks_def starts_text_def first_def)

lemma ranks_no_text: "\<not> starts_text s \<Longrightarrow> ranks s = [] \<and> after_text s = s"
  by (cases s) (auto simp: ranks_def starts_text_def)

lemma after_text_step: "starts_text s \<Longrightarrow> after_text s = after_text (drop 1 s)"
  by (cases s) (auto simp: starts_text_def)

lemma starts_text_rank: "starts_text s \<Longrightarrow> version_order (first s) \<noteq> 0"
  by (cases s) (auto simp: starts_text_def first_def dest: rank_nonzero)

lemma ranks_head: "\<exists>xs. ranks s @ 0 # ks = version_order (first s) # xs"
  using ranks_text [of s] ranks_no_text [of s] rank_zero [of s] by (cases "starts_text s") auto

lemma skip_text_key:
  "skip_text a b = (c, a', b') \<Longrightarrow>
     lexz (ranks a @ 0 # ks) (ranks b @ 0 # ls) = (if c = Equal then lexz ks ls else c) \<and>
     (c = Equal \<longrightarrow> a' = after_text a \<and> b' = after_text b)"
proof (induction a b rule: skip_text.induct)
  case (1 a b)
  from 1(2) show ?case
  proof (cases rule: skip_text_cases)
    case stop
    then show ?thesis using ranks_no_text [of a] ranks_no_text [of b] by simp
  next
    case differ
    then show ?thesis
      using ranks_head [of a ks] ranks_head [of b ls] by (auto simp: then_with_neq)
  next
    case step
    then have "starts_text a" "starts_text b"
      using starts_text_rank [of a] starts_text_rank [of b] rank_zero [of a] rank_zero [of b] by auto
    with 1(1) [OF step(1) refl] step show ?thesis
      using ranks_text [of a] ranks_text [of b] after_text_step [of a] after_text_step [of b] by simp
  qed
qed

section \<open>Digit runs\<close>

lemma foldl_digits:
  "foldl (\<lambda>n c. 10 * n + (byte c - 48)) a s = a * 10 ^ length s + digits_val s"
proof (induction s arbitrary: a)
  case (Cons c s)
  show ?case
    using Cons [of "10 * a + (byte c - 48)"] Cons [of "byte c - 48"] by (simp add: digits_val_def algebra_simps)
qed (simp add: digits_val_def)

lemma digits_val_Cons: "digits_val (c # s) = (byte c - 48) * 10 ^ length s + digits_val s"
  using foldl_digits [of "byte c - 48" s] by (simp add: digits_val_def)

lemma digits_val_strip: "digits_val (strip_zeros s) = digits_val s"
  by (induction s) (auto simp: strip_zeros_def digits_val_Cons byte_def)

lemma digits_val_less: "list_all is_ascii_digit s \<Longrightarrow> digits_val s < 10 ^ length s"
proof (induction s)
  case (Cons c s)
  then have "byte c - 48 \<le> 9" by (auto simp: is_ascii_digit_def)
  then have "(byte c - 48) * 10 ^ length s \<le> 9 * 10 ^ length s" by (rule mult_le_mono1)
  moreover have "digits_val s < 10 ^ length s" using Cons by simp
  ultimately show ?case unfolding digits_val_Cons length_Cons power_Suc by linarith
qed (simp add: digits_val_def)

lemma digits_val_lex:
  "length s = length t \<Longrightarrow> list_all is_ascii_digit s \<Longrightarrow> list_all is_ascii_digit t \<Longrightarrow>
     cmp (map byte s) (map byte t) = cmp (digits_val s) (digits_val t)"
proof (induction s t rule: list_induct2)
  case (Cons c s d t)
  let ?p = "10 ^ length s :: nat"
  have small: "digits_val s < ?p" "digits_val t < ?p"
    using digits_val_less [of s] digits_val_less [of t] Cons by auto
  have digit: "48 \<le> byte c" "48 \<le> byte d" using Cons.prems by (simp_all add: is_ascii_digit_def)
  consider "byte c < byte d" | "byte c = byte d" | "byte d < byte c" by linarith
  then show ?case
  proof cases
    case 1
    then have "(byte c - 48 + 1) * ?p \<le> (byte d - 48) * ?p" using digit by (intro mult_le_mono1) linarith
    then have "digits_val (c # s) < digits_val (d # t)"
      using small Cons.hyps by (simp add: digits_val_Cons)
    with 1 show ?thesis by (simp add: cmp_def)
  next
    case 2
    with Cons show ?thesis by (auto simp: cmp_def digits_val_Cons split: if_splits)
  next
    case 3
    then have "(byte d - 48 + 1) * ?p \<le> (byte c - 48) * ?p" using digit by (intro mult_le_mono1) linarith
    then have "digits_val (d # t) < digits_val (c # s)"
      using small Cons.hyps by (simp add: digits_val_Cons)
    with 3 show ?thesis by (simp add: cmp_def)
  qed
qed (simp add: cmp_def)

lemma char_of_zero_byte: "char_of (48::nat) = CHR ''0''"
  by code_simp

lemma digits_val_length:
  assumes "length s < length t" "list_all is_ascii_digit s" "list_all is_ascii_digit t" "hd t \<noteq> CHR ''0''"
  shows "digits_val s < digits_val t"
proof -
  obtain c r where t: "t = c # r" using assms(1) by (cases t) auto
  have "char_of (byte c) = c" by (simp add: byte_def)
  then have "byte c \<noteq> 48" using assms(4) t by (metis char_of_zero_byte list.sel(1))
  moreover have "48 \<le> byte c" using assms(3) t by (simp add: is_ascii_digit_def)
  ultimately have "1 \<le> byte c - 48" by linarith
  then have "10 ^ length r \<le> digits_val t" by (simp add: t digits_val_Cons trans_le_add1)
  moreover have "(10::nat) ^ length s \<le> 10 ^ length r" using assms(1) t by (intro power_increasing) auto
  ultimately show ?thesis using digits_val_less [OF assms(2)] by linarith
qed

lemma strip_zeros_digits: "list_all is_ascii_digit s \<Longrightarrow> list_all is_ascii_digit (strip_zeros s)"
  by (auto simp: strip_zeros_def list_all_iff dest: set_dropWhileD)

lemma hd_strip_zeros: "length r < length (strip_zeros s) \<Longrightarrow> hd (strip_zeros s) \<noteq> CHR ''0''"
proof -
  assume "length r < length (strip_zeros s)"
  then have "strip_zeros s \<noteq> []" by auto
  then show ?thesis unfolding strip_zeros_def using hd_dropWhile [of "\<lambda>c. c = CHR ''0''" s] by blast
qed

lemma version_number_digits:
  assumes "list_all is_ascii_digit s" "list_all is_ascii_digit t"
  shows "version_number s t = cmp (digits_val s) (digits_val t)"
proof -
  let ?s = "strip_zeros s" and ?t = "strip_zeros t"
  note digits = strip_zeros_digits [OF assms(1)] strip_zeros_digits [OF assms(2)]
  have "then_with (cmp (length ?s) (length ?t)) (cmp (map byte ?s) (map byte ?t)) = cmp (digits_val ?s) (digits_val ?t)"
  proof (cases "length ?s" "length ?t" rule: linorder_cases)
    case less
    then have "digits_val ?s < digits_val ?t"
      using digits hd_strip_zeros [OF less] by (intro digits_val_length)
    with less show ?thesis by (simp add: cmp_def)
  next
    case equal
    with digits_val_lex [OF equal digits] show ?thesis by simp
  next
    case greater
    then have "digits_val ?t < digits_val ?s"
      using digits hd_strip_zeros [OF greater] by (intro digits_val_length)
    with greater show ?thesis by (simp add: cmp_def)
  qed
  then show ?thesis by (simp add: version_number_def digits_val_strip)
qed

section \<open>Properties\<close>

lemma lexz_pad: "lexz (0 # 0 # []) ys = lexz [] ys" "lexz xs (0 # 0 # []) = lexz xs []"
proof -
  show "lexz (0 # 0 # []) ys = lexz [] ys"
    by (cases ys; cases "tl ys") auto
  show "lexz xs (0 # 0 # []) = lexz xs []"
    by (cases xs; cases "tl xs") auto
qed

definition full_key :: "string \<Rightarrow> int list" where
  "full_key s = ranks s @ 0 # int (digits_val (takeWhile is_ascii_digit (after_text s))) #
     part_key (dropWhile is_ascii_digit (after_text s))"

lemma part_key_full: "lexz (part_key a) ys = lexz (full_key a) ys" "lexz xs (part_key b) = lexz xs (full_key b)"
proof -
  have "part_key s = (if s = [] then [] else full_key s)" for s
    by (simp add: part_key.simps [of s] full_key_def)
  moreover have "full_key [] = [0, 0]"
    by (simp add: full_key_def ranks_def part_key.simps digits_val_def)
  ultimately show "lexz (part_key a) ys = lexz (full_key a) ys" "lexz xs (part_key b) = lexz xs (full_key b)"
    by (simp_all add: lexz_pad)
qed

lemma cmp_int: "cmp (int m) (int n) = cmp m n"
  by (simp add: cmp_def)

lemma version_part_lexz: "version_part a b = lexz (part_key a) (part_key b)"
proof (induction a b rule: version_part.induct)
  case (1 a b)
  obtain c a' b' where skip: "skip_text a b = (c, a', b')" by (cases "skip_text a b") auto
  let ?da = "takeWhile is_ascii_digit a'" and ?db = "takeWhile is_ascii_digit b'"
  let ?ra = "dropWhile is_ascii_digit a'" and ?rb = "dropWhile is_ascii_digit b'"
  show ?case
  proof (cases "a = [] \<and> b = []")
    case True
    then show ?thesis by (simp add: version_part.simps part_key.simps)
  next
    case False
    show ?thesis
    proof (cases "c = Equal")
      case neq: False
      have "version_part a b = c"
        using False skip neq by (subst version_part.simps) (simp split: ordering.split)
      moreover have "lexz (full_key a) (full_key b) = c"
        using skip_text_key [OF skip] neq by (simp add: full_key_def)
      ultimately show ?thesis by (simp add: part_key_full)
    next
      case eq: True
      have rest: "a' = after_text a" "b' = after_text b"
        using skip_text_key [OF skip] eq by auto
      have "lexz (full_key a) (full_key b) =
          then_with (cmp (int (digits_val ?da)) (int (digits_val ?db))) (lexz (part_key ?ra) (part_key ?rb))"
        using skip_text_key [OF skip] eq by (simp add: full_key_def rest)
      moreover have "version_number ?da ?db = cmp (digits_val ?da) (digits_val ?db)"
        by (rule version_number_digits) (auto simp: list_all_iff dest: set_takeWhileD)
      moreover have "version_part a b = then_with (version_number ?da ?db) (version_part ?ra ?rb)"
        using skip eq
        by (subst version_part.simps) (simp only: False skip Let_def prod.case if_False then_with_def ordering.case, simp split: ordering.split)
      moreover have "version_part ?ra ?rb = lexz (part_key ?ra) (part_key ?rb)" if "version_number ?da ?db = Equal"
        using 1 False skip eq that by simp
      ultimately show ?thesis
        by (simp add: part_key_full cmp_int then_with_def split: ordering.split)
    qed
  qed
qed

text \<open>Continued by zeros to a common length, keys compare as lists of integers.\<close>

definition pad :: "nat \<Rightarrow> int list \<Rightarrow> int list" where
  "pad n xs = xs @ replicate (n - length xs) 0"

lemma lexz_cmp: "length xs \<le> n \<Longrightarrow> length ys \<le> n \<Longrightarrow> lexz xs ys = cmp (pad n xs) (pad n ys)"
proof (induction xs ys arbitrary: n rule: lexz.induct)
  case (2 x xs)
  then obtain m where "n = Suc m" by (cases n) auto
  with 2 show ?case by (auto simp: pad_def cmp_def then_with_def split: if_splits)
next
  case (3 y ys)
  then obtain m where "n = Suc m" by (cases n) auto
  with 3 show ?case by (auto simp: pad_def cmp_def then_with_def split: if_splits)
next
  case (4 x xs y ys)
  then obtain m where "n = Suc m" by (cases n) auto
  with 4 show ?case by (auto simp: pad_def cmp_def then_with_def split: if_splits)
qed (simp add: pad_def)

lemma then_with_cmp: "then_with (cmp a b) (cmp c d) = cmp (a, c) (b, d)"
  by (auto simp: cmp_def then_with_def less_prod_def split: if_splits)

definition version_fields :: "string \<Rightarrow> string \<times> string \<times> string" where
  "version_fields v =
     (let (e, r) = (case split_once (CHR '':'') v of Some p \<Rightarrow> p | None \<Rightarrow> (''0'', v));
          (u, d) = (case rsplit_once (CHR ''-'') r of Some p \<Rightarrow> p | None \<Rightarrow> (r, ''0''))
      in (e, u, d))"

definition version_key :: "nat \<Rightarrow> string \<Rightarrow> (nat \<times> nat list) \<times> int list \<times> int list" where
  "version_key n v =
     (case version_fields v of (e, u, d) \<Rightarrow>
       ((length (strip_zeros e), map byte (strip_zeros e)), pad n (part_key u), pad n (part_key d)))"

definition key_length :: "string \<Rightarrow> nat" where
  "key_length v = (case version_fields v of (e, u, d) \<Rightarrow> max (length (part_key u)) (length (part_key d)))"

lemma compare_versions_key:
  assumes "key_length a \<le> n" "key_length b \<le> n"
  shows "compare_versions a b = cmp (version_key n a) (version_key n b)"
proof -
  obtain ae au ad where a: "version_fields a = (ae, au, ad)" using prod_cases3 by blast
  obtain be bu bd where b: "version_fields b = (be, bu, bd)" using prod_cases3 by blast
  have "compare_versions a b =
      then_with (version_number ae be) (then_with (version_part au bu) (version_part ad bd))"
    using a b unfolding compare_versions_def version_fields_def by (auto simp: Let_def split: prod.splits)
  moreover have "version_part au bu = cmp (pad n (part_key au)) (pad n (part_key bu))"
    "version_part ad bd = cmp (pad n (part_key ad)) (pad n (part_key bd))"
    using assms a b by (simp_all add: version_part_lexz lexz_cmp key_length_def)
  ultimately show ?thesis
    by (simp add: version_key_def a b version_number_def then_with_cmp Let_def)
qed

text \<open>
  The double loop computes the documented order: comparing two version parts byte by byte gives the
  lexicographic comparison of their keys, in which letters rank before other bytes, a tilde before the
  end of the text, and a run of digits counts as the number it denotes.
\<close>

theorem version_part_reference: "version_part a b = lexz (part_key a) (part_key b)"
  by (rule version_part_lexz)

text \<open>
  Versions are totally preordered. A version equals itself, swapping the sides reverses the
  result, and the comparison is transitive; so an update that is accepted as newer can never be undone
  by another update that is accepted as newer.
\<close>

theorem versions_ordered:
  "compare_versions a a = Equal \<and> compare_versions b a = flip (compare_versions a b) \<and>
   (compare_versions a b \<noteq> Greater \<longrightarrow> compare_versions b c \<noteq> Greater \<longrightarrow> compare_versions a c \<noteq> Greater)"
proof -
  define n where "n = max (key_length a) (max (key_length b) (key_length c))"
  have key: "compare_versions x y = cmp (version_key n x) (version_key n y)" if "x \<in> {a, b, c}" "y \<in> {a, b, c}" for x y
    using that by (intro compare_versions_key) (auto simp: n_def)
  have le: "cmp p q \<noteq> Greater \<longleftrightarrow> p \<le> q" for p q :: "(nat \<times> nat list) \<times> int list \<times> int list"
    by (auto simp: cmp_def)
  have swap: "cmp q p = flip (cmp p q)" for p q :: "(nat \<times> nat list) \<times> int list \<times> int list"
    by (auto simp: cmp_def)
  show ?thesis
    by (simp only: key insert_iff simp_thms le swap [of "version_key n b"]) (auto simp: cmp_def)
qed

theorem versions_ordered_witness:
  "compare_versions ''1.0~rc1'' ''2.0'' \<noteq> Greater"
proof -
  have "compare_versions ''1.0~rc1'' ''1.0'' = Less" "compare_versions ''1.0'' ''2.0'' = Less"
    by code_simp+
  with versions_ordered [of "''1.0~rc1''" "''1.0''" "''2.0''"] show ?thesis by simp
qed

end
