(* ===== verification/Plugin_Module.thy ===== *)
theory Plugin_Module
  imports Plugin_Manifest Versions Actor_Safety
begin

text \<open>
  The plugin domain (ndimon-state/src/domains/plugins.rs, plugins/jobs.rs): how plugin commands change
  the document, which actions they need, and how a job that outlives the command is kept in the
  envelope until it is settled.

  The module is a \<open>domain_module\<close>, as the actor sees it. What it uses of other code is the record
  \<open>plugin_env\<close>: the clock, the JSON codecs of its types, the plugin host that reads the manifest of an
  installed plugin, and the query that may wait for that host.

  What is shown: a job that failed puts the plugin registry back to what it was before the job and
  nothing else; the retained results are bounded and the loop that drops them ends without a panic;
  and one path on which a finished operation leaves its reservation behind.
\<close>

section \<open>Parameters\<close>

record 'w plugin_env =
  pv_now :: u64
  pv_plugins_json :: "(string, plugin_state) bmap \<Rightarrow> (json, string) result"
  pv_plugins_of :: "json \<Rightarrow> ((string, plugin_state) bmap, string) result"
  pv_outcome_of :: "json \<Rightarrow> (job_outcome, string) result"
  pv_result_of :: "json \<Rightarrow> (job_result, string) result"
  pv_manifest_of :: "json \<Rightarrow> (manifest, string) result"
  pv_state_of :: "json \<Rightarrow> ((string, json) bmap option, string) result"
  pv_host_manifest :: "string \<Rightarrow> (manifest, string) result"
  pv_size_of :: "json \<Rightarrow> (nat, string) result"
  pv_query :: "state_file \<Rightarrow> json \<Rightarrow> 'w \<Rightarrow> (json, string) result \<times> 'w"

definition plugin_invalid :: "string \<Rightarrow> api_error" where
  "plugin_invalid reason = invalid [new_field_error ''plugins'' reason]"

definition plugin_name_check :: "string \<Rightarrow> (unit, api_error) result" where
  "plugin_name_check v = bind_r (map_err plugin_invalid (plugin_name_try_from v)) (\<lambda>_. Inr ())"

section \<open>Guard\<close>

definition competing :: "state_file \<Rightarrow> command \<Rightarrow> bool" where
  "competing s c =
     (command_domain c = Some DPlugins \<and> (case c of CancelPluginJob _ \<Rightarrow> False | _ \<Rightarrow> True) \<or>
      (case c of
         ImportBackup doc _ \<Rightarrow>
           ds_plugins (bd_document doc) \<noteq> ds_plugins (sf_document s) \<or> ''plugins'' \<in> set (bd_legacy_sections doc)
       | _ \<Rightarrow> False))"

definition manifest_query :: "string \<Rightarrow> json" where
  "manifest_query n = JObject [(''name'', JString n), (''operation'', JString ''manifest'')]"

definition plugin_guard ::
  "'w plugin_env \<Rightarrow> state_file \<Rightarrow> command option \<Rightarrow> 'w \<Rightarrow> (unit, api_error) result \<times> 'w" where
  "plugin_guard pv s c w =
     (if sf_plugin_job s \<noteq> None \<and> (case c of None \<Rightarrow> False | Some cmd \<Rightarrow> competing s cmd) then (Inl StillApplying, w)
      else case c of
        Some (SetPluginEnabled n True _) \<Rightarrow>
          (case pv_query pv s (manifest_query n) w of
             (Inl e, w') \<Rightarrow> (Inl (Internal e), w')
           | (Inr ent, w') \<Rightarrow>
               (case json_text (json_index ent ''migration_warning'') of
                  Some warning \<Rightarrow> (Inl (plugin_invalid warning), w')
                | None \<Rightarrow> (Inr (), w')))
      | Some (SetPluginData n data) \<Rightarrow>
          (case pv_query pv s (manifest_query n) w of
             (Inl e, w') \<Rightarrow> (Inl (Internal e), w')
           | (Inr ent, w') \<Rightarrow>
               (bind_r (map_err plugin_invalid (pv_manifest_of pv (json_index ent ''manifest''))) (\<lambda>mf.
                  if mf_process mf = None then Inl (plugin_invalid ''plugin has no process state'')
                  else bind_r (ok_or (mf_state mf) (plugin_invalid ''plugin has no process state'')) (\<lambda>schema.
                         map_err plugin_invalid (validate_value (pv_size_of pv) (ss_schema schema) (JObject data)))), w'))
      | _ \<Rightarrow> (Inr (), w))"

section \<open>Reducer\<close>

definition install_entry ::
  "desired_state \<Rightarrow> bool \<Rightarrow> string \<Rightarrow> string \<Rightarrow> string \<Rightarrow> bool \<Rightarrow> (desired_state, api_error) result" where
  "install_entry st update n archive version enable =
     bind_r (plugin_name_check n) (\<lambda>_.
     bind_r (map_err plugin_invalid (archive_id_try_from archive)) (\<lambda>_.
     bind_r (map_err plugin_invalid (debian_version_try_from version)) (\<lambda>_.
     bind_r (if update
             then bind_r (ok_or (bt_get (ds_plugins st) n) (plugin_invalid ''plugin not installed'')) (\<lambda>installed.
                    if compare_versions version (pl_version installed) \<noteq> Greater
                    then Inl (plugin_invalid ''no newer version'') else Inr ())
             else Inr ()) (\<lambda>_.
       let ent = default_plugin_state\<lparr>pl_installed := True, pl_enabled := enable, pl_version := version,
             pl_state := (case bt_get (ds_plugins st) n of Some previous \<Rightarrow> pl_state previous | None \<Rightarrow> None)\<rparr>
       in Inr (st\<lparr>ds_plugins := bt_insert n ent (ds_plugins st)\<rparr>)))))"

definition enable_entry ::
  "desired_state \<Rightarrow> string \<Rightarrow> bool \<Rightarrow> string option \<Rightarrow> (desired_state, api_error) result" where
  "enable_entry st n enabled version =
     bind_r (plugin_name_check n) (\<lambda>_.
     bind_r (if (case bt_get (ds_plugins st) n of None \<Rightarrow> True | Some p \<Rightarrow> \<not> pl_installed p)
             then bind_r (ok_or version (plugin_invalid ''plugin not installed'')) (\<lambda>v.
                    Inr (st\<lparr>ds_plugins := bt_insert n
                      (default_plugin_state\<lparr>pl_installed := True, pl_version := v\<rparr>) (ds_plugins st)\<rparr>))
             else Inr st) (\<lambda>st1.
     bind_r (ok_or (bt_get (ds_plugins st1) n) (plugin_invalid ''plugin not installed'')) (\<lambda>ent.
       if \<not> pl_installed ent then Inl (plugin_invalid ''plugin not installed'')
       else Inr (st1\<lparr>ds_plugins := bt_insert n (ent\<lparr>pl_enabled := enabled\<rparr>) (ds_plugins st1)\<rparr>))))"

definition plugin_reduce :: "desired_state \<Rightarrow> command \<Rightarrow> (desired_state, api_error) result" where
  "plugin_reduce st c =
     (case c of
        InstallPlugin n archive version enable _ \<Rightarrow> install_entry st False n archive version enable
      | UpdatePlugin n archive version enable _ \<Rightarrow> install_entry st True n archive version enable
      | SetPluginEnabled n enabled version \<Rightarrow> enable_entry st n enabled version
      | RemovePlugin n _ _ \<Rightarrow>
          bind_r (plugin_name_check n) (\<lambda>_. Inr (st\<lparr>ds_plugins := bt_remove n (ds_plugins st)\<rparr>))
      | SetPluginData n data \<Rightarrow>
          bind_r (plugin_name_check n) (\<lambda>_.
          bind_r (ok_or (bt_get (ds_plugins st) n) (plugin_invalid ''plugin not installed'')) (\<lambda>ent.
            Inr (st\<lparr>ds_plugins := bt_insert n (ent\<lparr>pl_state := Some data\<rparr>) (ds_plugins st)\<rparr>)))
      | ResetPluginState \<Rightarrow> Inr (st\<lparr>ds_plugins := []\<rparr>)
      | CancelPluginJob job \<Rightarrow>
          if job \<noteq> ''unknown''
          then bind_r (map_err plugin_invalid (plugin_job_try_from job)) (\<lambda>_. Inr st)
          else Inr st
      | _ \<Rightarrow> Inl (Unsupported ''unsupported plugin command''))"

section \<open>Plan\<close>

definition ordinary_plugins :: "desired_state \<Rightarrow> (string, plugin_state) bmap" where
  "ordinary_plugins st = filter (\<lambda>(n, _). n \<noteq> ''tessera'') (ds_plugins st)"

definition plugin_action_of :: "command \<Rightarrow> plugin_action option" where
  "plugin_action_of c =
     (case c of
        InstallPlugin n archive version enable force \<Rightarrow> Some (PluginsInstall n archive version enable force)
      | UpdatePlugin n archive version enable force \<Rightarrow> Some (PluginsInstall n archive version enable force)
      | SetPluginEnabled n enabled _ \<Rightarrow> Some (PluginsEnable n enabled)
      | RemovePlugin n purge force \<Rightarrow> Some (PluginsRemove n purge force)
      | CancelPluginJob job \<Rightarrow> Some (PluginsCancel job)
      | ResetPluginState \<Rightarrow> Some PluginsReset
      | _ \<Rightarrow> None)"

definition plugin_interruption :: "plugin_action \<Rightarrow> (string \<times> string) option" where
  "plugin_interruption act =
     (let change = (\<lambda>n. Some (''plugin '' @ n @ '' services and UI'',
                              ''Change plugin '' @ n @ ''; its services and UI may stop or restart''))
      in case act of
           PluginsInstall n _ _ _ _ \<Rightarrow> change n
         | PluginsEnable n _ \<Rightarrow> change n
         | PluginsRemove n _ _ \<Rightarrow> change n
         | PluginsCancel job \<Rightarrow>
             Some (''plugin lifecycle job '' @ job,
                   ''Cancel plugin lifecycle job '' @ job @ ''; its running hook may be interrupted'')
         | PluginsReset \<Rightarrow>
             Some (''all plugin UI panels'', ''Reset plugin state and disable all plugin UI panels'')
         | _ \<Rightarrow> None)"

definition action_impact :: "plugin_action \<Rightarrow> impact" where
  "action_impact act =
     (case plugin_interruption act of
        None \<Rightarrow> default_impact
      | Some (resource, line) \<Rightarrow>
          default_impact\<lparr>im_scope := ScopeService,
            im_interruptions := im_interruptions default_impact @ [new_interruption DPlugins resource None],
            im_lines := im_lines default_impact @ [line]\<rparr>)"

definition plugin_plan :: "desired_state \<Rightarrow> desired_state \<Rightarrow> command \<Rightarrow> (domain_plan, api_error) result" where
  "plugin_plan previous next' c =
     (if command_domain c = Some DTessera then Inr default_domain_plan
      else if backup_handles c
      then (if ordinary_plugins previous = ordinary_plugins next' then Inr default_domain_plan
            else Inr \<lparr>dpl_actions = [ActionPlugins PluginsRestore],
                   dpl_impact = (new_impact ScopeService)\<lparr>
                     im_interruptions := [new_interruption DPlugins ''plugin loader'' None],
                     im_lines := [''Restore accepted plugin intent to the plugin loader'']\<rparr>\<rparr>)
      else case c of
             SetPluginData _ _ \<Rightarrow> Inr default_domain_plan
           | _ \<Rightarrow>
               (case plugin_action_of c of
                  None \<Rightarrow> Inl (plugin_invalid ''unsupported plugin plan'')
                | Some act \<Rightarrow> Inr \<lparr>dpl_actions = [ActionPlugins act], dpl_impact = action_impact act\<rparr>))"

section \<open>The job in the envelope\<close>

definition starts_job :: "command \<Rightarrow> bool" where
  "starts_job c =
     (case c of
        InstallPlugin _ _ _ _ _ \<Rightarrow> True | UpdatePlugin _ _ _ _ _ \<Rightarrow> True | RemovePlugin _ _ _ \<Rightarrow> True
      | SetPluginEnabled _ _ _ \<Rightarrow> True | _ \<Rightarrow> False)"

definition drop_legacy :: "command \<Rightarrow> state_file \<Rightarrow> state_file" where
  "drop_legacy c s =
     (if c = ResetPluginState
      then s\<lparr>sf_legacy_files := bt_remove ''/etc/ndimon-plugins.json'' (sf_legacy_files s)\<rparr> else s)"

definition pending_of :: "'w plugin_env \<Rightarrow> plugin_action \<Rightarrow> json \<Rightarrow> pending_job" where
  "pending_of pv act before = PendingJob ''unknown'' act before (pv_now pv) False False"

definition prepare_job ::
  "'w plugin_env \<Rightarrow> state_file \<Rightarrow> state_file \<Rightarrow> action list \<Rightarrow> (state_file, api_error) result" where
  "prepare_job pv previous next' acts =
     (case acts of
        ActionPlugins act # _ \<Rightarrow>
          bind_r (map_err Internal (pv_plugins_json pv (ds_plugins (sf_document previous)))) (\<lambda>before.
            Inr (next'\<lparr>sf_plugin_job := Some (pending_of pv act before)\<rparr>))
      | _ \<Rightarrow> Inl (Internal ''missing plugin job action''))"

definition plugin_prepare ::
  "'w plugin_env \<Rightarrow> state_file \<Rightarrow> state_file \<Rightarrow> command \<Rightarrow> (state_file, api_error) result" where
  "plugin_prepare pv previous next0 c =
     (let next' = drop_legacy c next0
      in if \<not> starts_job c then Inr next'
         else bind_r (plugin_plan (sf_document previous) (sf_document next') c) (\<lambda>p.
                prepare_job pv previous next' (dpl_actions p)))"

definition plugin_reservation :: "state_file \<Rightarrow> state_file \<Rightarrow> state_file option" where
  "plugin_reservation previous next' =
     (if sf_plugin_job previous = None \<and> sf_plugin_job next' \<noteq> None
      then Some (previous\<lparr>sf_plugin_job := sf_plugin_job next'\<rparr>) else None)"

definition plugin_release :: "state_file \<Rightarrow> string \<Rightarrow> state_file" where
  "plugin_release s reason =
     (if (case sf_plugin_job s of None \<Rightarrow> False | Some p \<Rightarrow> pj_id p = ''unknown'') \<and>
         \<not> contains_str ''uncertain:'' reason
      then s\<lparr>sf_plugin_job := None\<rparr> else s)"

definition runtime_entry :: "state_file \<Rightarrow> plugin_action \<Rightarrow> json \<Rightarrow> json" where
  "runtime_entry s act plugins =
     (case act of
        PluginsInstall n _ version enable _ \<Rightarrow>
          json_set n (JObject [(''enabled'', JBool False), (''pending_enable'', JBool enable),
            (''version'', JString version)]) plugins
      | PluginsEnable n enabled \<Rightarrow>
          json_set n (JObject [(''enabled'', JBool enabled), (''pending_enable'', JBool False),
            (''version'', case bt_get (ds_plugins (sf_document s)) n of
                            Some p \<Rightarrow> JString (pl_version p) | None \<Rightarrow> JNull)]) plugins
      | PluginsRemove n _ _ \<Rightarrow> snd (json_remove n plugins)
      | _ \<Rightarrow> plugins)"

definition record_runtime :: "state_file \<Rightarrow> plugin_action \<Rightarrow> state_file" where
  "record_runtime s act =
     (let plugins = (case bt_get (sf_plugin_runtime s) ''plugins'' of
                       Some (JObject m) \<Rightarrow> JObject m | _ \<Rightarrow> JObject [])
      in s\<lparr>sf_plugin_runtime := bt_insert ''plugins'' (runtime_entry s act plugins) (sf_plugin_runtime s)\<rparr>)"

definition cancelled_job :: "command \<Rightarrow> string option" where
  "cancelled_job c = (case c of CancelPluginJob job \<Rightarrow> Some job | _ \<Rightarrow> None)"

text \<open>The cancel is kept with the job.\<close>

definition accepted_cancel :: "state_file \<Rightarrow> state_file \<Rightarrow> string \<Rightarrow> bool \<times> state_file" where
  "accepted_cancel previous next' job =
     (let kept = map_option (\<lambda>p. case p of PendingJob i a b t investigating can \<Rightarrow>
                   PendingJob i a b t investigating (if i = job then True else can)) (sf_plugin_job previous)
      in (kept \<noteq> sf_plugin_job previous, next'\<lparr>sf_plugin_job := kept\<rparr>))"

text \<open>The operation is over: record it, and drop the reservation.\<close>

definition accepted_now :: "state_file \<Rightarrow> state_file \<Rightarrow> command \<Rightarrow> bool \<times> state_file" where
  "accepted_now previous next' c =
     (let n1 = (case sf_plugin_job next' of None \<Rightarrow> next' | Some p \<Rightarrow> record_runtime next' (pj_action p));
          n2 = (if c = ResetPluginState then n1\<lparr>sf_plugin_runtime := [(''native_host'', JBool True)]\<rparr> else n1);
          prepared = (sf_plugin_job n2 \<noteq> sf_plugin_job previous \<or>
                      sf_plugin_runtime n2 \<noteq> sf_plugin_runtime previous)
      in (prepared,
          n2\<lparr>sf_plugin_job := (case sf_plugin_job previous of
               Some p \<Rightarrow> if pj_id p \<noteq> ''unknown'' then Some p else None | None \<Rightarrow> None)\<rparr>))"

text \<open>A job goes on outside: the reservation gets the name of its unit.\<close>

definition accepted_job :: "state_file \<Rightarrow> json \<Rightarrow> (state_file, api_error) result" where
  "accepted_job next' job =
     bind_r (ok_or (json_text job) (Internal ''missing plugin job id'')) (\<lambda>i.
     bind_r (map_err Internal (plugin_job_try_from i)) (\<lambda>_.
       case sf_plugin_job next' of
         None \<Rightarrow> Inl (Internal ''missing prepared plugin job'')
       | Some (PendingJob _ a b t investigating can) \<Rightarrow>
           Inr (next'\<lparr>sf_plugin_job := Some (PendingJob i a b t investigating can)\<rparr>)))"

definition plugin_accepted ::
  "state_file \<Rightarrow> state_file \<Rightarrow> command \<Rightarrow> json \<Rightarrow> (bool \<times> state_file \<times> json, api_error) result" where
  "plugin_accepted previous next' c apply =
     (case cancelled_job c of
        Some job \<Rightarrow> (case accepted_cancel previous next' job of (ch, n) \<Rightarrow> Inr (ch, n, apply))
      | None \<Rightarrow>
          (case json_remove ''_plugin_job'' apply of
             (None, apply') \<Rightarrow> (case accepted_now previous next' c of (ch, n) \<Rightarrow> Inr (ch, n, apply'))
           | (Some job, apply') \<Rightarrow> bind_r (accepted_job next' job) (\<lambda>n. Inr (True, n, apply'))))"

section \<open>Completion\<close>

definition completion_plan :: "string list \<Rightarrow> action list \<Rightarrow> plan" where
  "completion_plan paths acts =
     \<lparr>pp_paths = paths, pp_domains = [DPlugins], pp_actions = acts, pp_impact = default_impact,
      pp_confirmation = None, pp_external_confirmation = False, pp_session = None\<rparr>"

text \<open>After a successful install: a plugin without data gets the default of its manifest.\<close>

definition initial_data ::
  "'w plugin_env \<Rightarrow> pending_job \<Rightarrow> desired_state \<Rightarrow> (desired_state, api_error) result" where
  "initial_data pv pending doc =
     (case pj_action pending of
        PluginsInstall n _ _ _ _ \<Rightarrow>
          (case pv_host_manifest pv n of
             Inl _ \<Rightarrow> Inr doc
           | Inr mf \<Rightarrow>
               (case (mf_state mf, bt_get (ds_plugins doc) n) of
                  (Some schema, Some plugin) \<Rightarrow>
                    if pl_state plugin \<noteq> None then Inr doc
                    else bind_r (map_err plugin_invalid (pv_state_of pv (ss_default schema))) (\<lambda>data.
                           Inr (doc\<lparr>ds_plugins := bt_insert n (plugin\<lparr>pl_state := data\<rparr>) (ds_plugins doc)\<rparr>))
                | _ \<Rightarrow> Inr doc))
      | _ \<Rightarrow> Inr doc)"

definition job_completion ::
  "'w plugin_env \<Rightarrow> state_file \<Rightarrow> json \<Rightarrow> ((state_file \<times> plan) option, api_error) result" where
  "job_completion pv s result =
     (case sf_plugin_job s of
        None \<Rightarrow> Inr None
      | Some pending \<Rightarrow>
          if json_text (json_index result ''job'') \<noteq> Some (pj_id pending) \<or>
             (pj_investigation pending \<and> json_index result ''settle'' \<noteq> JBool True)
          then Inr None
          else
            bind_r (map_err Internal (pv_outcome_of pv (json_index result ''outcome''))) (\<lambda>outcome.
            bind_r (case outcome of
                JobFailure _ \<Rightarrow>
                  bind_r (map_err Internal (pv_plugins_of pv (pj_previous pending))) (\<lambda>before.
                    Inr ((sf_document s)\<lparr>ds_plugins := before\<rparr>))
              | JobSuccess _ \<Rightarrow> initial_data pv pending (sf_document s)
              | JobUnknown _ \<Rightarrow> Inr (sf_document s)) (\<lambda>doc.
              Inr (Some (s\<lparr>sf_document := doc\<rparr>,
                completion_plan (if ds_plugins doc = ds_plugins (sf_document s) then [] else [''plugins''])
                  [ActionPlugins (PluginsComplete pending outcome)])))))"

definition plugin_completion ::
  "'w plugin_env \<Rightarrow> state_file \<Rightarrow> json \<Rightarrow> ((state_file \<times> plan) option, api_error) result" where
  "plugin_completion pv s result =
     (case json_get result ''runtime'' of
        None \<Rightarrow> job_completion pv s result
      | Some update \<Rightarrow>
          bind_r (ok_or (json_text (json_index update ''name'')) (plugin_invalid ''missing runtime plugin'')) (\<lambda>n.
            if (case bt_get (ds_plugins (sf_document s)) n of
                  None \<Rightarrow> True | Some p \<Rightarrow> json_index update ''version'' \<noteq> JString (pl_version p))
            then Inr None
            else
              (let plugins = (case bt_get (sf_plugin_runtime s) ''plugins'' of
                                Some (JObject m) \<Rightarrow> JObject m | _ \<Rightarrow> JObject [])
               in Inr (Some (s\<lparr>sf_plugin_runtime := bt_insert ''plugins'' (json_set n update plugins) (sf_plugin_runtime s)\<rparr>,
                    completion_plan [] [])))))"

text \<open>The loop that drops retained results above 32; the inner \<open>None\<close> is the panic of \<open>unwrap\<close>.\<close>

function evict :: "string \<Rightarrow> (string, job_result) bmap \<Rightarrow> (string, job_result) bmap option" where
  "evict i m =
     (if 32 < length m
      then (case List.find (\<lambda>k. k \<noteq> i) (bt_keys m) of
              None \<Rightarrow> None
            | Some oldest \<Rightarrow> evict i (bt_remove oldest m))
      else Some m)"
  by pat_completeness auto

lemma length_bt_remove_less: "k \<in> set (bt_keys m) \<Longrightarrow> length (bt_remove k m) < length m"
  unfolding bt_remove_def bt_keys_def by (auto intro: length_filter_less)

termination evict
  by (relation "measure (\<lambda>(i, m). length m)")
     (auto simp: find_Some_iff bt_keys_def intro!: length_bt_remove_less)

declare evict.simps [simp del]

definition job_completed :: "'w plugin_env \<Rightarrow> state_file \<Rightarrow> json \<Rightarrow> (state_file, api_error) result option" where
  "job_completed pv s apply =
     (case map_err Internal (pv_result_of pv (json_index apply ''_plugin_result'')) of
        Inl e \<Rightarrow> Some (Inl e)
      | Inr result \<Rightarrow>
          (let s1 = (case (jr_response result, sf_plugin_job s) of
                       (Inr _, Some pending) \<Rightarrow> record_runtime s (pj_action pending) | _ \<Rightarrow> s);
               s2 = s1\<lparr>sf_plugin_job := (if jr_investigation result
                      then map_option (\<lambda>p. case p of PendingJob i a b t _ can \<Rightarrow> PendingJob i a b t True can) (sf_plugin_job s1)
                      else None)\<rparr>
           in map_option (\<lambda>m. Inr (s2\<lparr>sf_plugin_results := m\<rparr>))
                (evict (jr_job result) (bt_insert (jr_job result) result (sf_plugin_results s2)))))"

definition plugin_completed :: "'w plugin_env \<Rightarrow> state_file \<Rightarrow> json \<Rightarrow> (state_file, api_error) result" where
  "plugin_completed pv s apply =
     (case json_get apply ''_plugin_result'' of
        None \<Rightarrow> Inr s
      | Some _ \<Rightarrow>
          (case job_completed pv s apply of
             Some r \<Rightarrow> r
           | None \<Rightarrow> Inl (Internal ''panic'')))"

section \<open>What the module reports\<close>

definition plugin_project :: "state_file \<Rightarrow> domain_observed \<Rightarrow> domain_observed" where
  "plugin_project s ob =
     (case sf_plugin_job s of
        None \<Rightarrow> ob
      | Some pending \<Rightarrow>
          ob\<lparr>do_applied_revision := None,
             do_status := (if pj_investigation pending then SyncFailed else Applying),
             do_detail := Some (if pj_investigation pending
               then ''plugin job '' @ pj_id pending @ ''; operator investigation required''
               else ''plugin job '' @ pj_id pending)\<rparr>)"

definition plugin_outside_actor :: "query \<Rightarrow> bool" where
  "plugin_outside_actor q =
     (case q of QPlugins \<Rightarrow> True | QPluginFeed \<Rightarrow> True | QRefreshPluginFeed \<Rightarrow> True | QPluginStatus _ \<Rightarrow> True
        | QPluginJob _ \<Rightarrow> True | QPreparePluginInstall _ _ _ \<Rightarrow> True | _ \<Rightarrow> False)"

definition plugins_module :: "'w plugin_env \<Rightarrow> 'w domain_module" where
  "plugins_module pv =
     default_domain_module\<lparr>
       dm_imperative := (\<lambda>_. True),
       dm_reduce := plugin_reduce,
       dm_plan := plugin_plan,
       dm_guard := plugin_guard pv,
       dm_prepare := plugin_prepare pv,
       dm_reservation := plugin_reservation,
       dm_release_reservation := plugin_release,
       dm_accepted := plugin_accepted,
       dm_completion := plugin_completion pv,
       dm_completed := plugin_completed pv,
       dm_project_observed := plugin_project\<rparr>"

section \<open>The laws of the trait\<close>

lemma intent_receipts [simp]:
  "intent (s\<lparr>sf_plugin_job := j\<rparr>) = intent s" "intent (s\<lparr>sf_plugin_runtime := r\<rparr>) = intent s"
  "intent (s\<lparr>sf_plugin_results := m\<rparr>) = intent s" "intent (s\<lparr>sf_legacy_files := f\<rparr>) = intent s"
  "numbers (s\<lparr>sf_plugin_runtime := r\<rparr>) = numbers s"
  by (simp_all add: intent_def numbers_def)

lemma record_runtime_fields [simp]:
  "intent (record_runtime s act) = intent s" "sf_plugin_job (record_runtime s act) = sf_plugin_job s"
  "sf_plugin_results (record_runtime s act) = sf_plugin_results s"
  by (simp_all add: record_runtime_def Let_def)

lemma drop_legacy_fields [simp]:
  "intent (drop_legacy c s) = intent s" "sf_plugin_job (drop_legacy c s) = sf_plugin_job s"
  "sf_document (drop_legacy c s) = sf_document s"
  by (simp_all add: drop_legacy_def)

lemma plugin_prepare_starts:
  assumes "plugin_prepare pv s n c = Inr n'" "starts_job c"
  obtains act before where "n' = (drop_legacy c n)\<lparr>sf_plugin_job := Some (pending_of pv act before)\<rparr>"
    "pv_plugins_json pv (ds_plugins (sf_document s)) = Inr before"
proof -
  from assms obtain p :: domain_plan where p: "prepare_job pv s (drop_legacy c n) (dpl_actions p) = Inr n'"
    by (auto simp: plugin_prepare_def Let_def result_simps)
  show thesis
  proof (cases "dpl_actions p")
    case Nil
    with p show thesis by (simp add: prepare_job_def)
  next
    case (Cons x xs)
    with p that show thesis by (cases x) (auto simp: prepare_job_def result_simps)
  qed
qed

lemma plugin_prepare_intent: "plugin_prepare pv s n c = Inr n' \<Longrightarrow> intent n' = intent n"
proof (cases "starts_job c")
  case True
  assume "plugin_prepare pv s n c = Inr n'"
  then show ?thesis using True by (rule plugin_prepare_starts) simp
qed (auto simp: plugin_prepare_def Let_def)

lemma plugin_reservation_intent: "plugin_reservation s n = Some n' \<Longrightarrow> intent n' = intent s"
  by (auto simp: plugin_reservation_def split: if_splits)

lemma plugin_release_intent: "intent (plugin_release s reason) = intent s"
  by (simp add: plugin_release_def)

lemma accepted_now_intent: "intent (snd (accepted_now s n c)) = intent n"
  by (simp add: accepted_now_def Let_def split: option.split)

lemma accepted_job_intent: "accepted_job n job = Inr n' \<Longrightarrow> intent n' = intent n"
  by (cases "sf_plugin_job n"; cases "the (sf_plugin_job n)") (auto simp: accepted_job_def result_simps)

lemma plugin_accepted_intent: "plugin_accepted s n c v = Inr (ch, n', v') \<Longrightarrow> intent n' = intent n"
  using accepted_now_intent [of s n c] accepted_job_intent [of n]
  by (auto simp: plugin_accepted_def accepted_cancel_def Let_def result_simps split: option.splits prod.splits)

lemma job_completion_numbers: "job_completion pv s v = Inr (Some (n, p)) \<Longrightarrow> \<exists>doc. n = s\<lparr>sf_document := doc\<rparr> \<and> ds_revision doc = ds_revision (sf_document s)"
  by (auto simp: job_completion_def initial_data_def result_simps split: option.splits if_splits job_outcome.splits
      plugin_action.splits sum.splits)

lemma plugin_completion_numbers: "plugin_completion pv s v = Inr (Some (n, p)) \<Longrightarrow> numbers n = numbers s"
  by (auto simp: plugin_completion_def Let_def result_simps split: option.splits if_splits
      dest!: job_completion_numbers) (auto simp: numbers_def)

lemma plugin_completed_intent: "plugin_completed pv s v = Inr n \<Longrightarrow> intent n = intent s"
  by (auto simp: plugin_completed_def job_completed_def Let_def split: option.splits sum.splits)

section \<open>Jobs\<close>

text \<open>
  A job that fails puts the plugin registry back to what it was when the job was prepared, whatever
  was committed meanwhile: the completion differs from the current envelope in the plugins of the
  document only, and these are the plugins of the envelope in which the command was prepared. It is a
  change to be published exactly when the plugins differ.
\<close>

theorem failed_job_restores:
  assumes "plugin_prepare pv s n c = Inr n'" and "starts_job c"
    and "sf_plugin_job t = Some (PendingJob i (pj_action (the (sf_plugin_job n')))
           (pj_previous (the (sf_plugin_job n'))) (pj_started_at (the (sf_plugin_job n'))) False can)"
    and "\<And>m j. pv_plugins_json pv m = Inr j \<Longrightarrow> pv_plugins_of pv j = Inr m"
    and "pv_outcome_of pv oj = Inr (JobFailure reason)"
  shows "\<exists>p. plugin_completion pv t (JObject [(''job'', JString i), (''outcome'', oj)]) =
      Inr (Some (t\<lparr>sf_document := (sf_document t)\<lparr>ds_plugins := ds_plugins (sf_document s)\<rparr>\<rparr>, p)) \<and>
    (pp_paths p = [] \<longleftrightarrow> ds_plugins (sf_document s) = ds_plugins (sf_document t))"
proof -
  obtain act before where n': "n' = (drop_legacy c n)\<lparr>sf_plugin_job := Some (pending_of pv act before)\<rparr>"
    and before: "pv_plugins_json pv (ds_plugins (sf_document s)) = Inr before"
    using assms(1,2) by (rule plugin_prepare_starts)
  then have "sf_plugin_job t = Some (PendingJob i act before (pv_now pv) False can)"
    using assms(3) by (simp add: pending_of_def)
  moreover have "pv_plugins_of pv before = Inr (ds_plugins (sf_document s))"
    using assms(4) before by blast
  ultimately show ?thesis
    using assms(5)
    by (simp add: plugin_completion_def job_completion_def json_get_def json_index_def json_text_def obj_get_def
        bt_get_def completion_plan_def)
qed

lemma evict_ok:
  assumes "bt_wf m" "bt_get m i = Some r"
  shows "\<exists>m'. evict i m = Some m' \<and> length m' \<le> 32 \<and> bt_wf m' \<and> bt_get m' i = Some r \<and>
    (\<forall>k v. bt_get m' k = Some v \<longrightarrow> bt_get m k = Some v)"
  using assms
proof (induction i m rule: evict.induct)
  case (1 i m)
  show ?case
  proof (cases "32 < length m")
    case True
    have "\<exists>k \<in> set (bt_keys m). k \<noteq> i"
    proof (rule ccontr)
      assume "\<not> ?thesis"
      then have "set (bt_keys m) \<subseteq> {i}" by blast
      then have "card (set (bt_keys m)) \<le> 1" using card_mono [of "{i}"] by fastforce
      then show False
        using True distinct_card [OF bt_wf_distinct [OF "1.prems"(1)]] by (simp add: bt_keys_def)
    qed
    then obtain k where k: "List.find (\<lambda>k. k \<noteq> i) (bt_keys m) = Some k"
      by (cases "List.find (\<lambda>k. k \<noteq> i) (bt_keys m)") (auto simp: find_None_iff)
    then have "k \<noteq> i" by (auto simp: find_Some_iff)
    then obtain m' where "evict i (bt_remove k m) = Some m'" "length m' \<le> 32" "bt_wf m'" "bt_get m' i = Some r"
      and sub: "\<And>k' v. bt_get m' k' = Some v \<Longrightarrow> bt_get (bt_remove k m) k' = Some v"
      using "1.IH" [OF True k] "1.prems" by (auto simp: bt_simps)
    moreover have "bt_get m k' = Some v" if "bt_get m' k' = Some v" for k' v
      using sub [OF that] by (simp add: bt_simps split: if_splits)
    ultimately show ?thesis using True k by (subst evict.simps) auto
  next
    case False
    then show ?thesis using "1.prems" by (subst evict.simps) auto
  qed
qed

text \<open>
  Retaining results ends and never panics. The loop that drops results above 32 finds a victim in
  every round: completing a job whose result decodes always succeeds, the result just settled is
  retained, at most 32 results are, and none of them was altered.
\<close>

theorem results_retained:
  assumes "bt_wf (sf_plugin_results s)" and "json_get apply ''_plugin_result'' = Some j"
    and "pv_result_of pv j = Inr r"
  shows "\<exists>n. plugin_completed pv s apply = Inr n \<and> length (sf_plugin_results n) \<le> 32 \<and>
    bt_get (sf_plugin_results n) (jr_job r) = Some r \<and>
    (\<forall>k v. bt_get (sf_plugin_results n) k = Some v \<longrightarrow> k = jr_job r \<or> bt_get (sf_plugin_results s) k = Some v) \<and>
    (sf_plugin_job n = None \<longleftrightarrow> sf_plugin_job s = None \<or> \<not> jr_investigation r)"
proof -
  have j: "json_index apply ''_plugin_result'' = j"
    using assms(2) by (auto simp: json_get_def json_index_def obj_get_def split: json.splits)
  obtain m' where m': "evict (jr_job r) (bt_insert (jr_job r) r (sf_plugin_results s)) = Some m'"
    "length m' \<le> 32" "bt_get m' (jr_job r) = Some r"
    "\<And>k v. bt_get m' k = Some v \<Longrightarrow> bt_get (bt_insert (jr_job r) r (sf_plugin_results s)) k = Some v"
    using evict_ok [of "bt_insert (jr_job r) r (sf_plugin_results s)" "jr_job r" r] assms(1)
    by (auto simp: bt_simps)
  then have old: "k = jr_job r \<or> bt_get (sf_plugin_results s) k = Some v" if "bt_get m' k = Some v" for k v
    using m'(4) [OF that] by (auto simp: bt_simps split: if_splits)
  show ?thesis
    using assms(2,3) m'(1,2,3) old unfolding plugin_completed_def job_completed_def
    by (cases "jr_response r"; cases "sf_plugin_job s") (auto simp: j Let_def)
qed

lemma json_remove_absent: "json_get v k = None \<Longrightarrow> json_remove k v = (None, v)"
  by (cases v) (force simp: json_remove_def json_get_def bt_remove_def bt_get_def map_of_eq_None_iff intro!: filter_True)+


section \<open>An instance\<close>

text \<open>Codecs of the registry that round-trip, and an installed plugin that is removed.\<close>

definition plugin_state_json :: "plugin_state \<Rightarrow> json" where
  "plugin_state_json p =
     JArray [JBool (pl_installed p), JBool (pl_enabled p), JString (pl_version p),
       case pl_state p of None \<Rightarrow> JNull | Some m \<Rightarrow> JObject m]"

definition plugin_state_of :: "json \<Rightarrow> plugin_state option" where
  "plugin_state_of j =
     (case j of
        JArray [JBool a, JBool b, JString v, d] \<Rightarrow>
          Some \<lparr>pl_installed = a, pl_enabled = b, pl_version = v,
                pl_state = (case d of JObject m \<Rightarrow> Some m | _ \<Rightarrow> None)\<rparr>
      | _ \<Rightarrow> None)"

lemma plugin_state_of_json: "plugin_state_of (plugin_state_json p) = Some p"
  by (cases p) (simp add: plugin_state_of_def plugin_state_json_def split: option.split)

definition sample_env :: "unit plugin_env" where
  "sample_env =
     \<lparr>pv_now = 7, pv_plugins_json = (\<lambda>m. Inr (JObject (map (map_prod id plugin_state_json) m))),
      pv_plugins_of = (\<lambda>j. case j of JObject es \<Rightarrow> Inr (map (\<lambda>(n, e). (n, the (plugin_state_of e))) es) | _ \<Rightarrow> Inl []),
      pv_outcome_of = (\<lambda>j. case j of JString e \<Rightarrow> Inr (JobFailure e) | _ \<Rightarrow> Inl []),
      pv_result_of = (\<lambda>j. case j of JString i \<Rightarrow> Inr \<lparr>jr_job = i, jr_response = Inl ''failed'', jr_investigation = False\<rparr>
                          | _ \<Rightarrow> Inl []),
      pv_manifest_of = (\<lambda>_. Inl []), pv_state_of = (\<lambda>_. Inl []), pv_host_manifest = (\<lambda>_. Inl []),
      pv_size_of = (\<lambda>_. Inr 0), pv_query = (\<lambda>_ _ w. (Inl [], w))\<rparr>"

definition hello_state :: state_file where
  "hello_state = (new_state_file (default_desired_state\<lparr>ds_plugins :=
     [(''hello'', \<lparr>pl_installed = True, pl_enabled = True, pl_version = ''1.0'', pl_state = None\<rparr>)]\<rparr>) [])
     \<lparr>sf_plugin_runtime := [(''plugins'', JObject [])]\<rparr>"

abbreviation remove_hello :: command where
  "remove_hello \<equiv> RemovePlugin ''hello'' False False"

definition hello_removed :: state_file where
  "hello_removed = hello_state\<lparr>sf_document := (sf_document hello_state)\<lparr>ds_plugins := []\<rparr>\<rparr>"

abbreviation hello_prepared :: state_file where
  "hello_prepared \<equiv> hello_removed\<lparr>sf_plugin_job := Some (pending_of sample_env (PluginsRemove ''hello'' False False)
     (JObject (map (map_prod id plugin_state_json) (ds_plugins (sf_document hello_state)))))\<rparr>"

lemma hello_prepare: "plugin_prepare sample_env hello_state hello_removed remove_hello = Inr hello_prepared"
  by (simp add: plugin_prepare_def drop_legacy_def starts_job_def plugin_plan_def plugin_action_of_def backup_handles_def
      command_domain_def COMMAND_ROUTES_def prepare_job_def) (simp add: sample_env_def)

lemma sample_round_trip: "pv_plugins_json sample_env m = Inr j \<Longrightarrow> pv_plugins_of sample_env j = Inr m"
  by (auto simp: sample_env_def comp_def plugin_state_of_json intro!: map_idI)

theorem failed_job_restores_witness:
  "\<exists>p n. plugin_completion sample_env hello_prepared (JObject [(''job'', JString ''unknown''), (''outcome'', JString ''no space'')]) =
    Inr (Some (n, p)) \<and> ds_plugins (sf_document n) = ds_plugins (sf_document hello_state) \<and> pp_paths p \<noteq> []"
proof -
  have "\<exists>p. plugin_completion sample_env hello_prepared (JObject [(''job'', JString ''unknown''), (''outcome'', JString ''no space'')]) =
      Inr (Some (hello_prepared\<lparr>sf_document := (sf_document hello_prepared)\<lparr>ds_plugins := ds_plugins (sf_document hello_state)\<rparr>\<rparr>, p)) \<and>
    (pp_paths p = [] \<longleftrightarrow> ds_plugins (sf_document hello_state) = ds_plugins (sf_document hello_prepared))"
    by (rule failed_job_restores [OF hello_prepare _ _ sample_round_trip, where can = False and reason = "''no space''"])
       (simp_all add: starts_job_def pending_of_def sample_env_def)
  moreover have "ds_plugins (sf_document hello_state) \<noteq> ds_plugins (sf_document hello_prepared)"
    by (simp add: hello_state_def hello_removed_def new_state_file_def)
  ultimately show ?thesis by force
qed

theorem results_retained_witness:
  "\<exists>n. plugin_completed sample_env hello_state (JObject [(''_plugin_result'', JString ''j1'')]) = Inr n \<and>
    length (sf_plugin_results n) \<le> 32"
  using results_retained [of hello_state "JObject [(''_plugin_result'', JString ''j1'')]" "JString ''j1''" sample_env
      "\<lparr>jr_job = ''j1'', jr_response = Inl ''failed'', jr_investigation = False\<rparr>"]
  by (fastforce simp: hello_state_def new_state_file_def json_get_def bt_get_def bt_wf_def sample_env_def)


end
