(* ===== verification/Plugin_Supervisor.thy ===== *)
theory Plugin_Supervisor
  imports Plugin_Module
begin

text \<open>
  The supervisor of plugin jobs (ndimon-state/src/domains/plugins/jobs.rs, \<open>observe_with\<close>): a task beside
  the actor that asks for the job in the envelope every 250 ms and hands what it learns to the actor.

  One round of its loop is \<open>observe_step\<close>. A \<open>poll\<close> holds what the round meets: the snapshots, the clock
  and the answer of each call the round can make; the round returns the loop's variables (or ends the
  loop) and the calls it made, in order. A run is a list of polls.

  What is shown: a job is reported lost only after three answered polls in a row found it gone, and a
  cancelled job whose unit is gone is settled, with the registry as it was before the job.
\<close>

section \<open>Status of a job\<close>

record action_output =
  out_stdout :: string
  out_stderr :: string
  out_job :: "string option"
  out_data :: "json option"

record status_codec =
  sc_reply_of :: "json \<Rightarrow> ((action_output, proto_error) result, string) result"
  sc_output_json :: "action_output \<Rightarrow> (json, string) result"

definition result_of :: "json \<Rightarrow> json option" where
  "result_of status = (case json_get status ''data'' of None \<Rightarrow> None | Some d \<Rightarrow> json_get d ''result'')"

definition unit_inactive :: "json \<Rightarrow> bool" where
  "unit_inactive status =
     (trim (case json_text (json_index status ''stdout'') of Some t \<Rightarrow> t | None \<Rightarrow> []) = ''inactive'')"

definition ended_text :: string where
  "ended_text = ''plugin job ended without a durable result; operator investigation required''"

definition outcome :: "status_codec \<Rightarrow> json \<Rightarrow> job_outcome option" where
  "outcome sc status =
     (case result_of status of
        Some result \<Rightarrow>
          Some (case sc_reply_of sc result of
                  Inr (Inr out) \<Rightarrow>
                    (case sc_output_json sc out of Inr v \<Rightarrow> JobSuccess v | Inl e \<Rightarrow> JobUnknown e)
                | Inr (Inl error) \<Rightarrow> JobFailure (proto_error_text error)
                | Inl error \<Rightarrow>
                    JobUnknown (''invalid plugin result: '' @ error @ ''; operator investigation required''))
      | None \<Rightarrow> if unit_inactive status then Some (JobUnknown ended_text) else None)"

definition ended_without_result :: "json \<Rightarrow> bool" where
  "ended_without_result status = (result_of status = None \<and> unit_inactive status)"

definition LOST_POLLS :: u32 where "LOST_POLLS = 3"

definition CANCELLED :: string where "CANCELLED = ''plugin job cancelled by an operator''"

definition ABANDONED :: string where
  "ABANDONED = ''plugin job ended without a durable result and its unit is gone; the plugin registry is back as it was before the job''"

definition LOST_ACK :: string where
  "LOST_ACK = ''plugin acknowledgement was lost; operator investigation required''"

section \<open>Calls and polls\<close>

datatype call = AskStatus string | AskCancel string | CallComplete json | CallBridge json

record poll =
  po_state :: "state_file option"
  po_status :: "(json, string) result"
  po_now :: u64
  po_cancel :: "(json, string) result"
  po_complete :: "(unit, api_error) result"
  po_journal :: "(json, string) result"
  po_state_again :: "state_file option"

record watch =
  wt_orphan_reported :: "string option"
  wt_cancelled :: "string option"
  wt_lost :: u32
  wt_start :: bool

definition first_watch :: watch where
  "first_watch = \<lparr>wt_orphan_reported = None, wt_cancelled = None, wt_lost = 0, wt_start = True\<rparr>"

definition outcome_json :: "job_outcome \<Rightarrow> json" where
  "outcome_json o' =
     (case o' of
        JobSuccess v \<Rightarrow> JObject [(''Success'', v)]
      | JobFailure e \<Rightarrow> JObject [(''Failure'', JString e)]
      | JobUnknown e \<Rightarrow> JObject [(''Unknown'', JString e)])"

definition completion_message :: "string \<Rightarrow> job_outcome \<Rightarrow> json" where
  "completion_message job o' = JObject [(''job'', JString job), (''outcome'', outcome_json o')]"

definition settle_message :: "string \<Rightarrow> job_outcome \<Rightarrow> json" where
  "settle_message job o' =
     JObject [(''job'', JString job), (''outcome'', outcome_json o'), (''settle'', JBool True)]"

definition clear_receipt :: json where
  "clear_receipt = JObject [(''operation'', JString ''job''), (''value'', JNull)]"

definition ask_journal :: json where
  "ask_journal = JObject [(''operation'', JString ''job'')]"

definition report_orphan :: "string \<Rightarrow> json" where
  "report_orphan job =
     JObject [(''error'', JString ''plugin acknowledgement or acceptance was lost; operator investigation required''),
              (''operation'', JString ''job''), (''value'', JString job)]"

section \<open>Settling an investigation marker\<close>

definition settled_outcome :: "status_codec \<Rightarrow> string \<Rightarrow> json \<Rightarrow> job_outcome option" where
  "settled_outcome sc reason status =
     (if ended_without_result status then Some (JobFailure reason)
      else case outcome sc status of
             Some (JobUnknown error) \<Rightarrow> Some (JobFailure error)
           | other \<Rightarrow> other)"

definition complete_and_clear :: "poll \<Rightarrow> json \<Rightarrow> call list" where
  "complete_and_clear po message =
     CallComplete message # (if is_ok (po_complete po) then [CallBridge clear_receipt] else [])"

definition settle :: "status_codec \<Rightarrow> poll \<Rightarrow> pending_job \<Rightarrow> bool \<times> call list" where
  "settle sc po pending =
     (let reason = (if pj_cancelled pending then CANCELLED else ABANDONED)
      in case plugin_job_try_from (pj_id pending) of
           Inl _ \<Rightarrow> (True, complete_and_clear po (settle_message (pj_id pending) (JobFailure reason)))
         | Inr job \<Rightarrow>
             (case po_status po of
                Inl _ \<Rightarrow> (False, [AskStatus job])
              | Inr status \<Rightarrow>
                  (case settled_outcome sc reason status of
                     None \<Rightarrow> (True, [AskStatus job])
                   | Some o' \<Rightarrow>
                       (True, AskStatus job # complete_and_clear po (settle_message (pj_id pending) o')))))"

section \<open>One round\<close>

text \<open>The outcome that a status leads to, and the counter of polls that found the job gone.\<close>

definition judge :: "status_codec \<Rightarrow> u32 \<Rightarrow> pending_job \<Rightarrow> json \<Rightarrow> u32 \<times> job_outcome option" where
  "judge sc lost pending status =
     (if \<not> ended_without_result status then (0, outcome sc status)
      else if pj_cancelled pending then (lost, Some (JobFailure CANCELLED))
      else (lost + 1, if lost + 1 < LOST_POLLS then None else outcome sc status))"

definition deliver_outcome :: "poll \<Rightarrow> pending_job \<Rightarrow> job_outcome \<Rightarrow> call list" where
  "deliver_outcome po pending o' =
     CallComplete (completion_message (pj_id pending) o') #
     (case po_complete po of
        Inl error \<Rightarrow>
          if (case pj_action pending of PluginsEnable _ _ \<Rightarrow> True | _ \<Rightarrow> False) \<and>
             (case o' of JobSuccess _ \<Rightarrow> True | _ \<Rightarrow> False) \<and>
             (case error of ApplyFailed _ step _ \<Rightarrow> step = ''completion'' | _ \<Rightarrow> False)
          then [CallComplete (completion_message (pj_id pending) (JobFailure (error_text error)))] else []
      | Inr _ \<Rightarrow> (case o' of JobUnknown _ \<Rightarrow> [] | _ \<Rightarrow> [CallBridge clear_receipt]))"

text \<open>A job under way. Cancelling after 300 s is asked for once.\<close>

definition follow_job :: "status_codec \<Rightarrow> watch \<Rightarrow> poll \<Rightarrow> pending_job \<Rightarrow> watch \<times> call list" where
  "follow_job sc w po pending =
     (case plugin_job_try_from (pj_id pending) of
        Inl _ \<Rightarrow> (w, [CallComplete (completion_message (pj_id pending) (JobUnknown LOST_ACK))])
      | Inr job \<Rightarrow>
          (case po_status po of
             Inl _ \<Rightarrow> (w, [AskStatus job])
           | Inr status \<Rightarrow>
               (let (lost, result) = judge sc (wt_lost w) pending status;
                    overdue = (result = None \<and> 300 \<le> saturating_sub (po_now po) (pj_started_at pending) \<and>
                               wt_cancelled w \<noteq> Some (pj_id pending));
                    w1 = w\<lparr>wt_lost := lost\<rparr>;
                    w2 = (if overdue \<and> is_ok (po_cancel po) then w1\<lparr>wt_cancelled := Some (pj_id pending)\<rparr> else w1)
                in (w2, AskStatus job # (if overdue then [AskCancel job] else []) @
                        (case result of None \<Rightarrow> [] | Some o' \<Rightarrow> deliver_outcome po pending o')))))"

text \<open>No job in the envelope: an interrupted acceptance can have left a receipt.\<close>

definition look_for_orphan :: "watch \<Rightarrow> poll \<Rightarrow> state_file \<Rightarrow> watch \<times> call list" where
  "look_for_orphan w po s =
     (case po_journal po of
        Inl _ \<Rightarrow> (w, [CallBridge ask_journal])
      | Inr journal \<Rightarrow>
          (case json_text (json_index journal ''job'') of
             None \<Rightarrow> (w\<lparr>wt_orphan_reported := None\<rparr>, [CallBridge ask_journal])
           | Some job \<Rightarrow>
               if (case bt_get (sf_plugin_results s) job of None \<Rightarrow> False | Some r \<Rightarrow> \<not> jr_investigation r)
               then (w, [CallBridge ask_journal, CallBridge clear_receipt])
               else if wt_orphan_reported w \<noteq> Some job \<and>
                       (case po_state_again po of None \<Rightarrow> False | Some s' \<Rightarrow> sf_plugin_job s' = None)
               then (w\<lparr>wt_orphan_reported := Some job\<rparr>, [CallBridge ask_journal, CallBridge (report_orphan job)])
               else (w, [CallBridge ask_journal])))"

definition observe_step :: "status_codec \<Rightarrow> watch \<Rightarrow> poll \<Rightarrow> (watch \<times> call list) option" where
  "observe_step sc w po =
     (case po_state po of
        None \<Rightarrow> None
      | Some s \<Rightarrow>
          (let first = wt_start w;
               w0 = w\<lparr>wt_start := False\<rparr>
           in case sf_plugin_job s of
                None \<Rightarrow> Some (look_for_orphan (w0\<lparr>wt_lost := 0\<rparr>) po s)
              | Some pending \<Rightarrow>
                  if pj_investigation pending
                  then (if first \<or> pj_cancelled pending
                        then (case settle sc po pending of (asked, calls) \<Rightarrow>
                                Some (w0\<lparr>wt_lost := 0, wt_start := (if asked then False else first)\<rparr>, calls))
                        else Some (w0\<lparr>wt_lost := 0\<rparr>, []))
                  else Some (follow_job sc w0 po pending)))"

text \<open>A run: the calls of each round, until a snapshot is refused.\<close>

fun observe_run :: "status_codec \<Rightarrow> watch \<Rightarrow> poll list \<Rightarrow> call list list" where
  "observe_run sc w [] = []"
| "observe_run sc w (po # ps) =
     (case observe_step sc w po of
        None \<Rightarrow> []
      | Some (w', calls) \<Rightarrow> calls # observe_run sc w' ps)"

section \<open>Lost jobs\<close>

text \<open>What a round is told of a job that is under way: nothing if no unit is named or nobody answers.\<close>

definition awaited :: "poll \<Rightarrow> pending_job option" where
  "awaited po =
     (case po_state po of
        None \<Rightarrow> None
      | Some s \<Rightarrow> (case sf_plugin_job s of
                    None \<Rightarrow> None | Some p \<Rightarrow> if pj_investigation p then None else Some p))"

definition answer :: "poll \<Rightarrow> json option" where
  "answer po =
     (case awaited po of
        None \<Rightarrow> None
      | Some p \<Rightarrow> if is_ok (plugin_job_try_from (pj_id p))
                 then (case po_status po of Inl _ \<Rightarrow> None | Inr status \<Rightarrow> Some status) else None)"

definition gone :: "poll \<Rightarrow> bool" where
  "gone po = (case answer po of None \<Rightarrow> False | Some status \<Rightarrow> ended_without_result status)"

definition quiet :: "poll \<Rightarrow> bool" where
  "quiet po = (awaited po \<noteq> None \<and> (case answer po of None \<Rightarrow> True | Some status \<Rightarrow> ended_without_result status))"

fun watch_after :: "status_codec \<Rightarrow> watch \<Rightarrow> poll list \<Rightarrow> watch option" where
  "watch_after sc w [] = Some w"
| "watch_after sc w (po # ps) =
     (case observe_step sc w po of None \<Rightarrow> None | Some (w', _) \<Rightarrow> watch_after sc w' ps)"

lemma watch_after_append:
  "watch_after sc w (ps @ qs) = (case watch_after sc w ps of None \<Rightarrow> None | Some w' \<Rightarrow> watch_after sc w' qs)"
  by (induction ps arbitrary: w) (auto split: option.split)

lemma observe_run_nth:
  "k < length (observe_run sc w ps) \<Longrightarrow> k < length ps \<and> (\<exists>w1 w2. watch_after sc w (take k ps) = Some w1 \<and>
     observe_step sc w1 (ps ! k) = Some (w2, observe_run sc w ps ! k))"
proof (induction ps arbitrary: w k)
  case (Cons po ps)
  then obtain w' calls where step: "observe_step sc w po = Some (w', calls)"
    by (auto split: option.splits prod.splits)
  show ?case
  proof (cases k)
    case (Suc j)
    with Cons.prems step have "j < length (observe_run sc w' ps)" by simp
    from Cons.IH [OF this] Suc step show ?thesis by auto
  qed (use step in auto)
qed simp

definition streak :: "nat \<Rightarrow> poll list \<Rightarrow> bool" where
  "streak n ps = (\<exists>xs ys. ps = xs @ ys \<and> list_all quiet ys \<and> n \<le> length (filter gone ys))"

lemma streak_0: "streak 0 ps"
  unfolding streak_def by (rule exI [of _ ps], rule exI [of _ "[]"]) simp

lemma streak_snoc: "streak n ps \<Longrightarrow> quiet po \<Longrightarrow> m \<le> n + of_bool (gone po) \<Longrightarrow> streak m (ps @ [po])"
  unfolding streak_def
proof (elim exE conjE)
  fix xs ys
  assume "ps = xs @ ys" "list_all quiet ys" "n \<le> length (filter gone ys)" "quiet po" "m \<le> n + of_bool (gone po)"
  then show "\<exists>xs ys. ps @ [po] = xs @ ys \<and> list_all quiet ys \<and> m \<le> length (filter gone ys)"
    by (intro exI [of _ xs] exI [of _ "ys @ [po]"]) auto
qed

lemma unat_suc_le: "unat (x + 1 :: u32) \<le> unat x + 1"
  by (simp add: unat_word_ariths)

lemma follow_job_lost:
  assumes "follow_job sc w po p = (w', calls)" "awaited po = Some p" "streak (unat (wt_lost w)) ps"
  shows "streak (unat (wt_lost w')) (ps @ [po])"
proof (cases "answer po")
  case None
  then have "quiet po" "\<not> gone po" using assms(2) by (auto simp: quiet_def gone_def)
  moreover have "wt_lost w' = wt_lost w"
    using None assms(1,2) by (auto simp: answer_def follow_job_def Let_def split: sum.splits if_splits prod.splits)
  ultimately show ?thesis using streak_snoc [OF assms(3)] by simp
next
  case (Some status)
  then obtain job where job: "plugin_job_try_from (pj_id p) = Inr job" "po_status po = Inr status"
    using assms(2) by (auto simp: answer_def is_ok_def split: sum.splits if_splits)
  then have lost: "wt_lost w' = fst (judge sc (wt_lost w) p status)"
    using assms(1) by (auto simp: follow_job_def Let_def split: prod.splits if_splits)
  show ?thesis
  proof (cases "ended_without_result status")
    case True
    then have "quiet po" "gone po" using assms(2) Some by (auto simp: quiet_def gone_def)
    moreover have "unat (wt_lost w') \<le> unat (wt_lost w) + 1"
      using unat_suc_le [of "wt_lost w"] by (simp add: lost judge_def True)
    ultimately show ?thesis using streak_snoc [OF assms(3)] by simp
  next
    case False
    then show ?thesis by (simp add: lost judge_def streak_0)
  qed
qed

lemma observe_step_lost:
  assumes "observe_step sc w po = Some (w', calls)" "streak (unat (wt_lost w)) ps"
  shows "streak (unat (wt_lost w')) (ps @ [po])"
proof -
  obtain s where s: "po_state po = Some s" using assms(1) by (auto simp: observe_step_def split: option.splits)
  show ?thesis
  proof (cases "awaited po")
    case None
    then have "wt_lost w' = 0"
      using assms(1) s
      by (auto simp: awaited_def observe_step_def Let_def look_for_orphan_def settle_def
          split: option.splits if_splits prod.splits sum.splits)
    then show ?thesis by (simp add: streak_0)
  next
    case (Some p)
    then have "follow_job sc (w\<lparr>wt_start := False\<rparr>) po p = (w', calls)"
      using assms(1) s by (auto simp: awaited_def observe_step_def Let_def split: option.splits if_splits)
    from follow_job_lost [OF this Some] assms(2) show ?thesis by simp
  qed
qed

lemma watch_after_lost: "watch_after sc first_watch ps = Some w \<Longrightarrow> streak (unat (wt_lost w)) ps"
proof (induction ps arbitrary: w rule: rev_induct)
  case Nil
  then show ?case by (auto simp: first_watch_def streak_0)
next
  case (snoc po ps)
  then obtain w1 calls where "watch_after sc first_watch ps = Some w1" "observe_step sc w1 po = Some (w, calls)"
    by (auto simp: watch_after_append split: option.splits prod.splits)
  with snoc.IH show ?case by (intro observe_step_lost) auto
qed

lemma follow_job_complete:
  assumes "follow_job sc w po p = (w', calls)" "plugin_job_try_from (pj_id p) = Inr job" "po_status po = Inr status"
    and "CallComplete message \<in> set calls"
  shows "judge sc (wt_lost w) p status = (wt_lost w', snd (judge sc (wt_lost w) p status)) \<and>
    snd (judge sc (wt_lost w) p status) \<noteq> None"
  using assms by (auto simp: follow_job_def Let_def split: prod.splits if_splits option.splits)


section \<open>Cancelled jobs\<close>

text \<open>
  Cancelling is a way out. A round that meets a cancelled job whose unit is gone without a result, or
  whose marker is under investigation and names no unit, hands the actor a message for which the
  plugin module completes the job as failed, with the registry as it was before the job.
\<close>

theorem cancelled_job_settles:
  assumes "po_state po = Some t" and "sf_plugin_job t = Some p" and "pj_cancelled p"
    and "po_status po = Inr status" and "ended_without_result status"
    and "pj_investigation p \<or> plugin_job_ok (pj_id p)"
    and "\<And>e. pv_outcome_of pv (outcome_json (JobFailure e)) = Inr (JobFailure e)"
    and "pv_plugins_of pv (pj_previous p) = Inr before"
  shows "\<exists>w' calls message plan. observe_step sc w po = Some (w', calls) \<and> CallComplete message \<in> set calls \<and>
    plugin_completion pv t message =
      Inr (Some (t\<lparr>sf_document := (sf_document t)\<lparr>ds_plugins := before\<rparr>\<rparr>, plan)) \<and>
    pp_actions plan = [ActionPlugins (PluginsComplete p (JobFailure CANCELLED))]"
proof -
  have finish: "\<exists>plan. plugin_completion pv t message =
      Inr (Some (t\<lparr>sf_document := (sf_document t)\<lparr>ds_plugins := before\<rparr>\<rparr>, plan)) \<and>
      pp_actions plan = [ActionPlugins (PluginsComplete p (JobFailure CANCELLED))]"
    if "message = settle_message (pj_id p) (JobFailure CANCELLED) \<or>
        \<not> pj_investigation p \<and> message = completion_message (pj_id p) (JobFailure CANCELLED)" for message
    using that assms(2,7,8)
    by (auto simp: plugin_completion_def job_completion_def settle_message_def completion_message_def json_get_def
        json_index_def json_text_def obj_get_def bt_get_def completion_plan_def)
  show ?thesis
  proof (cases "pj_investigation p")
    case True
    then have "\<exists>w' calls. observe_step sc w po = Some (w', calls) \<and>
        CallComplete (settle_message (pj_id p) (JobFailure CANCELLED)) \<in> set calls"
      using assms by (cases "plugin_job_try_from (pj_id p)")
        (simp_all add: observe_step_def Let_def settle_def complete_and_clear_def settled_outcome_def)
    with finish show ?thesis by blast
  next
    case False
    then have "plugin_job_try_from (pj_id p) = Inr (pj_id p)"
      using assms(6) by (simp add: plugin_job_try_from_def try_from_def)
    then have "\<exists>w' calls. observe_step sc w po = Some (w', calls) \<and>
        CallComplete (completion_message (pj_id p) (JobFailure CANCELLED)) \<in> set calls"
      using assms False by (simp add: observe_step_def Let_def follow_job_def judge_def deliver_outcome_def)
    with finish False show ?thesis by blast
  qed
qed

section \<open>Instances\<close>

abbreviation gone_status :: json where
  "gone_status \<equiv> JObject [(''stderr'', JString []), (''stdout'', JString ''inactive'')]"

definition job_state :: "bool \<Rightarrow> state_file" where
  "job_state can = hello_state\<lparr>sf_plugin_job := Some (PendingJob ''ndimon-plugin-hello-1.service''
     (PluginsRemove ''hello'' False False) (JObject []) 0 False can)\<rparr>"

definition gone_poll :: "bool \<Rightarrow> poll" where
  "gone_poll can =
     \<lparr>po_state = Some (job_state can), po_status = Inr gone_status, po_now = 1, po_cancel = Inl [],
      po_complete = Inr (), po_journal = Inl [], po_state_again = None\<rparr>"

definition sample_codec :: status_codec where
  "sample_codec = \<lparr>sc_reply_of = (\<lambda>_. Inl []), sc_output_json = (\<lambda>_. Inl [])\<rparr>"

lemma gone_job: "plugin_job_try_from ''ndimon-plugin-hello-1.service'' = Inr ''ndimon-plugin-hello-1.service''"
  by code_simp

lemma gone_inactive: "unit_inactive gone_status" "result_of gone_status = None"
  by code_simp+

lemma gone_facts:
  "ended_without_result gone_status" "awaited (gone_poll can) = sf_plugin_job (job_state can)"
  "answer (gone_poll can) = Some gone_status" "pj_cancelled (the (sf_plugin_job (job_state can))) = can"
  by (simp_all add: ended_without_result_def gone_inactive awaited_def gone_poll_def job_state_def answer_def gone_job)


definition failing_env :: "unit plugin_env" where
  "failing_env = sample_env\<lparr>pv_outcome_of := (\<lambda>j. case j of
     JObject [(_, JString e)] \<Rightarrow> Inr (JobFailure e) | _ \<Rightarrow> Inl [])\<rparr>"

theorem cancelled_job_settles_witness:
  "\<exists>w' calls message n plan. observe_step sample_codec first_watch (gone_poll True) = Some (w', calls) \<and>
    CallComplete message \<in> set calls \<and> plugin_completion failing_env (job_state True) message = Inr (Some (n, plan)) \<and>
    ds_plugins (sf_document n) = []"
proof -
  have "\<exists>w' calls message plan. observe_step sample_codec first_watch (gone_poll True) = Some (w', calls) \<and>
      CallComplete message \<in> set calls \<and> plugin_completion failing_env (job_state True) message =
      Inr (Some ((job_state True)\<lparr>sf_document := (sf_document (job_state True))\<lparr>ds_plugins := []\<rparr>\<rparr>, plan)) \<and>
    pp_actions plan = [ActionPlugins (PluginsComplete (the (sf_plugin_job (job_state True))) (JobFailure CANCELLED))]"
    by (rule cancelled_job_settles [where status = gone_status and p = "the (sf_plugin_job (job_state True))"])
       (simp_all add: gone_facts gone_poll_def, simp_all add: job_state_def failing_env_def sample_env_def outcome_json_def,
        use gone_job in \<open>simp add: plugin_job_try_from_def try_from_def split: if_splits\<close>)
  then show ?thesis by force
qed

end
