(* ===== verification/Net_Validation.thy ===== *)
theory Net_Validation
  imports Authority
begin

text \<open>
  Privileged validation of network profiles (ndimon-netengine/src/validation.rs and the error
  constructors of lib.rs). The engine checks a candidate against the adopted document once more, with
  its own rules and normalizations, before it plans a change.

  What is shown: whatever the engine accepts, the portable document check accepts too, so the
  decision that keeps a change is never refused for the network section it carries.
\<close>

section \<open>Errors of the engine\<close>

definition engine_invalid :: "string \<Rightarrow> string \<Rightarrow> api_error" where
  "engine_invalid field reason = invalid [new_field_error field reason]"

definition unsupported :: "string \<Rightarrow> api_error" where
  "unsupported what = Unsupported what"

definition engine_failed :: "string \<Rightarrow> string \<Rightarrow> api_error" where
  "engine_failed step reason = ApplyFailed DNetwork step reason"

definition locked :: "string \<Rightarrow> api_error" where
  "locked by' = Locked ''network'' (Some by')"

section \<open>Names and addresses\<close>

definition confirm_message :: "confirm_policy \<Rightarrow> string" where
  "confirm_message policy =
     (case policy of
        RequireManagementAddress \<Rightarrow>
          ''Keep the changes through the new management connection within 60 seconds after they are applied, or all network changes revert.''
      | _ \<Rightarrow> ''Keep the changes within 60 seconds after they are applied, or all network changes revert.'')"

definition ifname :: "network_profiles \<Rightarrow> network_profile \<Rightarrow> string" where
  "ifname p n = (case np_vlan_id n of None \<Rightarrow> nps_interface p | Some tag \<Rightarrow> nps_interface p @ ''.'' @ dec (unat tag))"

definition assigned :: "network_profiles \<Rightarrow> string \<Rightarrow> (network_profile, api_error) result" where
  "assigned p i = ok_or (List.find (\<lambda>n. np_id n = i) (nps_networks p)) (NotFound (''network:'' @ i))"

definition physical :: "string \<Rightarrow> bool" where
  "physical s =
     (s \<noteq> [] \<and> length s \<le> 15 \<and> s \<noteq> ''lo'' \<and>
      list_all (\<lambda>b. is_ascii_alphanumeric b \<or> b = CHR ''_'' \<or> b = CHR ''-'') s)"

definition unicast :: "ipv4 \<Rightarrow> bool" where
  "unicast a =
     (octet 0 a \<noteq> 0 \<and> octet 0 a \<noteq> 127 \<and> octet 0 a < 224 \<and> \<not> (octet 0 a = 169 \<and> octet 1 a = 254))"

definition subnet :: "ipv4 \<Rightarrow> u8 \<Rightarrow> u32 \<times> u32" where
  "subnet a prefix =
     (let mask = push_bit (32 - unat prefix) (- 1); low = a AND mask in (low, low OR NOT mask))"

section \<open>Rows\<close>

text \<open>The checks every row gets, before its address mode is looked at.\<close>

definition row_head ::
  "network_profiles \<Rightarrow> string \<Rightarrow> string list \<Rightarrow> u16 option list \<Rightarrow> network_profile \<Rightarrow> field_error list" where
  "row_head p path ids tags n =
     check (np_id n \<noteq> [] \<and> length (np_id n) \<le> 32 \<and> is_ascii_lowercase (hd (np_id n)) \<and>
            list_all (\<lambda>b. is_ascii_lowercase b \<or> is_ascii_digit b \<or> b = CHR ''-'') (np_id n))
       (path @ ''.id'') ''invalid_network_id'' @
     check (np_id n \<notin> set ids) (path @ ''.id'') ''duplicate_network_id'' @
     check (\<not> is_blank (np_name n) \<and> length (chars (np_name n)) \<le> 64 \<and> \<not> list_ex is_control (chars (np_name n)))
       (path @ ''.name'') ''invalid_network_name'' @
     check (np_id n = nr_management (nps_roles p) \<or> np_dns_search n = [])
       (path @ ''.dns_search'') ''gateway_dns_management_only'' @
     check (length (np_dns_search n) \<le> MAX_DNS_SEARCH) (path @ ''.dns_search'') ''invalid_dns_search_list'' @
     each (\<lambda>j d. check (valid_dns_search_domain d) (index_path (path @ ''.dns_search'') j) ''invalid_dns_search_domain'')
       (np_dns_search n) @
     check (case np_vlan_id n of None \<Rightarrow> True | Some t \<Rightarrow> 1 \<le> unat t \<and> unat t \<le> 4094)
       (path @ ''.vlan_id'') ''invalid_vlan_id'' @
     check (np_vlan_id n \<notin> set tags) (path @ ''.vlan_id'') ''duplicate_vlan'' @
     check (length (ifname p n) \<le> 15) (path @ ''.vlan_id'') ''interface_name_too_long''"

definition gateway_errors :: "string \<Rightarrow> ipv4 \<Rightarrow> u32 \<Rightarrow> u32 \<Rightarrow> string \<Rightarrow> field_error list" where
  "gateway_errors path a low high gateway =
     (if gateway = [] then []
      else case parse_ipv4 gateway of
             None \<Rightarrow> [new_field_error (path @ ''.gateway'') ''invalid_gateway'']
           | Some g \<Rightarrow>
               check (\<not> (g < low \<or> high < g)) (path @ ''.gateway'') ''gateway_outside_subnet'' @
               check (unicast g \<and> g \<noteq> a \<and> g \<noteq> low \<and> g \<noteq> high) (path @ ''.gateway'') ''unusable_gateway'')"

definition static_errors :: "string \<Rightarrow> (u32 \<times> u32) list \<Rightarrow> network_profile \<Rightarrow> field_error list" where
  "static_errors path subnets n =
     check (8 \<le> unat (np_prefix n) \<and> unat (np_prefix n) \<le> 30) (path @ ''.prefix'') ''prefix_out_of_range'' @
     (case parse_ipv4 (np_address n) of
        None \<Rightarrow> [new_field_error (path @ ''.address'') ''invalid_ipv4_address'']
      | Some a \<Rightarrow>
          check (unicast a) (path @ ''.address'') ''unusable_unicast_address'' @
          (if 8 \<le> unat (np_prefix n) \<and> unat (np_prefix n) \<le> 30
           then (case subnet a (np_prefix n) of (low, high) \<Rightarrow>
                  check (a \<noteq> low \<and> a \<noteq> high) (path @ ''.address'') ''network_or_broadcast_address'' @
                  check (\<not> list_ex (\<lambda>(l, h). low \<le> h \<and> l \<le> high) subnets) (path @ ''.address'') ''subnets_overlap'' @
                  gateway_errors path a low high (np_gateway n))
           else []))"

text \<open>The subnet a static row adds to those seen so far.\<close>

definition static_subnet :: "network_profile \<Rightarrow> (u32 \<times> u32) option" where
  "static_subnet n =
     (case parse_ipv4 (np_address n) of
        None \<Rightarrow> None
      | Some a \<Rightarrow> if 8 \<le> unat (np_prefix n) \<and> unat (np_prefix n) \<le> 30 then Some (subnet a (np_prefix n)) else None)"

definition row_tail :: "network_profiles \<Rightarrow> string \<Rightarrow> network_profile \<Rightarrow> field_error list" where
  "row_tail p path n =
     check (np_id n = nr_management (nps_roles p) \<or> np_gateway n = [] \<and> np_dns n = [])
       (path @ ''.gateway'') ''gateway_dns_management_only'' @
     check (length (np_dns n) \<le> 3) (path @ ''.dns'') ''invalid_dns_list'' @
     each (\<lambda>j d. case parse_ipv4 d of
             None \<Rightarrow> [new_field_error (index_path (path @ ''.dns'') j) ''invalid_dns_address'']
           | Some a \<Rightarrow> check (unicast a) (index_path (path @ ''.dns'') j) ''unusable_dns_address'') (np_dns n)"

fun engine_rows ::
  "network_profiles \<Rightarrow> nat \<Rightarrow> string list \<Rightarrow> u16 option list \<Rightarrow> (u32 \<times> u32) list \<Rightarrow> network_profile list \<Rightarrow>
   field_error list \<times> network_profile list \<times> string list" where
  "engine_rows p i ids tags subnets [] = ([], [], ids)"
| "engine_rows p i ids tags subnets (n # ns) =
     (let path = index_path ''network.networks'' i;
          n1 = n\<lparr>np_name := trim (np_name n)\<rparr>;
          (errors, n2, subnets') =
            (case np_mode n of
               Dhcp \<Rightarrow> ([], n1\<lparr>np_address := [], np_prefix := 0, np_gateway := [], np_dns := []\<rparr>, subnets)
             | Static \<Rightarrow> (static_errors path subnets n @ row_tail p path n, n1,
                          subnets @ list_of_option (static_subnet n)));
          (rest, ns', ids') = engine_rows p (Suc i) (np_id n # ids) (np_vlan_id n # tags) subnets' ns
      in (row_head p path ids tags n @ errors @ rest, n2 # ns', ids'))"

section \<open>Validation\<close>

definition engine_errors ::
  "network_profiles \<Rightarrow> network_profiles \<Rightarrow> field_error list \<times> network_profiles" where
  "engine_errors p previous =
     (let (errors, rows, ids) = engine_rows p 0 [] [] [] (nps_networks p)
      in (check (nps_interface p = nps_interface previous \<and> nps_backend p = nps_backend previous)
            ''network.interface'' ''fixed_port_backend'' @
          check (physical (nps_interface p)) ''network.interface'' ''invalid_physical_interface'' @
          check (nps_backend p \<noteq> None) ''network.backend'' ''invalid_document'' @
          check (1 \<le> length (nps_networks p) \<and> length (nps_networks p) \<le> 9) ''network.networks'' ''network_count'' @
          check (length (filter (\<lambda>n. np_vlan_id n \<noteq> None) (nps_networks p)) \<le> 8)
            ''network.networks'' ''tagged_network_count'' @
          errors @
          concat (map (\<lambda>(role, i). check (i \<in> set ids) (''network.roles.'' @ role) ''assignment_requires_replacement'')
            [(''management'', nr_management (nps_roles p)), (''ndi'', nr_ndi (nps_roles p)),
             (''audio'', nr_audio (nps_roles p))]),
          p\<lparr>nps_networks := rows\<rparr>))"

definition engine_validate :: "network_profiles \<Rightarrow> network_profiles \<Rightarrow> (network_profiles, api_error) result" where
  "engine_validate candidate previous =
     (case engine_errors candidate previous of
        ([], p) \<Rightarrow> Inr p
      | (errors, _) \<Rightarrow> Inl (invalid errors))"

section \<open>Text\<close>

text \<open>The text of a Rust string is a sequence of code points below 0x110000.\<close>

definition unicode :: "string \<Rightarrow> bool" where
  "unicode s = list_all (\<lambda>c. c < 1114112) (chars s)"

lemma utf8_encode_Cons: "utf8_encode (c # cs) = utf8_encode [c] @ utf8_encode cs"
  by (simp add: utf8_encode_def)

lemma byte_char_of: "n < 256 \<Longrightarrow> byte (char_of n) = n"
  by (simp add: byte_def)

lemma scaled_digits:
  fixes c :: nat
  shows "c div 4096 * 4096 + c div 64 mod 64 * 64 + c mod 64 = c"
    and "c div 262144 * 262144 + c div 4096 mod 64 * 4096 + c div 64 mod 64 * 64 + c mod 64 = c"
proof -
  have d: "c div 4096 = c div 64 div 64" "c div 262144 = c div 4096 div 64"
    by (simp_all add: div_mult2_eq [symmetric])
  have "c div 64 * 64 + c mod 64 = c" "c div 64 div 64 * 64 + c div 64 mod 64 = c div 64"
    "c div 4096 div 64 * 64 + c div 4096 mod 64 = c div 4096" by simp_all
  then show "c div 4096 * 4096 + c div 64 mod 64 * 64 + c mod 64 = c"
    "c div 262144 * 262144 + c div 4096 mod 64 * 4096 + c div 64 mod 64 * 64 + c mod 64 = c"
    unfolding d by linarith+
qed

lemma chars_encode_one: "c < 1114112 \<Longrightarrow> chars (utf8_encode [c] @ s) = c # chars s"
proof -
  assume c: "c < 1114112"
  consider "c < 128" | "128 \<le> c" "c < 2048" | "2048 \<le> c" "c < 65536" | "65536 \<le> c" by linarith
  then show ?thesis
  proof cases
    case 1
    then show ?thesis by (simp add: utf8_encode_def chars_def byte_char_of)
  next
    case 2
    have b: "192 + c div 64 < 256" "128 + c mod 64 < 256" "c div 64 < 32" using 2 by linarith+
    have "c div 64 * 64 + c mod 64 = c" by simp
    then show ?thesis
      using 2 b byte_char_of [OF b(1)] byte_char_of [OF b(2)] by (simp add: utf8_encode_def chars_def)
  next
    case 3
    have b: "224 + c div 4096 < 256" "128 + c div 64 mod 64 < 256" "128 + c mod 64 < 256"
      "c div 4096 < 16" using 3 by linarith+
    have "c div 4096 * 4096 + c div 64 mod 64 * 64 + c mod 64 = c" by (rule scaled_digits)
    then show ?thesis
      using 3 b byte_char_of [OF b(1)] byte_char_of [OF b(2)] byte_char_of [OF b(3)]
      by (simp add: utf8_encode_def chars_def)
  next
    case 4
    have b: "240 + c div 262144 < 256" "128 + c div 4096 mod 64 < 256" "128 + c div 64 mod 64 < 256"
      "128 + c mod 64 < 256" using c by linarith+
    have "c div 262144 * 262144 + c div 4096 mod 64 * 4096 + c div 64 mod 64 * 64 + c mod 64 = c"
      by (rule scaled_digits)
    then show ?thesis
      using 4 b byte_char_of [OF b(1)] byte_char_of [OF b(2)] byte_char_of [OF b(3)] byte_char_of [OF b(4)]
      by (simp add: utf8_encode_def chars_def)
  qed
qed

lemma chars_utf8_encode: "list_all (\<lambda>c. c < 1114112) cs \<Longrightarrow> chars (utf8_encode cs) = cs"
proof (induction cs)
  case Nil
  then show ?case by (simp add: utf8_encode_def chars_def)
next
  case (Cons c cs)
  then show ?case
    using chars_encode_one [of c "utf8_encode cs"] utf8_encode_Cons [of c cs] by simp
qed

lemma set_trim_chars: "set (trim_chars cs) \<subseteq> set cs"
  unfolding trim_chars_def by (metis set_dropWhileD set_rev subsetI)

lemma length_trim_chars: "length (trim_chars cs) \<le> length cs"
  unfolding trim_chars_def by (metis length_dropWhile_le length_rev order_trans)

lemma chars_trim: "unicode s \<Longrightarrow> chars (trim s) = trim_chars (chars s)"
  unfolding trim_def unicode_def using set_trim_chars [of "chars s"]
  by (intro chars_utf8_encode) (auto simp: list_all_iff)

lemma dropWhile_rev_dropWhile: "dropWhile P (rev (dropWhile P (rev (dropWhile P xs)))) = rev (dropWhile P (rev (dropWhile P xs)))"
proof (cases "dropWhile P xs")
  case (Cons y ys)
  then have y: "\<not> P y" by (metis hd_dropWhile list.sel(1) list.distinct(1))
  then have "rev (dropWhile P (rev (y # ys))) = y # rev (dropWhile P (rev ys))"
    by (simp add: dropWhile_append)
  with Cons y show ?thesis by simp
next
  case Nil
  show ?thesis unfolding Nil by simp
qed

lemma trim_chars_idem: "trim_chars (trim_chars cs) = trim_chars cs"
  unfolding trim_chars_def dropWhile_rev_dropWhile by simp

lemma row_name_ok_trim:
  assumes "unicode s" "\<not> is_blank s" "length (chars s) \<le> 64" "\<not> list_ex is_control (chars s)"
  shows "row_name_ok (trim s)"
  using assms length_trim_chars [of "chars s"] set_trim_chars [of "chars s"]
  by (auto simp: row_name_ok_def is_blank_def chars_trim trim_chars_idem list_ex_iff is_control_def)

section \<open>Addresses\<close>

lemma subnet_bounds: "subnet a p = (subnet_first a p, subnet_last a p)"
  by (simp add: subnet_def subnet_first_def subnet_last_def netmask_def Let_def)

lemma unicast_usable: "unicast a \<Longrightarrow> \<not> is_loopback a \<and> \<not> is_link_local a \<and> \<not> is_multicast a \<and> \<not> is_unspecified a"
  by (auto simp: unicast_def is_loopback_def is_link_local_def is_multicast_def is_unspecified_def octet_def)

lemma interval_in_subnet:
  assumes "subnet_first a p \<le> g" "g \<le> subnet_last a p"
  shows "g AND netmask p = subnet_first a p"
proof -
  define k where "k = 32 - unat p"
  have mask: "x AND netmask p = push_bit k (drop_bit k x)" for x :: u32
    unfolding netmask_def k_def by (rule bit_eqI) (auto simp: bit_simps)
  have first: "drop_bit k (subnet_first a p) = drop_bit k a"
    unfolding subnet_first_def netmask_def k_def by (rule bit_eqI) (auto simp: bit_simps dest: bit_imp_le_length)
  have last: "drop_bit k (subnet_last a p) = drop_bit k a"
    unfolding subnet_last_def subnet_first_def netmask_def k_def
    by (rule bit_eqI) (auto simp: bit_simps dest: bit_imp_le_length)
  have "drop_bit k (subnet_first a p) \<le> drop_bit k g" "drop_bit k g \<le> drop_bit k (subnet_last a p)"
    using assms unfolding word_le_nat_alt unat_drop_bit_eq by (simp_all add: drop_bit_eq_div div_le_mono)
  then have "drop_bit k g = drop_bit k a"
    by (simp add: first last)
  then show ?thesis
    unfolding subnet_first_def mask by simp
qed

section \<open>Rows the engine accepts\<close>

lemma parse_ipv4_Nil: "parse_ipv4 [] = None"
  by (simp add: parse_ipv4_def split: option.split)

lemma static_errors_address:
  assumes "static_errors path subnets n = []" "np_mode n = Static"
  shows "row_address path' subnets (n\<lparr>np_name := nm\<rparr>) = []"
    and "row_subnet (n\<lparr>np_name := nm\<rparr>) = static_subnet n"
  using assms interval_in_subnet unicast_usable parse_ipv4_Nil
  by (auto simp: static_errors_def row_address_def row_subnet_def static_subnet_def subnet_bounds prefix_ok_def
      gateway_errors_def Let_def not_less split: option.splits if_splits)

lemma row_head_row:
  assumes "row_head p path ids tags n = []" "unicode (np_name n)"
  shows "identifier_ok (np_id n)" "np_id n \<notin> set ids" "np_vlan_id n \<notin> set tags"
    "row_name_ok (trim (np_name n))" "row_tag p path' tags n = []"
    "np_id n = nr_management (nps_roles p) \<or> np_dns_search n = []"
    "length (np_dns_search n) \<le> MAX_DNS_SEARCH" "list_all valid_dns_search_domain (np_dns_search n)"
  using assms row_name_ok_trim [of "np_name n"]
  by (auto simp: row_head_def nil_simps identifier_ok_def row_tag_def ifname_def list_all_iff in_set_conv_nth
      split: option.splits)

lemma row_tail_row:
  assumes "row_tail p path n = []"
  shows "np_id n = nr_management (nps_roles p) \<or> np_gateway n = [] \<and> np_dns n = []" "length (np_dns n) \<le> 3"
    "list_all (\<lambda>d. parse_ipv4 d \<noteq> None) (np_dns n)"
  using assms by (auto simp: row_tail_def nil_simps list_all_length split: option.splits)

lemma row_common_nil:
  "row_common p path n = [] \<longleftrightarrow>
     (np_id n = nr_management (nps_roles p) \<or> np_gateway n = [] \<and> np_dns n = [] \<and> np_dns_search n = []) \<and>
     length (np_dns_search n) \<le> MAX_DNS_SEARCH \<and> list_all valid_dns_search_domain (np_dns_search n) \<and>
     length (np_dns n) \<le> 3 \<and> list_all (\<lambda>d. parse_ipv4 d \<noteq> None) (np_dns n)"
  by (simp add: row_common_def nil_simps list_all_length)

lemma row_tag_fields [simp]:
  "row_tag p path tags (n\<lparr>np_name := nm\<rparr>) = row_tag p path tags n"
  "row_tag p path tags (n\<lparr>np_address := a, np_prefix := x, np_gateway := g, np_dns := d\<rparr>) = row_tag p path tags n"
  "row_tag (p\<lparr>nps_networks := rows\<rparr>) path tags n = row_tag p path tags n"
  by (simp_all add: row_tag_def cong: option.case_cong)

lemma row_common_networks [simp]: "row_common (p\<lparr>nps_networks := rows\<rparr>) path n = row_common p path n"
  by (simp add: row_common_def)

text \<open>The row the engine keeps, and the subnet it claims.\<close>

definition kept_row :: "network_profile \<Rightarrow> network_profile" where
  "kept_row n =
     (case np_mode n of
        Dhcp \<Rightarrow> n\<lparr>np_name := trim (np_name n), np_address := [], np_prefix := 0, np_gateway := [], np_dns := []\<rparr>
      | Static \<Rightarrow> n\<lparr>np_name := trim (np_name n)\<rparr>)"

lemma engine_row:
  assumes "engine_rows p i ids tags subnets (n # ns) = ([], rows, final)" "unicode (np_name n)"
  obtains rest where "rows = kept_row n # rest" "row_head p (index_path ''network.networks'' i) ids tags n = []"
    "row_common p path (kept_row n) = []" "row_address path subnets (kept_row n) = []"
    "engine_rows p (Suc i) (np_id n # ids) (np_vlan_id n # tags)
       (subnets @ list_of_option (row_subnet (kept_row n))) ns = ([], rest, final)"
proof (cases "np_mode n")
  case Dhcp
  from assms Dhcp obtain rest where step: "rows = kept_row n # rest"
      "engine_rows p (Suc i) (np_id n # ids) (np_vlan_id n # tags) subnets ns = ([], rest, final)"
    and head: "row_head p (index_path ''network.networks'' i) ids tags n = []"
    by (auto simp: kept_row_def Let_def split: prod.splits)
  show ?thesis
    by (rule that [OF step(1) head]) (use step Dhcp row_head_row [OF head assms(2)] in
        \<open>auto simp: kept_row_def row_common_nil row_address_def row_subnet_def list_of_option_def\<close>)
next
  case Static
  let ?path = "index_path ''network.networks'' i"
  from assms Static obtain rest where step: "rows = kept_row n # rest"
      "engine_rows p (Suc i) (np_id n # ids) (np_vlan_id n # tags)
         (subnets @ list_of_option (static_subnet n)) ns = ([], rest, final)"
    and head: "row_head p ?path ids tags n = []" and static: "static_errors ?path subnets n = []"
    and tail: "row_tail p ?path n = []"
    by (auto simp: kept_row_def Let_def split: prod.splits)
  show ?thesis
    by (rule that [OF step(1) head])
      (use step Static row_head_row [OF head assms(2)] row_tail_row [OF tail]
        static_errors_address [OF static Static] in \<open>auto simp: kept_row_def row_common_nil\<close>)
qed

lemma engine_rows_network_rows:
  assumes "engine_rows p i ids tags subnets ns = ([], rows, final)" "list_all (\<lambda>n. unicode (np_name n)) ns"
  shows "network_rows (p\<lparr>nps_networks := all\<rparr>) i ids tags subnets rows =
      ([], final, rev (map np_vlan_id ns) @ tags) \<and> length rows = length ns"
  using assms
proof (induction ns arbitrary: i ids tags subnets rows)
  case Nil
  then show ?case by simp
next
  case (Cons n ns)
  have unicode: "unicode (np_name n)" using Cons.prems by simp
  obtain rest where row: "rows = kept_row n # rest" "row_head p (index_path ''network.networks'' i) ids tags n = []"
    "row_common p (index_path ''network.networks'' i) (kept_row n) = []"
    "row_address (index_path ''network.networks'' i) subnets (kept_row n) = []"
    "engine_rows p (Suc i) (np_id n # ids) (np_vlan_id n # tags)
       (subnets @ list_of_option (row_subnet (kept_row n))) ns = ([], rest, final)"
    using engine_row [OF Cons.prems(1) unicode, of "index_path ''network.networks'' i"] by blast
  have kept: "np_id (kept_row n) = np_id n" "np_vlan_id (kept_row n) = np_vlan_id n"
    "np_name (kept_row n) = trim (np_name n)"
    "row_tag p path tags (kept_row n) = row_tag p path tags n" for path
    by (simp_all add: kept_row_def row_tag_def split: address_mode.splits)
  have "network_rows (p\<lparr>nps_networks := all\<rparr>) (Suc i) (np_id n # ids) (np_vlan_id n # tags)
      (subnets @ list_of_option (row_subnet (kept_row n))) rest =
      ([], final, rev (map np_vlan_id ns) @ np_vlan_id n # tags) \<and> length rest = length ns"
    using Cons.IH [OF row(5)] Cons.prems by simp
  then show ?case
    using row row_head_row [OF row(2) unicode] by (simp add: Let_def kept)
qed

lemma engine_validate_Inr:
  assumes "engine_validate candidate previous = Inr p"
  obtains rows final where "engine_rows candidate 0 [] [] [] (nps_networks candidate) = ([], rows, final)"
    "p = candidate\<lparr>nps_networks := rows\<rparr>" "physical (nps_interface candidate)" "nps_backend candidate \<noteq> None"
    "1 \<le> length (nps_networks candidate)" "length (nps_networks candidate) \<le> 9"
    "length (filter (\<lambda>n. np_vlan_id n \<noteq> None) (nps_networks candidate)) \<le> 8"
    "nr_management (nps_roles candidate) \<in> set final" "nr_ndi (nps_roles candidate) \<in> set final"
    "nr_audio (nps_roles candidate) \<in> set final" "nps_interface candidate = nps_interface previous"
    "nps_backend candidate = nps_backend previous"
proof -
  obtain errors rows final where rows: "engine_rows candidate 0 [] [] [] (nps_networks candidate) = (errors, rows, final)"
    by (metis prod_cases3)
  from assms have ok: "fst (engine_errors candidate previous) = []" and p: "p = snd (engine_errors candidate previous)"
    by (auto simp: engine_validate_def split: prod.splits list.splits)
  from ok rows have "errors = []" by (simp add: engine_errors_def)
  then show ?thesis
    using that [of rows final] ok p rows by (auto simp: engine_errors_def) metis
qed

text \<open>C27: a candidate the privileged engine accepts (names are text of code points) is a network section
  the document check accepts, with the interface and the backend of the adopted one: the decision that
  keeps an applied change is never refused for the section it carries.\<close>

theorem engine_validation_refines_document:
  assumes "engine_validate candidate previous = Inr p"
    "list_all (\<lambda>n. unicode (np_name n)) (nps_networks candidate)"
  shows "network_check p = [] \<and> nps_interface p = nps_interface previous \<and> nps_backend p = nps_backend previous"
  using assms(1)
proof (rule engine_validate_Inr)
  fix rows final
  assume rows: "engine_rows candidate 0 [] [] [] (nps_networks candidate) = ([], rows, final)"
    and p: "p = candidate\<lparr>nps_networks := rows\<rparr>" and rest: "physical (nps_interface candidate)"
    "nps_backend candidate \<noteq> None" "1 \<le> length (nps_networks candidate)" "length (nps_networks candidate) \<le> 9"
    "length (filter (\<lambda>n. np_vlan_id n \<noteq> None) (nps_networks candidate)) \<le> 8"
    "nr_management (nps_roles candidate) \<in> set final" "nr_ndi (nps_roles candidate) \<in> set final"
    "nr_audio (nps_roles candidate) \<in> set final" "nps_interface candidate = nps_interface previous"
    "nps_backend candidate = nps_backend previous"
  have "length (filter (\<lambda>t. t \<noteq> None) (rev (map np_vlan_id (nps_networks candidate)))) \<le> 8"
    using rest(5) by (simp add: rev_filter [symmetric] filter_map comp_def)
  moreover note engine_rows_network_rows [OF rows assms(2), of rows]
  ultimately show ?thesis
    using rest by (simp add: p network_check_def physical_def interface_name_ok_def)
qed

lemma trim_ascii_ends:
  assumes "list_all (\<lambda>c. byte c < 128) s" "s \<noteq> []" "\<not> is_whitespace (byte (hd s))" "\<not> is_whitespace (byte (last s))"
  shows "trim s = s"
proof -
  have "chars s = map byte s" using assms(1) by (rule chars_ascii)
  moreover have "dropWhile is_whitespace (map byte s) = map byte s"
    using assms(2,3) by (cases s) auto
  moreover have "dropWhile is_whitespace (rev (map byte s)) = rev (map byte s)"
    using assms(2,4) by (cases s rule: rev_cases) auto
  ultimately have "trim_chars (chars s) = map byte s" by (simp add: trim_chars_def)
  moreover have "list_all (\<lambda>c. byte c < 128) t \<Longrightarrow> utf8_encode (map byte t) = t" for t
    by (induction t) (auto simp: utf8_encode_def byte_def)
  ultimately show ?thesis
    using assms(1) by (simp add: trim_def)
qed

lemma sample_accepted: "engine_validate sample_network sample_network = Inr sample_network"
  by (simp add: engine_validate_def engine_errors_def sample_network_def static_row_def Let_def nil_simps
      physical_def row_head_def static_errors_def static_subnet_def subnet_bounds unicast_def gateway_errors_def
      row_tail_def ifname_def text_eval sample_addresses list_of_option_def MAX_DNS_SEARCH_def
      subnet_first_def subnet_last_def netmask_24 octet_def trim_ascii_ends)

theorem engine_validation_refines_document_witness: "network_check sample_network = []"
proof -
  have "list_all (\<lambda>n. unicode (np_name n)) (nps_networks sample_network)"
    by (simp add: sample_network_def static_row_def unicode_def text_eval)
  with engine_validation_refines_document [OF sample_accepted] show ?thesis
    by simp
qed

end
