(* ===== verification/Net_Data.thy ===== *)
theory Net_Data
  imports Net_Validation
begin

text \<open>
  Data and vocabulary of the network engine (the records of ndimon-netengine: store.rs, backend/mod.rs,
  handoff.rs, engine.rs, host.rs) and the operations its functions are composed of.

  An operation of the engine is a function on \<open>net_world\<close>: what is outside the program (\<open>nw_host\<close>, of any
  type), the durable files of the engine's store (\<open>nw_pending\<close>, \<open>nw_last\<close>), the journal the running
  operation holds in memory (\<open>nw_job\<close>) and a record of what was done to the host (\<open>nw_log\<close>, newest
  first, each entry with the journal that was durable at that moment). The outside is the record
  \<open>net_env\<close>: command runner, clock and authority are traits of the program; the file system, the random
  source and JSON are libraries; the functions of one backend alone (nm.rs, ifupdown.rs, networkd.rs,
  netplan.rs), the migration and the files of a handoff stand behind it as they are called. They answer
  as they like: nothing is assumed of them unless a theorem says so.

  The collection \<open>frames\<close> holds the rules by which an operation built from smaller ones is shown to keep
  a relation between the world before and after it.
\<close>

section \<open>Files and plans\<close>

record image =
  im_bytes :: string
  im_mode :: u32
  im_uid :: u32
  im_gid :: u32

record file_change =
  fc_path :: string
  fc_before :: "image option"
  fc_after :: "image option"

record nm_file =
  nf_path :: string
  nf_before :: "image option"

record nm_change =
  nm_uuid :: string
  nm_interface :: string
  nm_tag :: "u16 option"
  nm_before :: "(string, string) bmap option"
  nm_active :: bool
  nm_after :: "(string, string) bmap"
  nm_remove_after_commit :: bool
  nm_files :: "nm_file list"

record net_plan =
  pl_files :: "file_change list"
  pl_nm :: "nm_change list"
  pl_previous :: network_profiles
  pl_candidate :: network_profiles
  pl_previous_metadata :: network_backend_metadata
  pl_metadata :: network_backend_metadata
  pl_old_table :: "string option"
  pl_active_services :: "string list"
  pl_affected_services :: "string list"
  pl_portal_port :: u16
  pl_drift :: "drift list"

definition transitional_metadata :: "net_plan \<Rightarrow> network_backend_metadata" where
  "transitional_metadata p =
     (pl_metadata p)\<lparr>nbm_nm_owned :=
        foldl (\<lambda>m (interface, uuid). if bt_contains m interface then m else bt_insert interface uuid m)
          (nbm_nm_owned (pl_metadata p)) (nbm_nm_owned (pl_previous_metadata p))\<rparr>"

section \<open>Handoff data\<close>

record handoff_artifact =
  ha_path :: string
  ha_sha256 :: string

datatype handoff_ipv4 = HandoffDhcp | HandoffStatic string u8 "string option" "string list"

record handoff_network =
  hn_id :: string
  hn_name :: string
  hn_vlan_id :: "u16 option"
  hn_ipv4 :: handoff_ipv4
  hn_dns_search :: "string list"

record handoff_intent =
  hi_version :: u32
  hi_revision :: u64
  hi_interface :: string
  hi_backend :: network_backend
  hi_networks :: "handoff_network list"
  hi_management :: string
  hi_audio :: string
  hi_ndi :: "string option"
  hi_policy :: confirm_policy

record handoff_adoption =
  hp_interface :: string
  hp_nm_parent_uuid :: "string option"
  hp_nm_owned :: "(string, string) bmap"
  hp_parent_definition :: string
  hp_dhcp_metric :: u32
  hp_static_metric :: u32

record handoff_document =
  hd_schema :: u32
  hd_id :: string
  hd_product :: network_product
  hd_version :: string
  hd_network :: handoff_intent
  hd_backend :: network_backend
  hd_adoption :: handoff_adoption
  hd_artifacts :: "handoff_artifact list"
  hd_nftables_table :: string
  hd_bindings :: "(string, string) bmap"
  hd_created_at :: string

record transfer =
  tr_source :: network_handoff
  tr_document :: handoff_document
  tr_document_sha256 :: string
  tr_source_table :: "string option"
  tr_source_quiesce :: image

text \<open>The reservation a receiver leaves with the source, and the file that completes it.\<close>

record ownership =
  ow_id :: string
  ow_receiver :: network_product
  ow_transaction :: string
  ow_document_sha256 :: string

section \<open>Journals\<close>

datatype net_operation = OpNetwork | OpHandoff | OpSyncTessera

record journal =
  jn_version :: u32
  jn_operation :: net_operation
  jn_job_id :: string
  jn_token :: string
  jn_base :: network_commit
  jn_plan :: net_plan
  jn_phase :: network_phase
  jn_boot_id :: string
  jn_deadline_ms :: u64
  jn_applied_ms :: "u64 option"
  jn_management_address :: "ipv4 option"
  jn_recovery_pending :: bool
  jn_outcome :: network_phase
  jn_apply_error :: "api_error option"
  jn_recovery_error :: "api_error option"
  jn_session :: "network_session_path option"
  jn_timer_generation :: u32
  jn_handoff :: "transfer option"
  jn_handoff_restored :: bool
  jn_media_running :: bool

record last_outcome =
  lo_token :: string
  lo_phase :: network_phase
  lo_apply_error :: "api_error option"

section \<open>The world\<close>

datatype tool =
  Ip | Networkctl | NetplanTool | Nmcli | Ifup | Ifdown | Ifquery | Dhclient | Systemctl | SystemdRun | Nft
  | Arping | Modprobe

fun tool_debug :: "tool \<Rightarrow> string" where
  "tool_debug Ip = ''Ip''"
| "tool_debug Networkctl = ''Networkctl''"
| "tool_debug NetplanTool = ''Netplan''"
| "tool_debug Nmcli = ''Nmcli''"
| "tool_debug Ifup = ''Ifup''"
| "tool_debug Ifdown = ''Ifdown''"
| "tool_debug Ifquery = ''Ifquery''"
| "tool_debug Dhclient = ''Dhclient''"
| "tool_debug Systemctl = ''Systemctl''"
| "tool_debug SystemdRun = ''SystemdRun''"
| "tool_debug Nft = ''Nft''"
| "tool_debug Arping = ''Arping''"
| "tool_debug Modprobe = ''Modprobe''"

record command_spec =
  cs_tool :: tool
  cs_args :: "string list"
  cs_input :: "string option"
  cs_timeout_ms :: u64
  cs_output_limit :: nat

record command_output =
  co_code :: int
  co_stdout :: string
  co_stderr :: string

datatype drift_probe = NetworkdDrift | NetplanDrift | NmDrift | IfupdownDrift

text \<open>Events carry whether the operation reported success.\<close>

datatype net_event =
    EvRun command_spec bool
  | EvReplace string "image option" bool
  | EvDecide network_commit network_commit bool

record 'h net_world =
  nw_host :: 'h
  nw_pending :: "journal option"
  nw_last :: "last_outcome option"
  nw_job :: journal
  nw_log :: "(net_event \<times> journal option) list"

type_synonym ('h, 'a) net = "'h net_world \<Rightarrow> (api_error + 'a) \<times> 'h net_world"

text \<open>Whether a write of a store file took place is not always known when it fails.\<close>

datatype write_outcome = Written | NotWritten api_error | WrittenUnsure api_error

record host =
  ho_deadline :: "u64 option"
  ho_handoff :: bool
  ho_handoff_paths :: "string list"
  ho_boot_recovery :: bool

record release_status =
  rs_externally_managed :: bool
  rs_quiesced :: bool
  rs_stale_done :: "string list"

type_synonym ('h, 'a) sys = "'h \<Rightarrow> (api_error + 'a) \<times> 'h"

record 'h net_env =
  ne_host :: host
  ne_certified_backends :: "network_backend list"
  ne_selected_interface :: "string option"
  ne_runner :: "command_spec \<Rightarrow> ('h, command_output) sys"
  ne_now_ms :: "('h, u64) sys"
  ne_boot_id :: "('h, string) sys"
  ne_sleep_ms :: "u64 \<Rightarrow> 'h \<Rightarrow> 'h"
  ne_load :: "('h, network_commit) sys"
  ne_compare_and_commit :: "network_commit \<Rightarrow> network_commit \<Rightarrow> ('h, unit) sys"
  ne_random_id :: "('h, string) sys"
  ne_from_str :: "string \<Rightarrow> json option"
  ne_to_string_pretty :: "json \<Rightarrow> string option"
  ne_owner :: "u32 \<times> u32"
  ne_replace :: "string \<Rightarrow> image option \<Rightarrow> ('h, unit) sys"
  ne_snapshot :: "string \<Rightarrow> ('h, image option) sys"
  ne_exists :: "string \<Rightarrow> ('h, bool) sys"
  ne_present :: "string \<Rightarrow> ('h, bool) sys"
  ne_list :: "string \<Rightarrow> string \<Rightarrow> ('h, string list) sys"
  ne_proc_net_tcp :: "('h, string) sys"
  ne_store_lock :: "('h, unit) sys"
  ne_store_fault :: "string \<Rightarrow> 'h \<Rightarrow> api_error option \<times> 'h"
  ne_store_write :: "string \<Rightarrow> 'h \<Rightarrow> write_outcome \<times> 'h"
  ne_store_marker :: "string \<Rightarrow> ('h, bool) sys"
  ne_migration_needed :: "('h, bool) sys"
  ne_adopt :: "host \<Rightarrow> string option \<Rightarrow> ('h, network_profiles \<times> network_backend_metadata) sys"
  ne_drift :: "host \<Rightarrow> drift_probe \<Rightarrow> network_profiles \<Rightarrow> network_backend_metadata \<Rightarrow> ('h, drift list) sys"
  ne_render :: "host \<Rightarrow> network_backend \<Rightarrow> network_profiles \<Rightarrow> network_profiles \<Rightarrow> network_backend_metadata \<Rightarrow>
                ('h, file_change list) sys"
  ne_plan_nm :: "host \<Rightarrow> network_profiles \<Rightarrow> network_profiles \<Rightarrow> network_backend_metadata \<Rightarrow> ('h, nm_change list) sys"
  ne_check_nm :: "host \<Rightarrow> nm_change list \<Rightarrow> ('h, unit) sys"
  ne_verify :: "host \<Rightarrow> network_backend \<Rightarrow> network_profiles \<Rightarrow> network_backend_metadata \<Rightarrow> ('h, unit) sys"
  ne_private_file :: "string \<Rightarrow> ('h, image option) sys"
  ne_ownership_text :: "ownership \<Rightarrow> string option"
  ne_ownership_of :: "string \<Rightarrow> ownership option"
  ne_quiesce_of :: "string \<Rightarrow> string option"
  ne_source_lock :: "network_handoff \<Rightarrow> ('h, unit) sys"
  ne_handoff_check :: "transfer \<Rightarrow> string \<Rightarrow> ('h, unit) sys"
  ne_received :: "('h, bool) sys"
  ne_wall_secs :: "('h, u64) sys"
  ne_rfc3339 :: "nat \<Rightarrow> string option"
  ne_release_status :: "('h, release_status) sys"
  ne_complete_release :: "('h, release_status) net"
  ne_migrate :: "string option \<Rightarrow> ('h, bool) net"
  ne_handoff_plan :: "network_handoff \<Rightarrow> ('h, impact \<times> network_commit \<times> net_plan \<times> transfer) sys"
  ne_observe_port :: "string option \<Rightarrow> 'h \<Rightarrow> (string \<times> (ipv4 \<times> u8) list) option \<times> 'h"

section \<open>Operations\<close>

definition ret_n :: "'a \<Rightarrow> ('h, 'a) net" where
  "ret_n x w = (Inr x, w)"

definition err_n :: "api_error \<Rightarrow> ('h, 'a) net" where
  "err_n e w = (Inl e, w)"

definition bind_n :: "('h, 'a) net \<Rightarrow> ('a \<Rightarrow> ('h, 'b) net) \<Rightarrow> ('h, 'b) net" where
  "bind_n m f w = (case m w of (Inl e, w') \<Rightarrow> (Inl e, w') | (Inr x, w') \<Rightarrow> f x w')"

definition seq_n :: "('h, 'a) net \<Rightarrow> ('h, 'b) net \<Rightarrow> ('h, 'b) net" where
  "seq_n m k = bind_n m (\<lambda>_. k)"

text \<open>A call whose result is looked at (\<open>match\<close>, \<open>if let Err\<close>), and one whose result is dropped (\<open>let _\<close>).\<close>

definition try_n :: "('h, 'a) net \<Rightarrow> ('h, api_error + 'a) net" where
  "try_n m w = (case m w of (r, w') \<Rightarrow> (Inr r, w'))"

definition ignore_n :: "('h, 'a) net \<Rightarrow> ('h, unit) net" where
  "ignore_n m w = (Inr (), snd (m w))"

definition map_err_n :: "(api_error \<Rightarrow> api_error) \<Rightarrow> ('h, 'a) net \<Rightarrow> ('h, 'a) net" where
  "map_err_n f m w = (case m w of (r, w') \<Rightarrow> (map_err f r, w'))"

definition of_result_n :: "api_error + 'a \<Rightarrow> ('h, 'a) net" where
  "of_result_n r w = (r, w)"

fun each_n :: "('x \<Rightarrow> ('h, unit) net) \<Rightarrow> 'x list \<Rightarrow> ('h, unit) net" where
  "each_n f [] = ret_n ()"
| "each_n f (x # xs) = seq_n (f x) (each_n f xs)"

definition when_n :: "bool \<Rightarrow> ('h, unit) net \<Rightarrow> ('h, unit) net" where
  "when_n c m = (if c then m else ret_n ())"

text \<open>Looking at the outside, and changing it.\<close>

definition sense :: "('h, 'a) sys \<Rightarrow> ('h, 'a) net" where
  "sense op w = (case op (nw_host w) of (r, h) \<Rightarrow> (r, w\<lparr>nw_host := h\<rparr>))"

definition effect :: "(bool \<Rightarrow> net_event) \<Rightarrow> ('h, 'a) sys \<Rightarrow> ('h, 'a) net" where
  "effect ev op w =
     (case op (nw_host w) of
        (r, h) \<Rightarrow> (r, w\<lparr>nw_host := h, nw_log := (ev (is_ok r), nw_pending w) # nw_log w\<rparr>))"

definition get_job :: "('h, journal) net" where
  "get_job w = (Inr (nw_job w), w)"

definition set_job :: "journal \<Rightarrow> ('h, unit) net" where
  "set_job j w = (Inr (), w\<lparr>nw_job := j\<rparr>)"

definition update_job :: "(journal \<Rightarrow> journal) \<Rightarrow> ('h, unit) net" where
  "update_job f w = (Inr (), w\<lparr>nw_job := f (nw_job w)\<rparr>)"

section \<open>Frames\<close>

named_theorems frames \<open>operations that keep a relation between worlds\<close>

definition does :: "('h net_world \<Rightarrow> 'h net_world \<Rightarrow> bool) \<Rightarrow> ('h, 'a) net \<Rightarrow> bool" where
  "does R m = (\<forall>w. R w (snd (m w)))"

lemma doesD: "does R m \<Longrightarrow> m w = (r, w') \<Longrightarrow> R w w'"
  unfolding does_def by (metis snd_conv)

locale frame_relation =
  fixes R :: "'h net_world \<Rightarrow> 'h net_world \<Rightarrow> bool"
  assumes frame_refl: "R w w"
    and frame_trans: "R u v \<Longrightarrow> R v w \<Longrightarrow> R u w"
begin

lemma does_ret [frames]: "does R (ret_n x)"
  by (simp add: does_def ret_n_def frame_refl)

lemma does_err [frames]: "does R (err_n e)"
  by (simp add: does_def err_n_def frame_refl)

lemma does_of_result [frames]: "does R (of_result_n r)"
  by (simp add: does_def of_result_n_def frame_refl)

lemma does_get_job [frames]: "does R get_job"
  by (simp add: does_def get_job_def frame_refl)

lemma does_bind [frames]:
  assumes "does R m" "\<And>x. does R (f x)"
  shows "does R (bind_n m f)"
proof -
  have "R w (snd (bind_n m f w))" for w
  proof (cases "m w")
    case (Pair r v)
    then have "R w v" using assms(1) doesD by blast
    then show ?thesis
      using Pair assms(2) frame_trans by (cases r) (auto simp: bind_n_def does_def)
  qed
  then show ?thesis by (simp add: does_def)
qed

lemma does_seq [frames]: "does R m \<Longrightarrow> does R k \<Longrightarrow> does R (seq_n m k)"
  unfolding seq_n_def by (rule does_bind)

lemma does_try [frames]: "does R m \<Longrightarrow> does R (try_n m)"
  by (auto simp: does_def try_n_def split: prod.splits) (metis snd_conv)

lemma does_ignore [frames]: "does R m \<Longrightarrow> does R (ignore_n m)"
  by (simp add: does_def ignore_n_def)

lemma does_map_err [frames]: "does R m \<Longrightarrow> does R (map_err_n f m)"
  by (auto simp: does_def map_err_n_def split: prod.splits) (metis snd_conv)

lemma does_when [frames]: "(c \<Longrightarrow> does R m) \<Longrightarrow> does R (when_n c m)"
  by (simp add: when_n_def does_ret)

lemma does_each [frames]: "(\<And>x. x \<in> set xs \<Longrightarrow> does R (f x)) \<Longrightarrow> does R (each_n f xs)"
  by (induction xs) (auto intro: does_ret does_seq)

end

text \<open>An operation that only does to the host what \<open>P\<close> allows.\<close>

definition extends :: "(net_event \<Rightarrow> bool) \<Rightarrow> 'h net_world \<Rightarrow> 'h net_world \<Rightarrow> bool" where
  "extends P w w' =
     (nw_pending w' = nw_pending w \<and> nw_last w' = nw_last w \<and> nw_job w' = nw_job w \<and>
      (\<exists>new. nw_log w' = new @ nw_log w \<and> (\<forall>(e, p) \<in> set new. p = nw_pending w \<and> P e)))"

interpretation ext: frame_relation "extends P" for P
proof unfold_locales
  show "extends P w w" for w :: "'a net_world"
    by (simp add: extends_def)
  fix u v w :: "'a net_world"
  assume uv: "extends P u v" and vw: "extends P v w"
  obtain a where "nw_log v = a @ nw_log u" "\<forall>(e, p) \<in> set a. p = nw_pending u \<and> P e"
    using uv by (auto simp: extends_def)
  moreover obtain b where "nw_log w = b @ nw_log v" "\<forall>(e, p) \<in> set b. p = nw_pending v \<and> P e"
    using vw by (auto simp: extends_def)
  ultimately have "nw_log w = (b @ a) @ nw_log u" "\<forall>(e, p) \<in> set (b @ a). p = nw_pending u \<and> P e"
    using uv by (auto simp: extends_def)
  then show "extends P u w"
    using uv vw unfolding extends_def by (metis (no_types, lifting))
qed

lemma extends_mono: "does (extends P) m \<Longrightarrow> (\<And>e. P e \<Longrightarrow> Q e) \<Longrightarrow> does (extends Q) m"
  unfolding does_def extends_def by fast

lemma extends_sense [frames]: "does (extends P) (sense op)"
  by (simp add: does_def sense_def extends_def split: prod.splits)

lemma extends_effect [frames]: "(\<And>b. P (ev b)) \<Longrightarrow> does (extends P) (effect ev op)"
  by (simp add: does_def effect_def extends_def split: prod.splits)

lemma ret_n_eq: "ret_n x w = (Inr y, w') \<longleftrightarrow> x = y \<and> w = w'"
  by (simp add: ret_n_def)

lemma bind_n_Inr:
  assumes "bind_n m f w = (Inr y, w')"
  obtains x v where "m w = (Inr x, v)" "f x v = (Inr y, w')"
  using assms by (auto simp: bind_n_def split: prod.splits sum.splits)

lemma seq_n_Inr:
  assumes "seq_n m k w = (Inr y, w')"
  obtains x v where "m w = (Inr x, v)" "k v = (Inr y, w')"
  using assms unfolding seq_n_def by (rule bind_n_Inr)

end
