(* ===== verification/Ip_Text.thy ===== *)
theory Ip_Text
  imports Rust_Text
begin

text \<open>
  Addresses of both IP families and the text forms in which requests name them: \<open>IpAddr::from_str\<close> of the
  standard library (its reader of groups, with an embedded IPv4 address at the end), the lines and words of
  a text file, the percent decoding of a path and the lossy decoding of bytes that are not UTF-8.
\<close>

section \<open>Addresses\<close>

datatype ip_addr = V4 ipv4 | V6 "128 word"

definition to_ipv4_mapped :: "128 word \<Rightarrow> ipv4 option" where
  "to_ipv4_mapped x = (if unat x div 2 ^ 32 = 0xFFFF then Some (of_nat (unat x mod 2 ^ 32)) else None)"

text \<open>An IPv4-mapped IPv6 address as the IPv4 address.\<close>

definition canonical_ip :: "ip_addr \<Rightarrow> ip_addr" where
  "canonical_ip a =
     (case a of
        V6 x \<Rightarrow> (case to_ipv4_mapped x of Some y \<Rightarrow> V4 y | None \<Rightarrow> V6 x)
      | V4 y \<Rightarrow> V4 y)"

definition ip_is_loopback :: "ip_addr \<Rightarrow> bool" where
  "ip_is_loopback a = (case a of V4 x \<Rightarrow> is_loopback x | V6 x \<Rightarrow> x = 1)"

definition ip_is_unspecified :: "ip_addr \<Rightarrow> bool" where
  "ip_is_unspecified a = (case a of V4 x \<Rightarrow> x = 0 | V6 x \<Rightarrow> x = 0)"

section \<open>Reading addresses\<close>

definition dec_digit :: "char \<Rightarrow> nat option" where
  "dec_digit c = (if is_ascii_digit c then Some (byte c - 48) else None)"

definition hex_digit :: "char \<Rightarrow> nat option" where
  "hex_digit c =
     (if is_ascii_digit c then Some (byte c - 48)
      else if 97 \<le> byte c \<and> byte c \<le> 102 then Some (byte c - 87)
      else if 65 \<le> byte c \<and> byte c \<le> 70 then Some (byte c - 55)
      else None)"

fun span_digits :: "(char \<Rightarrow> nat option) \<Rightarrow> string \<Rightarrow> nat list \<times> string" where
  "span_digits f [] = ([], [])"
| "span_digits f (c # s) =
     (case f c of
        None \<Rightarrow> ([], c # s)
      | Some d \<Rightarrow> (case span_digits f s of (ds, r) \<Rightarrow> (d # ds, r)))"

definition read_hex4 :: "string \<Rightarrow> (nat \<times> string) option" where
  "read_hex4 s =
     (case span_digits hex_digit s of
        (ds, r) \<Rightarrow> if ds = [] \<or> 4 < length ds then None else Some (foldl (\<lambda>n d. n * 16 + d) 0 ds, r))"

definition read_octet :: "string \<Rightarrow> (nat \<times> string) option" where
  "read_octet s =
     (case span_digits dec_digit s of
        (ds, r) \<Rightarrow>
          (let n = foldl (\<lambda>n d. n * 10 + d) 0 ds
           in if ds = [] \<or> 3 < length ds \<or> (1 < length ds \<and> hd ds = 0) \<or> 255 < n then None else Some (n, r)))"

definition read_sep :: "char \<Rightarrow> nat \<Rightarrow> (string \<Rightarrow> ('a \<times> string) option) \<Rightarrow> string \<Rightarrow> ('a \<times> string) option" where
  "read_sep sep i inner s =
     (if i = 0 then inner s
      else (case s of c # r \<Rightarrow> if c = sep then inner r else None | [] \<Rightarrow> None))"

definition read_ipv4 :: "string \<Rightarrow> (nat \<times> string) option" where
  "read_ipv4 s =
     Option.bind (read_octet s) (\<lambda>(a, s).
     Option.bind (read_sep (CHR ''.'') 1 read_octet s) (\<lambda>(b, s).
     Option.bind (read_sep (CHR ''.'') 2 read_octet s) (\<lambda>(c, s).
     Option.bind (read_sep (CHR ''.'') 3 read_octet s) (\<lambda>(d, s).
       Some (a * 16777216 + b * 65536 + c * 256 + d, s)))))"

text \<open>Groups of 16 bits; the last two may be written as an IPv4 address. The flag says they were.\<close>

fun read_groups :: "nat \<Rightarrow> nat \<Rightarrow> string \<Rightarrow> nat list \<times> bool \<times> string" where
  "read_groups i 0 s = ([], False, s)"
| "read_groups i (Suc left) s =
     (case (if 0 < left then read_sep (CHR '':'') i read_ipv4 s else None) of
        Some (v4, r) \<Rightarrow> ([v4 div 65536, v4 mod 65536], True, r)
      | None \<Rightarrow>
          (case read_sep (CHR '':'') i read_hex4 s of
             None \<Rightarrow> ([], False, s)
           | Some (g, r) \<Rightarrow> (case read_groups (Suc i) left r of (gs, v4, r') \<Rightarrow> (g # gs, v4, r'))))"

definition of_groups :: "nat list \<Rightarrow> 128 word" where
  "of_groups gs = of_nat (foldl (\<lambda>n g. n * 65536 + g) 0 gs)"

definition read_ipv6 :: "string \<Rightarrow> (128 word \<times> string) option" where
  "read_ipv6 s =
     (case read_groups 0 8 s of
        (head, v4, r) \<Rightarrow>
          if length head = 8 then Some (of_groups head, r)
          else if v4 then None
          else (case r of
                  c # d # r' \<Rightarrow>
                    if c = CHR '':'' \<and> d = CHR '':''
                    then (case read_groups 0 (8 - (length head + 1)) r' of
                            (tail, _, r'') \<Rightarrow>
                              Some (of_groups (head @ replicate (8 - length head - length tail) 0 @ tail), r''))
                    else None
                | _ \<Rightarrow> None))"

definition parse_ip :: "string \<Rightarrow> ip_addr option" where
  "parse_ip s =
     (case parse_ipv4 s of
        Some x \<Rightarrow> Some (V4 x)
      | None \<Rightarrow> (case read_ipv6 s of Some (x, []) \<Rightarrow> Some (V6 x) | _ \<Rightarrow> None))"

section \<open>Lines and words\<close>

text \<open>\<open>str::lines\<close>: a final line ending does not begin a line, and a carriage return before it goes too.\<close>

definition NL :: char where "NL = CHR 0x0A"

definition lines_of :: "string \<Rightarrow> string list" where
  "lines_of s =
     (let ls = split_on NL s; ls' = (if last ls = [] then butlast ls else ls)
      in map (\<lambda>l. case strip_suffix [CHR 0x0D] l of None \<Rightarrow> l | Some r \<Rightarrow> r) ls')"

definition split_whitespace :: "string \<Rightarrow> string list" where
  "split_whitespace s =
     map utf8_encode
       (filter (\<lambda>w. w \<noteq> [])
         (foldr (\<lambda>c ws. if is_whitespace c then [] # ws
                        else case ws of [] \<Rightarrow> [[c]] | w # r \<Rightarrow> (c # w) # r) (chars s) []))"

section \<open>Paths and bytes\<close>

fun percent_decode :: "string \<Rightarrow> string" where
  "percent_decode [] = []"
| "percent_decode (c # s) =
     (if c = CHR ''%''
      then (case s of
              h # l # r \<Rightarrow>
                (case (hex_digit h, hex_digit l) of
                   (Some a, Some b) \<Rightarrow> char_of (a * 16 + b) # percent_decode r
                 | _ \<Rightarrow> c # percent_decode s)
            | _ \<Rightarrow> c # percent_decode s)
      else c # percent_decode s)"

text \<open>\<open>String::from_utf8_lossy\<close>: each maximal part that cannot be completed becomes U+FFFD.\<close>

definition continuation :: "nat \<Rightarrow> bool" where
  "continuation b = (128 \<le> b \<and> b < 192)"

definition second_byte :: "nat \<Rightarrow> nat \<Rightarrow> bool" where
  "second_byte a b =
     (if a = 0xE0 then 0xA0 \<le> b \<and> b < 192
      else if a = 0xED then 128 \<le> b \<and> b < 0xA0
      else if a = 0xF0 then 0x90 \<le> b \<and> b < 192
      else if a = 0xF4 then 128 \<le> b \<and> b < 0x90
      else continuation b)"

definition REPLACEMENT :: "nat list" where
  "REPLACEMENT = [0xEF, 0xBF, 0xBD]"

fun lossy_bytes :: "nat list \<Rightarrow> nat list" where
  "lossy_bytes [] = []"
| "lossy_bytes (a # s) =
     (if a < 128 then a # lossy_bytes s
      else if 0xC2 \<le> a \<and> a < 0xE0 then
        (case s of
           b # r \<Rightarrow> if continuation b then a # b # lossy_bytes r else REPLACEMENT @ lossy_bytes s
         | [] \<Rightarrow> REPLACEMENT)
      else if 0xE0 \<le> a \<and> a < 0xF0 then
        (case s of
           b # c # r \<Rightarrow>
             if \<not> second_byte a b then REPLACEMENT @ lossy_bytes s
             else if continuation c then a # b # c # lossy_bytes r else REPLACEMENT @ lossy_bytes (c # r)
         | [b] \<Rightarrow> if second_byte a b then REPLACEMENT else REPLACEMENT @ lossy_bytes s
         | [] \<Rightarrow> REPLACEMENT)
      else if 0xF0 \<le> a \<and> a < 0xF5 then
        (case s of
           b # c # d # r \<Rightarrow>
             if \<not> second_byte a b then REPLACEMENT @ lossy_bytes s
             else if \<not> continuation c then REPLACEMENT @ lossy_bytes (c # d # r)
             else if continuation d then a # b # c # d # lossy_bytes r else REPLACEMENT @ lossy_bytes (d # r)
         | [b, c] \<Rightarrow>
             if \<not> second_byte a b then REPLACEMENT @ lossy_bytes s
             else if continuation c then REPLACEMENT else REPLACEMENT @ lossy_bytes [c]
         | [b] \<Rightarrow> if second_byte a b then REPLACEMENT else REPLACEMENT @ lossy_bytes s
         | [] \<Rightarrow> REPLACEMENT)
      else REPLACEMENT @ lossy_bytes s)"

definition from_utf8_lossy :: "string \<Rightarrow> string" where
  "from_utf8_lossy s = map char_of (lossy_bytes (map byte s))"

end
