(* ===== verification/Net_Host.thy ===== *)
theory Net_Host
  imports Net_Data Ip_Text
begin

text \<open>
  The host side of the network engine (ndimon-netengine/src/host.rs and backend/mod.rs, with the text of
  ndimon-render/src/network.rs): commands with their deadline, service and firewall control, address
  verification, the plan of a change and its engine_preflight.

  What is shown: none of these functions writes a file or the engine's journal, so whatever the host
  answers, the only things they do to it are commands, and most of them only commands that ask
  (\<open>changing\<close> tells the two kinds of command apart); a plan names each path once.

  \<open>wait_links\<close> and \<open>readiness\<close> poll with a fuel of \<open>POLL_FUEL\<close> rounds.
\<close>

section \<open>Constants and text\<close>

definition MAX_PRIVATE :: nat where "MAX_PRIVATE = 2 * 1024 * 1024"
definition BINDING :: string where "BINDING = ''/etc/ndimon-network-interfaces.json''"
definition TESSERA_BINDING :: string where "TESSERA_BINDING = ''/etc/tessera/config.d/62-ndimon-network.toml''"
definition BANNER :: string where "BANNER = ''/run/ndimon/net-pending''"
definition QUIESCE :: string where "QUIESCE = ''/var/lib/ndimon-network/quiesce.json''"
definition EXTERNAL :: string where "EXTERNAL = ''/var/lib/ndimon-network/external.json''"
definition MEDIA :: "string list" where
  "MEDIA = [''tesserad.service'', ''ndimon-finder.service'', ''ndimon-r.service'']"

text \<open>Names of the interfaces a document configures.\<close>

definition names :: "network_profiles \<Rightarrow> string list" where
  "names p = nps_interface p # map (ifname p) (filter (\<lambda>n. np_vlan_id n \<noteq> None) (nps_networks p))"

definition affected_roles :: "network_profiles \<Rightarrow> network_profiles \<Rightarrow> string list" where
  "affected_roles old new =
     map (\<lambda>(role, _, _). role)
       (filter (\<lambda>(_, a, b). a \<noteq> b \<or> List.find (\<lambda>n. np_id n = a) (nps_networks old) \<noteq>
                                 List.find (\<lambda>n. np_id n = b) (nps_networks new))
         [(''management'', nr_management (nps_roles old), nr_management (nps_roles new)),
          (''ndi'', nr_ndi (nps_roles old), nr_ndi (nps_roles new)),
          (''audio'', nr_audio (nps_roles old), nr_audio (nps_roles new))])"

definition role_interface :: "network_profiles \<Rightarrow> string \<Rightarrow> (string, string) result" where
  "role_interface p i =
     (case List.find (\<lambda>n. np_id n = i) (nps_networks p) of
        None \<Rightarrow> Inl (''missing network role: '' @ i)
      | Some row \<Rightarrow> Inr (ifname p row))"

definition bindings :: "(json \<Rightarrow> string option) \<Rightarrow> network_profiles \<Rightarrow> (string, string) result" where
  "bindings pretty p =
     bind_r (role_interface p (nr_management (nps_roles p))) (\<lambda>management.
     bind_r (role_interface p (nr_ndi (nps_roles p))) (\<lambda>ndi.
     bind_r (role_interface p (nr_audio (nps_roles p))) (\<lambda>tessera.
       case pretty (JObject (bt_of_list [(''management'', JString management), (''ndi'', JString ndi),
                                         (''tessera'', JString tessera)])) of
         None \<Rightarrow> Inl ''serialize''
       | Some s \<Rightarrow> Inr (s @ [NL]))))"

definition tessera_binding :: "network_profiles \<Rightarrow> (string, string) result" where
  "tessera_binding p =
     bind_r (role_interface p (nr_audio (nps_roles p))) (\<lambda>name.
       Inr (''[network]'' @ [NL] @ ''interfaces = ['' @ [CHR 0x22] @ name @ [CHR 0x22] @ '']'' @ [NL] @
            ''locked = ['' @ [CHR 0x22] @ ''primary'' @ [CHR 0x22] @ '']'' @ [NL]))"

definition dropin :: "string \<Rightarrow> string" where
  "dropin sl =
     ''[Unit]'' @ [NL] @ ''Requires=ndimon-net-boot.service'' @ [NL] @ ''After=ndimon-net-boot.service'' @ [NL] @
     ''[Service]'' @ [NL] @ ''Slice='' @ sl @ [NL]"

definition quoted :: "string \<Rightarrow> string" where
  "quoted s = [CHR 0x22] @ s @ [CHR 0x22]"

definition media_chain :: "network_profiles \<Rightarrow> string \<times> string \<times> string \<Rightarrow> (string, api_error) result" where
  "media_chain p c =
     (case c of (chain, hook, direction) \<Rightarrow>
       (let rule = (\<lambda>sl name. '' socket cgroupv2 level 1 '' @ quoted sl @ '' '' @ direction @ '' != { '' @
                      quoted ''lo'' @ '', '' @ quoted name @ '' } counter reject;'' @ [NL])
        in bind_r (assigned p (nr_ndi (nps_roles p))) (\<lambda>ndi.
           bind_r (assigned p (nr_audio (nps_roles p))) (\<lambda>audio.
             Inr ('' chain '' @ chain @ '' {'' @ [NL] @ '' type filter hook '' @ hook @
                  '' priority 0; policy accept;'' @ [NL] @
                  rule ''ndimonndi.slice'' (ifname p ndi) @ rule ''ndimontessera.slice'' (ifname p audio) @
                  '' }'' @ [NL])))))"

definition firewall :: "network_profiles \<Rightarrow> u16 \<Rightarrow> (string, api_error) result" where
  "firewall p port =
     bind_r (assigned p (nr_management (nps_roles p))) (\<lambda>m.
       (let management = ifname p m;
            all_names = join_with '', '' (map (\<lambda>n. quoted (ifname p n)) (nps_networks p))
        in bind_r (media_chain p (''media_output'', ''output'', ''oifname'')) (\<lambda>output.
           bind_r (media_chain p (''media_input'', ''input'', ''iifname'')) (\<lambda>input.
             Inr (''table inet ndimon_management {'' @ [NL] @ '' chain input {'' @ [NL] @
                  '' type filter hook input priority -5; policy accept;'' @ [NL] @
                  '' iifname != { '' @ quoted ''lo'' @ '', '' @ quoted management @ '' } tcp dport '' @
                  dec (unat port) @ '' reject;'' @ [NL] @ '' }'' @ [NL] @ '' chain forward {'' @ [NL] @
                  '' type filter hook forward priority -5; policy accept;'' @ [NL] @
                  '' iifname { '' @ all_names @ '' } reject;'' @ [NL] @
                  '' oifname { '' @ all_names @ '' } reject;'' @ [NL] @ '' }'' @ [NL] @
                  output @ input @ ''}'' @ [NL])))))"

section \<open>Commands\<close>

definition now_ms :: "'h net_env \<Rightarrow> ('h, u64) net" where
  "now_ms env = sense (ne_now_ms env)"

definition boot_id :: "'h net_env \<Rightarrow> ('h, string) net" where
  "boot_id env = sense (ne_boot_id env)"

definition budget :: "'h net_env \<Rightarrow> u64 \<Rightarrow> ('h, 'h net_env) net" where
  "budget env ms =
     bind_n (now_ms env) (\<lambda>now. ret_n (env\<lparr>ne_host := (ne_host env)\<lparr>ho_deadline := Some (saturating_add now ms)\<rparr>\<rparr>))"

definition run_command :: "'h net_env \<Rightarrow> command_spec \<Rightarrow> ('h, command_output) net" where
  "run_command env spec = effect (EvRun spec) (ne_runner env spec)"

definition host_output :: "'h net_env \<Rightarrow> tool \<Rightarrow> string list \<Rightarrow> u64 \<Rightarrow> string option \<Rightarrow> ('h, command_output) net" where
  "host_output env tool args timeout_ms input =
     bind_n (case ho_deadline (ne_host env) of
               None \<Rightarrow> ret_n (saturating_add timeout_ms 2000)
             | Some d \<Rightarrow> bind_n (now_ms env) (\<lambda>now. ret_n (saturating_sub d now))) (\<lambda>remaining.
       (let timeout = min timeout_ms (saturating_sub remaining 2000)
        in if timeout = 0 then err_n (engine_failed ''command'' ''apply_deadline'')
           else run_command env
                  \<lparr>cs_tool = tool, cs_args = args, cs_input = input, cs_timeout_ms = timeout,
                    cs_output_limit = MAX_PRIVATE\<rparr>))"

definition exit_text :: "tool \<Rightarrow> int \<Rightarrow> string" where
  "exit_text t code =
     to_ascii_lowercase (tool_debug t @ ''_exit_'' @ (if code < 0 then ''-'' else []) @ dec (nat \<bar>code\<bar>))"

definition run_owned :: "'h net_env \<Rightarrow> tool \<Rightarrow> string list \<Rightarrow> u64 \<Rightarrow> string option \<Rightarrow> ('h, string) net" where
  "run_owned env tool args seconds input =
     bind_n (host_output env tool args (seconds * 1000) input) (\<lambda>out.
       if co_code out \<noteq> 0 then err_n (engine_failed ''command'' (exit_text tool (co_code out)))
       else ret_n (co_stdout out))"

definition run :: "'h net_env \<Rightarrow> tool \<Rightarrow> string list \<Rightarrow> u64 \<Rightarrow> ('h, string) net" where
  "run env tool args seconds = run_owned env tool args seconds None"

definition run_unit :: "'h net_env \<Rightarrow> tool \<Rightarrow> string list \<Rightarrow> u64 \<Rightarrow> ('h, unit) net" where
  "run_unit env tool args seconds = seq_n (run env tool args seconds) (ret_n ())"

definition probe_json :: "'h net_env \<Rightarrow> tool \<Rightarrow> string list \<Rightarrow> ('h, json) net" where
  "probe_json env tool args =
     bind_n (run env tool args 20) (\<lambda>text.
       case ne_from_str env text of
         None \<Rightarrow> err_n (engine_failed ''probe'' ''invalid_json'')
       | Some v \<Rightarrow> ret_n v)"

definition active :: "'h net_env \<Rightarrow> string \<Rightarrow> ('h, bool) net" where
  "active env u =
     bind_n (host_output env Systemctl [''is-active'', ''--quiet'', u] 8000 None) (\<lambda>out.
       if co_code out = 0 then ret_n True
       else if co_code out = 3 \<or> co_code out = 4 then ret_n False
       else err_n (engine_failed ''probe'' ''service_state''))"

definition json_rows :: "json \<Rightarrow> (json list, api_error) result" where
  "json_rows v = (case v of JArray xs \<Rightarrow> Inr xs | _ \<Rightarrow> Inl (engine_failed ''probe'' ''invalid_output''))"

definition table :: "'h net_env \<Rightarrow> string \<Rightarrow> ('h, string option) net" where
  "table env name =
     bind_n (probe_json env Nft [''-j'', ''list'', ''tables'']) (\<lambda>tables.
       case json_index tables ''nftables'' of
         JArray entries \<Rightarrow>
           if list_ex (\<lambda>t. json_index (json_index t ''table'') ''family'' = JString ''inet'' \<and>
                          json_index (json_index t ''table'') ''name'' = JString name) entries
           then bind_n (run env Nft [''list'', ''table'', ''inet'', name] 20) (\<lambda>text. ret_n (Some text))
           else ret_n None
       | _ \<Rightarrow> err_n (engine_failed ''probe'' ''invalid_nft_output''))"

definition set_table :: "'h net_env \<Rightarrow> string option \<Rightarrow> ('h, unit) net" where
  "set_table env text =
     bind_n (table env ''ndimon_management'') (\<lambda>old.
       (let script = (if old \<noteq> None then ''delete table inet ndimon_management'' @ [NL] else []) @
                     (case text of None \<Rightarrow> [] | Some t \<Rightarrow> t)
        in if script = [] then ret_n ()
           else seq_n (run_owned env Nft [''-f'', ''-''] 20 (Some script)) (ret_n ())))"

definition replace_tables ::
  "'h net_env \<Rightarrow> string \<Rightarrow> string option \<Rightarrow> string option \<Rightarrow> ('h, unit) net" where
  "replace_tables env source target previous =
     bind_n (table env ''ndimon_management'') (\<lambda>own.
     bind_n (table env source) (\<lambda>theirs.
       (let drop = (\<lambda>name old. if old \<noteq> None then ''delete table inet '' @ name @ [NL] else []);
            add = (\<lambda>t. case t of None \<Rightarrow> [] | Some text \<Rightarrow> text @ [NL]);
            rules = drop ''ndimon_management'' own @ drop source theirs @ add target @ add previous
        in if rules = [] then ret_n ()
           else seq_n (run_owned env Nft [''-f'', ''-''] 20 (Some rules)) (ret_n ()))))"

fun any_exists :: "'h net_env \<Rightarrow> string list \<Rightarrow> ('h, bool) net" where
  "any_exists env [] = ret_n False"
| "any_exists env (p # ps) =
     bind_n (sense (ne_exists env p)) (\<lambda>found. if found then ret_n True else any_exists env ps)"

definition check_ownership :: "'h net_env \<Rightarrow> ('h, unit) net" where
  "check_ownership env =
     (if ho_handoff (ne_host env) then ret_n ()
      else bind_n (any_exists env [EXTERNAL, QUIESCE]) (\<lambda>moving.
        if moving then err_n (locked ''handoff'')
        else bind_n (sense (ne_received env)) (\<lambda>received.
          bind_n (any_exists env
                    ((if received then [] else [''/var/lib/tessera-network/committed.json'']) @
                     [''/var/lib/tessera-network/pending.json'', ''/etc/tessera/config.d/59-standalone-network.toml'',
                      ''/etc/netplan/90-tessera-network.yaml''])) (\<lambda>marked.
            if marked then err_n (locked ''tessera_standalone'')
            else bind_n (sense (ne_list env ''/etc/systemd/network'' ''.network'')) (\<lambda>files.
              if list_ex (\<lambda>f. starts_with ''00-tessera-'' (last (split_on (CHR ''/'') f))) files
              then err_n (locked ''tessera_standalone'')
              else bind_n (table env ''tessera_network'') (\<lambda>t.
                if t \<noteq> None then err_n (locked ''tessera_standalone'') else ret_n ()))))))"

section \<open>Services and links\<close>

definition slices :: "'h net_env \<Rightarrow> ('h, unit) net" where
  "slices env =
     seq_n (run env Systemctl [''daemon-reload''] 20)
       (run_unit env Systemctl [''start'', ''ndimonndi.slice'', ''ndimontessera.slice''] 20)"

definition stop_consumers :: "'h net_env \<Rightarrow> net_plan \<Rightarrow> bool \<Rightarrow> ('h, unit) net" where
  "stop_consumers env plan recovery =
     each_n (\<lambda>u. if recovery \<or> u \<in> set (pl_affected_services plan)
                 then bind_n (active env u) (\<lambda>a. when_n a (run_unit env Systemctl [''stop'', u] 40))
                 else ret_n ()) MEDIA"

definition start_consumer :: "'h net_env \<Rightarrow> string \<Rightarrow> ('h, unit) net" where
  "start_consumer env u =
     (if ho_boot_recovery (ne_host env) then run_unit env Systemctl [''start'', ''--no-block'', u] 40
      else run_unit env Systemctl [''start'', u] 40)"

definition restore_consumers :: "'h net_env \<Rightarrow> net_plan \<Rightarrow> bool \<Rightarrow> ('h, unit) net" where
  "restore_consumers env plan recovery =
     seq_n (run env Systemctl [''daemon-reload''] 20)
       (each_n (\<lambda>u. when_n ((recovery \<or> u \<in> set (pl_affected_services plan)) \<and> u \<in> set (pl_active_services plan))
                      (start_consumer env u)) MEDIA)"

text \<open>Every unit is tried; the first error is the result.\<close>

fun resume_units :: "'h net_env \<Rightarrow> net_plan \<Rightarrow> api_error option \<Rightarrow> string list \<Rightarrow> ('h, unit) net" where
  "resume_units env plan first [] = (case first of None \<Rightarrow> ret_n () | Some e \<Rightarrow> err_n e)"
| "resume_units env plan first (u # us) =
     bind_n (if u \<in> set (pl_active_services plan)
             then bind_n (try_n (active env u)) (\<lambda>a. ret_n (case a of Inl _ \<Rightarrow> True | Inr running \<Rightarrow> \<not> running))
             else ret_n False) (\<lambda>start.
       if start
       then bind_n (try_n (run env Systemctl [''start'', ''--no-block'', u] 40)) (\<lambda>r.
              resume_units env plan (case (first, r) of (None, Inl e) \<Rightarrow> Some e | _ \<Rightarrow> first) us)
       else resume_units env plan first us)"

definition resume_consumers :: "'h net_env \<Rightarrow> net_plan \<Rightarrow> ('h, unit) net" where
  "resume_consumers env plan =
     bind_n (try_n (run env Systemctl [''daemon-reload''] 20)) (\<lambda>r.
       resume_units env plan (case r of Inl e \<Rightarrow> Some e | Inr _ \<Rightarrow> None) MEDIA)"

definition has_link :: "json list \<Rightarrow> string \<Rightarrow> bool" where
  "has_link links name = list_ex (\<lambda>l. json_index l ''ifname'' = JString name) links"

definition probe_links :: "'h net_env \<Rightarrow> ('h, json) net" where
  "probe_links env = probe_json env Ip [''-j'', ''-d'', ''link'', ''show'']"

definition remove_link :: "'h net_env \<Rightarrow> json \<Rightarrow> string \<Rightarrow> ('h, unit) net" where
  "remove_link env links name =
     bind_n (of_result_n (json_rows links)) (\<lambda>rows.
       if has_link rows name
       then bind_n (try_n (run env Ip [''link'', ''delete'', ''dev'', name] 20)) (\<lambda>r.
              case r of
                Inr _ \<Rightarrow> ret_n ()
              | Inl e \<Rightarrow> bind_n (probe_links env) (\<lambda>current.
                  bind_n (of_result_n (json_rows current)) (\<lambda>rows.
                    if has_link rows name then err_n e else ret_n ())))
       else ret_n ())"

definition remove_links :: "'h net_env \<Rightarrow> network_profiles \<Rightarrow> network_profiles \<Rightarrow> ('h, unit) net" where
  "remove_links env old new =
     bind_n (probe_links env) (\<lambda>links.
       each_n (\<lambda>n. remove_link env links (ifname old n))
         (filter (\<lambda>n. np_vlan_id n \<noteq> None \<and> \<not> list_ex (\<lambda>m. np_vlan_id m = np_vlan_id n) (nps_networks new))
           (nps_networks old)))"

section \<open>Addresses\<close>

definition probe_addresses :: "'h net_env \<Rightarrow> ('h, json) net" where
  "probe_addresses env = probe_json env Ip [''-j'', ''-4'', ''address'', ''show'']"

definition json_array :: "json \<Rightarrow> json list option" where
  "json_array v = (case v of JArray xs \<Rightarrow> Some xs | _ \<Rightarrow> None)"

definition global_inet :: "json \<Rightarrow> bool" where
  "global_inet a = (json_index a ''family'' = JString ''inet'' \<and> json_index a ''scope'' = JString ''global'')"

definition addr_info :: "json \<Rightarrow> json list" where
  "addr_info i = (case json_array (json_index i ''addr_info'') of None \<Rightarrow> [] | Some xs \<Rightarrow> filter global_inet xs)"

definition interface_addresses :: "json list \<Rightarrow> string \<Rightarrow> json list" where
  "interface_addresses live name = concat (map addr_info (filter (\<lambda>i. json_index i ''ifname'' = JString name) live))"

definition parse_local :: "json \<Rightarrow> ipv4 option" where
  "parse_local a = Option.bind (json_text (json_index a ''local'')) parse_ipv4"

definition management_address :: "'h net_env \<Rightarrow> network_profiles \<Rightarrow> ('h, ipv4 option) net" where
  "management_address env p =
     bind_n (of_result_n (assigned p (nr_management (nps_roles p)))) (\<lambda>row.
     bind_n (probe_addresses env) (\<lambda>live.
     bind_n (of_result_n (json_rows live)) (\<lambda>rows.
       case interface_addresses rows (ifname p row) of
         [a] \<Rightarrow> ret_n (parse_local a)
       | _ \<Rightarrow> ret_n None)))"

definition unready :: "string \<Rightarrow> api_error" where
  "unready reason = engine_failed ''verify_addresses'' reason"

text \<open>The address one row has. \<open>Inr None\<close> is a row that needs none and has none (\<open>continue\<close>).\<close>

definition verify_row ::
  "network_profiles \<Rightarrow> bool \<Rightarrow> json list \<Rightarrow> network_profile \<Rightarrow> ((ipv4 \<times> u8) option, api_error) result" where
  "verify_row p recovery live n =
     (let name = ifname p n;
          addresses = (case List.find (\<lambda>i. json_index i ''ifname'' = JString name) live of
                         None \<Rightarrow> [] | Some i \<Rightarrow> addr_info i);
          required = (np_mode n = Static \<or> np_id n = nr_management (nps_roles p) \<or>
                      (\<not> recovery \<and> (np_id n = nr_ndi (nps_roles p) \<or> np_id n = nr_audio (nps_roles p))))
      in case addresses of
           [] \<Rightarrow> if required then Inl (unready (''address_not_ready: '' @ name @ '' has no IPv4 address'')) else Inr None
         | [addr] \<Rightarrow>
             (case parse_local addr of
                None \<Rightarrow> Inl (unready ''unusable_unicast_address'')
              | Some a \<Rightarrow>
                  (case as_u64 (json_index addr ''prefixlen'') of
                     None \<Rightarrow> Inl (unready ''unexpected_static_prefix'')
                   | Some prefix \<Rightarrow>
                       if \<not> (8 \<le> prefix \<and> prefix \<le> 30) then Inl (unready ''unexpected_static_prefix'')
                       else if \<not> unicast a then Inl (unready ''unusable_unicast_address'')
                       else if np_mode n = Static \<and> (show_ipv4 a \<noteq> np_address n \<or> prefix \<noteq> unat (np_prefix n))
                       then (let text = name @ '' has '' @ show_ipv4 a @ ''/'' @ dec prefix @ '', expected '' @
                                        np_address n @ ''/'' @ dec (unat (np_prefix n))
                             in Inl (unready ((if show_ipv4 a = np_address n then ''unexpected_static_prefix: ''
                                               else ''address_not_ready: '') @ text)))
                       else Inr (Some (a, of_nat prefix))))
         | _ \<Rightarrow> Inl (unready ''unexpected_address_count''))"

fun verify_rows ::
  "network_profiles \<Rightarrow> bool \<Rightarrow> json list \<Rightarrow> (u32 \<times> u32) list \<Rightarrow> ipv4 option \<Rightarrow> network_profile list \<Rightarrow>
   (ipv4 option, api_error) result" where
  "verify_rows p recovery live subnets management [] = Inr management"
| "verify_rows p recovery live subnets management (n # ns) =
     bind_r (verify_row p recovery live n) (\<lambda>found.
       case found of
         None \<Rightarrow> verify_rows p recovery live subnets management ns
       | Some (a, prefix) \<Rightarrow>
           (case subnet a prefix of (low, high) \<Rightarrow>
              if list_ex (\<lambda>(l, h). low \<le> h \<and> l \<le> high) subnets then Inl (unready ''live_subnets_overlap'')
              else verify_rows p recovery live (subnets @ [(low, high)])
                     (if np_id n = nr_management (nps_roles p) then Some a else management) ns))"

definition verify_route :: "network_profiles \<Rightarrow> network_backend_metadata \<Rightarrow> network_profile \<Rightarrow> json \<Rightarrow> (unit, api_error) result" where
  "verify_route p metadata row r =
     (let name = (case json_text (json_index r ''dev'') of None \<Rightarrow> [] | Some t \<Rightarrow> t);
          management_name = ifname p row
      in if name \<in> set (names p) \<and> name \<noteq> management_name then Inl (unready ''default_route_on_media'')
         else if name = management_name \<and>
                 (case as_u64 (json_index r ''metric'') of None \<Rightarrow> 0 | Some k \<Rightarrow> k) \<noteq> unat (metric metadata row)
         then Inl (engine_failed ''verify_backend'' ''route_metric_changed'')
         else Inr ())"

definition verify_routes :: "network_profiles \<Rightarrow> network_backend_metadata \<Rightarrow> network_profile \<Rightarrow> json list \<Rightarrow> (unit, api_error) result" where
  "verify_routes p metadata row routes =
     (let own = filter (\<lambda>r. json_index r ''dev'' = JString (ifname p row)) routes
      in if length own > 1 then Inl (unready ''unexpected_default_routes'')
         else if np_mode row = Static \<and> np_gateway row = [] \<and> own \<noteq> [] then Inl (unready ''unexpected_default_routes'')
         else if np_mode row = Static \<and> np_gateway row \<noteq> [] \<and>
                 (length own \<noteq> 1 \<or> json_index (hd own) ''gateway'' \<noteq> JString (np_gateway row))
         then Inl (unready ''address_not_ready'')
         else try_fold (\<lambda>r _. verify_route p metadata row r) routes ())"

text \<open>\<open>networkd::selected\<close>: the configuration file networkd uses for a link.\<close>

definition network_file :: "string \<Rightarrow> string option" where
  "network_file l = map_option trim (strip_prefix ''Network File:'' (trim l))"

definition selected_network :: "string \<Rightarrow> string option" where
  "selected_network text =
     (case List.map_filter network_file (lines_of text) of
        s # _ \<Rightarrow> if ends_with ''.network'' s then Some s else None
      | [] \<Rightarrow> None)"

definition check_selected :: "'h net_env \<Rightarrow> string \<Rightarrow> string \<Rightarrow> string \<Rightarrow> ('h, unit) net" where
  "check_selected env step name expected =
     bind_n (run env Networkctl [''status'', ''--no-pager'', ''--'', name] 8) (\<lambda>text.
       if selected_network text \<noteq> Some expected then err_n (engine_failed step ''foreign_configuration_selected'') else ret_n ())"

definition verify_owned :: "'h net_env \<Rightarrow> network_profiles \<Rightarrow> network_backend_metadata \<Rightarrow> ('h, unit) net" where
  "verify_owned env p metadata =
     (case nps_backend p of
        None \<Rightarrow> err_n (unsupported ''unknown_backend'')
      | Some b \<Rightarrow>
          if b = Networkd \<or> b = Netplan
          then each_n (\<lambda>name. check_selected env ''verify_backend'' name (''/etc/systemd/network/00-ndimon-'' @ name @ ''.network''))
                 (names p)
          else sense (ne_verify env (ne_host env) b p metadata))"

definition verify_addresses ::
  "'h net_env \<Rightarrow> network_profiles \<Rightarrow> network_backend_metadata \<Rightarrow> bool \<Rightarrow> bool \<Rightarrow> ('h, ipv4) net" where
  "verify_addresses env p metadata recovery owned =
     bind_n (probe_addresses env) (\<lambda>live.
     bind_n (if nps_networks p = [] then ret_n None
             else bind_n (of_result_n (json_rows live)) (\<lambda>rows.
               of_result_n (verify_rows p recovery rows [] None (nps_networks p)))) (\<lambda>management.
     bind_n (if list_ex (\<lambda>n. np_vlan_id n = None) (nps_networks p) then ret_n ()
             else bind_n (of_result_n (json_rows live)) (\<lambda>rows.
               if list_ex (\<lambda>i. json_index i ''ifname'' = JString (nps_interface p) \<and> addr_info i \<noteq> []) rows
               then err_n (unready ''unexpected_address_count'') else ret_n ())) (\<lambda>_.
     bind_n (of_result_n (assigned p (nr_management (nps_roles p)))) (\<lambda>row.
     bind_n (probe_json env Ip [''-j'', ''-4'', ''route'', ''show'', ''default'']) (\<lambda>routes.
     bind_n (of_result_n (bind_r (json_rows routes) (verify_routes p metadata row))) (\<lambda>_.
     bind_n (when_n owned (verify_owned env p metadata)) (\<lambda>_.
     bind_n (when_n (\<not> owned \<and> nbm_parent_source metadata \<noteq> [] \<and>
                     (nps_backend p = Some Networkd \<or> nps_backend p = Some Netplan))
               (check_selected env ''verify_backend'' (nps_interface p) (nbm_parent_source metadata))) (\<lambda>_.
       case management of
         None \<Rightarrow> err_n (unready ''address_not_ready'')
       | Some a \<Rightarrow> ret_n a))))))))"

section \<open>Polling\<close>

definition POLL_FUEL :: nat where "POLL_FUEL = 200"

definition poll_end :: "'h net_env \<Rightarrow> u64 \<Rightarrow> ('h, u64) net" where
  "poll_end env ms =
     bind_n (now_ms env) (\<lambda>now.
       ret_n (min (saturating_add now ms) (case ho_deadline (ne_host env) of None \<Rightarrow> - 1 | Some d \<Rightarrow> d)))"

definition sleep_ms :: "'h net_env \<Rightarrow> u64 \<Rightarrow> ('h, unit) net" where
  "sleep_ms env ms = sense (\<lambda>h. (Inr (), ne_sleep_ms env ms h))"

definition is_not_ready :: "api_error \<Rightarrow> bool" where
  "is_not_ready e = (case e of ApplyFailed _ _ reason \<Rightarrow> starts_with ''address_not_ready'' reason | _ \<Rightarrow> False)"

text \<open>\<open>wait_links\<close> asks again until the links are there; \<open>readiness\<close> until the addresses are.\<close>

fun link_loop :: "nat \<Rightarrow> 'h net_env \<Rightarrow> network_profiles \<Rightarrow> u64 \<Rightarrow> ('h, unit) net" where
  "link_loop 0 env p until = err_n (engine_failed ''verify_backend'' ''link_not_ready'')"
| "link_loop (Suc fuel) env p until =
     bind_n (probe_links env) (\<lambda>links.
       if list_all (\<lambda>name. case json_rows links of Inl _ \<Rightarrow> False | Inr rows \<Rightarrow> has_link rows name) (names p)
       then ret_n ()
       else bind_n (now_ms env) (\<lambda>now.
         if until \<le> now then err_n (engine_failed ''verify_backend'' ''link_not_ready'')
         else seq_n (sleep_ms env 250) (link_loop fuel env p until)))"

definition wait_links :: "'h net_env \<Rightarrow> network_profiles \<Rightarrow> ('h, unit) net" where
  "wait_links env p = bind_n (poll_end env 10000) (link_loop POLL_FUEL env p)"

fun ready_loop :: "nat \<Rightarrow> 'h net_env \<Rightarrow> ('h, ipv4) net \<Rightarrow> u64 \<Rightarrow> ('h, ipv4) net" where
  "ready_loop 0 env body until = err_n (unready ''address_not_ready'')"
| "ready_loop (Suc fuel) env body until =
     bind_n (try_n body) (\<lambda>r.
       case r of
         Inr a \<Rightarrow> ret_n a
       | Inl e \<Rightarrow>
           if is_not_ready e
           then bind_n (now_ms env) (\<lambda>now.
                  if now < until then seq_n (sleep_ms env 250) (ready_loop fuel env body until) else err_n e)
           else err_n e)"

definition readiness ::
  "'h net_env \<Rightarrow> network_profiles \<Rightarrow> network_backend_metadata \<Rightarrow> bool \<Rightarrow> bool \<Rightarrow> ('h, ipv4) net" where
  "readiness env p metadata recovery owned =
     bind_n (poll_end env 45000) (ready_loop POLL_FUEL env (verify_addresses env p metadata recovery owned))"

section \<open>Duplicates and the source of a handoff\<close>

definition arp :: "'h net_env \<Rightarrow> network_profiles \<Rightarrow> ('h, unit) net" where
  "arp env p =
     each_n (\<lambda>n. map_err_n (\<lambda>_. unready ''duplicate_ipv4'')
               (run_unit env Arping [''-D'', ''-I'', ifname p n, ''-c'', ''2'', ''-w'', ''3'', np_address n] 10))
       (filter (\<lambda>n. np_mode n = Static) (nps_networks p))"

definition source_readiness :: "'h net_env \<Rightarrow> transfer \<Rightarrow> net_plan \<Rightarrow> ('h, unit) net" where
  "source_readiness env t plan =
     seq_n (readiness env (pl_previous plan) (pl_previous_metadata plan) True False)
       (case nps_backend (pl_previous plan) of
          None \<Rightarrow> err_n (unsupported ''unknown_backend'')
        | Some Networkmanager \<Rightarrow>
            sense (ne_verify env (ne_host env) Networkmanager (pl_previous plan) (pl_previous_metadata plan))
        | Some Ifupdown \<Rightarrow> each_n (\<lambda>name. run_unit env Ifquery [''--state'', name] 5) (names (pl_previous plan))
        | Some _ \<Rightarrow>
            (let prefix = (if nh_product (tr_source t) = ProductTessera then ''tessera'' else ''ndimon'')
             in each_n (\<lambda>name. check_selected env ''handoff_recovery'' name
                          (''/etc/systemd/network/00-'' @ prefix @ ''-'' @ name @ ''.network'')) (names (pl_previous plan))))"

section \<open>Plans\<close>

text \<open>A link attached to the port: it must be one of ours, a VLAN of the tag its name says.\<close>

definition attached :: "string \<Rightarrow> nat \<Rightarrow> json \<Rightarrow> bool" where
  "attached base index l =
     (json_index l ''ifname'' \<noteq> JString base \<and>
      (json_index l ''link'' = JString base \<or> as_u64 (json_index l ''link_index'') = Some index \<or>
       json_index l ''master'' = JString base))"

definition check_attached :: "string \<Rightarrow> nat \<Rightarrow> string list \<Rightarrow> json \<Rightarrow> (unit, api_error) result" where
  "check_attached base index owned l =
     (let name = (case json_text (json_index l ''ifname'') of None \<Rightarrow> [] | Some t \<Rightarrow> t);
          kind = json_index (json_index l ''linkinfo'') ''info_kind'';
          expected_tag = Option.bind (rsplit_once (CHR ''.'') name) (\<lambda>(_, t). parse_uint 64 t)
      in if \<not> attached base index l then Inr ()
         else if name \<notin> set owned
         then Inl (unsupported (if kind = JString ''vlan'' then ''foreign_vlan'' else ''attached_interfaces''))
         else if kind \<noteq> JString ''vlan'' \<or>
                 \<not> (json_index l ''link'' = JString base \<or> as_u64 (json_index l ''link_index'') = Some index) \<or>
                 json_index l ''link_netnsid'' \<noteq> JNull \<or>
                 expected_tag \<noteq> as_u64 (json_index (json_index (json_index l ''linkinfo'') ''info_data'') ''id'')
         then Inl (unsupported ''foreign_vlan'')
         else Inr ())"

definition check_links :: "'h net_env \<Rightarrow> string \<Rightarrow> string list \<Rightarrow> json \<Rightarrow> ('h, unit) net" where
  "check_links env base owned links =
     (if \<not> physical base then err_n (unsupported ''wired_port_required'')
      else bind_n (of_result_n (json_rows links)) (\<lambda>rows.
        case List.find (\<lambda>l. json_index l ''ifname'' = JString base) rows of
          None \<Rightarrow> err_n (unsupported ''no_wired_interface'')
        | Some link \<Rightarrow>
            bind_n (if json_index link ''link_type'' \<noteq> JString ''ether'' then ret_n True
                    else sense (ne_present env (''/sys/class/net/'' @ base @ ''/wireless''))) (\<lambda>unwired.
              if unwired then err_n (unsupported ''wired_port_required'')
              else if (case json_text (json_index (json_index link ''linkinfo'') ''info_kind'') of
                         None \<Rightarrow> False | Some k \<Rightarrow> k \<noteq> [])
              then err_n (unsupported ''unsupported_link_kind'')
              else if json_index link ''master'' \<noteq> JNull then err_n (unsupported ''attached_interfaces'')
              else (case as_u64 (json_index link ''ifindex'') of
                      None \<Rightarrow> err_n (unsupported ''wired_port_required'')
                    | Some index \<Rightarrow>
                        of_result_n (try_fold (\<lambda>l _. check_attached base index owned l) rows ())))))"

definition text_image :: "'h net_env \<Rightarrow> string \<Rightarrow> u32 \<Rightarrow> image" where
  "text_image env text mode =
     \<lparr>im_bytes = text, im_mode = mode, im_uid = fst (ne_owner env), im_gid = snd (ne_owner env)\<rparr>"

definition change_of :: "'h net_env \<Rightarrow> string \<Rightarrow> string option \<Rightarrow> u32 \<Rightarrow> ('h, file_change option) net" where
  "change_of env path text mode =
     bind_n (sense (ne_snapshot env path)) (\<lambda>before.
       (let after = map_option (\<lambda>s. text_image env s mode) text
        in ret_n (if before = after then None else Some \<lparr>fc_path = path, fc_before = before, fc_after = after\<rparr>)))"

definition add_file :: "'h net_env \<Rightarrow> file_change list \<Rightarrow> string \<Rightarrow> string option \<Rightarrow> u32 \<Rightarrow> ('h, file_change list) net" where
  "add_file env changes path text mode =
     bind_n (change_of env path text mode) (\<lambda>change.
       case change of
         None \<Rightarrow> ret_n changes
       | Some c \<Rightarrow>
           if list_ex (\<lambda>c. fc_path c = path) changes then err_n (engine_failed ''plan'' ''duplicate_artifact'')
           else ret_n (changes @ [c]))"

fun add_files :: "'h net_env \<Rightarrow> file_change list \<Rightarrow> (string \<times> string) list \<Rightarrow> ('h, file_change list) net" where
  "add_files env changes [] = ret_n changes"
| "add_files env changes ((path, text) # rest) =
     bind_n (add_file env changes path (Some text) 0x1A4) (\<lambda>changes. add_files env changes rest)"

definition tessera_files :: "'h net_env \<Rightarrow> network_profiles \<Rightarrow> file_change list \<Rightarrow> ('h, file_change list) net" where
  "tessera_files env p files =
     bind_n (of_result_n (map_err (\<lambda>_. unsupported ''invalid_binding'') (tessera_binding p))) (\<lambda>text.
       add_files env files
         [(TESSERA_BINDING, text),
          (''/etc/systemd/system/tesserad.service.d/70-ndimon-network.conf'', dropin ''ndimontessera.slice'')])"

definition hex_upper :: "nat \<Rightarrow> char" where
  "hex_upper n = (if n < 10 then char_of (48 + n) else char_of (55 + n))"

definition hex4 :: "u16 \<Rightarrow> string" where
  "hex4 p = map (\<lambda>i. hex_upper (unat p div 16 ^ i mod 16)) [3, 2, 1, 0]"

definition listening :: "string \<Rightarrow> u16 \<Rightarrow> bool" where
  "listening text port =
     list_ex (\<lambda>l. (let fields = split_whitespace l
                  in length fields > 3 \<and> fields ! 1 = ''00000000:'' @ hex4 port \<and> fields ! 3 = ''0A''))
       (drop 1 (lines_of text))"

definition verify_listener :: "'h net_env \<Rightarrow> u16 \<Rightarrow> ('h, unit) net" where
  "verify_listener env port =
     bind_n (map_err_n (\<lambda>_. unsupported ''management_listener_unavailable'') (sense (ne_proc_net_tcp env))) (\<lambda>text.
       if listening text port then ret_n () else err_n (unsupported ''management_listener_unavailable''))"

definition probe_drift ::
  "'h net_env \<Rightarrow> drift_probe \<Rightarrow> network_profiles \<Rightarrow> network_backend_metadata \<Rightarrow> ('h, drift list) net" where
  "probe_drift env d p metadata = sense (ne_drift env (ne_host env) d p metadata)"

definition vlan_names :: "network_profiles \<Rightarrow> string list" where
  "vlan_names p = map (ifname p) (filter (\<lambda>n. np_vlan_id n \<noteq> None) (nps_networks p))"

text \<open>The backend's part of a plan: the files it renders, its connections, and the drift.\<close>

definition plan_backend ::
  "'h net_env \<Rightarrow> network_profiles \<Rightarrow> network_profiles \<Rightarrow> network_backend_metadata \<Rightarrow>
   ('h, file_change list \<times> nm_change list \<times> drift list) net" where
  "plan_backend env previous candidate metadata =
     (let render = (\<lambda>b. sense (ne_render env (ne_host env) b previous candidate metadata))
      in case nps_backend candidate of
           None \<Rightarrow> err_n (unsupported ''unknown_backend'')
         | Some Networkd \<Rightarrow>
             bind_n (render Networkd) (\<lambda>files.
             bind_n (probe_drift env NetworkdDrift candidate metadata) (\<lambda>d. ret_n (files, [], d)))
         | Some Netplan \<Rightarrow>
             bind_n (render Netplan) (\<lambda>files.
             bind_n (probe_drift env NetworkdDrift candidate metadata) (\<lambda>d.
             bind_n (probe_drift env NetplanDrift candidate metadata) (\<lambda>d'. ret_n (files, [], d @ d'))))
         | Some Networkmanager \<Rightarrow>
             bind_n (sense (ne_plan_nm env (ne_host env) previous candidate metadata)) (\<lambda>nm.
             bind_n (probe_drift env NmDrift candidate metadata) (\<lambda>d. ret_n ([], nm, d)))
         | Some Ifupdown \<Rightarrow>
             bind_n (render Ifupdown) (\<lambda>files.
             bind_n (probe_drift env IfupdownDrift candidate metadata) (\<lambda>d. ret_n (files, [], d))))"

definition SLICE_TEXT :: string where
  "SLICE_TEXT = ''[Unit]'' @ [NL] @ ''Description=NDIMon network traffic boundary'' @ [NL] @ ''[Slice]'' @ [NL]"

definition plan_texts :: "network_profiles \<Rightarrow> string \<Rightarrow> (string \<times> string) list" where
  "plan_texts candidate binding =
     (if list_ex (\<lambda>n. np_vlan_id n \<noteq> None) (nps_networks candidate)
      then [(''/etc/modules-load.d/ndimon-8021q.conf'', ''8021q'' @ [NL])] else []) @
     [(''/etc/systemd/system/ndimonndi.slice'', SLICE_TEXT), (''/etc/systemd/system/ndimontessera.slice'', SLICE_TEXT),
      (BINDING, binding),
      (''/etc/systemd/system/ndimon-r.service.d/70-ndimon-network.conf'', dropin ''ndimonndi.slice''),
      (''/etc/systemd/system/ndimon-finder.service.d/70-ndimon-network.conf'', dropin ''ndimonndi.slice'')]"

text \<open>The dash of the banner is U+2014.\<close>

definition BANNER_TEXT :: string where
  "BANNER_TEXT = ''Pending network change '' @ [CHR 0xE2, CHR 0x80, CHR 0x94] @
     '' the new address will appear above'' @ [NL]"

fun active_units :: "'h net_env \<Rightarrow> string list \<Rightarrow> ('h, string list) net" where
  "active_units env [] = ret_n []"
| "active_units env (u # us) =
     bind_n (active env u) (\<lambda>a. bind_n (active_units env us) (\<lambda>rest. ret_n (if a then u # rest else rest)))"

definition placement_services :: "file_change list \<Rightarrow> string list \<Rightarrow> string list" where
  "placement_services files services =
     foldl (\<lambda>acc c. foldl (\<lambda>acc u. if contains_str (''/'' @ u @ ''.d/'') (fc_path c) \<and> u \<notin> set acc
                                   then acc @ [u] else acc) acc MEDIA)
       services (filter (\<lambda>c. ends_with ''70-ndimon-network.conf'' (fc_path c)) files)"

definition unowned_vlan :: "network_profiles \<Rightarrow> string list \<Rightarrow> json list \<Rightarrow> bool" where
  "unowned_vlan candidate owned rows =
     list_ex (\<lambda>n. np_vlan_id n \<noteq> None \<and> ifname candidate n \<notin> set owned \<and> has_link rows (ifname candidate n))
       (nps_networks candidate)"

definition plan_guards ::
  "'h net_env \<Rightarrow> network_profiles \<Rightarrow> network_profiles \<Rightarrow> u16 \<Rightarrow> ('h, string option) net" where
  "plan_guards env previous candidate portal_port =
     seq_n (check_ownership env)
     (bind_n (probe_links env) (\<lambda>links.
      bind_n (check_links env (nps_interface candidate) (vlan_names previous) links) (\<lambda>_.
      bind_n (of_result_n (json_rows links)) (\<lambda>rows.
        if unowned_vlan candidate (vlan_names previous) rows then err_n (unsupported ''foreign_vlan'')
        else bind_n (run env Arping [''-V''] 5) (\<lambda>_.
          bind_n (sense (ne_present env ''/sys/fs/cgroup/cgroup.controllers'')) (\<lambda>cgroup.
            if \<not> cgroup then err_n (unsupported ''guard_unavailable'')
            else bind_n (probe_addresses env) (\<lambda>sockets.
              bind_n (of_result_n (json_rows sockets)) (\<lambda>_.
                seq_n (verify_listener env portal_port) (table env ''ndimon_management'')))))))))"

definition plan_files ::
  "'h net_env \<Rightarrow> network_profiles \<Rightarrow> file_change list \<Rightarrow> ('h, file_change list) net" where
  "plan_files env candidate files =
     bind_n (of_result_n (map_err (\<lambda>_. unsupported ''invalid_binding'') (bindings (ne_to_string_pretty env) candidate))) (\<lambda>binding.
     bind_n (add_files env files (plan_texts candidate binding)) (\<lambda>files.
     bind_n (sense (ne_exists env ''/etc/tessera/config.d'')) (\<lambda>tessera.
     bind_n (if tessera then tessera_files env candidate files else ret_n files) (\<lambda>files.
     bind_n (sense (ne_snapshot env BANNER)) (\<lambda>before.
       ret_n (files @ [\<lparr>fc_path = BANNER, fc_before = before, fc_after = Some (text_image env BANNER_TEXT 0x1A4)\<rparr>]))))))"

definition affected_units :: "'h net_env \<Rightarrow> string list \<Rightarrow> ('h, string list) net" where
  "affected_units env affected =
     bind_n (if ''audio'' \<in> set affected then sense (ne_exists env ''/etc/tessera/config.d'') else ret_n False) (\<lambda>tessera.
       ret_n ((if tessera then [''tesserad.service''] else []) @
              (if ''ndi'' \<in> set affected then [''ndimon-finder.service'', ''ndimon-r.service''] else [])))"

definition host_plan ::
  "'h net_env \<Rightarrow> network_profiles \<Rightarrow> network_profiles \<Rightarrow> network_backend_metadata \<Rightarrow> u16 \<Rightarrow> ('h, net_plan) net" where
  "host_plan env previous candidate metadata portal_port =
     bind_n (plan_guards env previous candidate portal_port) (\<lambda>old_table.
     bind_n (plan_backend env previous candidate metadata) (\<lambda>(files, nm, drifts).
       if list_ex dr_blocking drifts then err_n (unsupported ''foreign_connection'')
       else bind_n (plan_files env candidate files) (\<lambda>files.
         bind_n (active_units env MEDIA) (\<lambda>active_services.
         bind_n (affected_units env (affected_roles previous candidate)) (\<lambda>affected.
           ret_n \<lparr>pl_files = files, pl_nm = nm, pl_previous = previous, pl_candidate = candidate,
                  pl_previous_metadata = metadata, pl_metadata = metadata, pl_old_table = old_table,
                  pl_active_services = active_services,
                  pl_affected_services = placement_services files affected, pl_portal_port = portal_port,
                  pl_drift = drifts\<rparr>)))))"

section \<open>Preflight\<close>

definition check_file :: "'h net_env \<Rightarrow> file_change \<Rightarrow> ('h, unit) net" where
  "check_file env c =
     bind_n (sense (ne_snapshot env (fc_path c))) (\<lambda>now.
       if now \<noteq> fc_before c then err_n (engine_failed ''preflight'' ''configuration_changed'') else ret_n ())"

definition plan_drift :: "'h net_env \<Rightarrow> net_plan \<Rightarrow> ('h, drift list) net" where
  "plan_drift env plan =
     (case nps_backend (pl_candidate plan) of
        None \<Rightarrow> err_n (unsupported ''unknown_backend'')
      | Some Networkmanager \<Rightarrow>
          seq_n (sense (ne_check_nm env (ne_host env) (pl_nm plan)))
            (probe_drift env NmDrift (pl_candidate plan) (transitional_metadata plan))
      | Some Ifupdown \<Rightarrow> probe_drift env IfupdownDrift (pl_candidate plan) (pl_metadata plan)
      | Some _ \<Rightarrow> probe_drift env NetworkdDrift (pl_candidate plan) (pl_metadata plan))"

definition check_plan :: "'h net_env \<Rightarrow> net_plan \<Rightarrow> ('h, unit) net" where
  "check_plan env plan =
     seq_n (each_n (check_file env) (pl_files plan))
     (bind_n (table env ''ndimon_management'') (\<lambda>t.
        if t \<noteq> pl_old_table plan then err_n (engine_failed ''preflight'' ''guard_changed'')
        else bind_n (probe_links env) (\<lambda>links.
          bind_n (check_links env (nps_interface (pl_candidate plan)) (vlan_names (pl_previous plan)) links) (\<lambda>_.
          bind_n (plan_drift env plan) (\<lambda>drifts.
            if list_ex dr_blocking drifts
            then err_n (engine_failed ''preflight'' ''foreign_configuration_selected'')
            else verify_listener env (pl_portal_port plan))))))"

section \<open>What these functions do to the host\<close>

text \<open>
  Which commands change the network, the packet filter, the services of the media or the timers: every use
  of a tool counts as a change, except the uses that only ask. Of \<open>systemctl\<close>, stopping a media service
  counts; reloading units, asking, starting, and stopping a finished transaction's timers do not.
\<close>

definition changing :: "tool \<Rightarrow> string list \<Rightarrow> bool" where
  "changing tool args =
     (case tool of
        Ip \<Rightarrow> hd args \<noteq> ''-j''
      | Networkctl \<Rightarrow> hd args \<noteq> ''status''
      | Nmcli \<Rightarrow> hd args \<noteq> ''-g'' \<and> hd args \<noteq> ''--escape''
      | Nft \<Rightarrow> hd args \<noteq> ''-j'' \<and> hd args \<noteq> ''list'' \<and> hd args \<noteq> ''--check''
      | Systemctl \<Rightarrow> (\<exists>u \<in> set MEDIA. args = [''stop'', u])
      | Ifquery \<Rightarrow> False
      | Arping \<Rightarrow> False
      | _ \<Rightarrow> True)"

lemma changing_simps [simp]:
  "changing Ip args = (hd args \<noteq> ''-j'')" "changing Networkctl args = (hd args \<noteq> ''status'')"
  "changing Nmcli args = (hd args \<noteq> ''-g'' \<and> hd args \<noteq> ''--escape'')"
  "changing Nft args = (hd args \<noteq> ''-j'' \<and> hd args \<noteq> ''list'' \<and> hd args \<noteq> ''--check'')"
  "changing Systemctl args = (\<exists>u \<in> set MEDIA. args = [''stop'', u])"
  "changing Ifquery args = False" "changing Arping args = False" "changing NetplanTool args = True"
  "changing Ifup args = True" "changing Ifdown args = True" "changing Modprobe args = True"
  "changing SystemdRun args = True" "changing Dhclient args = True"
  by (simp_all add: changing_def)

text \<open>
  \<open>reads P\<close>: \<open>P\<close> allows every command that asks; \<open>runs P\<close>: every command except \<open>systemd-run\<close>, which arms
  timers and is left to the engine.
\<close>

definition reads :: "(net_event \<Rightarrow> bool) \<Rightarrow> bool" where
  "reads P = (\<forall>s b. \<not> changing (cs_tool s) (cs_args s) \<longrightarrow> P (EvRun s b))"

definition runs :: "(net_event \<Rightarrow> bool) \<Rightarrow> bool" where
  "runs P = (\<forall>s b. cs_tool s \<noteq> SystemdRun \<longrightarrow> P (EvRun s b))"

definition allows :: "(net_event \<Rightarrow> bool) \<Rightarrow> tool \<Rightarrow> string list \<Rightarrow> string option \<Rightarrow> bool" where
  "allows P tool args input =
     (\<forall>s b. cs_tool s = tool \<and> cs_args s = args \<and> cs_input s = input \<longrightarrow> P (EvRun s b))"

lemma runs_reads [simp]: "runs P \<Longrightarrow> reads P"
  unfolding runs_def reads_def by (metis changing_simps(12))

lemma allowed [simp]:
  "reads P \<Longrightarrow> \<not> changing tool args \<Longrightarrow> allows P tool args input"
  "runs P \<Longrightarrow> tool \<noteq> SystemdRun \<Longrightarrow> allows P tool args input"
  by (simp_all add: reads_def runs_def allows_def)

lemma frame_clock [frames]:
  "does (extends P) (now_ms env)" "does (extends P) (boot_id env)" "does (extends P) (budget env ms)"
  "does (extends P) (poll_end env ms)" "does (extends P) (sleep_ms env ms)"
  unfolding now_ms_def boot_id_def budget_def poll_end_def sleep_ms_def by (intro frames)+

lemma frame_output [frames]: "allows P tool args input \<Longrightarrow> does (extends P) (host_output env tool args ms input)"
  by (auto simp: host_output_def run_command_def Let_def allows_def intro!: frames split: option.split)

lemma frame_run [frames]:
  "allows P tool args input \<Longrightarrow> does (extends P) (run_owned env tool args secs input)"
  "allows P tool args None \<Longrightarrow> does (extends P) (run env tool args secs)"
  "allows P tool args None \<Longrightarrow> does (extends P) (run_unit env tool args secs)"
  "allows P tool args None \<Longrightarrow> does (extends P) (probe_json env tool args)"
  by (auto simp: run_owned_def run_def run_unit_def probe_json_def intro!: frames split: option.split)

lemma frame_probes [frames]:
  assumes "reads P"
  shows "does (extends P) (active env u)" "does (extends P) (probe_links env)" "does (extends P) (probe_addresses env)"
  using assms by (auto simp: active_def probe_links_def probe_addresses_def intro!: frames)

lemma frame_table [frames]: "reads P \<Longrightarrow> does (extends P) (table env name)"
  by (auto simp: table_def intro!: frames split: json.split)

lemma frame_set_table:
  assumes "reads P" "\<And>drop. drop \<in> {[], ''delete table inet ndimon_management'' @ [NL]} \<Longrightarrow>
      allows P Nft [''-f'', ''-''] (Some (drop @ (case text of None \<Rightarrow> [] | Some t \<Rightarrow> t)))"
  shows "does (extends P) (set_table env text)"
  using assms(1) assms(2) [of "[]"] assms(2) [of "''delete table inet ndimon_management'' @ [NL]"]
  by (auto simp: set_table_def Let_def intro!: frames)

lemma frame_tables [frames]:
  assumes "runs P"
  shows "does (extends P) (set_table env text)" "does (extends P) (replace_tables env source target previous)"
proof -
  show "does (extends P) (set_table env text)"
    using assms by (intro frame_set_table) simp_all
  show "does (extends P) (replace_tables env source target previous)"
    using assms by (auto simp: replace_tables_def Let_def intro!: frames)
qed

lemma frame_any_exists [frames]: "does (extends P) (any_exists env ps)"
  by (induction ps) (auto intro!: frames)

lemma frame_ownership [frames]: "reads P \<Longrightarrow> does (extends P) (check_ownership env)"
  unfolding check_ownership_def by (auto intro!: frames)

lemma frame_services [frames]:
  assumes "reads P"
  shows "does (extends P) (slices env)" "does (extends P) (start_consumer env u)"
    "does (extends P) (restore_consumers env plan recovery)"
  using assms by (auto simp: slices_def start_consumer_def restore_consumers_def intro!: frames)

lemma frame_stop_consumers [frames]: "runs P \<Longrightarrow> does (extends P) (stop_consumers env plan recovery)"
  by (auto simp: stop_consumers_def intro!: frames)

lemma frame_resume_units: "reads P \<Longrightarrow> does (extends P) (resume_units env plan first us)"
  by (induction us arbitrary: first) (auto intro!: frames split: option.split sum.split)

lemma frame_resume [frames]: "reads P \<Longrightarrow> does (extends P) (resume_consumers env plan)"
  unfolding resume_consumers_def by (auto intro!: frames frame_resume_units)

lemma frame_remove_links [frames]: "runs P \<Longrightarrow> does (extends P) (remove_links env old new)"
  unfolding remove_links_def remove_link_def by (auto intro!: frames split: sum.split)

lemma frame_management_address [frames]: "reads P \<Longrightarrow> does (extends P) (management_address env p)"
  unfolding management_address_def by (auto intro!: frames split: list.split)

lemma frame_selected [frames]: "reads P \<Longrightarrow> does (extends P) (check_selected env step name expected)"
  unfolding check_selected_def by (auto intro!: frames)

lemma frame_verify [frames]:
  assumes "reads P"
  shows "does (extends P) (verify_owned env p metadata)" "does (extends P) (verify_addresses env p metadata recovery owned)"
proof -
  show owned: "does (extends P) (verify_owned env p metadata)"
    using assms by (auto simp: verify_owned_def intro!: frames split: option.split)
  show "does (extends P) (verify_addresses env p metadata recovery owned)"
    using assms owned by (auto simp: verify_addresses_def intro!: frames split: option.split)
qed

lemma frame_link_loop: "reads P \<Longrightarrow> does (extends P) (link_loop fuel env p until)"
  by (induction fuel) (auto intro!: frames)

lemma frame_ready_loop: "does (extends P) body \<Longrightarrow> does (extends P) (ready_loop fuel env body until)"
  by (induction fuel) (auto intro!: frames split: sum.split)

lemma frame_polls [frames]:
  assumes "reads P"
  shows "does (extends P) (wait_links env p)" "does (extends P) (readiness env p metadata recovery owned)"
  using assms unfolding wait_links_def readiness_def
  by (auto intro!: frames frame_link_loop frame_ready_loop)

lemma frame_arp [frames]: "reads P \<Longrightarrow> does (extends P) (arp env p)"
  unfolding arp_def by (auto intro!: frames)

lemma frame_source_readiness [frames]: "reads P \<Longrightarrow> does (extends P) (source_readiness env t plan)"
  unfolding source_readiness_def Let_def by (auto intro!: frames split: option.split network_backend.split)

lemma frame_preflight [frames]:
  assumes "reads P"
  shows "does (extends P) (check_links env base owned links)" "does (extends P) (check_file env c)"
    "does (extends P) (verify_listener env port)" "does (extends P) (probe_drift env d p metadata)"
    "does (extends P) (plan_drift env plan)" "does (extends P) (check_plan env plan)"
proof -
  show links: "does (extends P) (check_links env base owned links)" for env :: "'a net_env" and base owned links
    by (auto simp: check_links_def intro!: frames split: option.split)
  show fl: "does (extends P) (check_file env c)" for env :: "'a net_env" and c
    by (auto simp: check_file_def intro!: frames)
  show listener: "does (extends P) (verify_listener env port)" for env :: "'a net_env" and port
    by (auto simp: verify_listener_def intro!: frames)
  show probe: "does (extends P) (probe_drift env d p metadata)" for env :: "'a net_env" and d p metadata
    by (auto simp: probe_drift_def intro!: frames)
  show drift: "does (extends P) (plan_drift env plan)" for env :: "'a net_env"
    using probe by (auto simp: plan_drift_def intro!: frames split: option.split network_backend.split)
  show "does (extends P) (check_plan env plan)"
    using assms links fl listener drift by (auto simp: check_plan_def intro!: frames)
qed

lemma frame_add_file [frames]: "does (extends P) (add_file env changes path text mode)"
  unfolding add_file_def change_of_def Let_def by (auto intro!: frames split: option.split)

lemma frame_add_files [frames]: "does (extends P) (add_files env changes texts)"
  by (induction env changes texts rule: add_files.induct) (auto intro!: frames)

lemma frame_tessera_files [frames]: "does (extends P) (tessera_files env p files)"
  unfolding tessera_files_def by (intro frames)

lemma frame_plan_files [frames]: "does (extends P) (plan_files env candidate files)"
  unfolding plan_files_def by (auto intro!: frames)

lemma frame_active_units: "reads P \<Longrightarrow> does (extends P) (active_units env us)"
  by (induction us) (auto intro!: frames)

lemma frame_plan [frames]:
  assumes "reads P"
  shows "does (extends P) (plan_guards env previous candidate port)"
    "does (extends P) (plan_backend env previous candidate metadata)" "does (extends P) (affected_units env affected)"
    "does (extends P) (host_plan env previous candidate metadata port)"
proof -
  show guards: "does (extends P) (plan_guards env previous candidate port)" for env :: "'a net_env" and previous candidate port
    using assms by (auto simp: plan_guards_def intro!: frames)
  show backend: "does (extends P) (plan_backend env previous candidate metadata)" for env :: "'a net_env" and previous candidate metadata
    using assms by (auto simp: plan_backend_def Let_def intro!: frames split: option.split network_backend.split)
  show units: "does (extends P) (affected_units env affected)" for env :: "'a net_env" and affected
    by (auto simp: affected_units_def intro!: frames)
  show "does (extends P) (host_plan env previous candidate metadata port)"
    using assms guards backend units frame_active_units
    by (auto simp: host_plan_def intro!: frames split: prod.split)
qed

section \<open>Paths of a plan\<close>

lemma add_file_distinct:
  assumes "add_file env changes path text mode w = (Inr changes', w')" "distinct (map fc_path changes)"
  shows "distinct (map fc_path changes')" "set (map fc_path changes') \<subseteq> insert path (set (map fc_path changes))"
proof -
  have "changes' = changes \<or> (\<exists>c. fc_path c = path \<and> path \<notin> fc_path ` set changes \<and> changes' = changes @ [c])"
    using assms(1) unfolding add_file_def change_of_def Let_def
    by (elim bind_n_Inr) (force simp: ret_n_def err_n_def list_ex_iff split: if_splits)
  with assms(2) show "distinct (map fc_path changes')" "set (map fc_path changes') \<subseteq> insert path (set (map fc_path changes))"
    by auto
qed

lemma add_files_distinct:
  assumes "add_files env changes texts w = (Inr changes', w')" "distinct (map fc_path changes)"
  shows "distinct (map fc_path changes') \<and>
    set (map fc_path changes') \<subseteq> set (map fst texts) \<union> set (map fc_path changes)"
  using assms
proof (induction env changes texts arbitrary: w rule: add_files.induct)
  case (1 env changes)
  then show ?case by (simp add: ret_n_def)
next
  case (2 env changes path content rest)
  from 2(2) obtain c v where step: "add_file env changes path (Some content) 0x1A4 w = (Inr c, v)"
    "add_files env c rest v = (Inr changes', w')"
    by (auto elim: bind_n_Inr)
  note added = add_file_distinct [OF step(1) 2(3)]
  with 2(1) [OF step(2) added(1)] show ?case by (fastforce dest: subsetD)
qed

lemma plan_files_distinct:
  assumes "plan_files env candidate files w = (Inr files', w')"
    and "distinct (map fc_path files)" "BANNER \<notin> fc_path ` set files"
  shows "distinct (map fc_path files') \<and> BANNER \<in> fc_path ` set files'"
proof -
  have "\<exists>binding c1 c2 t before w1 w2 w3 w4.
      add_files env files (plan_texts candidate binding) w1 = (Inr c1, w2) \<and>
      (if t then tessera_files env candidate c1 else ret_n c1) w3 = (Inr c2, w4) \<and>
      files' = c2 @ [\<lparr>fc_path = BANNER, fc_before = before, fc_after = Some (text_image env BANNER_TEXT 0x1A4)\<rparr>]"
    using assms(1) unfolding plan_files_def
    by (elim bind_n_Inr) (unfold ret_n_eq, blast)
  then obtain binding c1 c2 t before w1 w2 w3 w4 where
    add: "add_files env files (plan_texts candidate binding) w1 = (Inr c1, w2)"
    and "(if t then tessera_files env candidate c1 else ret_n c1) w3 = (Inr c2, w4)"
    and files': "files' = c2 @ [\<lparr>fc_path = BANNER, fc_before = before, fc_after = Some (text_image env BANNER_TEXT 0x1A4)\<rparr>]"
    by blast
  then have tessera: "c2 = c1 \<or> (\<exists>v v'. tessera_files env candidate c1 v = (Inr c2, v'))"
    by (cases t) (auto simp: ret_n_def)
  have c1: "distinct (map fc_path c1)" "BANNER \<notin> set (map fc_path c1)"
    using add_files_distinct [OF add assms(2)] assms(3)
    by (auto simp: plan_texts_def BANNER_def BINDING_def split: if_splits dest!: subsetD)
  from tessera have "distinct (map fc_path c2) \<and> BANNER \<notin> set (map fc_path c2)"
  proof
    assume "\<exists>v v'. tessera_files env candidate c1 v = (Inr c2, v')"
    then obtain v v' content where "add_files env c1 [(TESSERA_BINDING, content),
        (''/etc/systemd/system/tesserad.service.d/70-ndimon-network.conf'', dropin ''ndimontessera.slice'')] v =
        (Inr c2, v')"
      unfolding tessera_files_def by (auto simp del: add_files.simps elim!: bind_n_Inr)
    from add_files_distinct [OF this c1(1)] c1(2) show ?thesis
      by (auto simp: BANNER_def TESSERA_BINDING_def dest!: subsetD)
  qed (use c1 in simp)
  with files' show ?thesis by auto
qed

end
