(* ===== verification/Net_Backends.thy ===== *)
theory Net_Backends
  imports Net_Host
begin

text \<open>
  How the network engine changes the host besides the files of its plan
  (ndimon-netengine/src/backend/nm.rs, ifupdown.rs, \<open>activate\<close> and \<open>discard_created\<close> of backend/mod.rs, and
  the marker files of handoff.rs): the connections of NetworkManager and the profile files put back for
  them, \<open>ifup\<close> and \<open>ifdown\<close>, and the reservation, the release and the receipt of a handoff.

  What is shown: which commands and which files each of them touches, for every answer of the host.

  \<open>settle_loop\<close> and \<open>image_loop\<close> poll with a fuel of \<open>POLL_FUEL\<close> rounds.
\<close>

definition replace_file :: "'h net_env \<Rightarrow> string \<Rightarrow> image option \<Rightarrow> ('h, unit) net" where
  "replace_file env path img = effect (EvReplace path img) (ne_replace env path img)"

section \<open>Values of nmcli\<close>

definition VERIFIED :: "string list" where
  "VERIFIED =
     [''ipv4.method'', ''ipv4.addresses'', ''ipv4.gateway'', ''ipv4.dns'', ''ipv4.dns-search'', ''ipv4.never-default'',
      ''ipv4.ignore-auto-dns'', ''ipv4.ignore-auto-routes'', ''ipv4.route-metric'', ''ipv6.method'']"

definition SETTLE_MS :: u64 where "SETTLE_MS = 15000"
definition SETTLE_STEP_MS :: u64 where "SETTLE_STEP_MS = 250"

definition valid_uuid :: "string \<Rightarrow> bool" where
  "valid_uuid s =
     (length s = 36 \<and>
      list_all (\<lambda>(i, c). if i \<in> {8, 13, 18, 23} then c = CHR ''-'' else is_ascii_hexdigit c) (enumerate 0 s))"

definition nm_empty :: "string \<Rightarrow> bool" where
  "nm_empty s = (s = [] \<or> s = ''--'')"

definition nm_split :: "string \<Rightarrow> string list" where
  "nm_split s =
     (if nm_empty s then []
      else filter (\<lambda>p. p \<noteq> []) (concat (map (split_on (CHR '' '')) (split_on (CHR '','') s))))"

definition nm_boolean :: "string \<Rightarrow> string" where
  "nm_boolean s =
     (let l = to_ascii_lowercase s
      in if l \<in> {''yes'', ''true'', ''on'', ''1''} then ''yes''
         else if l \<in> {''no'', ''false'', ''off'', ''0''} then ''no''
         else l)"

definition same_value :: "string \<Rightarrow> string \<Rightarrow> string \<Rightarrow> bool" where
  "same_value field want got =
     (if ends_with ''never-default'' field \<or> contains_str ''ignore-auto'' field
      then nm_boolean want = nm_boolean got else nm_split want = nm_split got)"

definition nm_bookkeeping :: "string \<Rightarrow> bool" where
  "nm_bookkeeping l =
     (let line = replace_char (CHR 0x27) (CHR 0x22) (trim l)
      in starts_with ''connection.timestamp:'' line \<or> starts_with ''timestamp='' line \<or>
         line = ''ipv6.ip6-privacy: '' @ quoted ''-1'' \<or> line = ''ip6-privacy=-1'')"

definition profile_lines :: "image \<Rightarrow> string list" where
  "profile_lines i = filter (\<lambda>l. \<not> nm_bookkeeping l) (lines_of (from_utf8_lossy (im_bytes i)))"

definition same_profile :: "image option \<Rightarrow> image option \<Rightarrow> bool" where
  "same_profile now before =
     (case (now, before) of
        (None, None) \<Rightarrow> True
      | (Some n, Some b) \<Rightarrow> im_bytes n = im_bytes b \<or> profile_lines n = profile_lines b
      | _ \<Rightarrow> False)"

definition holds_credentials :: "string \<Rightarrow> bool" where
  "holds_credentials bytes =
     (let text = to_ascii_lowercase (from_utf8_lossy bytes)
      in list_ex (\<lambda>m. contains_str m text)
           [''[802-1x]'', ''[wifi-security]'', ''[802-11-wireless-security]'', ''[vpn]'', ''[wireguard]'', ''[pppoe]'',
            ''password'', ''psk'', ''private-key'', ''auth:''])"

section \<open>Reading NetworkManager\<close>

definition nm_field :: "'h net_env \<Rightarrow> string \<Rightarrow> string \<Rightarrow> ('h, string) net" where
  "nm_field env uuid field =
     (if \<not> valid_uuid uuid then err_n (unsupported ''missing_parent_connection'')
      else bind_n (run env Nmcli [''--escape'', ''no'', ''-g'', field, ''connection'', ''show'', ''uuid'', uuid] 20)
             (\<lambda>text. ret_n (trim text)))"

definition nm_uuids :: "'h net_env \<Rightarrow> ('h, string list) net" where
  "nm_uuids env =
     bind_n (run env Nmcli [''-g'', ''UUID'', ''connection'', ''show''] 20) (\<lambda>text.
       (let ids = filter (\<lambda>s. s \<noteq> []) (lines_of text)
        in if list_all valid_uuid ids then ret_n ids else err_n (unsupported ''foreign_connection'')))"

text \<open>\<open>nm_field(..., "connection.id").unwrap_or_default()\<close>, for the text of a failure.\<close>

definition nm_id :: "'h net_env \<Rightarrow> string \<Rightarrow> ('h, string) net" where
  "nm_id env uuid =
     bind_n (try_n (nm_field env uuid ''connection.id'')) (\<lambda>r. ret_n (case r of Inl _ \<Rightarrow> [] | Inr s \<Rightarrow> s))"

definition nm_failed :: "'h net_env \<Rightarrow> string \<Rightarrow> string \<Rightarrow> string \<Rightarrow> string \<Rightarrow> ('h, 'a) net" where
  "nm_failed env uuid before between after =
     bind_n (nm_id env uuid) (\<lambda>i.
       err_n (engine_failed ''verify_backend'' (before @ ''connection '' @ i @ '' ('' @ uuid @ '')'' @ between @ after)))"

fun settle_loop :: "nat \<Rightarrow> 'h net_env \<Rightarrow> ('h, string option) net \<Rightarrow> u64 \<Rightarrow> ('h, string option) net" where
  "settle_loop 0 env body until = body"
| "settle_loop (Suc fuel) env body until =
     bind_n body (\<lambda>wrong.
       if wrong = None then ret_n None
       else bind_n (now_ms env) (\<lambda>now.
         if until \<le> now then ret_n wrong else seq_n (sleep_ms env SETTLE_STEP_MS) (settle_loop fuel env body until)))"

definition nm_settled :: "'h net_env \<Rightarrow> ('h, string option) net \<Rightarrow> ('h, string option) net" where
  "nm_settled env body = bind_n (poll_end env SETTLE_MS) (settle_loop POLL_FUEL env body)"

fun first_differing :: "'h net_env \<Rightarrow> nm_file list \<Rightarrow> ('h, string option) net" where
  "first_differing env [] = ret_n None"
| "first_differing env (f # fs) =
     bind_n (sense (ne_snapshot env (nf_path f))) (\<lambda>now.
       if \<not> same_profile now (nf_before f) then ret_n (Some (nf_path f)) else first_differing env fs)"

definition verify_files :: "'h net_env \<Rightarrow> nm_change \<Rightarrow> ('h, unit) net" where
  "verify_files env change =
     (if nm_files change = [] then ret_n ()
      else bind_n (nm_settled env (first_differing env (nm_files change))) (\<lambda>wrong.
        case wrong of
          None \<Rightarrow> ret_n ()
        | Some path \<Rightarrow> nm_failed env (nm_uuid change) (''profile_file_restore_mismatch: '' @ path @ '' ('') [] '')''))"

fun differing_fields :: "'h net_env \<Rightarrow> string \<Rightarrow> (string, string) bmap \<Rightarrow> string list \<Rightarrow> ('h, string list) net" where
  "differing_fields env uuid wanted [] = ret_n []"
| "differing_fields env uuid wanted (field # others) =
     (case bt_get wanted field of
        None \<Rightarrow> differing_fields env uuid wanted others
      | Some want \<Rightarrow>
          bind_n (nm_field env uuid field) (\<lambda>got.
          bind_n (differing_fields env uuid wanted others) (\<lambda>rest.
            ret_n (if same_value field want got then rest
                   else (field @ '' reads '' @ [CHR 0x27] @ got @ [CHR 0x27] @ '', expected '' @ [CHR 0x27] @ want @ [CHR 0x27])
                          # rest))))"

definition verify_restored :: "'h net_env \<Rightarrow> nm_change \<Rightarrow> ('h, unit) net" where
  "verify_restored env change =
     (case nm_before change of
        None \<Rightarrow> ret_n ()
      | Some before \<Rightarrow>
          bind_n (nm_settled env (bind_n (differing_fields env (nm_uuid change) before VERIFIED) (\<lambda>ds.
                    ret_n (if ds = [] then None else Some (join_with ''; '' ds))))) (\<lambda>wrong.
            case wrong of
              None \<Rightarrow> ret_n ()
            | Some what \<Rightarrow> nm_failed env (nm_uuid change) ''connection_restore_mismatch: '' '' '' what))"

fun verify_fields :: "'h net_env \<Rightarrow> nm_change \<Rightarrow> string list \<Rightarrow> ('h, unit) net" where
  "verify_fields env change [] = ret_n ()"
| "verify_fields env change (field # others) =
     (case bt_get (nm_after change) field of
        None \<Rightarrow> verify_fields env change others
      | Some want \<Rightarrow>
          bind_n (nm_field env (nm_uuid change) field) (\<lambda>got.
            if same_value field want got then verify_fields env change others
            else nm_failed env (nm_uuid change) ''profile_property_not_applied: ''
                   ('' '' @ field @ '' reads '' @ [CHR 0x27] @ got @ [CHR 0x27] @ '', expected '' @ [CHR 0x27])
                   (want @ [CHR 0x27])))"

definition verify_written :: "'h net_env \<Rightarrow> nm_change \<Rightarrow> ('h, unit) net" where
  "verify_written env change = verify_fields env change VERIFIED"

section \<open>Changing NetworkManager\<close>

definition nm_connection :: "'h net_env \<Rightarrow> string list \<Rightarrow> u64 \<Rightarrow> ('h, unit) net" where
  "nm_connection env args seconds = run_unit env Nmcli (''connection'' # args) seconds"

text \<open>The persisted files go back byte for byte; whether any differed.\<close>

fun restore_nm_files :: "'h net_env \<Rightarrow> nm_file list \<Rightarrow> bool \<Rightarrow> ('h, bool) net" where
  "restore_nm_files env [] changed = ret_n changed"
| "restore_nm_files env (f # fs) changed =
     bind_n (sense (ne_snapshot env (nf_path f))) (\<lambda>now.
       if now \<noteq> nf_before f
       then seq_n (replace_file env (nf_path f) (nf_before f)) (restore_nm_files env fs True)
       else restore_nm_files env fs changed)"

definition restore_reload :: "'h net_env \<Rightarrow> nm_change \<Rightarrow> ('h, unit) net" where
  "restore_reload env change =
     bind_n (restore_nm_files env (nm_files change) False) (\<lambda>changed.
       when_n changed (nm_connection env [''reload''] 20))"

fun discard_each :: "'h net_env \<Rightarrow> string list \<Rightarrow> nm_change list \<Rightarrow> bool \<Rightarrow> ('h, bool) net" where
  "discard_each env present [] reload = ret_n reload"
| "discard_each env present (c # cs) reload =
     seq_n (when_n (nm_uuid c \<in> set present) (nm_connection env [''delete'', ''uuid'', nm_uuid c] 20))
       (bind_n (restore_nm_files env (nm_files c) False) (\<lambda>changed. discard_each env present cs (reload \<or> changed)))"

definition discard_created_nm :: "'h net_env \<Rightarrow> nm_change list \<Rightarrow> ('h, unit) net" where
  "discard_created_nm env changes =
     bind_n (nm_uuids env) (\<lambda>present.
     bind_n (discard_each env present (filter (\<lambda>c. nm_before c = None) changes) False) (\<lambda>reload.
       when_n reload (nm_connection env [''reload''] 20)))"

definition add_vlan :: "'h net_env \<Rightarrow> nm_change \<Rightarrow> ('h, unit) net" where
  "add_vlan env change =
     (case (nm_tag change, rsplit_once (CHR ''.'') (nm_interface change)) of
        (Some tag, Some (parent, _)) \<Rightarrow>
          nm_connection env
            [''add'', ''type'', ''vlan'', ''con-name'', ''ndimon-vlan-'' @ nm_interface change, ''ifname'', nm_interface change,
             ''dev'', parent, ''id'', dec (unat tag), ''connection.uuid'', nm_uuid change] 20
      | _ \<Rightarrow> err_n (unsupported ''foreign_connection''))"

definition nm_values :: "nm_change \<Rightarrow> bool \<Rightarrow> ((string, string) bmap, api_error) result" where
  "nm_values change restore =
     (if restore then ok_or (nm_before change) (unsupported ''foreign_connection'') else Inr (nm_after change))"

definition activate_change :: "'h net_env \<Rightarrow> string list \<Rightarrow> bool \<Rightarrow> nm_change \<Rightarrow> ('h, unit) net" where
  "activate_change env present restore change =
     (if restore \<and> nm_before change = None
      then seq_n (when_n (nm_uuid change \<in> set present) (nm_connection env [''delete'', ''uuid'', nm_uuid change] 20))
             (seq_n (restore_reload env change) (verify_files env change))
      else
        seq_n (when_n (\<not> restore \<and> nm_before change = None \<and> nm_uuid change \<notin> set present) (add_vlan env change))
        (bind_n (of_result_n (nm_values change restore)) (\<lambda>values.
         seq_n (nm_connection env ([''modify'', ''uuid'', nm_uuid change] @ concat (map (\<lambda>(k, v). [k, v]) values)) 20)
         (seq_n (if restore then restore_reload env change else verify_written env change)
         (seq_n (if \<not> restore \<and> \<not> nm_remove_after_commit change \<or> restore \<and> nm_active change
                 then nm_connection env [''up'', ''uuid'', nm_uuid change] 40
                 else bind_n (run env Nmcli [''-g'', ''UUID'', ''connection'', ''show'', ''--active''] 20) (\<lambda>running.
                   when_n (nm_uuid change \<in> set (lines_of running)) (nm_connection env [''down'', ''uuid'', nm_uuid change] 20)))
           (when_n restore (seq_n (verify_restored env change) (verify_files env change))))))))"

definition activate_nm :: "'h net_env \<Rightarrow> nm_change list \<Rightarrow> bool \<Rightarrow> ('h, unit) net" where
  "activate_nm env changes restore =
     bind_n (nm_uuids env) (\<lambda>present. each_n (activate_change env present restore) changes)"

definition prune_nm :: "'h net_env \<Rightarrow> net_plan \<Rightarrow> ('h, unit) net" where
  "prune_nm env plan =
     (if pl_nm plan = [] then ret_n ()
      else bind_n (nm_uuids env) (\<lambda>present.
        each_n (\<lambda>c. when_n (nm_uuid c \<in> set present) (nm_connection env [''delete'', ''uuid'', nm_uuid c] 20))
          (filter nm_remove_after_commit (pl_nm plan))))"

section \<open>Settling the profile files\<close>

text \<open>
  \<open>settle_nm_files\<close> works on the changes of the journal in memory; an image with credentials stops it,
  and the images before that one have been taken.
\<close>

fun look :: "'h net_env \<Rightarrow> nm_file list \<Rightarrow> ('h, image option list) net" where
  "look env [] = ret_n []"
| "look env (f # fs) =
     bind_n (sense (ne_snapshot env (nf_path f))) (\<lambda>i. bind_n (look env fs) (\<lambda>is. ret_n (i # is)))"

fun image_loop ::
  "nat \<Rightarrow> 'h net_env \<Rightarrow> nm_file list \<Rightarrow> u64 \<Rightarrow> u64 \<Rightarrow> image option list option \<Rightarrow> ('h, image option list) net" where
  "image_loop 0 env fs start until seen = look env fs"
| "image_loop (Suc fuel) env fs start until seen =
     seq_n (sleep_ms env SETTLE_STEP_MS)
     (bind_n (look env fs) (\<lambda>images.
      bind_n (now_ms env) (\<lambda>now.
        if 1000 \<le> saturating_sub now start \<and> seen = Some images \<or> until \<le> now then ret_n images
        else image_loop fuel env fs start until (Some images))))"

fun take_files :: "nm_file list \<Rightarrow> image option list \<Rightarrow> string option \<times> bool \<times> nm_file list \<times> image option list" where
  "take_files [] images = (None, False, [], images)"
| "take_files (f # fs) images =
     (let img = (case images of [] \<Rightarrow> None | i # _ \<Rightarrow> i)
      in if img = nf_before f
         then (case take_files fs (drop 1 images) of (bad, changed, fs', rest) \<Rightarrow> (bad, changed, f # fs', rest))
         else if (case img of None \<Rightarrow> False | Some i \<Rightarrow> holds_credentials (im_bytes i))
         then (Some (nf_path f), True, f # fs, drop 1 images)
         else (case take_files fs (drop 1 images) of
                 (bad, _, fs', rest) \<Rightarrow> (bad, True, f\<lparr>nf_before := img\<rparr> # fs', rest)))"

fun take_images :: "nm_change list \<Rightarrow> image option list \<Rightarrow> string option \<times> bool \<times> nm_change list" where
  "take_images [] images = (None, False, [])"
| "take_images (c # cs) images =
     (case take_files (nm_files c) images of
        (Some bad, changed, fs, _) \<Rightarrow> (Some bad, changed, c\<lparr>nm_files := fs\<rparr> # cs)
      | (None, changed, fs, rest) \<Rightarrow>
          (case take_images cs rest of (bad, later, cs') \<Rightarrow> (bad, changed \<or> later, c\<lparr>nm_files := fs\<rparr> # cs')))"

definition written_back :: "nm_change list \<Rightarrow> bool" where
  "written_back changes =
     list_ex (\<lambda>c. list_ex (\<lambda>f. starts_with ''/etc/netplan/'' (nf_path f) \<and> nf_before f \<noteq> None) (nm_files c)) changes"

definition keep_images :: "nm_change list \<Rightarrow> image option list \<Rightarrow> ('h, bool) net" where
  "keep_images nm images =
     (case take_images nm images of (bad, changed, nm') \<Rightarrow>
        seq_n (update_job (\<lambda>j. j\<lparr>jn_plan := (jn_plan j)\<lparr>pl_nm := nm'\<rparr>\<rparr>))
          (case bad of
             Some path \<Rightarrow> err_n (unsupported (''unsafe_configuration: '' @ path @ '' holds credentials''))
           | None \<Rightarrow> ret_n changed))"

definition settle_nm_files :: "'h net_env \<Rightarrow> ('h, bool) net" where
  "settle_nm_files env =
     bind_n get_job (\<lambda>j.
       (let nm = pl_nm (jn_plan j)
        in if \<not> written_back nm then ret_n False
           else seq_n (nm_connection env [''reload''] 20)
             (bind_n (now_ms env) (\<lambda>start.
               (let until = min (saturating_add start SETTLE_MS)
                              (case ho_deadline (ne_host env) of None \<Rightarrow> - 1 | Some d \<Rightarrow> d)
                in bind_n (image_loop POLL_FUEL env (concat (map nm_files nm)) start until None) (keep_images nm))))))"

section \<open>Ifupdown\<close>

definition deconfigure_one :: "'h net_env \<Rightarrow> bool \<Rightarrow> string \<Rightarrow> ('h, unit) net" where
  "deconfigure_one env force name =
     bind_n (host_output env Ifdown (if force then [''--force'', name] else [name]) 30000 None) (\<lambda>out.
       if co_code out = 0 then ret_n ()
       else bind_n (host_output env Ifquery [''--state'', name] 5000 None) (\<lambda>state.
         if co_code state \<noteq> 1 then err_n (engine_failed ''deconfigure'' ''ifdown_failed'')
         else bind_n (probe_addresses env) (\<lambda>live.
           bind_n (of_result_n (json_rows live)) (\<lambda>rows.
             if list_ex (\<lambda>l. json_index l ''ifname'' = JString name \<and>
                  (case json_array (json_index l ''addr_info'') of
                     None \<Rightarrow> False
                   | Some xs \<Rightarrow> list_ex (\<lambda>a. json_index a ''scope'' = JString ''global'') xs)) rows
             then err_n (engine_failed ''deconfigure'' ''ifdown_failed'') else ret_n ()))))"

definition deconfigure :: "'h net_env \<Rightarrow> network_profiles \<Rightarrow> bool \<Rightarrow> ('h, unit) net" where
  "deconfigure env p force = each_n (deconfigure_one env force) (rev (names p))"

definition activate_ifupdown :: "'h net_env \<Rightarrow> network_profiles \<Rightarrow> ('h, unit) net" where
  "activate_ifupdown env p = each_n (\<lambda>name. run_unit env Ifup [name] 40) (names p)"

section \<open>Activation\<close>

definition activate ::
  "'h net_env \<Rightarrow> network_profiles \<Rightarrow> network_profiles \<Rightarrow> nm_change list \<Rightarrow> bool \<Rightarrow> ('h, unit) net" where
  "activate env p old nm restore =
     seq_n (case nps_backend p of
              None \<Rightarrow> err_n (unsupported ''unknown_backend'')
            | Some Networkmanager \<Rightarrow> activate_nm env nm restore
            | Some Ifupdown \<Rightarrow> activate_ifupdown env p
            | Some b \<Rightarrow>
                seq_n (when_n (b = Netplan)
                        (seq_n (run env NetplanTool [''generate''] 30) (run_unit env NetplanTool [''apply''] 40)))
                (seq_n (run env Networkctl [''reload''] 20)
                (seq_n (wait_links env p)
                  (seq_n (run_owned env Networkctl ([''reconfigure'', ''--''] @ names p) 30 None) (ret_n ())))))
       (remove_links env old p)"

definition discard_created :: "'h net_env \<Rightarrow> net_plan \<Rightarrow> ('h, unit) net" where
  "discard_created env plan =
     seq_n (when_n (nps_backend (pl_candidate plan) = Some Networkmanager)
             (ignore_n (discard_created_nm env (pl_nm plan))))
       (ignore_n (remove_links env (pl_candidate plan) (pl_previous plan)))"

section \<open>Handoff files\<close>

definition handoff_id_ok :: "string \<Rightarrow> bool" where
  "handoff_id_ok s = (length s = 32 \<and> list_all (\<lambda>b. is_ascii_digit b \<or> (97 \<le> byte b \<and> byte b \<le> 102)) s)"

definition handoff_path :: "network_handoff \<Rightarrow> string \<Rightarrow> (string, api_error) result" where
  "handoff_path source suffix =
     (if \<not> handoff_id_ok (nh_id source) then Inl (engine_invalid ''id'' ''invalid_handoff_id'')
      else Inr (state_directory (nh_product source) @ ''/handoff/'' @ nh_id source @ ''.'' @ suffix))"

definition handoff_marker :: "network_handoff \<Rightarrow> string \<Rightarrow> string" where
  "handoff_marker source name = state_directory (nh_product source) @ ''/'' @ name @ ''.json''"

definition private_read :: "'h net_env \<Rightarrow> (string \<Rightarrow> 'a option) \<Rightarrow> string \<Rightarrow> ('h, 'a option) net" where
  "private_read env decode path =
     bind_n (sense (ne_private_file env path)) (\<lambda>i.
       case i of
         None \<Rightarrow> ret_n None
       | Some i \<Rightarrow>
           (case decode (im_bytes i) of
              None \<Rightarrow> err_n (engine_invalid ''handoff'' ''invalid_document'')
            | Some v \<Rightarrow> ret_n (Some v)))"

definition ownership_of :: "transfer \<Rightarrow> string \<Rightarrow> ownership" where
  "ownership_of t job =
     \<lparr>ow_id = nh_id (tr_source t), ow_receiver = ProductNdimon, ow_transaction = job,
      ow_document_sha256 = tr_document_sha256 t\<rparr>"

definition ownership_image :: "'h net_env \<Rightarrow> ownership \<Rightarrow> (image, api_error) result" where
  "ownership_image env ow =
     (case ne_ownership_text env ow of
        None \<Rightarrow> Inl (engine_failed ''handoff'' ''serialize'')
      | Some text \<Rightarrow> Inr (text_image env text 0x180))"

definition handoff_reserve :: "'h net_env \<Rightarrow> transfer \<Rightarrow> string \<Rightarrow> ('h, unit) net" where
  "handoff_reserve env t job =
     bind_n (of_result_n (ownership_image env (ownership_of t job))) (\<lambda>img.
       replace_file env (handoff_marker (tr_source t) ''external'') (Some img))"

definition handoff_restored :: "'h net_env \<Rightarrow> transfer \<Rightarrow> ('h, unit) net" where
  "handoff_restored env t =
     bind_n (private_read env (ne_ownership_of env) (handoff_marker (tr_source t) ''external'')) (\<lambda>external.
     seq_n (when_n (case external of None \<Rightarrow> False | Some e \<Rightarrow> ow_id e = nh_id (tr_source t))
              (replace_file env (handoff_marker (tr_source t) ''external'') None))
     (bind_n (private_read env (ne_quiesce_of env) (handoff_marker (tr_source t) ''quiesce'')) (\<lambda>q.
        when_n (q = Some (nh_id (tr_source t))) (replace_file env (handoff_marker (tr_source t) ''quiesce'') None))))"

definition handoff_kept :: "'h net_env \<Rightarrow> transfer \<Rightarrow> string \<Rightarrow> ('h, unit) net" where
  "handoff_kept env t job =
     bind_n (private_read env (ne_ownership_of env) (handoff_marker (tr_source t) ''external'')) (\<lambda>external.
       if external \<noteq> Some (ownership_of t job) then err_n (locked ''handoff_commit'')
       else bind_n (of_result_n (handoff_path (tr_source t) ''done'')) (\<lambda>path.
         bind_n (of_result_n (ownership_image env (ownership_of t job))) (\<lambda>img. replace_file env path (Some img))))"

section \<open>What these functions do to the host\<close>

lemma frame_replace [frames]: "(\<And>b. P (EvReplace path img b)) \<Longrightarrow> does (extends P) (replace_file env path img)"
  unfolding replace_file_def by (rule extends_effect)

lemma frame_nm_reads [frames]:
  assumes "reads P"
  shows "does (extends P) (nm_field env uuid field)" "does (extends P) (nm_uuids env)" "does (extends P) (nm_id env uuid)"
    "does (extends P) (nm_failed env uuid before between after)"
proof -
  show field: "does (extends P) (nm_field env uuid field)" for field
    using assms by (auto simp: nm_field_def intro!: frames)
  show "does (extends P) (nm_uuids env)"
    using assms by (auto simp: nm_uuids_def Let_def intro!: frames)
  show ident: "does (extends P) (nm_id env uuid)"
    using field by (auto simp: nm_id_def intro!: frames)
  then show "does (extends P) (nm_failed env uuid before between after)"
    by (auto simp: nm_failed_def intro!: frames)
qed

lemma frame_settle_loop: "does (extends P) body \<Longrightarrow> does (extends P) (settle_loop fuel env body until)"
  by (induction fuel) (auto intro!: frames)

lemma frame_settled [frames]: "does (extends P) body \<Longrightarrow> does (extends P) (nm_settled env body)"
  unfolding nm_settled_def by (auto intro!: frames frame_settle_loop)

lemma frame_differing: "does (extends P) (first_differing env fs)" "does (extends P) (look env fs)"
  by (induction fs) (auto intro!: frames)

lemma frame_differing_fields: "reads P \<Longrightarrow> does (extends P) (differing_fields env uuid wanted others)"
  by (induction others) (auto intro!: frames split: option.split)

lemma frame_verify_fields: "reads P \<Longrightarrow> does (extends P) (verify_fields env change others)"
  by (induction others) (auto intro!: frames split: option.split)

lemma frame_nm_verify [frames]:
  assumes "reads P"
  shows "does (extends P) (verify_files env change)" "does (extends P) (verify_restored env change)"
    "does (extends P) (verify_written env change)"
  using assms unfolding verify_files_def verify_restored_def verify_written_def
  by (auto intro!: frames frame_differing frame_differing_fields frame_verify_fields split: option.split)

text \<open>The files a list of changes may put back, with the images they get.\<close>

definition nm_images :: "nm_change list \<Rightarrow> (string \<times> image option) set" where
  "nm_images cs = (\<Union>c \<in> set cs. (\<lambda>f. (nf_path f, nf_before f)) ` set (nm_files c))"

definition puts :: "(net_event \<Rightarrow> bool) \<Rightarrow> (string \<times> image option) set \<Rightarrow> bool" where
  "puts P S = (\<forall>(path, img) \<in> S. \<forall>b. P (EvReplace path img b))"

lemma puts_mono: "puts P S \<Longrightarrow> T \<subseteq> S \<Longrightarrow> puts P T"
  by (auto simp: puts_def)

lemma nm_images_member: "c \<in> set cs \<Longrightarrow> nm_images [c] \<subseteq> nm_images cs"
  by (auto simp: nm_images_def)

lemma nm_images_filter: "nm_images (filter f cs) \<subseteq> nm_images cs"
  by (auto simp: nm_images_def)

lemma nm_images_Cons: "nm_images (c # cs) = nm_images [c] \<union> nm_images cs"
  by (simp add: nm_images_def)

lemma frame_restore_nm: "puts P ((\<lambda>f. (nf_path f, nf_before f)) ` set fs) \<Longrightarrow> does (extends P) (restore_nm_files env fs changed)"
  by (induction fs arbitrary: changed) (auto simp: puts_def intro!: frames)

lemma frame_restore_reload: "runs P \<Longrightarrow> puts P (nm_images [c]) \<Longrightarrow> does (extends P) (restore_reload env c)"
  unfolding restore_reload_def nm_connection_def by (auto simp: nm_images_def intro!: frames frame_restore_nm)

lemma frame_discard_each:
  "runs P \<Longrightarrow> puts P (nm_images cs) \<Longrightarrow> does (extends P) (discard_each env present cs reload)"
proof (induction cs arbitrary: reload)
  case (Cons c cs)
  then have "puts P (nm_images [c])" "puts P (nm_images cs)"
    by (auto simp: nm_images_Cons [of c cs] intro: puts_mono)
  then show ?case
    using Cons by (auto simp: nm_connection_def nm_images_def intro!: frames frame_restore_nm)
qed (auto intro!: frames)

lemma frame_activate_change:
  assumes "runs P" "puts P (nm_images [c])"
  shows "does (extends P) (activate_change env present restore c)"
  using assms unfolding activate_change_def nm_connection_def add_vlan_def
  by (auto intro!: frames frame_restore_reload split: option.split)

lemma frame_nm_changes [frames]:
  assumes "runs P" "puts P (nm_images cs)"
  shows "does (extends P) (activate_nm env cs restore)" "does (extends P) (discard_created_nm env cs)"
  using assms puts_mono [OF assms(2) nm_images_member] puts_mono [OF assms(2) nm_images_filter]
  unfolding activate_nm_def discard_created_nm_def nm_connection_def
  by (auto intro!: frames frame_activate_change frame_discard_each)

lemma frame_prune:
  assumes "reads P" "\<And>c. c \<in> set (pl_nm plan) \<Longrightarrow> nm_remove_after_commit c \<Longrightarrow>
    allows P Nmcli [''connection'', ''delete'', ''uuid'', nm_uuid c] None"
  shows "does (extends P) (prune_nm env plan)"
  using assms unfolding prune_nm_def nm_connection_def by (auto intro!: frames)

lemma frame_ifupdown [frames]:
  assumes "runs P"
  shows "does (extends P) (deconfigure env p force)" "does (extends P) (activate_ifupdown env p)"
  using assms unfolding deconfigure_def deconfigure_one_def activate_ifupdown_def by (auto intro!: frames)

lemma frame_activate [frames]:
  assumes "runs P" "puts P (nm_images nm)"
  shows "does (extends P) (activate env p old nm restore)"
  using assms unfolding activate_def by (auto intro!: frames split: option.split network_backend.split)

lemma frame_discard [frames]:
  assumes "runs P" "puts P (nm_images (pl_nm plan))"
  shows "does (extends P) (discard_created env plan)"
  using assms unfolding discard_created_def by (auto intro!: frames)

lemma frame_image_loop: "does (extends P) (image_loop fuel env fs start until seen)"
  by (induction fuel arbitrary: seen) (auto intro!: frames frame_differing)

text \<open>Settling changes the images of the profile files, not which connections and files there are.\<close>

definition nm_shape :: "nm_change list \<Rightarrow> (string \<times> bool \<times> string list) list" where
  "nm_shape cs = map (\<lambda>c. (nm_uuid c, nm_remove_after_commit c, map nf_path (nm_files c))) cs"

lemma take_files_paths: "take_files fs images = (bad, changed, fs', rest) \<Longrightarrow> map nf_path fs' = map nf_path fs"
  by (induction fs images arbitrary: bad changed fs' rest rule: take_files.induct)
     (auto simp: Let_def split: if_splits prod.splits option.splits)

lemma take_images_shape: "take_images cs images = (bad, changed, cs') \<Longrightarrow> nm_shape cs' = nm_shape cs"
  by (induction cs images arbitrary: bad changed cs' rule: take_images.induct)
     (auto simp: nm_shape_def dest: take_files_paths split: prod.splits option.splits)

section \<open>Handoff files\<close>

text \<open>The files a transfer leaves with its source: the reservation and the quiescence, and the receipt.\<close>

definition handoff_markers :: "transfer \<Rightarrow> string set" where
  "handoff_markers t = {handoff_marker (tr_source t) ''external'', handoff_marker (tr_source t) ''quiesce''}"

lemma frame_private [frames]: "does (extends P) (private_read env decode path)"
  unfolding private_read_def by (auto intro!: frames split: option.split)

lemma frame_reserve:
  "(\<And>img b. P (EvReplace (handoff_marker (tr_source t) ''external'') (Some img) b)) \<Longrightarrow>
   does (extends P) (handoff_reserve env t job)"
  unfolding handoff_reserve_def by (auto intro!: frames)

lemma frame_restored:
  "(\<And>path b. path \<in> handoff_markers t \<Longrightarrow> P (EvReplace path None b)) \<Longrightarrow> does (extends P) (handoff_restored env t)"
  unfolding handoff_restored_def by (auto simp: handoff_markers_def intro!: frames)

lemma does_result: "(\<And>x. r = Inr x \<Longrightarrow> does (extends P) (f x)) \<Longrightarrow> does (extends P) (bind_n (of_result_n r) f)"
  by (cases r) (auto simp: does_def bind_n_def of_result_n_def extends_def)

lemma frame_kept:
  "(\<And>path img b. handoff_path (tr_source t) ''done'' = Inr path \<Longrightarrow> P (EvReplace path (Some img) b)) \<Longrightarrow>
   does (extends P) (handoff_kept env t job)"
  unfolding handoff_kept_def by (auto intro!: frame_private does_result ext.does_err ext.does_bind frame_replace)

end
