(* ===== verification/Net_Engine.thy ===== *)
theory Net_Engine
  imports Net_Backends
begin

text \<open>
  The network engine's transactions (ndimon-netengine/src/engine.rs): a change is staged in a journal,
  applied by a timer's job, kept by a confirmation that replaces the authority's decision, and otherwise
  reverted by the guard timer, at boot, or on request.

  A store file is read and written as the code does it, with every outcome a write can have; the journal
  an operation has read or built is \<open>nw_job\<close>, which recovery and the apply job change in place.
\<close>

section \<open>Constants\<close>

definition CONFIRM_MS :: u64 where "CONFIRM_MS = 60000"
definition APPLY_MS :: u64 where "APPLY_MS = 90000"
definition GUARD_MS :: u64 where "GUARD_MS = 180000"
definition PRIVD :: string where "PRIVD = ''/usr/libexec/ndimon/ndimon-privd''"
definition LEGACY_PENDING :: string where "LEGACY_PENDING = ''/var/lib/ndimon/net/pending/state.json''"

section \<open>The store\<close>

definition store_lock :: "'h net_env \<Rightarrow> ('h, unit) net" where
  "store_lock env = sense (ne_store_lock env)"

definition store_read :: "'h net_env \<Rightarrow> string \<Rightarrow> ('h net_world \<Rightarrow> 'a) \<Rightarrow> ('h, 'a) net" where
  "store_read env name field w =
     (case ne_store_fault env name (nw_host w) of
        (Some e, h) \<Rightarrow> (Inl e, w\<lparr>nw_host := h\<rparr>)
      | (None, h) \<Rightarrow> (Inr (field w), w\<lparr>nw_host := h\<rparr>))"

definition read_pending :: "'h net_env \<Rightarrow> ('h, journal option) net" where
  "read_pending env = store_read env ''pending'' nw_pending"

definition read_last :: "'h net_env \<Rightarrow> ('h, last_outcome option) net" where
  "read_last env = store_read env ''last'' nw_last"

definition store_write ::
  "'h net_env \<Rightarrow> string \<Rightarrow> ('h net_world \<Rightarrow> 'h net_world) \<Rightarrow> ('h, unit) net" where
  "store_write env name put w =
     (case ne_store_write env name (nw_host w) of
        (Written, h) \<Rightarrow> (Inr (), put (w\<lparr>nw_host := h\<rparr>))
      | (NotWritten e, h) \<Rightarrow> (Inl e, w\<lparr>nw_host := h\<rparr>)
      | (WrittenUnsure e, h) \<Rightarrow> (Inl e, put (w\<lparr>nw_host := h\<rparr>)))"

definition write_pending :: "'h net_env \<Rightarrow> journal \<Rightarrow> ('h, unit) net" where
  "write_pending env j = store_write env ''pending'' (\<lambda>w. w\<lparr>nw_pending := Some j\<rparr>)"

definition remove_journal :: "'h net_env \<Rightarrow> ('h, unit) net" where
  "remove_journal env = store_write env ''pending'' (\<lambda>w. w\<lparr>nw_pending := None\<rparr>)"

definition write_last :: "'h net_env \<Rightarrow> last_outcome \<Rightarrow> ('h, unit) net" where
  "write_last env l = store_write env ''last'' (\<lambda>w. w\<lparr>nw_last := Some l\<rparr>)"

text \<open>\<open>self.store.write("pending", &j)\<close> of the journal in memory.\<close>

definition save_job :: "'h net_env \<Rightarrow> ('h, unit) net" where
  "save_job env = bind_n get_job (write_pending env)"

definition load_decision :: "'h net_env \<Rightarrow> ('h, network_commit) net" where
  "load_decision env = sense (ne_load env)"

definition compare_commit :: "'h net_env \<Rightarrow> network_commit \<Rightarrow> network_commit \<Rightarrow> ('h, unit) net" where
  "compare_commit env expected next' = effect (EvDecide expected next') (ne_compare_and_commit env expected next')"

section \<open>Tokens and addresses\<close>

definition matches :: "string \<Rightarrow> string \<Rightarrow> bool" where
  "matches secret v = (length v = 64 \<and> secret = v)"

definition mapped :: "ip_addr \<Rightarrow> ipv4 option" where
  "mapped a =
     (case a of V4 x \<Rightarrow> Some x | V6 x \<Rightarrow> to_ipv4_mapped x)"

definition runtime :: "string \<Rightarrow> bool" where
  "runtime path =
     (path = BINDING \<or> path = TESSERA_BINDING \<or> path = BANNER \<or> ends_with ''70-ndimon-network.conf'' path)"

definition recovery_failure :: "journal \<Rightarrow> api_error" where
  "recovery_failure j =
     ApplyFailed DNetwork ''recover''
       (case jn_recovery_error j of Some e \<Rightarrow> error_text e | None \<Rightarrow> ''recovery_pending'')"

section \<open>The decision\<close>

definition next_commit :: "journal \<Rightarrow> (network_commit, api_error) result" where
  "next_commit j =
     (case checked_add (nc_revision (jn_base j)) 1 of
        None \<Rightarrow> Inl (engine_invalid ''network.revision'' ''revision_overflow'')
      | Some r \<Rightarrow>
          Inr \<lparr>nc_version = 1, nc_revision = r, nc_profiles = pl_candidate (jn_plan j),
               nc_metadata = pl_metadata (jn_plan j), nc_transaction = Some (jn_job_id j),
               nc_network_commit_revision = Some r\<rparr>)"

definition engine_committed :: "'h net_env \<Rightarrow> journal \<Rightarrow> ('h, bool) net" where
  "engine_committed env j =
     (if jn_operation j = OpSyncTessera then ret_n (jn_phase j = PhConfirmed)
      else bind_n (load_decision env) (\<lambda>actual.
        bind_n (of_result_n (next_commit j)) (\<lambda>expected.
          if nc_revision actual < nc_revision expected then ret_n False
          else ret_n (actual = expected\<lparr>nc_revision := nc_revision actual\<rparr>))))"

section \<open>Timers\<close>

definition timer_unit :: "string \<Rightarrow> journal \<Rightarrow> string" where
  "timer_unit kind j =
     ''ndimon-network-'' @ kind @ ''-'' @ jn_job_id j @
     (if kind = ''window'' then ''-'' @ dec (unat (jn_timer_generation j)) else [])"

definition schedule_args :: "journal \<Rightarrow> string \<Rightarrow> u64 \<Rightarrow> bool \<Rightarrow> string list" where
  "schedule_args j kind delay_ms repeat =
     [''--quiet'', ''--collect'', ''--unit='' @ timer_unit kind j,
      ''--on-active='' @ dec (unat (max delay_ms 1)) @ ''ms'', ''--timer-property=AccuracySec=100ms'',
      ''--timer-property=RandomizedDelaySec=0'', ''--property=RuntimeMaxSec=90s'', ''--property=TimeoutStopSec=2s'',
      ''--property=KillMode=control-group'', ''--property=NoNewPrivileges=yes'', ''--property=ProtectClock=yes'',
      ''--property=CapabilityBoundingSet=~CAP_SYS_TIME''] @
     (if repeat then [''--on-unit-inactive=10s''] else []) @
     [''--'', PRIVD, ''network-job'', if kind = ''apply'' then ''apply'' else ''recover'', jn_job_id j]"

definition schedule :: "'h net_env \<Rightarrow> journal \<Rightarrow> string \<Rightarrow> u64 \<Rightarrow> bool \<Rightarrow> ('h, unit) net" where
  "schedule env j kind delay_ms repeat =
     seq_n (run_owned env SystemdRun (schedule_args j kind delay_ms repeat) 15 None) (ret_n ())"

text \<open>\<open>arm_window\<close> and \<open>arm_retry\<close> work on the journal in memory.\<close>

definition arm_window :: "'h net_env \<Rightarrow> ('h, unit) net" where
  "arm_window env =
     bind_n get_job (\<lambda>j.
       case checked_add (jn_timer_generation j) 1 of
         None \<Rightarrow> err_n (engine_failed ''timer'' ''generation_overflow'')
       | Some g \<Rightarrow>
           (let j' = j\<lparr>jn_timer_generation := g\<rparr>
            in seq_n (set_job j')
               (seq_n (save_job env)
                 (bind_n (now_ms env) (\<lambda>now.
                   schedule env j' ''window'' (saturating_sub (jn_deadline_ms j') now) True)))))"

definition arm_retry :: "'h net_env \<Rightarrow> ('h, unit) net" where
  "arm_retry env =
     bind_n get_job (\<lambda>j.
     bind_n (active env (''ndimon-network-retry-'' @ jn_job_id j @ ''.timer'')) (\<lambda>armed.
       if armed then ret_n () else schedule env j ''retry'' 10000 True))"

definition stop_timers :: "'h net_env \<Rightarrow> journal \<Rightarrow> ('h, unit) net" where
  "stop_timers env j =
     seq_n (each_n (\<lambda>kind. ignore_n (run env Systemctl
               [''stop'', ''--no-block'', ''ndimon-network-'' @ kind @ ''-'' @ jn_job_id j @ ''.timer''] 8))
             [''apply'', ''guard'', ''retry''])
       (each_n (\<lambda>g. ignore_n (run env Systemctl
               [''stop'', ''--no-block'', ''ndimon-network-window-'' @ jn_job_id j @ ''-'' @ dec g @ ''.timer''] 8))
             [1..<Suc (unat (jn_timer_generation j))])"

section \<open>Endings\<close>

definition outcome_of :: "journal \<Rightarrow> network_phase \<Rightarrow> last_outcome" where
  "outcome_of j phase = \<lparr>lo_token = jn_token j, lo_phase = phase, lo_apply_error = jn_apply_error j\<rparr>"

definition close_journal :: "'h net_env \<Rightarrow> journal \<Rightarrow> last_outcome \<Rightarrow> ('h, unit) net" where
  "close_journal env j l =
     seq_n (write_last env l) (seq_n (remove_journal env) (stop_timers env j))"

definition finish_unmodified :: "'h net_env \<Rightarrow> journal \<Rightarrow> network_phase \<Rightarrow> ('h, unit) net" where
  "finish_unmodified env j outcome' =
     seq_n (case jn_handoff j of None \<Rightarrow> ret_n () | Some t \<Rightarrow> handoff_restored env t)
       (close_journal env j (outcome_of j outcome'))"

definition finish_committed :: "'h net_env \<Rightarrow> journal \<Rightarrow> ('h, unit) net" where
  "finish_committed env j =
     seq_n (case jn_handoff j of None \<Rightarrow> ret_n () | Some t \<Rightarrow> handoff_kept env t (jn_job_id j))
     (seq_n (prune_nm env (jn_plan j))
     (seq_n (when_n (jn_operation j = OpNetwork \<or> jn_operation j = OpHandoff) (replace_file env BANNER None))
       (close_journal env j (outcome_of j PhConfirmed))))"

section \<open>Recovery\<close>

definition slice_file :: "string \<Rightarrow> bool" where
  "slice_file path = ends_with ''.slice'' path"

definition restore_files :: "'h net_env \<Rightarrow> file_change list \<Rightarrow> ('h, unit) net" where
  "restore_files env cs = each_n (\<lambda>c. replace_file env (fc_path c) (fc_before c)) (rev cs)"

definition restore_tables :: "'h net_env \<Rightarrow> journal \<Rightarrow> ('h, unit) net" where
  "restore_tables env j =
     (case jn_handoff j of
        Some t \<Rightarrow>
          seq_n (run env Systemctl [''daemon-reload''] 20)
          (seq_n (run env Systemctl [''start'', ''tesseraaudio.slice''] 20)
            (replace_tables env (hd_nftables_table (tr_document t)) (pl_old_table (jn_plan j)) (tr_source_table t)))
      | None \<Rightarrow> set_table env (pl_old_table (jn_plan j)))"

definition restore_backend :: "'h net_env \<Rightarrow> journal \<Rightarrow> ('h, unit) net" where
  "restore_backend env j =
     (let plan = jn_plan j
      in seq_n (when_n (jn_handoff j \<noteq> None \<and> nps_backend (pl_previous plan) = Some Networkmanager)
                 (run_unit env Nmcli [''connection'', ''reload''] 20))
         (seq_n (activate env (pl_previous plan) (pl_candidate plan) (pl_nm plan) True)
           (case jn_handoff j of
              Some t \<Rightarrow> source_readiness env t plan
            | None \<Rightarrow> seq_n (readiness env (pl_previous plan) (pl_previous_metadata plan) True
                              (nps_backend (nc_profiles (jn_base j)) \<noteq> None)) (ret_n ()))))"

text \<open>The part of a recovery that undoes the change, before the journal goes.\<close>

definition undo :: "'h net_env \<Rightarrow> journal \<Rightarrow> ('h, unit) net" where
  "undo env j =
     (let plan = jn_plan j; files = pl_files plan
      in seq_n (when_n (\<not> jn_media_running j) (stop_consumers env plan True))
         (seq_n (when_n (nps_backend (pl_candidate plan) = Some Ifupdown) (deconfigure env (pl_candidate plan) True))
         (seq_n (when_n (pl_old_table plan \<noteq> None) (slices env))
         (seq_n (restore_files env (filter (\<lambda>c. \<not> runtime (fc_path c) \<and>
                    (jn_handoff j \<noteq> None \<or> \<not> slice_file (fc_path c))) files))
         (seq_n (restore_backend env j)
         (seq_n (restore_tables env j)
         (seq_n (restore_files env (filter (\<lambda>c. runtime (fc_path c) \<or> slice_file (fc_path c)) files))
         (seq_n (when_n (nps_backend (pl_previous plan) = Some Networkmanager \<and> jn_handoff j \<noteq> None)
                  (restore_files env (filter (\<lambda>c. ends_with ''.nmconnection'' (fc_path c)) files)))
         (seq_n (when_n (jn_media_running j) (stop_consumers env plan True))
           (restore_consumers env plan True))))))))))"

definition recover_body :: "'h net_env \<Rightarrow> network_phase \<Rightarrow> ('h, unit) net" where
  "recover_body env outcome' =
     seq_n (arm_retry env)
     (bind_n (budget env (APPLY_MS - 2000)) (\<lambda>host.
      bind_n get_job (\<lambda>j.
        if jn_operation j = OpSyncTessera
        then seq_n (restore_files host (pl_files (jn_plan j)))
             (seq_n (run host Systemctl [''daemon-reload''] 20) (finish_unmodified env j outcome'))
        else
          seq_n (undo host j)
          (seq_n (write_last env (outcome_of j outcome'))
          (seq_n (case jn_handoff j of
                    None \<Rightarrow> ret_n ()
                  | Some t \<Rightarrow>
                      seq_n (update_job (\<lambda>j. j\<lparr>jn_handoff_restored := True\<rparr>))
                      (seq_n (save_job env) (handoff_restored host t)))
          (seq_n (remove_journal env) (stop_timers env j)))))))"

definition recovery_failed :: "'h net_env \<Rightarrow> api_error \<Rightarrow> ('h, unit) net" where
  "recovery_failed env e =
     bind_n get_job (\<lambda>j.
     seq_n (when_n (\<not> jn_handoff_restored j)
              (seq_n (ignore_n (resume_consumers env (jn_plan j)))
                (update_job (\<lambda>j. j\<lparr>jn_media_running := True\<rparr>))))
     (seq_n (update_job (\<lambda>j. j\<lparr>jn_phase := PhFailed, jn_recovery_error := Some e, jn_recovery_pending := True\<rparr>))
     (seq_n (save_job env)
       (bind_n get_job (\<lambda>j. err_n (recovery_failure j))))))"

definition recover_locked :: "'h net_env \<Rightarrow> network_phase \<Rightarrow> ('h, unit) net" where
  "recover_locked env outcome' =
     bind_n get_job (\<lambda>j.
     bind_n (engine_committed env j) (\<lambda>kept.
       if kept then finish_committed env j
       else if jn_phase j = PhStaged \<or> jn_handoff_restored j then finish_unmodified env j outcome'
       else seq_n (update_job (\<lambda>j. j\<lparr>jn_phase := PhReverting, jn_recovery_pending := True, jn_outcome := outcome'\<rparr>))
         (seq_n (save_job env)
           (bind_n (try_n (recover_body env outcome')) (\<lambda>r.
             case r of Inr _ \<Rightarrow> ret_n () | Inl e \<Rightarrow> recovery_failed env e)))))"

section \<open>Reading the network\<close>

definition current_with :: "'h net_env \<Rightarrow> bool \<Rightarrow> ('h, network_commit) net" where
  "current_with env adopt =
     bind_n (sense (ne_migration_needed env)) (\<lambda>legacy.
       if legacy then err_n (locked ''legacy_network_recovery'')
       else bind_n (load_decision env) (\<lambda>c.
         if nc_version c \<noteq> 1 then err_n (engine_invalid ''network.version'' ''invalid_version_revision'')
         else if nps_backend (nc_profiles c) = None
         then bind_n (read_pending env) (\<lambda>j.
                case j of
                  Some j \<Rightarrow> ret_n (c\<lparr>nc_profiles := pl_previous (jn_plan j), nc_metadata := pl_previous_metadata (jn_plan j)\<rparr>)
                | None \<Rightarrow>
                    if \<not> adopt then ret_n c
                    else bind_n (sense (ne_adopt env (ne_host env) (ne_selected_interface env))) (\<lambda>(profiles, metadata).
                      ret_n (c\<lparr>nc_profiles := profiles, nc_metadata := metadata\<rparr>)))
         else bind_n (of_result_n (engine_validate (nc_profiles c) (nc_profiles c))) (\<lambda>_. ret_n c)))"

definition current :: "'h net_env \<Rightarrow> ('h, network_commit) net" where
  "current env = current_with env True"

definition writable :: "'h net_env \<Rightarrow> ('h, unit) net" where
  "writable env =
     bind_n (sense (ne_release_status env)) (\<lambda>s.
       if rs_quiesced s then err_n (locked ''handoff'')
       else if rs_externally_managed s then err_n (locked ''external_owner'')
       else ret_n ())"

definition engine_idle :: "'h net_env \<Rightarrow> ('h, unit) net" where
  "engine_idle env =
     seq_n (writable env)
     (bind_n (sense (ne_store_marker env ''handoff'')) (\<lambda>handoff.
       if handoff then err_n (locked ''pending_transaction'')
       else bind_n (sense (ne_migration_needed env)) (\<lambda>legacy.
         if legacy then err_n (locked ''legacy_network_recovery'')
         else bind_n (read_pending env) (\<lambda>j.
           if j \<noteq> None then err_n (locked ''pending_transaction'')
           else bind_n (sense (ne_present env LEGACY_PENDING)) (\<lambda>old.
             if old then err_n (locked ''legacy_network_recovery'') else ret_n ())))))"

definition certified :: "'h net_env \<Rightarrow> network_profiles \<Rightarrow> bool" where
  "certified env p = (case nps_backend p of None \<Rightarrow> False | Some b \<Rightarrow> b \<in> set (ne_certified_backends env))"

definition div_ceil :: "u64 \<Rightarrow> nat \<Rightarrow> u64" where
  "div_ceil a b = of_nat ((unat a + b - 1) div b)"

definition public :: "'h net_env \<Rightarrow> journal \<Rightarrow> ('h, pending_network) net" where
  "public env j =
     bind_n (boot_id env) (\<lambda>bid.
     bind_n (if bid = jn_boot_id j then bind_n (now_ms env) (\<lambda>now. ret_n (saturating_sub (jn_deadline_ms j) now))
             else ret_n 0) (\<lambda>remaining.
     bind_n (map_err_n (\<lambda>_. engine_failed ''status'' ''deadline_format'') (sense (ne_wall_secs env))) (\<lambda>secs.
       (let wall = saturating_add secs (div_ceil remaining 1000)
        in case (if unat wall < 2 ^ 63 then ne_rfc3339 env (unat wall) else None) of
             None \<Rightarrow> err_n (engine_failed ''status'' ''deadline_format'')
           | Some expires \<Rightarrow>
               ret_n \<lparr>pn_revision = saturating_add (nc_revision (jn_base j)) 1, pn_expires_at = expires,
                      pn_phase = jn_phase j, pn_job_id = jn_job_id j, pn_remaining_seconds = div_ceil remaining 1000,
                      pn_management_address = jn_management_address j,
                      pn_management_port = pl_portal_port (jn_plan j),
                      pn_confirm_policy = nps_confirm_policy (pl_candidate (jn_plan j)),
                      pn_recovery_pending = jn_recovery_pending j, pn_apply_error = jn_apply_error j,
                      pn_recovery_error = jn_recovery_error j\<rparr>))))"

section \<open>Staging\<close>

record preview =
  pv_profiles :: network_profiles
  pv_unchanged :: bool
  pv_affected_roles :: "string list"
  pv_removed_networks :: "string list"
  pv_interruptions :: "string list"
  pv_confirm_policy :: confirm_policy
  pv_confirm_seconds :: u64
  pv_drift :: "drift list"
  pv_changed_paths :: "string list"
  pv_writable :: bool

record stage_result =
  st_unchanged :: bool
  st_pending :: "pending_network option"
  st_token :: "string option"

definition reserve_uuids :: "net_plan \<Rightarrow> net_plan" where
  "reserve_uuids plan =
     plan\<lparr>pl_metadata := (pl_metadata plan)\<lparr>nbm_nm_owned :=
        foldl (\<lambda>owned c.
          (let owned' = (if nm_tag c \<noteq> None \<and> \<not> nm_remove_after_commit c
                         then bt_insert (nm_interface c) (nm_uuid c) owned else owned)
           in if nm_remove_after_commit c then bt_remove (nm_interface c) owned' else owned'))
          (nbm_nm_owned (pl_metadata plan)) (pl_nm plan)\<rparr>\<rparr>"

definition prepare ::
  "'h net_env \<Rightarrow> network_profiles \<Rightarrow> u64 \<Rightarrow> ('h, network_commit \<times> preview \<times> net_plan option) net" where
  "prepare env candidate revision =
     seq_n (engine_idle env)
     (bind_n (current env) (\<lambda>old.
       if revision \<noteq> nc_revision old then err_n (RevisionConflict (nc_revision old))
       else bind_n (of_result_n (engine_validate candidate (nc_profiles old))) (\<lambda>p.
         (let pv = \<lparr>pv_profiles = p, pv_unchanged = (p = nc_profiles old),
                    pv_affected_roles = affected_roles (nc_profiles old) p,
                    pv_removed_networks = map np_id (filter (\<lambda>n. \<not> list_ex (\<lambda>m. np_id m = np_id n) (nps_networks p))
                                                      (nps_networks (nc_profiles old))),
                    pv_interruptions = [], pv_confirm_policy = nps_confirm_policy p, pv_confirm_seconds = 60,
                    pv_drift = [], pv_changed_paths = [], pv_writable = certified env p\<rparr>
          in if pv_unchanged pv then ret_n (old, pv, None)
             else if revision = - 1 then err_n (engine_invalid ''network.revision'' ''revision_overflow'')
             else bind_n (host_plan env (nc_profiles old) p (nc_metadata old) 80) (\<lambda>plan0.
               (let plan = reserve_uuids plan0
                in ret_n (old, pv\<lparr>pv_interruptions := pl_affected_services plan, pv_drift := pl_drift plan,
                                  pv_changed_paths := map fc_path (pl_files plan)\<rparr>, Some plan)))))))"

definition preview_change :: "'h net_env \<Rightarrow> network_profiles \<Rightarrow> u64 \<Rightarrow> ('h, preview) net" where
  "preview_change env candidate expect_revision =
     bind_n (prepare env candidate expect_revision) (\<lambda>(_, pv, _). ret_n pv)"

definition new_journal ::
  "string \<Rightarrow> string \<Rightarrow> network_commit \<Rightarrow> net_plan \<Rightarrow> string \<Rightarrow> u64 \<Rightarrow> network_session_path option \<Rightarrow>
   transfer option \<Rightarrow> journal" where
  "new_journal token job base plan bid now session handoff =
     \<lparr>jn_version = 1, jn_operation = (if handoff \<noteq> None then OpHandoff else OpNetwork), jn_job_id = job,
      jn_token = token, jn_base = base, jn_plan = plan, jn_phase = PhStaged, jn_boot_id = bid,
      jn_deadline_ms = saturating_add now GUARD_MS, jn_applied_ms = None, jn_management_address = None,
      jn_recovery_pending = False, jn_outcome = PhExpired, jn_apply_error = None, jn_recovery_error = None,
      jn_session = session, jn_timer_generation = 0, jn_handoff = handoff, jn_handoff_restored = False,
      jn_media_running = False\<rparr>"

text \<open>A step of staging whose failure takes the journal back.\<close>

definition or_withdraw :: "'h net_env \<Rightarrow> journal \<Rightarrow> ('h, unit) net \<Rightarrow> ('h, unit) net" where
  "or_withdraw env j m =
     bind_n (try_n m) (\<lambda>r.
       case r of Inr _ \<Rightarrow> ret_n () | Inl e \<Rightarrow> seq_n (finish_unmodified env j PhFailed) (err_n e))"

definition stage_transaction ::
  "'h net_env \<Rightarrow> network_commit \<Rightarrow> net_plan \<Rightarrow> network_session_path option \<Rightarrow> transfer option \<Rightarrow> ('h, stage_result) net" where
  "stage_transaction env base plan session handoff =
     bind_n (sense (ne_random_id env)) (\<lambda>token.
     bind_n (sense (ne_random_id env)) (\<lambda>job.
     bind_n (boot_id env) (\<lambda>bid.
     bind_n (now_ms env) (\<lambda>now.
       (let j = new_journal token job base plan bid now session handoff
        in seq_n (set_job j)
           (seq_n (write_pending env j)
           (seq_n (case handoff of None \<Rightarrow> ret_n () | Some t \<Rightarrow> or_withdraw env j (handoff_reserve env t job))
           (seq_n (or_withdraw env j (schedule env j ''guard'' 180000 True))
           (seq_n (or_withdraw env j (schedule env j ''apply'' 3000 False))
             (bind_n (public env j) (\<lambda>pending.
               ret_n \<lparr>st_unchanged = False, st_pending = Some pending, st_token = Some token\<rparr>)))))))))))"

definition unchanged_stage :: stage_result where
  "unchanged_stage = \<lparr>st_unchanged = True, st_pending = None, st_token = None\<rparr>"

definition engine_stage ::
  "'h net_env \<Rightarrow> network_profiles \<Rightarrow> u64 \<Rightarrow> network_session_path option \<Rightarrow> ('h, stage_result) net" where
  "engine_stage env candidate expect_revision session =
     bind_n (prepare env candidate expect_revision) (\<lambda>(_, pv, _).
       if pv_unchanged pv then ret_n unchanged_stage
       else if \<not> pv_writable pv then err_n (unsupported ''backend_not_certified'')
       else bind_n (active env ''ndimon-net-boot.service'') (\<lambda>booted.
         seq_n (when_n (\<not> booted) (run_unit env Systemctl [''start'', ''ndimon-net-boot.service''] 90))
         (seq_n (store_lock env)
           (bind_n (prepare env candidate expect_revision) (\<lambda>(_, pv, plan).
             if pv_unchanged pv then ret_n unchanged_stage
             else (case plan of
                     None \<Rightarrow> err_n (engine_failed ''stage'' ''missing_plan'')
                   | Some plan \<Rightarrow>
                       bind_n (load_decision env) (\<lambda>base.
                         if nc_revision base \<noteq> expect_revision then err_n (RevisionConflict (nc_revision base))
                         else stage_transaction env base plan session None)))))))"

definition commit_handoff ::
  "'h net_env \<Rightarrow> network_handoff \<Rightarrow> impact_token \<Rightarrow> network_session_path option \<Rightarrow> ('h, stage_result) net" where
  "commit_handoff env source expect_impact session =
     seq_n (store_lock env)
     (seq_n (sense (ne_source_lock env source))
       (bind_n (sense (ne_handoff_plan env source)) (\<lambda>(impact, base, plan, t).
         if im_token impact \<noteq> expect_impact then err_n (ConfirmationRequired impact)
         else stage_transaction env base plan session (Some t))))"

section \<open>Deciding\<close>

definition matching :: "'h net_env \<Rightarrow> string \<Rightarrow> ('h, journal) net" where
  "matching env token =
     (if \<not> valid_id token then err_n (engine_invalid ''token'' ''invalid_token'')
      else bind_n (read_pending env) (\<lambda>j.
        case j of
          None \<Rightarrow>
            bind_n (read_last env) (\<lambda>l.
              case l of
                Some l \<Rightarrow> if lo_phase l = PhExpired \<and> matches (lo_token l) token then err_n Expired else err_n NotPending
              | None \<Rightarrow> err_n NotPending)
        | Some j \<Rightarrow> if matches (jn_token j) token then ret_n j else err_n TokenMismatch))"

definition pending :: "'h net_env \<Rightarrow> string \<Rightarrow> ('h, pending_network) net" where
  "pending env token = bind_n (matching env token) (public env)"

definition lock_source :: "'h net_env \<Rightarrow> journal \<Rightarrow> ('h, unit) net" where
  "lock_source env j = (case jn_handoff j of None \<Rightarrow> ret_n () | Some t \<Rightarrow> sense (ne_source_lock env (tr_source t)))"

text \<open>Whether the journal is of another boot or past its deadline.\<close>

definition elapsed :: "'h net_env \<Rightarrow> journal \<Rightarrow> ('h, bool) net" where
  "elapsed env j =
     bind_n (boot_id env) (\<lambda>bid.
       if jn_boot_id j \<noteq> bid then ret_n True else bind_n (now_ms env) (\<lambda>now. ret_n (jn_deadline_ms j \<le> now)))"

definition session_allowed :: "'h net_env \<Rightarrow> journal \<Rightarrow> ip_addr option \<Rightarrow> ('h, unit) net" where
  "session_allowed env j local_address =
     (if nps_confirm_policy (pl_candidate (jn_plan j)) = RequireManagementAddress
      then (let local = (case Option.bind local_address mapped of
                           None \<Rightarrow> None | Some a \<Rightarrow> if is_loopback a then None else Some a)
            in if local = None \<or> local \<noteq> jn_management_address j then err_n WrongAddress
               else bind_n (management_address env (pl_candidate (jn_plan j))) (\<lambda>here.
                 if local \<noteq> here then err_n WrongAddress else ret_n ()))
      else ret_n ())"

definition engine_decide :: "'h net_env \<Rightarrow> journal \<Rightarrow> ('h, network_commit) net" where
  "engine_decide env j =
     bind_n (of_result_n (next_commit j)) (\<lambda>next'.
     bind_n (try_n (compare_commit env (jn_base j) next')) (\<lambda>r.
       seq_n (case r of
                Inr _ \<Rightarrow> ret_n ()
              | Inl e \<Rightarrow> bind_n (engine_committed env j) (\<lambda>kept. if kept then ret_n () else err_n e))
       (seq_n (update_job (\<lambda>j. j\<lparr>jn_phase := PhConfirmed\<rparr>))
       (seq_n (ignore_n (save_job env))
       (bind_n get_job (\<lambda>j. seq_n (ignore_n (finish_committed env j)) (ret_n next')))))))"

definition confirm :: "'h net_env \<Rightarrow> string \<Rightarrow> ip_addr option \<Rightarrow> ('h, network_commit) net" where
  "confirm env token local_address =
     (if \<not> valid_id token then err_n (engine_invalid ''token'' ''invalid_token'')
      else seq_n (store_lock env)
        (bind_n (matching env token) (\<lambda>j.
         seq_n (set_job j)
         (seq_n (lock_source env j)
         (bind_n (engine_committed env j) (\<lambda>kept.
           if kept then seq_n (finish_committed env j) (err_n NotPending)
           else if jn_recovery_pending j then err_n (recovery_failure j)
           else bind_n (elapsed env j) (\<lambda>late.
             if late then seq_n (recover_locked env PhExpired) (err_n Expired)
             else if jn_phase j \<noteq> PhApplied then err_n StillApplying
             else seq_n (session_allowed env j local_address) (engine_decide env j))))))))"

definition revert :: "'h net_env \<Rightarrow> string \<Rightarrow> ('h, unit) net" where
  "revert env token =
     (if \<not> valid_id token then err_n (engine_invalid ''token'' ''invalid_token'')
      else seq_n (store_lock env)
        (bind_n (matching env token) (\<lambda>j.
         seq_n (set_job j)
         (seq_n (lock_source env j)
         (bind_n (engine_committed env j) (\<lambda>kept.
           if kept then seq_n (finish_committed env j) (err_n NotPending)
           else recover_locked env PhReverted))))))"

definition engine_rollback :: "'h net_env \<Rightarrow> ('h, unit) net" where
  "engine_rollback env =
     seq_n (store_lock env)
     (bind_n (read_pending env) (\<lambda>j.
       case j of
         None \<Rightarrow> ret_n ()
       | Some j \<Rightarrow> seq_n (set_job j) (seq_n (lock_source env j) (recover_locked env PhReverted))))"

section \<open>Accepting what is there\<close>

record unrestored =
  ur_path :: string
  ur_reason :: string

record accepted =
  ac_apply_error :: "api_error option"
  ac_recovery_error :: "api_error option"
  ac_unrestored :: "unrestored list"

text \<open>Each step is tried; what fails is noted.\<close>

definition noted :: "string \<Rightarrow> ('h, unit) net \<Rightarrow> unrestored list \<Rightarrow> ('h, unrestored list) net" where
  "noted path m notes =
     bind_n (try_n m) (\<lambda>r.
       ret_n (case r of Inr _ \<Rightarrow> notes | Inl e \<Rightarrow> notes @ [\<lparr>ur_path = path, ur_reason = error_text e\<rparr>]))"

fun noted_files :: "'h net_env \<Rightarrow> file_change list \<Rightarrow> unrestored list \<Rightarrow> ('h, unrestored list) net" where
  "noted_files env [] notes = ret_n notes"
| "noted_files env (c # cs) notes =
     bind_n (noted (fc_path c) (replace_file env (fc_path c) (fc_before c)) notes) (noted_files env cs)"

definition give_up :: "'h net_env \<Rightarrow> journal \<Rightarrow> ('h, unrestored list) net" where
  "give_up host j =
     (let plan = jn_plan j; files = rev (pl_files plan)
      in seq_n (ignore_n (stop_consumers host plan True))
         (seq_n (when_n (pl_old_table plan \<noteq> None) (ignore_n (slices host)))
         (bind_n (noted_files host (filter (\<lambda>c. \<not> runtime (fc_path c) \<and> \<not> slice_file (fc_path c)) files) []) (\<lambda>notes.
          bind_n (noted ''nftables table ndimon_management'' (set_table host (pl_old_table plan)) notes) (\<lambda>notes.
          bind_n (noted_files host (filter (\<lambda>c. runtime (fc_path c) \<or> slice_file (fc_path c)) files) notes) (\<lambda>notes.
            seq_n (discard_created host plan)
            (seq_n (ignore_n (resume_consumers host plan)) (ret_n notes))))))))"

definition accept_current :: "'h net_env \<Rightarrow> ('h, accepted) net" where
  "accept_current env =
     seq_n (store_lock env)
     (bind_n (read_pending env) (\<lambda>j.
       case j of
         None \<Rightarrow> err_n NotPending
       | Some j \<Rightarrow>
           seq_n (set_job j)
           (if jn_handoff j \<noteq> None then err_n (unsupported ''handoff_recovery_cannot_be_accepted'')
            else bind_n (engine_committed env j) (\<lambda>kept.
              if kept then seq_n (finish_committed env j) (err_n NotPending)
              else if \<not> (jn_recovery_pending j \<and> jn_phase j = PhFailed) then err_n (locked ''recovery_not_failed'')
              else bind_n (budget env (APPLY_MS - 2000)) (\<lambda>host.
                bind_n (give_up host j) (\<lambda>notes.
                  seq_n (close_journal env j
                          \<lparr>lo_token = jn_token j, lo_phase = PhFailed,
                           lo_apply_error = (case jn_recovery_error j of Some e \<Rightarrow> Some e | None \<Rightarrow> jn_apply_error j)\<rparr>)
                    (ret_n \<lparr>ac_apply_error = jn_apply_error j, ac_recovery_error = jn_recovery_error j,
                            ac_unrestored = notes\<rparr>)))))))"

section \<open>Applying\<close>

definition engine_preflight :: "'h net_env \<Rightarrow> journal \<Rightarrow> ('h, unit) net" where
  "engine_preflight env j =
     seq_n (when_n (jn_handoff j = None) (check_ownership env))
     (bind_n (load_decision env) (\<lambda>actual.
       if actual \<noteq> jn_base j then bind_n (load_decision env) (\<lambda>now. err_n (RevisionConflict (nc_revision now)))
       else if \<not> certified env (pl_candidate (jn_plan j)) then err_n (unsupported ''backend_not_certified'')
       else (case jn_handoff j of
               None \<Rightarrow> check_plan env (jn_plan j)
             | Some t \<Rightarrow>
                 seq_n (sense (ne_handoff_check env t (jn_job_id j)))
                   (check_plan (env\<lparr>ne_host := (ne_host env)\<lparr>ho_handoff := True,
                       ho_handoff_paths := map ha_path (hd_artifacts (tr_document t))\<rparr>\<rparr>) (jn_plan j)))))"

definition write_files :: "'h net_env \<Rightarrow> file_change list \<Rightarrow> ('h, unit) net" where
  "write_files env cs = each_n (\<lambda>c. replace_file env (fc_path c) (fc_after c)) cs"

definition apply_tables :: "'h net_env \<Rightarrow> journal \<Rightarrow> ('h, unit) net" where
  "apply_tables host j =
     bind_n (of_result_n (firewall (pl_candidate (jn_plan j)) (pl_portal_port (jn_plan j)))) (\<lambda>rules.
     seq_n (map_err_n (\<lambda>_. unsupported ''guard_unavailable'')
              (run_owned host Nft [''--check'', ''-f'', ''-''] 20 (Some rules)))
       (case jn_handoff j of
          Some t \<Rightarrow> replace_tables host (hd_nftables_table (tr_document t)) (Some rules) None
        | None \<Rightarrow> set_table host (Some rules)))"

text \<open>Everything between the durable \<open>applying\<close> journal and the address the change is reached at.\<close>

definition change_host :: "'h net_env \<Rightarrow> journal \<Rightarrow> ('h, ipv4) net" where
  "change_host host j =
     (let plan = jn_plan j; files = pl_files plan; candidate = pl_candidate plan
      in seq_n (stop_consumers host plan False)
         (seq_n (when_n (list_ex (\<lambda>n. np_vlan_id n \<noteq> None) (nps_networks candidate)) (run_unit host Modprobe [''8021q''] 20))
         (seq_n (write_files host (filter (\<lambda>c. slice_file (fc_path c)) files))
         (seq_n (slices host)
         (seq_n (apply_tables host j)
         (seq_n (when_n (nps_backend candidate = Some Ifupdown) (deconfigure host (pl_previous plan) False))
         (seq_n (write_files host (filter (\<lambda>c. \<not> slice_file (fc_path c) \<and> \<not> runtime (fc_path c)) files))
         (seq_n (when_n (jn_handoff j \<noteq> None \<and> nps_backend candidate = Some Networkmanager)
                  (run_unit host Nmcli [''connection'', ''reload''] 20))
         (seq_n (activate host candidate (pl_previous plan) (pl_nm plan) False)
         (seq_n (case jn_handoff j of
                   None \<Rightarrow> ret_n ()
                 | Some t \<Rightarrow> each_n (\<lambda>a. replace_file host (ha_path a) None) (hd_artifacts (tr_document t)))
         (bind_n (readiness host candidate (pl_metadata plan) False True) (\<lambda>address.
            seq_n (arp host candidate)
            (seq_n (write_files host (filter (\<lambda>c. runtime (fc_path c)) files)) (ret_n address))))))))))))))"

definition banner_text :: "ipv4 \<Rightarrow> string" where
  "banner_text address = ''Pending network change: http://'' @ show_ipv4 address @ ''/'' @ [NL]"

fun set_banner :: "image \<Rightarrow> file_change list \<Rightarrow> file_change list option" where
  "set_banner img [] = None"
| "set_banner img (c # cs) =
     (if fc_path c = BANNER then Some (c\<lparr>fc_after := Some img\<rparr> # cs) else map_option ((#) c) (set_banner img cs))"

definition publish_change :: "'h net_env \<Rightarrow> 'h net_env \<Rightarrow> ipv4 \<Rightarrow> ('h, unit) net" where
  "publish_change env host address =
     bind_n get_job (\<lambda>j.
       (let banner = text_image env (banner_text address) 0x1A4
        in case set_banner banner (pl_files (jn_plan j)) of
             None \<Rightarrow> err_n (engine_failed ''publish'' ''missing_banner_snapshot'')
           | Some files \<Rightarrow>
               seq_n (set_job (j\<lparr>jn_plan := (jn_plan j)\<lparr>pl_files := files\<rparr>\<rparr>))
               (seq_n (save_job env)
               (seq_n (replace_file host BANNER (Some banner))
               (seq_n (restore_consumers host ((jn_plan j)\<lparr>pl_files := files\<rparr>) False)
               (seq_n (update_job (\<lambda>j. j\<lparr>jn_management_address := Some address, jn_phase := PhApplied\<rparr>))
               (bind_n (now_ms env) (\<lambda>now.
               seq_n (update_job (\<lambda>j. j\<lparr>jn_applied_ms := Some now, jn_deadline_ms := saturating_add now CONFIRM_MS\<rparr>))
               (seq_n (save_job env) (arm_window env))))))))))"

definition apply_body :: "'h net_env \<Rightarrow> ('h, unit) net" where
  "apply_body env =
     bind_n get_job (\<lambda>j.
     seq_n (engine_preflight env j)
     (seq_n (update_job (\<lambda>j. j\<lparr>jn_phase := PhApplying\<rparr>))
     (seq_n (save_job env)
     (bind_n (budget env (APPLY_MS - 2000)) (\<lambda>host.
      bind_n (if jn_handoff j = None then settle_nm_files host else ret_n False) (\<lambda>settled.
      seq_n (when_n settled (save_job env))
      (bind_n get_job (\<lambda>j.
       bind_n (change_host host j) (\<lambda>address. publish_change env host address)))))))))"

definition apply_failed :: "'h net_env \<Rightarrow> api_error \<Rightarrow> ('h, unit) net" where
  "apply_failed env error =
     bind_n get_job (\<lambda>j.
       if jn_phase j = PhStaged \<and> (case error of Locked _ (Some by') \<Rightarrow> by' = ''state_transaction'' | _ \<Rightarrow> False)
       then err_n error
       else seq_n (update_job (\<lambda>j. j\<lparr>jn_apply_error := Some error, jn_outcome := PhFailed\<rparr>))
         (bind_n get_job (\<lambda>j.
           if jn_phase j = PhStaged then seq_n (finish_unmodified env j PhFailed) (err_n error)
           else seq_n (save_job env) (seq_n (recover_locked env PhFailed) (err_n error)))))"

definition run_apply_job :: "'h net_env \<Rightarrow> string \<Rightarrow> ('h, unit) net" where
  "run_apply_job env job =
     (if \<not> valid_id job then err_n (engine_invalid ''job_id'' ''invalid_job_id'')
      else seq_n (store_lock env)
        (bind_n (read_pending env) (\<lambda>j.
          case j of
            None \<Rightarrow> ret_n ()
          | Some j \<Rightarrow>
              if jn_job_id j \<noteq> job then ret_n ()
              else seq_n (set_job j)
                (seq_n (lock_source env j)
                (bind_n (engine_committed env j) (\<lambda>kept.
                  if kept then finish_committed env j
                  else bind_n (elapsed env j) (\<lambda>late.
                    if late then recover_locked env PhExpired
                    else if jn_phase j \<noteq> PhStaged then ret_n ()
                    else bind_n (try_n (apply_body env)) (\<lambda>r.
                      case r of Inr _ \<Rightarrow> ret_n () | Inl e \<Rightarrow> apply_failed env e))))))))"

section \<open>Timers and boot\<close>

definition run_recovery :: "'h net_env \<Rightarrow> string \<Rightarrow> ('h, unit) net" where
  "run_recovery env job =
     (if \<not> valid_id job then err_n (engine_invalid ''job_id'' ''invalid_job_id'')
      else seq_n (store_lock env)
        (bind_n (ne_migrate env (Some job)) (\<lambda>migrated.
          if migrated then ret_n ()
          else bind_n (read_pending env) (\<lambda>j.
            case j of
              None \<Rightarrow> ret_n ()
            | Some j \<Rightarrow>
                if jn_job_id j \<noteq> job then ret_n ()
                else seq_n (set_job j)
                  (seq_n (lock_source env j)
                  (bind_n (engine_committed env j) (\<lambda>kept.
                    if kept then finish_committed env j
                    else bind_n (elapsed env j) (\<lambda>late.
                      if \<not> late \<and> \<not> jn_recovery_pending j then arm_window env
                      else recover_locked env (if jn_recovery_pending j then jn_outcome j else PhExpired)))))))))"

definition install_guards :: "'h net_env \<Rightarrow> network_commit \<Rightarrow> ('h, unit) net" where
  "install_guards env c =
     seq_n (slices env)
       (bind_n (of_result_n (firewall (nc_profiles c) 80)) (\<lambda>rules. set_table env (Some rules)))"

text \<open>The recovery of a journal found at boot: its own failure is reported, not raised.\<close>

definition boot_recovery :: "'h net_env \<Rightarrow> ('h, string option) net" where
  "boot_recovery env =
     bind_n (try_n (recover_locked env PhExpired)) (\<lambda>r.
       case r of
         Inr _ \<Rightarrow> ret_n None
       | Inl error \<Rightarrow>
           bind_n get_job (\<lambda>j.
             if \<not> (jn_recovery_pending j \<and> jn_phase j = PhFailed) then err_n error
             else bind_n (load_decision env) (\<lambda>c.
               seq_n (when_n (nps_backend (nc_profiles c) \<noteq> None)
                       (seq_n (ignore_n (slices env))
                         (case firewall (nc_profiles c) 80 of
                            Inl _ \<Rightarrow> ret_n ()
                          | Inr rules \<Rightarrow> ignore_n (set_table env (Some rules)))))
                 (ret_n (Some (''recovery_pending: '' @ error_text error))))))"

definition boot_release :: "'h net_env \<Rightarrow> ('h, string option) net" where
  "boot_release env =
     bind_n (sense (ne_store_marker env ''external'')) (\<lambda>reserved.
       if reserved then ret_n None
       else bind_n (load_decision env) (\<lambda>c.
         seq_n (when_n (nps_backend (nc_profiles c) \<noteq> None) (install_guards env c)) (ret_n None)))"

definition boot_network :: "'h net_env \<Rightarrow> ('h, string option) net" where
  "boot_network env =
     bind_n (read_pending env) (\<lambda>j.
     bind_n (case j of
               None \<Rightarrow> ret_n None
             | Some j \<Rightarrow> seq_n (set_job j) (seq_n (lock_source env j) (boot_recovery env))) (\<lambda>report.
       case report of
         Some text \<Rightarrow> ret_n (Some text)
       | None \<Rightarrow>
           bind_n (load_decision env) (\<lambda>c.
             if nps_backend (nc_profiles c) = None then ret_n None
             else seq_n (check_ownership env) (seq_n (install_guards env c) (ret_n None)))))"

definition boot_locked :: "'h net_env \<Rightarrow> ('h, string option) net" where
  "boot_locked env =
     bind_n (ne_complete_release env) (\<lambda>release.
       if rs_externally_managed release then ret_n None
       else if rs_quiesced release then boot_release env
       else bind_n (sense (ne_migration_needed env)) (\<lambda>legacy.
         bind_n (try_n (ne_migrate env None)) (\<lambda>r.
           case r of
             Inl (Unsupported what) \<Rightarrow> if legacy then ret_n (Some what) else err_n (Unsupported what)
           | Inl e \<Rightarrow> err_n e
           | Inr _ \<Rightarrow>
               bind_n (sense (ne_present env LEGACY_PENDING)) (\<lambda>old.
                 if old then err_n (locked ''legacy_network_recovery'') else boot_network env))))"

definition boot_report :: "'h net_env \<Rightarrow> ('h, string option) net" where
  "boot_report env =
     seq_n (store_lock env) (boot_locked (env\<lparr>ne_host := (ne_host env)\<lparr>ho_boot_recovery := True\<rparr>\<rparr>))"

definition engine_boot :: "'h net_env \<Rightarrow> ('h, unit) net" where
  "engine_boot env = seq_n (boot_report env) (ret_n ())"

definition migrate_legacy :: "'h net_env \<Rightarrow> ('h, unit) net" where
  "migrate_legacy env = seq_n (writable env) (seq_n (store_lock env) (seq_n (ne_migrate env None) (ret_n ())))"

section \<open>Smaller operations\<close>

definition tessera_journal :: "network_commit \<Rightarrow> file_change list \<Rightarrow> string \<Rightarrow> string \<Rightarrow> string \<Rightarrow> u64 \<Rightarrow> journal" where
  "tessera_journal c files job token bid now =
     \<lparr>jn_version = 1, jn_operation = OpSyncTessera, jn_job_id = job, jn_token = token, jn_base = c,
      jn_plan = \<lparr>pl_files = files, pl_nm = [], pl_previous = nc_profiles c, pl_candidate = nc_profiles c,
                 pl_previous_metadata = nc_metadata c, pl_metadata = nc_metadata c, pl_old_table = None,
                 pl_active_services = [], pl_affected_services = [], pl_portal_port = 80, pl_drift = []\<rparr>,
      jn_phase = PhApplying, jn_boot_id = bid, jn_deadline_ms = saturating_add now 30000, jn_applied_ms = None,
      jn_management_address = None, jn_recovery_pending = False, jn_outcome = PhFailed, jn_apply_error = None,
      jn_recovery_error = None, jn_session = None, jn_timer_generation = 0, jn_handoff = None,
      jn_handoff_restored = False, jn_media_running = False\<rparr>"

definition sync_body :: "'h net_env \<Rightarrow> ('h, unit) net" where
  "sync_body env =
     bind_n get_job (\<lambda>j.
     seq_n (write_files env (pl_files (jn_plan j)))
     (seq_n (run env Systemctl [''daemon-reload''] 20)
     (seq_n (update_job (\<lambda>j. j\<lparr>jn_phase := PhConfirmed\<rparr>))
     (seq_n (save_job env) (bind_n get_job (finish_committed env))))))"

definition sync_failed :: "'h net_env \<Rightarrow> api_error \<Rightarrow> ('h, unit) net" where
  "sync_failed env e =
     bind_n get_job (\<lambda>j.
     bind_n (engine_committed env j) (\<lambda>kept.
     seq_n (when_n (\<not> kept)
             (seq_n (update_job (\<lambda>j. j\<lparr>jn_apply_error := Some e\<rparr>)) (recover_locked env PhFailed)))
       (err_n e)))"

definition sync_tessera :: "'h net_env \<Rightarrow> ('h, unit) net" where
  "sync_tessera env =
     seq_n (store_lock env)
     (seq_n (engine_idle env)
     (seq_n (check_ownership env)
     (bind_n (load_decision env) (\<lambda>c.
       if nps_backend (nc_profiles c) = None then ret_n ()
       else bind_n (tessera_files env (nc_profiles c) []) (\<lambda>files.
         if files = [] then ret_n ()
         else bind_n (sense (ne_random_id env)) (\<lambda>job.
           bind_n (sense (ne_random_id env)) (\<lambda>token.
           bind_n (boot_id env) (\<lambda>bid.
           bind_n (now_ms env) (\<lambda>now.
             (let j = tessera_journal c files job token bid now
              in seq_n (set_job j)
                 (seq_n (write_pending env j)
                 (bind_n (try_n (arm_retry env)) (\<lambda>r.
                   case r of
                     Inl e \<Rightarrow> seq_n (finish_unmodified env j PhFailed) (err_n e)
                   | Inr _ \<Rightarrow>
                       bind_n (try_n (sync_body env)) (\<lambda>r.
                         case r of Inr _ \<Rightarrow> ret_n () | Inl e \<Rightarrow> sync_failed env e))))))))))))))"

definition check_address :: "'h net_env \<Rightarrow> ipv4 \<Rightarrow> ('h, bool) net" where
  "check_address env address =
     bind_n (current env) (\<lambda>c.
       if \<not> unicast address then err_n (engine_invalid ''address'' ''unusable_unicast_address'')
       else bind_n (of_result_n (assigned (nc_profiles c) (nr_management (nps_roles (nc_profiles c))))) (\<lambda>row.
         bind_n (host_output env Arping
                   [''-D'', ''-I'', ifname (nc_profiles c) row, ''-c'', ''2'', ''-w'', ''3'', show_ipv4 address] 10000 None) (\<lambda>out.
           if co_code out = 0 then ret_n False
           else if co_code out = 1 then ret_n True
           else err_n (engine_failed ''arp'' ''probe_failed''))))"

definition carrying :: "ipv4 option \<Rightarrow> ipv4 option \<Rightarrow> network_profile \<Rightarrow> bool" where
  "carrying local peer n =
     (let a = parse_ipv4 (np_address n)
      in (a = local \<and> a \<noteq> None) \<or>
         (case (a, peer) of
            (Some a, Some peer) \<Rightarrow> 8 \<le> unat (np_prefix n) \<and> unat (np_prefix n) \<le> 30 \<and>
                                  subnet a (np_prefix n) = subnet peer (np_prefix n)
          | _ \<Rightarrow> False))"

definition guard_immediate_session ::
  "'h net_env \<Rightarrow> network_profiles \<Rightarrow> ip_addr \<Rightarrow> ip_addr \<Rightarrow> ('h, unit) net" where
  "guard_immediate_session env candidate session_peer session_local =
     seq_n (writable env)
     (bind_n (current env) (\<lambda>old.
       if list_ex (\<lambda>n. carrying (mapped session_local) (mapped session_peer) n \<and> n \<notin> set (nps_networks candidate))
            (nps_networks (nc_profiles old))
       then err_n (locked ''session_path'')
       else err_n (unsupported ''unsupported_operation'')))"

section \<open>Status\<close>

record network_observed =
  no_id :: string
  no_interface :: string
  no_addresses :: "(ipv4 \<times> u8) list"
  no_used_by :: "string list"

record refusal =
  rf_reason :: string
  rf_detail :: string

record net_status =
  ns_revision :: u64
  ns_domain_revision :: u64
  ns_profiles :: network_profiles
  ns_networks :: "network_observed list"
  ns_pending :: "pending_network option"
  ns_last_phase :: "network_phase option"
  ns_last_error :: "api_error option"
  ns_drift :: "drift list"
  ns_writable :: bool
  ns_externally_managed :: bool
  ns_quiesced :: bool
  ns_stale_done :: "string list"
  ns_refusal :: "refusal option"

definition from_unsupported :: "string \<Rightarrow> refusal" where
  "from_unsupported what =
     (case split_once_str '': '' what of
        None \<Rightarrow> \<lparr>rf_reason = what, rf_detail = []\<rparr>
      | Some (reason, detail) \<Rightarrow> \<lparr>rf_reason = reason, rf_detail = detail\<rparr>)"

definition engine_drift :: "'h net_env \<Rightarrow> network_profiles \<Rightarrow> network_backend_metadata \<Rightarrow> ('h, drift list) net" where
  "engine_drift env observed metadata =
     (case nps_backend observed of
        Some Networkd \<Rightarrow> probe_drift env NetworkdDrift observed metadata
      | Some Netplan \<Rightarrow>
          bind_n (probe_drift env NetworkdDrift observed metadata) (\<lambda>a.
          bind_n (probe_drift env NetplanDrift observed metadata) (\<lambda>b. ret_n (a @ b)))
      | Some Networkmanager \<Rightarrow> probe_drift env NmDrift observed metadata
      | Some Ifupdown \<Rightarrow> probe_drift env IfupdownDrift observed metadata
      | None \<Rightarrow> ret_n [])"

definition domain_revision :: "network_commit \<Rightarrow> u64" where
  "domain_revision c = (case nc_network_commit_revision c of None \<Rightarrow> 0 | Some r \<Rightarrow> r)"

definition observe_port :: "'h net_env \<Rightarrow> ('h, (string \<times> (ipv4 \<times> u8) list) option) net" where
  "observe_port env = sense (\<lambda>h. case ne_observe_port env (ne_selected_interface env) h of (r, h') \<Rightarrow> (Inr r, h'))"

definition refused :: "'h net_env \<Rightarrow> string \<Rightarrow> network_commit \<Rightarrow> bool \<Rightarrow> string list \<Rightarrow> ('h, net_status) net" where
  "refused env what saved quiesced stale_done =
     bind_n (try_n (read_last env)) (\<lambda>l.
     bind_n (observe_port env) (\<lambda>port.
       (let prior = (case l of Inl _ \<Rightarrow> None | Inr x \<Rightarrow> x)
        in ret_n \<lparr>ns_revision = nc_revision saved, ns_domain_revision = domain_revision saved,
             ns_profiles = (case port of None \<Rightarrow> default_network_profiles
                            | Some (interface, _) \<Rightarrow> default_network_profiles\<lparr>nps_interface := interface\<rparr>),
             ns_networks = (case port of None \<Rightarrow> []
                            | Some (interface, addresses) \<Rightarrow>
                                [\<lparr>no_id = ''untagged'', no_interface = interface, no_addresses = addresses,
                                  no_used_by = [''management'']\<rparr>]),
             ns_pending = None, ns_last_phase = map_option lo_phase prior,
             ns_last_error = Option.bind prior lo_apply_error, ns_drift = [], ns_writable = False,
             ns_externally_managed = False, ns_quiesced = quiesced, ns_stale_done = stale_done,
             ns_refusal = Some (from_unsupported what)\<rparr>)))"

definition live_address :: "json \<Rightarrow> (ipv4 \<times> u8) option" where
  "live_address a =
     Option.bind (parse_local a) (\<lambda>ip.
     Option.bind (as_u64 (json_index a ''prefixlen'')) (\<lambda>p. if p < 256 then Some (ip, of_nat p) else None))"

definition observed_row :: "network_profiles \<Rightarrow> json \<Rightarrow> network_profile \<Rightarrow> network_observed" where
  "observed_row observed live n =
     \<lparr>no_id = np_id n, no_interface = ifname observed n,
      no_addresses = List.map_filter live_address
        (interface_addresses (case json_array live of None \<Rightarrow> [] | Some xs \<Rightarrow> xs) (ifname observed n)),
      no_used_by = map fst (filter (\<lambda>(_, i). i = np_id n)
        [(''management'', nr_management (nps_roles observed)), (''ndi'', nr_ndi (nps_roles observed)),
         (''audio'', nr_audio (nps_roles observed))])\<rparr>"

text \<open>Whether a standalone Tessera owns the network nobody has committed.\<close>

definition source_owned :: "'h net_env \<Rightarrow> bool \<Rightarrow> journal option \<Rightarrow> network_commit \<Rightarrow> ('h, bool) net" where
  "source_owned env adopt j saved =
     (if adopt \<and> j = None \<and> nps_backend (nc_profiles saved) = None
      then bind_n (try_n (check_ownership env)) (\<lambda>r.
             case r of
               Inr _ \<Rightarrow> ret_n False
             | Inl (Locked field (Some by')) \<Rightarrow>
                 if by' = ''tessera_standalone'' then ret_n True else err_n (Locked field (Some by'))
             | Inl e \<Rightarrow> err_n e)
      else ret_n False)"

definition external_status :: "network_commit \<Rightarrow> last_outcome option \<Rightarrow> release_status \<Rightarrow> net_status" where
  "external_status c prior release =
     \<lparr>ns_revision = nc_revision c, ns_domain_revision = domain_revision c, ns_profiles = nc_profiles c,
      ns_networks = [], ns_pending = None, ns_last_phase = map_option lo_phase prior,
      ns_last_error = Option.bind prior lo_apply_error, ns_drift = [], ns_writable = False,
      ns_externally_managed = True, ns_quiesced = rs_quiesced release, ns_stale_done = rs_stale_done release,
      ns_refusal = None\<rparr>"

definition observed_status ::
  "'h net_env \<Rightarrow> journal option \<Rightarrow> network_commit \<Rightarrow> last_outcome option \<Rightarrow> release_status \<Rightarrow> ('h, net_status) net" where
  "observed_status env j c prior release =
     (let observed = (case j of Some j \<Rightarrow> pl_candidate (jn_plan j) | None \<Rightarrow> nc_profiles c);
          metadata = (case j of Some j \<Rightarrow> transitional_metadata (jn_plan j) | None \<Rightarrow> nc_metadata c)
      in bind_n (if nps_networks observed = [] then ret_n JNull else probe_addresses env) (\<lambda>live.
         bind_n (try_n (engine_drift env observed metadata)) (\<lambda>d.
         bind_n (case d of
                   Inr drifts \<Rightarrow> ret_n (drifts, None)
                 | Inl (Unsupported what) \<Rightarrow> ret_n ([], Some (from_unsupported what))
                 | Inl e \<Rightarrow> err_n e) (\<lambda>(drifts, ref).
         bind_n (case j of None \<Rightarrow> ret_n None | Some j \<Rightarrow> bind_n (public env j) (\<lambda>p. ret_n (Some p))) (\<lambda>shown.
           ret_n \<lparr>ns_revision = nc_revision c, ns_domain_revision = domain_revision c, ns_profiles = nc_profiles c,
                  ns_networks = map (observed_row observed live) (nps_networks observed), ns_pending = shown,
                  ns_last_phase = map_option lo_phase prior, ns_last_error = Option.bind prior lo_apply_error,
                  ns_drift = drifts,
                  ns_writable = (certified env (nc_profiles c) \<and> \<not> rs_quiesced release \<and> ref = None),
                  ns_externally_managed = False, ns_quiesced = rs_quiesced release,
                  ns_stale_done = rs_stale_done release, ns_refusal = ref\<rparr>)))))"

definition observe_with :: "'h net_env \<Rightarrow> bool \<Rightarrow> ('h, net_status) net" where
  "observe_with env adopt =
     bind_n (sense (ne_release_status env)) (\<lambda>release0.
     bind_n (if rs_externally_managed release0 \<and> rs_quiesced release0
             then seq_n (store_lock env) (ne_complete_release env) else ret_n release0) (\<lambda>release.
     bind_n (read_pending env) (\<lambda>j.
     bind_n (load_decision env) (\<lambda>saved.
     bind_n (source_owned env adopt j saved) (\<lambda>theirs.
     bind_n (try_n (case j of
               Some j' \<Rightarrow>
                 if nps_backend (nc_profiles saved) = None
                 then ret_n (saved\<lparr>nc_profiles := pl_previous (jn_plan j'), nc_metadata := pl_previous_metadata (jn_plan j')\<rparr>)
                 else if rs_externally_managed release \<or> theirs then ret_n saved else current_with env adopt
             | None \<Rightarrow> if rs_externally_managed release \<or> theirs then ret_n saved else current_with env adopt)) (\<lambda>r.
       case r of
         Inl (Unsupported what) \<Rightarrow> refused env what saved (rs_quiesced release) (rs_stale_done release)
       | Inl e \<Rightarrow> err_n e
       | Inr c \<Rightarrow>
           bind_n (read_last env) (\<lambda>prior.
             if rs_externally_managed release \<or> theirs then ret_n (external_status c prior release)
             else observed_status env j c prior release)))))))"

definition engine_status :: "'h net_env \<Rightarrow> ('h, net_status) net" where
  "engine_status env = observe_with env True"

definition engine_observe :: "'h net_env \<Rightarrow> ('h, net_status) net" where
  "engine_observe env = observe_with env False"

end
