(* ===== verification/Net_Samples.thy ===== *)
theory Net_Samples
  imports Net_Engine
begin

text \<open>
  A host on which the theorems about the network engine are applied: its state is the time in
  milliseconds, every command succeeds with no text, every store file can be read and written, and the
  authority holds one decision.
\<close>

definition calm_env :: "network_commit \<Rightarrow> nat net_env" where
  "calm_env c =
     \<lparr>ne_host = \<lparr>ho_deadline = None, ho_handoff = False, ho_handoff_paths = [], ho_boot_recovery = False\<rparr>,
      ne_certified_backends = [], ne_selected_interface = None,
      ne_runner = (\<lambda>spec h. (Inr \<lparr>co_code = 0, co_stdout = [], co_stderr = []\<rparr>, h)),
      ne_now_ms = (\<lambda>h. (if h < 2 ^ 64 then Inr (of_nat h) else Inl NotPending, h)),
      ne_boot_id = (\<lambda>h. (Inr ''boot'', h)), ne_sleep_ms = (\<lambda>ms h. h + unat ms),
      ne_load = (\<lambda>h. (Inr c, h)), ne_compare_and_commit = (\<lambda>a b h. (Inr (), h)),
      ne_random_id = (\<lambda>h. (Inr (replicate 64 CHR ''a''), h)), ne_from_str = (\<lambda>t. None),
      ne_to_string_pretty = (\<lambda>j. Some []), ne_owner = (0, 0), ne_replace = (\<lambda>p i h. (Inr (), h)),
      ne_snapshot = (\<lambda>p h. (Inr None, h)), ne_exists = (\<lambda>p h. (Inr False, h)), ne_present = (\<lambda>p h. (Inr False, h)),
      ne_list = (\<lambda>d s h. (Inr [], h)), ne_proc_net_tcp = (\<lambda>h. (Inr [], h)), ne_store_lock = (\<lambda>h. (Inr (), h)),
      ne_store_fault = (\<lambda>n h. (None, h)), ne_store_write = (\<lambda>n h. (Written, h)),
      ne_store_marker = (\<lambda>n h. (Inr False, h)), ne_migration_needed = (\<lambda>h. (Inr False, h)),
      ne_adopt = (\<lambda>host i h. (Inl NotPending, h)), ne_drift = (\<lambda>host d p m h. (Inr [], h)),
      ne_render = (\<lambda>host b p q m h. (Inr [], h)), ne_plan_nm = (\<lambda>host p q m h. (Inr [], h)),
      ne_check_nm = (\<lambda>host cs h. (Inr (), h)), ne_verify = (\<lambda>host b p m h. (Inr (), h)),
      ne_private_file = (\<lambda>p h. (Inr None, h)), ne_ownership_text = (\<lambda>ow. Some []),
      ne_ownership_of = (\<lambda>t. None), ne_quiesce_of = (\<lambda>t. None),
      ne_source_lock = (\<lambda>s h. (Inr (), h)), ne_handoff_check = (\<lambda>t j h. (Inr (), h)), ne_received = (\<lambda>h. (Inr False, h)),
      ne_wall_secs = (\<lambda>h. (Inr 0, h)), ne_rfc3339 = (\<lambda>n. Some []),
      ne_release_status = (\<lambda>h. (Inr \<lparr>rs_externally_managed = False, rs_quiesced = False, rs_stale_done = []\<rparr>, h)),
      ne_complete_release = ret_n \<lparr>rs_externally_managed = False, rs_quiesced = False, rs_stale_done = []\<rparr>,
      ne_migrate = (\<lambda>j. ret_n False), ne_handoff_plan = (\<lambda>s h. (Inl NotPending, h)),
      ne_observe_port = (\<lambda>i h. (None, h))\<rparr>"

definition calm_commit :: network_commit where
  "calm_commit =
     \<lparr>nc_version = 1, nc_revision = 3, nc_profiles = default_network_profiles, nc_metadata = default_network_backend_metadata,
      nc_transaction = None, nc_network_commit_revision = None\<rparr>"

definition calm_id :: string where
  "calm_id = replicate 64 CHR ''a''"

text \<open>A journal of the Tessera synchronisation with one file, and an applied network change.\<close>

definition sync_journal :: journal where
  "sync_journal =
     tessera_journal calm_commit
       [\<lparr>fc_path = TESSERA_BINDING, fc_before = None,
         fc_after = Some \<lparr>im_bytes = ''x'', im_mode = 420, im_uid = 0, im_gid = 0\<rparr>\<rparr>] calm_id calm_id ''boot'' 0"

definition applied_journal :: journal where
  "applied_journal =
     (new_journal calm_id calm_id calm_commit
        \<lparr>pl_files = [], pl_nm = [], pl_previous = default_network_profiles, pl_candidate = default_network_profiles,
         pl_previous_metadata = default_network_backend_metadata, pl_metadata = default_network_backend_metadata, pl_old_table = None, pl_active_services = [],
         pl_affected_services = [], pl_portal_port = 80, pl_drift = []\<rparr> ''boot'' 0 None None)
     \<lparr>jn_phase := PhApplied, jn_management_address := Some 1\<rparr>"

definition kept_commit :: network_commit where
  "kept_commit = calm_commit\<lparr>nc_revision := 4, nc_transaction := Some calm_id, nc_network_commit_revision := Some 4\<rparr>"

definition world_with :: "journal \<Rightarrow> nat net_world" where
  "world_with j = \<lparr>nw_host = 0, nw_pending = Some j, nw_last = None, nw_job = j, nw_log = []\<rparr>"

lemmas calm_steps = bind_n_def seq_n_def ret_n_def err_n_def try_n_def ignore_n_def when_n_def sense_def effect_def
  get_job_def set_job_def update_job_def of_result_n_def map_err_n_def

lemmas calm_store = store_lock_def store_read_def read_pending_def read_last_def store_write_def write_pending_def
  remove_journal_def write_last_def save_job_def load_decision_def compare_commit_def replace_file_def

lemmas calm_host = now_ms_def boot_id_def budget_def run_command_def host_output_def run_owned_def run_def run_unit_def
  active_def prune_nm_def

lemma calm_id_valid [simp]: "valid_id calm_id" "length calm_id = 64"
  by (simp_all add: calm_id_def valid_id_def is_ascii_digit_def byte_def list_all_iff)

lemma next_applied: "next_commit applied_journal = Inr kept_commit"
  by (simp add: next_commit_def applied_journal_def new_journal_def calm_commit_def kept_commit_def checked_add_def)

lemma sync_uncommitted: "engine_committed (calm_env calm_commit) sync_journal w = (Inr False, w)"
  by (simp add: engine_committed_def sync_journal_def tessera_journal_def ret_n_def)

lemma calm_fields [simp]:
  "ne_host (calm_env c) = \<lparr>ho_deadline = None, ho_handoff = False, ho_handoff_paths = [], ho_boot_recovery = False\<rparr>"
  "ne_runner (calm_env c) spec h = (Inr \<lparr>co_code = 0, co_stdout = [], co_stderr = []\<rparr>, h)"
  "ne_now_ms (calm_env c) h = (if h < 2 ^ 64 then Inr (of_nat h) else Inl NotPending, h)"
  "ne_boot_id (calm_env c) h = (Inr ''boot'', h)" "ne_sleep_ms (calm_env c) ms h = h + unat ms"
  "ne_load (calm_env c) h = (Inr c, h)" "ne_compare_and_commit (calm_env c) e n h = (Inr (), h)"
  "ne_replace (calm_env c) p i h = (Inr (), h)" "ne_store_lock (calm_env c) h = (Inr (), h)"
  "ne_store_fault (calm_env c) k h = (None, h)" "ne_store_write (calm_env c) k h = (Written, h)"
  "ne_verify (calm_env c) host b q m h = (Inr (), h)"
  "ne_complete_release (calm_env c) = ret_n \<lparr>rs_externally_managed = False, rs_quiesced = False, rs_stale_done = []\<rparr>"
  "ne_migrate (calm_env c) job = ret_n False"
  by (simp_all add: calm_env_def)

lemmas calm_words = saturating_add_def saturating_sub_def APPLY_MS_def

lemma sync_recovers: "fst (recover_locked (calm_env calm_commit) PhExpired (world_with sync_journal)) = Inr ()"
  by (simp add: recover_locked_def engine_committed_def world_with_def calm_steps calm_store calm_host calm_words
      recover_body_def arm_retry_def sync_journal_def tessera_journal_def restore_files_def finish_unmodified_def
      close_journal_def stop_timers_def)

lemma applied_fields [simp]:
  "jn_token applied_journal = calm_id" "jn_job_id applied_journal = calm_id" "jn_handoff applied_journal = None"
  "jn_phase applied_journal = PhApplied" "jn_recovery_pending applied_journal = False"
  "jn_operation applied_journal = OpNetwork" "jn_boot_id applied_journal = ''boot''" "jn_base applied_journal = calm_commit"
  "jn_deadline_ms applied_journal = 180000"
  "nps_confirm_policy (pl_candidate (jn_plan applied_journal)) = TokenOnly"
  by (simp_all add: applied_journal_def new_journal_def GUARD_MS_def saturating_add_def default_network_profiles_def)

lemma applied_confirms:
  "fst (confirm (calm_env calm_commit) calm_id None (world_with applied_journal)) = Inr kept_commit"
  by (simp add: confirm_def matching_def matches_def lock_source_def engine_committed_def elapsed_def session_allowed_def
     engine_decide_def next_applied calm_steps calm_store calm_host world_with_def calm_commit_def kept_commit_def)

end
