(* ===== verification/Net_Polling.thy ===== *)
theory Net_Polling
  imports Net_Samples
begin

text \<open>
  The polling loops of the network host functions end: \<open>wait_links\<close> (backend/mod.rs) within ten seconds
  of the clock, \<open>readiness\<close> within forty five. \<open>POLL_FUEL\<close> bounds the rounds of the model, and this theory
  shows the bound is never what ends a loop: with any more fuel the loops have the same result, because
  every round that asks again has slept a quarter of a second.

  The two loops that wait for NetworkManager to settle (backend/nm.rs) end the same way (\<open>settling_ends\<close>).

  \<open>steady T env\<close> is what the loops rely on of the outside: \<open>T\<close> is the time of a host in milliseconds, the
  monotonic clock reads it, and nothing turns it back.
\<close>

definition steady :: "('h \<Rightarrow> nat) \<Rightarrow> 'h net_env \<Rightarrow> bool" where
  "steady T env =
     ((\<forall>h now. fst (ne_now_ms env h) = Inr now \<longrightarrow> unat now = T h) \<and>
      (\<forall>h. T h \<le> T (snd (ne_now_ms env h))) \<and>
      (\<forall>h ms. T h + unat ms \<le> T (ne_sleep_ms env ms h)) \<and>
      (\<forall>h spec. T h \<le> T (snd (ne_runner env spec h))) \<and>
      (\<forall>h b p metadata. T h \<le> T (snd (ne_verify env (ne_host env) b p metadata h))))"

definition later :: "('h \<Rightarrow> nat) \<Rightarrow> 'h net_world \<Rightarrow> 'h net_world \<Rightarrow> bool" where
  "later T w w' = (T (nw_host w) \<le> T (nw_host w'))"

interpretation lt: frame_relation "later T" for T
  by unfold_locales (simp_all add: later_def)

named_theorems clocks \<open>operations that do not turn the time back\<close>

lemma later_sense: "(\<And>h. T h \<le> T (snd (op h))) \<Longrightarrow> does (later T) (sense op)"
  unfolding does_def sense_def later_def by (auto split: prod.splits) (metis snd_conv)

lemma later_effect: "(\<And>h. T h \<le> T (snd (op h))) \<Longrightarrow> does (later T) (effect ev op)"
  unfolding does_def effect_def later_def by (auto split: prod.splits) (metis snd_conv)

lemma later_now [clocks]: "steady T env \<Longrightarrow> does (later T) (now_ms env)"
  unfolding now_ms_def by (rule later_sense) (simp add: steady_def)

lemma later_command [clocks]: "steady T env \<Longrightarrow> does (later T) (run_command env spec)"
  unfolding run_command_def by (rule later_effect) (simp add: steady_def)

lemma later_verify [clocks]: "steady T env \<Longrightarrow> does (later T) (sense (ne_verify env (ne_host env) b p metadata))"
  by (rule later_sense) (simp add: steady_def)

lemmas later_steps = lt.does_ret lt.does_err lt.does_bind lt.does_seq lt.does_try lt.does_of_result lt.does_when
  lt.does_each clocks

lemma later_run [clocks]:
  assumes "steady T env"
  shows "does (later T) (run env tool args n)" "does (later T) (probe_json env tool args)"
  using assms unfolding probe_json_def run_def run_owned_def host_output_def Let_def
  by (auto intro!: later_steps split: option.split)

lemma later_addresses:
  assumes "steady T env"
  shows "does (later T) (verify_addresses env p metadata recovery owned)"
  using assms unfolding verify_addresses_def verify_owned_def check_selected_def probe_addresses_def
  by (auto intro!: later_steps clocks split: option.split)

text \<open>A round that asks again has slept.\<close>

lemma slept: "steady T env \<Longrightarrow> sleep_ms env ms w = (r, w') \<Longrightarrow> T (nw_host w) + unat ms \<le> T (nw_host w')"
  by (auto simp: steady_def sleep_ms_def sense_def)

lemma clock_read: "steady T env \<Longrightarrow> now_ms env w = (Inr now, w') \<Longrightarrow> unat now = T (nw_host w) \<and> T (nw_host w) \<le> T (nw_host w')"
  unfolding steady_def now_ms_def sense_def by (auto split: prod.splits) (metis fst_conv snd_conv)+

lemma bind_cong_at:
  "(\<And>x v. m w = (Inr x, v) \<Longrightarrow> f x v = g x v) \<Longrightarrow> bind_n m f w = bind_n m g w"
  by (simp add: bind_n_def split: prod.splits sum.splits)

text \<open>
  What follows a round is only reached with fuel left: either the time is up, or a quarter of a second
  has passed.
\<close>

lemma asks_again:
  assumes "steady T env" "unat until \<le> T (nw_host v) + 250 * f"
    and same: "\<And>u g. f = Suc g \<Longrightarrow> unat until \<le> T (nw_host u) + 250 * g \<Longrightarrow> k u = l u"
  shows "bind_n (now_ms env) (\<lambda>now. if until \<le> now then e else seq_n (sleep_ms env 250) k) v =
    bind_n (now_ms env) (\<lambda>now. if until \<le> now then e else seq_n (sleep_ms env 250) l) v"
proof (rule bind_cong_at)
  fix now u
  assume "now_ms env v = (Inr now, u)"
  then have now: "unat now = T (nw_host v)" "T (nw_host v) \<le> T (nw_host u)"
    using clock_read [OF assms(1)] by blast+
  show "(if until \<le> now then e else seq_n (sleep_ms env 250) k) u = (if until \<le> now then e else seq_n (sleep_ms env 250) l) u"
  proof (cases "until \<le> now")
    case False
    then have "T (nw_host v) < unat until" using now(1) by (simp add: word_le_nat_alt)
    then obtain g where g: "f = Suc g" using assms(2) by (cases f) auto
    have "seq_n (sleep_ms env 250) k u = seq_n (sleep_ms env 250) l u"
      unfolding seq_n_def
    proof (rule bind_cong_at)
      fix x t
      assume "sleep_ms env 250 u = (Inr x, t)"
      then have "T (nw_host u) + 250 \<le> T (nw_host t)" using slept [OF assms(1)] by fastforce
      then show "k t = l t" using assms(2) now(2) g by (intro same) auto
    qed
    then show ?thesis by simp
  qed simp
qed

lemma link_loop_enough:
  assumes "steady T env" "unat until \<le> T (nw_host w) + 250 * f"
  shows "link_loop (Suc f + k) env p until w = link_loop (Suc f) env p until w"
  using assms(2)
proof (induction f arbitrary: w rule: less_induct)
  case (less f)
  have "link_loop (Suc (f + k)) env p until w = link_loop (Suc f) env p until w"
    unfolding link_loop.simps(2)
  proof (rule bind_cong_at)
    fix links v
    assume "probe_links env w = (Inr links, v)"
    then have "T (nw_host w) \<le> T (nw_host v)"
      using doesD [OF later_run(2) [OF assms(1)]] by (simp add: probe_links_def later_def)
    with less.prems have "unat until \<le> T (nw_host v) + 250 * f" by simp
    from asks_again [OF assms(1) this, of "link_loop (f + k) env p until" "link_loop f env p until"] less.IH
    show "(if list_all (\<lambda>name. case json_rows links of Inl _ \<Rightarrow> False | Inr rows \<Rightarrow> has_link rows name) (names p) then ret_n ()
       else bind_n (now_ms env) (\<lambda>now. if until \<le> now then err_n (engine_failed ''verify_backend'' ''link_not_ready'')
         else seq_n (sleep_ms env 250) (link_loop (f + k) env p until))) v =
      (if list_all (\<lambda>name. case json_rows links of Inl _ \<Rightarrow> False | Inr rows \<Rightarrow> has_link rows name) (names p) then ret_n ()
       else bind_n (now_ms env) (\<lambda>now. if until \<le> now then err_n (engine_failed ''verify_backend'' ''link_not_ready'')
         else seq_n (sleep_ms env 250) (link_loop f env p until))) v"
      by simp
  qed
  then show ?case by simp
qed

lemma if_not: "(if \<not> c then a else b) = (if c then b else a)"
  by simp

lemma ready_loop_enough:
  assumes "steady T env" "does (later T) body" "unat until \<le> T (nw_host w) + 250 * f"
  shows "ready_loop (Suc f + k) env body until w = ready_loop (Suc f) env body until w"
  using assms(3)
proof (induction f arbitrary: w rule: less_induct)
  case (less f)
  let ?after = "\<lambda>m r. case r of Inr a \<Rightarrow> ret_n a
    | Inl e \<Rightarrow> if is_not_ready e
       then bind_n (now_ms env) (\<lambda>now. if until \<le> now then err_n e else seq_n (sleep_ms env 250) m) else err_n e"
  have unfolded: "ready_loop (Suc n) env body until = bind_n (try_n body) (?after (ready_loop n env body until))" for n
    by (simp add: not_less [symmetric] if_not cong: if_cong sum.case_cong)
  have "ready_loop (Suc (f + k)) env body until w = ready_loop (Suc f) env body until w"
    unfolding unfolded
  proof (rule bind_cong_at)
    fix r v
    assume "try_n body w = (Inr r, v)"
    then have "T (nw_host w) \<le> T (nw_host v)"
      using doesD [OF lt.does_try [OF assms(2)]] by (simp add: later_def)
    with less.prems have "unat until \<le> T (nw_host v) + 250 * f" by simp
    from asks_again [OF assms(1) this, of "ready_loop (f + k) env body until" "ready_loop f env body until"] less.IH
    show "?after (ready_loop (f + k) env body until) r v = ?after (ready_loop f env body until) r v"
      by (simp split: sum.split)
  qed
  then show ?case by simp
qed

lemma poll_end_bound:
  assumes "steady T env" "poll_end env ms w = (Inr until, v)"
  shows "unat until \<le> T (nw_host v) + unat ms"
proof -
  obtain now where now: "now_ms env w = (Inr now, v)" and "until \<le> saturating_add now ms"
    using assms(2) by (auto simp: poll_end_def ret_n_def elim!: bind_n_Inr)
  moreover have "unat (saturating_add now ms) \<le> unat now + unat ms"
    by (simp add: unat_saturating_add)
  ultimately show ?thesis using clock_read [OF assms(1) now] by (simp add: word_le_nat_alt)
qed

text \<open>
  C28: Polling ends. While the clock is not turned back, waiting for links and for addresses both end by
  the clock: with any more rounds than the model allows, the result is the same.
\<close>

theorem polling_ends:
  assumes "steady T env"
  shows "bind_n (poll_end env 10000) (link_loop (POLL_FUEL + k) env p) w = wait_links env p w \<and>
    bind_n (poll_end env 45000) (ready_loop (POLL_FUEL + k) env (verify_addresses env p metadata recovery owned)) w =
      readiness env p metadata recovery owned w"
proof
  have fuel: "POLL_FUEL = Suc 199" by (simp add: POLL_FUEL_def)
  show "bind_n (poll_end env 10000) (link_loop (POLL_FUEL + k) env p) w = wait_links env p w"
    unfolding wait_links_def fuel
    using poll_end_bound [OF assms, of 10000 w] by (intro bind_cong_at link_loop_enough [OF assms]) fastforce
  show "bind_n (poll_end env 45000) (ready_loop (POLL_FUEL + k) env (verify_addresses env p metadata recovery owned)) w =
      readiness env p metadata recovery owned w"
    unfolding readiness_def fuel
    using poll_end_bound [OF assms, of 45000 w]
    by (intro bind_cong_at ready_loop_enough [OF assms later_addresses [OF assms]]) fastforce
qed

lemma calm_steady: "steady (\<lambda>h. h) (calm_env c)"
  by (auto simp: steady_def unat_of_nat split: if_splits)

theorem polling_ends_witness:
  "bind_n (poll_end (calm_env calm_commit) 10000) (link_loop (POLL_FUEL + 7) (calm_env calm_commit) default_network_profiles)
     (world_with applied_journal) =
   wait_links (calm_env calm_commit) default_network_profiles (world_with applied_journal)"
  using polling_ends [OF calm_steady] by blast

section \<open>Settling\<close>

text \<open>The loops of \<open>nm_settled\<close> and \<open>settle_nm_files\<close> also read files.\<close>

definition steady_files :: "('h \<Rightarrow> nat) \<Rightarrow> 'h net_env \<Rightarrow> bool" where
  "steady_files T env = (steady T env \<and> (\<forall>h path. T h \<le> T (snd (ne_snapshot env path h))))"

lemma steadyD: "steady_files T env \<Longrightarrow> steady T env"
  by (simp add: steady_files_def)

lemma later_look:
  assumes "steady_files T env"
  shows "does (later T) (look env fs)" "does (later T) (first_differing env fs)"
proof -
  have snapshot: "does (later T) (sense (ne_snapshot env path))" for path
    using assms by (intro later_sense) (simp add: steady_files_def)
  show "does (later T) (look env fs)" "does (later T) (first_differing env fs)"
    by (induction fs) (auto intro!: lt.does_bind snapshot lt.does_ret)
qed

lemma later_field: "steady T env \<Longrightarrow> does (later T) (nm_field env uuid field)"
  unfolding nm_field_def by (auto intro!: later_steps later_run)

lemma later_fields: "steady T env \<Longrightarrow> does (later T) (differing_fields env uuid wanted others)"
  by (induction others) (auto intro!: later_steps later_field split: option.split)

lemma settle_loop_enough:
  assumes "steady T env" "does (later T) body" "unat until \<le> T (nw_host w) + 250 * f"
  shows "settle_loop (Suc f + k) env body until w = settle_loop (Suc f) env body until w"
  using assms(3)
proof (induction f arbitrary: w rule: less_induct)
  case (less f)
  have "settle_loop (Suc (f + k)) env body until w = settle_loop (Suc f) env body until w"
    unfolding settle_loop.simps(2) SETTLE_STEP_MS_def
  proof (rule bind_cong_at)
    fix wrong v
    assume "body w = (Inr wrong, v)"
    then have "T (nw_host w) \<le> T (nw_host v)" using doesD [OF assms(2)] by (simp add: later_def)
    with less.prems have "unat until \<le> T (nw_host v) + 250 * f" by simp
    from asks_again [OF assms(1) this, of "settle_loop (f + k) env body until" "settle_loop f env body until"] less.IH
    show "(if wrong = None then ret_n None else bind_n (now_ms env) (\<lambda>now. if until \<le> now then ret_n wrong
         else seq_n (sleep_ms env 250) (settle_loop (f + k) env body until))) v =
      (if wrong = None then ret_n None else bind_n (now_ms env) (\<lambda>now. if until \<le> now then ret_n wrong
         else seq_n (sleep_ms env 250) (settle_loop f env body until))) v"
      by simp
  qed
  then show ?case by simp
qed

lemma image_loop_enough:
  assumes "steady_files T env" "unat until \<le> T (nw_host w) + 250 * Suc f"
  shows "image_loop (Suc f + k) env fs start until seen w = image_loop (Suc f) env fs start until seen w"
  using assms(2)
proof (induction f arbitrary: w seen)
  case (0 w seen)
  show ?case
    unfolding add_Suc image_loop.simps(2) SETTLE_STEP_MS_def seq_n_def
  proof (intro bind_cong_at)
    fix x v images u now t
    assume "sleep_ms env 250 w = (Inr x, v)" "look env fs v = (Inr images, u)" "now_ms env u = (Inr now, t)"
    then have "T (nw_host w) + 250 \<le> T (nw_host v)" "T (nw_host v) \<le> T (nw_host u)" "unat now = T (nw_host u)"
      using slept [OF steadyD [OF assms(1)]] doesD [OF later_look(1) [OF assms(1)]] clock_read [OF steadyD [OF assms(1)]]
      by (fastforce simp: later_def)+
    then have "until \<le> now" using 0 by (simp add: word_le_nat_alt)
    then show "(if 1000 \<le> saturating_sub now start \<and> seen = Some images \<or> until \<le> now then ret_n images
        else image_loop (0 + k) env fs start until (Some images)) t =
      (if 1000 \<le> saturating_sub now start \<and> seen = Some images \<or> until \<le> now then ret_n images
        else image_loop 0 env fs start until (Some images)) t"
      by simp
  qed
next
  case (Suc f w seen)
  show ?case
    unfolding add_Suc [of "Suc f"] image_loop.simps(2) [of "Suc f + k"] image_loop.simps(2) [of "Suc f"]
      SETTLE_STEP_MS_def seq_n_def
  proof (intro bind_cong_at)
    fix x v images u now t
    assume "sleep_ms env 250 w = (Inr x, v)" "look env fs v = (Inr images, u)" "now_ms env u = (Inr now, t)"
    then have "T (nw_host w) + 250 \<le> T (nw_host v)" "T (nw_host v) \<le> T (nw_host u)" "T (nw_host u) \<le> T (nw_host t)"
      using slept [OF steadyD [OF assms(1)]] doesD [OF later_look(1) [OF assms(1)]] clock_read [OF steadyD [OF assms(1)]]
      by (fastforce simp: later_def)+
    then have "unat until \<le> T (nw_host t) + 250 * Suc f" using Suc.prems by simp
    note again = Suc.IH [OF this]
    show "(if 1000 \<le> saturating_sub now start \<and> seen = Some images \<or> until \<le> now then ret_n images
        else image_loop (Suc f + k) env fs start until (Some images)) t =
      (if 1000 \<le> saturating_sub now start \<and> seen = Some images \<or> until \<le> now then ret_n images
        else image_loop (Suc f) env fs start until (Some images)) t"
      by (simp add: again del: image_loop.simps add_Suc split: if_split)
  qed
qed

theorem settling_ends:
  assumes "steady_files T env" "does (later T) body"
  shows "bind_n (poll_end env SETTLE_MS) (settle_loop (POLL_FUEL + k) env body) w = nm_settled env body w"
    and "unat until \<le> T (nw_host w) + 15000 \<Longrightarrow>
      image_loop (POLL_FUEL + k) env fs start until seen w = image_loop POLL_FUEL env fs start until seen w"
proof -
  have fuel: "POLL_FUEL = Suc 199" by (simp add: POLL_FUEL_def)
  show "bind_n (poll_end env SETTLE_MS) (settle_loop (POLL_FUEL + k) env body) w = nm_settled env body w"
    unfolding nm_settled_def fuel
    using poll_end_bound [OF steadyD [OF assms(1)], of SETTLE_MS w]
    by (intro bind_cong_at settle_loop_enough [OF steadyD [OF assms(1)] assms(2)]) (fastforce simp: SETTLE_MS_def)
  show "unat until \<le> T (nw_host w) + 15000 \<Longrightarrow>
      image_loop (POLL_FUEL + k) env fs start until seen w = image_loop POLL_FUEL env fs start until seen w"
    unfolding fuel by (rule image_loop_enough [OF assms(1)]) simp
qed

end
