(* ===== verification/Net_Journal.thy ===== *)
theory Net_Journal
  imports Net_Engine
begin

text \<open>
  What the network engine's journal guarantees, for every behaviour of the host and every outcome of a
  store write.

  A call of the engine is a \<open>net_call\<close>; \<open>serve\<close> runs it. The entries a call adds to the record of what was
  done to the host are judged one by one (\<open>entry_ok\<close>) with the journal that was durable at that moment,
  so the guarantees hold wherever the process is killed.
\<close>

section \<open>Traces\<close>

definition traces :: "(net_event \<times> journal option \<Rightarrow> bool) \<Rightarrow> 'h net_world \<Rightarrow> 'h net_world \<Rightarrow> bool" where
  "traces Q w w' = (\<exists>new. nw_log w' = new @ nw_log w \<and> (\<forall>x \<in> set new. Q x))"

lemma traces_refl: "nw_log w' = nw_log w \<Longrightarrow> traces Q w w'"
  by (simp add: traces_def)

lemma traces_trans: "traces Q u v \<Longrightarrow> traces Q v w \<Longrightarrow> traces Q u w"
  unfolding traces_def by (metis UnE append.assoc set_append)

interpretation tr: frame_relation "traces Q" for Q
  by unfold_locales (auto intro: traces_refl traces_trans)

lemma extends_traces: "extends P w w' \<Longrightarrow> (\<And>e. P e \<Longrightarrow> Q (e, nw_pending w)) \<Longrightarrow> traces Q w w'"
  unfolding extends_def traces_def by fastforce

lemma extends_silent:
  "extends (\<lambda>_. False) w w' \<longleftrightarrow>
   nw_pending w' = nw_pending w \<and> nw_last w' = nw_last w \<and> nw_job w' = nw_job w \<and> nw_log w' = nw_log w"
  unfolding extends_def by (cases "nw_log w' = nw_log w") (auto simp: neq_Nil_conv, blast)

text \<open>An operation that starts where \<open>A\<close> holds keeps it, and adds only entries that satisfy \<open>Q\<close>.\<close>

definition inside ::
  "('h net_world \<Rightarrow> bool) \<Rightarrow> (net_event \<times> journal option \<Rightarrow> bool) \<Rightarrow> 'h net_world \<Rightarrow> 'h net_world \<Rightarrow> bool" where
  "inside A Q w w' = (A w \<longrightarrow> A w' \<and> traces Q w w')"

interpretation un: frame_relation "inside A Q" for A Q
  by unfold_locales (auto simp: inside_def intro: traces_refl traces_trans)

text \<open>The last operation of a call need not keep \<open>A\<close>.\<close>

definition starting :: "('h net_world \<Rightarrow> bool) \<Rightarrow> (net_event \<times> journal option \<Rightarrow> bool) \<Rightarrow> ('h, 'a) net \<Rightarrow> bool" where
  "starting A Q m = (\<forall>w. A w \<longrightarrow> traces Q w (snd (m w)))"

named_theorems tails \<open>operations whose entries are in order\<close>

lemma starting_traces: "does (traces Q) m \<Longrightarrow> starting A Q m"
  by (simp add: starting_def does_def)

lemma starting_under: "does (inside A Q) m \<Longrightarrow> starting A Q m"
  by (simp add: starting_def does_def inside_def)

lemma starting_bind:
  assumes "does (inside A Q) m" "\<And>x. starting A Q (f x)"
  shows "starting A Q (bind_n m f)"
  unfolding starting_def
proof (intro allI impI)
  fix w
  assume A: "A w"
  obtain r v where m: "m w = (r, v)" by fastforce
  with assms(1) A have v: "A v" "traces Q w v" by (auto simp: does_def inside_def dest!: spec [of _ w])
  then show "traces Q w (snd (bind_n m f w))"
    using m assms(2) by (cases r) (auto simp: bind_n_def starting_def intro: traces_trans)
qed

lemma starting_bind_last:
  assumes "starting A Q m" "\<And>x. does (traces Q) (f x)"
  shows "starting A Q (bind_n m f)"
  unfolding starting_def
proof (intro allI impI)
  fix w
  assume A: "A w"
  obtain r v where m: "m w = (r, v)" by fastforce
  with assms(1) A have v: "traces Q w v" by (auto simp: starting_def dest!: spec [of _ w])
  then show "traces Q w (snd (bind_n m f w))"
    using m assms(2) by (cases r) (auto simp: bind_n_def does_def intro: traces_trans)
qed

lemma starting_seq: "does (inside A Q) m \<Longrightarrow> starting A Q k \<Longrightarrow> starting A Q (seq_n m k)"
  unfolding seq_n_def by (rule starting_bind)

lemma starting_seq_last: "starting A Q m \<Longrightarrow> does (traces Q) k \<Longrightarrow> starting A Q (seq_n m k)"
  unfolding seq_n_def by (rule starting_bind_last)

lemma starting_weaken: "starting A Q m \<Longrightarrow> (\<And>w. B w \<Longrightarrow> A w) \<Longrightarrow> starting B Q m"
  by (simp add: starting_def)

section \<open>Entries\<close>

definition paths :: "journal \<Rightarrow> string set" where
  "paths j = fc_path ` set (pl_files (jn_plan j))"

definition artifact_paths :: "journal \<Rightarrow> string set" where
  "artifact_paths j = (case jn_handoff j of None \<Rightarrow> {} | Some t \<Rightarrow> ha_path ` set (hd_artifacts (tr_document t)))"

definition timers :: "journal \<Rightarrow> string set" where
  "timers j =
     {''ndimon-network-apply-'' @ jn_job_id j, ''ndimon-network-guard-'' @ jn_job_id j,
      ''ndimon-network-retry-'' @ jn_job_id j} \<union>
     (\<lambda>g. ''ndimon-network-window-'' @ jn_job_id j @ ''-'' @ dec g) ` {1..unat (jn_timer_generation j)}"

text \<open>The profile files NetworkManager's changes may put back, and the connections they drop once kept.\<close>

definition nm_paths :: "journal \<Rightarrow> string set" where
  "nm_paths j = fst ` nm_images (pl_nm (jn_plan j))"

definition prunable :: "journal \<Rightarrow> string set" where
  "prunable j = nm_uuid ` {c \<in> set (pl_nm (jn_plan j)). nm_remove_after_commit c}"

definition prunes :: "journal \<Rightarrow> command_spec \<Rightarrow> bool" where
  "prunes j s =
     (cs_tool s = Nmcli \<and> (\<exists>u \<in> prunable j. cs_args s = [''connection'', ''delete'', ''uuid'', u]))"

text \<open>
  The packet filter of a decision \<open>D\<close> admits, installed in place of the filter that is there: what a boot
  does when no change is pending.
\<close>

definition guard_script :: "(network_commit \<Rightarrow> bool) \<Rightarrow> command_spec \<Rightarrow> bool" where
  "guard_script D s =
     (cs_tool s = Nft \<and>
      (\<exists>c rules drop. D c \<and> firewall (nc_profiles c) 80 = Inr rules \<and>
         drop \<in> {[], ''delete table inet ndimon_management'' @ [NL]} \<and> cs_input s = Some (drop @ rules)))"

text \<open>The files of a transfer: the reservation, the markers it takes back, and the receipt.\<close>

definition handoff_write :: "journal \<Rightarrow> string \<Rightarrow> image option \<Rightarrow> bool" where
  "handoff_write j path img =
     (\<exists>t. jn_handoff j = Some t \<and>
        (path = handoff_marker (tr_source t) ''external'' \<or>
         path = handoff_marker (tr_source t) ''quiesce'' \<and> img = None \<or>
         handoff_path (tr_source t) ''done'' = Inr path \<and> img \<noteq> None))"

text \<open>
  \<^item> A command that changes anything (\<open>changing\<close>) runs only while the journal is durable and past \<open>staged\<close>;
    except the packet filter of a decision the authority holds, and the deletion of the connections the
    durable journal drops once it is kept.
  \<^item> A timer is armed only when the durable journal names it.
  \<^item> A file is written only while the journal is durable, past \<open>staged\<close>, and names the file with its
    before-image; the banner may be removed, and the files of the journal's handoff written, in any phase.
  \<^item> A decision is asked for only while the durable journal is applied, from its base and for its candidate.
\<close>

definition entry_ok :: "(network_commit \<Rightarrow> bool) \<Rightarrow> net_event \<times> journal option \<Rightarrow> bool" where
  "entry_ok D x =
     (case x of (e, p) \<Rightarrow>
        (case e of
           EvRun spec _ \<Rightarrow>
             if cs_tool spec = SystemdRun
             then (\<exists>j. p = Some j \<and> (\<exists>u \<in> timers j. ''--unit='' @ u \<in> set (cs_args spec)))
             else changing (cs_tool spec) (cs_args spec) \<longrightarrow>
                    guard_script D spec \<or> (\<exists>j. p = Some j \<and> (jn_phase j \<noteq> PhStaged \<or> prunes j spec))
         | EvReplace path img _ \<Rightarrow>
             (\<exists>j. p = Some j \<and>
               (path = BANNER \<and> img = None \<or> handoff_write j path img \<or>
                jn_phase j \<noteq> PhStaged \<and>
                  (path \<in> paths j \<or> path \<in> nm_paths j \<or> path \<in> artifact_paths j \<and> img = None)))
         | EvDecide old new _ \<Rightarrow> (\<exists>j. p = Some j \<and> jn_phase j = PhApplied \<and> old = jn_base j \<and> next_commit j = Inr new)))"

text \<open>
  \<open>opened\<close>: the journal in memory and the durable one exist and are about the same transaction;
  \<open>started\<close>: both are past \<open>staged\<close>.
\<close>

definition same :: "journal \<Rightarrow> journal \<Rightarrow> bool" where
  "same k j =
     (paths j = paths k \<and> nm_shape (pl_nm (jn_plan j)) = nm_shape (pl_nm (jn_plan k)) \<and>
      jn_handoff j = jn_handoff k \<and> jn_job_id j = jn_job_id k)"

lemma nm_paths_shape: "nm_paths j = (\<Union>(u, r, ps) \<in> set (nm_shape (pl_nm (jn_plan j))). set ps)"
  by (force simp: nm_paths_def nm_images_def nm_shape_def)

lemma prunable_shape: "prunable j = fst ` {x \<in> set (nm_shape (pl_nm (jn_plan j))). fst (snd x)}"
  by (force simp: prunable_def nm_shape_def)

lemma same_nm: "same k j \<Longrightarrow> nm_paths j = nm_paths k" "same k j \<Longrightarrow> prunable j = prunable k"
  by (simp_all add: same_def nm_paths_shape prunable_shape)

lemma same_images: "same k j \<Longrightarrow> fst ` nm_images (pl_nm (jn_plan j)) \<subseteq> nm_paths k"
  using same_nm(1) [of k j] by (simp add: nm_paths_def)

definition opened :: "journal \<Rightarrow> 'h net_world \<Rightarrow> bool" where
  "opened k w = (same k (nw_job w) \<and> (\<exists>j. nw_pending w = Some j \<and> same k j))"

definition started :: "journal \<Rightarrow> 'h net_world \<Rightarrow> bool" where
  "started k w =
     (same k (nw_job w) \<and> jn_phase (nw_job w) \<noteq> PhStaged \<and>
      (\<exists>j. nw_pending w = Some j \<and> same k j \<and> jn_phase j \<noteq> PhStaged))"

lemma started_opened: "started k w \<Longrightarrow> opened k w"
  by (auto simp: started_def opened_def)

lemma same_refl [simp]: "same k k"
  by (simp add: same_def)

text \<open>What a host function may do in each of the two states.\<close>

definition plain_event :: "(network_commit \<Rightarrow> bool) \<Rightarrow> net_event \<Rightarrow> bool" where
  "plain_event D e = (case e of EvRun s _ \<Rightarrow> \<not> changing (cs_tool s) (cs_args s) \<or> guard_script D s | _ \<Rightarrow> False)"

definition backend_event :: "journal \<Rightarrow> net_event \<Rightarrow> bool" where
  "backend_event k e =
     (case e of EvRun s _ \<Rightarrow> cs_tool s \<noteq> SystemdRun | EvReplace path _ _ \<Rightarrow> path \<in> nm_paths k | _ \<Rightarrow> False)"

lemma runs_plain [simp]: "reads (plain_event D)" "runs (backend_event k)"
  by (simp_all add: reads_def runs_def plain_event_def backend_event_def)

lemma puts_backend [simp]: "fst ` nm_images cs \<subseteq> nm_paths k \<Longrightarrow> puts (backend_event k) (nm_images cs)"
  by (auto simp: puts_def backend_event_def)

lemma entry_plain: "plain_event D e \<Longrightarrow> entry_ok D (e, p)"
  by (cases e) (auto simp: plain_event_def entry_ok_def guard_script_def)

lemma traces_plain: "does (extends (plain_event D)) m \<Longrightarrow> does (traces (entry_ok D)) m"
  unfolding does_def by (auto intro: extends_traces entry_plain)

lemma does_underI:
  "(\<And>w r w'. A w \<Longrightarrow> m w = (r, w') \<Longrightarrow> A w' \<and> traces Q w w') \<Longrightarrow> does (inside A Q) m"
  unfolding does_def inside_def by (metis prod.collapse)

lemma opened_cong: "nw_pending w' = nw_pending w \<Longrightarrow> nw_job w' = nw_job w \<Longrightarrow> opened k w' = opened k w"
  "nw_pending w' = nw_pending w \<Longrightarrow> nw_job w' = nw_job w \<Longrightarrow> started k w' = started k w"
  by (simp_all add: opened_def started_def)

lemma under_extends:
  assumes "does (extends P) m"
    and A: "\<And>w w'. A w \<Longrightarrow> nw_pending w' = nw_pending w \<Longrightarrow> nw_job w' = nw_job w \<Longrightarrow> A w'"
    and Q: "\<And>w e. A w \<Longrightarrow> P e \<Longrightarrow> Q (e, nw_pending w)"
  shows "does (inside A Q) m"
  unfolding does_def inside_def
proof (intro allI impI)
  fix w
  assume w: "A w"
  have ext: "extends P w (snd (m w))" using assms(1) by (simp add: does_def)
  then show "A (snd (m w)) \<and> traces Q w (snd (m w))"
    using extends_traces [OF ext, of Q] Q [OF w] A [OF w] by (simp add: extends_def)
qed

lemma opened_plain: "does (extends (plain_event D)) m \<Longrightarrow> does (inside (opened k) (entry_ok D)) m"
  by (erule under_extends) (auto simp: opened_def intro: entry_plain)

lemma started_backend: "does (extends (backend_event k)) m \<Longrightarrow> does (inside (started k) (entry_ok D)) m"
  by (erule under_extends)
    (auto simp: started_def backend_event_def entry_ok_def dest: same_nm(1) split: net_event.splits)

section \<open>Store writes and the journal in memory\<close>

lemma store_read_log: "does (extends P) (store_read env name field)"
  by (auto simp: does_def store_read_def extends_def split: prod.splits option.splits)

lemma frame_reads [frames]:
  "does (extends P) (read_pending env)" "does (extends P) (read_last env)" "does (extends P) (store_lock env)"
  "does (extends P) (load_decision env)"
  unfolding read_pending_def read_last_def store_lock_def load_decision_def by (intro frames store_read_log)+

lemma frame_engine_committed [frames]: "does (extends P) (engine_committed env j)"
  unfolding engine_committed_def by (auto intro!: frames)

lemma frame_lock_source [frames]: "does (extends P) (lock_source env j)"
  unfolding lock_source_def by (auto intro!: frames split: option.split)

lemma frame_elapsed [frames]: "does (extends P) (elapsed env j)"
  unfolding elapsed_def by (auto intro!: frames)

lemma traces_same: "(\<And>w. nw_log (snd (m w)) = nw_log w) \<Longrightarrow> does (traces Q) m"
  by (simp add: does_def traces_refl)

lemma store_write_log: "(\<And>w. nw_log (put w) = nw_log w) \<Longrightarrow> nw_log (snd (store_write env name put w)) = nw_log w"
  by (auto simp: store_write_def split: prod.splits write_outcome.splits)

lemma traces_writes [frames]:
  "does (traces Q) (write_pending env j)" "does (traces Q) (remove_journal env)" "does (traces Q) (write_last env l)"
  "does (traces Q) (save_job env)" "does (traces Q) (set_job j)" "does (traces Q) (update_job f)"
  unfolding write_pending_def remove_journal_def write_last_def
  by (auto intro!: traces_same store_write_log simp: set_job_def update_job_def save_job_def bind_n_def get_job_def
      write_pending_def)

lemma under_update:
  "(\<And>j. same k j \<Longrightarrow> same k (f j)) \<Longrightarrow> does (inside (opened k) Q) (update_job f)"
  "(\<And>j. same k j \<Longrightarrow> same k (f j)) \<Longrightarrow> (\<And>j. jn_phase j \<noteq> PhStaged \<Longrightarrow> jn_phase (f j) \<noteq> PhStaged) \<Longrightarrow>
   does (inside (started k) Q) (update_job f)"
  by (auto simp: does_def inside_def update_job_def opened_def started_def traces_refl)

lemma under_set:
  "same k j \<Longrightarrow> does (inside (opened k) Q) (set_job j)"
  "same k j \<Longrightarrow> jn_phase j \<noteq> PhStaged \<Longrightarrow> does (inside (started k) Q) (set_job j)"
  by (auto simp: does_def inside_def set_job_def opened_def started_def traces_refl)

lemma under_saves [frames]:
  "does (inside (opened k) Q) (save_job env)" "does (inside (started k) Q) (save_job env)"
  "does (inside (opened k) Q) (write_last env l)" "does (inside (started k) Q) (write_last env l)"
  by (auto simp: does_def inside_def save_job_def bind_n_def get_job_def write_pending_def write_last_def store_write_def
      opened_def started_def traces_refl split: prod.splits write_outcome.splits)

lemma under_replace:
  "path \<in> paths k \<Longrightarrow> does (inside (started k) (entry_ok D)) (replace_file env path img)"
  "path \<in> artifact_paths k \<Longrightarrow> does (inside (started k) (entry_ok D)) (replace_file env path None)"
  "does (inside (opened k) (entry_ok D)) (replace_file env BANNER None)"
  by (auto simp: does_def inside_def replace_file_def effect_def started_def opened_def entry_ok_def same_def
      artifact_paths_def traces_def split: prod.splits option.splits)

text \<open>The files of the transaction's handoff may be written in any phase, and its dropped connections deleted.\<close>

definition bound_event :: "journal \<Rightarrow> net_event \<Rightarrow> bool" where
  "bound_event k e =
     (case e of
        EvRun s _ \<Rightarrow> \<not> changing (cs_tool s) (cs_args s) \<or> prunes k s
      | EvReplace path img _ \<Rightarrow> handoff_write k path img
      | _ \<Rightarrow> False)"

lemma reads_bound [simp]: "reads (bound_event k)"
  by (simp add: reads_def bound_event_def)

lemma opened_bound:
  assumes "does (extends (bound_event k)) m"
  shows "does (inside (opened k) (entry_ok D)) m"
proof (rule under_extends [OF assms])
  fix w :: "'a net_world" and e
  assume w: "opened k w" and e: "bound_event k e"
  obtain j where j: "nw_pending w = Some j" "same k j" using w by (auto simp: opened_def)
  have "handoff_write j = handoff_write k" "prunes j = prunes k"
    using j(2) same_nm(2) [OF j(2)] by (auto simp: fun_eq_iff handoff_write_def prunes_def same_def)
  moreover have "prunes k s \<Longrightarrow> cs_tool s \<noteq> SystemdRun" for s by (simp add: prunes_def)
  ultimately show "entry_ok D (e, nw_pending w)"
    using e j(1) by (cases e) (auto simp: bound_event_def entry_ok_def)
qed (auto simp: opened_def)

lemma frame_bounds:
  "jn_handoff k = Some t \<Longrightarrow> does (extends (bound_event k)) (handoff_reserve env t job)"
  "jn_handoff k = Some t \<Longrightarrow> does (extends (bound_event k)) (handoff_restored env t)"
  "jn_handoff k = Some t \<Longrightarrow> does (extends (bound_event k)) (handoff_kept env t job)"
  "same k j \<Longrightarrow> does (extends (bound_event k)) (prune_nm env (jn_plan j))"
proof -
  show "jn_handoff k = Some t \<Longrightarrow> does (extends (bound_event k)) (handoff_reserve env t job)"
    by (rule frame_reserve) (simp add: bound_event_def handoff_write_def)
  show "jn_handoff k = Some t \<Longrightarrow> does (extends (bound_event k)) (handoff_restored env t)"
    by (rule frame_restored) (auto simp: bound_event_def handoff_write_def handoff_markers_def)
  show "jn_handoff k = Some t \<Longrightarrow> does (extends (bound_event k)) (handoff_kept env t job)"
    by (rule frame_kept) (simp add: bound_event_def handoff_write_def)
  show "same k j \<Longrightarrow> does (extends (bound_event k)) (prune_nm env (jn_plan j))"
    using same_nm(2) [of k j]
    by (intro frame_prune) (auto simp: allows_def bound_event_def prunes_def prunable_def)
qed

section \<open>Timers\<close>

lemma schedule_unit: "''--unit='' @ timer_unit kind j \<in> set (schedule_args j kind delay repeat)"
  by (simp add: schedule_args_def)

lemma schedule_entries:
  assumes "schedule env j kind delay repeat w = (r, w')" "nw_pending w = Some p" "timer_unit kind j \<in> timers p"
  shows "traces (entry_ok D) w w' \<and> nw_pending w' = nw_pending w \<and> nw_job w' = nw_job w"
proof -
  let ?P = "\<lambda>e. \<exists>s b. e = EvRun s b \<and> cs_tool s = SystemdRun \<and> ''--unit='' @ timer_unit kind j \<in> set (cs_args s)"
  have "does (extends ?P) (schedule env j kind delay repeat)"
    using schedule_unit [of kind j delay repeat]
    by (auto simp: schedule_def run_owned_def host_output_def run_command_def Let_def intro!: frames split: option.split)
  then have ext: "extends ?P w w'" using assms(1) doesD by blast
  have "traces (entry_ok D) w w'"
    by (rule extends_traces [OF ext]) (use assms(2,3) in \<open>auto simp: entry_ok_def simp del: append.simps\<close>)
  with ext show ?thesis by (simp add: extends_def)
qed

lemma timer_fixed: "kind \<in> {''apply'', ''guard'', ''retry''} \<Longrightarrow> jn_job_id j = jn_job_id p \<Longrightarrow> timer_unit kind j \<in> timers p"
  by (auto simp: timer_unit_def timers_def)

lemma timer_window: "1 \<le> unat (jn_timer_generation p) \<Longrightarrow> timer_unit ''window'' p \<in> timers p"
  by (auto simp: timer_unit_def timers_def)

lemma under_schedule:
  assumes "kind \<in> {''apply'', ''guard'', ''retry''}" "jn_job_id j = jn_job_id k"
  shows "does (inside (opened k) (entry_ok D)) (schedule env j kind delay repeat)"
    "does (inside (started k) (entry_ok D)) (schedule env j kind delay repeat)"
proof -
  have step: "traces (entry_ok D) w w' \<and> nw_pending w' = nw_pending w \<and> nw_job w' = nw_job w"
    if w: "opened k w" and run: "schedule env j kind delay repeat w = (r, w')" for w w' :: "'a net_world" and r
  proof -
    obtain p where p: "nw_pending w = Some p" "same k p" using w by (auto simp: opened_def)
    then have "timer_unit kind j \<in> timers p" using assms by (intro timer_fixed) (auto simp: same_def)
    from schedule_entries [OF run p(1) this] show ?thesis .
  qed
  show "does (inside (opened k) (entry_ok D)) (schedule env j kind delay repeat)"
    using step opened_cong(1) by (intro does_underI) blast
  show "does (inside (started k) (entry_ok D)) (schedule env j kind delay repeat)"
    using step opened_cong(2) started_opened by (intro does_underI) blast
qed

lemma bind_nE:
  assumes "bind_n m f w = (r, w')"
  obtains e where "m w = (Inl e, w')" "r = Inl e" | x v where "m w = (Inr x, v)" "f x v = (r, w')"
  using assms by (auto simp: bind_n_def split: prod.splits sum.splits)

lemma seq_nE:
  assumes "seq_n m k w = (r, w')"
  obtains e where "m w = (Inl e, w')" "r = Inl e" | x v where "m w = (Inr x, v)" "k v = (r, w')"
  using assms unfolding seq_n_def by (rule bind_nE)

lemma save_job_spec:
  assumes "save_job env w = (r, w')"
  shows "nw_log w' = nw_log w" "nw_job w' = nw_job w" "nw_last w' = nw_last w"
    "nw_pending w' = nw_pending w \<or> nw_pending w' = Some (nw_job w)" "r = Inr () \<Longrightarrow> nw_pending w' = Some (nw_job w)"
  using assms
  by (auto simp: save_job_def bind_n_def get_job_def write_pending_def store_write_def
      split: prod.splits write_outcome.splits)

lemma window_armed:
  assumes "arm_window env w = (r, w')" "opened k w"
  shows "opened k w' \<and> traces (entry_ok D) w w' \<and> jn_phase (nw_job w') = jn_phase (nw_job w) \<and>
    (nw_pending w' = nw_pending w \<or> nw_pending w' = Some (nw_job w'))"
proof (cases "checked_add (jn_timer_generation (nw_job w)) 1")
  case None
  with assms show ?thesis by (auto simp: arm_window_def bind_n_def get_job_def err_n_def traces_refl)
next
  case (Some g)
  let ?j = "(nw_job w)\<lparr>jn_timer_generation := g\<rparr>" and ?w = "w\<lparr>nw_job := (nw_job w)\<lparr>jn_timer_generation := g\<rparr>\<rparr>"
  have g: "unat g = Suc (unat (jn_timer_generation (nw_job w)))" using checked_add_Some [OF Some] by (metis Suc_eq_plus1 unsigned_1)
  have same: "same k ?j" using assms(2) by (simp add: opened_def same_def paths_def)
  have run: "seq_n (save_job env) (bind_n (now_ms env) (\<lambda>now.
      schedule env ?j ''window'' (saturating_sub (jn_deadline_ms ?j) now) True)) ?w = (r, w')"
    using assms(1) Some
    by (simp add: arm_window_def bind_n_def get_job_def set_job_def seq_n_def Let_def)
  have w: "opened k ?w" "nw_log ?w = nw_log w" using assms(2) same by (auto simp: opened_def)
  from run show ?thesis
  proof (cases rule: seq_nE)
    case (1 e)
    note save = save_job_spec [OF 1(1)]
    from save(4) have "opened k w'"
      using w(1) save(2) by (auto simp: opened_def)
    with save w show ?thesis by (auto simp: traces_refl)
  next
    case (2 u v)
    note save = save_job_spec [OF 2(1)]
    have v: "nw_pending v = Some ?j" "nw_job v = ?j" "nw_log v = nw_log w" using save w by auto
    from 2(2) show ?thesis
    proof (cases rule: bind_nE)
      case (1 e)
      have "extends (\<lambda>_. False) v w'" using frame_clock(1) doesD 1(1) by blast
      with v same show ?thesis by (simp add: extends_silent opened_def traces_refl)
    next
      case (2 now u)
      have "extends (\<lambda>_. False) v u" using frame_clock(1) doesD 2(1) by blast
      with v have u: "nw_pending u = Some ?j" "nw_job u = ?j" "nw_log u = nw_log w"
        by (simp_all add: extends_silent)
      have "timer_unit ''window'' ?j \<in> timers ?j" using g by (intro timer_window) simp
      from schedule_entries [OF 2(2) u(1) this] u same show ?thesis
        by (auto simp: opened_def traces_def)
    qed
  qed
qed

lemma under_window [frames]:
  "does (inside (opened k) (entry_ok D)) (arm_window env)" "does (inside (started k) (entry_ok D)) (arm_window env)"
proof -
  show "does (inside (opened k) (entry_ok D)) (arm_window env)"
    using window_armed by (intro does_underI) blast
  have "started k w'" if "started k w" "arm_window env w = (r, w')" for w w' :: "'a net_world" and r
    using window_armed [where D = "\<lambda>_. False", OF that(2) started_opened [OF that(1)]] that(1)
    by (auto simp: started_def opened_def)
  then show "does (inside (started k) (entry_ok D)) (arm_window env)"
    using window_armed started_opened by (intro does_underI) blast
qed

lemma bind_get_job: "bind_n get_job f w = f (nw_job w) w"
  by (simp add: bind_n_def get_job_def)

lemma under_get:
  "(\<And>j. same k j \<Longrightarrow> does (inside (opened k) Q) (f j)) \<Longrightarrow> does (inside (opened k) Q) (bind_n get_job f)"
  "(\<And>j. same k j \<Longrightarrow> jn_phase j \<noteq> PhStaged \<Longrightarrow> does (inside (started k) Q) (f j)) \<Longrightarrow>
   does (inside (started k) Q) (bind_n get_job f)"
  by (auto simp: does_def inside_def bind_get_job opened_def started_def)

lemma starting_get:
  "(\<And>j. same k j \<Longrightarrow> starting (opened k) Q (f j)) \<Longrightarrow> starting (opened k) Q (bind_n get_job f)"
  "(\<And>j. same k j \<Longrightarrow> jn_phase j \<noteq> PhStaged \<Longrightarrow> starting (started k) Q (f j)) \<Longrightarrow>
   starting (started k) Q (bind_n get_job f)"
  by (auto simp: starting_def bind_get_job opened_def started_def)

lemma under_retry:
  "does (inside (opened k) (entry_ok D)) (arm_retry env)" "does (inside (started k) (entry_ok D)) (arm_retry env)"
proof -
  show "does (inside (opened k) (entry_ok D)) (arm_retry env)"
    unfolding arm_retry_def
    by (rule under_get, rule un.does_bind, rule opened_plain) (auto intro!: frames under_schedule simp: same_def)
  show "does (inside (started k) (entry_ok D)) (arm_retry env)"
    unfolding arm_retry_def
    by (rule under_get, rule un.does_bind, rule started_backend) (auto intro!: frames under_schedule simp: same_def)
qed

lemma plain_stop_timers [frames]: "does (extends (plain_event D)) (stop_timers env j)"
  unfolding stop_timers_def by (auto intro!: frames)

section \<open>Endings\<close>

lemma traces_close [frames]: "does (traces (entry_ok D)) (close_journal env j l)"
  unfolding close_journal_def by (intro frames traces_plain)

lemma starting_unmodified: "same k j \<Longrightarrow> starting (opened k) (entry_ok D) (finish_unmodified env j p)"
  unfolding finish_unmodified_def
  by (intro starting_seq starting_traces traces_close)
    (auto simp: same_def intro!: un.does_ret opened_bound frame_bounds split: option.split)

lemma starting_committed:
  assumes "same k j"
  shows "starting (opened k) (entry_ok D) (finish_committed env j)"
proof -
  have kept: "does (inside (opened k) (entry_ok D)) (case jn_handoff j of None \<Rightarrow> ret_n () | Some t \<Rightarrow> handoff_kept env t (jn_job_id j))"
    using assms by (auto simp: same_def intro!: un.does_ret opened_bound frame_bounds split: option.split)
  show ?thesis
    unfolding finish_committed_def
    by (intro starting_seq starting_traces traces_close kept opened_bound [OF frame_bounds(4)] un.does_when under_replace assms)
qed

section \<open>Recovery\<close>

lemma under_restore_files:
  "fc_path ` set cs \<subseteq> paths k \<Longrightarrow> does (inside (started k) (entry_ok D)) (restore_files env cs)"
  unfolding restore_files_def by (auto intro!: un.does_each under_replace)

lemma under_write_files:
  "fc_path ` set cs \<subseteq> paths k \<Longrightarrow> does (inside (started k) (entry_ok D)) (write_files env cs)"
  unfolding write_files_def by (auto intro!: un.does_each under_replace)

lemma under_undo:
  assumes "same k j"
  shows "does (inside (started k) (entry_ok D)) (undo env j)"
proof -
  have paths: "fc_path ` set (filter f (pl_files (jn_plan j))) \<subseteq> paths k" for f
    using assms by (auto simp: same_def paths_def)
  have backend: "does (extends (backend_event k)) (restore_backend env j)"
    using same_images [OF assms] unfolding restore_backend_def Let_def by (auto intro!: frames split: option.split)
  have tables: "does (extends (backend_event k)) (restore_tables env j)"
    unfolding restore_tables_def by (auto intro!: frames split: option.split)
  show ?thesis
    unfolding undo_def Let_def
    by (intro un.does_seq un.does_when under_restore_files paths started_backend [OF backend]
        started_backend [OF tables] started_backend) (auto intro!: frames)
qed

lemma starting_recover_body: "starting (started k) (entry_ok D) (recover_body env outcome)"
  unfolding recover_body_def
proof (rule starting_seq [OF under_retry(2)], rule starting_bind [OF started_backend], rule frame_clock,
    rule starting_get(2))
  fix host j
  assume j: "same k j" "jn_phase j \<noteq> PhStaged"
  have paths: "fc_path ` set (pl_files (jn_plan j)) \<subseteq> paths k" using j by (simp add: same_def paths_def)
  have restored: "starting (started k) (entry_ok D) (seq_n (case jn_handoff j of None \<Rightarrow> ret_n ()
      | Some t \<Rightarrow> seq_n (update_job (\<lambda>j. j\<lparr>jn_handoff_restored := True\<rparr>)) (seq_n (save_job env) (handoff_restored host t)))
      (seq_n (remove_journal env) (stop_timers env j)))"
  proof (rule starting_weaken [OF starting_seq started_opened])
    show "does (inside (opened k) (entry_ok D)) (case jn_handoff j of None \<Rightarrow> ret_n ()
      | Some t \<Rightarrow> seq_n (update_job (\<lambda>j. j\<lparr>jn_handoff_restored := True\<rparr>)) (seq_n (save_job env) (handoff_restored host t)))"
      using j(1) by (auto intro!: un.does_ret un.does_seq under_update under_saves opened_bound [OF frame_bounds(2)]
          simp: same_def paths_def split: option.split)
  qed (rule starting_traces [OF tr.does_seq [OF traces_writes(2) traces_plain [OF plain_stop_timers]]])
  have finished: "starting (started k) (entry_ok D) (finish_unmodified env j outcome)"
    by (rule starting_weaken [OF starting_unmodified [OF j(1)] started_opened])
  show "starting (started k) (entry_ok D)
      (if jn_operation j = OpSyncTessera
       then seq_n (restore_files host (pl_files (jn_plan j)))
              (seq_n (run host Systemctl [''daemon-reload''] 20) (finish_unmodified env j outcome))
       else seq_n (undo host j) (seq_n (write_last env (outcome_of j outcome))
              (seq_n (case jn_handoff j of None \<Rightarrow> ret_n ()
                  | Some t \<Rightarrow> seq_n (update_job (\<lambda>j. j\<lparr>jn_handoff_restored := True\<rparr>))
                      (seq_n (save_job env) (handoff_restored host t)))
                (seq_n (remove_journal env) (stop_timers env j)))))"
    using finished restored under_restore_files [OF paths] under_undo [OF j(1)]
    by (auto intro!: starting_seq under_saves started_backend [OF frame_run(2)])
qed

text \<open>The journal is saved past \<open>staged\<close> before anything else happens.\<close>

lemma saved_started:
  assumes "opened k w" "save_job env (w\<lparr>nw_job := f (nw_job w)\<rparr>) = (r, v)"
    and "\<And>j. same k j \<Longrightarrow> same k (f j)" "\<And>j. same k j \<Longrightarrow> jn_phase (f j) \<noteq> PhStaged"
  shows "opened k v" "traces Q w v" "r = Inr () \<Longrightarrow> started k v"
proof -
  have f: "same k (f (nw_job w))" "jn_phase (f (nw_job w)) \<noteq> PhStaged"
    using assms(1,3,4) by (auto simp: opened_def)
  note save = save_job_spec [OF assms(2)]
  show "traces Q w v" using save(1) by (intro traces_refl) simp
  show "opened k v" using save(2,4) f(1) assms(1) by (auto simp: opened_def)
  show "started k v" if "r = Inr ()" using save(2) save(5) [OF that] f by (simp add: started_def)
qed

lemma save_bind: "seq_n (update_job f) (seq_n (save_job env) m) w =
    (case save_job env (w\<lparr>nw_job := f (nw_job w)\<rparr>) of (Inl e, v) \<Rightarrow> (Inl e, v) | (Inr _, v) \<Rightarrow> m v)"
  by (simp add: seq_n_def bind_n_def update_job_def split: prod.splits sum.splits)

lemma starting_save:
  assumes "\<And>j. same k j \<Longrightarrow> same k (f j)" "\<And>j. same k j \<Longrightarrow> jn_phase (f j) \<noteq> PhStaged" "starting (started k) Q m"
  shows "starting (opened k) Q (seq_n (update_job f) (seq_n (save_job env) m))"
  unfolding starting_def
proof (intro allI impI)
  fix w :: "'a net_world"
  assume w: "opened k w"
  obtain r v where v: "save_job env (w\<lparr>nw_job := f (nw_job w)\<rparr>) = (r, v)" by fastforce
  note saved = saved_started [where f = f, OF w v assms(1,2)]
  show "traces Q w (snd (seq_n (update_job f) (seq_n (save_job env) m) w))"
    using saved(2) saved(3) assms(3) unfolding save_bind v
    by (cases r) (auto simp: starting_def intro: traces_trans)
qed

lemma under_save:
  assumes "\<And>j. same k j \<Longrightarrow> same k (f j)" "\<And>j. same k j \<Longrightarrow> jn_phase (f j) \<noteq> PhStaged" "does (inside (started k) Q) m"
  shows "does (inside (opened k) Q) (seq_n (update_job f) (seq_n (save_job env) m))"
  unfolding does_def inside_def
proof (intro allI impI)
  fix w :: "'a net_world"
  assume w: "opened k w"
  obtain r v where v: "save_job env (w\<lparr>nw_job := f (nw_job w)\<rparr>) = (r, v)" by fastforce
  note saved = saved_started [where f = f, OF w v assms(1,2)]
  show "opened k (snd (seq_n (update_job f) (seq_n (save_job env) m) w)) \<and>
      traces Q w (snd (seq_n (update_job f) (seq_n (save_job env) m) w))"
    using saved(1) saved(2) saved(3) assms(3) unfolding save_bind v
    by (cases r) (auto simp: does_def inside_def intro: traces_trans started_opened)
qed

lemma traces_recovery_failed: "does (traces (entry_ok D)) (recovery_failed env e)"
  unfolding recovery_failed_def
  by (intro frames traces_plain runs_plain)

lemma starting_try:
  assumes "starting A Q m" "\<And>x. does (traces Q) (f x)"
  shows "starting A Q (bind_n (try_n m) f)"
proof (rule starting_bind_last)
  show "starting A Q (try_n m)"
    using assms(1) by (auto simp: starting_def try_n_def split: prod.splits)
qed (rule assms(2))

lemma starting_if: "(c \<Longrightarrow> starting A Q m) \<Longrightarrow> (\<not> c \<Longrightarrow> starting A Q k) \<Longrightarrow> starting A Q (if c then m else k)"
  by simp

lemma opened_silent: "does (extends (\<lambda>_. False)) m \<Longrightarrow> does (inside (opened k) (entry_ok D)) m"
  by (rule opened_plain) (erule extends_mono, simp)

lemma starting_recover_locked: "starting (opened k) (entry_ok D) (recover_locked env outcome)"
  unfolding recover_locked_def
proof (rule starting_get(1), rule starting_bind [OF opened_silent [OF frame_engine_committed]], intro starting_if)
  fix j :: journal
  assume j: "same k j"
  show "starting (opened k) (entry_ok D) (finish_committed env j)" by (rule starting_committed [OF j])
  show "starting (opened k) (entry_ok D) (finish_unmodified env j outcome)" by (rule starting_unmodified [OF j])
  show "starting (opened k) (entry_ok D)
      (seq_n (update_job (\<lambda>j. j\<lparr>jn_phase := PhReverting, jn_recovery_pending := True, jn_outcome := outcome\<rparr>))
        (seq_n (save_job env) (bind_n (try_n (recover_body env outcome))
          (\<lambda>r. case r of Inl e \<Rightarrow> recovery_failed env e | Inr _ \<Rightarrow> ret_n ()))))"
    by (intro starting_save starting_try starting_recover_body)
       (auto simp: same_def paths_def intro!: traces_recovery_failed frames split: sum.split)
qed

section \<open>Applying\<close>

lemma plain_preflight: "does (extends (plain_event D)) (engine_preflight env j)"
  unfolding engine_preflight_def by (auto intro!: frames split: option.split)

lemma does_if: "(c \<Longrightarrow> does R m) \<Longrightarrow> (\<not> c \<Longrightarrow> does R m') \<Longrightarrow> does R (if c then m else m')"
  by simp

lemma under_settle: "does (inside (started k) (entry_ok D)) (settle_nm_files env)"
  unfolding settle_nm_files_def
proof (rule under_get(2))
  fix j
  assume j: "same k j" "jn_phase j \<noteq> PhStaged"
  let ?nm = "pl_nm (jn_plan j)"
  have same: "same k (i\<lparr>jn_plan := (jn_plan i)\<lparr>pl_nm := cs\<rparr>\<rparr>)" if "same k i" "nm_shape cs = nm_shape ?nm" for i cs
    using that j(1) by (simp add: same_def paths_def)
  have keep: "does (inside (started k) (entry_ok D)) (keep_images ?nm images)" for images
    unfolding keep_images_def using take_images_shape
    by (auto intro!: un.does_seq un.does_ret un.does_err under_update(2) same split: prod.split option.split)
  have asks: "does (inside (started k) (entry_ok D)) (nm_connection env args n)"
    "does (inside (started k) (entry_ok D)) (now_ms env)"
    "does (inside (started k) (entry_ok D)) (image_loop fuel env fs start until seen)" for args n fuel fs start until seen
    by (intro started_backend; auto simp: nm_connection_def intro!: frames frame_image_loop)+
  show "does (inside (started k) (entry_ok D)) (let nm = ?nm in if \<not> written_back nm then ret_n False
      else seq_n (nm_connection env [''reload''] 20) (bind_n (now_ms env) (\<lambda>start.
        (let until = min (saturating_add start SETTLE_MS) (case ho_deadline (ne_host env) of None \<Rightarrow> - 1 | Some d \<Rightarrow> d)
         in bind_n (image_loop POLL_FUEL env (concat (map nm_files nm)) start until None) (keep_images nm)))))"
    unfolding Let_def by (intro does_if un.does_ret un.does_seq un.does_bind asks keep)
qed

lemma under_change_host:
  assumes "same k j"
  shows "does (inside (started k) (entry_ok D)) (change_host host j)"
proof -
  have paths: "fc_path ` set (filter f (pl_files (jn_plan j))) \<subseteq> paths k" for f
    using assms by (auto simp: same_def paths_def)
  have tables: "does (extends (backend_event k)) (apply_tables host j)"
    unfolding apply_tables_def by (auto intro!: frames split: option.split)
  have artifacts: "does (inside (started k) (entry_ok D)) (case jn_handoff j of None \<Rightarrow> ret_n ()
      | Some t \<Rightarrow> each_n (\<lambda>a. replace_file host (ha_path a) None) (hd_artifacts (tr_document t)))"
    using assms by (auto simp: same_def artifact_paths_def intro!: un.does_ret un.does_each under_replace(2)
        split: option.split)
  have nm: "does (extends (backend_event k)) (activate host p old (pl_nm (jn_plan j)) restore)" for p old restore
    using same_images [OF assms] by (auto intro!: frames)
  show ?thesis
    unfolding change_host_def Let_def
    by (intro un.does_seq un.does_bind un.does_when un.does_ret under_write_files paths artifacts
        started_backend [OF tables] started_backend [OF nm] started_backend) (auto intro!: frames)
qed

lemma set_banner_paths: "set_banner img cs = Some cs' \<Longrightarrow> fc_path ` set cs' = fc_path ` set cs \<and> BANNER \<in> fc_path ` set cs"
  by (induction cs arbitrary: cs') (auto simp: image_iff split: if_splits, force+)

lemma under_publish: "does (inside (started k) (entry_ok D)) (publish_change env host address)"
  unfolding publish_change_def
proof (rule under_get(2))
  fix j
  assume j: "same k j" "jn_phase j \<noteq> PhStaged"
  let ?img = "text_image env (banner_text address) 0x1A4"
  show "does (inside (started k) (entry_ok D))
      (let banner = ?img in case set_banner banner (pl_files (jn_plan j)) of
           None \<Rightarrow> err_n (engine_failed ''publish'' ''missing_banner_snapshot'')
         | Some files \<Rightarrow>
             seq_n (set_job (j\<lparr>jn_plan := (jn_plan j)\<lparr>pl_files := files\<rparr>\<rparr>))
             (seq_n (save_job env)
             (seq_n (replace_file host BANNER (Some banner))
             (seq_n (restore_consumers host ((jn_plan j)\<lparr>pl_files := files\<rparr>) False)
             (seq_n (update_job (\<lambda>j. j\<lparr>jn_management_address := Some address, jn_phase := PhApplied\<rparr>))
             (bind_n (now_ms env) (\<lambda>now.
             seq_n (update_job (\<lambda>j. j\<lparr>jn_applied_ms := Some now, jn_deadline_ms := saturating_add now CONFIRM_MS\<rparr>))
             (seq_n (save_job env) (arm_window env)))))))))"
  proof (cases "set_banner ?img (pl_files (jn_plan j))")
    case None
    then show ?thesis by (simp add: Let_def un.does_err)
  next
    case (Some files)
    have "same k (j\<lparr>jn_plan := (jn_plan j)\<lparr>pl_files := files\<rparr>\<rparr>)" "BANNER \<in> paths k"
      using set_banner_paths [OF Some] j by (auto simp: same_def paths_def)
    then show ?thesis
      unfolding Let_def Some option.case
      by (intro un.does_seq un.does_bind under_set(2) under_saves under_update(2) under_window under_replace(1)
          started_backend frame_services frame_clock) (use j in \<open>auto simp: same_def paths_def\<close>)
  qed
qed

lemma under_apply_body: "does (inside (opened k) (entry_ok D)) (apply_body env)"
  unfolding apply_body_def
  by (rule under_get(1), rule un.does_seq [OF opened_plain [OF plain_preflight]], rule under_save)
     (auto simp: same_def paths_def intro!: un.does_bind un.does_seq un.does_when under_get(2) under_saves under_settle
       under_publish under_change_host started_backend [OF frame_clock(3)] un.does_ret)

lemma starting_apply_failed: "starting (opened k) (entry_ok D) (apply_failed env e)"
  unfolding apply_failed_def
proof (rule starting_get(1), rule starting_if)
  have "starting (opened k) (entry_ok D) (seq_n (save_job env) (seq_n (recover_locked env PhFailed) (err_n e)))"
    by (intro starting_seq under_saves starting_seq_last [OF starting_recover_locked] frames)
  moreover have "starting (opened k) (entry_ok D) (seq_n (finish_unmodified env j PhFailed) (err_n e))" if "same k j" for j
    by (intro starting_seq_last [OF starting_unmodified [OF that]] frames)
  ultimately show "starting (opened k) (entry_ok D)
      (seq_n (update_job (\<lambda>j. j\<lparr>jn_apply_error := Some e, jn_outcome := PhFailed\<rparr>))
        (bind_n get_job (\<lambda>j. if jn_phase j = PhStaged then seq_n (finish_unmodified env j PhFailed) (err_n e)
           else seq_n (save_job env) (seq_n (recover_locked env PhFailed) (err_n e)))))"
    by (intro starting_seq [OF under_update(1)] starting_get(1)) (auto simp: same_def paths_def)
qed (intro starting_traces frames)

section \<open>Entering an operation\<close>

lemma starting_read:
  assumes "does (traces Q) (f None)" "\<And>j. starting (\<lambda>w. nw_pending w = Some j) Q (f (Some j))"
  shows "starting A Q (bind_n (read_pending env) f)"
  unfolding starting_def
proof (intro allI impI)
  fix w
  obtain r v where read: "read_pending env w = (r, v)" by fastforce
  then have v: "nw_log v = nw_log w" "\<And>x. r = Inr x \<Longrightarrow> x = nw_pending v"
    by (auto simp: read_pending_def store_read_def split: prod.splits option.splits)
  have "traces Q v (snd (f x v))" if "r = Inr x" for x
    using v(2) [OF that] assms by (cases "nw_pending v") (auto simp: does_def starting_def)
  then show "traces Q w (snd (bind_n (read_pending env) f w))"
    using read v(1) by (cases r) (auto simp: bind_n_def traces_def)
qed

lemma starting_matching:
  assumes "\<And>j. starting (\<lambda>w. nw_pending w = Some j) Q (f j)"
  shows "starting A Q (bind_n (matching env token) f)"
  unfolding starting_def
proof (intro allI impI)
  fix w
  obtain r v where found: "matching env token w = (r, v)" by fastforce
  have "traces Q w v"
  proof (rule traces_refl)
    have "does (extends (\<lambda>_. False)) (matching env token)"
      unfolding matching_def by (auto intro!: frames split: option.split)
    then show "nw_log v = nw_log w" using found doesD extends_silent by blast
  qed
  moreover have "nw_pending v = Some j" if "r = Inr j" for j
    using found that
    by (auto simp: matching_def read_pending_def read_last_def store_read_def bind_n_def ret_n_def err_n_def
        split: if_splits option.splits prod.splits sum.splits)
  ultimately show "traces Q w (snd (bind_n (matching env token) f w))"
    using found assms by (cases r) (auto simp: bind_n_def starting_def intro: traces_trans)
qed

lemma starting_set:
  assumes "starting (opened j) Q m"
  shows "starting (\<lambda>w. nw_pending w = Some j) Q (seq_n (set_job j) m)"
proof -
  have "opened j (w\<lparr>nw_job := j\<rparr>)" if "nw_pending w = Some j" for w :: "'a net_world"
    using that by (simp add: opened_def)
  with assms show ?thesis
    by (fastforce simp: starting_def seq_n_def bind_n_def set_job_def traces_def)
qed

lemma starting_locked: "starting (opened j) (entry_ok D) m \<Longrightarrow> starting (opened j) (entry_ok D) (seq_n (lock_source env j') m)"
  by (rule starting_seq [OF opened_silent [OF frame_lock_source]])

lemma starting_asked:
  "(\<And>x. starting (opened k) (entry_ok D) (f x)) \<Longrightarrow> starting (opened k) (entry_ok D) (bind_n (engine_committed env j) f)"
  "(\<And>x. starting (opened k) (entry_ok D) (g x)) \<Longrightarrow> starting (opened k) (entry_ok D) (bind_n (elapsed env j) g)"
  using starting_bind [OF opened_silent [OF frame_engine_committed]] starting_bind [OF opened_silent [OF frame_elapsed]]
  by blast+

lemma starting_entered:
  assumes "starting (\<lambda>_. True) (entry_ok D) m"
  shows "starting (\<lambda>_. True) (entry_ok D) (seq_n (store_lock env) m)"
proof -
  have "does (traces (entry_ok D)) (store_lock env)"
    by (rule traces_plain) (rule frames)
  with assms show ?thesis
    by (intro starting_seq) (auto simp: does_def inside_def)
qed

lemma starting_leaf: "starting A Q (ret_n x)" "starting A Q (err_n e)"
  by (intro starting_traces frames)+

lemma starting_ignored: "starting A Q m \<Longrightarrow> starting A Q (ignore_n m)"
  by (simp add: starting_def ignore_n_def)

lemma starting_checked: "(\<And>x. r = Inr x \<Longrightarrow> starting A Q (f x)) \<Longrightarrow> starting A Q (bind_n (of_result_n r) f)"
  by (cases r) (auto simp: starting_def bind_n_def of_result_n_def intro: traces_refl)

lemma plain_anywhere: "does (extends (plain_event D)) m \<Longrightarrow> does (inside (\<lambda>_. True) (entry_ok D)) m"
  using traces_plain by (fastforce simp: does_def inside_def)

lemmas starting_host = starting_bind [OF plain_anywhere] starting_seq [OF plain_anywhere]

lemmas entering = starting_entered starting_read starting_matching starting_set starting_locked starting_asked
  starting_if starting_committed starting_unmodified starting_recover_locked starting_leaf tr.does_ret tr.does_err
  starting_seq_last [OF starting_committed] starting_seq_last [OF starting_recover_locked]

section \<open>The operations\<close>

lemma calls_revert:
  "starting (\<lambda>_. True) (entry_ok D) (revert env token)" "starting (\<lambda>_. True) (entry_ok D) (engine_rollback env)"
  unfolding revert_def engine_rollback_def by (auto intro!: entering)

lemma calls_apply: "starting (\<lambda>_. True) (entry_ok D) (run_apply_job env job)"
  unfolding run_apply_job_def
  by (auto intro!: entering starting_bind [OF un.does_try [OF under_apply_body]] starting_apply_failed split: sum.split)

definition holding :: "journal \<Rightarrow> 'h net_world \<Rightarrow> bool" where
  "holding j w = (nw_pending w = Some j \<and> nw_job w = j)"

lemma holding_opened: "holding j w \<Longrightarrow> opened j w"
  by (simp add: holding_def opened_def)

lemma holding_plain: "does (extends (plain_event D)) m \<Longrightarrow> does (inside (holding j) (entry_ok D)) m"
  by (erule under_extends) (auto simp: holding_def intro: entry_plain)

lemma starting_held: "starting (holding j) Q m \<Longrightarrow> starting (\<lambda>w. nw_pending w = Some j) Q (seq_n (set_job j) m)"
proof -
  assume m: "starting (holding j) Q m"
  have "traces Q w (snd (m (w\<lparr>nw_job := j\<rparr>)))" if "nw_pending w = Some j" for w
    using m that by (auto simp: starting_def holding_def traces_def dest!: spec [of _ "w\<lparr>nw_job := j\<rparr>"])
  then show ?thesis by (simp add: starting_def seq_n_def bind_n_def set_job_def)
qed

lemma starting_opened_held: "starting (opened j) Q m \<Longrightarrow> starting (holding j) Q m"
  by (simp add: starting_def holding_opened)

lemma decide_entry:
  assumes "jn_phase j = PhApplied" "next_commit j = Inr next'"
  shows "does (inside (holding j) (entry_ok D)) (compare_commit env (jn_base j) next')"
  by (rule does_underI)
     (use assms in \<open>auto simp: compare_commit_def effect_def holding_def entry_ok_def traces_def split: prod.splits\<close>)

lemma starting_decide:
  assumes "jn_phase j = PhApplied"
  shows "starting (holding j) (entry_ok D) (engine_decide env j)"
  unfolding engine_decide_def
proof (rule starting_checked, rule starting_bind [OF un.does_try [OF decide_entry [OF assms]]])
  fix next' r
  have tail: "starting (opened j) (entry_ok D)
      (seq_n (update_job (\<lambda>j. j\<lparr>jn_phase := PhConfirmed\<rparr>)) (seq_n (ignore_n (save_job env))
        (bind_n get_job (\<lambda>j. seq_n (ignore_n (finish_committed env j)) (ret_n next')))))"
    by (intro starting_seq under_update(1) un.does_ignore under_saves starting_get(1)
        starting_seq_last [OF starting_ignored [OF starting_committed]] tr.does_ret) (auto simp: same_def paths_def)
  have kept: "does (extends (plain_event D)) (case r of Inl e \<Rightarrow> bind_n (engine_committed env j) (\<lambda>kept. if kept then ret_n () else err_n e)
      | Inr _ \<Rightarrow> ret_n ())"
    by (auto intro!: frames split: sum.split)
  show "starting (holding j) (entry_ok D)
      (seq_n (case r of Inl e \<Rightarrow> bind_n (engine_committed env j) (\<lambda>kept. if kept then ret_n () else err_n e) | Inr _ \<Rightarrow> ret_n ())
        (seq_n (update_job (\<lambda>j. j\<lparr>jn_phase := PhConfirmed\<rparr>)) (seq_n (ignore_n (save_job env))
          (bind_n get_job (\<lambda>j. seq_n (ignore_n (finish_committed env j)) (ret_n next'))))))"
    by (rule starting_weaken [OF starting_seq [OF opened_plain [OF kept] tail] holding_opened])
qed

lemma calls_confirm: "starting (\<lambda>_. True) (entry_ok D) (confirm env token local_address)"
proof -
  have session: "does (extends (plain_event D)) (session_allowed env j local_address)" for j
    unfolding session_allowed_def Let_def by (auto intro!: frames)
  have held: "starting (holding j) (entry_ok D) (seq_n (finish_committed env j) (err_n NotPending))"
    "starting (holding j) (entry_ok D) (seq_n (recover_locked env PhExpired) (err_n Expired))" for j
    by (intro starting_opened_held starting_seq_last [OF starting_committed] starting_seq_last [OF starting_recover_locked]
        same_refl tr.does_err)+
  show ?thesis
    unfolding confirm_def
    by (intro starting_if starting_leaf starting_entered starting_matching starting_held held starting_decide
        starting_seq [OF holding_plain] starting_bind [OF holding_plain] session)
       (auto intro!: frames)
qed

text \<open>The legacy migration and the release to another owner have their own files and records.\<close>

definition unrecorded :: "'h net_env \<Rightarrow> bool" where
  "unrecorded env =
     ((\<forall>job w. nw_log (snd (ne_migrate env job w)) = nw_log w) \<and> (\<forall>w. nw_log (snd (ne_complete_release env w)) = nw_log w))"

lemma starting_unrecorded:
  assumes "unrecorded env"
  shows "(\<And>x. starting (\<lambda>_. True) Q (f x)) \<Longrightarrow> starting (\<lambda>_. True) Q (bind_n (ne_migrate env job) f)"
    "(\<And>x. starting (\<lambda>_. True) Q (g x)) \<Longrightarrow> starting (\<lambda>_. True) Q (bind_n (try_n (ne_migrate env job)) g)"
    "(\<And>x. starting (\<lambda>_. True) Q (h x)) \<Longrightarrow> starting (\<lambda>_. True) Q (bind_n (ne_complete_release env) h)"
proof -
  have m: "does (inside (\<lambda>_. True) Q) (ne_migrate env job)" "does (inside (\<lambda>_. True) Q) (ne_complete_release env)"
    using assms by (simp_all add: unrecorded_def does_def inside_def traces_refl)
  show "(\<And>x. starting (\<lambda>_. True) Q (f x)) \<Longrightarrow> starting (\<lambda>_. True) Q (bind_n (ne_migrate env job) f)"
    by (rule starting_bind [OF m(1)])
  show "(\<And>x. starting (\<lambda>_. True) Q (g x)) \<Longrightarrow> starting (\<lambda>_. True) Q (bind_n (try_n (ne_migrate env job)) g)"
    by (rule starting_bind [OF un.does_try [OF m(1)]])
  show "(\<And>x. starting (\<lambda>_. True) Q (h x)) \<Longrightarrow> starting (\<lambda>_. True) Q (bind_n (ne_complete_release env) h)"
    by (rule starting_bind [OF m(2)])
qed

lemma calls_recovery:
  assumes "unrecorded env"
  shows "starting (\<lambda>_. True) (entry_ok D) (run_recovery env job)"
  unfolding run_recovery_def
  by (auto intro!: entering starting_unrecorded [OF assms] starting_under [OF under_window(1)])

lemma starting_noted:
  "does (inside A Q) m \<Longrightarrow> does (inside A Q) (noted path m notes)"
  unfolding noted_def by (intro un.does_bind un.does_try un.does_ret)

lemma under_noted_files:
  "fc_path ` set cs \<subseteq> paths k \<Longrightarrow> does (inside (started k) (entry_ok D)) (noted_files env cs us)"
  by (induction cs arbitrary: us) (auto intro!: un.does_ret un.does_bind starting_noted under_replace(1))

lemma under_give_up:
  assumes "same k j"
  shows "does (inside (started k) (entry_ok D)) (give_up host j)"
proof -
  have paths: "fc_path ` set (filter f (rev (pl_files (jn_plan j)))) \<subseteq> paths k" for f
    using assms by (auto simp: same_def paths_def)
  have created: "does (extends (backend_event k)) (discard_created host (jn_plan j))"
    using same_images [OF assms] by (auto intro!: frames)
  show ?thesis
    unfolding give_up_def Let_def
    by (intro un.does_seq un.does_bind un.does_when un.does_ret un.does_ignore under_noted_files paths starting_noted
        started_backend [OF created] started_backend) (auto intro!: frames)
qed

lemma holding_started: "jn_phase j \<noteq> PhStaged \<Longrightarrow> starting (started j) Q m \<Longrightarrow> starting (holding j) Q m"
  by (erule starting_weaken) (simp add: holding_def started_def)

lemma calls_accept: "starting (\<lambda>_. True) (entry_ok D) (accept_current env)"
  unfolding accept_current_def
  by (auto intro!: starting_entered starting_read starting_held starting_if starting_leaf tr.does_err
      starting_bind [OF holding_plain [OF frame_engine_committed]]
      starting_opened_held [OF starting_seq_last [OF starting_committed tr.does_err]]
      holding_started [OF _ starting_bind [OF started_backend [OF frame_clock(3)]]] starting_bind [OF under_give_up]
      starting_traces [OF tr.does_seq [OF traces_close tr.does_ret]])

section \<open>Reading and staging\<close>

lemma frame_writable [frames]: "does (extends P) (writable env)"
  unfolding writable_def by (auto intro!: frames)

lemma frame_idle [frames]: "does (extends P) (engine_idle env)"
  unfolding engine_idle_def by (auto intro!: frames)

lemma frame_current [frames]: "does (extends P) (current_with env adopt)" "does (extends P) (current env)"
  unfolding current_def current_with_def by (auto intro!: frames split: option.split)

lemma frame_prepare [frames]:
  assumes "reads P"
  shows "does (extends P) (prepare env candidate revision)" "does (extends P) (preview_change env candidate revision)"
  using assms unfolding preview_change_def prepare_def Let_def by (auto intro!: frames split: prod.split)

lemma frame_public [frames]: "does (extends P) (public env j)"
  unfolding public_def Let_def by (auto intro!: frames split: option.split)

lemma frame_matching [frames]: "does (extends P) (matching env token)"
  unfolding matching_def by (auto intro!: frames split: option.split)

lemma frame_pending [frames]: "does (extends P) (pending env token)"
  unfolding pending_def by (intro frames)

lemma frame_probe_calls [frames]:
  assumes "reads P"
  shows "does (extends P) (check_address env a)" "does (extends P) (guard_immediate_session env candidate peer local)"
  using assms unfolding check_address_def guard_immediate_session_def by (auto intro!: frames)

text \<open>A step that may end the operation: on success the state is kept.\<close>

lemma starting_or_withdraw:
  assumes "does (inside (opened k) (entry_ok D)) m" "starting (opened k) (entry_ok D) rest" "same k j"
  shows "starting (opened k) (entry_ok D) (seq_n (or_withdraw env j m) rest)"
  unfolding starting_def
proof (intro allI impI)
  fix w :: "'a net_world"
  assume w: "opened k w"
  obtain r v where m: "m w = (r, v)" by fastforce
  with assms(1) w have v: "opened k v" "traces (entry_ok D) w v"
    by (auto simp: does_def inside_def dest!: spec [of _ w])
  show "traces (entry_ok D) w (snd (seq_n (or_withdraw env j m) rest w))"
  proof (cases r)
    case (Inr u)
    then have "seq_n (or_withdraw env j m) rest w = rest v"
      using m by (simp add: or_withdraw_def seq_n_def bind_n_def try_n_def ret_n_def)
    then show ?thesis using assms(2) v by (auto simp: starting_def intro: traces_trans)
  next
    case (Inl e)
    have "snd (seq_n (or_withdraw env j m) rest w) = snd (finish_unmodified env j PhFailed v)"
      using m Inl
      by (auto simp: or_withdraw_def seq_n_def bind_n_def try_n_def err_n_def split: prod.splits sum.splits)
    moreover have "traces (entry_ok D) v (snd (finish_unmodified env j PhFailed v))"
      using starting_unmodified [OF assms(3), of D env PhFailed] v(1) by (simp add: starting_def)
    ultimately show ?thesis using v(2) by (auto intro: traces_trans)
  qed
qed

lemma written_opened:
  assumes "starting (opened j) Q m"
  shows "starting (\<lambda>_. True) Q (seq_n (set_job j) (seq_n (write_pending env j) m))"
  unfolding starting_def
proof (intro allI impI)
  fix w :: "'a net_world"
  obtain r v where v: "write_pending env j (w\<lparr>nw_job := j\<rparr>) = (r, v)" by fastforce
  then have "nw_log v = nw_log w" "r = Inr () \<Longrightarrow> opened j v"
    by (auto simp: write_pending_def store_write_def opened_def split: prod.splits write_outcome.splits)
  then show "traces Q w (snd (seq_n (set_job j) (seq_n (write_pending env j) m) w))"
    using v assms by (cases r) (auto simp: seq_n_def bind_n_def set_job_def starting_def traces_def)
qed

lemma calls_stage_transaction: "starting (\<lambda>_. True) (entry_ok D) (stage_transaction env base plan session handoff)"
proof -
  have rest: "starting (opened j) (entry_ok D)
      (seq_n (or_withdraw env j (schedule env j ''guard'' 180000 True))
        (seq_n (or_withdraw env j (schedule env j ''apply'' 3000 False)) (bind_n (public env j) (\<lambda>p. ret_n (x p)))))"
    for j and x :: "pending_network \<Rightarrow> stage_result"
    by (intro starting_or_withdraw under_schedule starting_under un.does_bind un.does_ret opened_plain frames) auto
  have reserved: "starting (opened j) (entry_ok D)
      (seq_n (case handoff of None \<Rightarrow> ret_n () | Some t \<Rightarrow> or_withdraw env j (handoff_reserve env t job)) m)"
    if "jn_handoff j = handoff" "starting (opened j) (entry_ok D) m" for j job and m :: "('a, stage_result) net"
    using that
    by (auto intro!: starting_or_withdraw opened_bound [OF frame_bounds(1)] starting_seq [OF un.does_ret] split: option.split)
  have transfer: "jn_handoff (new_journal token job base plan bid now session handoff) = handoff" for token job bid now
    by (simp add: new_journal_def)
  show ?thesis
    unfolding stage_transaction_def Let_def
    by (intro starting_host(1) [OF extends_sense] starting_host(1) [OF frame_clock(1)] starting_host(1) [OF frame_clock(2)]
        written_opened reserved transfer rest)
qed

lemma calls_stage:
  "starting (\<lambda>_. True) (entry_ok D) (engine_stage env candidate revision session)"
  "starting (\<lambda>_. True) (entry_ok D) (commit_handoff env source expect_impact session)"
  unfolding engine_stage_def commit_handoff_def
  by (auto intro!: starting_host starting_if starting_leaf calls_stage_transaction frames split: prod.split option.split)

text \<open>The decisions the authority may report.\<close>

definition decided :: "'h net_env \<Rightarrow> network_commit \<Rightarrow> bool" where
  "decided env c = (\<exists>h. fst (ne_load env h) = Inr c)"

lemma decided_host [simp]: "decided (env\<lparr>ne_host := x\<rparr>) = decided env"
  by (simp add: decided_def fun_eq_iff)

lemma does_loaded:
  assumes "\<And>c. decided env c \<Longrightarrow> does (extends P) (f c)"
  shows "does (extends P) (bind_n (load_decision env) f)"
  unfolding does_def
proof
  fix w
  show "extends P w (snd (bind_n (load_decision env) f w))"
  proof (cases "ne_load env (nw_host w)")
    case (Pair r h)
    have "decided env c" if "r = Inr c" for c using Pair that unfolding decided_def by (metis fst_conv)
    then have "extends P (w\<lparr>nw_host := h\<rparr>) (snd (f c (w\<lparr>nw_host := h\<rparr>)))" if "r = Inr c" for c
      using that assms by (simp add: does_def)
    then show ?thesis
      using Pair by (cases r) (auto simp: load_decision_def bind_n_def sense_def extends_def)
  qed
qed

lemma plain_table:
  assumes "D c" "firewall (nc_profiles c) 80 = Inr rules"
  shows "does (extends (plain_event D)) (set_table env (Some rules))"
  using assms by (intro frame_set_table) (auto simp: allows_def plain_event_def guard_script_def)

lemma plain_guards:
  assumes "D c"
  shows "does (extends (plain_event D)) (install_guards env c)"
  unfolding install_guards_def
  by (intro ext.does_seq frame_services does_result plain_table [where D = D and c = c] assms) simp_all

lemma plain_refreshed:
  assumes "\<forall>c. decided env c \<longrightarrow> D c"
  shows "does (extends (plain_event D)) (bind_n (load_decision env) (\<lambda>c.
      seq_n (when_n (nps_backend (nc_profiles c) \<noteq> None) (seq_n (ignore_n (slices env))
        (case firewall (nc_profiles c) 80 of Inl _ \<Rightarrow> ret_n () | Inr rules \<Rightarrow> ignore_n (set_table env (Some rules)))))
      (ret_n x)))"
proof (rule does_loaded)
  fix c
  assume "decided env c"
  then have "does (extends (plain_event D)) (case firewall (nc_profiles c) 80 of Inl _ \<Rightarrow> ret_n ()
      | Inr rules \<Rightarrow> ignore_n (set_table env (Some rules)))"
    using assms by (auto intro!: ext.does_ret ext.does_ignore plain_table split: sum.split)
  then show "does (extends (plain_event D)) (seq_n (when_n (nps_backend (nc_profiles c) \<noteq> None) (seq_n (ignore_n (slices env))
        (case firewall (nc_profiles c) 80 of Inl _ \<Rightarrow> ret_n () | Inr rules \<Rightarrow> ignore_n (set_table env (Some rules)))))
      (ret_n x))"
    by (intro ext.does_seq ext.does_when ext.does_ignore ext.does_ret frame_services) simp_all
qed

lemma plain_boot_recovery:
  assumes "\<forall>c. decided env c \<longrightarrow> D c"
  shows "does (extends (plain_event D)) (case r of Inr _ \<Rightarrow> ret_n None
     | Inl error \<Rightarrow> bind_n get_job (\<lambda>j. if \<not> (jn_recovery_pending j \<and> jn_phase j = PhFailed) then err_n error
         else bind_n (load_decision env) (\<lambda>c. seq_n (when_n (nps_backend (nc_profiles c) \<noteq> None) (seq_n (ignore_n (slices env))
            (case firewall (nc_profiles c) 80 of Inl _ \<Rightarrow> ret_n () | Inr rules \<Rightarrow> ignore_n (set_table env (Some rules)))))
            (ret_n (Some (''recovery_pending: '' @ error_text error))))))"
  by (cases r) (simp_all only: sum.case ext.does_ret, intro ext.does_bind ext.does_get_job does_if ext.does_err
      plain_refreshed [OF assms])

lemma starting_boot_recovery:
  "\<forall>c. decided env c \<longrightarrow> D c \<Longrightarrow> starting (opened k) (entry_ok D) (boot_recovery env)"
  unfolding boot_recovery_def by (intro starting_try starting_recover_locked traces_plain plain_boot_recovery)

lemma plain_boot:
  assumes "\<forall>c. decided env c \<longrightarrow> D c"
  shows "does (extends (plain_event D)) (bind_n (load_decision env) (\<lambda>c.
      if nps_backend (nc_profiles c) = None then ret_n None
      else seq_n (check_ownership env) (seq_n (install_guards env c) (ret_n (None :: string option)))))"
    "does (extends (plain_event D)) (boot_release env)"
proof -
  show "does (extends (plain_event D)) (bind_n (load_decision env) (\<lambda>c. if nps_backend (nc_profiles c) = None then ret_n None
      else seq_n (check_ownership env) (seq_n (install_guards env c) (ret_n (None :: string option)))))"
    using assms by (intro does_loaded does_if ext.does_seq ext.does_ret frame_ownership plain_guards) simp_all
  show "does (extends (plain_event D)) (boot_release env)"
    using assms unfolding boot_release_def
    by (intro ext.does_bind [OF extends_sense] does_if does_loaded ext.does_seq ext.does_when ext.does_ret plain_guards) simp_all
qed

lemma calls_boot:
  assumes "unrecorded env" "\<forall>c. decided env c \<longrightarrow> D c"
  shows "starting (\<lambda>_. True) (entry_ok D) (boot_report env)"
proof -
  let ?env = "env\<lparr>ne_host := (ne_host env)\<lparr>ho_boot_recovery := True\<rparr>\<rparr>"
  have D: "\<forall>c. decided ?env c \<longrightarrow> D c" using assms(2) by simp
  have after: "does (traces (entry_ok D)) (case report of Some text \<Rightarrow> ret_n (Some text) | None \<Rightarrow>
      bind_n (load_decision ?env) (\<lambda>c. if nps_backend (nc_profiles c) = None then ret_n None
        else seq_n (check_ownership ?env) (seq_n (install_guards ?env c) (ret_n None))))" for report :: "string option"
    using traces_plain [OF plain_boot(1) [OF D]] by (cases report) (simp_all add: tr.does_ret)
  have "starting (\<lambda>_. True) (entry_ok D) (boot_network ?env)"
    unfolding boot_network_def
    by (rule starting_read)
       (simp_all add: tr.does_bind [OF tr.does_ret after]
         starting_bind_last [OF starting_set [OF starting_locked [OF starting_boot_recovery [OF D]]] after])
  moreover have "starting (\<lambda>_. True) (entry_ok D) (boot_release ?env)"
    by (rule starting_traces [OF traces_plain [OF plain_boot(2) [OF D]]])
  ultimately have "starting (\<lambda>_. True) (entry_ok D) (boot_locked ?env)"
    unfolding boot_locked_def
    by (auto intro!: starting_unrecorded [OF assms(1)] starting_leaf starting_host(1) frames split: sum.split api_error.split)
  then show ?thesis
    unfolding boot_report_def by (intro starting_entered)
qed

text \<open>Operations that leave the journal in memory alone.\<close>

definition job_kept :: "'h net_world \<Rightarrow> 'h net_world \<Rightarrow> bool" where
  "job_kept w w' = (nw_job w' = nw_job w)"

interpretation jk: frame_relation job_kept
  by unfold_locales (simp_all add: job_kept_def)

lemma job_kept_extends: "does (extends (\<lambda>_. True)) m \<Longrightarrow> does job_kept m"
  by (simp add: does_def extends_def job_kept_def)

lemma job_kept_writes [frames]:
  "does job_kept (write_pending env j)" "does job_kept (remove_journal env)" "does job_kept (write_last env l)"
  "does job_kept (save_job env)"
  unfolding save_job_def write_pending_def remove_journal_def write_last_def
  by (auto simp: does_def job_kept_def store_write_def bind_n_def get_job_def split: prod.splits write_outcome.splits)

lemma runs_all [simp]: "runs (\<lambda>_. True)" "puts (\<lambda>_. True) S"
  by (simp_all add: runs_def puts_def)

lemma frame_write_files [frames]:
  "(\<And>p i b. P (EvReplace p i b)) \<Longrightarrow> does (extends P) (write_files env cs)"
  "(\<And>p i b. P (EvReplace p i b)) \<Longrightarrow> does (extends P) (restore_files env cs)"
  unfolding write_files_def restore_files_def by (auto intro!: frames)

lemma frame_stop_timers [frames]: "reads P \<Longrightarrow> does (extends P) (stop_timers env j)"
  unfolding stop_timers_def by (auto intro!: frames)

lemma job_kept_finish [frames]:
  "does job_kept (close_journal env j l)" "does job_kept (finish_committed env j)" "does job_kept (finish_unmodified env j p)"
proof -
  show close: "does job_kept (close_journal env j l)" for j l
    unfolding close_journal_def by (intro frames job_kept_extends) simp
  have ext: "does job_kept (replace_file env path img)" "does job_kept (handoff_kept env t job)"
    "does job_kept (handoff_restored env t)" "does job_kept (prune_nm env plan)" for path img t job plan
    by (intro job_kept_extends frames frame_kept frame_restored frame_prune; simp)+
  show "does job_kept (finish_committed env j)" "does job_kept (finish_unmodified env j p)"
    unfolding finish_committed_def finish_unmodified_def
    by (auto intro!: jk.does_seq jk.does_when jk.does_ret close ext split: option.split)
qed

lemma seq_seq: "bind_n (seq_n m k) (\<lambda>_. l) = seq_n m (seq_n k l)"
  by (rule ext) (simp add: seq_n_def bind_n_def split: prod.split sum.split)

lemma sync_body_outcome:
  assumes "started k w" "jn_operation (nw_job w) = OpSyncTessera" "sync_body env w = (r, w')"
  shows "traces (entry_ok D) w w'" "opened k w' \<or> jn_phase (nw_job w') = PhConfirmed"
    "jn_operation (nw_job w') = OpSyncTessera"
proof -
  let ?j = "nw_job w"
  let ?tail = "seq_n (update_job (\<lambda>j. j\<lparr>jn_phase := PhConfirmed\<rparr>)) (seq_n (save_job env) (bind_n get_job (finish_committed env)))"
  let ?head = "seq_n (write_files env (pl_files (jn_plan ?j))) (run env Systemctl [''daemon-reload''] 20)"
  have run: "bind_n ?head (\<lambda>_. ?tail) w = (r, w')"
    using assms(3) by (simp only: sync_body_def bind_get_job seq_seq)
  have paths: "fc_path ` set (pl_files (jn_plan ?j)) \<subseteq> paths k"
    using assms(1) by (simp add: started_def same_def paths_def)
  have head: "does (inside (started k) (entry_ok D)) ?head" "does job_kept ?head"
    by (intro un.does_seq under_write_files paths started_backend frames; simp)
       (intro job_kept_extends frames; simp)
  have tail: "starting (opened k) (entry_ok D) ?tail"
    by (intro starting_seq under_update(1) under_saves starting_get(1) starting_committed) (auto simp: same_def paths_def)
  from run have "traces (entry_ok D) w w' \<and> (opened k w' \<or> jn_phase (nw_job w') = PhConfirmed) \<and>
      jn_operation (nw_job w') = OpSyncTessera"
  proof (cases rule: bind_nE)
    case (1 e)
    from 1(1) head assms(1,2) started_opened show ?thesis
      by (fastforce dest: doesD simp: inside_def job_kept_def)
  next
    case (2 x v)
    have v: "started k v" "traces (entry_ok D) w v" "nw_job v = ?j"
      using doesD [OF head(1) 2(1)] doesD [OF head(2) 2(1)] assms(1) by (simp_all add: inside_def job_kept_def)
    have "does job_kept (seq_n (save_job env) (bind_n get_job (finish_committed env)))"
      by (intro frames)
    then have "nw_job w' = ?j\<lparr>jn_phase := PhConfirmed\<rparr>"
      using 2(2) v(3) by (auto simp: seq_n_def bind_n_def update_job_def job_kept_def dest: doesD)
    moreover have "traces (entry_ok D) v w'"
      using tail started_opened [OF v(1)] 2(2) by (auto simp: starting_def dest!: spec [of _ v])
    ultimately show ?thesis using v(2) assms(2) by (auto intro: traces_trans)
  qed
  then show "traces (entry_ok D) w w'" "opened k w' \<or> jn_phase (nw_job w') = PhConfirmed"
    "jn_operation (nw_job w') = OpSyncTessera" by blast+
qed

lemma starting_sync_failed:
  assumes "opened k w \<or> jn_phase (nw_job w) = PhConfirmed" "jn_operation (nw_job w) = OpSyncTessera"
  shows "traces (entry_ok D) w (snd (sync_failed env e w))"
proof (cases "jn_phase (nw_job w) = PhConfirmed")
  case True
  with assms(2) show ?thesis
    by (simp add: sync_failed_def get_job_def bind_n_def engine_committed_def ret_n_def seq_n_def when_n_def err_n_def
        traces_refl)
next
  case False
  have "starting (opened k) (entry_ok D) (sync_failed env e)"
    unfolding sync_failed_def
    by (rule starting_get(1), rule starting_asked(1), rule starting_seq_last)
       (auto simp: when_n_def same_def paths_def intro!: starting_seq [OF under_update(1)] starting_recover_locked starting_leaf frames)
  with False assms(1) show ?thesis by (simp add: starting_def)
qed

lemma starting_sync:
  assumes "jn_operation j = OpSyncTessera" "jn_phase j \<noteq> PhStaged"
  shows "starting (holding j) (entry_ok D) (bind_n (try_n (sync_body env)) (case_sum (sync_failed env) ret_n))"
  unfolding starting_def
proof (intro allI impI)
  fix w :: "'a net_world"
  assume "holding j w"
  with assms have w: "started j w" "jn_operation (nw_job w) = OpSyncTessera"
    by (auto simp: holding_def started_def)
  obtain r v where v: "sync_body env w = (r, v)" by fastforce
  note out = sync_body_outcome [OF w v]
  show "traces (entry_ok D) w (snd (bind_n (try_n (sync_body env)) (case_sum (sync_failed env) ret_n) w))"
    using v out(1) traces_trans [OF out(1) starting_sync_failed [OF out(2,3)]]
    by (cases r) (simp_all add: bind_n_def try_n_def ret_n_def)
qed

lemma holding_retry: "does (inside (holding j) (entry_ok D)) (arm_retry env)"
proof (rule does_underI)
  fix w :: "'a net_world" and r w'
  assume w: "holding j w" "arm_retry env w = (r, w')"
  have "does (extends (\<lambda>_. True)) (arm_retry env)"
    unfolding arm_retry_def schedule_def run_owned_def host_output_def run_command_def Let_def
    by (auto intro!: frames split: option.split)
  then have "extends (\<lambda>_. True) w w'" using w(2) by (rule doesD)
  moreover have "traces (entry_ok D) w w'"
    using doesD [OF under_retry(1) w(2), of j] holding_opened [OF w(1)] by (simp add: inside_def)
  ultimately show "holding j w' \<and> traces (entry_ok D) w w'"
    using w(1) by (simp add: holding_def extends_def)
qed

lemma written_held:
  assumes "starting (holding j) Q m"
  shows "starting (\<lambda>_. True) Q (seq_n (set_job j) (seq_n (write_pending env j) m))"
  unfolding starting_def
proof (intro allI impI)
  fix w :: "'a net_world"
  obtain r v where v: "write_pending env j (w\<lparr>nw_job := j\<rparr>) = (r, v)" by fastforce
  then have "nw_log v = nw_log w" "r = Inr () \<Longrightarrow> holding j v"
    by (auto simp: write_pending_def store_write_def holding_def split: prod.splits write_outcome.splits)
  then show "traces Q w (snd (seq_n (set_job j) (seq_n (write_pending env j) m) w))"
    using v assms by (cases r) (auto simp: seq_n_def bind_n_def set_job_def starting_def traces_def)
qed

lemma tessera_fields [simp]:
  "jn_operation (tessera_journal c files job token bid now) = OpSyncTessera"
  "jn_phase (tessera_journal c files job token bid now) = PhApplying"
  by (simp_all add: tessera_journal_def)

lemma calls_sync: "starting (\<lambda>_. True) (entry_ok D) (sync_tessera env)"
  unfolding sync_tessera_def Let_def
  by (auto intro!: starting_host starting_if starting_leaf frames written_held
      starting_bind [OF un.does_try [OF holding_retry]] starting_sync
      starting_opened_held [OF starting_seq_last [OF starting_unmodified]] split: sum.split)

section \<open>Calls\<close>

datatype net_call =
    CallStatus bool
  | CallPreview network_profiles u64
  | CallStage network_profiles u64 "network_session_path option"
  | CallCommitHandoff network_handoff impact_token "network_session_path option"
  | CallPending string
  | CallConfirm string "ip_addr option"
  | CallRevert string
  | CallRollback
  | CallAcceptCurrent
  | CallApplyJob string
  | CallRecovery string
  | CallBoot
  | CallMigrateLegacy
  | CallSyncTessera
  | CallCheckAddress ipv4
  | CallGuardSession network_profiles ip_addr ip_addr

fun serve :: "'h net_env \<Rightarrow> net_call \<Rightarrow> 'h net_world \<Rightarrow> 'h net_world" where
  "serve env (CallStatus adopt) w = snd (observe_with env adopt w)"
| "serve env (CallPreview p r) w = snd (preview_change env p r w)"
| "serve env (CallStage p r s) w = snd (engine_stage env p r s w)"
| "serve env (CallCommitHandoff h i s) w = snd (commit_handoff env h i s w)"
| "serve env (CallPending t) w = snd (pending env t w)"
| "serve env (CallConfirm t a) w = snd (confirm env t a w)"
| "serve env (CallRevert t) w = snd (revert env t w)"
| "serve env CallRollback w = snd (engine_rollback env w)"
| "serve env CallAcceptCurrent w = snd (accept_current env w)"
| "serve env (CallApplyJob j) w = snd (run_apply_job env j w)"
| "serve env (CallRecovery j) w = snd (run_recovery env j w)"
| "serve env CallBoot w = snd (engine_boot env w)"
| "serve env CallMigrateLegacy w = snd (migrate_legacy env w)"
| "serve env CallSyncTessera w = snd (sync_tessera env w)"
| "serve env (CallCheckAddress a) w = snd (check_address env a w)"
| "serve env (CallGuardSession p a b) w = snd (guard_immediate_session env p a b w)"

lemma frame_drift [frames]: "does (extends P) (engine_drift env observed metadata)"
  unfolding engine_drift_def by (auto intro!: frames simp: probe_drift_def split: option.split network_backend.split)

lemma frame_refused [frames]: "does (extends P) (refused env what saved q s)"
  unfolding refused_def observe_port_def Let_def by (intro frames)

lemma frame_observed [frames]:
  assumes "reads P"
  shows "does (extends P) (observed_status env j c l release)" "does (extends P) (source_owned env adopt j saved)"
  using assms unfolding observed_status_def source_owned_def Let_def
  by (auto intro!: frames split: option.split sum.split api_error.split prod.split)

lemma calls_status:
  assumes "unrecorded env"
  shows "starting (\<lambda>_. True) (entry_ok D) (observe_with env adopt)"
proof -
  have release: "does (inside (\<lambda>_. True) (entry_ok D))
      (if c then seq_n (store_lock env) (ne_complete_release env) else ret_n x)" for c x
  proof -
    have "does (inside (\<lambda>_. True) (entry_ok D)) (ne_complete_release env)"
      using assms by (simp add: unrecorded_def does_def inside_def traces_refl)
    then show ?thesis
      by (auto intro!: un.does_seq plain_anywhere [OF frame_reads(3)] un.does_ret)
  qed
  show ?thesis
    unfolding observe_with_def
    by (rule starting_host(1) [OF extends_sense], rule starting_bind [OF release], rule starting_traces, rule traces_plain)
       (auto intro!: frames split: option.split sum.split api_error.split)
qed

lemma calls_migrate: "unrecorded env \<Longrightarrow> starting (\<lambda>_. True) (entry_ok D) (migrate_legacy env)"
  unfolding migrate_legacy_def
  by (intro starting_host(2) [OF frame_writable] starting_entered) (simp add: seq_n_def starting_unrecorded(1) starting_leaf)

lemma starting_reached: "starting (\<lambda>_. True) Q m \<Longrightarrow> traces Q w (snd (m w))"
  by (simp add: starting_def)

lemma plain_reached: "does (extends (plain_event D)) m \<Longrightarrow> traces (entry_ok D) w (snd (m w))"
  using traces_plain [of D m] by (simp add: does_def)

lemmas calls = calls_stage calls_confirm calls_revert calls_accept calls_apply calls_sync

lemma serve_entries:
  assumes "unrecorded env"
  shows "traces (entry_ok (decided env)) w (serve env call w)"
proof (cases call)
  case CallBoot
  then show ?thesis
    using calls_boot [OF assms, of "decided env", simplified]
    by (simp add: engine_boot_def starting_reached [OF starting_seq_last [OF _ tr.does_ret]])
qed (simp_all add: calls [THEN starting_reached] calls_status [OF assms, THEN starting_reached]
    calls_recovery [OF assms, THEN starting_reached] calls_migrate [OF assms, THEN starting_reached]
    frame_prepare [THEN plain_reached] frame_pending [THEN plain_reached] frame_probe_calls [THEN plain_reached])

end
