(* ===== verification/Net_Theorems.thy ===== *)
theory Net_Theorems
  imports Net_Journal Net_Samples
begin

text \<open>
  Properties of the network engine: everything done to the host is covered by the durable journal, a
  successful recovery puts every planned file back, a kept change is never undone, and a confirmation
  decides exactly the applied change it was asked to keep.
\<close>

section \<open>What a recovery writes\<close>

definition replaced :: "(net_event \<times> journal option) list \<Rightarrow> (string \<times> image option \<times> bool) set" where
  "replaced es = {(p, i, b). \<exists>q. (EvReplace p i b, q) \<in> set es}"

text \<open>
  An operation that succeeds has written all of \<open>S\<close>, and nothing else except files of \<open>A\<close> with the images
  they have there.
\<close>

definition beside :: "(string \<times> image option) set \<Rightarrow> (string \<times> image option \<times> bool) set" where
  "beside A = {(p, i, b). (p, i) \<in> A}"

definition replaces ::
  "('h, 'a) net \<Rightarrow> (string \<times> image option \<times> bool) set \<Rightarrow> (string \<times> image option) set \<Rightarrow> bool" where
  "replaces m S A =
     (\<forall>w x v. m w = (Inr x, v) \<longrightarrow>
        (\<exists>new. nw_log v = new @ nw_log w \<and> S \<subseteq> replaced new \<and> replaced new \<subseteq> S \<union> beside A))"

lemma replaced_append [simp]: "replaced (xs @ ys) = replaced xs \<union> replaced ys"
  by (auto simp: replaced_def)

lemma replaced_Nil [simp]: "replaced [] = {}"
  by (simp add: replaced_def)

lemma beside_simps [simp]: "beside {} = {}" "beside (A \<union> B) = beside A \<union> beside B" "A \<subseteq> B \<Longrightarrow> beside A \<subseteq> beside B"
  by (auto simp: beside_def)

lemma replaces_bind:
  assumes "replaces m S A" "\<And>x. replaces (f x) T B"
  shows "replaces (bind_n m f) (S \<union> T) (A \<union> B)"
  unfolding replaces_def
proof (intro allI impI)
  fix w y v
  assume "bind_n m f w = (Inr y, v)"
  then obtain x u where x: "m w = (Inr x, u)" "f x u = (Inr y, v)" by (rule bind_n_Inr)
  obtain a where a: "nw_log u = a @ nw_log w" "S \<subseteq> replaced a" "replaced a \<subseteq> S \<union> beside A"
    using assms(1) x(1) unfolding replaces_def by blast
  obtain b where b: "nw_log v = b @ nw_log u" "T \<subseteq> replaced b" "replaced b \<subseteq> T \<union> beside B"
    using assms(2) x(2) unfolding replaces_def by blast
  from a b have "nw_log v = (b @ a) @ nw_log w" "S \<union> T \<subseteq> replaced (b @ a)"
    "replaced (b @ a) \<subseteq> S \<union> T \<union> beside (A \<union> B)" by auto
  then show "\<exists>new. nw_log v = new @ nw_log w \<and> S \<union> T \<subseteq> replaced new \<and> replaced new \<subseteq> S \<union> T \<union> beside (A \<union> B)"
    by blast
qed

lemma replaces_seq: "replaces m S A \<Longrightarrow> replaces k T B \<Longrightarrow> replaces (seq_n m k) (S \<union> T) (A \<union> B)"
  unfolding seq_n_def by (rule replaces_bind)

lemma replaces_weaken: "replaces m S A \<Longrightarrow> A \<subseteq> B \<Longrightarrow> replaces m S B"
  unfolding replaces_def using beside_simps(3) [of A B] by blast

definition side_event :: "(string \<times> image option) set \<Rightarrow> net_event \<Rightarrow> bool" where
  "side_event A e = (case e of EvReplace p i _ \<Rightarrow> (p, i) \<in> A | _ \<Rightarrow> True)"

lemma runs_side [simp]: "runs (side_event A)" "side_event A (EvRun s b)" "puts (side_event A) B \<longleftrightarrow> B \<subseteq> A"
  by (auto simp: runs_def puts_def side_event_def)

lemma replaces_side:
  assumes "does (extends (side_event A)) m"
  shows "replaces m {} A"
  unfolding replaces_def
proof (intro allI impI)
  fix w x v
  assume "m w = (Inr x, v)"
  then have "extends (side_event A) w v" using assms by (rule doesD [rotated])
  then show "\<exists>new. nw_log v = new @ nw_log w \<and> {} \<subseteq> replaced new \<and> replaced new \<subseteq> {} \<union> beside A"
    unfolding extends_def replaced_def side_event_def beside_def by fastforce
qed

lemma replaces_same: "(\<And>w. nw_log (snd (m w)) = nw_log w) \<Longrightarrow> replaces m {} A"
  unfolding replaces_def by (metis append_Nil empty_subsetI replaced_Nil snd_conv)

lemma replaces_file: "replaces (replace_file env path img) {(path, img, True)} {}"
  by (auto simp: replaces_def replace_file_def effect_def replaced_def is_ok_def split: prod.splits)

lemma replaces_each: "(\<And>x. replaces (f x) {g x} {}) \<Longrightarrow> replaces (each_n f xs) (g ` set xs) {}"
proof (induction xs)
  case Nil
  then show ?case by (simp add: replaces_same ret_n_def)
next
  case (Cons x xs)
  then show ?case using replaces_seq [of "f x" "{g x}" "{}" "each_n f xs"] by simp
qed

definition before_images :: "file_change list \<Rightarrow> (string \<times> image option \<times> bool) set" where
  "before_images cs = (\<lambda>c. (fc_path c, fc_before c, True)) ` set cs"

lemma replaces_restore: "replaces (restore_files env cs) (before_images cs) {}"
  unfolding restore_files_def before_images_def 
  using replaces_each [where f = "\<lambda>c. replace_file env (fc_path c) (fc_before c)" and
      g = "\<lambda>c. (fc_path c, fc_before c, True)", OF replaces_file, of "rev cs"]
  by simp

lemma replaces_when: "replaces m S A \<Longrightarrow> replaces (when_n c m) (if c then S else {}) A"
  by (simp add: when_n_def replaces_same ret_n_def)

lemma undo_writes: "replaces (undo env j) (before_images (pl_files (jn_plan j))) (nm_images (pl_nm (jn_plan j)))"
proof -
  let ?files = "pl_files (jn_plan j)" and ?A = "nm_images (pl_nm (jn_plan j))"
  let ?first = "filter (\<lambda>c. \<not> runtime (fc_path c) \<and> (jn_handoff j \<noteq> None \<or> \<not> slice_file (fc_path c))) ?files"
    and ?second = "filter (\<lambda>c. runtime (fc_path c) \<or> slice_file (fc_path c)) ?files"
    and ?third = "filter (\<lambda>c. ends_with ''.nmconnection'' (fc_path c)) ?files"
  let ?nm = "nps_backend (pl_previous (jn_plan j)) = Some Networkmanager \<and> jn_handoff j \<noteq> None"
  let ?S = "{} \<union> ({} \<union> ({} \<union> (before_images ?first \<union> ({} \<union> ({} \<union> (before_images ?second \<union>
      ((if ?nm then before_images ?third else {}) \<union> ({} \<union> {}))))))))"
  have backend: "does (extends (side_event ?A)) (restore_backend env j)" "does (extends (side_event ?A)) (restore_tables env j)"
    unfolding restore_backend_def restore_tables_def Let_def by (auto intro!: frames split: option.split)
  have "replaces (undo env j) ?S
      (?A \<union> (?A \<union> (?A \<union> ({} \<union> (?A \<union> (?A \<union> ({} \<union> ({} \<union> (?A \<union> ?A)))))))))"
    unfolding undo_def Let_def
    by (intro replaces_seq replaces_restore replaces_when replaces_side [OF backend(1)] replaces_side [OF backend(2)]
        replaces_side) (auto intro!: frames)
  moreover have "?S = before_images ?files"
    by (auto simp: before_images_def)
  ultimately show ?thesis by simp
qed

lemma frame_schedule [frames]: "(\<And>s b. P (EvRun s b)) \<Longrightarrow> does (extends P) (schedule env j kind delay repeat)"
  unfolding schedule_def by (auto simp: allows_def intro!: frames)

lemma frame_retry [frames]: "(\<And>s b. P (EvRun s b)) \<Longrightarrow> does (extends P) (arm_retry env)"
  unfolding arm_retry_def by (auto intro!: frames simp: reads_def)

lemma writes_none: "replaces (write_last env l) {} A" "replaces (remove_journal env) {} A" "replaces (save_job env) {} A"
  "replaces (update_job f) {} A" "replaces (ret_n x) {} A"
  unfolding write_last_def remove_journal_def
  by (auto intro!: replaces_same store_write_log
      simp: save_job_def bind_n_def get_job_def write_pending_def update_job_def ret_n_def)

text \<open>The files that are put back beside the planned ones: the profile files of the connections, and the
  markers of a handoff, which are removed.\<close>

definition taken_back :: "transfer option \<Rightarrow> (string \<times> image option) set" where
  "taken_back t = (case t of None \<Rightarrow> {} | Some t \<Rightarrow> (\<lambda>p. (p, None)) ` handoff_markers t)"

definition put_back :: "journal \<Rightarrow> (string \<times> image option) set" where
  "put_back j = nm_images (pl_nm (jn_plan j)) \<union> taken_back (jn_handoff j)"

lemma replaces_none: "reads (side_event {})" "does (extends (side_event {})) m \<Longrightarrow> replaces m {} A"
  using replaces_weaken [OF replaces_side, of "{}" m A] by simp_all

lemma replaces_both: "replaces m {} A \<Longrightarrow> replaces k {} A \<Longrightarrow> replaces (seq_n m k) {} A"
  using replaces_seq [of m "{}" A k "{}" A] by simp

lemma stop_writes: "replaces (stop_timers env j) {} A"
  by (rule replaces_none) (auto intro!: frames)

lemma restored_writes: "replaces (handoff_restored env t) {} (taken_back (Some t))"
  by (intro replaces_side frame_restored) (auto simp: side_event_def taken_back_def)

lemma close_writes: "replaces (close_journal env j l) {} A"
  unfolding close_journal_def by (intro replaces_both writes_none stop_writes)

lemma unmodified_writes: "replaces (finish_unmodified env j p) {} (taken_back (jn_handoff j))"
proof -
  have "replaces (case jn_handoff j of None \<Rightarrow> ret_n () | Some t \<Rightarrow> handoff_restored env t) {} (taken_back (jn_handoff j))"
    using restored_writes by (auto simp: writes_none split: option.split)
  then show ?thesis unfolding finish_unmodified_def by (intro replaces_both close_writes)
qed

lemma finish_writes:
  "replaces (case jn_handoff j of None \<Rightarrow> ret_n ()
     | Some t \<Rightarrow> seq_n (update_job f) (seq_n (save_job env) (handoff_restored host t))) {} (taken_back (jn_handoff j))"
proof (cases "jn_handoff j")
  case (Some t)
  then show ?thesis by (auto intro!: replaces_both writes_none restored_writes)
qed (simp add: writes_none)

definition closes :: "('h, 'a) net \<Rightarrow> bool" where
  "closes m = (\<forall>w x v. m w = (Inr x, v) \<longrightarrow> nw_pending v = None)"

lemma closes_seq: "closes k \<Longrightarrow> closes (seq_n m k)"
  unfolding closes_def by (auto elim!: seq_n_Inr)

lemma closes_remove: "closes (seq_n (remove_journal env) (stop_timers env j))"
  unfolding closes_def
proof (intro allI impI)
  fix w x v
  assume "seq_n (remove_journal env) (stop_timers env j) w = (Inr x, v)"
  then obtain y u where "remove_journal env w = (Inr y, u)" "stop_timers env j u = (Inr x, v)" by (rule seq_n_Inr)
  then show "nw_pending v = None"
    using doesD [OF frame_stop_timers [OF runs_reads [OF runs_all(1)]], of env j u]
    by (auto simp: remove_journal_def store_write_def extends_def split: prod.splits write_outcome.splits)
qed

text \<open>The part of \<open>recover_body\<close> after its retry is armed, for the journal it reads.\<close>

definition recovered :: "'h net_env \<Rightarrow> 'h net_env \<Rightarrow> network_phase \<Rightarrow> journal \<Rightarrow> ('h, unit) net" where
  "recovered env host outcome' j =
     (if jn_operation j = OpSyncTessera
      then seq_n (restore_files host (pl_files (jn_plan j)))
             (seq_n (run host Systemctl [''daemon-reload''] 20) (finish_unmodified env j outcome'))
      else seq_n (undo host j) (seq_n (write_last env (outcome_of j outcome'))
             (seq_n (case jn_handoff j of None \<Rightarrow> ret_n ()
                 | Some t \<Rightarrow> seq_n (update_job (\<lambda>j. j\<lparr>jn_handoff_restored := True\<rparr>))
                     (seq_n (save_job env) (handoff_restored host t)))
               (seq_n (remove_journal env) (stop_timers env j)))))"

lemma recover_body_recovered:
  "recover_body env outcome' = seq_n (arm_retry env)
     (bind_n (budget env (APPLY_MS - 2000)) (\<lambda>host. bind_n get_job (recovered env host outcome')))"
  by (simp add: recover_body_def recovered_def [abs_def])

lemma recovered_writes: "replaces (recovered env host outcome' j) (before_images (pl_files (jn_plan j))) (put_back j)"
proof -
  let ?S = "before_images (pl_files (jn_plan j))"
  have reload: "replaces (run host Systemctl [''daemon-reload''] 20) {} {}"
    by (rule replaces_side) (auto intro!: frames)
  have "replaces (seq_n (undo host j) (seq_n (write_last env l) (seq_n (case jn_handoff j of None \<Rightarrow> ret_n ()
      | Some t \<Rightarrow> seq_n (update_job f) (seq_n (save_job env) (handoff_restored host t)))
      (seq_n (remove_journal env) (stop_timers env j))))) ?S (put_back j)" for l f
    using replaces_seq [OF undo_writes replaces_seq [OF writes_none(1) [where A = "{}"] replaces_seq [OF finish_writes
          replaces_seq [OF writes_none(2) [where A = "{}"] stop_writes [where A = "{}"]]]]] by (simp add: put_back_def)
  moreover have "replaces (seq_n (restore_files host (pl_files (jn_plan j)))
      (seq_n (run host Systemctl [''daemon-reload''] 20) (finish_unmodified env j outcome'))) ?S (put_back j)"
    using replaces_weaken [OF replaces_seq [OF replaces_restore [of host "pl_files (jn_plan j)"]
          replaces_seq [OF reload unmodified_writes [of env j]]], of "put_back j"]
    by (simp add: put_back_def)
  ultimately show ?thesis unfolding recovered_def by simp
qed

lemma recovered_closes: "closes (recovered env host outcome' j)"
  unfolding recovered_def finish_unmodified_def close_journal_def by (auto intro!: closes_seq closes_remove)

text \<open>The body of a recovery that succeeds has written the before-image of every file, and nothing else but \<open>put_back\<close>.\<close>

lemma recover_body_writes:
  assumes "recover_body env outcome' w = (Inr x, v)"
  shows "\<exists>new. nw_log v = new @ nw_log w \<and> before_images (pl_files (jn_plan (nw_job w))) \<subseteq> replaced new \<and>
      replaced new \<subseteq> before_images (pl_files (jn_plan (nw_job w))) \<union> beside (put_back (nw_job w))"
    and "nw_pending v = None"
proof -
  obtain a u where u: "arm_retry env w = (Inr a, u)" and
    rest: "bind_n (budget env (APPLY_MS - 2000)) (\<lambda>host. bind_n get_job (recovered env host outcome')) u = (Inr x, v)"
    using assms unfolding recover_body_recovered by (elim seq_n_Inr)
  obtain host t where t: "budget env (APPLY_MS - 2000) u = (Inr host, t)" and
    body: "recovered env host outcome' (nw_job t) t = (Inr x, v)"
    using rest by (elim bind_n_Inr) (simp add: get_job_def)
  have silent: "extends (side_event {}) w t"
    using ext.frame_trans [OF doesD [OF frame_retry u] doesD [OF frame_clock(3) t]] by simp
  then obtain old where old: "nw_log t = old @ nw_log w" "replaced old = {}"
    unfolding extends_def replaced_def side_event_def by fastforce
  obtain new where new: "nw_log v = new @ nw_log t" "before_images (pl_files (jn_plan (nw_job t))) \<subseteq> replaced new"
    "replaced new \<subseteq> before_images (pl_files (jn_plan (nw_job t))) \<union> beside (put_back (nw_job t))"
    using recovered_writes body unfolding replaces_def by metis
  from silent have "nw_job t = nw_job w" by (simp add: extends_def)
  with old new show "\<exists>new. nw_log v = new @ nw_log w \<and> before_images (pl_files (jn_plan (nw_job w))) \<subseteq> replaced new \<and>
      replaced new \<subseteq> before_images (pl_files (jn_plan (nw_job w))) \<union> beside (put_back (nw_job w))"
    by (intro exI [of _ "new @ old"]) simp
  show "nw_pending v = None"
    using recovered_closes body unfolding closes_def by metis
qed

fun last_written :: "string \<Rightarrow> (net_event \<times> journal option) list \<Rightarrow> image option option" where
  "last_written p [] = None"
| "last_written p (x # es) =
     (case fst x of
        EvReplace q img ok \<Rightarrow> if ok \<and> p = q then Some img else last_written p es
      | _ \<Rightarrow> last_written p es)"

lemma replaced_Cons:
  "replaced (x # es) = (case fst x of EvReplace p i b \<Rightarrow> insert (p, i, b) (replaced es) | _ \<Rightarrow> replaced es)"
  by (cases x) (auto simp: replaced_def split: net_event.split)

lemma last_written_absent:
  "\<forall>img. (p, img, True) \<notin> replaced new \<Longrightarrow> last_written p (new @ es) = last_written p es"
  by (induction new) (auto simp: replaced_Cons split: net_event.splits)

lemma last_written_member:
  "(p, img, True) \<in> replaced new \<Longrightarrow> \<exists>k. (p, k, True) \<in> replaced new \<and> last_written p (new @ es) = Some k"
proof (induction new)
  case (Cons x new)
  show ?case
  proof (cases "\<exists>k. fst x = EvReplace p k True")
    case True
    then show ?thesis by (auto simp: replaced_Cons)
  next
    case False
    then have "(p, img, True) \<in> replaced new" using Cons.prems by (auto simp: replaced_Cons split: net_event.splits)
    from Cons.IH [OF this] False show ?thesis by (cases "fst x") (auto simp: replaced_Cons)
  qed
qed simp

lemma recovery_failed_fails: "recovery_failed env e w \<noteq> (Inr x, v)"
  by (auto simp: recovery_failed_def err_n_def elim!: bind_n_Inr seq_n_Inr)

text \<open>A recovery that reports success and neither keeps the change nor finds it unmodified runs its body to the end.\<close>

lemma recover_locked_body:
  assumes "recover_locked env outcome' w = (Inr (), v)" "engine_committed env (nw_job w) w = (Inr False, w0)"
    and "jn_phase (nw_job w) \<noteq> PhStaged" "\<not> jn_handoff_restored (nw_job w)"
  obtains u where "nw_log u = nw_log w" "jn_plan (nw_job u) = jn_plan (nw_job w)" "put_back (nw_job u) = put_back (nw_job w)"
    "recover_body env outcome' u = (Inr (), v)"
proof -
  have quiet: "nw_log w0 = nw_log w" "nw_job w0 = nw_job w"
    using doesD [OF frame_engine_committed [of "\<lambda>_. False"] assms(2)] unfolding extends_silent by simp_all
  define j where "j = (nw_job w)\<lparr>jn_phase := PhReverting, jn_recovery_pending := True, jn_outcome := outcome'\<rparr>"
  have "bind_n (engine_committed env (nw_job w)) (\<lambda>kept.
      if kept then finish_committed env (nw_job w)
      else seq_n (update_job (\<lambda>j. j\<lparr>jn_phase := PhReverting, jn_recovery_pending := True, jn_outcome := outcome'\<rparr>))
         (seq_n (save_job env)
           (bind_n (try_n (recover_body env outcome')) (case_sum (recovery_failed env) ret_n)))) w = (Inr (), v)"
    using assms(1,3,4) by (simp add: recover_locked_def bind_get_job cong: if_cong)
  then obtain u where u: "save_job env (w0\<lparr>nw_job := j\<rparr>) = (Inr (), u)" and
    body: "bind_n (try_n (recover_body env outcome')) (case_sum (recovery_failed env) ret_n) u = (Inr (), v)"
    using assms(2) quiet by (auto simp: bind_n_def seq_n_def update_job_def j_def split: sum.splits prod.splits)
  have "recover_body env outcome' u = (Inr (), v)"
    using body recovery_failed_fails by (auto simp: bind_n_def try_n_def ret_n_def split: sum.splits prod.splits)
  moreover have "nw_log u = nw_log w" "jn_plan (nw_job u) = jn_plan (nw_job w)" "put_back (nw_job u) = put_back (nw_job w)"
    using save_job_spec [OF u] quiet by (simp_all add: j_def put_back_def)
  ultimately show thesis using that by blast
qed


lemma sync_job [simp]: "nw_job (world_with j) = j" "nw_pending (world_with j) = Some j" "nw_log (world_with j) = []"
  by (simp_all add: world_with_def)


section \<open>A kept change\<close>

text \<open>
  The authority's decision is the one the journal asks for (or a later revision that carries the same
  network decision): \<open>kept\<close>. What may then be done to the host (\<open>harmless\<close>): commands that ask, reload
  units, start services or stop the transaction's timers; the packet filter of a decision the authority
  holds; the deletion of the connections the change drops; the removal of the banner; and the receipt of a handoff.
\<close>

definition kept :: "journal \<Rightarrow> network_commit \<Rightarrow> bool" where
  "kept j c = (\<exists>e. next_commit j = Inr e \<and> nc_revision e \<le> nc_revision c \<and> c = e\<lparr>nc_revision := nc_revision c\<rparr>)"

definition harmless :: "(network_commit \<Rightarrow> bool) \<Rightarrow> journal \<Rightarrow> net_event \<Rightarrow> bool" where
  "harmless D j e =
     (case e of
        EvRun s _ \<Rightarrow> \<not> changing (cs_tool s) (cs_args s) \<or> guard_script D s \<or> prunes j s
      | EvReplace path img _ \<Rightarrow>
          path = BANNER \<and> img = None \<or>
          (\<exists>t. jn_handoff j = Some t \<and> handoff_path (tr_source t) ''done'' = Inr path \<and> img \<noteq> None)
      | EvDecide _ _ _ \<Rightarrow> False)"

definition on_harmless :: "(network_commit \<Rightarrow> bool) \<Rightarrow> journal \<Rightarrow> net_event \<times> journal option \<Rightarrow> bool" where
  "on_harmless D j x = harmless D j (fst x)"

text \<open>The legacy migration and the release to another owner at most remove the journal.\<close>

definition journal_or_none :: "'h net_env \<Rightarrow> bool" where
  "journal_or_none env =
     ((\<forall>job w. nw_pending (snd (ne_migrate env job w)) \<in> {nw_pending w, None}) \<and>
      (\<forall>w. nw_pending (snd (ne_complete_release env w)) \<in> {nw_pending w, None}))"

definition at_most :: "journal \<Rightarrow> 'h net_world \<Rightarrow> bool" where
  "at_most j w = (nw_pending w = Some j \<or> nw_pending w = None)"

definition at_most_kept :: "journal \<Rightarrow> 'h net_world \<Rightarrow> bool" where
  "at_most_kept j w = (nw_job w = j \<and> at_most j w)"

definition always_kept :: "'h net_env \<Rightarrow> journal \<Rightarrow> bool" where
  "always_kept env j =
     (jn_operation j \<noteq> OpSyncTessera \<and> (\<forall>h c. fst (ne_load env h) = Inr c \<longrightarrow> kept j c))"

lemma reads_harmless [simp]: "reads (harmless D j)"
  by (simp add: reads_def harmless_def)

lemma harmless_plain: "does (extends (plain_event D)) m \<Longrightarrow> does (extends (harmless D j)) m"
  by (erule extends_mono) (auto simp: plain_event_def harmless_def split: net_event.splits)

lemma calm_kept:
  "does (extends (harmless D j)) (case jn_handoff j of None \<Rightarrow> ret_n () | Some t \<Rightarrow> handoff_kept env t job)"
  "does (extends (harmless D j)) (prune_nm env (jn_plan j))" "does (extends (harmless D j)) (replace_file env BANNER None)"
proof -
  show "does (extends (harmless D j)) (case jn_handoff j of None \<Rightarrow> ret_n () | Some t \<Rightarrow> handoff_kept env t job)"
    by (auto intro!: ext.does_ret frame_kept simp: harmless_def split: option.split)
  show "does (extends (harmless D j)) (prune_nm env (jn_plan j))"
    by (intro frame_prune) (auto simp: allows_def harmless_def prunes_def prunable_def)
  show "does (extends (harmless D j)) (replace_file env BANNER None)"
    by (rule frame_replace) (simp add: harmless_def)
qed

lemma under_harmless:
  assumes "does (extends (harmless D j)) m"
  shows "does (inside (at_most j) (on_harmless D j)) m" "does (inside (at_most_kept j) (on_harmless D j)) m"
    "does (traces (on_harmless D j)) m"
proof -
  show "does (inside (at_most j) (on_harmless D j)) m"
    using assms by (rule under_extends) (auto simp: at_most_def on_harmless_def)
  show "does (inside (at_most_kept j) (on_harmless D j)) m"
    using assms by (rule under_extends) (auto simp: at_most_kept_def at_most_def on_harmless_def)
  show "does (traces (on_harmless D j)) m"
    using assms unfolding does_def by (auto intro: extends_traces simp: on_harmless_def)
qed

lemma calm_committed: "does (traces (on_harmless D j)) (finish_committed env j)"
  unfolding finish_committed_def close_journal_def
  by (intro tr.does_seq tr.does_when traces_writes under_harmless(3) calm_kept frame_stop_timers reads_harmless)

text \<open>A kept change is recognised, or the authority cannot be read.\<close>

lemma committed_kept:
  assumes "always_kept env j"
  shows "fst (engine_committed env j w) \<noteq> Inr False"
  using assms
  by (auto simp: always_kept_def engine_committed_def load_decision_def sense_def bind_n_def of_result_n_def ret_n_def
      kept_def not_less [symmetric] split: prod.splits sum.splits if_splits)
    (metis fst_conv)+

lemma starting_kept:
  assumes "always_kept env j" "starting (at_most_kept j) (on_harmless D j) (f True)"
  shows "starting (at_most_kept j) (on_harmless D j) (bind_n (engine_committed env j) f)"
proof -
  have "bind_n (engine_committed env j) f = bind_n (engine_committed env j) (\<lambda>_. f True)"
  proof
    fix w
    show "bind_n (engine_committed env j) f w = bind_n (engine_committed env j) (\<lambda>_. f True) w"
      using committed_kept [OF assms(1), of w] by (auto simp: bind_n_def split: prod.splits sum.splits)
  qed
  then show ?thesis
    using starting_bind [OF under_harmless(2) [OF frame_engine_committed] assms(2)] by simp
qed

lemma calm_read:
  assumes "does (traces (on_harmless D j)) (f None)" "starting (at_most j) (on_harmless D j) (f (Some j))"
  shows "starting (at_most j) (on_harmless D j) (bind_n (read_pending env) f)"
  unfolding starting_def
proof (intro allI impI)
  fix w :: "'a net_world"
  assume w: "at_most j w"
  obtain r v where read: "read_pending env w = (r, v)" by fastforce
  then have v: "nw_log v = nw_log w" "at_most j v" "\<And>x. r = Inr x \<Longrightarrow> x = nw_pending v"
    using w by (auto simp: read_pending_def store_read_def at_most_def split: prod.splits option.splits)
  have "traces (on_harmless D j) v (snd (f x v))" if "r = Inr x" for x
    using v(2) v(3) [OF that] assms by (auto simp: does_def starting_def at_most_def)
  then show "traces (on_harmless D j) w (snd (bind_n (read_pending env) f w))"
    using read v(1) by (cases r) (auto simp: bind_n_def traces_def)
qed

lemma calm_matching:
  assumes "starting (at_most j) (on_harmless D j) (f j)"
  shows "starting (at_most j) (on_harmless D j) (bind_n (matching env token) f)"
  unfolding starting_def
proof (intro allI impI)
  fix w :: "'a net_world"
  assume w: "at_most j w"
  obtain r v where found: "matching env token w = (r, v)" by fastforce
  have "extends (harmless D j) w v" by (rule doesD [OF frame_matching found])
  then have v: "traces (on_harmless D j) w v" "at_most j v"
    using w by (auto intro: extends_traces simp: on_harmless_def extends_def at_most_def)
  have "x = j" if "r = Inr x" for x
    using found that w
    by (auto simp: matching_def read_pending_def read_last_def store_read_def bind_n_def ret_n_def err_n_def at_most_def
        split: if_splits option.splits prod.splits sum.splits)
  then show "traces (on_harmless D j) w (snd (bind_n (matching env token) f w))"
    using found v assms by (cases r) (auto simp: bind_n_def starting_def intro: traces_trans)
qed

lemma calm_set:
  assumes "starting (at_most_kept j) (on_harmless D j) m"
  shows "starting (at_most j) (on_harmless D j) (seq_n (set_job j) m)"
proof -
  have "at_most_kept j (w\<lparr>nw_job := j\<rparr>)" if "at_most j w" for w :: "'a net_world"
    using that by (simp add: at_most_def at_most_kept_def)
  with assms show ?thesis
    by (fastforce simp: starting_def seq_n_def bind_n_def set_job_def traces_def)
qed

lemma calm_get: "starting (at_most_kept j) Q (f j) \<Longrightarrow> starting (at_most_kept j) Q (bind_n get_job f)"
  by (simp add: starting_def bind_get_job at_most_kept_def)

lemma calm_recover:
  assumes "always_kept env j"
  shows "starting (at_most_kept j) (on_harmless D j) (recover_locked env outcome')"
  unfolding recover_locked_def
  by (rule calm_get, rule starting_kept [OF assms]) (simp add: starting_traces [OF calm_committed])

lemma calm_outside:
  assumes "unrecorded env" "journal_or_none env"
  shows "does (inside (at_most j) (on_harmless D j)) (ne_migrate env job)"
    "does (inside (at_most j) (on_harmless D j)) (ne_complete_release env)"
proof -
  have "at_most j (snd (ne_migrate env job w))" "at_most j (snd (ne_complete_release env w))" if "at_most j w" for w
    using that assms(2) unfolding journal_or_none_def at_most_def by (metis insertE singletonD)+
  then show "does (inside (at_most j) (on_harmless D j)) (ne_migrate env job)"
    "does (inside (at_most j) (on_harmless D j)) (ne_complete_release env)"
    using assms(1) by (simp_all add: unrecorded_def does_def inside_def traces_refl)
qed

lemmas calm_entering = calm_read calm_matching calm_set calm_recover starting_kept starting_if starting_leaf
  starting_seq [OF under_harmless(1) [OF frame_reads(3)]] starting_seq [OF under_harmless(2) [OF frame_lock_source]]
  starting_traces [OF calm_committed] starting_traces [OF tr.does_seq [OF calm_committed tr.does_err]]
  tr.does_ret tr.does_err

lemma calm_calls:
  assumes "always_kept env j"
  shows "starting (at_most j) (on_harmless D j) (confirm env token a)"
    "starting (at_most j) (on_harmless D j) (revert env token)"
    "starting (at_most j) (on_harmless D j) (engine_rollback env)"
    "starting (at_most j) (on_harmless D j) (accept_current env)"
    "starting (at_most j) (on_harmless D j) (run_apply_job env job)"
  unfolding confirm_def revert_def engine_rollback_def accept_current_def run_apply_job_def
  by (auto intro!: calm_entering assms)

lemma calm_recovery:
  assumes "always_kept env j" "unrecorded env" "journal_or_none env"
  shows "starting (at_most j) (on_harmless D j) (run_recovery env job)"
  unfolding run_recovery_def
  by (auto intro!: calm_entering assms(1) starting_bind [OF calm_outside(1) [OF assms(2,3)]])

lemma calm_boot:
  assumes kept: "always_kept env j" and outside: "unrecorded env" "journal_or_none env"
    and D: "\<forall>c. decided env c \<longrightarrow> D c"
  shows "starting (at_most j) (on_harmless D j) (boot_report env)"
proof -
  let ?env = "env\<lparr>ne_host := (ne_host env)\<lparr>ho_boot_recovery := True\<rparr>\<rparr>"
  have env: "always_kept ?env j" "unrecorded ?env" "journal_or_none ?env" "\<forall>c. decided ?env c \<longrightarrow> D c"
    using assms by (simp_all add: always_kept_def unrecorded_def journal_or_none_def)
  note plain = under_harmless(3) [OF harmless_plain]
  have after: "does (traces (on_harmless D j)) (case report of Some text \<Rightarrow> ret_n (Some text) | None \<Rightarrow>
      bind_n (load_decision ?env) (\<lambda>c. if nps_backend (nc_profiles c) = None then ret_n None
        else seq_n (check_ownership ?env) (seq_n (install_guards ?env c) (ret_n None))))" for report :: "string option"
    using plain [OF plain_boot(1) [OF env(4)]] by (cases report) (simp_all add: tr.does_ret)
  have boot: "starting (at_most_kept j) (on_harmless D j) (boot_recovery ?env)"
    unfolding boot_recovery_def
    by (intro starting_try calm_recover env(1) plain plain_boot_recovery env(4))
  have "starting (at_most j) (on_harmless D j) (boot_network ?env)"
    unfolding boot_network_def
    by (rule calm_read)
       (simp_all add: tr.does_bind [OF tr.does_ret after]
         starting_bind_last [OF calm_set [OF starting_seq [OF under_harmless(2) [OF frame_lock_source] boot]] after])
  moreover have "starting (at_most j) (on_harmless D j) (boot_release ?env)"
    by (rule starting_traces [OF plain [OF plain_boot(2) [OF env(4)]]])
  ultimately have "starting (at_most j) (on_harmless D j) (boot_locked ?env)"
    unfolding boot_locked_def
    by (auto intro!: starting_bind [OF calm_outside(2) [OF outside]] starting_bind [OF un.does_try [OF calm_outside(1) [OF outside]]]
        starting_bind [OF under_harmless(1) [OF extends_sense]] starting_leaf split: sum.split api_error.split)
  then show ?thesis
    unfolding boot_report_def by (intro starting_seq under_harmless(1) frames)
qed

fun settling :: "net_call \<Rightarrow> bool" where
  "settling (CallConfirm _ _) = True"
| "settling (CallRevert _) = True"
| "settling CallRollback = True"
| "settling CallAcceptCurrent = True"
| "settling (CallApplyJob _) = True"
| "settling (CallRecovery _) = True"
| "settling CallBoot = True"
| "settling _ = False"


lemma calm_outsiders: "unrecorded (calm_env c)" "journal_or_none (calm_env c)"
  by (simp_all add: unrecorded_def journal_or_none_def ret_n_def)


section \<open>Confirmation\<close>

lemma grows: "does (extends P) m \<Longrightarrow> does (traces (\<lambda>_. True)) m"
  unfolding does_def extends_def traces_def by blast

lemma grows_committed: "does (traces (\<lambda>_. True)) (finish_committed env j)"
  using calm_committed [of "\<lambda>_. True" j env] unfolding does_def traces_def by blast

lemma committed_decision:
  assumes "engine_committed env j w = (Inr True, v)" "jn_operation j \<noteq> OpSyncTessera"
  shows "\<exists>h c. fst (ne_load env h) = Inr c \<and> kept j c"
  using assms
  by (auto simp: engine_committed_def load_decision_def sense_def bind_n_def of_result_n_def ret_n_def kept_def not_less
      split: prod.splits sum.splits if_splits) (metis fst_conv)

text \<open>What is decided is the journal's own commit, and the authority reported it or was read back holding it.\<close>

lemma decide_sound:
  assumes "engine_decide env j w = (Inr c, v)"
  shows "next_commit j = Inr c"
    and "\<exists>b. (EvDecide (jn_base j) c b, nw_pending w) \<in> set (nw_log v) \<and>
      (b \<or> jn_operation j = OpSyncTessera \<or> (\<exists>h c'. fst (ne_load env h) = Inr c' \<and> kept j c'))"
proof -
  define tail :: "network_commit \<Rightarrow> ('a, network_commit) net" where
    "tail = (\<lambda>n. seq_n (update_job (\<lambda>j. j\<lparr>jn_phase := PhConfirmed\<rparr>)) (seq_n (ignore_n (save_job env))
      (bind_n get_job (\<lambda>j. seq_n (ignore_n (finish_committed env j)) (ret_n n)))))"
  have tail: "does (traces (\<lambda>_. True)) (tail n)" for n
    unfolding tail_def by (intro tr.does_seq tr.does_bind tr.does_get_job tr.does_ignore grows_committed traces_writes tr.does_ret)
  obtain n r u where n: "next_commit j = Inr n" and u: "try_n (compare_commit env (jn_base j) n) w = (Inr r, u)"
    and rest: "seq_n (case r of Inr _ \<Rightarrow> ret_n () | Inl e \<Rightarrow> bind_n (engine_committed env j) (\<lambda>kept. if kept then ret_n () else err_n e))
      (tail n) u = (Inr c, v)"
    using assms unfolding engine_decide_def tail_def by (elim bind_n_Inr) (auto simp: of_result_n_def)
  have "snd (tail n x) = y \<Longrightarrow> fst (tail n x) = Inr z \<Longrightarrow> z = n" for x y z
    by (auto simp: tail_def seq_n_def bind_n_def update_job_def ignore_n_def get_job_def ret_n_def)
  with rest have "c = n" by (elim seq_n_Inr) (metis fst_conv snd_conv)
  with n show "next_commit j = Inr c" by simp
  have asked: "(EvDecide (jn_base j) c (is_ok r), nw_pending w) \<in> set (nw_log u)"
    using u \<open>c = n\<close> by (auto simp: try_n_def compare_commit_def effect_def split: prod.splits)
  obtain x t where t: "(case r of Inr _ \<Rightarrow> ret_n () | Inl e \<Rightarrow> bind_n (engine_committed env j) (\<lambda>kept. if kept then ret_n () else err_n e)) u
      = (Inr x, t)" and fin: "tail n t = (Inr c, v)"
    using rest by (rule seq_n_Inr)
  have "does (extends (\<lambda>_. True)) (case r of Inr _ \<Rightarrow> ret_n () | Inl e \<Rightarrow> bind_n (engine_committed env j) (\<lambda>kept. if kept then ret_n () else err_n e))"
    by (auto intro!: frames split: sum.split)
  then have "traces (\<lambda>_. True) u t" using t by (rule doesD [OF grows])
  then have "traces (\<lambda>_. True) u v" using doesD [OF tail fin] by (rule traces_trans)
  with asked have "(EvDecide (jn_base j) c (is_ok r), nw_pending w) \<in> set (nw_log v)"
    by (auto simp: traces_def)
  moreover have "is_ok r \<or> jn_operation j = OpSyncTessera \<or> (\<exists>h c'. fst (ne_load env h) = Inr c' \<and> kept j c')"
  proof (cases r)
    case (Inl e)
    then obtain y where "engine_committed env j u = (Inr True, y)"
      using t by (auto simp: err_n_def elim!: bind_n_Inr split: if_splits)
    from committed_decision [OF this] show ?thesis by blast
  qed (simp add: is_ok_def)
  ultimately show "\<exists>b. (EvDecide (jn_base j) c b, nw_pending w) \<in> set (nw_log v) \<and>
      (b \<or> jn_operation j = OpSyncTessera \<or> (\<exists>h c'. fst (ne_load env h) = Inr c' \<and> kept j c'))" by blast
qed

lemma matching_sound:
  assumes "matching env token w = (Inr j, v)"
  shows "nw_pending w = Some j" "jn_token j = token" "extends (\<lambda>_. False) w v"
proof -
  show "extends (\<lambda>_. False) w v" by (rule doesD [OF frame_matching assms])
  show "nw_pending w = Some j" "jn_token j = token"
    using assms
    by (auto simp: matching_def read_pending_def read_last_def store_read_def bind_n_def ret_n_def err_n_def matches_def
        split: if_splits option.splits prod.splits sum.splits)
qed

lemma session_sound:
  assumes "session_allowed env j a w = (Inr x, v)"
    and "nps_confirm_policy (pl_candidate (jn_plan j)) = RequireManagementAddress"
  shows "\<exists>m. jn_management_address j = Some m \<and> Option.bind a mapped = Some m \<and> \<not> is_loopback m"
  using assms
  by (auto simp: session_allowed_def Let_def err_n_def split: if_splits option.splits)

lemma elapsed_sound:
  assumes "elapsed env j w = (Inr False, v)"
  shows "\<exists>h h' now. fst (ne_boot_id env h) = Inr (jn_boot_id j) \<and> fst (ne_now_ms env h') = Inr now \<and> now < jn_deadline_ms j"
  using assms
  by (auto simp: elapsed_def boot_id_def now_ms_def sense_def bind_n_def ret_n_def not_le
      split: if_splits prod.splits sum.splits) (metis fst_conv)+

text \<open>
  C9: A confirmation decides exactly the applied change. A confirmation that reports a commit found a
  durable journal with that token, applied and not in recovery, of this boot and before its deadline,
  reached through the new management address when the policy asks for it; the commit is the one the
  journal's base and candidate give; the decision was asked of the authority with that journal durable,
  and either reported or read back.
\<close>

theorem confirm_sound:
  assumes "confirm env token a w = (Inr c, v)"
  shows "\<exists>j. nw_pending w = Some j \<and> jn_token j = token \<and> jn_phase j = PhApplied \<and> \<not> jn_recovery_pending j \<and>
    next_commit j = Inr c \<and>
    (\<exists>h h' now. fst (ne_boot_id env h) = Inr (jn_boot_id j) \<and> fst (ne_now_ms env h') = Inr now \<and> now < jn_deadline_ms j) \<and>
    (nps_confirm_policy (pl_candidate (jn_plan j)) = RequireManagementAddress \<longrightarrow>
      (\<exists>m. jn_management_address j = Some m \<and> Option.bind a mapped = Some m \<and> \<not> is_loopback m)) \<and>
    (\<exists>b. (EvDecide (jn_base j) c b, Some j) \<in> set (nw_log v) \<and>
      (b \<or> jn_operation j = OpSyncTessera \<or> (\<exists>h c'. fst (ne_load env h) = Inr c' \<and> kept j c')))"
proof -
  obtain x0 w0 j w1 x2 w2 k w3 where
    w0: "store_lock env w = (Inr x0, w0)" and w1: "matching env token w0 = (Inr j, w1)" and
    w2: "lock_source env j (w1\<lparr>nw_job := j\<rparr>) = (Inr x2, w2)" and w3: "engine_committed env j w2 = (Inr k, w3)" and
    rest: "(if k then seq_n (finish_committed env j) (err_n NotPending)
           else if jn_recovery_pending j then err_n (recovery_failure j)
           else bind_n (elapsed env j) (\<lambda>late.
             if late then seq_n (recover_locked env PhExpired) (err_n Expired)
             else if jn_phase j \<noteq> PhApplied then err_n StillApplying
             else seq_n (session_allowed env j a) (engine_decide env j))) w3 = (Inr c, v)"
    using assms unfolding confirm_def
    by (auto simp: err_n_def set_job_def elim!: bind_n_Inr seq_n_Inr split: if_splits)
  have phase: "\<not> k" "\<not> jn_recovery_pending j"
    using rest by (auto simp: err_n_def elim!: seq_n_Inr split: if_splits)
  obtain w4 x5 w5 where w4: "elapsed env j w3 = (Inr False, w4)" and applied: "jn_phase j = PhApplied" and
    w5: "session_allowed env j a w4 = (Inr x5, w5)" and decide: "engine_decide env j w5 = (Inr c, v)"
    using rest phase by (auto simp: err_n_def elim!: bind_n_Inr seq_n_Inr split: if_splits)
  have session: "does (extends (\<lambda>_. True)) (session_allowed env j a)"
    unfolding session_allowed_def Let_def by (auto intro!: frames)
  have "nw_pending w0 = nw_pending w"
    using doesD [OF frame_reads(3) w0, of "\<lambda>_. True"] by (simp add: extends_def)
  moreover have "nw_pending w5 = Some j"
    using matching_sound [OF w1] doesD [OF frame_lock_source w2, of "\<lambda>_. True"] doesD [OF frame_engine_committed w3, of "\<lambda>_. True"]
      doesD [OF frame_elapsed w4, of "\<lambda>_. True"] doesD [OF session w5]
    by (simp add: extends_def)
  ultimately show ?thesis
    using matching_sound(1,2) [OF w1] applied phase(2) decide_sound [OF decide] elapsed_sound [OF w4] session_sound [OF w5]
    by (intro exI [of _ j]) simp
qed

theorem confirm_sound_witness:
  "\<exists>b. (EvDecide calm_commit kept_commit b, Some applied_journal)
     \<in> set (nw_log (snd (confirm (calm_env calm_commit) calm_id None (world_with applied_journal))))"
proof -
  have "confirm (calm_env calm_commit) calm_id None (world_with applied_journal) =
      (Inr kept_commit, snd (confirm (calm_env calm_commit) calm_id None (world_with applied_journal)))"
    by (simp add: prod_eq_iff applied_confirms)
  from confirm_sound [OF this] show ?thesis by auto
qed

section \<open>Write-ahead\<close>

lemma serve_all:
  "unrecorded env \<Longrightarrow> list_all (entry_ok (decided env)) (nw_log w) \<Longrightarrow>
   list_all (entry_ok (decided env)) (nw_log (serve env call w))"
  using serve_entries [of env w call] by (auto simp: traces_def list_all_iff)



end
