(* ===== verification/Control_Sessions.thy ===== *)
theory Control_Sessions
  imports Ip_Text "HOL-Library.Option_ord" "HOL-Library.Multiset"
begin

text \<open>
  The sessions of the HTTP front door and the limiter of failed logins (\<open>ndimon-control\<close>,
  \<open>sessions.rs\<close>). An \<open>Instant\<close> is a number of nanoseconds and \<open>saturating_duration_since\<close> is the
  subtraction of natural numbers, so no call assumes that a later call sees a later instant. A hash
  map is an association list with distinct keys; the order in which it is iterated, which only
  decides between equally old entries, is the parameter \<open>it\<close>. The random tokens of a new session are
  arguments of \<open>create\<close>.
\<close>

section \<open>Hash maps and durations\<close>

definition hm_insert :: "'k \<Rightarrow> 'v \<Rightarrow> ('k \<times> 'v) list \<Rightarrow> ('k \<times> 'v) list" where
  "hm_insert k v m = (k, v) # bt_remove k m"

text \<open>\<open>Iterator::min_by_key\<close>: of equal keys the first.\<close>

fun min_by_key :: "('a \<Rightarrow> 'b::linorder) \<Rightarrow> 'a list \<Rightarrow> 'a option" where
  "min_by_key f [] = None"
| "min_by_key f (x # xs) =
     (case min_by_key f xs of
        None \<Rightarrow> Some x
      | Some y \<Rightarrow> if f x \<le> f y then Some x else Some y)"

definition from_secs :: "nat \<Rightarrow> nat" where
  "from_secs n = n * 1000000000"

definition from_millis :: "nat \<Rightarrow> nat" where
  "from_millis n = n * 1000000"

definition saturating_usize :: "nat \<Rightarrow> nat \<Rightarrow> nat" where
  "saturating_usize a b = min (a + b) (2 ^ 64 - 1)"

lemma hm_get_remove [simp]: "map_of (bt_remove k m) = (map_of m)(k := None)"
  using bt_get_remove [of k m] by (simp add: bt_get_def fun_eq_iff)

lemma hm_get_insert [simp]: "map_of (hm_insert k v m) = (map_of m)(k \<mapsto> v)"
  by (simp add: hm_insert_def)

lemma hm_keys_remove [simp]: "map fst (bt_remove k m) = filter (\<lambda>x. x \<noteq> k) (map fst m)"
  by (induction m) (auto simp: bt_remove_def)

lemma hm_distinct_insert [simp]: "distinct (map fst m) \<Longrightarrow> distinct (map fst (hm_insert k v m))"
  by (simp add: hm_insert_def)

lemma hm_distinct_filter: "distinct (map fst m) \<Longrightarrow> distinct (map fst (filter P m))"
  by (induction m) auto

lemma hm_get_filter:
  "distinct (map fst m) \<Longrightarrow>
   map_of (filter P m) k = (case map_of m k of Some v \<Rightarrow> if P (k, v) then Some v else None | None \<Rightarrow> None)"
  by (induction m) (auto split: option.splits simp: map_of_eq_None_iff image_iff dest: map_of_SomeD)

lemma length_remove_present:
  "k \<in> fst ` set m \<Longrightarrow> length (bt_remove k m) < length m"
  by (auto simp: bt_remove_def intro: length_filter_less)

lemma min_by_key_mem: "min_by_key f xs = Some x \<Longrightarrow> x \<in> set xs"
  by (induction xs arbitrary: x) (auto split: option.splits if_splits)

lemma min_by_key_None: "min_by_key f xs = None \<longleftrightarrow> xs = []"
  by (cases xs) (auto split: option.splits)

lemma min_by_key_le: "min_by_key f xs = Some x \<Longrightarrow> y \<in> set xs \<Longrightarrow> f x \<le> f y"
  by (induction xs arbitrary: x y) (fastforce split: option.splits if_splits simp: min_by_key_None)+

section \<open>Sessions\<close>

definition COOKIE :: string where
  "COOKIE = ''ndimon_session''"

record session =
  ss_id :: string
  ss_csrf :: string
  ss_credential :: string
  ss_last_used :: nat

record sessions =
  sn_entries :: "(string \<times> session) list"
  sn_idle :: nat

definition sessions_new :: "nat \<Rightarrow> sessions" where
  "sessions_new idle = \<lparr>sn_entries = [], sn_idle = idle\<rparr>"

definition sessions_default :: sessions where
  "sessions_default = sessions_new (from_secs (8 * 3600))"

definition SESSION_MAX :: nat where
  "SESSION_MAX = 64"

definition create ::
  "((string \<times> session) list \<Rightarrow> (string \<times> session) list) \<Rightarrow> string \<Rightarrow> string \<Rightarrow> string \<Rightarrow> string \<Rightarrow> nat \<Rightarrow> sessions \<Rightarrow>
   (string \<times> session) \<times> sessions" where
  "create it token sid csrf credential now s =
     (let new = \<lparr>ss_id = sid, ss_csrf = csrf, ss_credential = credential, ss_last_used = now\<rparr>;
          kept = filter (\<lambda>(_, e). now - ss_last_used e < sn_idle s) (sn_entries s);
          room = (if SESSION_MAX \<le> length kept
                  then (case min_by_key (\<lambda>(_, e). ss_last_used e) (it kept) of
                          Some (oldest, _) \<Rightarrow> bt_remove oldest kept
                        | None \<Rightarrow> kept)
                  else kept)
      in ((token, new), s\<lparr>sn_entries := hm_insert token new room\<rparr>))"

definition get :: "string \<Rightarrow> string \<Rightarrow> nat \<Rightarrow> sessions \<Rightarrow> session option \<times> sessions" where
  "get token credential now s =
     (case map_of (sn_entries s) token of
        None \<Rightarrow> (None, s)
      | Some e \<Rightarrow>
          if ss_credential e \<noteq> credential \<or> sn_idle s \<le> now - ss_last_used e
          then (None, s\<lparr>sn_entries := bt_remove token (sn_entries s)\<rparr>)
          else (let e' = e\<lparr>ss_last_used := now\<rparr>
                in (Some e', s\<lparr>sn_entries := hm_insert token e' (sn_entries s)\<rparr>)))"

definition remove :: "string \<Rightarrow> sessions \<Rightarrow> sessions" where
  "remove token s = s\<lparr>sn_entries := bt_remove token (sn_entries s)\<rparr>"

definition clear :: "sessions \<Rightarrow> sessions" where
  "clear s = s\<lparr>sn_entries := []\<rparr>"

record authenticated =
  au_token :: string
  au_session :: session
  au_bearer :: bool

section \<open>Cookies\<close>

text \<open>A header map: the values of a header are those of its name, in the order they came. A value that
  is not visible ASCII has no \<open>to_str\<close>.\<close>

type_synonym headers = "(string \<times> string) list"

definition get_all :: "string \<Rightarrow> headers \<Rightarrow> string list" where
  "get_all name hs = map snd (filter (\<lambda>(k, _). k = name) hs)"

definition header :: "string \<Rightarrow> headers \<Rightarrow> string option" where
  "header name hs = (case get_all name hs of [] \<Rightarrow> None | v # _ \<Rightarrow> Some v)"

definition to_str :: "string \<Rightarrow> string option" where
  "to_str v = (if list_all (\<lambda>c. byte c = 9 \<or> 32 \<le> byte c \<and> byte c < 127) v then Some v else None)"

definition header_str :: "string \<Rightarrow> headers \<Rightarrow> string option" where
  "header_str name hs = Option.bind (header name hs) to_str"

definition cookie_token :: "headers \<Rightarrow> string option" where
  "cookie_token hs =
     map_option (\<lambda>(_, v). trim v)
       (find (\<lambda>(k, _). k = COOKIE)
         (List.map_filter (\<lambda>v. split_once (CHR ''='') (trim v))
           (concat (map (split_on (CHR '';'')) (List.map_filter to_str (get_all ''cookie'' hs))))))"

definition cookie :: "string \<Rightarrow> bool \<Rightarrow> string" where
  "cookie token secure =
     COOKIE @ ''='' @ token @ ''; HttpOnly; SameSite=Strict; Path=/'' @ (if secure then ''; Secure'' else [])"

definition clear_cookie :: "bool \<Rightarrow> string" where
  "clear_cookie secure = cookie [] secure @ ''; Max-Age=0''"

section \<open>The session table over a history\<close>

datatype session_op =
    OpCreate string string string string nat
  | OpGet string string nat
  | OpRemove string
  | OpClear

fun session_step ::
  "((string \<times> session) list \<Rightarrow> (string \<times> session) list) \<Rightarrow> session_op \<Rightarrow> sessions \<Rightarrow> sessions" where
  "session_step it (OpCreate token sid csrf cred now) s = snd (create it token sid csrf cred now s)"
| "session_step it (OpGet token cred now) s = snd (get token cred now s)"
| "session_step it (OpRemove token) s = remove token s"
| "session_step it OpClear s = clear s"

definition run_sessions ::
  "((string \<times> session) list \<Rightarrow> (string \<times> session) list) \<Rightarrow> nat \<Rightarrow> session_op list \<Rightarrow> sessions" where
  "run_sessions it idle ops = fold (session_step it) ops (sessions_new idle)"

text \<open>
  What one token is good for, read off the history alone: the reference that the table, with its limit
  and its eviction, is compared with.
\<close>

fun grant_step :: "nat \<Rightarrow> string \<Rightarrow> session_op \<Rightarrow> session option \<Rightarrow> session option" where
  "grant_step idle token (OpCreate t sid csrf cred now) g =
     (if t = token
      then Some \<lparr>ss_id = sid, ss_csrf = csrf, ss_credential = cred, ss_last_used = now\<rparr>
      else (case g of Some e \<Rightarrow> if now - ss_last_used e < idle then Some e else None | None \<Rightarrow> None))"
| "grant_step idle token (OpGet t cred now) g =
     (if t = token
      then (case g of
              Some e \<Rightarrow> if ss_credential e = cred \<and> now - ss_last_used e < idle
                        then Some (e\<lparr>ss_last_used := now\<rparr>) else None
            | None \<Rightarrow> None)
      else g)"
| "grant_step idle token (OpRemove t) g = (if t = token then None else g)"
| "grant_step idle token OpClear g = None"

definition granted :: "nat \<Rightarrow> string \<Rightarrow> session_op list \<Rightarrow> session option" where
  "granted idle token ops = fold (grant_step idle token) ops None"

definition is_create :: "session_op \<Rightarrow> bool" where
  "is_create op = (case op of OpCreate _ _ _ _ _ \<Rightarrow> True | _ \<Rightarrow> False)"

definition sessions_ok :: "sessions \<Rightarrow> bool" where
  "sessions_ok s = (distinct (map fst (sn_entries s)) \<and> length (sn_entries s) \<le> SESSION_MAX)"

lemma run_sessions_snoc [simp]:
  "run_sessions it idle (ops @ [op]) = session_step it op (run_sessions it idle ops)"
  by (simp add: run_sessions_def)

lemma run_sessions_Nil [simp]: "run_sessions it idle [] = sessions_new idle"
  by (simp add: run_sessions_def)

lemma granted_snoc [simp]: "granted idle token (ops @ [op]) = grant_step idle token op (granted idle token ops)"
  by (simp add: granted_def)

lemma granted_Nil [simp]: "granted idle token [] = None"
  by (simp add: granted_def)

lemmas session_defs = create_def get_def remove_def clear_def Let_def

lemma idle_step [simp]: "sn_idle (session_step it op s) = sn_idle s"
  by (cases op) (auto simp: session_defs split: option.splits)

lemma idle_run [simp]: "sn_idle (run_sessions it idle ops) = idle"
  by (induction ops rule: rev_induct) (auto simp: sessions_new_def)

lemma distinct_create:
  "distinct (map fst (sn_entries s)) \<Longrightarrow> distinct (map fst (sn_entries (snd (create it t i c k now s))))"
  by (auto simp: create_def Let_def hm_distinct_filter split: option.splits)

lemma distinct_step:
  "distinct (map fst (sn_entries s)) \<Longrightarrow> distinct (map fst (sn_entries (session_step it op s)))"
  by (cases op) (auto simp: distinct_create get_def remove_def clear_def Let_def split: option.splits)

lemma distinct_run: "distinct (map fst (sn_entries (run_sessions it idle ops)))"
  by (induction ops rule: rev_induct) (auto simp: distinct_step sessions_new_def)

lemma length_create:
  assumes "\<And>m. mset (it m) = mset m" and "length (sn_entries s) \<le> SESSION_MAX"
  shows "length (sn_entries (snd (create it t i c k now s))) \<le> SESSION_MAX"
proof -
  define kept where "kept = filter (\<lambda>(_, e). now - ss_last_used e < sn_idle s) (sn_entries s)"
  have bound: "length kept \<le> SESSION_MAX"
    using assms(2) length_filter_le le_trans unfolding kept_def by blast
  have less: "length (bt_remove x m) \<le> length m" for x and m :: "(string \<times> session) list"
    by (rule length_bt_remove)
  show ?thesis
  proof (cases "length kept < SESSION_MAX")
    case True
    then show ?thesis
      using less [of t kept] by (simp add: create_def Let_def kept_def [symmetric] hm_insert_def)
  next
    case False
    then have "it kept \<noteq> []"
      using bound assms(1) [of kept] by (auto simp: SESSION_MAX_def)
    then obtain x e where x: "min_by_key (\<lambda>(_, e). ss_last_used e) (it kept) = Some (x, e)"
      by (metis min_by_key_None option.exhaust surj_pair)
    then have "(x, e) \<in> set kept"
      using min_by_key_mem assms(1) by (metis mset_eq_setD)
    then have "length (bt_remove x kept) < length kept"
      by (intro length_remove_present) force
    then show ?thesis
      using False x bound less [of t "bt_remove x kept"]
      by (simp add: create_def Let_def kept_def [symmetric] hm_insert_def)
  qed
qed

lemma length_touch:
  "map_of m t = Some e \<Longrightarrow> Suc (length (bt_remove t m)) \<le> length m"
  using length_remove_present [of t m] by (force dest: map_of_SomeD)

lemma length_get: "length (sn_entries (snd (get t c now s))) \<le> length (sn_entries s)"
  using length_touch [of "sn_entries s" t] length_bt_remove [of t "sn_entries s"]
  by (simp add: get_def Let_def hm_insert_def split: option.split)

lemma sessions_ok_step:
  assumes "\<And>m. mset (it m) = mset m" and "sessions_ok s"
  shows "sessions_ok (session_step it op s)"
proof (cases op)
  case (OpGet t c now)
  then show ?thesis
    using assms(2) distinct_step [of s it op] length_get [of t c now s] by (simp add: sessions_ok_def)
next
  case (OpRemove t)
  then show ?thesis
    using assms(2) distinct_step [of s it op] length_bt_remove [of t "sn_entries s"]
    by (simp add: sessions_ok_def remove_def)
qed (use assms distinct_step [of s it op] length_create [OF assms(1)] in \<open>auto simp: sessions_ok_def clear_def\<close>)

text \<open>The table never says more of a token than the history does.\<close>

definition agrees :: "sessions \<Rightarrow> string \<Rightarrow> session option \<Rightarrow> bool" where
  "agrees s token g = (\<forall>e. map_of (sn_entries s) token = Some e \<longrightarrow> g = Some e)"

lemma agrees_create:
  assumes "distinct (map fst (sn_entries s))" "agrees s token g"
  shows "agrees (snd (create it t i c k now s)) token (grant_step (sn_idle s) token (OpCreate t i c k now) g)"
  using assms
  by (auto simp: agrees_def create_def Let_def hm_get_filter split: option.splits if_splits)

lemma agrees_step:
  assumes "distinct (map fst (sn_entries s))" "agrees s token g"
  shows "agrees (session_step it op s) token (grant_step (sn_idle s) token op g)"
proof (cases op)
  case (OpCreate t i c k now)
  then show ?thesis
    using agrees_create [OF assms] by simp
qed (use assms(2) in \<open>auto simp: agrees_def get_def remove_def clear_def Let_def split: option.splits\<close>)

lemma agrees_run: "agrees (run_sessions it idle ops) token (granted idle token ops)"
proof (induction ops rule: rev_induct)
  case Nil
  then show ?case
    by (simp add: agrees_def sessions_new_def)
next
  case (snoc op ops)
  then show ?case
    using agrees_step [OF distinct_run snoc] by simp
qed

text \<open>With room in the table nothing is evicted and the two agree.\<close>

lemma exact_step:
  assumes "distinct (map fst (sn_entries s))" "is_create op \<longrightarrow> length (sn_entries s) < SESSION_MAX"
  shows "map_of (sn_entries (session_step it op s)) token
           = grant_step (sn_idle s) token op (map_of (sn_entries s) token)"
proof (cases op)
  case (OpCreate t i c k now)
  define kept where "kept = filter (\<lambda>(_, e). now - ss_last_used e < sn_idle s) (sn_entries s)"
  have "length kept < SESSION_MAX"
    using assms(2) OpCreate by (simp add: kept_def is_create_def le_less_trans [OF length_filter_le])
  moreover have "map_of kept token =
      (case map_of (sn_entries s) token of Some e \<Rightarrow> if now - ss_last_used e < sn_idle s then Some e else None | None \<Rightarrow> None)"
    using hm_get_filter [OF assms(1)] unfolding kept_def by (simp split: option.splits)
  ultimately show ?thesis
    using OpCreate by (simp add: create_def Let_def kept_def [symmetric])
qed (auto simp: get_def remove_def clear_def Let_def split: option.splits)

lemma length_create_le: "length (sn_entries (snd (create it t i c k now s))) \<le> Suc (length (sn_entries s))"
proof -
  define kept where "kept = filter (\<lambda>(_, e). now - ss_last_used e < sn_idle s) (sn_entries s)"
  have kept: "length kept \<le> length (sn_entries s)"
    by (simp add: kept_def)
  have less: "length m \<le> length kept \<Longrightarrow> length (bt_remove t m) \<le> length (sn_entries s)"
    for m :: "(string \<times> session) list"
    using kept length_bt_remove [of t m] by linarith
  show ?thesis
    using less length_bt_remove [of _ kept]
    by (simp add: create_def Let_def kept_def [symmetric] hm_insert_def split: option.split)
qed

lemma length_step:
  "length (sn_entries (session_step it op s)) \<le> length (sn_entries s) + (if is_create op then 1 else 0)"
  by (cases op) (auto simp: length_create_le length_get remove_def clear_def is_create_def length_bt_remove)

lemma length_run: "length (sn_entries (run_sessions it idle ops)) \<le> length (filter is_create ops)"
proof (induction ops rule: rev_induct)
  case (snoc op ops)
  then show ?case
    using length_step [of it op "run_sessions it idle ops"] by (simp split: if_splits)
qed (simp add: sessions_new_def)

lemma exact_run:
  "length (filter is_create ops) \<le> SESSION_MAX \<Longrightarrow>
   map_of (sn_entries (run_sessions it idle ops)) token = granted idle token ops"
proof (induction ops rule: rev_induct)
  case (snoc op ops)
  then show ?case
    using exact_step [OF distinct_run, of op it idle ops it token] length_run [of it idle ops]
    by (auto split: if_splits)
qed (simp add: sessions_new_def)

section \<open>What a session certifies\<close>

text \<open>
  A session created at \<open>used\<close> is still good at \<open>now\<close> after \<open>ops\<close>: it was not removed, not replaced
  and not cleared with the table, every use presented the credential it was created with, and neither a
  use nor the sweep of another login found it unused for the idle time.
\<close>

fun kept_alive :: "nat \<Rightarrow> string \<Rightarrow> string \<Rightarrow> nat \<Rightarrow> session_op list \<Rightarrow> nat \<Rightarrow> bool" where
  "kept_alive idle token cred used [] now = (now - used < idle)"
| "kept_alive idle token cred used (OpCreate t _ _ _ tm # ops) now =
     (t \<noteq> token \<and> tm - used < idle \<and> kept_alive idle token cred used ops now)"
| "kept_alive idle token cred used (OpGet t c tm # ops) now =
     (if t = token then c = cred \<and> tm - used < idle \<and> kept_alive idle token cred tm ops now
      else kept_alive idle token cred used ops now)"
| "kept_alive idle token cred used (OpRemove t # ops) now =
     (t \<noteq> token \<and> kept_alive idle token cred used ops now)"
| "kept_alive idle token cred used (OpClear # ops) now = False"

definition creates :: "string \<Rightarrow> session_op \<Rightarrow> bool" where
  "creates token op = (case op of OpCreate t _ _ _ _ \<Rightarrow> t = token | _ \<Rightarrow> False)"

lemma creates_simps [simp]:
  "creates token (OpCreate t i c k tm) \<longleftrightarrow> t = token"
  "\<not> creates token (OpGet t k tm)" "\<not> creates token (OpRemove t)" "\<not> creates token OpClear"
  by (auto simp: creates_def)

lemma grant_none: "\<not> creates token op \<Longrightarrow> grant_step idle token op None = None"
  by (cases op) auto

lemma grant_never: "\<forall>op \<in> set ops. \<not> creates token op \<Longrightarrow> fold (grant_step idle token) ops None = None"
  by (induction ops) (auto simp: grant_none)

lemma grant_alive:
  assumes "\<forall>op \<in> set ops. \<not> creates token op"
    and "fold (grant_step idle token) ops (Some \<lparr>ss_id = i, ss_csrf = c, ss_credential = k, ss_last_used = used\<rparr>) = Some e"
    and "now - ss_last_used e < idle"
  shows "ss_id e = i \<and> ss_csrf e = c \<and> ss_credential e = k \<and> kept_alive idle token k used ops now"
  using assms
proof (induction ops arbitrary: used)
  case (Cons op ops)
  then show ?case
    by (cases op) (auto simp: grant_never split: if_splits)
qed auto

lemma alive_grant:
  "kept_alive idle token k used ops now \<Longrightarrow>
   \<exists>tm. fold (grant_step idle token) ops (Some \<lparr>ss_id = i, ss_csrf = c, ss_credential = k, ss_last_used = used\<rparr>)
          = Some \<lparr>ss_id = i, ss_csrf = c, ss_credential = k, ss_last_used = tm\<rparr> \<and> now - tm < idle"
proof (induction ops arbitrary: used)
  case (Cons op ops)
  then show ?case
    by (cases op) (auto split: if_splits)
qed auto

lemma get_Some:
  "fst (get token cred now s) = Some e \<longleftrightarrow>
   (\<exists>f. map_of (sn_entries s) token = Some f \<and> ss_credential f = cred \<and> now - ss_last_used f < sn_idle s
        \<and> e = f\<lparr>ss_last_used := now\<rparr>)"
  by (auto simp: get_def Let_def not_le split: option.splits)

lemma granted_history:
  assumes "granted idle token ops = Some e" "now - ss_last_used e < idle"
  shows "\<exists>pre tm post. ops = pre @ OpCreate token (ss_id e) (ss_csrf e) (ss_credential e) tm # post
           \<and> kept_alive idle token (ss_credential e) tm post now"
proof -
  have "\<exists>op \<in> set ops. creates token op"
    using assms(1) grant_never by (fastforce simp: granted_def)
  then obtain pre op post where split: "ops = pre @ op # post" "creates token op" "\<forall>x \<in> set post. \<not> creates token x"
    by (metis split_list_last_prop)
  then obtain i c k tm where op: "op = OpCreate token i c k tm"
    by (cases op) auto
  have "fold (grant_step idle token) post (Some \<lparr>ss_id = i, ss_csrf = c, ss_credential = k, ss_last_used = tm\<rparr>) = Some e"
    using assms(1) split(1) op by (simp add: granted_def)
  from grant_alive [OF split(3) this assms(2)] show ?thesis
    using split(1) op by auto
qed

lemma granted_by_history:
  assumes "fst (get token cred now (run_sessions it idle ops)) = Some e"
  shows "\<exists>pre tm post. ops = pre @ OpCreate token (ss_id e) (ss_csrf e) cred tm # post
           \<and> kept_alive idle token cred tm post now"
proof -
  obtain f where f: "map_of (sn_entries (run_sessions it idle ops)) token = Some f"
      "ss_credential f = cred" "now - ss_last_used f < idle" "e = f\<lparr>ss_last_used := now\<rparr>"
    using assms by (auto simp: get_Some)
  then have "granted idle token ops = Some f"
    using agrees_run [of it idle ops token] by (simp add: agrees_def)
  from granted_history [OF this f(3)] f show ?thesis
    by simp
qed

text \<open>
  A session that \<open>get\<close> returns was created under that token, with that id, that CSRF token and the
  credential that is presented now, and from that login on it was neither removed, replaced nor cleared,
  was never presented with another credential and never went unused for the idle time - whatever else
  the table did, evictions included.
\<close>

theorem session_history:
  assumes "fst (get token cred now (run_sessions it idle ops)) = Some e"
  shows "\<exists>pre tm post. ops = pre @ OpCreate token (ss_id e) (ss_csrf e) cred tm # post
           \<and> kept_alive idle token cred tm post now"
  using granted_by_history [OF assms] .

theorem session_history_witness:
  "\<exists>pre tm post. [OpCreate ''t'' ''i'' ''c'' ''k'' 5, OpCreate ''u'' ''j'' ''d'' ''k'' 9] =
      pre @ OpCreate ''t'' ''i'' ''c'' ''k'' tm # post \<and> kept_alive 10 ''t'' ''k'' tm post 12"
  using session_history [of "''t''" "''k''" 12 id 10
      "[OpCreate ''t'' ''i'' ''c'' ''k'' 5, OpCreate ''u'' ''j'' ''d'' ''k'' 9]"
      "\<lparr>ss_id = ''i'', ss_csrf = ''c'', ss_credential = ''k'', ss_last_used = 12\<rparr>"]
  by (simp add: run_sessions_def sessions_new_def create_def get_def hm_insert_def bt_remove_def SESSION_MAX_def Let_def)

text \<open>
  C29: As long as no more than 64 sessions were created, eviction plays no part and the converse holds: a
  session that was created and has been kept alive is returned, with its id and its CSRF token, and its
  time of use moves to now.
\<close>

theorem session_honoured:
  assumes "length (filter is_create ops) \<le> SESSION_MAX"
    and "ops = pre @ OpCreate token i c cred tm # post" and "kept_alive idle token cred tm post now"
  shows "fst (get token cred now (run_sessions it idle ops))
           = Some \<lparr>ss_id = i, ss_csrf = c, ss_credential = cred, ss_last_used = now\<rparr>"
proof -
  obtain used where used: "granted idle token ops
        = Some \<lparr>ss_id = i, ss_csrf = c, ss_credential = cred, ss_last_used = used\<rparr>" "now - used < idle"
    using alive_grant [OF assms(3), of i c] assms(2) by (auto simp: granted_def)
  then show ?thesis
    using exact_run [OF assms(1), of it idle token] by (simp add: get_Some)
qed

theorem session_honoured_witness:
  "fst (get ''t'' ''k'' 12 (run_sessions rev 10
      [OpCreate ''t'' ''i'' ''c'' ''k'' 5, OpCreate ''u'' ''j'' ''d'' ''k'' 9]))
     = Some \<lparr>ss_id = ''i'', ss_csrf = ''c'', ss_credential = ''k'', ss_last_used = 12\<rparr>"
  by (rule session_honoured [of _ "[]" _ _ _ _ 5 "[OpCreate ''u'' ''j'' ''d'' ''k'' 9]"])
     (simp_all add: is_create_def SESSION_MAX_def)

text \<open>
  The table never holds more than 64 sessions and never two under one token, in whatever order the
  map is iterated.
\<close>

theorem sessions_bounded:
  assumes "\<And>m. mset (it m) = mset m"
  shows "sessions_ok (run_sessions it idle ops)"
proof (induction ops rule: rev_induct)
  case Nil
  then show ?case
    by (simp add: sessions_ok_def sessions_new_def)
qed (simp add: sessions_ok_step [OF assms])

theorem sessions_bounded_witness:
  "sessions_ok (run_sessions rev 10 (map (\<lambda>n. OpCreate (dec n) [] [] [] n) [0..<100]))"
  by (rule sessions_bounded) simp

section \<open>Cookies\<close>

lemma trim_visible: "list_all (\<lambda>c. 32 < byte c \<and> byte c < 127) s \<Longrightarrow> trim s = s"
proof -
  assume vis: "list_all (\<lambda>c. 32 < byte c \<and> byte c < 127) s"
  then have "chars s = map byte s"
    by (intro chars_ascii) (auto simp: list_all_iff)
  moreover have "dropWhile is_whitespace xs = xs" if "\<forall>x \<in> set xs. 32 < x \<and> x < 127" for xs
    using that by (cases xs) (auto simp: is_whitespace_def)
  then have "trim_chars (map byte s) = map byte s"
    using vis by (simp add: trim_chars_def list_all_iff)
  moreover have "utf8_encode (map byte s) = s"
    using vis by (induction s) (auto simp: utf8_encode_def byte_def)
  ultimately show ?thesis
    by (simp add: trim_def)
qed

text \<open>
  The token of the cookie that a login sets is the token the next request is authenticated with: a
  client that returns \<open>ndimon_session=<token>\<close> is read back with exactly that token.
\<close>

theorem cookie_roundtrip:
  assumes "list_all is_ascii_hexdigit token"
  shows "cookie_token [(''cookie'', hd (split_on (CHR '';'') (cookie token secure)))] = Some token"
proof -
  have hex: "48 \<le> byte c \<and> byte c \<le> 102 \<and> byte c \<noteq> 59 \<and> byte c \<noteq> 61" if "c \<in> set token" for c
    using assms that by (auto simp: list_all_iff is_ascii_hexdigit_def is_ascii_digit_def)
  have no: "CHR '';'' \<notin> set token" "CHR ''='' \<notin> set token"
    using hex [of "CHR '';''"] hex [of "CHR ''=''"] by (auto simp: byte_def)
  have first: "hd (split_on (CHR '';'') (cookie token secure)) = COOKIE @ ''='' @ token"
  proof -
    have "CHR '';'' \<notin> set (COOKIE @ ''='' @ token)"
      using no by (simp add: COOKIE_def)
    from split_on_append [OF this, of "'' HttpOnly; SameSite=Strict; Path=/'' @ (if secure then ''; Secure'' else [])"]
    show ?thesis
      by (simp add: cookie_def)
  qed
  have visible: "list_all (\<lambda>c. 32 < byte c \<and> byte c < 127) (COOKIE @ ''='' @ token)"
    using hex by (fastforce simp: list_all_iff COOKIE_def byte_def)
  then have "list_all (\<lambda>c. byte c = 9 \<or> 32 \<le> byte c \<and> byte c < 127) (COOKIE @ ''='' @ token)"
    by (rule list.pred_mono_strong) auto
  then have "to_str (COOKIE @ ''='' @ token) = Some (COOKIE @ ''='' @ token)"
    unfolding to_str_def by (rule if_P)
  moreover have "split_on (CHR '';'') (COOKIE @ ''='' @ token) = [COOKIE @ ''='' @ token]"
    using no by (intro split_on_piece) (simp add: COOKIE_def)
  moreover have "split_once (CHR ''='') (COOKIE @ ''='' @ token) = Some (COOKIE, token)"
    unfolding split_once_Some by (simp add: COOKIE_def)
  moreover have "trim token = token"
    using visible by (intro trim_visible) simp
  moreover have "trim (COOKIE @ ''='' @ token) = COOKIE @ ''='' @ token"
    by (rule trim_visible [OF visible])
  ultimately show ?thesis
    unfolding first by (simp add: cookie_token_def get_all_def List.map_filter_def)
qed

theorem cookie_roundtrip_witness:
  "cookie_token [(''cookie'', hd (split_on (CHR '';'') (cookie ''0aF9'' True)))] = Some ''0aF9''"
  by (rule cookie_roundtrip) (simp add: is_ascii_hexdigit_def is_ascii_digit_def byte_def)

end
