(* ===== verification/Control_Limiter.thy ===== *)
theory Control_Limiter
  imports Control_Sessions
begin

text \<open>
  The limiter of failed logins (\<open>ndimon-control\<close>, \<open>sessions.rs\<close>): the failures of each source and of
  all sources within a window, the delay before the next attempt of a source and the latency that
  distributed failures add.
\<close>

section \<open>State\<close>

record failures =
  fl_per_address :: "(ip_addr \<times> nat list) list"
  fl_all :: "nat list"

record limiter =
  ll_failures :: failures
  ll_window :: nat
  ll_per_address :: nat
  ll_total :: nat

definition limiter_new :: "nat \<Rightarrow> nat \<Rightarrow> nat \<Rightarrow> limiter" where
  "limiter_new window per_address tot =
     \<lparr>ll_failures = \<lparr>fl_per_address = [], fl_all = []\<rparr>, ll_window = window,
      ll_per_address = per_address, ll_total = tot\<rparr>"

definition limiter_default :: limiter where
  "limiter_default = limiter_new (from_secs 60) 5 50"

text \<open>One bucket for an IPv4 address and its mapped form, one for the upper half of an IPv6 address.\<close>

definition source :: "ip_addr \<Rightarrow> ip_addr" where
  "source address =
     (case address of
        V6 ip \<Rightarrow> (case to_ipv4_mapped ip of
                    Some ip' \<Rightarrow> V4 ip'
                  | None \<Rightarrow> V6 (of_nat (unat ip div 2 ^ 64 * 2 ^ 64)))
      | ip \<Rightarrow> ip)"

section \<open>Operations\<close>

definition recent :: "limiter \<Rightarrow> nat \<Rightarrow> nat \<Rightarrow> bool" where
  "recent l now tm = (now - tm < ll_window l)"

definition prune :: "nat \<Rightarrow> limiter \<Rightarrow> limiter" where
  "prune now l =
     l\<lparr>ll_failures :=
         \<lparr>fl_per_address =
            filter (\<lambda>(_, queue). queue \<noteq> [])
              (map (\<lambda>(a, queue). (a, filter (recent l now) queue)) (fl_per_address (ll_failures l))),
          fl_all = filter (recent l now) (fl_all (ll_failures l))\<rparr>\<rparr>"

definition back_of :: "nat list \<Rightarrow> nat option" where
  "back_of queue = (if queue = [] then None else Some (List.last queue))"

definition backoff :: "nat \<Rightarrow> nat \<Rightarrow> nat" where
  "backoff len per_address = min (2 ^ min (len - per_address) 5) 30"

definition retry_after :: "ip_addr \<Rightarrow> nat \<Rightarrow> limiter \<Rightarrow> nat option \<times> limiter" where
  "retry_after address now l0 =
     (let l = prune now l0
      in ((case map_of (fl_per_address (ll_failures l)) (source address) of
             None \<Rightarrow> None
           | Some queue \<Rightarrow>
               if length queue < ll_per_address l then None
               else (case back_of queue of
                       None \<Rightarrow> None
                     | Some tm \<Rightarrow>
                         (let whole = from_secs (backoff (length queue) (ll_per_address l));
                              since = now - tm
                          in if since < whole then Some (whole - since) else None))),
          l))"

definition soft_delay :: "nat \<Rightarrow> limiter \<Rightarrow> nat \<times> limiter" where
  "soft_delay now l0 =
     (let l = prune now l0;
          n = length (fl_all (ll_failures l))
      in (if n < ll_total l then 0 else from_millis (250 * 2 ^ min (n - ll_total l) 3), l))"

definition succeeded :: "ip_addr \<Rightarrow> limiter \<Rightarrow> limiter" where
  "succeeded address l =
     l\<lparr>ll_failures := (ll_failures l)
         \<lparr>fl_per_address := bt_remove (source address) (fl_per_address (ll_failures l))\<rparr>\<rparr>"

definition SOURCE_MAX :: nat where
  "SOURCE_MAX = 4096"

definition push_bounded :: "nat \<Rightarrow> nat \<Rightarrow> nat list \<Rightarrow> nat list" where
  "push_bounded bound tm q = (if bound \<le> length q then tl q else q) @ [tm]"

definition failed ::
  "((ip_addr \<times> nat list) list \<Rightarrow> (ip_addr \<times> nat list) list) \<Rightarrow> ip_addr \<Rightarrow> nat \<Rightarrow> limiter \<Rightarrow> limiter" where
  "failed it address now l0 =
     (let l = prune now l0;
          per = fl_per_address (ll_failures l);
          key = source address;
          room = (if SOURCE_MAX \<le> length per \<and> map_of per key = None
                  then (case min_by_key (\<lambda>(_, queue). back_of queue) (it per) of
                          Some (oldest, _) \<Rightarrow> bt_remove oldest per
                        | None \<Rightarrow> per)
                  else per);
          queue = (case map_of room key of Some q \<Rightarrow> q | None \<Rightarrow> [])
      in l\<lparr>ll_failures :=
             \<lparr>fl_per_address = hm_insert key (push_bounded (saturating_usize (ll_per_address l) 5) now queue) room,
              fl_all = push_bounded (saturating_usize (ll_total l) 3) now (fl_all (ll_failures l))\<rparr>\<rparr>)"

section \<open>Histories\<close>

datatype limiter_op =
    OpRetry ip_addr nat
  | OpDelay nat
  | OpSucceeded ip_addr
  | OpFailed ip_addr nat

fun limiter_step ::
  "((ip_addr \<times> nat list) list \<Rightarrow> (ip_addr \<times> nat list) list) \<Rightarrow> limiter_op \<Rightarrow> limiter \<Rightarrow> limiter" where
  "limiter_step it (OpRetry a now) l = snd (retry_after a now l)"
| "limiter_step it (OpDelay now) l = snd (soft_delay now l)"
| "limiter_step it (OpSucceeded a) l = succeeded a l"
| "limiter_step it (OpFailed a now) l = failed it a now l"

definition run_limiter where
  "run_limiter it window per_address tot ops =
     fold (limiter_step it) ops (limiter_new window per_address tot)"

text \<open>The failures of one source since its last successful login, oldest first.\<close>

fun own_step :: "ip_addr \<Rightarrow> limiter_op \<Rightarrow> nat list \<Rightarrow> nat list" where
  "own_step key (OpFailed a tm) own = (if source a = key then own @ [tm] else own)"
| "own_step key (OpSucceeded a) own = (if source a = key then [] else own)"
| "own_step key (OpRetry _ _) own = own"
| "own_step key (OpDelay _) own = own"

definition own_failures :: "ip_addr \<Rightarrow> limiter_op list \<Rightarrow> nat list" where
  "own_failures key ops = fold (own_step key) ops []"

definition limiter_ok :: "limiter \<Rightarrow> bool" where
  "limiter_ok l =
     (distinct (map fst (fl_per_address (ll_failures l)))
      \<and> length (fl_per_address (ll_failures l)) \<le> SOURCE_MAX
      \<and> list_all (\<lambda>(_, q). q \<noteq> [] \<and> length q \<le> ll_per_address l + 5) (fl_per_address (ll_failures l))
      \<and> length (fl_all (ll_failures l)) \<le> ll_total l + 3)"

lemma run_limiter_snoc [simp]:
  "run_limiter it w p t (ops @ [op]) = limiter_step it op (run_limiter it w p t ops)"
  by (simp add: run_limiter_def)

lemma own_failures_snoc [simp]: "own_failures key (ops @ [op]) = own_step key op (own_failures key ops)"
  by (simp add: own_failures_def)

lemma prune_config [simp]:
  "ll_window (prune now l) = ll_window l" "ll_per_address (prune now l) = ll_per_address l"
  "ll_total (prune now l) = ll_total l"
  by (simp_all add: prune_def)

lemma step_config [simp]:
  "ll_window (limiter_step it op l) = ll_window l" "ll_per_address (limiter_step it op l) = ll_per_address l"
  "ll_total (limiter_step it op l) = ll_total l"
  by (cases op; simp add: retry_after_def soft_delay_def succeeded_def failed_def Let_def)+

lemma run_config [simp]:
  "ll_window (run_limiter it w p t ops) = w" "ll_per_address (run_limiter it w p t ops) = p"
  "ll_total (run_limiter it w p t ops) = t"
  by (induction ops rule: rev_induct; simp add: run_limiter_def limiter_new_def)+

lemma distinct_prune:
  "distinct (map fst (fl_per_address (ll_failures l))) \<Longrightarrow> distinct (map fst (fl_per_address (ll_failures (prune now l))))"
  unfolding prune_def by (simp, rule hm_distinct_filter) (simp add: comp_def case_prod_beta)

lemma get_prune:
  assumes "distinct (map fst (fl_per_address (ll_failures l)))"
  shows "map_of (fl_per_address (ll_failures (prune now l))) key =
     (case map_of (fl_per_address (ll_failures l)) key of
        None \<Rightarrow> None
      | Some q \<Rightarrow> if filter (recent l now) q = [] then None else Some (filter (recent l now) q))"
proof -
  have "distinct (map fst (map (\<lambda>(a, q). (a, filter (recent l now) q)) (fl_per_address (ll_failures l))))"
    using assms by (simp add: comp_def case_prod_beta)
  from hm_get_filter [OF this] show ?thesis
    by (simp add: prune_def map_of_map split: option.split)
qed

lemma prune_ok: "limiter_ok l \<Longrightarrow> limiter_ok (prune now l)"
proof -
  assume ok: "limiter_ok l"
  have "length (fl_per_address (ll_failures (prune now l))) \<le> length (fl_per_address (ll_failures l))"
    by (auto simp: prune_def intro: le_trans [OF length_filter_le])
  moreover have "list_all (\<lambda>(_, q). q \<noteq> [] \<and> length q \<le> ll_per_address l + 5) (fl_per_address (ll_failures (prune now l)))"
    using ok by (fastforce simp: prune_def limiter_ok_def list_all_iff intro: le_trans [OF length_filter_le])
  moreover have "length (fl_all (ll_failures (prune now l))) \<le> ll_total l + 3"
    using ok by (auto simp: prune_def limiter_ok_def intro: le_trans [OF length_filter_le])
  ultimately show ?thesis
    using ok distinct_prune by (simp add: limiter_ok_def)
qed

lemma push_bounded_length: "0 < b \<Longrightarrow> b \<le> n \<Longrightarrow> length q \<le> n \<Longrightarrow> length (push_bounded b tm q) \<le> n"
  by (auto simp: push_bounded_def)

lemma push_bounded_mset: "mset (push_bounded b tm q) \<subseteq># add_mset tm (mset q)"
proof -
  have "mset (tl q) \<subseteq># mset q"
    by (cases q) auto
  then show ?thesis
    by (simp add: push_bounded_def)
qed

lemma saturating_usize_pos: "0 < b \<Longrightarrow> 0 < saturating_usize a b"
  by (simp add: saturating_usize_def)

lemma saturating_usize_le: "saturating_usize a b \<le> a + b"
  by (simp add: saturating_usize_def)

text \<open>The sources that are left after making room for \<open>key\<close>.\<close>

definition room_for ::
  "((ip_addr \<times> nat list) list \<Rightarrow> (ip_addr \<times> nat list) list) \<Rightarrow> ip_addr \<Rightarrow> (ip_addr \<times> nat list) list \<Rightarrow>
   (ip_addr \<times> nat list) list" where
  "room_for it key per =
     (if SOURCE_MAX \<le> length per \<and> map_of per key = None
      then (case min_by_key (\<lambda>(_, queue). back_of queue) (it per) of
              Some (oldest, _) \<Rightarrow> bt_remove oldest per
            | None \<Rightarrow> per)
      else per)"

lemma failed_alt:
  "failed it address now l0 =
     (let l = prune now l0; key = source address; room = room_for it key (fl_per_address (ll_failures l))
      in l\<lparr>ll_failures :=
             \<lparr>fl_per_address =
                hm_insert key (push_bounded (saturating_usize (ll_per_address l) 5) now
                  (case map_of room key of Some q \<Rightarrow> q | None \<Rightarrow> [])) room,
              fl_all = push_bounded (saturating_usize (ll_total l) 3) now (fl_all (ll_failures l))\<rparr>\<rparr>)"
  by (simp add: failed_def room_for_def Let_def)

lemma room_for_sub: "set (room_for it key per) \<subseteq> set per"
  by (auto simp: room_for_def bt_remove_def split: option.splits)

lemma room_for_distinct: "distinct (map fst per) \<Longrightarrow> distinct (map fst (room_for it key per))"
  by (auto simp: room_for_def split: option.split)

lemma room_for_get: "map_of (room_for it key per) k = Some q \<Longrightarrow> map_of per k = Some q"
  by (auto simp: room_for_def split: option.splits if_splits)

lemma room_for_length:
  assumes "\<And>m. mset (it m) = mset m" and "length per \<le> SOURCE_MAX"
  shows "length (hm_insert key q (room_for it key per)) \<le> SOURCE_MAX"
proof (cases "SOURCE_MAX \<le> length per \<and> map_of per key = None")
  case True
  then have "it per \<noteq> []"
    using assms(1) [of per] by (auto simp: SOURCE_MAX_def)
  then obtain x e where x: "min_by_key (\<lambda>(_, queue). back_of queue) (it per) = Some (x, e)"
    by (metis min_by_key_None option.exhaust surj_pair)
  then have "(x, e) \<in> set per"
    using min_by_key_mem assms(1) by (metis mset_eq_setD)
  then have "length (bt_remove x per) < length per"
    by (intro length_remove_present) force
  then show ?thesis
    using True x assms(2) length_bt_remove [of key "bt_remove x per"]
    by (simp add: room_for_def hm_insert_def)
next
  case False
  then show ?thesis
    using assms(2) length_bt_remove [of key per] length_touch [of per key]
    by (auto simp: room_for_def hm_insert_def)
qed

lemma failed_ok:
  assumes "\<And>m. mset (it m) = mset m" and "limiter_ok l"
  shows "limiter_ok (failed it a now l)"
proof -
  define p where "p = prune now l"
  define per where "per = fl_per_address (ll_failures p)"
  define q where "q = (case map_of (room_for it (source a) per) (source a) of Some q \<Rightarrow> q | None \<Rightarrow> [])"
  define q' where "q' = push_bounded (saturating_usize (ll_per_address p) 5) now q"
  have ok: "limiter_ok p"
    using assms(2) prune_ok unfolding p_def by blast
  have each: "(k, x) \<in> set per \<Longrightarrow> x \<noteq> [] \<and> length x \<le> ll_per_address p + 5" for k x
    using ok by (auto simp: limiter_ok_def per_def list_all_iff)
  have "length q \<le> ll_per_address p + 5"
    using each room_for_sub [of it "source a" per]
    by (auto simp: q_def split: option.split dest!: map_of_SomeD)
  then have new: "length q' \<le> ll_per_address p + 5" "q' \<noteq> []"
    unfolding q'_def using push_bounded_length saturating_usize_le saturating_usize_pos
    by (simp, simp add: push_bounded_def)
  have "list_all (\<lambda>(_, x). x \<noteq> [] \<and> length x \<le> ll_per_address p + 5) (hm_insert (source a) q' (room_for it (source a) per))"
    using each new room_for_sub [of it "source a" per] by (fastforce simp: list_all_iff hm_insert_def bt_remove_def)
  moreover have "length (push_bounded (saturating_usize (ll_total p) 3) now (fl_all (ll_failures p))) \<le> ll_total p + 3"
    using ok by (intro push_bounded_length saturating_usize_le saturating_usize_pos) (auto simp: limiter_ok_def)
  moreover have "length (hm_insert (source a) q' (room_for it (source a) per)) \<le> SOURCE_MAX"
    using ok by (intro room_for_length assms(1)) (simp add: limiter_ok_def per_def)
  moreover have "distinct (map fst (hm_insert (source a) q' (room_for it (source a) per)))"
    using ok by (simp add: room_for_distinct limiter_ok_def per_def)
  ultimately show ?thesis
    by (simp add: limiter_ok_def failed_alt Let_def p_def [symmetric] per_def [symmetric] q_def [symmetric] q'_def [symmetric])
qed

lemma limiter_ok_step:
  assumes "\<And>m. mset (it m) = mset m" and "limiter_ok l"
  shows "limiter_ok (limiter_step it op l)"
proof (cases op)
  case (OpSucceeded a)
  then show ?thesis
    using assms(2) length_bt_remove [of "source a" "fl_per_address (ll_failures l)"]
    by (auto simp: succeeded_def limiter_ok_def list_all_iff bt_remove_def hm_distinct_filter
             intro: le_trans [OF length_filter_le])
qed (use assms prune_ok failed_ok [OF assms(1)] in \<open>auto simp: retry_after_def soft_delay_def Let_def\<close>)

text \<open>What the table holds of a source are failures of that source since its last success.\<close>

definition own_only :: "limiter \<Rightarrow> limiter_op list \<Rightarrow> bool" where
  "own_only l ops =
     (distinct (map fst (fl_per_address (ll_failures l)))
      \<and> (\<forall>key q. map_of (fl_per_address (ll_failures l)) key = Some q \<longrightarrow> mset q \<subseteq># mset (own_failures key ops)))"

lemma own_only_prune: "own_only l ops \<Longrightarrow> own_only (prune now l) ops"
  unfolding own_only_def
  by (auto simp: get_prune distinct_prune split: option.splits if_splits
           intro: subset_mset.order_trans [OF multiset_filter_subset])

lemma own_only_failed:
  assumes "own_only l ops"
  shows "own_only (failed it a now l) (ops @ [OpFailed a now])"
proof -
  define p where "p = prune now l"
  define per where "per = fl_per_address (ll_failures p)"
  have own: "own_only p ops"
    using assms own_only_prune unfolding p_def by blast
  have sub: "map_of (room_for it (source a) per) key = Some q \<Longrightarrow> mset q \<subseteq># mset (own_failures key ops)" for key q
    using own room_for_get unfolding own_only_def per_def by blast
  define q where "q = (case map_of (room_for it (source a) per) (source a) of Some q \<Rightarrow> q | None \<Rightarrow> [])"
  have "mset q \<subseteq># mset (own_failures (source a) ops)"
    using sub by (simp add: q_def split: option.split)
  then have "mset (push_bounded b now q) \<subseteq># add_mset now (mset (own_failures (source a) ops))" for b
    using push_bounded_mset [of b now q] by (meson mset_subset_eq_add_mset_cancel subset_mset.order_trans)
  moreover have "distinct (map fst (room_for it (source a) per))"
    using own by (simp add: own_only_def per_def room_for_distinct)
  ultimately show ?thesis
    using sub unfolding own_only_def failed_alt Let_def
    by (auto simp: p_def [symmetric] per_def [symmetric] q_def [symmetric])
qed

lemma own_only_skip: "(\<And>key own. own_step key op own = own) \<Longrightarrow> own_only l (ops @ [op]) = own_only l ops"
  by (simp add: own_only_def)

lemma own_only_step: "own_only l ops \<Longrightarrow> own_only (limiter_step it op l) (ops @ [op])"
proof (cases op)
  case (OpSucceeded a)
  moreover assume "own_only l ops"
  ultimately show ?thesis
    by (auto simp: own_only_def succeeded_def)
next
  case (OpFailed a now)
  moreover assume "own_only l ops"
  ultimately show ?thesis
    using own_only_failed by simp
qed (use own_only_prune own_only_skip in \<open>simp_all add: retry_after_def soft_delay_def Let_def\<close>)

lemma own_only_run: "own_only (run_limiter it w p t ops) ops"
proof (induction ops rule: rev_induct)
  case Nil
  then show ?case
    by (simp add: own_only_def run_limiter_def limiter_new_def)
qed (simp add: own_only_step)

lemma push_replicate:
  "0 < m \<Longrightarrow> m \<le> b \<Longrightarrow> push_bounded b x (replicate m x) = replicate (min (Suc m) b) x"
proof (cases "m < b")
  case False
  moreover assume "0 < m" "m \<le> b"
  ultimately obtain k where "m = Suc k" "b = Suc k"
    by (metis gr0_implies_Suc le_neq_implies_less)
  then show ?thesis
    by (simp add: push_bounded_def replicate_append_same)
qed (simp add: push_bounded_def replicate_append_same)

section \<open>Theorems\<close>

text \<open>
  C30: A source is refused only for its own failures: when \<open>retry_after\<close> names a delay, it is positive and
  at most 30 seconds, and at least \<open>per_address\<close> failed logins of that source lie within the window and
  after its last successful login, whatever the other sources did.
\<close>

theorem refused_for_own_failures:
  assumes "fst (retry_after address now (run_limiter it window per tot ops)) = Some delay"
  shows "0 < delay \<and> delay \<le> from_secs 30
    \<and> per \<le> length (filter (\<lambda>tm. now - tm < window) (own_failures (source address) ops))"
proof -
  define l where "l = run_limiter it window per tot ops"
  obtain q where q: "map_of (fl_per_address (ll_failures (prune now l))) (source address) = Some q"
      "per \<le> length q" and delay: "0 < delay" "delay \<le> from_secs (backoff (length q) per)"
    using assms by (auto simp: retry_after_def Let_def l_def [symmetric] split: option.splits if_splits)
       (auto simp: l_def)
  have "own_only l ops"
    by (simp add: l_def own_only_run)
  then obtain r where r: "map_of (fl_per_address (ll_failures l)) (source address) = Some r"
      "q = filter (recent l now) r" "mset r \<subseteq># mset (own_failures (source address) ops)"
    using q(1) by (auto simp: own_only_def get_prune split: option.splits if_splits)
  have recent: "recent l now = (\<lambda>tm. now - tm < window)"
    by (rule ext) (simp add: recent_def l_def)
  have "mset q \<subseteq># mset (filter (\<lambda>tm. now - tm < window) (own_failures (source address) ops))"
    using multiset_filter_mono [OF r(3), of "recent l now"] r(2) recent by simp
  then have "length q \<le> length (filter (\<lambda>tm. now - tm < window) (own_failures (source address) ops))"
    by (metis size_mset size_mset_mono)
  moreover have "delay \<le> from_secs 30"
    using delay(2) by (simp add: backoff_def from_secs_def)
  ultimately show ?thesis
    using q(2) delay(1) by simp
qed

theorem refused_for_own_failures_witness:
  "fst (retry_after (V4 7) 3 (run_limiter id 60 2 50 [OpFailed (V4 7) 1, OpFailed (V4 9) 2, OpFailed (V4 7) 2]))
     = Some 999999999
   \<and> 2 \<le> length (filter (\<lambda>tm. 3 - tm < 60)
       (own_failures (source (V4 7)) [OpFailed (V4 7) 1, OpFailed (V4 9) 2, OpFailed (V4 7) 2]))"
proof -
  let ?l = "run_limiter id 60 2 50 [OpFailed (V4 7) 1, OpFailed (V4 9) 2, OpFailed (V4 7) 2]"
  have "fst (retry_after (V4 7) 3 ?l) = Some 999999999"
    by (simp add: run_limiter_def limiter_new_def failed_def prune_def recent_def retry_after_def source_def
        hm_insert_def bt_remove_def push_bounded_def saturating_usize_def SOURCE_MAX_def back_of_def backoff_def
        from_secs_def Let_def)
  with refused_for_own_failures [OF this] show ?thesis
    by simp
qed

text \<open>
  The schedule: after \<open>n\<close> failures of one source at one instant the source waits as long as the
  documented steps 1, 2, 4, 8, 16, 30 seconds say, counted from the failure that reached the limit, every
  other source is free to try, and below the limit the source itself is.
\<close>

theorem throttle_schedule:
  assumes "0 < window" "0 < per" "per + 5 < 2 ^ 64"
  shows "fst (retry_after b now (run_limiter it window per tot (replicate n (OpFailed a now)))) =
    (if source b = source a \<and> per \<le> n
     then Some (from_secs ([1, 2, 4, 8, 16, 30] ! min (n - per) 5)) else None)"
proof -
  have empty: "fl_per_address (ll_failures (limiter_new window per tot)) = []"
    by (simp add: limiter_new_def)
  have state: "fl_per_address (ll_failures (run_limiter it window per tot (replicate (Suc k) (OpFailed a now))))
      = [(source a, replicate (min (Suc k) (per + 5)) now)]" for k
  proof (induction k)
    case 0
    then show ?case
      using assms by (simp add: run_limiter_def limiter_new_def failed_def prune_def hm_insert_def
          bt_remove_def push_bounded_def saturating_usize_def SOURCE_MAX_def Let_def)
  next
    case (Suc k)
    define l where "l = run_limiter it window per tot (replicate (Suc k) (OpFailed a now))"
    define m where "m = min (Suc k) (per + 5)"
    have next_op: "replicate (Suc (Suc k)) (OpFailed a now) = replicate (Suc k) (OpFailed a now) @ [OpFailed a now]"
      by (simp add: replicate_append_same)
    have "0 < m" "m \<le> per + 5"
      by (simp_all add: m_def)
    then have push: "push_bounded (saturating_usize per 5) now (replicate m now) = replicate (min (Suc m) (per + 5)) now"
      using push_replicate [of m "per + 5" now] assms(3) by (simp add: saturating_usize_def)
    have pruned: "fl_per_address (ll_failures (prune now l)) = [(source a, replicate m now)]"
      using Suc assms \<open>0 < m\<close> by (simp add: prune_def recent_def m_def l_def)
    have "fl_per_address (ll_failures (failed it a now l)) = [(source a, replicate (min (Suc m) (per + 5)) now)]"
      unfolding failed_def Let_def pruned
      by (simp add: SOURCE_MAX_def hm_insert_def bt_remove_def push l_def)
    then show ?case
      unfolding next_op run_limiter_snoc l_def [symmetric] by (simp add: m_def)
  qed
  show ?thesis
  proof (cases n)
    case 0
    then show ?thesis
      using assms by (simp add: run_limiter_def retry_after_def prune_def empty Let_def)
  next
    case (Suc k)
    define l where "l = run_limiter it window per tot (replicate (Suc k) (OpFailed a now))"
    have pruned: "fl_per_address (ll_failures (prune now l)) = [(source a, replicate (min (Suc k) (per + 5)) now)]"
      using state [of k] assms by (simp add: prune_def l_def recent_def)
    have step: "backoff m per = [1, 2, 4, 8, 16, 30] ! min (m - per) 5" for m
    proof -
      have "min (m - per) 5 \<in> {0, 1, 2, 3, 4, 5}"
        by auto
      then show ?thesis
        by (auto simp: backoff_def)
    qed
    have "back_of (replicate (min (Suc k) (per + 5)) now) = Some now"
      by (simp add: back_of_def last_replicate)
    moreover have "ll_per_address l = per"
      by (simp add: l_def)
    moreover have "0 < from_secs (backoff m per)" for m
      by (simp add: backoff_def from_secs_def)
    moreover have "min (min (Suc k) (per + 5) - per) 5 = min (Suc k - per) 5"
      by auto
    ultimately show ?thesis
      unfolding Suc l_def [symmetric] retry_after_def Let_def fst_conv pruned
      using step by auto
  qed
qed

theorem throttle_schedule_witness:
  "fst (retry_after (V4 7) 9 (run_limiter rev (from_secs 60) 5 50 (replicate 8 (OpFailed (V4 7) 9)))) = Some (from_secs 8)"
  using throttle_schedule [of "from_secs 60" 5 "V4 7" 9 rev 50 8 "V4 7"]
  by (simp add: from_secs_def)

text \<open>
  C31: The limiter's memory is bounded whatever is thrown at it: at most 4096 sources, each with at most
  \<open>per_address + 5\<close> instants and never with none, and at most \<open>total + 3\<close> instants of all sources.
\<close>

theorem limiter_bounded:
  assumes "\<And>m. mset (it m) = mset m"
  shows "limiter_ok (run_limiter it window per tot ops)"
proof (induction ops rule: rev_induct)
  case Nil
  then show ?case
    by (simp add: limiter_ok_def run_limiter_def limiter_new_def SOURCE_MAX_def)
qed (simp add: limiter_ok_step [OF assms])

theorem limiter_bounded_witness: "limiter_ok (run_limiter rev 60 5 50 (map (\<lambda>n. OpFailed (V4 (of_nat n)) n) [0..<9000]))"
  by (rule limiter_bounded) simp

end
