(* ===== verification/Control_Guard.thy ===== *)
theory Control_Guard
  imports Control_Sessions Doc_Validation
begin

text \<open>
  The front door of \<open>ndimon-control\<close>: which host names a request may use (\<open>hosts.rs\<close>), the checks of
  origin, authentication and CSRF token that stand before every handler (\<open>csrf.rs\<close>), the
  authentication itself (\<open>AppState::authenticate\<close>, \<open>peer\<close> of \<open>lib.rs\<close>), the connection's addresses
  (\<open>connections.rs\<close>) and the error envelopes (\<open>errors.rs\<close>).

  Parameters: the URL parser \<open>url\<close> (crate \<open>url\<close>) and the host part of an authority \<open>authority\<close> (crate
  \<open>http\<close>). What the system answers (host name, interface addresses, resolver files) is \<open>host_env\<close>.
\<close>

section \<open>Requests and responses\<close>

datatype http_method = MGet | MHead | MOptions | MPost | MPut | MPatch | MDelete | MOther string

type_synonym socket_addr = "ip_addr \<times> u16"

record socket_info =
  si_peer :: socket_addr
  si_local :: "socket_addr option"

record http_request =
  rq_method :: http_method
  rq_path :: string
  rq_headers :: headers
  rq_socket :: "socket_info option"
  rq_addr :: "socket_addr option"

record http_response =
  rp_status :: nat
  rp_headers :: headers
  rp_body :: "json option"

definition obj :: "(string \<times> json) list \<Rightarrow> json" where
  "obj kvs = JObject (bt_of_list kvs)"

definition error_reply :: "nat \<Rightarrow> json \<Rightarrow> string \<Rightarrow> http_response" where
  "error_reply status kind message =
     \<lparr>rp_status = status, rp_headers = [],
      rp_body = Some (obj [(''error'', kind), (''message'', JString message)])\<rparr>"

definition unauthorized :: http_response where
  "unauthorized = error_reply 401 (JString ''unauthorized'') ''log in first''"

definition denied :: "string \<Rightarrow> http_response" where
  "denied message = error_reply 403 (JString ''permission_denied'') message"

definition invalid_reply :: "string \<Rightarrow> string \<Rightarrow> http_response" where
  "invalid_reply field reason =
     error_reply 400
       (obj [(''invalid'', obj [(''field'', JString field), (''reason'', JString reason),
                                (''errors'', JArray [obj [(''field'', JString field), (''reason'', JString reason)]])])])
       reason"

definition internal :: http_response where
  "internal =
     error_reply 500 (obj [(''internal'', obj [(''message'', JString ''authentication storage failed'')])])
       ''authentication storage failed''"

section \<open>Connections\<close>

definition peer :: "http_request \<Rightarrow> ip_addr option" where
  "peer r =
     map_option canonical_ip
       (case rq_socket r of Some info \<Rightarrow> Some (fst (si_peer info)) | None \<Rightarrow> map_option fst (rq_addr r))"

definition network_session :: "socket_info \<Rightarrow> (ip_addr \<times> ip_addr) option" where
  "network_session info =
     map_option (\<lambda>l. (canonical_ip (fst (si_peer info)), canonical_ip (fst l))) (si_local info)"

section \<open>Host names\<close>

definition eq_ignore_ascii_case :: "string \<Rightarrow> string \<Rightarrow> bool" where
  "eq_ignore_ascii_case a b = (to_ascii_lowercase a = to_ascii_lowercase b)"

definition trim_end_matches :: "char \<Rightarrow> string \<Rightarrow> string" where
  "trim_end_matches c s = rev (dropWhile (\<lambda>x. x = c) (rev s))"

definition strip_final :: "char \<Rightarrow> string \<Rightarrow> string" where
  "strip_final c s = (case strip_suffix [c] s of Some r \<Rightarrow> r | None \<Rightarrow> s)"

definition valid_port :: "string \<Rightarrow> bool" where
  "valid_port p = (p \<noteq> [] \<and> list_all is_ascii_digit p \<and> parse_uint 16 p \<noteq> None)"

definition request_host :: "(string \<Rightarrow> string option) \<Rightarrow> headers \<Rightarrow> string option" where
  "request_host authority hs =
     (case get_all ''host'' hs of
        [] \<Rightarrow> None
      | v # others \<Rightarrow>
          (case to_str v of
             None \<Rightarrow> None
           | Some v \<Rightarrow>
               if others \<noteq> [] \<or> CHR ''@'' \<in> set v then None
               else (case authority v of
                       None \<Rightarrow> None
                     | Some host \<Rightarrow>
                         (let suffix = drop (length host) v
                          in if suffix \<noteq> [] \<and>
                                \<not> (case strip_prefix '':'' suffix of None \<Rightarrow> False | Some port \<Rightarrow> valid_port port)
                             then None
                             else Some (take (length host) v)))))"

definition is_ipv6 :: "ip_addr \<Rightarrow> bool" where
  "is_ipv6 a = (case a of V6 _ \<Rightarrow> True | V4 _ \<Rightarrow> False)"

definition literal_of :: "string \<Rightarrow> string" where
  "literal_of host =
     (case Option.bind (strip_prefix ''['' host) (strip_suffix '']'') of Some h \<Rightarrow> h | None \<Rightarrow> host)"

definition matches_device :: "(string \<Rightarrow> string option) \<Rightarrow> headers \<Rightarrow> string option \<Rightarrow> ip_addr list \<Rightarrow> bool" where
  "matches_device authority hs hostname addresses =
     (case request_host authority hs of
        None \<Rightarrow> False
      | Some host \<Rightarrow>
          (case parse_ip (literal_of host) of
             Some ip \<Rightarrow>
               if is_ipv6 ip \<and> \<not> starts_with ''['' host then False
               else (let ip = canonical_ip ip
                     in \<not> ip_is_unspecified ip \<and>
                        (ip_is_loopback ip \<or> list_ex (\<lambda>a. canonical_ip a = ip) addresses))
           | None \<Rightarrow>
               (let host = strip_final (CHR ''.'') host
                in eq_ignore_ascii_case host ''localhost'' \<or>
                   (case hostname of
                      None \<Rightarrow> False
                    | Some name \<Rightarrow>
                        (let name = trim_end_matches (CHR ''.'') name
                         in name \<noteq> [] \<and>
                            (eq_ignore_ascii_case host name \<or> eq_ignore_ascii_case host (name @ ''.local'')))))))"

definition configured_allowed :: "(string \<Rightarrow> string option) \<Rightarrow> headers \<Rightarrow> string list \<Rightarrow> bool" where
  "configured_allowed authority hs names =
     (case request_host authority hs of
        None \<Rightarrow> False
      | Some host \<Rightarrow>
          (let host = strip_final (CHR ''.'') host
           in list_ex (\<lambda>name. valid_web_hostname name \<and> eq_ignore_ascii_case host name) names))"

definition matches_search_domains ::
  "(string \<Rightarrow> string option) \<Rightarrow> headers \<Rightarrow> string option \<Rightarrow> string list \<Rightarrow> bool" where
  "matches_search_domains authority hs hostname domains =
     (case hostname of
        None \<Rightarrow> False
      | Some name \<Rightarrow>
          name \<noteq> [] \<and>
          configured_allowed authority hs
            (map (\<lambda>domain. trim_end_matches (CHR ''.'') name @ ''.'' @ domain) domains))"

definition directive_words :: "string \<Rightarrow> string list" where
  "directive_words line =
     split_whitespace (hd (split_on (CHR '';'') (hd (split_on (CHR ''#'') line))))"

definition resolver_domains :: "string \<Rightarrow> string list" where
  "resolver_domains raw =
     fold (\<lambda>line domains.
             case directive_words line of
               [] \<Rightarrow> domains
             | directive # ws \<Rightarrow>
                 if directive = ''search'' \<or> directive = ''domain''
                 then filter valid_web_hostname
                        (map (\<lambda>name. to_ascii_lowercase (trim_end_matches (CHR ''.'') name))
                          (if directive = ''domain'' then take 1 ws else ws))
                 else domains)
       (lines_of raw) []"

text \<open>What the system answers: the host name where it is UTF-8, the addresses of the interfaces, the text
  of \<open>/etc/resolv.conf\<close> where it can be read, where that path leads and the text of resolved's own
  file.\<close>

record host_env =
  he_hostname :: "string option"
  he_addresses :: "ip_addr list"
  he_resolv :: "string option"
  he_canonical :: "string option"
  he_upstream :: "string option"

definition RESOLVED_DIR :: string where
  "RESOLVED_DIR = ''/run/systemd/resolve''"

definition path_starts_with :: "string \<Rightarrow> string \<Rightarrow> bool" where
  "path_starts_with dir path =
     (case strip_prefix dir path of None \<Rightarrow> False | Some rest \<Rightarrow> rest = [] \<or> starts_with ''/'' rest)"

definition search_domains :: "host_env \<Rightarrow> string list" where
  "search_domains he =
     (let raw = (case he_resolv he of Some t \<Rightarrow> t | None \<Rightarrow> []);
          uses_resolved =
            (case he_canonical he of Some p \<Rightarrow> path_starts_with RESOLVED_DIR p | None \<Rightarrow> False) \<or>
            list_ex (\<lambda>line. (case directive_words line of
                               a # b # _ \<Rightarrow> a = ''nameserver'' \<and> (b = ''127.0.0.53'' \<or> b = ''127.0.0.54'')
                             | _ \<Rightarrow> False)) (lines_of raw)
      in (case (uses_resolved, he_upstream he) of
            (True, Some upstream) \<Rightarrow> resolver_domains upstream
          | _ \<Rightarrow> resolver_domains raw))"

definition allowed :: "(string \<Rightarrow> string option) \<Rightarrow> host_env \<Rightarrow> headers \<Rightarrow> bool" where
  "allowed authority he hs =
     (matches_device authority hs (he_hostname he) (he_addresses he) \<or>
      matches_search_domains authority hs (he_hostname he) (search_domains he))"

definition display_host :: "headers \<Rightarrow> string" where
  "display_host hs =
     (case header ''host'' hs of
        None \<Rightarrow> ''(missing Host)''
      | Some v \<Rightarrow> utf8_encode (take 253 (filter (\<lambda>c. \<not> is_control c) (chars (from_utf8_lossy v)))))"

section \<open>Origin and CSRF token\<close>

datatype url_host = UrlDomain string | UrlV4 ipv4 | UrlV6 "128 word"

record url_parts =
  ul_scheme :: string
  ul_host :: "url_host option"
  ul_port :: "u16 option"
  ul_username :: string
  ul_password :: "string option"
  ul_path :: string
  ul_query :: "string option"
  ul_fragment :: "string option"

definition mutates :: "http_method \<Rightarrow> bool" where
  "mutates m = (m = MPost \<or> m = MPut \<or> m = MPatch \<or> m = MDelete)"

definition origin_allowed :: "(string \<Rightarrow> url_parts option) \<Rightarrow> http_method \<Rightarrow> headers \<Rightarrow> bool" where
  "origin_allowed url m hs =
     (if m = MGet \<or> m = MHead \<or> m = MOptions then True
      else (case header ''origin'' hs of
              None \<Rightarrow> True
            | Some origin \<Rightarrow>
                (case header_str ''host'' hs of
                   None \<Rightarrow> False
                 | Some host \<Rightarrow>
                     (case Option.bind (to_str origin) url of
                        None \<Rightarrow> False
                      | Some origin \<Rightarrow>
                          if (ul_scheme origin \<noteq> ''http'' \<and> ul_scheme origin \<noteq> ''https'') \<or> ul_host origin = None
                          then False
                          else (case url (ul_scheme origin @ ''://'' @ host) of
                                  None \<Rightarrow> False
                                | Some host \<Rightarrow>
                                    ul_username host = [] \<and> ul_password host = None \<and> ul_path host = ''/'' \<and>
                                    ul_query host = None \<and> ul_fragment host = None \<and>
                                    ul_host origin = ul_host host \<and> ul_port origin = ul_port host)))))"

definition token_allowed :: "http_method \<Rightarrow> headers \<Rightarrow> authenticated \<Rightarrow> bool" where
  "token_allowed m hs auth =
     (\<not> mutates m \<or> au_bearer auth \<or>
      (case header_str ''x-csrf-token'' hs of None \<Rightarrow> False | Some v \<Rightarrow> v = ss_csrf (au_session auth)))"

section \<open>Protected paths\<close>

definition collapse_slashes :: "string \<Rightarrow> string" where
  "collapse_slashes path =
     foldl (\<lambda>out c. if c = CHR ''/'' \<and> ends_with ''/'' out then out else out @ [c]) [] path"

definition PREFIXES :: "string list" where
  "PREFIXES =
     [''/v1'', ''/api'', ''/ndidecode'', ''/ndiencoder'', ''/ndifinder'', ''/videooutput'',
      ''/devicesettings'', ''/system'', ''/aboutme'', ''/plugins'']"

definition protected_form :: "string \<Rightarrow> bool" where
  "protected_form path0 =
     (let path = to_ascii_lowercase path0
      in list_ex (\<lambda>prefix. path = prefix \<or>
                    (case strip_prefix prefix path of None \<Rightarrow> False | Some v \<Rightarrow> starts_with ''/'' v)) PREFIXES)"

definition protected :: "string \<Rightarrow> bool" where
  "protected path =
     (let decoded = from_utf8_lossy (percent_decode path)
      in list_ex (\<lambda>form. protected_form (collapse_slashes form)) [path, decoded])"

section \<open>Authentication\<close>

definition bearer_token :: "headers \<Rightarrow> string option" where
  "bearer_token hs = map_option trim (Option.bind (header_str ''authorization'' hs) (strip_prefix ''Bearer ''))"

text \<open>\<open>stamp\<close> is the digest of the password file where it can be read; each lookup reads the clock.\<close>

definition authenticate ::
  "string option \<Rightarrow> nat \<Rightarrow> nat \<Rightarrow> headers \<Rightarrow> sessions \<Rightarrow> authenticated option \<times> sessions" where
  "authenticate stamp now1 now2 hs s =
     (case stamp of
        None \<Rightarrow> (None, s)
      | Some credential \<Rightarrow>
          (let by_cookie = (\<lambda>s.
                 case cookie_token hs of
                   None \<Rightarrow> (None, s)
                 | Some token \<Rightarrow>
                     (case get token credential now2 s of
                        (None, s) \<Rightarrow> (None, s)
                      | (Some e, s) \<Rightarrow> (Some \<lparr>au_token = token, au_session = e, au_bearer = False\<rparr>, s)))
           in (case bearer_token hs of
                 None \<Rightarrow> by_cookie s
               | Some token \<Rightarrow>
                   (case get token credential now1 s of
                      (Some e, s) \<Rightarrow> (Some \<lparr>au_token = token, au_session = e, au_bearer = True\<rparr>, s)
                    | (None, s) \<Rightarrow> by_cookie s))))"

section \<open>The guard\<close>

definition NET_PATHS :: "string list" where
  "NET_PATHS = [''/api/net-confirm'', ''/api/net-pending'', ''/api/net-revert'']"

definition exempt :: "http_request \<Rightarrow> bool" where
  "exempt r =
     ((rq_method r = MPost \<and> rq_path r \<in> set ([''/api/login'', ''/api/v1/session''] @ NET_PATHS)) \<or>
      (rq_method r = MGet \<and> rq_path r \<in> set [''/api/auth-status'', ''/api/v1/session'']) \<or>
      (rq_method r = MGet \<and> rq_path r = ''/api/health'' \<and>
       (case peer r of None \<Rightarrow> False | Some ip \<Rightarrow> ip_is_loopback ip)))"

text \<open>What a request carries on to its handler.\<close>

record passed =
  ps_request :: http_request
  ps_network_session :: "(ip_addr \<times> ip_addr) option"
  ps_auth :: "authenticated option"
  ps_ui_session :: "string option"

datatype guarded = Refused http_response | Passed passed

definition misdirected :: "headers \<Rightarrow> http_response" where
  "misdirected hs =
     \<lparr>rp_status = 421, rp_headers = [],
      rp_body = Some (obj [(''ok'', JBool False), (''error'', JString ''misdirected_host''),
        (''message'', JString (''This device is not reachable under '' @ display_host hs
           @ ''. Open it by its IP address and add the name under Settings ''
           @ map char_of [0xE2, 0x86, 0x92 :: nat] @ '' Security '' @ map char_of [0xE2, 0x86, 0x92 :: nat]
           @ '' Additional host names.''))])\<rparr>"

text \<open>\<open>aliases\<close>: the names of the accepted device intent, where the actor answers.\<close>

definition guard ::
  "(string \<Rightarrow> string option) \<Rightarrow> (string \<Rightarrow> url_parts option) \<Rightarrow> host_env \<Rightarrow> string list option \<Rightarrow> string option \<Rightarrow>
   nat \<Rightarrow> nat \<Rightarrow> http_request \<Rightarrow> sessions \<Rightarrow> guarded \<times> sessions" where
  "guard authority url he aliases stamp now1 now2 r s =
     (if protected (rq_path r) \<and> \<not> allowed authority he (rq_headers r) \<and>
         \<not> (case aliases of None \<Rightarrow> False | Some names \<Rightarrow> configured_allowed authority (rq_headers r) names)
      then (Refused (misdirected (rq_headers r)), s)
      else if \<not> origin_allowed url (rq_method r) (rq_headers r)
      then (Refused (denied ''Origin must match Host''), s)
      else
        (case authenticate stamp now1 now2 (rq_headers r) s of
           (auth, s) \<Rightarrow>
             if \<not> exempt r \<and> protected (rq_path r) \<and> auth = None
             then (Refused unauthorized, s)
             else if \<not> exempt r \<and> protected (rq_path r) \<and> \<not> token_allowed (rq_method r) (rq_headers r) (the auth)
             then (Refused (denied ''missing or wrong X-CSRF-Token''), s)
             else
               (let known = (auth \<noteq> None \<or> (rq_method r = MPost \<and> rq_path r \<in> set NET_PATHS))
                in (Passed
                      \<lparr>ps_request = (case (known, rq_socket r) of
                         (True, Some info) \<Rightarrow> r\<lparr>rq_addr := Some (si_peer info)\<rparr>
                       | _ \<Rightarrow> r),
                       ps_network_session = (case (known, rq_socket r) of
                         (True, Some info) \<Rightarrow> network_session info
                       | _ \<Rightarrow> None),
                       ps_auth = auth,
                       ps_ui_session = map_option (\<lambda>a. ss_id (au_session a)) auth\<rparr>, s))))"

section \<open>Spellings of a path\<close>

text \<open>
  One character of a path as a request may write it: itself in either case, or percent-encoded. A path
  is respelled by respelling its characters and by repeating any of its slashes.
\<close>

definition spells :: "char \<Rightarrow> string \<Rightarrow> bool" where
  "spells c w =
     (\<exists>d. to_ascii_lower_char d = to_ascii_lower_char c \<and>
          ((w = [d] \<and> d \<noteq> CHR ''%'') \<or>
           (\<exists>h l a b. w = [CHR ''%'', h, l] \<and> hex_digit h = Some a \<and> hex_digit l = Some b \<and> d = char_of (a * 16 + b))))"

inductive respell :: "string \<Rightarrow> string \<Rightarrow> bool" where
  respell_Nil: "respell [] []"
| respell_char: "respell p q \<Longrightarrow> spells c w \<Longrightarrow> respell (c # p) (w @ q)"
| respell_slash: "respell (CHR ''/'' # p) q \<Longrightarrow> spells (CHR ''/'') w \<Longrightarrow> respell (CHR ''/'' # p) (w @ q)"

text \<open>The loop of \<open>collapse_slashes\<close> with the last character it wrote as a flag.\<close>

fun squash :: "bool \<Rightarrow> string \<Rightarrow> string" where
  "squash b [] = []"
| "squash b (c # s) = (if c = CHR ''/'' \<and> b then squash True s else c # squash (c = CHR ''/'') s)"

lemma collapse_squash: "collapse_slashes s = squash False s"
proof -
  have "foldl (\<lambda>out c. if c = CHR ''/'' \<and> ends_with ''/'' out then out else out @ [c]) out s
      = out @ squash (ends_with ''/'' out) s" for out
  proof (induction s arbitrary: out)
    case (Cons c s)
    have "ends_with ''/'' (out @ [c]) = (c = CHR ''/'')"
      by (auto simp: ends_with_iff)
    then show ?case
      using Cons by simp
  qed simp
  then show ?thesis
    by (simp add: collapse_slashes_def ends_with_iff)
qed

lemma byte_lower: "byte (to_ascii_lower_char c) = (if 65 \<le> byte c \<and> byte c \<le> 90 then byte c + 32 else byte c)"
  by (simp add: to_ascii_lower_char_def is_ascii_uppercase_def byte_def)

lemma byte_inj: "byte c = byte d \<longleftrightarrow> c = d"
  by (simp add: byte_def)

lemma lower_slash: "to_ascii_lower_char c = CHR ''/'' \<longleftrightarrow> c = CHR ''/''"
proof -
  have "byte (CHR ''/'') = 47"
    by (simp add: byte_def)
  then show ?thesis
    using byte_inj [of "to_ascii_lower_char c" "CHR ''/''"] byte_inj [of c "CHR ''/''"]
    by (simp add: byte_lower split: if_splits)
qed

lemma lower_squash: "to_ascii_lowercase (squash b s) = squash b (to_ascii_lowercase s)"
  by (induction b s rule: squash.induct) (auto simp: to_ascii_lowercase_def lower_slash)

lemma spells_decode:
  assumes "spells c w"
  shows "\<exists>d. percent_decode (w @ q) = d # percent_decode q \<and> to_ascii_lower_char d = to_ascii_lower_char c"
  using assms by (fastforce simp: spells_def)

text \<open>Decoding, collapsing and lowering undo a respelling.\<close>

lemma respell_normal:
  "respell p q \<Longrightarrow> to_ascii_lowercase (squash b (percent_decode q)) = to_ascii_lowercase (squash b p)"
proof (induction arbitrary: b rule: respell.induct)
  case respell_Nil
  then show ?case
    by simp
next
  case (respell_char p q c w)
  then obtain d where d: "percent_decode (w @ q) = d # percent_decode q" "to_ascii_lower_char d = to_ascii_lower_char c"
    using spells_decode [OF respell_char.hyps(2), of q] by auto
  moreover from d(2) have "d = CHR ''/'' \<longleftrightarrow> c = CHR ''/''"
    using lower_slash by metis
  ultimately show ?case
    using respell_char.IH [of True] respell_char.IH [of "c = CHR ''/''"] by (simp add: to_ascii_lowercase_def)
next
  case (respell_slash p q w)
  then obtain d where d: "percent_decode (w @ q) = d # percent_decode q"
      "to_ascii_lower_char d = to_ascii_lower_char (CHR ''/'')"
    using spells_decode by blast
  moreover have "d = CHR ''/''"
    using d(2) lower_slash by metis
  ultimately show ?case
    using respell_slash.IH [of True] by (simp add: to_ascii_lowercase_def)
qed

text \<open>Replacing bytes that are not UTF-8 leaves what stands before them alone.\<close>

lemma lossy_Cons: "byte d < 128 \<Longrightarrow> from_utf8_lossy (d # s) = d # from_utf8_lossy s"
  by (simp add: from_utf8_lossy_def byte_def)

lemma lossy_prefix:
  "to_ascii_lowercase (squash b s) = p @ r \<Longrightarrow> list_all (\<lambda>c. byte c < 128) p \<Longrightarrow>
   \<exists>r'. to_ascii_lowercase (squash b (from_utf8_lossy s)) = p @ r' \<and> (r = [] \<longrightarrow> r' = [])"
proof (induction b s arbitrary: p rule: squash.induct)
  case (1 b)
  then show ?case
    by (simp add: from_utf8_lossy_def to_ascii_lowercase_def)
next
  case (2 b c s)
  show ?case
  proof (cases "c = CHR ''/'' \<and> b")
    case True
    then show ?thesis
      using "2.IH"(1) [of p] "2.prems" by (simp add: lossy_Cons byte_def)
  next
    case plain: False
    show ?thesis
    proof (cases p)
      case Nil
      then have "r \<noteq> []"
        using "2.prems"(1) plain by (auto simp: to_ascii_lowercase_def)
      then show ?thesis
        using Nil by simp
    next
      case (Cons x p')
      have x: "to_ascii_lower_char c = x" "to_ascii_lowercase (squash (c = CHR ''/'') s) = p' @ r"
        using "2.prems" Cons plain by (auto simp: to_ascii_lowercase_def)
      then have "byte c < 128"
        using "2.prems"(2) Cons byte_lower [of c] by (auto split: if_splits)
      then show ?thesis
        using "2.IH"(2) [OF plain x(2)] x(1) plain "2.prems"(2) Cons by (auto simp: lossy_Cons to_ascii_lowercase_def)
    qed
  qed
qed

lemma prefix_normal:
  assumes "prefix \<in> set PREFIXES"
  shows "list_all (\<lambda>c. byte c < 128) prefix" "to_ascii_lowercase prefix = prefix" "squash False (prefix @ t) = prefix @ squash False t"
  using assms by (auto simp: PREFIXES_def to_ascii_lowercase_def to_ascii_lower_char_def is_ascii_uppercase_def byte_def)

lemma protected_normal:
  assumes "prefix \<in> set PREFIXES" "to_ascii_lowercase s = prefix \<or> to_ascii_lowercase s = prefix @ CHR ''/'' # t"
  shows "protected_form s"
proof -
  have "strip_prefix prefix (prefix @ t) = Some t" for t
    by (simp add: strip_prefix_Some)
  from this [of "[]"] this [of "CHR ''/'' # t"] show ?thesis
    using assms by (auto simp: protected_form_def Let_def list_ex_iff starts_with_iff intro!: bexI [of _ prefix])
qed

text \<open>
  C32: No spelling of a protected path gets around the guard: a path that is one of the protected prefixes
  or lies below one stays protected however its letters are cased, however its characters are
  percent-encoded and however often its slashes are repeated, encoded slashes included. What follows the
  prefix may be any bytes, also such that are not UTF-8 once decoded.
\<close>

theorem respelled_protected:
  assumes "prefix \<in> set PREFIXES" "rest = [] \<or> starts_with ''/'' rest" and "respell (prefix @ rest) q"
  shows "protected q"
proof -
  note normal = prefix_normal [OF assms(1)]
  have same: "to_ascii_lowercase (squash False (percent_decode q)) = prefix @ to_ascii_lowercase (squash False rest)"
    using respell_normal [OF assms(3), of False] normal by (simp add: to_ascii_lowercase_def)
  consider "rest = []" | t where "to_ascii_lowercase (squash False rest) = CHR ''/'' # t"
    using assms(2) by (auto simp: starts_with_iff to_ascii_lowercase_def lower_slash to_ascii_lower_char_def
        is_ascii_uppercase_def byte_def)
  then have "\<exists>t. to_ascii_lowercase (squash False (from_utf8_lossy (percent_decode q))) \<in> {prefix, prefix @ CHR ''/'' # t}"
  proof cases
    case 1
    then show ?thesis
      using lossy_prefix [of False "percent_decode q" prefix "[]"] same normal(1) by (auto simp: to_ascii_lowercase_def)
  next
    case 2
    then show ?thesis
      using lossy_prefix [of False "percent_decode q" "prefix @ ''/''" t] same normal(1) by (auto simp: byte_def)
  qed
  then have "protected_form (squash False (from_utf8_lossy (percent_decode q)))"
    using protected_normal [OF assms(1)] by auto
  then show ?thesis
    by (simp add: protected_def collapse_squash Let_def)
qed

theorem respelled_protected_witness: "protected ''/%2F%41pI//%FF''"
proof (rule respelled_protected [of "''/api''" "[CHR ''/'', CHR 0xFF]"])
  have one: "d \<noteq> CHR ''%'' \<Longrightarrow> to_ascii_lower_char d = to_ascii_lower_char c \<Longrightarrow> spells c [d]" for c d
    by (auto simp: spells_def)
  have hex: "spells c [CHR ''%'', h, l]"
    if "hex_digit h = Some a" "hex_digit l = Some b" "to_ascii_lower_char (char_of (a * 16 + b)) = to_ascii_lower_char c"
    for c h l a b
    using that unfolding spells_def by blast
  have "spells (CHR ''/'') ''/''" "spells (CHR ''p'') ''p''" "spells (CHR ''i'') ''I''"
    by (rule one, simp, simp add: to_ascii_lower_char_def is_ascii_uppercase_def byte_def char_of_eq_iff take_bit_eq_mod)+
  moreover have "spells (CHR ''/'') ''%2F''"
    by (rule hex [of _ 2 _ 15]) (simp_all add: hex_digit_def is_ascii_digit_def to_ascii_lower_char_def is_ascii_uppercase_def byte_def char_of_eq_iff take_bit_eq_mod)
  moreover have "spells (CHR ''a'') ''%41''"
    by (rule hex [of _ 4 _ 1]) (simp_all add: hex_digit_def is_ascii_digit_def to_ascii_lower_char_def is_ascii_uppercase_def byte_def char_of_eq_iff take_bit_eq_mod)
  moreover have "spells (CHR 0xFF) ''%FF''"
    by (rule hex [of _ 15 _ 15]) (simp_all add: hex_digit_def is_ascii_digit_def to_ascii_lower_char_def is_ascii_uppercase_def byte_def char_of_eq_iff take_bit_eq_mod)
  ultimately have "respell [CHR ''/'', CHR ''a'', CHR ''p'', CHR ''i'', CHR ''/'', CHR 0xFF] (''/'' @ ''%2F'' @ ''%41'' @ ''p'' @ ''I'' @ ''/'' @ ''/'' @ ''%FF'' @ [])"
    by (intro respell.intros)
  then show "respell (''/api'' @ [CHR ''/'', CHR 0xFF]) ''/%2F%41pI//%FF''"
    by simp
qed (simp_all add: PREFIXES_def starts_with_def)

section \<open>Who passes\<close>

lemma kept_alive_get:
  "kept_alive idle token cred tm (post @ [OpGet t c now1]) now2 \<Longrightarrow>
   kept_alive idle token cred tm post now1 \<or> kept_alive idle token cred tm post now2"
  by (induction idle token cred tm post now1 rule: kept_alive.induct) (auto split: if_splits)

text \<open>A lookup right after a failed lookup of another token, in the terms of the history before both.\<close>

lemma second_history:
  assumes "fst (get token cred now2 (snd (get t cred now1 (run_sessions it idle ops)))) = Some e"
  shows "\<exists>pre tm post. ops = pre @ OpCreate token (ss_id e) (ss_csrf e) cred tm # post
           \<and> (kept_alive idle token cred tm post now1 \<or> kept_alive idle token cred tm post now2)"
proof -
  have "fst (get token cred now2 (run_sessions it idle (ops @ [OpGet t cred now1]))) = Some e"
    using assms by simp
  from granted_by_history [OF this] obtain pre tm post where
    split: "ops @ [OpGet t cred now1] = pre @ OpCreate token (ss_id e) (ss_csrf e) cred tm # post"
    and alive: "kept_alive idle token cred tm post now2"
    by blast
  then obtain post' where "post = post' @ [OpGet t cred now1]" "ops = pre @ OpCreate token (ss_id e) (ss_csrf e) cred tm # post'"
    by (cases post rule: rev_cases) auto
  then show ?thesis
    using alive kept_alive_get by blast
qed

lemma authenticate_history:
  assumes "authenticate stamp now1 now2 hs (run_sessions it idle ops) = (Some auth, s')"
  shows "\<exists>cred pre tm post. stamp = Some cred
    \<and> (if au_bearer auth then bearer_token hs = Some (au_token auth) else cookie_token hs = Some (au_token auth))
    \<and> ops = pre @ OpCreate (au_token auth) (ss_id (au_session auth)) (ss_csrf (au_session auth)) cred tm # post
    \<and> (kept_alive idle (au_token auth) cred tm post now1 \<or> kept_alive idle (au_token auth) cred tm post now2)"
proof -
  obtain cred where cred: "stamp = Some cred"
    using assms by (cases stamp) (simp_all add: authenticate_def)
  consider (bearer) t where "bearer_token hs = Some t" "fst (get t cred now1 (run_sessions it idle ops)) = Some (au_session auth)"
      "au_token auth = t" "au_bearer auth"
    | (cookie) "bearer_token hs = None" "cookie_token hs = Some (au_token auth)" "\<not> au_bearer auth"
      "fst (get (au_token auth) cred now2 (run_sessions it idle ops)) = Some (au_session auth)"
    | (both) t where "cookie_token hs = Some (au_token auth)" "\<not> au_bearer auth"
      "fst (get (au_token auth) cred now2 (snd (get t cred now1 (run_sessions it idle ops)))) = Some (au_session auth)"
    using assms cred
    by (auto simp: authenticate_def Let_def split: option.splits prod.splits)
       (metis fst_conv snd_conv)+
  then show ?thesis
  proof cases
    case (bearer t)
    then show ?thesis
      using granted_by_history [OF bearer(2)] cred by auto
  next
    case cookie
    then show ?thesis
      using granted_by_history [OF cookie(4)] cred by auto
  next
    case (both t)
    then show ?thesis
      using second_history [OF both(3)] cred by auto
  qed
qed

text \<open>
  C11: A request on a protected path that is not exempt reaches its handler only with a session: one that a
  login created under the presented token with the present digest of the password file and that has been
  kept alive since. If it changes state it is a bearer request or repeats that login's CSRF token. Its
  host is one of the device's own or a configured name, and its origin matches the host.
\<close>

theorem guard_admits:
  assumes "guard authority url he aliases stamp now1 now2 r (run_sessions it idle ops) = (Passed ps, s')"
    and "protected (rq_path r)" "\<not> exempt r"
  shows "\<exists>auth cred pre tm post.
      ps_auth ps = Some auth \<and> stamp = Some cred
    \<and> (if au_bearer auth then bearer_token (rq_headers r) = Some (au_token auth)
       else cookie_token (rq_headers r) = Some (au_token auth)
            \<and> (mutates (rq_method r) \<longrightarrow> header_str ''x-csrf-token'' (rq_headers r) = Some (ss_csrf (au_session auth))))
    \<and> ops = pre @ OpCreate (au_token auth) (ss_id (au_session auth)) (ss_csrf (au_session auth)) cred tm # post
    \<and> (kept_alive idle (au_token auth) cred tm post now1 \<or> kept_alive idle (au_token auth) cred tm post now2)
    \<and> (allowed authority he (rq_headers r) \<or> (\<exists>names. aliases = Some names \<and> configured_allowed authority (rq_headers r) names))
    \<and> origin_allowed url (rq_method r) (rq_headers r)"
proof -
  obtain auth where auth: "authenticate stamp now1 now2 (rq_headers r) (run_sessions it idle ops) = (Some auth, s')"
      "token_allowed (rq_method r) (rq_headers r) auth" "ps_auth ps = Some auth"
    and host: "allowed authority he (rq_headers r) \<or> (\<exists>names. aliases = Some names \<and> configured_allowed authority (rq_headers r) names)"
    and origin: "origin_allowed url (rq_method r) (rq_headers r)"
    using assms by (auto simp: guard_def Let_def split: if_splits prod.splits option.splits)
  from authenticate_history [OF auth(1)] obtain cred pre tm post where
    "stamp = Some cred"
    "if au_bearer auth then bearer_token (rq_headers r) = Some (au_token auth) else cookie_token (rq_headers r) = Some (au_token auth)"
    "ops = pre @ OpCreate (au_token auth) (ss_id (au_session auth)) (ss_csrf (au_session auth)) cred tm # post"
    "kept_alive idle (au_token auth) cred tm post now1 \<or> kept_alive idle (au_token auth) cred tm post now2"
    by blast
  moreover have "\<not> au_bearer auth \<Longrightarrow> mutates (rq_method r) \<Longrightarrow>
      header_str ''x-csrf-token'' (rq_headers r) = Some (ss_csrf (au_session auth))"
    using auth(2) by (auto simp: token_allowed_def split: option.splits)
  ultimately show ?thesis
    using auth(3) host origin by (metis (no_types, lifting))
qed

definition sample_host :: host_env where
  "sample_host = \<lparr>he_hostname = None, he_addresses = [], he_resolv = None, he_canonical = None, he_upstream = None\<rparr>"

definition sample_request :: http_request where
  "sample_request =
     \<lparr>rq_method = MPost, rq_path = ''/api/x'',
      rq_headers = [(''host'', ''localhost''), (''cookie'', ''ndimon_session=t''), (''x-csrf-token'', ''c'')],
      rq_socket = None, rq_addr = None\<rparr>"

lemma sample_cookie: "cookie_token (rq_headers sample_request) = Some ''t''"
  by (simp add: sample_request_def cookie_token_def get_all_def to_str_def byte_def List.map_filter_def COOKIE_def
      split_once_def text_eval trim_def utf8_encode_def char_of_eq_iff take_bit_eq_mod)

lemma sample_guard:
  "guard Some (\<lambda>_. None) sample_host None (Some ''k'') 9 9 sample_request
     (run_sessions id 10 [OpCreate ''t'' ''i'' ''c'' ''k'' 5])
   = (Passed \<lparr>ps_request = sample_request, ps_network_session = None,
        ps_auth = Some \<lparr>au_token = ''t'', au_session = \<lparr>ss_id = ''i'', ss_csrf = ''c'', ss_credential = ''k'', ss_last_used = 9\<rparr>,
                        au_bearer = False\<rparr>,
        ps_ui_session = Some ''i''\<rparr>,
      \<lparr>sn_entries = [(''t'', \<lparr>ss_id = ''i'', ss_csrf = ''c'', ss_credential = ''k'', ss_last_used = 9\<rparr>)], sn_idle = 10\<rparr>)"
proof -
  have "read_groups 0 (Suc 7) ''localhost'' = ([], False, ''localhost'')"
    unfolding read_groups.simps
    by (simp add: read_sep_def read_ipv4_def read_octet_def read_hex4_def hex_digit_def dec_digit_def is_ascii_digit_def byte_def)
  then have "read_groups 0 8 ''localhost'' = ([], False, ''localhost'')"
    by (metis eval_nat_numeral(2) semiring_norm(26,27))
  then have "read_ipv6 ''localhost'' = None"
    by (simp add: read_ipv6_def)
  moreover have "parse_octet ''localhost'' = None"
    by (simp add: parse_octet_def is_ascii_digit_def byte_def)
  ultimately have "parse_ip ''localhost'' = None"
    by (simp add: parse_ip_def parse_ipv4_def)
  moreover have "request_host Some (rq_headers sample_request) = Some ''localhost''"
    by (simp add: request_host_def sample_request_def get_all_def to_str_def byte_def Let_def)
  ultimately have host: "allowed Some sample_host (rq_headers sample_request)"
    by (simp add: allowed_def matches_device_def literal_of_def strip_prefix_def starts_with_def strip_final_def strip_suffix_def
        ends_with_def eq_ignore_ascii_case_def Let_def)
  have path: "protected (rq_path sample_request)"
    by (simp add: sample_request_def protected_def collapse_squash protected_form_def PREFIXES_def Let_def to_ascii_lowercase_def
        to_ascii_lower_char_def text_eval)
  have bearer: "bearer_token (rq_headers sample_request) = None"
    by (simp add: bearer_token_def header_str_def header_def get_all_def sample_request_def)
  have auth: "authenticate (Some ''k'') 9 9 (rq_headers sample_request) (run_sessions id 10 [OpCreate ''t'' ''i'' ''c'' ''k'' 5]) =
      (Some \<lparr>au_token = ''t'', au_session = \<lparr>ss_id = ''i'', ss_csrf = ''c'', ss_credential = ''k'', ss_last_used = 9\<rparr>,
             au_bearer = False\<rparr>,
       \<lparr>sn_entries = [(''t'', \<lparr>ss_id = ''i'', ss_csrf = ''c'', ss_credential = ''k'', ss_last_used = 9\<rparr>)], sn_idle = 10\<rparr>)"
    by (simp add: authenticate_def bearer sample_cookie run_sessions_def sessions_new_def create_def get_def hm_insert_def
        bt_remove_def SESSION_MAX_def Let_def)
  have origin: "origin_allowed (\<lambda>_. None) MPost (rq_headers sample_request)"
    by (simp add: origin_allowed_def header_def get_all_def sample_request_def)
  have csrf: "header_str ''x-csrf-token'' (rq_headers sample_request) = Some ''c''"
    by (simp add: header_str_def header_def get_all_def sample_request_def to_str_def byte_def)
  have rest: "rq_method sample_request = MPost" "rq_socket sample_request = None" "\<not> exempt sample_request"
    by (simp_all add: sample_request_def exempt_def NET_PATHS_def)
  show ?thesis
    using rest by (simp add: guard_def host path origin auth token_allowed_def csrf)
qed

lemma sample_protected: "protected (rq_path sample_request)" "\<not> exempt sample_request"
  by (simp_all add: sample_request_def protected_def collapse_squash protected_form_def PREFIXES_def Let_def
      to_ascii_lowercase_def to_ascii_lower_char_def text_eval exempt_def NET_PATHS_def)

theorem guard_admits_witness:
  "cookie_token (rq_headers sample_request) = Some ''t''
   \<and> header_str ''x-csrf-token'' (rq_headers sample_request) = Some ''c''
   \<and> (\<exists>pre tm post. [OpCreate ''t'' ''i'' ''c'' ''k'' 5] = pre @ OpCreate ''t'' ''i'' ''c'' ''k'' tm # post
        \<and> kept_alive 10 ''t'' ''k'' tm post 9)"
proof -
  have "mutates (rq_method sample_request)"
    by (simp add: sample_request_def mutates_def)
  then show ?thesis
    using guard_admits [OF sample_guard sample_protected] by auto
qed

end
