(* ===== verification/Control_Auth.thy ===== *)
theory Control_Auth
  imports Control_Limiter Control_Guard
begin

text \<open>
  The password file and the session handlers of \<open>ndimon-control\<close> (\<open>auth.rs\<close>, \<open>legacy_auth.rs\<close>).

  The file can be replaced by a backup restore at any moment, so every read of it is an argument of its
  own: what \<open>check\<close> read, what each later comparison read, and what the writer answered. The
  cryptographic functions, the JSON reader and printer and the deserialisers that serde derives are the
  fields of the parameter \<open>crypt\<close>. A path is its list of components. The handlers run on the session
  table and the limiter; instants and random draws are arguments.
\<close>

section \<open>The password file\<close>

record crypt =
  cr_sha256 :: "string \<Rightarrow> string"
  cr_hex_decode :: "string \<Rightarrow> string option"
  cr_hex_encode :: "string \<Rightarrow> string"
  cr_scrypt :: "string \<Rightarrow> string \<Rightarrow> string option"
  cr_argon2_hash :: "string \<Rightarrow> string \<Rightarrow> string option"
  cr_argon2_verify :: "string \<Rightarrow> string \<Rightarrow> bool option"
  cr_from_slice :: "string \<Rightarrow> json option"
  cr_to_vec :: "json \<Rightarrow> string option"

datatype file_read = Missing | Contents string | Unreadable

definition file_bytes :: "file_read \<Rightarrow> (string, string) result" where
  "file_bytes f =
     (case f of
        Contents b \<Rightarrow> if length b \<le> 16 * 1024 then Inr b else Inl ''auth file too large''
      | Missing \<Rightarrow> Inr []
      | Unreadable \<Rightarrow> Inl ''cannot read auth file'')"

definition stamp :: "crypt \<Rightarrow> file_read \<Rightarrow> (string, string) result" where
  "stamp c f = bind_r (file_bytes f) (\<lambda>b. Inr (cr_sha256 c b))"

definition is_default :: "file_read \<Rightarrow> bool" where
  "is_default f = (case file_bytes f of Inr b \<Rightarrow> b = [] | Inl _ \<Rightarrow> False)"

definition scrypt_hash :: "crypt \<Rightarrow> string \<Rightarrow> string \<Rightarrow> (string, string) result" where
  "scrypt_hash c password salt =
     bind_r (ok_or (cr_hex_decode c salt) ''invalid scrypt salt'') (\<lambda>raw.
     bind_r (ok_or (cr_scrypt c password raw) ''scrypt failed'') (\<lambda>out.
       Inr (cr_hex_encode c out)))"

definition argon_hash :: "crypt \<Rightarrow> string \<Rightarrow> string \<Rightarrow> (string, string) result" where
  "argon_hash c password salt = ok_or (cr_argon2_hash c password salt) ''password hashing failed''"

definition bounded_param :: "string \<Rightarrow> string \<times> nat \<Rightarrow> bool" where
  "bounded_param v b =
     (case b of (prefix, bound) \<Rightarrow>
        (case Option.bind (strip_prefix prefix v) (parse_uint 32) of
           None \<Rightarrow> False
         | Some n \<Rightarrow> 0 < n \<and> n \<le> bound))"

definition bounded_phc :: "string \<Rightarrow> bool" where
  "bounded_phc phc =
     (if 512 < length phc then False
      else (let fields = split_on (CHR ''$'') phc
            in if length fields \<noteq> 6 \<or> fields ! 1 \<noteq> ''argon2id'' \<or> fields ! 2 \<noteq> ''v=19'' then False
               else (let params = split_on (CHR '','') (fields ! 3)
                     in length params = 3 \<and>
                        list_all (\<lambda>(v, b). bounded_param v b)
                          (zip params [(''m='', 65536), (''t='', 10), (''p='', 8)]))))"

definition stored_text :: "json \<Rightarrow> string \<Rightarrow> string option" where
  "stored_text v k = Option.bind (json_get v k) json_text"

definition password_check ::
  "crypt \<Rightarrow> file_read \<Rightarrow> string \<Rightarrow> string \<Rightarrow> (bool \<times> json option \<times> string, string) result" where
  "password_check c f password salt2 =
     bind_r (file_bytes f) (\<lambda>b.
     (let st = cr_sha256 c b
      in if b = [] then Inr (cr_sha256 c password = cr_sha256 c ''ndimon'', None, st)
         else
           bind_r (ok_or (cr_from_slice c b) ''invalid auth file'') (\<lambda>stored.
           bind_r (ok_or (stored_text stored ''salt'') ''missing salt'') (\<lambda>salt.
           bind_r (ok_or (stored_text stored ''hash'') ''missing hash'') (\<lambda>hash.
           (let algo = (case stored_text stored ''algo'' of Some a \<Rightarrow> a | None \<Rightarrow> ''scrypt'')
            in if algo = ''argon2id'' then
                 bind_r (ok_or (stored_text stored ''phc'') ''missing PHC hash'') (\<lambda>phc.
                 if \<not> bounded_phc phc then Inl ''invalid Argon2id hash''
                 else bind_r (ok_or (cr_argon2_verify c password phc) ''invalid PHC hash'') (\<lambda>good.
                        Inr (good, None, st)))
               else if algo = ''scrypt'' then
                 (if length salt \<noteq> 32 \<or> length hash \<noteq> 64 then Inl ''invalid scrypt record''
                  else bind_r (scrypt_hash c password salt) (\<lambda>candidate.
                         if candidate \<noteq> hash then Inr (False, None, st)
                         else bind_r (argon_hash c password salt2) (\<lambda>phc.
                                Inr (True, Some (json_set ''phc'' (JString phc)
                                                  (json_set ''algo'' (JString ''argon2id'') stored)), st))))
               else Inl ''unsupported password algorithm''))))))"

text \<open>What the writer answers: the privileged daemon's reply, or the local replacement of the file.\<close>

datatype write_answer = Written | TimedOut | RefusedRecord | WriterFailed

definition AUTH_PATH :: "string list" where
  "AUTH_PATH = [''/'', ''etc'', ''ndimon-auth.json'']"

definition auth_write :: "crypt \<Rightarrow> string list \<Rightarrow> json \<Rightarrow> write_answer \<Rightarrow> (unit, string) result" where
  "auth_write c path record answer =
     bind_r (ok_or (cr_to_vec c record) ''cannot serialize auth record'') (\<lambda>_.
       if path = AUTH_PATH
       then (case answer of
               Written \<Rightarrow> Inr ()
             | TimedOut \<Rightarrow> Inl ''auth writer timed out''
             | _ \<Rightarrow> Inl ''auth writer refused the record'')
       else if path \<noteq> [] \<and> butlast path = [''/'', ''etc''] then Inl ''only /etc/ndimon-auth.json is writable''
       else (case answer of Written \<Rightarrow> Inr () | _ \<Rightarrow> Inl ''auth writer failed''))"

definition verify_and_upgrade ::
  "crypt \<Rightarrow> string list \<Rightarrow> string \<Rightarrow> string \<Rightarrow> file_read \<Rightarrow> file_read \<Rightarrow> write_answer \<Rightarrow> file_read \<Rightarrow>
   (string option, string) result" where
  "verify_and_upgrade c path password salt2 f1 f2 answer f3 =
     bind_r (password_check c f1 password salt2) (\<lambda>(good, upgrade, st).
     if \<not> good then Inr None
     else
       bind_r (stamp c f2) (\<lambda>st2.
       if st2 \<noteq> st then Inl ''auth record changed during login''
       else
         bind_r (case upgrade of
                   None \<Rightarrow> Inr st
                 | Some record \<Rightarrow>
                     bind_r (ok_or (cr_to_vec c record) ''invalid auth record'') (\<lambda>b.
                     bind_r (auth_write c path record answer) (\<lambda>_. Inr (cr_sha256 c b)))) (\<lambda>st.
         bind_r (stamp c f3) (\<lambda>st3.
         if st3 \<noteq> st then Inl ''auth record changed during login'' else Inr (Some st)))))"

definition new_record :: "crypt \<Rightarrow> string \<Rightarrow> string \<Rightarrow> string \<Rightarrow> (json, string) result" where
  "new_record c password salt salt2 =
     bind_r (argon_hash c password salt2) (\<lambda>phc.
     bind_r (scrypt_hash c password salt) (\<lambda>hash.
       Inr (obj [(''algo'', JString ''argon2id''), (''phc'', JString phc), (''hash'', JString hash),
                 (''salt'', JString salt)])))"

definition password_set ::
  "crypt \<Rightarrow> string list \<Rightarrow> string \<Rightarrow> string \<Rightarrow> string \<Rightarrow> write_answer \<Rightarrow> file_read \<Rightarrow> (string, string) result" where
  "password_set c path password salt salt2 answer f =
     bind_r (new_record c password salt salt2) (\<lambda>record.
     bind_r (ok_or (cr_to_vec c record) ''invalid auth record'') (\<lambda>b.
     bind_r (auth_write c path record answer) (\<lambda>_.
     bind_r (stamp c f) (\<lambda>st.
       if st \<noteq> cr_sha256 c b then Inl ''auth record changed during password update'' else Inr (cr_sha256 c b)))))"

section \<open>Handlers\<close>

record front_door =
  fd_sessions :: sessions
  fd_limiter :: limiter
  fd_cookie_secure :: bool

datatype body_read = BodyTimedOut | BodyTooLarge | BodyBytes string

definition body :: "(string \<Rightarrow> 'a option) \<Rightarrow> body_read \<Rightarrow> ('a, string) result" where
  "body de b =
     (case b of
        BodyTimedOut \<Rightarrow> Inl ''request body timed out''
      | BodyTooLarge \<Rightarrow> Inl ''body exceeds 16 KiB''
      | BodyBytes bytes \<Rightarrow> ok_or (de bytes) ''expected a JSON object'')"

definition source_limited :: "ip_addr \<Rightarrow> nat \<Rightarrow> front_door \<Rightarrow> http_response option \<times> front_door" where
  "source_limited address now fd =
     (case retry_after address now (fd_limiter fd) of
        (retry, l) \<Rightarrow>
          (map_option (\<lambda>d.
             (error_reply 429 (JString ''rate_limited'') ''too many attempts, retry shortly'')
               \<lparr>rp_headers := [(''retry-after'', dec (min (d div 1000000000 + 1) (2 ^ 64 - 1)))]\<rparr>) retry,
           fd\<lparr>fd_limiter := l\<rparr>))"

definition reply :: "nat \<Rightarrow> string \<Rightarrow> json option \<Rightarrow> http_response" where
  "reply status set_cookie b = \<lparr>rp_status = status, rp_headers = [(''set-cookie'', set_cookie)], rp_body = b\<rparr>"

definition client_address :: "http_request \<Rightarrow> ip_addr" where
  "client_address r = (case peer r of Some ip \<Rightarrow> ip | None \<Rightarrow> V4 0)"

text \<open>The answers one handler gets: instants of its clock reads, the reads and the write of the password
  file, the random draws.\<close>

record attempt =
  at_limit1 :: nat
  at_delay :: nat
  at_limit2 :: nat
  at_failed :: nat
  at_create :: nat
  at_f1 :: file_read
  at_f2 :: file_read
  at_upgrade :: write_answer
  at_f3 :: file_read
  at_write :: write_answer
  at_f4 :: file_read
  at_salt :: string
  at_salt2 :: string
  at_salt3 :: string
  at_token :: string
  at_id :: string
  at_csrf :: string

record orders =
  or_sessions :: "(string \<times> session) list \<Rightarrow> (string \<times> session) list"
  or_sources :: "(ip_addr \<times> nat list) list \<Rightarrow> (ip_addr \<times> nat list) list"

text \<open>The steps that \<open>log_in\<close> and \<open>change_password\<close> share: the limit, the delay, the limit again
  behind the gate.\<close>

definition admission :: "ip_addr \<Rightarrow> attempt \<Rightarrow> front_door \<Rightarrow> http_response option \<times> front_door" where
  "admission address a fd =
     (case source_limited address (at_limit1 a) fd of
        (Some r, fd) \<Rightarrow> (Some r, fd)
      | (None, fd) \<Rightarrow>
          source_limited address (at_limit2 a)
            (fd\<lparr>fd_limiter := snd (soft_delay (at_delay a) (fd_limiter fd))\<rparr>))"

definition fail :: "orders \<Rightarrow> ip_addr \<Rightarrow> nat \<Rightarrow> front_door \<Rightarrow> front_door" where
  "fail ord address now fd = fd\<lparr>fd_limiter := failed (or_sources ord) address now (fd_limiter fd)\<rparr>"

definition open_session :: "orders \<Rightarrow> attempt \<Rightarrow> ip_addr \<Rightarrow> string \<Rightarrow> front_door \<Rightarrow> front_door" where
  "open_session ord a address st fd =
     fd\<lparr>fd_limiter := succeeded address (fd_limiter fd),
        fd_sessions := snd (create (or_sessions ord) (at_token a) (at_id a) (at_csrf a) st (at_create a) (fd_sessions fd))\<rparr>"

definition log_in ::
  "crypt \<Rightarrow> string list \<Rightarrow> orders \<Rightarrow> (string \<Rightarrow> string option) \<Rightarrow> bool \<Rightarrow> http_request \<Rightarrow> body_read \<Rightarrow> attempt \<Rightarrow>
   front_door \<Rightarrow> http_response \<times> front_door" where
  "log_in c path ord de legacy r b a fd =
     (let address = client_address r
      in (case body de b of
            Inl reason \<Rightarrow> (invalid_reply ''body'' reason, fd)
          | Inr password \<Rightarrow>
              (case admission address a fd of
                 (Some limited, fd) \<Rightarrow> (limited, fd)
               | (None, fd) \<Rightarrow>
                   (case verify_and_upgrade c path password (at_salt2 a) (at_f1 a) (at_f2 a) (at_upgrade a) (at_f3 a) of
                      Inr (Some st) \<Rightarrow>
                        (reply 200 (cookie (at_token a) (fd_cookie_secure fd))
                           (Some (if legacy
                                  then obj [(''ok'', JBool True), (''token'', JString (at_token a)),
                                            (''default_password'', JBool (is_default (at_f4 a))),
                                            (''csrf'', JString (at_csrf a))]
                                  else obj [(''csrf'', JString (at_csrf a))])),
                         open_session ord a address st fd)
                    | Inr None \<Rightarrow> (unauthorized, fail ord address (at_failed a) fd)
                    | Inl _ \<Rightarrow> (internal, fd)))))"

definition log_out ::
  "string option \<Rightarrow> nat \<Rightarrow> nat \<Rightarrow> headers \<Rightarrow> bool \<Rightarrow> front_door \<Rightarrow> http_response \<times> front_door" where
  "log_out st now1 now2 hs legacy fd =
     (case authenticate st now1 now2 hs (fd_sessions fd) of
        (auth, s) \<Rightarrow>
          (if legacy then reply 200 (clear_cookie (fd_cookie_secure fd)) (Some (obj [(''ok'', JBool True)]))
           else reply 204 (clear_cookie (fd_cookie_secure fd)) None,
           fd\<lparr>fd_sessions := (case auth of None \<Rightarrow> s | Some a \<Rightarrow> remove (au_token a) s)\<rparr>))"

definition json_reply :: "json \<Rightarrow> http_response" where
  "json_reply v = \<lparr>rp_status = 200, rp_headers = [], rp_body = Some v\<rparr>"

definition auth_status ::
  "string option \<Rightarrow> file_read \<Rightarrow> nat \<Rightarrow> nat \<Rightarrow> headers \<Rightarrow> front_door \<Rightarrow> http_response \<times> front_door" where
  "auth_status st f now1 now2 hs fd =
     (case authenticate st now1 now2 hs (fd_sessions fd) of
        (auth, s) \<Rightarrow>
          (json_reply (obj ([(''auth_required'', JBool True), (''logged_in'', JBool (auth \<noteq> None)),
                             (''default_password'', JBool (is_default f))]
                            @ (case auth of None \<Rightarrow> [] | Some a \<Rightarrow> [(''csrf'', JString (ss_csrf (au_session a)))]))),
           fd\<lparr>fd_sessions := s\<rparr>))"

definition session_v1 ::
  "string option \<Rightarrow> file_read \<Rightarrow> nat \<Rightarrow> nat \<Rightarrow> headers \<Rightarrow> front_door \<Rightarrow> http_response \<times> front_door" where
  "session_v1 st f now1 now2 hs fd =
     (case authenticate st now1 now2 hs (fd_sessions fd) of
        (None, s) \<Rightarrow> (json_reply (obj [(''logged_in'', JBool False)]), fd\<lparr>fd_sessions := s\<rparr>)
      | (Some a, s) \<Rightarrow>
          (json_reply (obj [(''logged_in'', JBool True), (''csrf'', JString (ss_csrf (au_session a))),
                            (''default_password'', JBool (is_default f))]),
           fd\<lparr>fd_sessions := s\<rparr>))"

definition change_password ::
  "crypt \<Rightarrow> string list \<Rightarrow> orders \<Rightarrow> (string \<Rightarrow> (string \<times> string) option) \<Rightarrow> bool \<Rightarrow> http_request \<Rightarrow> body_read \<Rightarrow>
   attempt \<Rightarrow> front_door \<Rightarrow> http_response \<times> front_door" where
  "change_password c path ord de legacy r b a fd =
     (let address = client_address r; field = (if legacy then ''password'' else ''new_password'')
      in (case body de b of
            Inl reason \<Rightarrow> (invalid_reply ''body'' reason, fd)
          | Inr (current, new) \<Rightarrow>
              (case admission address a fd of
                 (Some limited, fd) \<Rightarrow> (limited, fd)
               | (None, fd) \<Rightarrow>
                   (case verify_and_upgrade c path current (at_salt2 a) (at_f1 a) (at_f2 a) (at_upgrade a) (at_f3 a) of
                      Inl _ \<Rightarrow> (internal, fd)
                    | Inr None \<Rightarrow> (denied ''current password is wrong'', fail ord address (at_failed a) fd)
                    | Inr (Some _) \<Rightarrow>
                        if utf16_len new < 6
                        then (invalid_reply field ''new password must be at least 6 characters'', fd)
                        else
                          (case password_set c path new (at_salt a) (at_salt3 a) (at_write a) (at_f4 a) of
                             Inl _ \<Rightarrow> (internal, fd)
                           | Inr st \<Rightarrow>
                               (reply 200 (cookie (at_token a) (fd_cookie_secure fd))
                                  (Some (obj ((if legacy then [(''ok'', JBool True)] else [])
                                              @ [(''csrf'', JString (at_csrf a))]))),
                                open_session ord a address st (fd\<lparr>fd_sessions := clear (fd_sessions fd)\<rparr>)))))))"

section \<open>What a login proves\<close>

lemma verify_Some:
  "verify_and_upgrade c path password salt2 f1 f2 answer f3 = Inr (Some st) \<Longrightarrow>
   \<exists>upgrade st0. password_check c f1 password salt2 = Inr (True, upgrade, st0) \<and> stamp c f2 = Inr st0
     \<and> stamp c f3 = Inr st \<and> (upgrade = None \<longrightarrow> st = st0)"
  by (auto simp: verify_and_upgrade_def bind_r_eq_Inr split: if_splits option.splits)

lemma password_set_Inr:
  "password_set c path password salt salt2 answer f = Inr st \<Longrightarrow>
   stamp c f = Inr st \<and>
   (\<exists>record b. new_record c password salt salt2 = Inr record \<and> cr_to_vec c record = Some b \<and> st = cr_sha256 c b)"
  by (auto simp: password_set_def bind_r_eq_Inr ok_or_def split: if_splits option.splits)

lemma refusals_not_200 [simp]:
  "rp_status (invalid_reply f m) \<noteq> 200" "rp_status unauthorized \<noteq> 200" "rp_status internal \<noteq> 200"
  "rp_status (denied m) \<noteq> 200"
  by (simp_all add: invalid_reply_def unauthorized_def internal_def denied_def error_reply_def)

lemma limited_status: "source_limited address now fd = (Some r, fd') \<Longrightarrow> rp_status r = 429"
  by (auto simp: source_limited_def error_reply_def split: prod.splits)

lemma limited_sessions: "fd_sessions (snd (source_limited address now fd)) = fd_sessions fd"
  by (simp add: source_limited_def split: prod.split)

lemma admission_status: "admission address a fd = (Some r, fd') \<Longrightarrow> rp_status r = 429"
  by (auto simp: admission_def dest: limited_status split: prod.splits option.splits)

lemma admission_sessions: "admission address a fd = (x, fd') \<Longrightarrow> fd_sessions fd' = fd_sessions fd"
  using limited_sessions [of address "at_limit1 a" fd]
  by (auto simp: admission_def split: prod.splits option.splits) (metis front_door.select_convs(1)
      front_door.ext_inject front_door.surjective front_door.update_convs(2) limited_sessions snd_conv)

lemma log_in_200:
  assumes "log_in c path ord de legacy r b a fd = (resp, fd')" "rp_status resp = 200"
  shows "\<exists>password st. body de b = Inr password
      \<and> verify_and_upgrade c path password (at_salt2 a) (at_f1 a) (at_f2 a) (at_upgrade a) (at_f3 a) = Inr (Some st)
      \<and> fd_sessions fd' = snd (create (or_sessions ord) (at_token a) (at_id a) (at_csrf a) st (at_create a) (fd_sessions fd))"
proof -
  obtain x fd1 where adm: "admission (client_address r) a fd = (x, fd1)"
    by fastforce
  have same: "fd_sessions fd1 = fd_sessions fd"
    by (rule admission_sessions [OF adm])
  have "x = None"
  proof (cases x)
    case (Some y)
    then show ?thesis
      using assms admission_status adm by (auto simp: log_in_def Let_def split: sum.splits)
  qed
  then show ?thesis
    using assms same by (auto simp: log_in_def Let_def adm open_session_def split: sum.splits option.splits)
qed

lemma log_in_other:
  assumes "log_in c path ord de legacy r b a fd = (resp, fd')" "rp_status resp \<noteq> 200"
  shows "fd_sessions fd' = fd_sessions fd"
proof -
  obtain x fd1 where adm: "admission (client_address r) a fd = (x, fd1)"
    by fastforce
  have same: "fd_sessions fd1 = fd_sessions fd"
    by (rule admission_sessions [OF adm])
  then show ?thesis
    using assms
    by (auto simp: log_in_def Let_def adm fail_def reply_def split: sum.splits option.splits)
qed

lemma change_password_200:
  assumes "change_password c path ord de legacy r b a fd = (resp, fd')" "rp_status resp = 200"
  shows "\<exists>current new st0 st. body de b = Inr (current, new) \<and> 6 \<le> utf16_len new
      \<and> verify_and_upgrade c path current (at_salt2 a) (at_f1 a) (at_f2 a) (at_upgrade a) (at_f3 a) = Inr (Some st0)
      \<and> password_set c path new (at_salt a) (at_salt3 a) (at_write a) (at_f4 a) = Inr st
      \<and> fd_sessions fd' = snd (create (or_sessions ord) (at_token a) (at_id a) (at_csrf a) st (at_create a) (clear (fd_sessions fd)))"
proof -
  obtain x fd1 where adm: "admission (client_address r) a fd = (x, fd1)"
    by fastforce
  have same: "fd_sessions fd1 = fd_sessions fd"
    by (rule admission_sessions [OF adm])
  have "x = None"
  proof (cases x)
    case (Some y)
    then show ?thesis
      using assms admission_status adm by (auto simp: change_password_def Let_def split: sum.splits)
  qed
  then show ?thesis
    using assms same by (auto simp: change_password_def Let_def adm open_session_def split: sum.splits option.splits if_splits)
qed

lemma change_password_other:
  assumes "change_password c path ord de legacy r b a fd = (resp, fd')" "rp_status resp \<noteq> 200"
  shows "fd_sessions fd' = fd_sessions fd"
proof -
  obtain x fd1 where adm: "admission (client_address r) a fd = (x, fd1)"
    by fastforce
  have same: "fd_sessions fd1 = fd_sessions fd"
    by (rule admission_sessions [OF adm])
  then show ?thesis
    using assms
    by (auto simp: change_password_def Let_def adm fail_def reply_def split: sum.splits option.splits if_splits)
qed

lemma create_empty:
  "sn_entries s = [] \<Longrightarrow>
   sn_entries (snd (create it token i x st tm s)) = [(token, \<lparr>ss_id = i, ss_csrf = x, ss_credential = st, ss_last_used = tm\<rparr>)]"
  by (simp add: create_def Let_def SESSION_MAX_def hm_insert_def bt_remove_def)

text \<open>
  C14: A successful change of the password ends every other session. It needs the current password, checked
  against the file, and a new one of six characters; afterwards no token but the new one is known, whatever
  credential is presented with it, and the new one is bound to the digest of the file as it was read back.
  Any other outcome leaves the sessions as they were.
\<close>

theorem password_change_ends_sessions:
  assumes "change_password c path ord de legacy r b a fd = (resp, fd')"
  shows "if rp_status resp = 200
    then (\<exists>current new upgrade st0 st. body de b = Inr (current, new) \<and> 6 \<le> utf16_len new
           \<and> password_check c (at_f1 a) current (at_salt2 a) = Inr (True, upgrade, st0)
           \<and> stamp c (at_f4 a) = Inr st
           \<and> (\<forall>token cred now. fst (get token cred now (fd_sessions fd')) =
                (if token = at_token a \<and> cred = st \<and> now - at_create a < sn_idle (fd_sessions fd)
                 then Some \<lparr>ss_id = at_id a, ss_csrf = at_csrf a, ss_credential = st, ss_last_used = now\<rparr>
                 else None)))
    else fd_sessions fd' = fd_sessions fd"
proof (cases "rp_status resp = 200")
  case True
  from change_password_200 [OF assms True] obtain current new st0 st where
    new: "body de b = Inr (current, new)" "6 \<le> utf16_len new"
      "verify_and_upgrade c path current (at_salt2 a) (at_f1 a) (at_f2 a) (at_upgrade a) (at_f3 a) = Inr (Some st0)"
      "password_set c path new (at_salt a) (at_salt3 a) (at_write a) (at_f4 a) = Inr st"
    and table: "fd_sessions fd' = snd (create (or_sessions ord) (at_token a) (at_id a) (at_csrf a) st (at_create a) (clear (fd_sessions fd)))"
    by blast
  have "sn_entries (fd_sessions fd') =
      [(at_token a, \<lparr>ss_id = at_id a, ss_csrf = at_csrf a, ss_credential = st, ss_last_used = at_create a\<rparr>)]"
    unfolding table by (rule create_empty) (simp add: clear_def)
  moreover have "sn_idle (fd_sessions fd') = sn_idle (fd_sessions fd)"
    unfolding table by (simp add: create_def clear_def Let_def)
  ultimately have "fst (get token cred now (fd_sessions fd')) =
      (if token = at_token a \<and> cred = st \<and> now - at_create a < sn_idle (fd_sessions fd)
       then Some \<lparr>ss_id = at_id a, ss_csrf = at_csrf a, ss_credential = st, ss_last_used = now\<rparr> else None)" for token cred now
    by (auto simp: get_def Let_def)
  then show ?thesis
    using True new verify_Some [OF new(3)] password_set_Inr [OF new(4)] by auto
next
  case False
  then show ?thesis
    using change_password_other [OF assms] by simp
qed

section \<open>The front door over time\<close>

text \<open>
  The handlers and the guard in any order. The log is a ghost: who presented which password, against which
  file it was checked, and which file the session's credential is the digest of. Each handler is one
  step here; \<open>session_history\<close> covers the interleavings of their accesses to the table.
\<close>

type_synonym proven = "string \<times> string \<times> file_read \<times> file_read"

definition stamp_ok :: "crypt \<Rightarrow> file_read \<Rightarrow> string option" where
  "stamp_ok c f = (case stamp c f of Inr st \<Rightarrow> Some st | Inl _ \<Rightarrow> None)"

inductive door :: "crypt \<Rightarrow> string list \<Rightarrow> orders \<Rightarrow> nat \<Rightarrow> proven list \<Rightarrow> front_door \<Rightarrow> bool"
  for c path ord idle where
  door_start: "fd_sessions fd = sessions_new idle \<Longrightarrow> door c path ord idle [] fd"
| door_log_in: "door c path ord idle ghost fd \<Longrightarrow> log_in c path ord de legacy r b a fd = (resp, fd') \<Longrightarrow>
    door c path ord idle
      (if rp_status resp = 200 then ghost @ [(at_token a, projr (body de b), at_f1 a, at_f3 a)] else ghost) fd'"
| door_change: "door c path ord idle ghost fd \<Longrightarrow> change_password c path ord de2 legacy r b a fd = (resp, fd') \<Longrightarrow>
    door c path ord idle
      (if rp_status resp = 200 then ghost @ [(at_token a, fst (projr (body de2 b)), at_f1 a, at_f4 a)] else ghost) fd'"
| door_log_out: "door c path ord idle ghost fd \<Longrightarrow>
    door c path ord idle ghost (snd (log_out (stamp_ok c f) now1 now2 hs legacy fd))"
| door_status: "door c path ord idle ghost fd \<Longrightarrow>
    door c path ord idle ghost (snd (auth_status (stamp_ok c f) g now1 now2 hs fd))"
| door_session: "door c path ord idle ghost fd \<Longrightarrow>
    door c path ord idle ghost (snd (session_v1 (stamp_ok c f) g now1 now2 hs fd))"
| door_guard: "door c path ord idle ghost fd \<Longrightarrow>
    guard authority url he aliases (stamp_ok c f) now1 now2 r (fd_sessions fd) = (res, s') \<Longrightarrow>
    door c path ord idle ghost (fd\<lparr>fd_sessions := s'\<rparr>)"

definition vouched :: "crypt \<Rightarrow> proven list \<Rightarrow> session_op \<Rightarrow> bool" where
  "vouched c ghost op =
     (case op of
        OpCreate token _ _ st _ \<Rightarrow>
          \<exists>password f1 f2 salt upgrade st0. (token, password, f1, f2) \<in> set ghost
            \<and> password_check c f1 password salt = Inr (True, upgrade, st0) \<and> stamp c f2 = Inr st
      | _ \<Rightarrow> True)"

lemma vouched_simps [simp]:
  "vouched c ghost (OpGet t k n)" "vouched c ghost (OpRemove t)" "vouched c ghost OpClear"
  by (simp_all add: vouched_def)

lemma vouched_more: "vouched c ghost op \<Longrightarrow> vouched c (ghost @ others) op"
  unfolding vouched_def by (cases op) (simp, blast, simp_all)

lemma authenticate_trace:
  "\<exists>ts. (\<forall>op \<in> set ts. \<exists>t k n. op = OpGet t k n) \<and>
     snd (authenticate st now1 now2 hs (run_sessions it idle ops)) = run_sessions it idle (ops @ ts)"
proof -
  have one: "snd (get t k n (run_sessions it idle ops)) = run_sessions it idle (ops @ [OpGet t k n])" for t k n ops
    by simp
  have two: "run_sessions it idle (ops @ [OpGet t k n, OpGet u k m]) = snd (get u k m (snd (get t k n (run_sessions it idle ops))))"
    for t k n u m
    using run_sessions_snoc [of it idle "ops @ [OpGet t k n]" "OpGet u k m"] by simp
  show ?thesis
  proof (cases st)
    case None
    then show ?thesis
      by (auto simp: authenticate_def intro!: exI [of _ "[]"])
  next
    case (Some k)
    let ?s = "run_sessions it idle ops"
    have "snd (authenticate st now1 now2 hs ?s) \<in>
        {?s} \<union> {snd (get t k n ?s) | t n. True} \<union> {snd (get u k m (snd (get t k n ?s))) | t n u m. True}"
      using Some by (auto simp: authenticate_def Let_def split: option.splits prod.splits) (metis snd_conv)+
    then consider "snd (authenticate st now1 now2 hs ?s) = ?s"
      | t n where "snd (authenticate st now1 now2 hs ?s) = run_sessions it idle (ops @ [OpGet t k n])"
      | t n u m where "snd (authenticate st now1 now2 hs ?s) = run_sessions it idle (ops @ [OpGet t k n, OpGet u k m])"
      unfolding one two by fast
    then show ?thesis
    proof cases
      case 1
      then show ?thesis
        by (intro exI [of _ "[]"]) simp
    next
      case (2 t n)
      then show ?thesis
        by (intro exI [of _ "[OpGet t k n]"]) simp
    next
      case (3 t n u m)
      then show ?thesis
        by (intro exI [of _ "[OpGet t k n, OpGet u k m]"]) auto
    qed
  qed
qed

definition traced :: "crypt \<Rightarrow> orders \<Rightarrow> nat \<Rightarrow> proven list \<Rightarrow> sessions \<Rightarrow> bool" where
  "traced c ord idle ghost s =
     (\<exists>ops. s = run_sessions (or_sessions ord) idle ops \<and> (\<forall>op \<in> set ops. vouched c ghost op))"

lemma traced_authenticate:
  assumes "traced c ord idle ghost s" "authenticate st now1 now2 hs s = (x, s')"
  shows "traced c ord idle ghost s'"
proof -
  obtain ops where ops: "s = run_sessions (or_sessions ord) idle ops" "\<forall>op \<in> set ops. vouched c ghost op"
    using assms(1) by (auto simp: traced_def)
  obtain ts where "\<forall>op \<in> set ts. \<exists>t k n. op = OpGet t k n" "s' = run_sessions (or_sessions ord) idle (ops @ ts)"
    using authenticate_trace [of st now1 now2 hs "or_sessions ord" idle ops] assms(2) ops(1) by auto
  then show ?thesis
    using ops(2) unfolding traced_def by (intro exI [of _ "ops @ ts"]) force
qed

lemma traced_step:
  assumes "traced c ord idle ghost s" "vouched c ghost' op" "set ghost \<subseteq> set ghost'"
  shows "traced c ord idle ghost' (session_step (or_sessions ord) op s)"
proof -
  obtain ops where ops: "s = run_sessions (or_sessions ord) idle ops" "\<forall>op \<in> set ops. vouched c ghost op"
    using assms(1) by (auto simp: traced_def)
  have "\<forall>op \<in> set ops. vouched c ghost' op"
    using ops(2) assms(3) by (fastforce simp: vouched_def split: session_op.splits)
  then show ?thesis
    using ops(1) assms(2) unfolding traced_def by (intro exI [of _ "ops @ [op]"]) auto
qed

lemma traced_guard:
  assumes "traced c ord idle ghost s" "guard authority url he aliases st now1 now2 r s = (res, s')"
  shows "traced c ord idle ghost s'"
  using assms traced_authenticate [OF assms(1)]
  by (auto simp: guard_def Let_def split: if_splits prod.splits)

lemma traced_log_in:
  assumes "traced c ord idle ghost (fd_sessions fd)" "log_in c path ord de legacy r b a fd = (resp, fd')"
  shows "traced c ord idle
     (if rp_status resp = 200 then ghost @ [(at_token a, projr (body de b), at_f1 a, at_f3 a)] else ghost) (fd_sessions fd')"
proof (cases "rp_status resp = 200")
  case True
  from log_in_200 [OF assms(2) True] obtain password st where
    st: "body de b = Inr password"
      "verify_and_upgrade c path password (at_salt2 a) (at_f1 a) (at_f2 a) (at_upgrade a) (at_f3 a) = Inr (Some st)"
    and fd: "fd_sessions fd' = session_step (or_sessions ord) (OpCreate (at_token a) (at_id a) (at_csrf a) st (at_create a)) (fd_sessions fd)"
    by auto
  have "vouched c (ghost @ [(at_token a, password, at_f1 a, at_f3 a)]) (OpCreate (at_token a) (at_id a) (at_csrf a) st (at_create a))"
    using verify_Some [OF st(2)] by (fastforce simp: vouched_def)
  from traced_step [OF assms(1) this] show ?thesis
    unfolding fd using True st(1) by auto
next
  case False
  then show ?thesis
    using assms log_in_other [OF assms(2)] by simp
qed

lemma traced_change:
  assumes "traced c ord idle ghost (fd_sessions fd)" "change_password c path ord de legacy r b a fd = (resp, fd')"
  shows "traced c ord idle
     (if rp_status resp = 200 then ghost @ [(at_token a, fst (projr (body de b)), at_f1 a, at_f4 a)] else ghost) (fd_sessions fd')"
proof (cases "rp_status resp = 200")
  case True
  from change_password_200 [OF assms(2) True] obtain current new st0 st where
    st: "body de b = Inr (current, new)"
      "verify_and_upgrade c path current (at_salt2 a) (at_f1 a) (at_f2 a) (at_upgrade a) (at_f3 a) = Inr (Some st0)"
      "password_set c path new (at_salt a) (at_salt3 a) (at_write a) (at_f4 a) = Inr st"
    and fd: "fd_sessions fd' = session_step (or_sessions ord) (OpCreate (at_token a) (at_id a) (at_csrf a) st (at_create a))
               (session_step (or_sessions ord) OpClear (fd_sessions fd))"
    by auto
  have "traced c ord idle ghost (session_step (or_sessions ord) OpClear (fd_sessions fd))"
    by (rule traced_step [OF assms(1)]) simp_all
  note cleared = this
  have "vouched c (ghost @ [(at_token a, current, at_f1 a, at_f4 a)]) (OpCreate (at_token a) (at_id a) (at_csrf a) st (at_create a))"
    using verify_Some [OF st(2)] password_set_Inr [OF st(3)] by (fastforce simp: vouched_def)
  from traced_step [OF cleared this] show ?thesis
    unfolding fd using True st(1) by auto
next
  case False
  then show ?thesis
    using assms change_password_other [OF assms(2)] by simp
qed

lemma traced_door: "door c path ord idle ghost fd \<Longrightarrow> traced c ord idle ghost (fd_sessions fd)"
proof (induction rule: door.induct)
  case (door_start fd)
  then show ?case
    unfolding traced_def by (intro exI [of _ "[]"]) simp
next
  case (door_log_in ghost fd de legacy r b a resp fd')
  then show ?case
    using traced_log_in by blast
next
  case (door_change ghost fd de legacy r b a resp fd')
  then show ?case
    using traced_change by blast
next
  case (door_log_out ghost fd f now1 now2 hs legacy)
  obtain x s where x: "authenticate (stamp_ok c f) now1 now2 hs (fd_sessions fd) = (x, s)"
    by fastforce
  have "traced c ord idle ghost s"
    by (rule traced_authenticate [OF door_log_out.IH x])
  then show ?case
    using traced_step [of c ord idle ghost s ghost "OpRemove _"] by (simp add: log_out_def x split: option.split)
next
  case (door_status ghost fd f g now1 now2 hs)
  then show ?case
    using traced_authenticate by (auto simp: auth_status_def split: prod.split)
next
  case (door_session ghost fd f g now1 now2 hs)
  then show ?case
    using traced_authenticate by (auto simp: session_v1_def split: prod.split option.split)
next
  case (door_guard ghost fd authority url he aliases f now1 now2 r res s')
  then show ?case
    using traced_guard by simp
qed

text \<open>
  C4: Through any run of the front door - logins, password changes, logouts, status requests and guarded
  requests in any order, with the password file changing behind its back - a request on a protected path
  that is not exempt passes only if under its token somebody presented the password, it was accepted
  against the password file, and the digest that the file had at the end of that login is the digest the
  file has now.
\<close>

theorem passing_needs_password:
  assumes "door c path ord idle ghost fd"
    and "guard authority url he aliases (stamp_ok c f) now1 now2 r (fd_sessions fd) = (Passed ps, s')"
    and "protected (rq_path r)" "\<not> exempt r"
  shows "\<exists>auth password f1 f2 salt upgrade st0 st.
      ps_auth ps = Some auth \<and> (au_token auth, password, f1, f2) \<in> set ghost
    \<and> password_check c f1 password salt = Inr (True, upgrade, st0)
    \<and> stamp c f2 = Inr st \<and> stamp c f = Inr st"
proof -
  obtain ops where ops: "fd_sessions fd = run_sessions (or_sessions ord) idle ops" "\<forall>op \<in> set ops. vouched c ghost op"
    using traced_door [OF assms(1)] by (auto simp: traced_def)
  obtain auth where auth: "authenticate (stamp_ok c f) now1 now2 (rq_headers r) (run_sessions (or_sessions ord) idle ops) = (Some auth, s')"
      "ps_auth ps = Some auth"
    using assms(2-) ops(1) by (auto simp: guard_def Let_def split: if_splits prod.splits option.splits)
  from authenticate_history [OF auth(1)] obtain cred pre tm post where cred: "stamp_ok c f = Some cred"
      "ops = pre @ OpCreate (au_token auth) (ss_id (au_session auth)) (ss_csrf (au_session auth)) cred tm # post"
    by blast
  then have "vouched c ghost (OpCreate (au_token auth) (ss_id (au_session auth)) (ss_csrf (au_session auth)) cred tm)"
    using ops(2) by simp
  moreover have "stamp c f = Inr cred"
    using cred(1) by (simp add: stamp_ok_def split: sum.splits)
  ultimately show ?thesis
    using auth(2) by (fastforce simp: vouched_def)
qed

section \<open>Records that are written are accepted\<close>

text \<open>What is relied on: the JSON printer and reader agree, and the verifier accepts what the hasher
  printed, which stays within the bounds of the work factors.\<close>

definition json_faithful :: "crypt \<Rightarrow> bool" where
  "json_faithful c = (\<forall>v b. cr_to_vec c v = Some b \<longrightarrow> cr_from_slice c b = Some v \<and> b \<noteq> [])"

definition argon_faithful :: "crypt \<Rightarrow> bool" where
  "argon_faithful c =
     (\<forall>password salt phc. cr_argon2_hash c password salt = Some phc \<longrightarrow>
        cr_argon2_verify c password phc = Some True \<and> bounded_phc phc)"

lemma argon_record:
  assumes "json_faithful c" "argon_faithful c"
    and "cr_to_vec c record = Some b" "length b \<le> 16 * 1024"
    and "stored_text record ''salt'' = Some salt" "stored_text record ''hash'' = Some hash"
    and "stored_text record ''algo'' = Some ''argon2id''" "stored_text record ''phc'' = Some phc"
    and "argon_hash c password salt2 = Inr phc"
  shows "password_check c (Contents b) password salt' = Inr (True, None, cr_sha256 c b)"
proof -
  have "cr_from_slice c b = Some record" "b \<noteq> []"
    using assms(1,3) by (auto simp: json_faithful_def)
  moreover have "cr_argon2_verify c password phc = Some True" "bounded_phc phc"
    using assms(2,9) by (auto simp: argon_faithful_def argon_hash_def ok_or_def split: option.splits)
  ultimately show ?thesis
    using assms(4-8) by (simp add: password_check_def file_bytes_def Let_def)
qed

lemma upgrade_record:
  assumes "password_check c f password salt2 = Inr (True, Some record, st)"
  shows "\<exists>salt hash phc. stored_text record ''salt'' = Some salt \<and> stored_text record ''hash'' = Some hash
    \<and> stored_text record ''algo'' = Some ''argon2id'' \<and> stored_text record ''phc'' = Some phc \<and> argon_hash c password salt2 = Inr phc"
proof -
  obtain stored salt hash phc where
    "stored_text stored ''salt'' = Some salt" "stored_text stored ''hash'' = Some hash" "argon_hash c password salt2 = Inr phc"
    "record = json_set ''phc'' (JString phc) (json_set ''algo'' (JString ''argon2id'') stored)"
    using assms by (auto simp: password_check_def Let_def bind_r_eq_Inr ok_or_def split: if_splits option.splits)
  moreover from this obtain m where "stored = JObject m"
    by (cases stored) (simp_all add: stored_text_def json_get_def)
  ultimately show ?thesis
    by (simp add: stored_text_def json_get_def json_set_def bt_get_insert json_text_def)
qed

lemma new_record_fields:
  assumes "new_record c password salt salt2 = Inr record"
  shows "\<exists>hash phc. stored_text record ''salt'' = Some salt \<and> stored_text record ''hash'' = Some hash
    \<and> stored_text record ''algo'' = Some ''argon2id'' \<and> stored_text record ''phc'' = Some phc \<and> argon_hash c password salt2 = Inr phc"
  using assms
  by (auto simp: new_record_def bind_r_eq_Inr obj_def bt_of_list_def stored_text_def json_get_def bt_get_def json_text_def)


section \<open>A concrete front door\<close>

definition sample_phc :: string where
  "sample_phc = ''$argon2id$v=19$m=19456,t=2,p=1$c2FsdA$aGFzaA''"

definition sample_record :: json where
  "sample_record =
     obj [(''algo'', JString ''argon2id''), (''phc'', JString sample_phc), (''hash'', JString ''secret1''), (''salt'', JString ''s'')]"

definition sample_crypt :: crypt where
  "sample_crypt =
     \<lparr>cr_sha256 = (\<lambda>b. if b = [] then ''k'' else b), cr_hex_decode = Some, cr_hex_encode = id,
      cr_scrypt = (\<lambda>p s. Some p), cr_argon2_hash = (\<lambda>p s. Some sample_phc), cr_argon2_verify = (\<lambda>p phc. Some (phc = sample_phc)),
      cr_from_slice = (\<lambda>b. if b = ''x'' then Some sample_record else None),
      cr_to_vec = (\<lambda>v. if v = sample_record then Some ''x'' else None)\<rparr>"

definition sample_attempt :: attempt where
  "sample_attempt =
     \<lparr>at_limit1 = 1, at_delay = 2, at_limit2 = 3, at_failed = 4, at_create = 5, at_f1 = Missing, at_f2 = Missing,
      at_upgrade = Written, at_f3 = Missing, at_write = Written, at_f4 = Contents ''x'', at_salt = ''s'', at_salt2 = ''a'',
      at_salt3 = ''b'', at_token = ''t'', at_id = ''i'', at_csrf = ''c''\<rparr>"

definition sample_door :: front_door where
  "sample_door = \<lparr>fd_sessions = sessions_new 10, fd_limiter = limiter_default, fd_cookie_secure = False\<rparr>"

definition sample_orders :: orders where
  "sample_orders = \<lparr>or_sessions = id, or_sources = id\<rparr>"

lemma sample_phc_bounded: "bounded_phc sample_phc"
  by (simp add: sample_phc_def bounded_phc_def bounded_param_def Let_def text_eval)

lemma sample_new_record: "new_record sample_crypt ''secret1'' ''s'' salt2 = Inr sample_record"
  by (simp add: new_record_def argon_hash_def scrypt_hash_def sample_crypt_def sample_record_def)

lemma sample_admission: "admission address sample_attempt sample_door = (None, sample_door)"
  by (simp add: admission_def source_limited_def retry_after_def soft_delay_def prune_def sample_door_def
      limiter_default_def limiter_new_def Let_def)

lemma sample_verify:
  "verify_and_upgrade sample_crypt path ''ndimon'' ''a'' Missing Missing Written Missing = Inr (Some ''k'')"
  by (simp add: verify_and_upgrade_def password_check_def file_bytes_def stamp_def sample_crypt_def)


theorem password_change_ends_sessions_witness:
  "fst (get ''old'' ''k'' 6
     (fd_sessions (snd (change_password sample_crypt [''x''] sample_orders (\<lambda>_. Some (''ndimon'', ''secret1'')) True
        sample_request (BodyBytes []) sample_attempt sample_door)))) = None"
proof -
  let ?run = "change_password sample_crypt [''x''] sample_orders (\<lambda>_. Some (''ndimon'', ''secret1'')) True
        sample_request (BodyBytes []) sample_attempt sample_door"
  have "password_set sample_crypt [''x''] ''secret1'' ''s'' ''b'' Written (Contents ''x'') = Inr ''x''"
    by (simp add: password_set_def sample_new_record auth_write_def stamp_def file_bytes_def AUTH_PATH_def)
       (simp add: sample_crypt_def)
  moreover have "\<not> utf16_len ''secret1'' < 6"
    by (simp add: text_eval)
  ultimately have ok: "rp_status (fst ?run) = 200"
    by (simp add: change_password_def body_def sample_admission Let_def)
       (simp add: sample_attempt_def sample_verify reply_def)
  have run: "?run = (fst ?run, snd ?run)"
    by simp
  have token: "at_token sample_attempt = ''t''"
    by (simp add: sample_attempt_def)
  show ?thesis
    using password_change_ends_sessions [OF run] ok token by auto
qed

theorem passing_needs_password_witness:
  "\<exists>password f1. (''t'', password, f1, Missing) \<in> set [(''t'', ''ndimon'', Missing, Missing)]
     \<and> (\<exists>salt upgrade st0. password_check sample_crypt f1 password salt = Inr (True, upgrade, st0))"
proof -
  let ?fd = "open_session sample_orders sample_attempt (client_address sample_request) ''k'' sample_door"
  let ?resp = "reply 200 (cookie ''t'' False) (Some (obj [(''csrf'', JString ''c'')]))"
  have "log_in sample_crypt [''x''] sample_orders (\<lambda>_. Some ''ndimon'') False sample_request (BodyBytes []) sample_attempt sample_door
      = (?resp, ?fd)"
    by (simp add: log_in_def body_def sample_admission Let_def)
       (simp add: sample_attempt_def sample_verify sample_door_def)
  from door_log_in [OF door_start this, of 10]
  have door: "door sample_crypt [''x''] sample_orders 10 [(''t'', ''ndimon'', Missing, Missing)] ?fd"
    by (simp add: sample_door_def reply_def body_def) (simp add: sample_attempt_def)
  have "fd_sessions ?fd = run_sessions id 10 [OpCreate ''t'' ''i'' ''c'' ''k'' 5]"
    by (simp add: open_session_def sample_attempt_def sample_orders_def sample_door_def run_sessions_def)
  moreover have "stamp_ok sample_crypt Missing = Some ''k''"
    by (simp add: stamp_ok_def stamp_def file_bytes_def sample_crypt_def)
  ultimately obtain ps s' where "guard Some (\<lambda>_. None) sample_host None (stamp_ok sample_crypt Missing) 9 9 sample_request
      (fd_sessions ?fd) = (Passed ps, s')"
    using sample_guard by simp
  from passing_needs_password [OF door this sample_protected] show ?thesis
    by auto
qed

end
