(* ===== verification/Domain_Modules.thy ===== *)
theory Domain_Modules
  imports Plugin_Module Net_Validation
begin

text \<open>
  The domain modules behind the actor (\<open>ndimon-state/src/domains\<close>): how the commands of the presets, NDI,
  display, outputs, device, audio, Tessera and network domains change the document, and what their planners
  announce. They are put together with the plugin module into the registry the actor runs on.

  Parameters: the printer of documents (the endpoint check of a retry validates a document), three
  functions of the audio domain that go through the rendered audio file (\<open>audio_env\<close>: the import of the
  projected version 1 view, the compilation of an output's choice against the catalog and the projection
  of legacy audio onto a new channel count), what the device answers about signed updates, and the
  run-time hooks of a module (queries, observation, live operations), which are not modelled here.
\<close>

section \<open>Presets\<close>

fun max_position :: "u32 list \<Rightarrow> u32 option" where
  "max_position [] = None"
| "max_position (x # xs) = Some (case max_position xs of None \<Rightarrow> x | Some y \<Rightarrow> max x y)"

definition next_position :: "(string, preset) bmap \<Rightarrow> u32" where
  "next_position ps =
     (case max_position (List.map_filter pr_position (bt_values ps)) of
        None \<Rightarrow> 0
      | Some p \<Rightarrow> saturating_add p 1)"

definition presets_reduce :: "desired_state \<Rightarrow> command \<Rightarrow> (desired_state, api_error) result" where
  "presets_reduce st c =
     (case c of
        SavePreset name p \<Rightarrow>
          (let position = (case Option.bind (bt_get (ds_presets st) name) pr_position of
                             Some x \<Rightarrow> x
                           | None \<Rightarrow> next_position (ds_presets st))
           in Inr (st\<lparr>ds_presets := bt_insert name (p\<lparr>pr_position := Some position\<rparr>) (ds_presets st)\<rparr>))
      | DeletePreset name \<Rightarrow> Inr (st\<lparr>ds_presets := bt_remove name (ds_presets st)\<rparr>)
      | _ \<Rightarrow> Inl (Unsupported ''not a preset mutation''))"

definition presets_plan :: "desired_state \<Rightarrow> desired_state \<Rightarrow> command \<Rightarrow> (domain_plan, api_error) result" where
  "presets_plan previous next' c =
     Inr \<lparr>dpl_actions = [ActionPresets PresetsRender], dpl_impact = default_impact\<rparr>"

section \<open>NDI\<close>

definition ndi_imperative :: "command \<Rightarrow> bool" where
  "ndi_imperative c = (case c of RefreshNdi \<Rightarrow> True | ResetNdiDiscovery \<Rightarrow> True | _ \<Rightarrow> False)"

definition ndi_reduce :: "desired_state \<Rightarrow> command \<Rightarrow> (desired_state, api_error) result" where
  "ndi_reduce st c =
     (case c of
        SetNdi n \<Rightarrow> Inr (st\<lparr>ds_ndi := n\<rparr>)
      | RefreshNdi \<Rightarrow> Inr st
      | ResetNdiDiscovery \<Rightarrow> Inr st
      | _ \<Rightarrow> Inl (Unsupported ''unsupported NDI command''))"

definition ndi_plan :: "desired_state \<Rightarrow> desired_state \<Rightarrow> command \<Rightarrow> (domain_plan, api_error) result" where
  "ndi_plan previous next' c =
     (let transport = (ndi_receive (ds_ndi previous) \<noteq> ndi_receive (ds_ndi next'));
          discovery = (ndi_discovery_servers (ds_ndi previous) \<noteq> ndi_discovery_servers (ds_ndi next'));
          restart = (transport \<or> discovery);
          refresh = (c = RefreshNdi)
      in Inr
        \<lparr>dpl_actions = map ActionNdi
           ((if ds_ndi previous \<noteq> ds_ndi next' then [NdiDeliver] else [])
            @ (if restart then [NdiRestartDecoder] else [])
            @ (if refresh then [NdiRefresh] else [])
            @ (if c = ResetNdiDiscovery then [NdiReset] else [])),
         dpl_impact = default_impact\<lparr>
           im_scope := (if restart then ScopeService else ScopeNone),
           im_restarts := (if restart then [SvcDecoder] else []) @ (if refresh then [SvcFinder] else []),
           im_interruptions :=
             (if restart then [new_interruption DNdi ''decoder video/audio'' (Some 3000)] else [])
             @ (if refresh then [new_interruption DNdi ''source discovery'' (Some 2000)] else []),
           im_lines :=
             (if transport
              then [''Restart the decoder to change NDI receive transport; video and audio pause briefly''] else [])
             @ (if discovery
                then [''Restart the decoder to change the Discovery Server; video and audio pause briefly''] else [])
             @ (if refresh then [''Restart the finder to refresh NDI source discovery''] else [])\<rparr>\<rparr>)"

section \<open>Display\<close>

definition display_invalid :: "string \<Rightarrow> api_error" where
  "display_invalid reason = invalid [new_field_error ''display'' reason]"

definition display_reduce :: "desired_state \<Rightarrow> command \<Rightarrow> (desired_state, api_error) result" where
  "display_reduce st c =
     (case c of
        SetDisplay d \<Rightarrow> Inr (st\<lparr>ds_display := d\<rparr>)
      | SetLogo asset \<Rightarrow>
          Inr (st\<lparr>ds_display := (ds_display st)\<lparr>di_splash := (di_splash (ds_display st))\<lparr>sp_logo := asset\<rparr>\<rparr>\<rparr>)
      | PreviewSplash _ \<Rightarrow> Inr st
      | ImportBackup doc scope \<Rightarrow>
          if scope = RestoreDisplay then Inr (st\<lparr>ds_display := ds_display (bd_document doc)\<rparr>)
          else Inl (display_invalid ''unsupported display command'')
      | _ \<Rightarrow> Inl (display_invalid ''unsupported display command''))"

definition display_plan :: "desired_state \<Rightarrow> desired_state \<Rightarrow> command \<Rightarrow> (domain_plan, api_error) result" where
  "display_plan previous next' c =
     Inr \<lparr>dpl_actions = [ActionDisplay DisplayApplyConfig], dpl_impact = default_impact\<rparr>"

section \<open>Outputs\<close>

definition outputs_invalid :: "string \<Rightarrow> api_error" where
  "outputs_invalid reason = invalid [new_field_error ''outputs'' reason]"

definition output_range :: string where
  "output_range = ''output must be 1'' @ map char_of [0xE2, 0x80, 0x93 :: nat] @ ''8''"

definition output_entry :: "output_id \<Rightarrow> (output_cfg \<Rightarrow> output_cfg) \<Rightarrow> desired_state \<Rightarrow> (desired_state, api_error) result" where
  "output_entry i f st =
     (if 1 \<le> i \<and> i \<le> 8
      then Inr (st\<lparr>ds_outputs :=
             bt_insert i (f (case bt_get (ds_outputs st) i of Some out \<Rightarrow> out | None \<Rightarrow> default_output)) (ds_outputs st)\<rparr>)
      else Inl (outputs_invalid output_range))"

definition saved_source :: "desired_state \<Rightarrow> output_id \<Rightarrow> ndi_source_ref option" where
  "saved_source st i = Option.bind (bt_get (ds_outputs st) i) out_source"

definition valid_endpoint :: "doc_printer \<Rightarrow> string \<Rightarrow> bool" where
  "valid_endpoint dp v =
     (let st = default_desired_state\<lparr>ds_outputs :=
            [(1, default_output\<lparr>out_source := Some (new_ndi_source_ref ''source'' v)\<rparr>)]\<rparr>
      in v \<noteq> [] \<and> is_ok (validate dp st))"

definition put_audio_enabled :: "output_id \<times> bool \<Rightarrow> desired_state \<Rightarrow> (desired_state, api_error) result" where
  "put_audio_enabled e st =
     (case e of (i, enabled) \<Rightarrow>
        bind_r (output_entry i (\<lambda>out. out) st) (\<lambda>st.
        (case bt_get (au_outputs (ds_audio st)) i of
           Some out \<Rightarrow>
             Inr (st\<lparr>ds_audio := (ds_audio st)
                      \<lparr>au_outputs := bt_insert i (out\<lparr>oa_enabled := enabled\<rparr>) (au_outputs (ds_audio st))\<rparr>\<rparr>)
         | None \<Rightarrow>
             if enabled then Inl (outputs_invalid ''configure audio endpoints before enabling output audio'')
             else Inr st)))"

definition outputs_imperative :: "command \<Rightarrow> bool" where
  "outputs_imperative c =
     (case c of ReconnectSource _ \<Rightarrow> True | RetrySource _ _ \<Rightarrow> True | SelectSource _ _ \<Rightarrow> True
        | ForgetSource _ \<Rightarrow> True | SetOutputVideo _ _ \<Rightarrow> True | _ \<Rightarrow> False)"

definition outputs_reduce :: "doc_printer \<Rightarrow> desired_state \<Rightarrow> command \<Rightarrow> (desired_state, api_error) result" where
  "outputs_reduce dp st c =
     (case c of
        PutOutputSettings outs n audio_enabled \<Rightarrow>
          bind_r (try_fold (\<lambda>(i, out) st. output_entry i (\<lambda>_. out) st) outs st) (\<lambda>st.
          bind_r (Inr (case n of Some n \<Rightarrow> st\<lparr>ds_ndi := n\<rparr> | None \<Rightarrow> st)) (\<lambda>st.
            try_fold put_audio_enabled audio_enabled st))
      | SelectSource i src \<Rightarrow>
          output_entry i (\<lambda>out. out\<lparr>out_source := Some src, out_source_selection := ''NDI''\<rparr>) st
      | ForgetSource i \<Rightarrow> output_entry i (\<lambda>out. out\<lparr>out_source := None\<rparr>) st
      | AdoptRemoteSource i src \<Rightarrow>
          if (case src of Some s \<Rightarrow> src_name s = [] \<or> src_name s = ''None'' | None \<Rightarrow> False)
          then Inl (outputs_invalid ''invalid source name'')
          else output_entry i (\<lambda>out.
                 (case src of
                    Some s \<Rightarrow> out\<lparr>out_source := Some (new_ndi_source_ref (src_name s) []), out_source_selection := ''NDI''\<rparr>
                  | None \<Rightarrow> out\<lparr>out_source := None\<rparr>)) st
      | SetOutputAlias i alias \<Rightarrow> output_entry i (\<lambda>out. out\<lparr>out_alias := trim alias\<rparr>) st
      | SetOutputVideo i video \<Rightarrow> output_entry i (\<lambda>out. out\<lparr>out_video := video\<rparr>) st
      | SetScreenSaver i saver \<Rightarrow> output_entry i (\<lambda>out. out\<lparr>out_screensaver := saver\<rparr>) st
      | ReconnectSource i \<Rightarrow>
          if \<not> (1 \<le> i \<and> i \<le> 8) then Inl (outputs_invalid output_range)
          else if saved_source st i = None then Inl (outputs_invalid ''no saved source'')
          else Inr st
      | RetrySource i src \<Rightarrow>
          if (case saved_source st i of None \<Rightarrow> True | Some s \<Rightarrow> src_name s \<noteq> src_name src)
          then Inl (outputs_invalid ''saved source changed; cancel stale reconnect'')
          else if src_endpoint src \<noteq> [] \<and> \<not> valid_endpoint dp (src_endpoint src)
          then Inl (outputs_invalid ''invalid source IPv4 endpoint'')
          else Inr st
      | CaptureFrame _ \<Rightarrow> Inl (Unsupported ''frame capture has no decoder consumer'')
      | _ \<Rightarrow> Inl (outputs_invalid ''unsupported output command''))"

definition output_actions :: "desired_state \<Rightarrow> output_id \<times> output_cfg \<Rightarrow> outputs_action list" where
  "output_actions previous e =
     (case e of (i, out) \<Rightarrow>
        (let old = (case bt_get (ds_outputs previous) i of Some o' \<Rightarrow> o' | None \<Rightarrow> default_output)
         in (if out_source old \<noteq> out_source out
             then [if out_source out \<noteq> None then OutputsConnect i else OutputsForget i] else [])
            @ (if ov_resolution (out_video old) \<noteq> ov_resolution (out_video out) then [OutputsResolution i] else [])
            @ (if ov_rotation (out_video old) \<noteq> ov_rotation (out_video out) then [OutputsRotation i] else [])
            @ (if ov_scale_mode (out_video old) \<noteq> ov_scale_mode (out_video out) then [OutputsScale i] else [])))"

definition output_lines :: "desired_state \<Rightarrow> command \<Rightarrow> output_id \<times> output_cfg \<Rightarrow> string list" where
  "output_lines previous c e =
     (case e of (i, out) \<Rightarrow>
        (let old = (case bt_get (ds_outputs previous) i of Some o' \<Rightarrow> o' | None \<Rightarrow> default_output)
         in if out_source old \<noteq> out_source out
            then [(case c of
                     AdoptRemoteSource _ _ \<Rightarrow> ''Save the Discovery Server's source for output ''
                   | _ \<Rightarrow> ''Switch source on output '') @ dec (unat i)]
            else []))"

definition outputs_requested :: "desired_state \<Rightarrow> command \<Rightarrow> outputs_action list" where
  "outputs_requested previous c =
     (case c of
        ReconnectSource i \<Rightarrow> [OutputsReconnect i]
      | RetrySource i src \<Rightarrow> [OutputsRetry i (src_name src) (src_endpoint src)]
      | SetOutputVideo i video \<Rightarrow>
          (case bt_get (ds_outputs previous) i of
             Some out \<Rightarrow> if out_video out = video then [OutputsResolution i, OutputsRotation i, OutputsScale i] else []
           | None \<Rightarrow> [])
      | SelectSource i src \<Rightarrow>
          if saved_source previous i = Some src then [OutputsRetry i (src_name src) (src_endpoint src)] else []
      | ForgetSource i \<Rightarrow> if saved_source previous i = None then [OutputsForgetNow i] else []
      | _ \<Rightarrow> [])"

definition outputs_plan :: "desired_state \<Rightarrow> desired_state \<Rightarrow> command \<Rightarrow> (domain_plan, api_error) result" where
  "outputs_plan previous next' c =
     Inr \<lparr>dpl_actions = map ActionOutputs
            (concat (map (output_actions previous) (ds_outputs next'))
             @ outputs_requested previous c
             @ (if ds_outputs previous \<noteq> ds_outputs next' then [OutputsDeliver] else [])),
          dpl_impact = default_impact\<lparr>im_lines := concat (map (output_lines previous c) (ds_outputs next'))\<rparr>\<rparr>"

section \<open>Device\<close>

definition device_invalid :: "string \<Rightarrow> string \<Rightarrow> api_error" where
  "device_invalid field reason = invalid [new_field_error field reason]"

text \<open>The units of the appliance, by the service that names them.\<close>

definition unit_of :: "service \<Rightarrow> (service, api_error) result" where
  "unit_of s =
     (case s of
        SvcControl \<Rightarrow> Inr SvcControl
      | SvcDecoder \<Rightarrow> Inr SvcDecoder
      | SvcFinder \<Rightarrow> Inr SvcFinder
      | _ \<Rightarrow> Inl (Unsupported ''service is outside the appliance System surface''))"

primrec day_index :: "weekday \<Rightarrow> nat" where
  "day_index Sun = 0"
| "day_index Mon = 1"
| "day_index Tue = 2"
| "day_index Wed = 3"
| "day_index Thu = 4"
| "day_index Fri = 5"
| "day_index Sat = 6"

definition assign :: "'a option \<Rightarrow> 'a \<Rightarrow> 'a" where
  "assign new old = (case new of Some v \<Rightarrow> v | None \<Rightarrow> old)"

definition device_assign :: "device_patch \<Rightarrow> device \<Rightarrow> device" where
  "device_assign p d =
     \<lparr>dev_hostname = assign (dp_hostname p) (dev_hostname d),
      dev_ndi_alias = assign (dp_ndi_alias p) (dev_ndi_alias d),
      dev_mode = assign (dp_mode p) (dev_mode d),
      dev_decode_mode = assign (dp_decode_mode p) (dev_decode_mode d),
      dev_watchdog_mode = assign (dp_watchdog_mode p) (dev_watchdog_mode d),
      dev_ntp_server = assign (dp_ntp_server p) (dev_ntp_server d),
      dev_reboot_schedule = assign (dp_reboot_schedule p) (dev_reboot_schedule d),
      dev_about = assign (dp_about p) (dev_about d),
      dev_analog_audio_in_gain = assign (dp_analog_audio_in_gain p) (dev_analog_audio_in_gain d),
      dev_analog_audio_out_gain = assign (dp_analog_audio_out_gain p) (dev_analog_audio_out_gain d),
      dev_plugin_feeds = assign (dp_plugin_feeds p) (dev_plugin_feeds d),
      dev_allow_insecure_feeds = assign (dp_allow_insecure_feeds p) (dev_allow_insecure_feeds d),
      dev_web_allowed_hosts = assign (dp_web_allowed_hosts p) (dev_web_allowed_hosts d)\<rparr>"

definition patch_device :: "device_patch \<Rightarrow> device \<Rightarrow> device" where
  "patch_device p d0 =
     (let d1 = device_assign p d0;
          d2 = d1\<lparr>dev_ndi_alias := trim (dev_ndi_alias d1), dev_ntp_server := trim (dev_ntp_server d1),
                  dev_web_allowed_hosts := map to_ascii_lowercase (dev_web_allowed_hosts d1)\<rparr>;
          d3 = (if dp_ndi_alias p \<noteq> None \<and> dev_ndi_alias d2 \<noteq> []
                then d2\<lparr>dev_hostname := alias_hostname (dev_ndi_alias d2)\<rparr> else d2);
          schedule = dev_reboot_schedule d3
      in d3\<lparr>dev_reboot_schedule := schedule\<lparr>rs_days := remdups_adj (sort_key day_index (rs_days schedule))\<rparr>\<rparr>)"

text \<open>What the device answers about signed updates: whether a release key is configured, whether the
  privileged daemon is switched off, and the error text of a version the daemon's protocol refuses.\<close>

record update_env =
  ue_keys :: "(bool, api_error) result"
  ue_privd_off :: bool
  ue_refusal :: "string \<Rightarrow> bool \<Rightarrow> string option"

definition NO_RELEASE_KEY :: string where
  "NO_RELEASE_KEY = ''updates need a signed release; no release key is configured''"

definition signed_request :: "update_env \<Rightarrow> string \<Rightarrow> bool \<Rightarrow> (unit, api_error) result" where
  "signed_request ue version force =
     (case ue_refusal ue version force of
        None \<Rightarrow> Inr ()
      | Some text' \<Rightarrow> Inl (invalid [new_field_error ''version'' text']))"

definition check_signed_update :: "update_env \<Rightarrow> string \<Rightarrow> bool \<Rightarrow> (unit, api_error) result" where
  "check_signed_update ue version force =
     bind_r (ue_keys ue) (\<lambda>keys.
       if \<not> keys then Inl (Unsupported NO_RELEASE_KEY)
       else if ue_privd_off ue then Inl (Unsupported ''signed updates require ndimon-privd'')
       else signed_request ue version force)"

definition device_imperative :: "command \<Rightarrow> bool" where
  "device_imperative c =
     (case c of Reboot \<Rightarrow> True | RestartStack \<Rightarrow> True | InstallUpdate _ _ _ \<Rightarrow> True | ServiceControl _ _ \<Rightarrow> True
        | _ \<Rightarrow> False)"

definition device_reduce :: "update_env \<Rightarrow> desired_state \<Rightarrow> command \<Rightarrow> (desired_state, api_error) result" where
  "device_reduce ue st c =
     (case c of
        SetDevice p \<Rightarrow> Inr (st\<lparr>ds_device := patch_device p (ds_device st)\<rparr>)
      | ServiceControl service _ \<Rightarrow> bind_r (unit_of service) (\<lambda>_. Inr st)
      | InstallUpdate _ version force \<Rightarrow>
          bind_r (ok_or version (device_invalid ''version'' ''signed update version required'')) (\<lambda>v.
          bind_r (check_signed_update ue v force) (\<lambda>_. Inr st))
      | Reboot \<Rightarrow> Inr st
      | RestartStack \<Rightarrow> Inr st
      | _ \<Rightarrow> Inl (Unsupported ''unsupported device command''))"

primrec service_debug :: "service \<Rightarrow> string" where
  "service_debug SvcDecoder = ''Decoder''"
| "service_debug SvcFinder = ''Finder''"
| "service_debug SvcControl = ''Control''"
| "service_debug SvcWatchdog = ''Watchdog''"
| "service_debug SvcTessera = ''Tessera''"

primrec service_action_debug :: "service_action \<Rightarrow> string" where
  "service_action_debug ActStart = ''Start''"
| "service_action_debug ActStop = ''Stop''"
| "service_action_debug ActRestart = ''Restart''"
| "service_action_debug ActReload = ''Reload''"

definition device_effect ::
  "command \<Rightarrow> ((device_action \<times> impact_scope \<times> string) option, api_error) result" where
  "device_effect c =
     (case c of
        Reboot \<Rightarrow> Inr (Some (DeviceReboot, ScopeDevice,
          ''Reboot the device; all video, audio and control connections stop''))
      | RestartStack \<Rightarrow> Inr (Some (DeviceRestartStack, ScopeService,
          ''Restart the NDIMon stack; video, audio and API connections pause''))
      | InstallUpdate _ version force \<Rightarrow>
          bind_r (ok_or version (device_invalid ''version'' ''signed update version required'')) (\<lambda>v.
            Inr (Some (DeviceInstallUpdate v force, ScopeSystem,
              ''Install the signed NDIMon release; services restart and video/audio pause'')))
      | _ \<Rightarrow> Inr None)"

definition service_control_impact :: "command \<Rightarrow> impact" where
  "service_control_impact c =
     (case c of
        ServiceControl service act' \<Rightarrow>
          if act' = ActStart \<or> act' = ActStop \<or> act' = ActRestart
          then default_impact\<lparr>im_scope := ScopeService, im_restarts := [service],
                 im_interruptions := [new_interruption DDevice (service_debug service) None],
                 im_lines := [service_action_debug act' @ '' '' @ service_debug service
                              @ ''; its connections and streams may pause'']\<rparr>
          else default_impact
      | _ \<Rightarrow> default_impact)"

definition device_plan :: "desired_state \<Rightarrow> desired_state \<Rightarrow> command \<Rightarrow> (domain_plan, api_error) result" where
  "device_plan previous next' c =
     (let old = ds_device previous; new = ds_device next';
          selected =
            (if dev_hostname old \<noteq> dev_hostname new then [DeviceHostname] else [])
            @ (if dev_ntp_server old \<noteq> dev_ntp_server new then [DeviceTimeSync] else [])
            @ (if dev_reboot_schedule old \<noteq> dev_reboot_schedule new then [DeviceRebootSchedule] else [])
            @ (if old \<noteq> new then [DeviceApplyConfig] else [])
            @ (case c of ServiceControl service act' \<Rightarrow> [DeviceServiceControl service act'] | _ \<Rightarrow> []);
          impact = service_control_impact c
      in bind_r (device_effect c) (\<lambda>effect.
           case effect of
             None \<Rightarrow> Inr \<lparr>dpl_actions = map ActionDevice selected, dpl_impact = impact\<rparr>
           | Some (act', scope, line) \<Rightarrow>
               Inr \<lparr>dpl_actions = map ActionDevice (selected @ [act']),
                    dpl_impact = impact\<lparr>im_scope := scope, im_restarts := [SvcDecoder, SvcFinder, SvcControl],
                      im_interruptions := im_interruptions impact
                        @ [new_interruption DDevice ''device video/audio/control'' None],
                      im_lines := im_lines impact @ [line]\<rparr>\<rparr>))"

section \<open>Tessera\<close>

definition tessera_invalid :: "string \<Rightarrow> api_error" where
  "tessera_invalid reason = invalid [new_field_error ''tessera'' reason]"

definition with_owned_locks :: "tessera \<Rightarrow> tessera" where
  "with_owned_locks t = t\<lparr>te_locks := fold (\<lambda>(k, v). bt_insert k v) owned_locks (te_locks t)\<rparr>"

definition tessera_imperative :: "command \<Rightarrow> bool" where
  "tessera_imperative c = (case c of TesseraService _ \<Rightarrow> True | _ \<Rightarrow> False)"

definition tessera_external_confirmation :: "command \<Rightarrow> bool" where
  "tessera_external_confirmation c =
     (\<not> backup_handles c \<and>
      \<not> (case c of TesseraService a \<Rightarrow> a = TesStart \<or> a = TesStop \<or> a = TesRestart | _ \<Rightarrow> False))"

definition set_tessera ::
  "(audio \<Rightarrow> tessera_device \<Rightarrow> (audio, api_error) result) \<Rightarrow> tessera \<Rightarrow> desired_state \<Rightarrow> (desired_state, api_error) result" where
  "set_tessera resize t0 st =
     (let t = with_owned_locks t0
      in bind_r
           (case ds_tessera st of
              None \<Rightarrow> Inr (t\<lparr>te_clock := clock_effective (te_clock t)\<rparr>)
            | Some before \<Rightarrow>
                if te_clock before \<noteq> te_clock t \<and> clock_conflicts (te_clock t)
                then Inl (invalid [new_field_error ''tessera.clock.priority''
                       (''a follower cannot be the Preferred Leader: use priority ''
                        @ dec (unat PREFERRED_LEADER_BELOW) @ '' or higher, or role auto'')])
                else Inr t) (\<lambda>t.
         bind_r
           (case ds_tessera st of
              Some before \<Rightarrow>
                if td_rx_channels (te_device before) \<noteq> td_rx_channels (te_device t) \<or>
                   td_tx_channels (te_device before) \<noteq> td_tx_channels (te_device t)
                then resize (ds_audio st) (te_device t) else Inr (ds_audio st)
            | None \<Rightarrow> Inr (ds_audio st)) (\<lambda>a.
         Inr (st\<lparr>ds_audio := a, ds_tessera := Some t\<rparr>))))"

definition set_label :: "u16 \<Rightarrow> string option \<Rightarrow> (u16, string) bmap \<Rightarrow> (u16, string) bmap" where
  "set_label channel label labels =
     (case label of Some l \<Rightarrow> bt_insert channel l labels | None \<Rightarrow> bt_remove channel labels)"

definition tessera_change ::
  "(audio \<Rightarrow> tessera_device \<Rightarrow> (audio, api_error) result) \<Rightarrow> desired_state \<Rightarrow> command \<Rightarrow> (desired_state, api_error) result" where
  "tessera_change resize st c =
     (case c of
        SetTessera t \<Rightarrow> set_tessera resize t st
      | PutTesseraFlows flows \<Rightarrow>
          bind_r (ok_or (ds_tessera st) (tessera_invalid ''Tessera is not configured'')) (\<lambda>t.
            Inr (st\<lparr>ds_tessera := Some (t\<lparr>te_flows := flows\<rparr>)\<rparr>))
      | SetTesseraLabel dir channel label \<Rightarrow>
          bind_r (ok_or (ds_tessera st) (tessera_invalid ''Tessera is not configured'')) (\<lambda>t.
            (let d = te_device t;
                 n = (case dir of Rx \<Rightarrow> td_rx_channels d | Tx \<Rightarrow> td_tx_channels d)
             in if channel = 0 \<or> n < channel then Inl (tessera_invalid ''invalid channel label'')
                else Inr (st\<lparr>ds_tessera := Some (t\<lparr>te_device :=
                       (case dir of
                          Rx \<Rightarrow> d\<lparr>td_rx_labels := set_label channel label (td_rx_labels d)\<rparr>
                        | Tx \<Rightarrow> d\<lparr>td_tx_labels := set_label channel label (td_tx_labels d)\<rparr>)\<rparr>)\<rparr>)))
      | RestoreTessera t a \<Rightarrow>
          if au_engine a \<noteq> au_engine (ds_audio st) \<or> au_settings a \<noteq> au_settings (ds_audio st) \<or>
             au_video_delay_ms a \<noteq> au_video_delay_ms (ds_audio st)
          then Inl (tessera_invalid ''Tessera restore cannot change decoder engine settings; use the audio command'')
          else Inr (st\<lparr>ds_tessera := Some (with_owned_locks t), ds_audio := a\<rparr>)
      | TesseraService _ \<Rightarrow> Inr st
      | _ \<Rightarrow> Inl (tessera_invalid ''command does not belong to Tessera''))"

definition rx_source_fits :: "tessera_device \<Rightarrow> audio_source \<Rightarrow> bool" where
  "rx_source_fits d s =
     (aso_enabled s \<and> aso_resource s = ''tessera:main:rx'' \<longrightarrow>
      aso_channel_start s + ucast (aso_channels s) - 1 \<le> ucast (td_rx_channels d))"

definition tx_sink_fits :: "tessera_device \<Rightarrow> audio_sink \<Rightarrow> bool" where
  "tx_sink_fits d s =
     (asi_enabled s \<and> asi_resource s = ''tessera:main:tx'' \<longrightarrow>
      asi_channel_start s + ucast (asi_channels s) - 1 \<le> ucast (td_tx_channels d))"

definition tessera_fits :: "desired_state \<Rightarrow> (unit, api_error) result" where
  "tessera_fits st =
     (case ds_tessera st of
        None \<Rightarrow> Inr ()
      | Some t \<Rightarrow>
          if (case te_network_binding t of
                None \<Rightarrow> False
              | Some binding \<Rightarrow>
                  binding \<noteq> nr_audio (nps_roles (ds_network st)) \<or>
                  \<not> list_ex (\<lambda>n. np_id n = binding) (nps_networks (ds_network st)))
          then Inl (tessera_invalid ''Tessera binding must reference the adopted audio network role'')
          else if \<not> list_all (rx_source_fits (te_device t)) (bt_values (au_sources (ds_audio st)))
          then Inl (tessera_invalid ''active RX endpoint exceeds Tessera channels'')
          else if \<not> list_all (tx_sink_fits (te_device t)) (bt_values (au_sinks (ds_audio st)))
          then Inl (tessera_invalid ''active TX endpoint exceeds Tessera channels'')
          else Inr ())"

definition tessera_reduce ::
  "(audio \<Rightarrow> tessera_device \<Rightarrow> (audio, api_error) result) \<Rightarrow> desired_state \<Rightarrow> command \<Rightarrow> (desired_state, api_error) result" where
  "tessera_reduce resize st c =
     (if \<not> (case bt_get (ds_plugins st) ''tessera'' of Some p \<Rightarrow> pl_installed p | None \<Rightarrow> False)
      then Inl (Unsupported ''Tessera plugin is not installed'')
      else bind_r (tessera_change resize st c) (\<lambda>st.
           bind_r (tessera_fits st) (\<lambda>_. Inr st)))"

primrec tessera_action_debug :: "tessera_service_action \<Rightarrow> string" where
  "tessera_action_debug TesStart = ''Start''"
| "tessera_action_debug TesStop = ''Stop''"
| "tessera_action_debug TesRestart = ''Restart''"
| "tessera_action_debug TesReload = ''Reload''"

definition service_plan :: "command \<Rightarrow> (domain_plan, api_error) result" where
  "service_plan c =
     (case c of
        TesseraService a \<Rightarrow>
          Inr \<lparr>dpl_actions = [ActionTessera (TesseraServiceAct a)],
               dpl_impact =
                 (if a = TesStop \<or> a = TesRestart
                  then default_impact\<lparr>im_scope := ScopeService, im_restarts := [SvcTessera],
                         im_lines := [''Tessera service '' @ tessera_action_debug a @ ''; interrupts network audio''],
                         im_interruptions := [new_interruption DTessera ''Tessera network audio'' None]\<rparr>
                  else default_impact)\<rparr>
      | _ \<Rightarrow> Inr default_domain_plan)"

definition tessera_disruptive :: "tessera option \<Rightarrow> tessera option \<Rightarrow> bool" where
  "tessera_disruptive previous next' =
     (case (previous, next') of
        (Some a, Some b) \<Rightarrow>
          te_flows a \<noteq> te_flows b
          \<or> td_sample_rate (te_device a) \<noteq> td_sample_rate (te_device b)
          \<or> td_encoding (te_device a) \<noteq> td_encoding (te_device b)
          \<or> td_latency_us (te_device a) \<noteq> td_latency_us (te_device b)
          \<or> td_rx_channels (te_device a) \<noteq> td_rx_channels (te_device b)
          \<or> td_tx_channels (te_device a) \<noteq> td_tx_channels (te_device b)
      | _ \<Rightarrow> True)"

definition tessera_plan :: "desired_state \<Rightarrow> desired_state \<Rightarrow> command \<Rightarrow> (domain_plan, api_error) result" where
  "tessera_plan previous next' c =
     (if ds_tessera previous = ds_tessera next' then service_plan c
      else Inr \<lparr>dpl_actions = [ActionTessera TesseraReload],
                dpl_impact =
                  (if tessera_disruptive (ds_tessera previous) (ds_tessera next')
                   then default_impact\<lparr>im_scope := ScopeService, im_restarts := [SvcTessera],
                          im_interruptions := [new_interruption DTessera ''Tessera network audio'' None],
                          im_lines := [''Reload Tessera device geometry or flows; network audio pauses and audio clients may detach'']\<rparr>
                   else default_impact)\<rparr>)"

section \<open>Network\<close>

definition network_imperative :: "command \<Rightarrow> bool" where
  "network_imperative c =
     (case c of StageNetwork _ \<Rightarrow> True | ConfirmNetwork _ \<Rightarrow> True | RevertNetwork _ \<Rightarrow> True | RollbackNetwork \<Rightarrow> True
        | AcceptNetworkRecovery \<Rightarrow> True | PrepareNetworkHandoff \<Rightarrow> True | CancelNetworkHandoff _ \<Rightarrow> True
        | ImportNetworkHandoff _ \<Rightarrow> True | CommitNetworkHandoff _ \<Rightarrow> True | _ \<Rightarrow> False)"

definition network_reduce :: "desired_state \<Rightarrow> command \<Rightarrow> (desired_state, api_error) result" where
  "network_reduce st c =
     (case c of
        StageNetwork profiles \<Rightarrow>
          (let previous = (if nps_backend (ds_network st) = None then profiles else ds_network st)
           in bind_r (engine_validate profiles previous) (\<lambda>_. Inr st))
      | _ \<Rightarrow> Inr st)"

definition network_plan :: "desired_state \<Rightarrow> desired_state \<Rightarrow> command \<Rightarrow> (domain_plan, api_error) result" where
  "network_plan previous next' c =
     Inr \<lparr>dpl_actions = [ActionNetwork
            (case c of StageNetwork _ \<Rightarrow> NetworkStage | ConfirmNetwork _ \<Rightarrow> NetworkConfirm | _ \<Rightarrow> NetworkRecover)],
          dpl_impact = default_impact\<rparr>"

section \<open>Audio\<close>

record audio_env =
  an_rebuild :: "audio \<Rightarrow> output_id \<Rightarrow> (audio, string) result"
  an_compile :: "desired_state \<Rightarrow> output_id \<Rightarrow> output_audio \<Rightarrow> bool \<Rightarrow> (audio, api_error) result"
  an_resize :: "audio \<Rightarrow> tessera_device \<Rightarrow> (audio, api_error) result"

definition audio_invalid :: "string \<Rightarrow> api_error" where
  "audio_invalid reason = invalid [new_field_error ''audio'' reason]"

definition audio_primary :: "audio \<Rightarrow> output_id" where
  "audio_primary a = (case find (\<lambda>(_, out). oa_primary out) (au_outputs a) of Some (i, _) \<Rightarrow> i | None \<Rightarrow> 1)"

definition sync_v1 :: "audio_env \<Rightarrow> audio \<Rightarrow> (audio, api_error) result" where
  "sync_v1 an a =
     (if au_engine a \<noteq> V1 \<or> \<not> bt_contains (au_sources a) ''ndi'' then Inr a
      else
        (let p = audio_primary a
         in bind_r (map_err audio_invalid (an_rebuild an a p)) (\<lambda>derived.
            bind_r (ok_or (bt_get (au_outputs derived) p) (audio_invalid ''primary audio output missing'')) (\<lambda>out.
              Inr (a\<lparr>au_outputs := bt_insert p out (au_outputs a),
                     au_routes := fold (\<lambda>(k, r). bt_insert k r) (au_routes derived)
                                    (filter (\<lambda>(_, r). ar_output r \<noteq> p) (au_routes a))\<rparr>)))))"

definition map_outputs :: "(output_audio \<Rightarrow> output_audio) \<Rightarrow> audio \<Rightarrow> audio" where
  "map_outputs f a = a\<lparr>au_outputs := map (\<lambda>(i, out). (i, f out)) (au_outputs a)\<rparr>"

definition put_source :: "audio_env \<Rightarrow> string \<Rightarrow> audio_source \<Rightarrow> audio \<Rightarrow> (audio, api_error) result" where
  "put_source an i src a =
     (let old = bt_get (au_sources a) i;
          renew = (\<lambda>out. out\<lparr>oa_definitions := (oa_definitions out)\<lparr>adf_sources :=
             map (\<lambda>(alias, d). (alias,
                  if alias = i \<or> (case old of Some s \<Rightarrow> aso_endpoint s = aso_endpoint d | None \<Rightarrow> False) then src else d))
               (adf_sources (oa_definitions out))\<rparr>\<rparr>)
      in sync_v1 an (map_outputs renew (a\<lparr>au_sources := bt_insert i src (au_sources a)\<rparr>)))"

definition put_sink :: "audio_env \<Rightarrow> string \<Rightarrow> audio_sink \<Rightarrow> audio \<Rightarrow> (audio, api_error) result" where
  "put_sink an i snk a =
     (let old = bt_get (au_sinks a) i;
          renew = (\<lambda>out. out\<lparr>oa_definitions := (oa_definitions out)\<lparr>adf_sinks :=
             map (\<lambda>(alias, d). (alias,
                  if alias = i \<or> (case old of Some s \<Rightarrow> asi_endpoint s = asi_endpoint d | None \<Rightarrow> False) then snk else d))
               (adf_sinks (oa_definitions out))\<rparr>\<rparr>)
      in sync_v1 an (map_outputs renew (a\<lparr>au_sinks := bt_insert i snk (au_sinks a)\<rparr>)))"

definition remove_endpoints :: "string list \<Rightarrow> audio \<Rightarrow> audio" where
  "remove_endpoints ids a =
     (let sources = filter (\<lambda>(i, n). i \<notin> set ids \<and> \<not> (''net-in'' \<in> set ids \<and> aso_resource n = ''tessera:main:rx'')) (au_sources a);
          sinks = map (\<lambda>(i, n). (i, n\<lparr>asi_mix := filter (\<lambda>(m, _). m \<notin> set ids) (asi_mix n)\<rparr>))
                    (filter (\<lambda>(i, n). i \<notin> set ids \<and> \<not> (''net-out'' \<in> set ids \<and> asi_resource n = ''tessera:main:tx'')) (au_sinks a));
          routes = filter (\<lambda>(_, r). bt_contains sources (ar_source r) \<and> bt_contains sinks (ar_sink r)) (au_routes a);
          settings = au_settings a;
          master = (if bt_contains sinks (as_master settings) then as_master settings
                    else case bt_keys sinks of k # _ \<Rightarrow> k | [] \<Rightarrow> [])
      in a\<lparr>au_sources := sources, au_sinks := sinks, au_routes := routes,
           au_settings := settings\<lparr>as_master := master\<rparr>\<rparr>)"

definition audio_reduce :: "audio_env \<Rightarrow> desired_state \<Rightarrow> command \<Rightarrow> (desired_state, api_error) result" where
  "audio_reduce an st c =
     (let with_audio = (\<lambda>r. bind_r r (\<lambda>a. Inr (st\<lparr>ds_audio := a\<rparr>)))
      in case c of
           PutAudio a \<Rightarrow> Inr (st\<lparr>ds_audio := a\<rparr>)
         | SetAudioEngine engine \<Rightarrow> Inr (st\<lparr>ds_audio := (ds_audio st)\<lparr>au_engine := engine\<rparr>\<rparr>)
         | PutAudioSource i src \<Rightarrow> with_audio (put_source an i src (ds_audio st))
         | PutAudioSink i snk \<Rightarrow> with_audio (put_sink an i snk (ds_audio st))
         | RemoveAudioEndpoints ids \<Rightarrow>
             if list_ex (\<lambda>i. i = ''ndi'' \<or> i = ''hdmi'') ids
             then Inl (invalid [new_field_error ''ids'' ''reserved audio ids cannot be removed''])
             else with_audio (sync_v1 an (remove_endpoints ids (ds_audio st)))
         | ImportBackup doc scope \<Rightarrow>
             if scope = RestoreAudio then Inr (st\<lparr>ds_audio := ds_audio (bd_document doc)\<rparr>) else Inl followed_error
         | PutOutputAudio out choice flatten \<Rightarrow>
             with_audio (bind_r (an_compile an st out choice flatten) (\<lambda>a. Inr (a\<lparr>au_engine := V2\<rparr>)))
         | _ \<Rightarrow> Inl followed_error)"

definition audio_plan :: "desired_state \<Rightarrow> desired_state \<Rightarrow> command \<Rightarrow> (domain_plan, api_error) result" where
  "audio_plan previous next' c =
     (let a = ds_audio previous; b = ds_audio next';
          engine = (au_engine a \<noteq> au_engine b);
          restart = (engine \<or> (au_engine b = V1 \<and>
                       (as_period_frames (au_settings a) \<noteq> as_period_frames (au_settings b) \<or>
                        as_master (au_settings a) \<noteq> as_master (au_settings b))))
      in Inr
        \<lparr>dpl_actions = map ActionAudio
           ((if 0 < au_video_delay_ms b \<and>
                (au_video_delay_ms a \<noteq> au_video_delay_ms b \<or>
                 as_memory_budget_mib (au_settings a) \<noteq> as_memory_budget_mib (au_settings b))
             then [CheckAudio] else [])
            @ (case c of
                 RemoveAudioEndpoints _ \<Rightarrow> []
               | SetAudioEngine e \<Rightarrow> if e = V1 then [] else [PreparePcms]
               | _ \<Rightarrow> [PreparePcms])
            @ [RenderAudio] @ [if restart then RestartDecoder else ReloadAudio]),
         dpl_impact =
           (if restart
            then default_impact\<lparr>im_scope := ScopeService, im_restarts := [SvcDecoder],
                   im_interruptions := [new_interruption DAudio ''decoder video/audio'' (Some 3000)],
                   im_lines :=
                     (if engine
                      then [if au_engine b = V1
                            then ''Return to audio engine v1; per-output network audio routes become inactive''
                            else ''Switch to audio engine v2, which per-output audio routes need''] else [])
                     @ [''Restart the decoder; video and audio pause briefly'']\<rparr>
            else default_impact)\<rparr>)"

section \<open>The registry of the appliance\<close>

record 'w module_params =
  mp_printer :: doc_printer
  mp_audio :: audio_env
  mp_update :: update_env
  mp_plugins :: "'w plugin_env"
  mp_runtime :: "domain \<Rightarrow> 'w domain_module"

definition with_planner :: "planner_module \<Rightarrow> 'w domain_module \<Rightarrow> 'w domain_module" where
  "with_planner pm m =
     m\<lparr>dm_imperative := dm_imperative pm, dm_external_confirmation := dm_external_confirmation pm,
       dm_reduce := dm_reduce pm, dm_plan := dm_plan pm\<rparr>"

text \<open>The hooks that only look at the device; none of the seven other hooks is overridden outside the
  plugin module.\<close>

definition with_hooks :: "'w domain_module \<Rightarrow> 'w domain_module \<Rightarrow> 'w domain_module" where
  "with_hooks rt m =
     m\<lparr>dm_guard := dm_guard rt, dm_operation_observed := dm_operation_observed rt,
       dm_validate_assets := dm_validate_assets rt, dm_query := dm_query rt,
       dm_observe_state := dm_observe_state rt, dm_live_checked := dm_live_checked rt\<rparr>"

definition domain_planner :: "'w module_params \<Rightarrow> domain \<Rightarrow> planner_module" where
  "domain_planner mp d =
     (case d of
        DNetwork \<Rightarrow> \<lparr>dm_imperative = network_imperative, dm_external_confirmation = (\<lambda>_. True),
                     dm_reduce = network_reduce, dm_plan = network_plan\<rparr>
      | DTessera \<Rightarrow> \<lparr>dm_imperative = tessera_imperative, dm_external_confirmation = tessera_external_confirmation,
                     dm_reduce = tessera_reduce (an_resize (mp_audio mp)), dm_plan = tessera_plan\<rparr>
      | DAudio \<Rightarrow> default_planner_module\<lparr>dm_reduce := audio_reduce (mp_audio mp), dm_plan := audio_plan\<rparr>
      | DDevice \<Rightarrow> default_planner_module\<lparr>dm_imperative := device_imperative,
                     dm_reduce := device_reduce (mp_update mp), dm_plan := device_plan\<rparr>
      | DOutputs \<Rightarrow> default_planner_module\<lparr>dm_imperative := outputs_imperative,
                     dm_reduce := outputs_reduce (mp_printer mp), dm_plan := outputs_plan\<rparr>
      | DNdi \<Rightarrow> default_planner_module\<lparr>dm_imperative := ndi_imperative, dm_reduce := ndi_reduce, dm_plan := ndi_plan\<rparr>
      | DDisplay \<Rightarrow> default_planner_module\<lparr>dm_reduce := display_reduce, dm_plan := display_plan\<rparr>
      | DPresets \<Rightarrow> default_planner_module\<lparr>dm_reduce := presets_reduce, dm_plan := presets_plan\<rparr>
      | DPlugins \<Rightarrow> default_planner_module\<lparr>dm_imperative := (\<lambda>_. True), dm_reduce := plugin_reduce, dm_plan := plugin_plan\<rparr>)"

definition native_modules :: "'w module_params \<Rightarrow> domain \<Rightarrow> 'w domain_module" where
  "native_modules mp d =
     (if d = DPlugins then plugins_module (mp_plugins mp)
      else with_hooks (mp_runtime mp d) (with_planner (domain_planner mp d) default_domain_module))"

lemma native_hooks:
  assumes "d \<noteq> DPlugins"
  shows "dm_prepare (native_modules mp d) = (\<lambda>_ n _. Inr n)"
    "dm_reservation (native_modules mp d) = (\<lambda>_ _. None)"
    "dm_release_reservation (native_modules mp d) = (\<lambda>s _. s)"
    "dm_accepted (native_modules mp d) = (\<lambda>_ n _ v. Inr (False, n, v))"
    "dm_completion (native_modules mp d) = (\<lambda>_ _. Inr None)"
    "dm_completed (native_modules mp d) = (\<lambda>s _. Inr s)"
  using assms
  by (simp_all add: native_modules_def with_hooks_def with_planner_def default_domain_module_def planner_module.extend_def)

lemma plugin_hooks:
  "dm_prepare (native_modules mp DPlugins) = plugin_prepare (mp_plugins mp)"
  "dm_reservation (native_modules mp DPlugins) = plugin_reservation"
  "dm_release_reservation (native_modules mp DPlugins) = plugin_release"
  "dm_accepted (native_modules mp DPlugins) = plugin_accepted"
  "dm_completion (native_modules mp DPlugins) = plugin_completion (mp_plugins mp)"
  "dm_completed (native_modules mp DPlugins) = plugin_completed (mp_plugins mp)"
  by (simp_all add: native_modules_def plugins_module_def)

interpretation native: governed_modules "native_modules mp"
proof
  fix k s n c n' reason v ch v' p
  show "dm_prepare (native_modules mp k) s n c = Inr n' \<Longrightarrow> intent n' = intent n"
    using plugin_prepare_intent by (cases "k = DPlugins") (simp_all add: native_hooks plugin_hooks)
  show "dm_reservation (native_modules mp k) s n = Some n' \<Longrightarrow> intent n' = intent s"
    using plugin_reservation_intent by (cases "k = DPlugins") (simp_all add: native_hooks plugin_hooks)
  show "intent (dm_release_reservation (native_modules mp k) s reason) = intent s"
    using plugin_release_intent by (cases "k = DPlugins") (simp_all add: native_hooks plugin_hooks)
  show "dm_accepted (native_modules mp k) s n c v = Inr (ch, n', v') \<Longrightarrow> intent n' = intent n"
    using plugin_accepted_intent by (cases "k = DPlugins") (simp_all add: native_hooks plugin_hooks)
  show "dm_completion (native_modules mp k) s v = Inr (Some (n, p)) \<Longrightarrow> numbers n = numbers s"
    using plugin_completion_numbers by (cases "k = DPlugins") (simp_all add: native_hooks plugin_hooks)
  show "dm_completed (native_modules mp k) s v = Inr n \<Longrightarrow> intent n = intent s"
    using plugin_completed_intent by (cases "k = DPlugins") (simp_all add: native_hooks plugin_hooks)
qed

end
