(* ===== verification/Domain_Theorems.thy ===== *)
theory Domain_Theorems
  imports Domain_Modules
begin

text \<open>
  What the domain modules promise the planner and the document: which sections a command may change, that
  no restart goes unannounced, that Tessera's ownership locks cannot be dropped, that a device change is
  normalised once and for all, and that preset positions stay distinct.
\<close>

section \<open>Sections\<close>

definition same_section :: "domain \<Rightarrow> desired_state \<Rightarrow> desired_state \<Rightarrow> bool" where
  "same_section d a b =
     (case d of
        DNetwork \<Rightarrow> ds_network a = ds_network b
      | DTessera \<Rightarrow> ds_tessera a = ds_tessera b
      | DAudio \<Rightarrow> ds_audio a = ds_audio b
      | DDevice \<Rightarrow> ds_device a = ds_device b
      | DOutputs \<Rightarrow> ds_outputs a = ds_outputs b
      | DNdi \<Rightarrow> ds_ndi a = ds_ndi b
      | DDisplay \<Rightarrow> ds_display a = ds_display b
      | DPresets \<Rightarrow> ds_presets a = ds_presets b
      | DPlugins \<Rightarrow> ds_plugins a = ds_plugins b)"

definition touched :: "command \<Rightarrow> domain list" where
  "touched c =
     (case c of
        PutOutputSettings _ n enabled \<Rightarrow>
          DOutputs # (if n = None then [] else [DNdi]) @ (if enabled = [] then [] else [DAudio])
      | SetTessera _ \<Rightarrow> [DTessera, DAudio]
      | RestoreTessera _ _ \<Rightarrow> [DTessera, DAudio]
      | _ \<Rightarrow> (case command_domain c of None \<Rightarrow> [] | Some d \<Rightarrow> if d = DNetwork then [] else [d]))"

definition frames :: "domain set \<Rightarrow> desired_state \<Rightarrow> desired_state \<Rightarrow> bool" where
  "frames D a b =
     (ds_schema_version a = ds_schema_version b \<and> ds_revision a = ds_revision b \<and>
      (\<forall>d. d \<notin> D \<longrightarrow> same_section d a b))"

lemma same_section_refl [simp]: "same_section d a a"
  by (cases d) (simp_all add: same_section_def)

lemma same_section_trans: "same_section d a b \<Longrightarrow> same_section d b c \<Longrightarrow> same_section d a c"
  by (cases d) (simp_all add: same_section_def)

lemma frames_refl [simp]: "frames D a a"
  by (simp add: frames_def)

lemma frames_trans: "frames D a b \<Longrightarrow> frames E b c \<Longrightarrow> D \<subseteq> F \<Longrightarrow> E \<subseteq> F \<Longrightarrow> frames F a c"
  using same_section_trans by (fastforce simp: frames_def)

lemma frames_mono: "D \<subseteq> E \<Longrightarrow> frames D a b \<Longrightarrow> frames E a b"
  by (auto simp: frames_def)

lemma frames_update [intro!, simp]:
  "DPresets \<in> D \<Longrightarrow> frames D st (st\<lparr>ds_presets := x1\<rparr>)"
  "DNdi \<in> D \<Longrightarrow> frames D st (st\<lparr>ds_ndi := x2\<rparr>)"
  "DDisplay \<in> D \<Longrightarrow> frames D st (st\<lparr>ds_display := x3\<rparr>)"
  "DOutputs \<in> D \<Longrightarrow> frames D st (st\<lparr>ds_outputs := x4\<rparr>)"
  "DAudio \<in> D \<Longrightarrow> frames D st (st\<lparr>ds_audio := x5\<rparr>)"
  "DDevice \<in> D \<Longrightarrow> frames D st (st\<lparr>ds_device := x6\<rparr>)"
  "DTessera \<in> D \<Longrightarrow> frames D st (st\<lparr>ds_tessera := x7\<rparr>)"
  "DPlugins \<in> D \<Longrightarrow> frames D st (st\<lparr>ds_plugins := x8\<rparr>)"
  by (auto simp: frames_def same_section_def split: domain.splits)

lemma frames_two [intro!, simp]:
  "DTessera \<in> D \<Longrightarrow> DAudio \<in> D \<Longrightarrow> frames D st (st\<lparr>ds_audio := x, ds_tessera := y\<rparr>)"
  by (auto simp: frames_def same_section_def split: domain.splits)

lemma try_fold_frames:
  assumes "\<And>x a b. f x a = Inr b \<Longrightarrow> frames D a b"
  shows "try_fold f xs a = Inr b \<Longrightarrow> frames D a b"
proof (induction xs arbitrary: a)
  case (Cons x xs)
  then show ?case
    using assms frames_trans [of D _ _ D _ D] by (fastforce simp: bind_r_eq_Inr)
qed simp

lemma output_entry_frames: "output_entry i f st = Inr st' \<Longrightarrow> DOutputs \<in> D \<Longrightarrow> frames D st st'"
  by (auto simp: output_entry_def split: if_splits)

lemma put_audio_frames: "put_audio_enabled e st = Inr st' \<Longrightarrow> frames {DOutputs, DAudio} st st'"
proof -
  assume "put_audio_enabled e st = Inr st'"
  then obtain i b st1 where "output_entry i (\<lambda>out. out) st = Inr st1"
      "st' = st1 \<or> (\<exists>a. st' = st1\<lparr>ds_audio := a\<rparr>)"
    by (auto simp: put_audio_enabled_def bind_r_eq_Inr split: prod.splits option.splits if_splits)
  then show ?thesis
    using output_entry_frames [of i "\<lambda>out. out" st st1 "{DOutputs, DAudio}"]
      frames_trans [of "{DOutputs, DAudio}" st st1 "{DOutputs, DAudio}" st' "{DOutputs, DAudio}"] by auto
qed

lemma outputs_settings_frames:
  assumes "outputs_reduce dp st (PutOutputSettings outs n enabled) = Inr st'"
  shows "frames (set (touched (PutOutputSettings outs n enabled))) st st'"
proof -
  let ?D = "set (touched (PutOutputSettings outs n enabled))"
  obtain st1 where one: "try_fold (\<lambda>(i, out) st. output_entry i (\<lambda>_. out) st) outs st = Inr st1"
    and rest: "try_fold put_audio_enabled enabled (case n of Some n \<Rightarrow> st1\<lparr>ds_ndi := n\<rparr> | None \<Rightarrow> st1) = Inr st'"
    using assms by (auto simp: outputs_reduce_def bind_r_eq_Inr)
  have D: "{DOutputs} \<subseteq> ?D"
    by (simp add: touched_def)
  have "frames {DOutputs} st st1"
    by (rule try_fold_frames [OF _ one]) (auto intro: output_entry_frames split: prod.splits)
  moreover have "frames ?D st1 (case n of Some n \<Rightarrow> st1\<lparr>ds_ndi := n\<rparr> | None \<Rightarrow> st1)"
    by (auto simp: touched_def split: option.split)
  moreover have "frames ?D (case n of Some n \<Rightarrow> st1\<lparr>ds_ndi := n\<rparr> | None \<Rightarrow> st1) st'"
  proof (cases "enabled = []")
    case False
    then have "{DOutputs, DAudio} \<subseteq> ?D"
      by (auto simp: touched_def)
    then show ?thesis
      by (rule frames_mono) (rule try_fold_frames [OF put_audio_frames rest])
  qed (use rest in simp)
  ultimately show ?thesis
    by (meson D frames_trans order_refl)
qed

definition wide :: "command \<Rightarrow> bool" where
  "wide c = (case c of PutOutputSettings _ _ _ \<Rightarrow> True | SetTessera _ \<Rightarrow> True | RestoreTessera _ _ \<Rightarrow> True | _ \<Rightarrow> False)"

lemma touched_other:
  "\<not> wide c \<Longrightarrow> touched c = (case command_domain c of None \<Rightarrow> [] | Some d \<Rightarrow> if d = DNetwork then [] else [d])"
  by (cases c) (simp_all add: touched_def wide_def)

lemma outputs_frames:
  assumes "outputs_reduce dp st c = Inr st'" "command_domain c = Some DOutputs"
  shows "frames (set (touched c)) st st'"
proof (cases "\<exists>outs n enabled. c = PutOutputSettings outs n enabled")
  case True
  then show ?thesis
    using assms(1) outputs_settings_frames by blast
next
  case False
  have "\<not> wide c"
    using False assms(1) by (cases c) (auto simp: outputs_reduce_def wide_def)
  then have "set (touched c) = {DOutputs}"
    using touched_other [of c] assms(2) by simp
  moreover have "frames {DOutputs} st st'"
    using False assms(1) by (cases c) (auto simp: outputs_reduce_def intro: output_entry_frames split: if_splits)
  ultimately show ?thesis
    by simp
qed

lemma device_frames: "device_reduce ue st c = Inr st' \<Longrightarrow> \<not> wide c \<and> frames {DDevice} st st'"
  by (cases c) (auto simp: device_reduce_def wide_def bind_r_eq_Inr)

lemma ndi_frames: "ndi_reduce st c = Inr st' \<Longrightarrow> \<not> wide c \<and> frames {DNdi} st st'"
  by (cases c) (auto simp: ndi_reduce_def wide_def)

lemma display_frames: "display_reduce st c = Inr st' \<Longrightarrow> \<not> wide c \<and> frames {DDisplay} st st'"
  by (cases c) (auto simp: display_reduce_def wide_def split: if_splits)

lemma presets_frames: "presets_reduce st c = Inr st' \<Longrightarrow> \<not> wide c \<and> frames {DPresets} st st'"
  by (cases c) (auto simp: presets_reduce_def wide_def Let_def)

lemma audio_frames: "audio_reduce an st c = Inr st' \<Longrightarrow> \<not> wide c \<and> frames {DAudio} st st'"
  by (cases c) (auto simp: audio_reduce_def wide_def Let_def bind_r_eq_Inr split: if_splits)

lemma plugin_frames: "plugin_reduce st c = Inr st' \<Longrightarrow> \<not> wide c \<and> frames {DPlugins} st st'"
proof (cases c)
  case (SetPluginEnabled n enabled version)
  moreover assume "plugin_reduce st c = Inr st'"
  ultimately obtain st1 where "st1 = st \<or> (\<exists>m. st1 = st\<lparr>ds_plugins := m\<rparr>)" "\<exists>m. st' = st1\<lparr>ds_plugins := m\<rparr>"
    by (auto simp: plugin_reduce_def enable_entry_def bind_r_eq_Inr split: if_splits)
  then show ?thesis
    using SetPluginEnabled by (auto simp: wide_def)
qed (auto simp: plugin_reduce_def install_entry_def wide_def bind_r_eq_Inr Let_def split: if_splits)

lemma network_frames: "network_reduce st c = Inr st' \<Longrightarrow> st' = st"
  by (cases c) (auto simp: network_reduce_def bind_r_eq_Inr Let_def)

lemma set_tessera_frames: "set_tessera resize t st = Inr st' \<Longrightarrow> frames {DTessera, DAudio} st st'"
  by (auto simp: set_tessera_def Let_def bind_r_eq_Inr)

lemma tessera_frames:
  assumes "tessera_reduce resize st c = Inr st'" "command_domain c = Some DTessera"
  shows "frames (set (touched c)) st st'"
proof -
  have change: "tessera_change resize st c = Inr st'"
    using assms(1) by (auto simp: tessera_reduce_def bind_r_eq_Inr split: if_splits)
  show ?thesis
  proof (cases "wide c")
    case True
    then have "touched c = [DTessera, DAudio]"
      using change by (cases c) (auto simp: wide_def touched_def tessera_change_def)
    moreover have "frames {DTessera, DAudio} st st'"
      using True change set_tessera_frames
      by (cases c) (auto simp: wide_def tessera_change_def frames_def same_section_def split: if_splits domain.splits)
    ultimately show ?thesis
      by simp
  next
    case False
    then have "touched c = [DTessera]"
      using touched_other assms(2) by simp
    then show ?thesis
      using False change
      by (cases c) (auto simp: wide_def tessera_change_def bind_r_eq_Inr Let_def split: if_splits)
  qed
qed

lemma native_planner:
  "dm_reduce (native_modules mp d) = dm_reduce (domain_planner mp d)"
  "dm_plan (native_modules mp d) = dm_plan (domain_planner mp d)"
  by (cases d; simp add: native_modules_def with_hooks_def with_planner_def domain_planner_def plugins_module_def)+

text \<open>
  C15: A command changes only what it names: through the appliance's own modules it leaves the revision, the
  schema and every section but its domain's own as they were. The exceptions are listed by \<open>touched\<close>: the
  settings page of the outputs may change the NDI section when it sends one and audio switches when it
  sends some, and Tessera geometry carries legacy audio with it. No command of the network domain changes
  the document at all: network intent is committed by the network engine alone.
\<close>

theorem commands_keep_to_their_sections:
  assumes "reduce dp (native_modules mp) st c = Inr st'" "\<not> backup_handles c"
  shows "ds_revision st' = ds_revision st \<and> ds_schema_version st' = ds_schema_version st
    \<and> (\<forall>d. d \<notin> set (touched c) \<longrightarrow> same_section d st st') \<and> DNetwork \<notin> set (touched c)"
proof -
  obtain d where d: "command_domain c = Some d" "dm_reduce (domain_planner mp d) st c = Inr st'"
    using assms
    by (auto simp: reduce_def bind_r_eq_Inr ok_or_def registration_of native_planner ownership_native split: option.splits)
  have own: "frames {d} st st' \<Longrightarrow> \<not> wide c \<Longrightarrow> d \<noteq> DNetwork \<Longrightarrow> frames (set (touched c)) st st'"
    using touched_other d(1) by simp
  have "frames (set (touched c)) st st'"
  proof (cases d)
    case DOutputs
    then show ?thesis
      using d outputs_frames by (simp add: domain_planner_def)
  next
    case DTessera
    then show ?thesis
      using d tessera_frames by (simp add: domain_planner_def)
  next
    case DNetwork
    then have "st' = st"
      using d(2) by (intro network_frames) (simp add: domain_planner_def)
    then show ?thesis
      by simp
  qed (use own d(2) device_frames ndi_frames display_frames presets_frames audio_frames plugin_frames
       in \<open>auto simp: domain_planner_def\<close>)
  moreover have "DNetwork \<notin> set (touched c)"
  proof (cases "wide c")
    case True
    then show ?thesis
      by (cases c) (auto simp: wide_def touched_def)
  qed (use touched_other d(1) in simp)
  ultimately show ?thesis
    by (simp add: frames_def)
qed

theorem commands_keep_to_their_sections_witness:
  "\<forall>dp mp. \<exists>st'. reduce dp (native_modules mp) default_desired_state (SetNdi default_ndi) = Inr st'
     \<and> same_section DAudio default_desired_state st'"
proof (intro allI)
  fix dp mp
  have red: "reduce dp (native_modules mp) default_desired_state (SetNdi default_ndi)
      = Inr (default_desired_state\<lparr>ds_ndi := default_ndi\<rparr>)"
    by (simp add: reduce_def backup_handles_def command_domain_def COMMAND_ROUTES_def registration_of ownership_native
        native_planner domain_planner_def ndi_reduce_def ok_or_def)
  have "DAudio \<notin> set (touched (SetNdi default_ndi))"
    by (simp add: touched_def command_domain_def COMMAND_ROUTES_def)
  then show "\<exists>st'. reduce dp (native_modules mp) default_desired_state (SetNdi default_ndi) = Inr st'
     \<and> same_section DAudio default_desired_state st'"
    using commands_keep_to_their_sections [OF red] red by (simp add: backup_handles_def)
qed

section \<open>Announced restarts\<close>

text \<open>The services that carrying out an action stops or restarts, read off the modules' \<open>apply\<close>.\<close>

definition action_restarts :: "action \<Rightarrow> service list" where
  "action_restarts a =
     (case a of
        ActionNdi NdiRestartDecoder \<Rightarrow> [SvcDecoder]
      | ActionNdi NdiRefresh \<Rightarrow> [SvcFinder]
      | ActionAudio RestartDecoder \<Rightarrow> [SvcDecoder]
      | ActionDevice DeviceReboot \<Rightarrow> [SvcDecoder, SvcFinder, SvcControl]
      | ActionDevice DeviceRestartStack \<Rightarrow> [SvcDecoder, SvcFinder, SvcControl]
      | ActionDevice (DeviceInstallUpdate _ _) \<Rightarrow> [SvcDecoder, SvcFinder, SvcControl]
      | ActionDevice (DeviceServiceControl s act') \<Rightarrow> if act' = ActReload then [] else [s]
      | ActionTessera (TesseraServiceAct act') \<Rightarrow> if act' = TesStop \<or> act' = TesRestart then [SvcTessera] else []
      | _ \<Rightarrow> [])"

text \<open>A plugin's own services and jobs are announced as an interruption that names them.\<close>

definition plugin_told :: "impact \<Rightarrow> plugin_action \<Rightarrow> bool" where
  "plugin_told i x =
     (x = PluginsRestore \<or>
      (\<exists>resource line. plugin_interruption x = Some (resource, line) \<and> new_interruption DPlugins resource None \<in> set (im_interruptions i)))"

definition announced :: "impact \<Rightarrow> action \<Rightarrow> bool" where
  "announced i a =
     (set (action_restarts a) \<subseteq> set (im_restarts i)
      \<and> (action_restarts a \<noteq> [] \<and> a \<noteq> ActionNdi NdiRefresh \<longrightarrow> needs_confirmation i)
      \<and> (\<forall>x. a = ActionPlugins x \<longrightarrow> plugin_told i x))"

lemma announced_default: "action_restarts a = [] \<Longrightarrow> \<forall>x. a \<noteq> ActionPlugins x \<Longrightarrow> announced i a"
  by (simp add: announced_def)

lemma announced_merge: "announced i a \<Longrightarrow> announced (merge_impact i c) a" "announced c a \<Longrightarrow> announced (merge_impact i c) a"
  using merge_impact_complete [of i c] by (auto simp: announced_def plugin_told_def)

lemma outputs_quiet: "action_restarts (ActionOutputs x) = []" "action_restarts (ActionPlugins y) = []"
  "action_restarts (ActionNetwork z) = []"
  by (simp_all add: action_restarts_def)

lemma device_effect_cases:
  "device_effect c = Inr (Some (act', scope, line)) \<Longrightarrow>
   (\<forall>s k. act' \<noteq> DeviceServiceControl s k) \<and> scope \<noteq> ScopeNone \<and> (\<forall>s k. c \<noteq> ServiceControl s k)"
  by (cases c) (auto simp: device_effect_def bind_r_eq_Inr)

lemma device_restarts: "set (action_restarts (ActionDevice x)) \<subseteq> {SvcDecoder, SvcFinder, SvcControl} \<or> (\<exists>s k. x = DeviceServiceControl s k)"
  by (cases x) (simp_all add: action_restarts_def)

lemma device_announced:
  assumes "device_plan previous next' c = Inr p" "a \<in> set (dpl_actions p)"
  shows "announced (dpl_impact p) a"
proof -
  define svc where "svc = (case c of ServiceControl s k \<Rightarrow> [DeviceServiceControl s k] | _ \<Rightarrow> [])"
  have requested: "svc = [] \<or> (\<exists>s k. c = ServiceControl s k \<and> svc = [DeviceServiceControl s k])"
    by (cases c) (simp_all add: svc_def)
  obtain effect where effect: "device_effect c = Inr effect"
    using assms(1) by (auto simp: device_plan_def Let_def bind_r_eq_Inr)
  show ?thesis
  proof (cases effect)
    case None
    have p: "dpl_impact p = service_control_impact c"
      using assms(1) effect None by (auto simp: device_plan_def Let_def)
    have "\<exists>x. a = ActionDevice x"
      using assms effect None by (auto simp: device_plan_def Let_def split: if_splits)
    moreover have "action_restarts a = [] \<or> (\<exists>s k. c = ServiceControl s k \<and> a = ActionDevice (DeviceServiceControl s k))"
      using assms effect None requested
      by (auto simp: device_plan_def Let_def svc_def [symmetric] action_restarts_def split: if_splits)
    ultimately consider "action_restarts a = []" "\<forall>x. a \<noteq> ActionPlugins x"
      | "\<exists>s k. c = ServiceControl s k \<and> a = ActionDevice (DeviceServiceControl s k)"
      by blast
    then show ?thesis
    proof cases
      assume "\<exists>s k. c = ServiceControl s k \<and> a = ActionDevice (DeviceServiceControl s k)"
      then obtain s k where "c = ServiceControl s k" "a = ActionDevice (DeviceServiceControl s k)"
        by blast
      then show ?thesis
        unfolding p by (cases k) (simp_all add: announced_def action_restarts_def service_control_impact_def needs_confirmation_def)
    qed (rule announced_default)
  next
    case (Some e)
    obtain act' scope line where e: "e = (act', scope, line)"
      by (cases e)
    have no: "\<forall>s k. c \<noteq> ServiceControl s k" "\<forall>s k. act' \<noteq> DeviceServiceControl s k" "scope \<noteq> ScopeNone"
      using device_effect_cases effect Some e by blast+
    have p: "im_scope (dpl_impact p) = scope" "im_restarts (dpl_impact p) = [SvcDecoder, SvcFinder, SvcControl]"
      using assms(1) effect Some e by (auto simp: device_plan_def Let_def)
    obtain x where "a = ActionDevice x" "\<forall>s k. x \<noteq> DeviceServiceControl s k"
      using assms effect Some e no requested
      by (auto simp: device_plan_def Let_def svc_def [symmetric] split: if_splits)
    then show ?thesis
      using device_restarts [of x] p no(3) by (auto simp: announced_def needs_confirmation_def)
  qed
qed

lemma plugin_announced:
  assumes "plugin_plan previous next' c = Inr p" "a \<in> set (dpl_actions p)"
  shows "announced (dpl_impact p) a"
proof -
  have told: "plugin_told (action_impact x) x" if "plugin_action_of c = Some x" for x
    using that by (cases c)
      (auto simp: plugin_action_of_def plugin_told_def action_impact_def plugin_interruption_def Let_def)
  have "(case c of SetPluginData _ _ \<Rightarrow> x | _ \<Rightarrow> y) = (if \<exists>n d. c = SetPluginData n d then x else y)"
    for x y :: "(domain_plan, api_error) result"
    by (cases c) auto
  then obtain x where "a = ActionPlugins x" "x = PluginsRestore \<or> dpl_impact p = action_impact x \<and> plugin_action_of c = Some x"
    using assms by (auto simp: plugin_plan_def default_domain_plan_def split: if_splits option.splits)
  then show ?thesis
    using told by (auto simp: announced_def outputs_quiet plugin_told_def)
qed

lemma tessera_announced:
  assumes "tessera_plan previous next' c = Inr p" "a \<in> set (dpl_actions p)"
  shows "announced (dpl_impact p) a"
proof (cases "ds_tessera previous = ds_tessera next'")
  case True
  then have plan: "service_plan c = Inr p"
    using assms(1) by (simp add: tessera_plan_def)
  show ?thesis
    using plan assms(2)
    by (cases c) (auto simp: service_plan_def default_domain_plan_def announced_def action_restarts_def needs_confirmation_def
        split: if_splits)
next
  case False
  then show ?thesis
    using assms by (auto simp: tessera_plan_def action_restarts_def intro!: announced_default)
qed

lemma audio_announced:
  assumes "audio_plan previous next' c = Inr p" "a \<in> set (dpl_actions p)"
  shows "announced (dpl_impact p) a"
proof (cases "a = ActionAudio RestartDecoder")
  case True
  have "(case c of RemoveAudioEndpoints _ \<Rightarrow> [] | SetAudioEngine e \<Rightarrow> if e = V1 then [] else [PreparePcms] | _ \<Rightarrow> [PreparePcms])
      \<in> {[], [PreparePcms]}"
    by (cases c) auto
  then show ?thesis
    using True assms
    by (auto simp: audio_plan_def Let_def announced_def action_restarts_def needs_confirmation_def split: if_splits)
next
  case False
  moreover have "\<exists>x. a = ActionAudio x"
    using assms by (auto simp: audio_plan_def Let_def)
  ultimately have "action_restarts a = []" "\<forall>x. a \<noteq> ActionPlugins x"
    by (auto simp: action_restarts_def split: audio_action.splits)
  then show ?thesis
    by (rule announced_default)
qed

lemma native_announced:
  assumes "dm_plan (domain_planner mp d) previous next' c = Inr p" "a \<in> set (dpl_actions p)"
  shows "announced (dpl_impact p) a"
proof (cases d)
  case DDevice
  then show ?thesis
    using assms device_announced by (simp add: domain_planner_def)
next
  case DTessera
  then show ?thesis
    using assms tessera_announced by (simp add: domain_planner_def)
next
  case DNdi
  then show ?thesis
    using assms
    by (auto simp: domain_planner_def ndi_plan_def Let_def announced_def action_restarts_def needs_confirmation_def
        split: if_splits)
next
  case DAudio
  then show ?thesis
    using assms audio_announced by (simp add: domain_planner_def)
next
  case DOutputs
  then show ?thesis
    using assms by (auto simp: domain_planner_def outputs_plan_def outputs_quiet announced_default)
next
  case DPlugins
  then show ?thesis
    using assms plugin_announced by (simp add: domain_planner_def)
qed (use assms in \<open>auto simp: domain_planner_def network_plan_def display_plan_def presets_plan_def action_restarts_def
       intro!: announced_default\<close>)

lemma walk_announced:
  assumes "plan_walk a b previous next' c rs (paths, changed, actions, imp) = Inr (paths', changed', actions', imp')"
    and "set rs \<subseteq> set (registry (native_modules mp))" and "\<forall>x \<in> set actions. announced imp x"
  shows "\<forall>x \<in> set actions'. announced imp' x"
  using assms
proof (induction rs arbitrary: paths changed actions imp)
  case (Cons r rs)
  have "rg_module r \<in> native_modules mp ` UNIV"
    using Cons.prems(2) by (auto simp: registry_def)
  then obtain d where d: "dm_plan (rg_module r) = dm_plan (domain_planner mp d)"
    using native_planner by fastforce
  show ?case
  proof (cases "found_paths a b r = [] \<and> \<not> (command_domain c = Some (rg_domain r) \<and> dm_imperative (rg_module r) c)")
    case True
    then have "plan_walk a b previous next' c rs (paths @ found_paths a b r, changed, actions, imp) = Inr (paths', changed', actions', imp')"
      using Cons.prems(1) by (auto simp: Let_def found_paths_def)
    then show ?thesis
      using Cons.IH Cons.prems(2,3) by simp
  next
    case False
    then obtain p where p: "dm_plan (domain_planner mp d) previous next' c = Inr p"
        "plan_walk a b previous next' c rs (paths @ found_paths a b r, changed @ [rg_domain r], actions @ dpl_actions p,
           merge_impact imp (dpl_impact p)) = Inr (paths', changed', actions', imp')"
      using Cons.prems(1) d by (auto simp: Let_def found_paths_def bind_r_eq_Inr split: if_splits)
    have "\<forall>x \<in> set (actions @ dpl_actions p). announced (merge_impact imp (dpl_impact p)) x"
      using Cons.prems(3) native_announced [OF p(1)] announced_merge by auto
    then show ?thesis
      using Cons.IH [OF p(2)] Cons.prems(2) by simp
  qed
qed simp

lemma plan_announced:
  assumes "make_plan pe (native_modules mp) previous next' c = Inr p" "a \<in> set (pp_actions p)"
  shows "announced (pp_impact p) a"
proof -
  obtain x y paths changed imp where
    walk: "plan_walk x y previous next' c (planning_order (native_modules mp) c) ([], [], [], default_impact)
             = Inr (paths, changed, pp_actions p, imp)"
    and impact: "im_restarts (pp_impact p) = im_restarts (merge_impact imp (backup_impact c))"
      "im_scope (pp_impact p) = im_scope (merge_impact imp (backup_impact c))"
      "im_interruptions (pp_impact p) = im_interruptions (merge_impact imp (backup_impact c))"
    using assms(1) by (auto simp: make_plan_def Let_def bind_r_eq_Inr sealed_def)
  have "announced imp a"
    using walk_announced [OF walk, of mp] assms(2) by (simp add: planning_order_set)
  then have "announced (merge_impact imp (backup_impact c)) a"
    by (rule announced_merge)
  then show ?thesis
    using impact by (simp add: announced_def needs_confirmation_def plugin_told_def)
qed

text \<open>
  Nothing restarts unannounced: whatever the appliance's planners put into a plan, every service that
  carrying out one of its actions stops or restarts is among the restarts the plan announces, and the plan
  needs the operator's confirmation - but for the rescan of NDI sources the operator asked for, which is
  announced and applied at once.
\<close>

theorem restarts_announced:
  assumes "make_plan pe (native_modules mp) previous next' c = Inr p" "a \<in> set (pp_actions p)"
  shows "set (action_restarts a) \<subseteq> set (im_restarts (pp_impact p))
    \<and> (action_restarts a \<noteq> [] \<and> a \<noteq> ActionNdi NdiRefresh \<longrightarrow> needs_confirmation (pp_impact p))"
  using plan_announced [OF assms] by (simp add: announced_def)

definition quiet_planner :: planner_env where
  "quiet_planner =
     \<lparr>pe_printer = pe_printer sample_planner, pe_to_value = (\<lambda>_. Inr JNull), pe_print_actions = (\<lambda>_. Inr []),
      pe_print_interruption = (\<lambda>_. []), pe_digest = (\<lambda>_. [])\<rparr>"

lemma quiet_reboot:
  "\<exists>p. make_plan quiet_planner (native_modules mp) st st Reboot = Inr p \<and> ActionDevice DeviceReboot \<in> set (pp_actions p)"
proof -
  have none: "diff n JNull JNull = []" for n
    by (simp add: diff.simps)
  have modules: "dm_imperative (native_modules mp DDevice) Reboot"
    by (simp add: native_modules_def with_hooks_def with_planner_def domain_planner_def device_imperative_def)
  have plan: "dm_plan (native_modules mp DDevice) st st Reboot =
      Inr \<lparr>dpl_actions = [ActionDevice DeviceReboot],
           dpl_impact = default_impact\<lparr>im_scope := ScopeDevice, im_restarts := [SvcDecoder, SvcFinder, SvcControl],
             im_interruptions := [new_interruption DDevice ''device video/audio/control'' None],
             im_lines := [''Reboot the device; all video, audio and control connections stop'']\<rparr>\<rparr>"
    by (simp add: native_planner domain_planner_def device_plan_def device_effect_def service_control_impact_def Let_def
        default_impact_def)
  have route: "command_domain Reboot = Some DDevice"
    by (simp add: command_domain_def COMMAND_ROUTES_def)
  show ?thesis
    by (simp add: make_plan_def quiet_planner_def planning_order_def backup_handles_def registry_def registry_order_def
        none json_index_def modules plan route registration_of Let_def)
qed

theorem restarts_announced_witness:
  "\<forall>mp. \<exists>p. make_plan quiet_planner (native_modules mp) default_desired_state default_desired_state Reboot = Inr p
     \<and> SvcControl \<in> set (im_restarts (pp_impact p)) \<and> needs_confirmation (pp_impact p)"
proof
  fix mp
  obtain p where p: "make_plan quiet_planner (native_modules mp) default_desired_state default_desired_state Reboot = Inr p"
      "ActionDevice DeviceReboot \<in> set (pp_actions p)"
    using quiet_reboot by blast
  then show "\<exists>p. make_plan quiet_planner (native_modules mp) default_desired_state default_desired_state Reboot = Inr p
     \<and> SvcControl \<in> set (im_restarts (pp_impact p)) \<and> needs_confirmation (pp_impact p)"
    using restarts_announced [OF p] by (auto simp: action_restarts_def)
qed

section \<open>Tessera policy\<close>

lemma bt_wf_of_list: "bt_wf (bt_of_list kvs)"
proof -
  have "bt_wf m \<Longrightarrow> bt_wf (fold (\<lambda>(k, v). bt_insert k v) kvs m)" for m
    by (induction kvs arbitrary: m) (auto simp: bt_wf_insert)
  moreover have "bt_wf ([] :: ('a \<times> 'b) list)"
    by (simp add: bt_wf_def)
  ultimately show ?thesis
    by (auto simp: bt_of_list_def)
qed

lemma fold_insert_get:
  "distinct (map fst kvs) \<Longrightarrow>
   bt_get (fold (\<lambda>(k, v). bt_insert k v) kvs m) x = (case map_of kvs x of Some v \<Rightarrow> Some v | None \<Rightarrow> bt_get m x)"
proof (induction kvs arbitrary: m)
  case (Cons e kvs)
  obtain k v where e: "e = (k, v)"
    by fastforce
  have "map_of kvs k = None"
    using Cons.prems e by (simp add: map_of_eq_None_iff)
  then show ?case
    using Cons e by (auto simp: bt_get_insert split: option.splits)
qed simp

lemma owned_kept: "bt_get owned_locks k = Some v \<Longrightarrow> bt_get (te_locks (with_owned_locks t)) k = Some v"
proof -
  assume "bt_get owned_locks k = Some v"
  moreover have "distinct (map fst owned_locks)"
    using bt_wf_distinct [OF bt_wf_of_list] by (simp add: owned_locks_def bt_keys_def)
  ultimately show ?thesis
    by (simp add: with_owned_locks_def fold_insert_get bt_get_def [of owned_locks])
qed

text \<open>
  Tessera's ownership locks are policy: after any accepted command that replaces the Tessera settings -
  saved or restored - each of them is held by the appliance, whatever the caller sent. Saved settings never
  introduce a follower that is also the Preferred Leader: such a clock can only be one that was there
  before.
\<close>

theorem tessera_policy:
  assumes "tessera_reduce resize st c = Inr st'" "c = SetTessera t \<or> c = RestoreTessera t a"
  shows "\<exists>u. ds_tessera st' = Some u
    \<and> (\<forall>k v. bt_get owned_locks k = Some v \<longrightarrow> bt_get (te_locks u) k = Some v)
    \<and> (c = SetTessera t \<and> clock_conflicts (te_clock u) \<longrightarrow>
         (\<exists>before. ds_tessera st = Some before \<and> te_clock before = te_clock u))"
proof -
  have change: "tessera_change resize st c = Inr st'"
    using assms(1) by (auto simp: tessera_reduce_def bind_r_eq_Inr split: if_splits)
  have locks: "bt_get (te_locks (with_owned_locks t\<lparr>te_clock := x\<rparr>)) k = Some v"
    if "bt_get owned_locks k = Some v" for k v x
    using owned_kept [OF that] by simp
  from assms(2) show ?thesis
  proof
    assume "c = SetTessera t"
    then show ?thesis
      using change owned_kept locks clock_effective_no_conflict
      by (auto simp: tessera_change_def set_tessera_def Let_def bind_r_eq_Inr split: option.splits if_splits)
  next
    assume "c = RestoreTessera t a"
    then show ?thesis
      using change owned_kept by (auto simp: tessera_change_def split: if_splits)
  qed
qed

definition tessera_sample :: desired_state where
  "tessera_sample = default_desired_state\<lparr>ds_plugins := [(''tessera'', default_plugin_state\<lparr>pl_installed := True\<rparr>)]\<rparr>"

theorem tessera_policy_witness:
  "\<exists>st' u. tessera_reduce (\<lambda>a _. Inr a) tessera_sample (SetTessera ((new_tessera ''x'' 1000)\<lparr>te_locks := []\<rparr>)) = Inr st'
     \<and> ds_tessera st' = Some u \<and> (\<forall>k v. bt_get owned_locks k = Some v \<longrightarrow> bt_get (te_locks u) k = Some v)"
proof -
  let ?t = "(new_tessera ''x'' 1000)\<lparr>te_locks := []\<rparr>"
  obtain st' where st': "tessera_reduce (\<lambda>a _. Inr a) tessera_sample (SetTessera ?t) = Inr st'"
    by (simp add: tessera_reduce_def tessera_change_def set_tessera_def tessera_fits_def tessera_sample_def new_tessera_def
        with_owned_locks_def default_desired_state_def default_plugin_state_def default_audio_def bt_values_def bt_get_def
        rx_source_fits_def tx_sink_fits_def ndi_audio_source_def new_audio_sink_def Let_def)
  then show ?thesis
    using tessera_policy [OF st', of ?t default_audio] by auto
qed

section \<open>Presets\<close>

definition positions_distinct :: "(string, preset) bmap \<Rightarrow> bool" where
  "positions_distinct m =
     (\<forall>k k' p p'. bt_get m k = Some p \<and> bt_get m k' = Some p' \<and> pr_position p = pr_position p' \<and> pr_position p \<noteq> None
        \<longrightarrow> k = k')"

lemma max_position_ge: "x \<in> set xs \<Longrightarrow> \<exists>m. max_position xs = Some m \<and> x \<le> m"
  by (induction xs) (auto split: option.splits simp: max_def)

lemma max_position_mem: "max_position xs = Some m \<Longrightarrow> m \<in> set xs"
  by (induction xs arbitrary: m) (auto split: option.splits simp: max_def)

lemma saturating_add_greater: "x \<le> m \<Longrightarrow> m \<noteq> - 1 \<Longrightarrow> x < saturating_add m (1 :: 'a::len word)"
proof -
  assume le: "x \<le> m" and top: "m \<noteq> - 1"
  have "unat m + 1 < 2 ^ LENGTH('a)"
  proof (rule ccontr)
    assume "\<not> unat m + 1 < 2 ^ LENGTH('a)"
    moreover have "unat m < 2 ^ LENGTH('a)"
      by (rule unsigned_less)
    ultimately have "unat m + 1 = 2 ^ LENGTH('a)"
      by linarith
    then have "of_nat (unat m + 1) = (0 :: 'a word)"
      by (metis of_nat_numeral of_nat_power word_exp_length_eq_0)
    then show False
      using top by (simp add: eq_neg_iff_add_eq_0 add.commute)
  qed
  moreover have "unat (1 :: 'a word) = 1"
    by simp
  ultimately have "unat (saturating_add m 1) = unat m + 1"
    by (simp add: unat_saturating_add)
  then show ?thesis
    using le by (simp add: word_less_nat_alt word_le_nat_alt)
qed

text \<open>
  Presets keep their places: saving or deleting a preset never puts two presets on one position, and
  saving an existing one does not move it - as long as the last position of the counter is not taken.
\<close>

theorem preset_positions:
  assumes "presets_reduce st c = Inr st'" "positions_distinct (ds_presets st)"
    and "list_all (\<lambda>p. pr_position p \<noteq> Some (- 1)) (bt_values (ds_presets st))"
  shows "positions_distinct (ds_presets st')
    \<and> (\<forall>name p old. c = SavePreset name p \<and> Option.bind (bt_get (ds_presets st) name) pr_position = Some old \<longrightarrow>
         Option.bind (bt_get (ds_presets st') name) pr_position = Some old)"
proof -
  have fresh: "bt_get (ds_presets st) k = Some q \<Longrightarrow> pr_position q \<noteq> Some (next_position (ds_presets st))" for k q
  proof
    let ?xs = "List.map_filter pr_position (bt_values (ds_presets st))"
    assume q: "bt_get (ds_presets st) k = Some q" "pr_position q = Some (next_position (ds_presets st))"
    have mem: "x \<in> set ?xs" if "bt_get (ds_presets st) k = Some r" "pr_position r = Some x" for k r x
      using bt_get_mem [OF that(1)] that(2) by (force simp: List.map_filter_def bt_values_def image_iff)
    obtain m where m: "max_position ?xs = Some m" "next_position (ds_presets st) \<le> m"
      using max_position_ge [OF mem [OF q]] by blast
    have "m \<in> set ?xs"
      by (rule max_position_mem [OF m(1)])
    then have "m \<noteq> - 1"
      using assms(3) by (fastforce simp: List.map_filter_def list_all_iff)
    then show False
      using saturating_add_greater [of m m] m by (simp add: next_position_def)
  qed
  show ?thesis
  proof (cases c)
    case (SavePreset name p)
    define place where "place = (case Option.bind (bt_get (ds_presets st) name) pr_position of
        Some x \<Rightarrow> x | None \<Rightarrow> next_position (ds_presets st))"
    have st': "bt_get (ds_presets st') = (bt_get (ds_presets st))(name \<mapsto> p\<lparr>pr_position := Some place\<rparr>)"
      using assms(1) SavePreset by (auto simp: presets_reduce_def Let_def bt_get_insert place_def)
    have other: "pr_position q \<noteq> Some place" if "bt_get (ds_presets st) k = Some q" "k \<noteq> name" for k q
    proof (cases "Option.bind (bt_get (ds_presets st) name) pr_position")
      case None
      then show ?thesis
        using fresh that by (simp add: place_def)
    next
      case (Some x)
      then obtain r where "bt_get (ds_presets st) name = Some r" "pr_position r = Some x"
        by (auto simp: bind_eq_Some_conv)
      then show ?thesis
        using assms(2) that Some unfolding positions_distinct_def place_def by (metis option.simps(3,5))
    qed
    have "positions_distinct (ds_presets st')"
      unfolding positions_distinct_def st' using other assms(2)
      by (auto simp: positions_distinct_def split: if_splits) (metis option.distinct(1))+
    then show ?thesis
      using SavePreset st' by (auto simp: place_def)
  next
    case (DeletePreset name)
    then have "bt_get (ds_presets st') = (bt_get (ds_presets st))(name := None)"
      using assms(1) by (auto simp: presets_reduce_def bt_get_remove)
    then show ?thesis
      using DeletePreset assms(2) by (simp add: positions_distinct_def)
  qed (use assms(1) in \<open>simp_all add: presets_reduce_def\<close>)
qed

theorem preset_positions_witness:
  "positions_distinct (ds_presets (projr (presets_reduce default_desired_state (SavePreset ''a'' (new_preset (new_ndi_source_ref ''s'' []))))))"
proof -
  let ?c = "SavePreset ''a'' (new_preset (new_ndi_source_ref ''s'' []))"
  obtain st' where st': "presets_reduce default_desired_state ?c = Inr st'"
    by (simp add: presets_reduce_def Let_def)
  then show ?thesis
    using preset_positions [OF st']
    by (simp add: positions_distinct_def default_desired_state_def bt_get_def bt_values_def)
qed

section \<open>Device changes\<close>

lemma trim_idem: "unicode s \<Longrightarrow> trim (trim s) = trim s"
  by (simp add: trim_def [of "trim s"] chars_trim trim_chars_idem) (simp add: trim_def)

lemma lower_idem: "to_ascii_lowercase (to_ascii_lowercase s) = to_ascii_lowercase s"
  by (simp add: to_ascii_lowercase_def to_ascii_lower_char_def is_ascii_uppercase_def byte_def)

lemma sorted_remdups: "sorted (map f xs) \<Longrightarrow> sorted (map f (remdups_adj xs))"
  by (induction xs rule: remdups_adj.induct) auto

lemma remdups_adj_idem: "remdups_adj (remdups_adj xs) = remdups_adj xs"
proof (induction xs rule: remdups_adj.induct)
  case (3 x y xs)
  then show ?case
    by (cases "x = y") (simp_all, metis hd_remdups_adj list.exhaust list.sel(1) remdups_adj.simps(3) remdups_adj_Nil_iff list.discI)
qed simp_all

lemma days_idem: "remdups_adj (sort_key day_index (remdups_adj (sort_key day_index xs))) = remdups_adj (sort_key day_index xs)"
proof -
  have "sorted (map day_index (remdups_adj (sort_key day_index xs)))"
    by (rule sorted_remdups) simp
  then have "sort_key day_index (remdups_adj (sort_key day_index xs)) = remdups_adj (sort_key day_index xs)"
    by (rule sort_key_id_if_sorted)
  then show ?thesis
    by (simp add: remdups_adj_idem)
qed

lemma patch_fields:
  "dev_mode (patch_device p d) = assign (dp_mode p) (dev_mode d)"
  "dev_decode_mode (patch_device p d) = assign (dp_decode_mode p) (dev_decode_mode d)"
  "dev_watchdog_mode (patch_device p d) = assign (dp_watchdog_mode p) (dev_watchdog_mode d)"
  "dev_about (patch_device p d) = assign (dp_about p) (dev_about d)"
  "dev_analog_audio_in_gain (patch_device p d) = assign (dp_analog_audio_in_gain p) (dev_analog_audio_in_gain d)"
  "dev_analog_audio_out_gain (patch_device p d) = assign (dp_analog_audio_out_gain p) (dev_analog_audio_out_gain d)"
  "dev_plugin_feeds (patch_device p d) = assign (dp_plugin_feeds p) (dev_plugin_feeds d)"
  "dev_allow_insecure_feeds (patch_device p d) = assign (dp_allow_insecure_feeds p) (dev_allow_insecure_feeds d)"
  "dev_ndi_alias (patch_device p d) = trim (assign (dp_ndi_alias p) (dev_ndi_alias d))"
  "dev_ntp_server (patch_device p d) = trim (assign (dp_ntp_server p) (dev_ntp_server d))"
  "dev_web_allowed_hosts (patch_device p d) = map to_ascii_lowercase (assign (dp_web_allowed_hosts p) (dev_web_allowed_hosts d))"
  "dev_hostname (patch_device p d) =
     (if dp_ndi_alias p \<noteq> None \<and> trim (assign (dp_ndi_alias p) (dev_ndi_alias d)) \<noteq> []
      then alias_hostname (trim (assign (dp_ndi_alias p) (dev_ndi_alias d)))
      else assign (dp_hostname p) (dev_hostname d))"
  "dev_reboot_schedule (patch_device p d) =
     (let s = assign (dp_reboot_schedule p) (dev_reboot_schedule d)
      in s\<lparr>rs_days := remdups_adj (sort_key day_index (rs_days s))\<rparr>)"
  "device.more (patch_device p d) = ()"
  by (simp_all add: patch_device_def device_assign_def Let_def)

lemma assign_again:
  "assign x (assign x y) = assign x y"
  "assign x (f (assign x y)) = (case x of Some v \<Rightarrow> v | None \<Rightarrow> f y)"
  by (simp_all add: assign_def split: option.split)

lemma assign_norm: "(\<And>v. f (f v) = f v) \<Longrightarrow> f (assign x (f (assign x y))) = f (assign x y)"
  by (simp add: assign_def split: option.split)

text \<open>
  A device change is normalised once and for all: sending it a second time changes nothing, so a retry
  of an accepted change plans no work.
\<close>

theorem device_change_idempotent:
  assumes "unicode (dev_ndi_alias (device_assign p d))" "unicode (dev_ntp_server (device_assign p d))"
  shows "patch_device p (patch_device p d) = patch_device p d"
proof -
  have named: "trim (assign (dp_ndi_alias p) (trim (assign (dp_ndi_alias p) (dev_ndi_alias d)))) = trim (assign (dp_ndi_alias p) (dev_ndi_alias d))"
    using assms(1) by (auto simp: device_assign_def assign_def trim_idem split: option.splits)
  have ntp: "trim (assign (dp_ntp_server p) (trim (assign (dp_ntp_server p) (dev_ntp_server d)))) = trim (assign (dp_ntp_server p) (dev_ntp_server d))"
    using assms(2) by (auto simp: device_assign_def assign_def trim_idem split: option.splits)
  have hosts: "map to_ascii_lowercase (map to_ascii_lowercase hs) = map to_ascii_lowercase hs" for hs
    by (simp add: lower_idem)
  have sched: "dev_reboot_schedule (patch_device p (patch_device p d)) = dev_reboot_schedule (patch_device p d)"
    by (cases "dp_reboot_schedule p") (simp_all add: patch_fields(13) assign_def Let_def days_idem)
  have host: "dev_hostname (patch_device p (patch_device p d)) = dev_hostname (patch_device p d)"
    unfolding patch_fields(12) patch_fields(9) named by (simp add: assign_again)
  show ?thesis
    by (rule device.equality)
       (simp_all only: sched host, simp_all add: patch_fields(1-11,14) assign_again(1) named ntp
          assign_norm [of "map to_ascii_lowercase", OF hosts])
qed

definition sample_patch :: device_patch where
  "sample_patch =
     \<lparr>dp_hostname = None, dp_ndi_alias = Some '' a '', dp_mode = None, dp_decode_mode = None, dp_watchdog_mode = None,
      dp_ntp_server = None, dp_reboot_schedule = None, dp_about = None, dp_analog_audio_in_gain = None,
      dp_analog_audio_out_gain = None, dp_plugin_feeds = None, dp_allow_insecure_feeds = None, dp_web_allowed_hosts = None\<rparr>"

theorem device_change_idempotent_witness:
  "patch_device sample_patch (patch_device sample_patch default_device) = patch_device sample_patch default_device"
  by (rule device_change_idempotent)
     (simp_all add: sample_patch_def device_assign_def assign_def default_device_def unicode_def chars_def byte_def)

end
