(* ===== verification/Follower.thy ===== *)
theory Follower
  imports State_Store
begin

text \<open>
  Delivery of configuration to a follower process (ndimon-state/src/follower.rs), and the follower at the
  other end of the socket: the revision protocol of src/FollowerProtocol.h and the finder that uses it
  (src/FollowerConfig.h, finder/main.cpp).

  A client is an operation on a world that the model does not look into. The end-to-end results put the
  finder behind a connection that can lose a request before it arrives or its reply afterwards: what the
  delivery acknowledges is what the finder runs, and a finder in any state - behind, one revision ahead
  after an interrupted commit, or holding the cache of another lineage - is brought to the document.
\<close>

section \<open>Effects that can fail\<close>

type_synonym ('w, 'e, 'a) eff = "'w \<Rightarrow> ('e + 'a) \<times> 'w"

definition ret_e :: "'a \<Rightarrow> ('w, 'e, 'a) eff" where
  "ret_e x w = (Inr x, w)"

definition err_e :: "'e \<Rightarrow> ('w, 'e, 'a) eff" where
  "err_e e w = (Inl e, w)"

definition bind_e :: "('w, 'e, 'a) eff \<Rightarrow> ('a \<Rightarrow> ('w, 'e, 'b) eff) \<Rightarrow> ('w, 'e, 'b) eff" where
  "bind_e m f w = (case m w of (Inl e, w') \<Rightarrow> (Inl e, w') | (Inr x, w') \<Rightarrow> f x w')"

lemma ret_e_apply [simp]: "ret_e x w = (Inr x, w)"
  by (simp add: ret_e_def)

lemma err_e_apply [simp]: "err_e e w = (Inl e, w)"
  by (simp add: err_e_def)

lemma bind_e_Inr: "bind_e m f w = (Inr y, w') \<longleftrightarrow> (\<exists>x w''. m w = (Inr x, w'') \<and> f x w'' = (Inr y, w'))"
  by (auto simp: bind_e_def split: prod.splits sum.splits)

section \<open>The control plane's side\<close>

record 'w link =
  lk_client :: "json \<Rightarrow> ('w, string, json) eff"
  lk_sleep :: "nat \<Rightarrow> 'w \<Rightarrow> 'w"
  lk_print :: "json \<Rightarrow> string"

text \<open>\<open>left\<close> is how many attempts follow this one; the delay is in milliseconds.\<close>

fun request_from :: "'w link \<Rightarrow> json \<Rightarrow> nat \<Rightarrow> nat \<Rightarrow> ('w, string, json) eff" where
  "request_from lk command delay left w =
     (case lk_client lk command w of
        (Inr reply, w') \<Rightarrow>
          if json_index reply ''ok'' = JBool True then (Inr reply, w') else (Inl (lk_print lk reply), w')
      | (Inl error, w') \<Rightarrow>
          (case left of
             0 \<Rightarrow> (Inl error, w')
           | Suc n \<Rightarrow> request_from lk command (2 * delay) n (lk_sleep lk delay w')))"

declare request_from.simps [simp del]

definition follower_request :: "'w link \<Rightarrow> json \<Rightarrow> ('w, string, json) eff" where
  "follower_request lk command = request_from lk command 100 4"

definition OLDER_REVISION :: string where
  "OLDER_REVISION = ''revision: older than last applied revision''"

definition json_obj :: "(string \<times> json) list \<Rightarrow> json" where
  "json_obj kvs = JObject (bt_of_list kvs)"

definition json_u64 :: "u64 \<Rightarrow> json" where
  "json_u64 r = JInt (uint r)"

definition apply_config :: "u64 \<Rightarrow> json \<Rightarrow> bool \<Rightarrow> json" where
  "apply_config revision config reset =
     (let command = json_obj [(''action'', JString ''apply_config''), (''revision'', json_u64 revision), (''config'', config)]
      in if reset then json_set ''reset'' (JBool True) command else command)"

definition status_request :: json where
  "status_request = json_obj [(''action'', JString ''status'')]"

definition ahead :: "'w link \<Rightarrow> state_file \<Rightarrow> json \<Rightarrow> string \<Rightarrow> ('w, string, u64 \<times> json) eff" where
  "ahead lk state config refusal w =
     (let (status, w') = lk_client lk status_request w;
          cached = (case status of
              Inl _ \<Rightarrow> None
            | Inr s \<Rightarrow> (case as_u64 (json_index s ''revision'') of
                None \<Rightarrow> None
              | Some r \<Rightarrow> if sf_revision state < of_nat r then Some (of_nat r) else None))
      in (case cached of
            Some r \<Rightarrow>
              if checked_add (sf_revision state) 1 = Some r
              then bind_e (follower_request lk (apply_config r config False)) (\<lambda>reply. ret_e (r, reply)) w'
              else bind_e (follower_request lk (apply_config (sf_revision state) config True))
                     (\<lambda>reply. ret_e (sf_revision state, reply)) w'
          | None \<Rightarrow> (Inl refusal, w')))"

definition refused_any :: "json \<Rightarrow> bool" where
  "refused_any reply = (case json_index reply ''refused'' of JArray v \<Rightarrow> v \<noteq> [] | _ \<Rightarrow> False)"

definition deliver :: "'w link \<Rightarrow> state_file \<Rightarrow> json \<Rightarrow> ('w, string, json) eff" where
  "deliver lk state config w =
     (case (case follower_request lk (apply_config (sf_revision state) config False) w of
              (Inr reply, w') \<Rightarrow> (Inr (sf_revision state, reply), w')
            | (Inl refusal, w') \<Rightarrow>
                if contains_str OLDER_REVISION refusal then ahead lk state config refusal w' else (Inl refusal, w')) of
        (Inl error, w') \<Rightarrow> (Inl error, w')
      | (Inr (revision, reply), w') \<Rightarrow>
          if as_u64 (json_index reply ''revision'') \<noteq> Some (unat revision)
          then (Inl ''follower acknowledged a different revision'', w')
          else if refused_any reply then (Inl (lk_print lk reply), w')
          else (Inr reply, w'))"

section \<open>The follower's side\<close>

definition follower_failure :: "string \<Rightarrow> json" where
  "follower_failure error = json_obj [(''ok'', JBool False), (''errors'', JArray [JString error])]"

record follower_revision =
  rv_applied :: bool
  rv_value :: u64

text \<open>The texts of the JSON library's own exceptions (a missing key) are the parameter \<open>what\<close>.\<close>

definition check_revision :: "(string \<Rightarrow> string) \<Rightarrow> follower_revision \<Rightarrow> json \<Rightarrow> string + u64" where
  "check_revision what rv req =
     (case json_get req ''revision'' of
        None \<Rightarrow> Inl (what ''revision'')
      | Some (JInt n) \<Rightarrow>
          if n < 0 then Inl ''revision: expected non-negative integer''
          else (let next' = of_int n in
            (case json_get req ''reset'' of
               Some (JBool reset) \<Rightarrow>
                 if rv_applied rv \<and> next' < rv_value rv \<and> \<not> reset then Inl OLDER_REVISION else Inr next'
             | Some _ \<Rightarrow> Inl ''reset: expected boolean''
             | None \<Rightarrow> if rv_applied rv \<and> next' < rv_value rv then Inl OLDER_REVISION else Inr next'))
      | Some _ \<Rightarrow> Inl ''revision: expected non-negative integer'')"

definition revision_status :: "follower_revision \<Rightarrow> json" where
  "revision_status rv = (if rv_applied rv then json_u64 (rv_value rv) else JNull)"

record 'c ndi_follower =
  nf_revision :: follower_revision
  nf_config :: "'c option"
  nf_document :: json

text \<open>
  The parser of the NDI domain and the callback that recreates the finder on the SDK are parameters;
  the callback works on the SDK's state \<open>'s\<close>.
\<close>

record ('c, 's) finder_env =
  fe_what :: "string \<Rightarrow> string"
  fe_parse :: "json \<Rightarrow> string + 'c"
  fe_recreate :: "'c \<Rightarrow> 's \<Rightarrow> bool \<times> 's"
  fe_alive :: "'s \<Rightarrow> bool"
  fe_cache :: "json \<Rightarrow> 's \<Rightarrow> 's"

definition follower_apply ::
  "('c, 's) finder_env \<Rightarrow> json \<Rightarrow> 'c ndi_follower \<times> 's \<Rightarrow> json \<times> 'c ndi_follower \<times> 's" where
  "follower_apply env req fs =
     (let (f, s) = fs in
      case check_revision (fe_what env) (nf_revision f) req of
        Inl e \<Rightarrow> (follower_failure e, f, s)
      | Inr next' \<Rightarrow>
        (case json_get req ''config'' of
           None \<Rightarrow> (follower_failure (fe_what env ''config''), f, s)
         | Some (JObject [(k, ndi)]) \<Rightarrow>
             if k \<noteq> ''ndi'' then (follower_failure ''config: finder accepts only the complete ndi domain'', f, s)
             else (case fe_parse env ndi of
                Inl e \<Rightarrow> (follower_failure e, f, s)
              | Inr candidate \<Rightarrow>
                  (let (good, s') = (if nf_config f = None \<or> nf_document f \<noteq> ndi then fe_recreate env candidate s else (True, s))
                   in if \<not> good then (follower_failure ''ndi: finder recreation failed'', f, s')
                      else (json_obj [(''ok'', JBool True), (''revision'', json_u64 next')],
                        \<lparr>nf_revision = \<lparr>rv_applied = True, rv_value = next'\<rparr>, nf_config = Some candidate, nf_document = ndi\<rparr>, s')))
         | Some _ \<Rightarrow> (follower_failure ''config: finder accepts only the complete ndi domain'', f, s)))"

definition finder_handle ::
  "('c, 's) finder_env \<Rightarrow> json \<Rightarrow> 'c ndi_follower \<times> 's \<Rightarrow> json \<times> 'c ndi_follower \<times> 's" where
  "finder_handle env req fs =
     (let action = (if \<not> is_object req then Inl (fe_what env []) else case json_get req ''action'' of Some (JString a) \<Rightarrow> Inr a | None \<Rightarrow> Inr [] | Some _ \<Rightarrow> Inl (fe_what env ''action'')) in
      case action of
        Inl e \<Rightarrow> (follower_failure e, fs)
      | Inr a \<Rightarrow>
        if a = ''status'' \<or> a = ''health''
        then (json_obj [(''ok'', JBool True), (''alive'', JBool (fe_alive env (snd fs))),
                        (''revision'', revision_status (nf_revision (fst fs)))], fs)
        else if a \<noteq> ''apply_config'' then (follower_failure ''unknown action'', fs)
        else (let (result, f, s) = follower_apply env req fs
              in (result, f, if json_index result ''ok'' = JBool True then fe_cache env req s else s)))"


section \<open>The connection\<close>

datatype fault = Delivered | LostRequest | LostReply

type_synonym ('c, 's) finder_world = "('c ndi_follower \<times> 's) \<times> fault list"

fun finder_client :: "('c, 's) finder_env \<Rightarrow> json \<Rightarrow> (('c, 's) finder_world, string, json) eff" where
  "finder_client env c (fs, []) = (let (reply, fs') = finder_handle env c fs in (Inr reply, fs', []))"
| "finder_client env c (fs, Delivered # rest) = (let (reply, fs') = finder_handle env c fs in (Inr reply, fs', rest))"
| "finder_client env c (fs, LostRequest # rest) = (Inl ''timeout'', fs, rest)"
| "finder_client env c (fs, LostReply # rest) = (let (reply, fs') = finder_handle env c fs in (Inl ''timeout'', fs', rest))"

definition finder_link :: "('c, 's) finder_env \<Rightarrow> (json \<Rightarrow> string) \<Rightarrow> ('c, 's) finder_world link" where
  "finder_link env print = \<lparr>lk_client = finder_client env, lk_sleep = (\<lambda>_ w. w), lk_print = print\<rparr>"

section \<open>Requests\<close>

lemma request_from_Inr:
  "request_from lk c delay n w = (Inr reply, w') \<Longrightarrow>
   \<exists>w0. lk_client lk c w0 = (Inr reply, w') \<and> json_index reply ''ok'' = JBool True"
proof (induction n arbitrary: delay w)
  case 0
  then show ?case
    by (subst (asm) request_from.simps) (auto split: prod.splits sum.splits if_splits)
next
  case (Suc n)
  show ?case
  proof (cases "lk_client lk c w")
    case (Pair res w1)
    then show ?thesis
      using Suc by (cases res) (auto simp: request_from.simps [of lk c delay] split: if_splits)
  qed
qed

lemma json_obj_get: "json_get (json_obj kvs) k = bt_get (bt_of_list kvs) k"
  by (simp add: json_get_def json_obj_def)

lemma json_obj_index: "json_index (json_obj kvs) k = (case bt_get (bt_of_list kvs) k of None \<Rightarrow> JNull | Some v \<Rightarrow> v)"
  by (simp add: json_index_def json_obj_def obj_get_def)

lemma apply_config_get:
  "json_get (apply_config r config reset) ''action'' = Some (JString ''apply_config'')"
  "json_get (apply_config r config reset) ''revision'' = Some (json_u64 r)"
  "json_get (apply_config r config reset) ''config'' = Some config"
  "json_get (apply_config r config reset) ''reset'' = (if reset then Some (JBool True) else None)"
  "is_object (apply_config r config reset)"
  by (simp_all add: apply_config_def json_obj_def json_get_def json_set_def bt_of_list_def bt_get_insert is_object_def Let_def)
    (simp_all add: bt_get_def)

lemma reply_index:
  "json_index (json_obj [(''ok'', JBool b), (''revision'', v)]) ''ok'' = JBool b"
  "json_index (json_obj [(''ok'', JBool b), (''revision'', v)]) ''revision'' = v"
  "json_index (json_obj [(''ok'', JBool b), (''revision'', v)]) ''refused'' = JNull"
  "json_index (json_obj [(''ok'', JBool b), (''alive'', a), (''revision'', v)]) ''revision'' = v"
  "json_index (follower_failure e) ''ok'' = JBool False"
  by (simp_all add: json_obj_index bt_of_list_def bt_get_insert follower_failure_def) (simp_all add: bt_get_def)

lemma as_u64_json [simp]: "as_u64 (json_u64 r) = Some (unat r)"
proof -
  have "uint r < 2 ^ LENGTH(64)"
    by (rule uint_bounded)
  then have "uint r < 2 ^ 64"
    by simp
  then show ?thesis
    by (simp only: as_u64_def json_u64_def json.case unat_eq_nat_uint uint_ge_0 simp_thms if_True)
qed

lemma check_apply:
  "check_revision what rv (apply_config r config reset) =
     (if rv_applied rv \<and> r < rv_value rv \<and> \<not> reset then Inl OLDER_REVISION else Inr r)"
  by (simp add: check_revision_def apply_config_get json_u64_def)

lemma finder_handle_apply:
  "finder_handle env (apply_config r config reset) fs =
     (let (result, f, s) = follower_apply env (apply_config r config reset) fs
      in (result, f, if json_index result ''ok'' = JBool True then fe_cache env (apply_config r config reset) s else s))"
  by (simp add: finder_handle_def apply_config_get)

definition running :: "('c, 's) finder_env \<Rightarrow> u64 \<Rightarrow> json \<Rightarrow> 'c ndi_follower \<Rightarrow> bool" where
  "running env r config f =
     (nf_revision f = \<lparr>rv_applied = True, rv_value = r\<rparr>
      \<and> (\<exists>ndi c. config = JObject [(''ndi'', ndi)] \<and> nf_document f = ndi \<and> fe_parse env ndi = Inr c \<and> nf_config f = Some c))"

lemma handle_ok:
  assumes "finder_handle env (apply_config r config reset) fs = (reply, f', s')" "json_index reply ''ok'' = JBool True"
  shows "running env r config f' \<and> json_index reply ''revision'' = json_u64 r"
  using assms
  by (cases fs)
    (auto simp: finder_handle_apply follower_apply_def check_apply apply_config_get reply_index running_def
      split: prod.splits sum.splits if_splits json.splits list.splits)

lemma client_ok:
  assumes "finder_client env (apply_config r config reset) w = (Inr reply, (f', s'), rest)" "json_index reply ''ok'' = JBool True"
  shows "running env r config f' \<and> json_index reply ''revision'' = json_u64 r"
  using assms handle_ok [of env r config reset _ reply f' s']
  by (cases "(env, apply_config r config reset, w)" rule: finder_client.cases) (auto split: prod.splits)

lemma request_ok:
  assumes "follower_request (finder_link env print) (apply_config r config reset) w = (Inr reply, (f', s'), rest)"
  shows "running env r config f' \<and> json_index reply ''revision'' = json_u64 r"
  using request_from_Inr [OF assms [unfolded follower_request_def]] client_ok [of env r config reset _ reply f' s' rest]
  by (auto simp: finder_link_def)

lemma ahead_Inr:
  assumes "ahead lk st config refusal w = (Inr (r, reply), w')"
  shows "\<exists>reset w0. follower_request lk (apply_config r config reset) w0 = (Inr reply, w')
    \<and> (r = sf_revision st \<or> checked_add (sf_revision st) 1 = Some r)"
  using assms by (auto simp: ahead_def Let_def bind_e_Inr split: prod.splits option.splits if_splits)

section \<open>What an acknowledgement means\<close>

text \<open>
  C19: An acknowledged delivery is an applied one: whatever the connection loses, when \<open>deliver\<close> returns the
  finder runs exactly the delivered document, under the revision it acknowledged, and that revision is the
  state's own or the one right after it.
\<close>

theorem acknowledged_is_applied:
  assumes "deliver (finder_link env print) st config w = (Inr reply, (f, s), rest)"
  shows "\<exists>r. as_u64 (json_index reply ''revision'') = Some (unat r) \<and> running env r config f
    \<and> (r = sf_revision st \<or> checked_add (sf_revision st) 1 = Some r)"
proof -
  obtain res w1 where Pair: "follower_request (finder_link env print) (apply_config (sf_revision st) config False) w = (res, w1)"
    by (rule prod.exhaust)
  show ?thesis
  proof (cases res)
    case (Inr reply1)
    then have "reply1 = reply" "w1 = ((f, s), rest)"
      using assms Pair by (auto simp: deliver_def split: if_splits)
    then show ?thesis
      using request_ok Pair Inr by fastforce
  next
    case (Inl refusal)
    then obtain r where r: "ahead (finder_link env print) st config refusal w1 = (Inr (r, reply), (f, s), rest)"
      using assms Pair by (auto simp: deliver_def split: if_splits prod.splits sum.splits)
    from ahead_Inr [OF r] show ?thesis
      using request_ok by fastforce
  qed
qed

section \<open>Convergence\<close>

definition not_older :: "u64 \<Rightarrow> 'c ndi_follower \<Rightarrow> bool" where
  "not_older r f = (rv_applied (nf_revision f) \<longrightarrow> rv_value (nf_revision f) \<le> r)"

definition ready :: "('c, 's) finder_env \<Rightarrow> json \<Rightarrow> bool" where
  "ready env ndi = (is_ok (fe_parse env ndi) \<and> (\<forall>c s. fe_parse env ndi = Inr c \<longrightarrow> fst (fe_recreate env c s)))"

definition ack :: "u64 \<Rightarrow> json" where
  "ack r = json_obj [(''ok'', JBool True), (''revision'', json_u64 r)]"

lemma handle_accepts:
  assumes "ready env ndi" "reset \<or> not_older r f"
  shows "\<exists>f' s'. finder_handle env (apply_config r (JObject [(''ndi'', ndi)]) reset) (f, s) = (ack r, f', s')
    \<and> running env r (JObject [(''ndi'', ndi)]) f'"
proof -
  have fresh: "check_revision (fe_what env) (nf_revision f) (apply_config r (JObject [(''ndi'', ndi)]) reset) = Inr r"
    using assms(2) by (auto simp: check_apply not_older_def)
  obtain c where c: "fe_parse env ndi = Inr c"
    using assms(1) by (auto simp: ready_def is_ok_def split: sum.splits)
  have good: "fst (fe_recreate env c s)"
    using assms(1) c by (simp add: ready_def)
  show ?thesis
    using fresh c good
    by (cases "fe_recreate env c s")
      (auto simp: finder_handle_apply follower_apply_def apply_config_get running_def ack_def reply_index Let_def)
qed

lemma runs_not_older: "running env r config f \<Longrightarrow> not_older r f"
  by (auto simp: running_def not_older_def)

lemma handle_older:
  assumes "rv_applied (nf_revision f)" "r < rv_value (nf_revision f)"
  shows "finder_handle env (apply_config r config False) (f, s) = (follower_failure OLDER_REVISION, f, s)"
  using assms by (simp add: finder_handle_apply follower_apply_def check_apply reply_index)

lemma client_fault:
  assumes "e \<noteq> Delivered"
  shows "\<exists>f' s'. finder_client env c ((f, s), e # faults) = (Inl ''timeout'', (f', s'), faults)
    \<and> (f' = f \<and> s' = s \<or> (f', s') = snd (finder_handle env c (f, s)))"
  using assms by (cases e) (auto split: prod.splits)

lemma request_accepted:
  assumes "ready env ndi"
  shows "reset \<or> not_older r f \<Longrightarrow> length faults \<le> n \<Longrightarrow> Delivered \<notin> set faults \<Longrightarrow>
    \<exists>f' s'. request_from (finder_link env print) (apply_config r (JObject [(''ndi'', ndi)]) reset) delay n ((f, s), faults)
        = (Inr (ack r), (f', s'), []) \<and> running env r (JObject [(''ndi'', ndi)]) f'"
proof (induction faults arbitrary: n f s delay)
  case Nil
  then show ?case
    using handle_accepts [OF assms Nil(1), of s]
    by (subst request_from.simps) (auto simp: finder_link_def ack_def reply_index)
next
  case (Cons e faults)
  let ?c = "apply_config r (JObject [(''ndi'', ndi)]) reset"
  obtain m where n: "n = Suc m"
    using Cons.prems(2) by (cases n) auto
  obtain f' s' where client: "finder_client env ?c ((f, s), e # faults) = (Inl ''timeout'', (f', s'), faults)"
      and alt: "f' = f \<and> s' = s \<or> (f', s') = snd (finder_handle env ?c (f, s))"
    using client_fault [of e env ?c f s faults] Cons.prems(3) by auto
  have "reset \<or> not_older r f'"
    using alt Cons.prems(1) handle_accepts [OF assms Cons.prems(1), of s] runs_not_older by fastforce
  then show ?case
    using Cons.IH [of f' m "2 * delay" s'] Cons.prems(2,3) n client
    by (subst request_from.simps) (simp add: finder_link_def)
qed

lemma request_older:
  assumes "rv_applied (nf_revision f)" "r < rv_value (nf_revision f)"
  shows "length faults \<le> n \<Longrightarrow> Delivered \<notin> set faults \<Longrightarrow>
    request_from (finder_link env print) (apply_config r config False) delay n ((f, s), faults)
      = (Inl (print (follower_failure OLDER_REVISION)), (f, s), [])"
proof (induction faults arbitrary: n delay)
  case Nil
  then show ?case
    using handle_older [OF assms, of env config s]
    by (subst request_from.simps) (simp add: finder_link_def reply_index)
next
  case (Cons e faults)
  let ?c = "apply_config r config False"
  obtain m where n: "n = Suc m"
    using Cons.prems(1) by (cases n) auto
  have "finder_client env ?c ((f, s), e # faults) = (Inl ''timeout'', (f, s), faults)"
    using client_fault [of e env ?c f s faults] Cons.prems(2) handle_older [OF assms, of env config s] by auto
  then show ?case
    using Cons.IH [of m "2 * delay"] Cons.prems n
    by (subst request_from.simps) (simp add: finder_link_def)
qed

lemma status_reply:
  assumes "rv_applied (nf_revision f)"
  shows "\<exists>reply. finder_client env status_request ((f, s), []) = (Inr reply, (f, s), [])
    \<and> as_u64 (json_index reply ''revision'') = Some (unat (rv_value (nf_revision f)))"
proof -
  have "json_get status_request ''action'' = Some (JString ''status'')" "is_object status_request"
    by (simp_all add: status_request_def json_obj_def json_get_def bt_of_list_def bt_get_def is_object_def)
  then show ?thesis
    using assms by (simp add: finder_handle_def reply_index revision_status_def)
qed

lemma ack_index: "as_u64 (json_index (ack r) ''revision'') = Some (unat r)" "\<not> refused_any (ack r)"
  by (simp_all add: ack_def reply_index refused_any_def)

lemma delivered_not_older:
  assumes "ready env ndi" "length faults \<le> 4" "Delivered \<notin> set faults" "not_older (sf_revision st) f"
  shows "\<exists>f' s'. deliver (finder_link env print) st (JObject [(''ndi'', ndi)]) ((f, s), faults)
      = (Inr (ack (sf_revision st)), (f', s'), []) \<and> running env (sf_revision st) (JObject [(''ndi'', ndi)]) f'"
  using request_accepted [OF assms(1), of False "sf_revision st" f faults 4 print 100 s] assms(2-4)
  by (auto simp: follower_request_def deliver_def ack_index)

text \<open>
  C10: A follower is never stuck. Whatever the finder holds - nothing, an older or the same revision, the
  revision of a commit that was interrupted, or the cache of another lineage far ahead - one delivery
  brings it to the document, even when the connection fails up to four times first. It ends at the
  state's revision, except that a follower exactly one ahead keeps that number. The finder must be able
  to run the document, and printing a refusal must show its text.
\<close>

theorem delivery_converges:
  assumes "ready env ndi" "length faults \<le> 4" "Delivered \<notin> set faults"
    and "contains_str OLDER_REVISION (print (follower_failure OLDER_REVISION))"
  shows "\<exists>reply f' s'. deliver (finder_link env print) st (JObject [(''ndi'', ndi)]) ((f, s), faults) = (Inr reply, (f', s'), [])
    \<and> running env (if rv_applied (nf_revision f) \<and> checked_add (sf_revision st) 1 = Some (rv_value (nf_revision f))
                then rv_value (nf_revision f) else sf_revision st)
        (JObject [(''ndi'', ndi)]) f'"
proof -
  let ?r = "sf_revision st" and ?v = "rv_value (nf_revision f)" and ?cfg = "JObject [(''ndi'', ndi)]"
  let ?lk = "finder_link env print"
  have one: "?r < ?v" if "checked_add ?r 1 = Some ?v"
  proof -
    have "unat ?v = unat ?r + 1"
      using conjunct2 [OF checked_add_Some [OF that]] by simp
    then show ?thesis
      by (simp add: word_less_nat_alt)
  qed
  show ?thesis
  proof (cases "not_older ?r f")
    case True
    moreover have "\<not> (rv_applied (nf_revision f) \<and> checked_add ?r 1 = Some ?v)"
      using True one by (auto simp: not_older_def)
    ultimately show ?thesis
      using delivered_not_older [OF assms(1-3)] by fastforce
  next
    case False
    then have older: "rv_applied (nf_revision f)" "?r < ?v"
      by (simp_all add: not_older_def not_le)
    let ?refusal = "print (follower_failure OLDER_REVISION)"
    have refused: "follower_request ?lk (apply_config ?r ?cfg False) ((f, s), faults) = (Inl ?refusal, (f, s), [])"
      unfolding follower_request_def by (rule request_older) (use older assms(2,3) in auto)
    obtain reply where status: "finder_client env status_request ((f, s), []) = (Inr reply, (f, s), [])"
        "as_u64 (json_index reply ''revision'') = Some (unat ?v)"
      using status_reply [OF older(1), of env s] by (elim exE conjE) (rule that)
    let ?R = "if checked_add ?r 1 = Some ?v then ?v else ?r" and ?b = "checked_add ?r 1 \<noteq> Some ?v"
    have "?b \<or> not_older ?R f"
      by (simp add: not_older_def)
    then obtain f' s' where ok: "follower_request ?lk (apply_config ?R ?cfg ?b) ((f, s), []) = (Inr (ack ?R), (f', s'), [])"
        "running env ?R ?cfg f'"
      using request_accepted [OF assms(1), of ?b ?R f "[]" 4 print 100 s] by (auto simp: follower_request_def)
    have "ahead ?lk st ?cfg ?refusal ((f, s), []) = (Inr (?R, ack ?R), (f', s'), [])"
      using status ok(1) older(2) by (auto simp: ahead_def finder_link_def bind_e_def Let_def)
    then have "deliver ?lk st ?cfg ((f, s), faults) = (Inr (ack ?R), (f', s'), [])"
      using refused assms(4) by (simp add: deliver_def ack_index)
    then show ?thesis
      using ok(2) older(1) by auto
  qed
qed


definition sample_finder :: "(json, unit) finder_env" where
  "sample_finder =
     \<lparr>fe_what = (\<lambda>k. k), fe_parse = Inr, fe_recreate = (\<lambda>_ s. (True, s)), fe_alive = (\<lambda>_. True), fe_cache = (\<lambda>_ s. s)\<rparr>"

definition show_errors :: "json \<Rightarrow> string" where
  "show_errors v = concat (json_strings (json_index v ''errors''))"

definition stale_finder :: "u64 \<Rightarrow> json ndi_follower" where
  "stale_finder v = \<lparr>nf_revision = \<lparr>rv_applied = True, rv_value = v\<rparr>, nf_config = None, nf_document = JNull\<rparr>"

lemma show_errors_refusal: "contains_str OLDER_REVISION (show_errors (follower_failure OLDER_REVISION))"
proof -
  have "json_index (follower_failure OLDER_REVISION) ''errors'' = JArray [JString OLDER_REVISION]"
    by (simp add: follower_failure_def json_obj_index bt_of_list_def bt_get_def)
  then have "show_errors (follower_failure OLDER_REVISION) = [] @ OLDER_REVISION @ []"
    by (simp add: show_errors_def json_strings_def List.map_filter_def)
  then show ?thesis
    unfolding contains_str_iff by blast
qed

theorem delivery_converges_witness:
  "\<exists>reply f' s'. deliver (finder_link sample_finder show_errors) (new_state_file default_desired_state []) (JObject [(''ndi'', JInt 7)])
      ((stale_finder 900, ()), [LostReply, LostRequest]) = (Inr reply, (f', s'), [])
    \<and> running sample_finder 0 (JObject [(''ndi'', JInt 7)]) f'"
proof -
  have "ready sample_finder (JInt 7)"
    by (simp add: ready_def sample_finder_def is_ok_def)
  then show ?thesis
    using delivery_converges [of sample_finder "JInt 7" "[LostReply, LostRequest]" show_errors
        "new_state_file default_desired_state []" "stale_finder 900" "()"] show_errors_refusal
    by (simp add: new_state_file_def default_desired_state_def stale_finder_def checked_add_def)
qed

theorem acknowledged_is_applied_witness:
  "\<exists>reply f s r. deliver (finder_link sample_finder show_errors) (new_state_file default_desired_state []) (JObject [(''ndi'', JInt 7)])
      ((stale_finder 0, ()), [LostReply]) = (Inr reply, (f, s), [])
    \<and> as_u64 (json_index reply ''revision'') = Some (unat r) \<and> running sample_finder r (JObject [(''ndi'', JInt 7)]) f"
proof -
  have "ready sample_finder (JInt 7)" "not_older (sf_revision (new_state_file default_desired_state [])) (stale_finder 0)"
    by (simp_all add: ready_def sample_finder_def is_ok_def not_older_def stale_finder_def)
  then obtain reply f s where
    "deliver (finder_link sample_finder show_errors) (new_state_file default_desired_state []) (JObject [(''ndi'', JInt 7)])
      ((stale_finder 0, ()), [LostReply]) = (Inr reply, (f, s), [])"
    using delivered_not_older [of sample_finder "JInt 7" "[LostReply]" _ "stale_finder 0" show_errors "()"] by fastforce
  from this acknowledged_is_applied [OF this] show ?thesis
    by blast
qed

section \<open>Traffic\<close>

text \<open>A client that keeps a record of what it sent and what came back.\<close>

type_synonym traffic = "(json \<times> (string + json)) list"

definition logged :: "'w link \<Rightarrow> ('w \<times> traffic) link" where
  "logged lk =
     \<lparr>lk_client = (\<lambda>c (w, t). let (x, w') = lk_client lk c w in (x, w', t @ [(c, x)])),
      lk_sleep = (\<lambda>d (w, t). (lk_sleep lk d w, t)), lk_print = lk_print lk\<rparr>"

lemma logged_simps [simp]:
  "lk_client (logged lk) c (w, t) = (let (x, w') = lk_client lk c w in (x, w', t @ [(c, x)]))"
  "lk_sleep (logged lk) d (w, t) = (lk_sleep lk d w, t)"
  "lk_print (logged lk) = lk_print lk"
  by (simp_all add: logged_def)

lemma request_traffic:
  "request_from (logged lk) c delay n (w, t) = (res, w', t') \<Longrightarrow>
   \<exists>u. t' = t @ u \<and> length u \<le> Suc n \<and> fst ` set u \<subseteq> {c}"
proof (induction n arbitrary: delay w t)
  case 0
  then show ?case
    by (subst (asm) request_from.simps) (auto split: prod.splits sum.splits if_splits)
next
  case (Suc n)
  obtain x w1 where client: "lk_client lk c w = (x, w1)"
    by (rule prod.exhaust)
  show ?case
  proof (cases x)
    case (Inl e)
    then have "request_from (logged lk) c (2 * delay) n (lk_sleep lk delay w1, t @ [(c, x)]) = (res, w', t')"
      using Suc.prems client by (simp add: request_from.simps [of "logged lk" c delay])
    from Suc.IH [OF this] show ?thesis
      by auto
  next
    case (Inr reply)
    then show ?thesis
      using Suc.prems client by (auto simp: request_from.simps [of "logged lk" c delay] split: if_splits)
  qed
qed

definition far_ahead :: "state_file \<Rightarrow> traffic \<Rightarrow> bool" where
  "far_ahead st t =
     (\<exists>s r. (status_request, Inr s) \<in> set t \<and> as_u64 (json_index s ''revision'') = Some r \<and> unat (sf_revision st) + 1 < r)"

lemma as_u64_less: "as_u64 v = Some r \<Longrightarrow> r < 2 ^ 64"
  by (auto simp: as_u64_def nat_less_iff split: json.splits if_splits)

lemma more_than_one:
  assumes "as_u64 v = Some n" "r < of_nat n" "checked_add r 1 \<noteq> Some (of_nat n :: u64)"
  shows "unat r + 1 < n"
proof -
  have n: "unat (of_nat n :: u64) = n"
    using as_u64_less [OF assms(1)] by (simp add: unat_of_nat)
  have "unat r < n"
    using assms(2) n by (simp add: word_less_nat_alt)
  moreover have "unat r + 1 \<noteq> n"
  proof
    assume eq: "unat r + 1 = n"
    then have "checked_add r 1 = Some (r + 1)"
      using as_u64_less [OF assms(1)] by (simp add: checked_add_def)
    moreover have "(of_nat n :: u64) = r + 1"
      unfolding eq [symmetric] by simp
    ultimately show False
      using assms(3) by simp
  qed
  ultimately show ?thesis
    by linarith
qed

lemma reset_distinct:
  "apply_config r config True \<noteq> apply_config r' config' False" "apply_config r config reset \<noteq> status_request"
proof -
  show "apply_config r config True \<noteq> apply_config r' config' False"
    using apply_config_get(4) by (metis option.distinct(1))
  have "json_get status_request ''revision'' = None"
    by (simp add: status_request_def json_obj_get bt_of_list_def bt_get_def)
  then show "apply_config r config reset \<noteq> status_request"
    using apply_config_get(2) by (metis option.distinct(1))
qed

lemma ahead_traffic:
  assumes "ahead (logged lk) st config refusal (w, t) = (res, w', t')"
  shows "\<exists>u. t' = t @ u \<and> length u \<le> 6
    \<and> fst ` set u \<subseteq> {status_request, apply_config (sf_revision st) config True, apply_config (sf_revision st + 1) config False}
    \<and> (apply_config (sf_revision st) config True \<in> fst ` set u \<longrightarrow> far_ahead st u)"
proof -
  let ?r = "sf_revision st"
  obtain x w1 where client: "lk_client lk status_request w = (x, w1)"
    by (rule prod.exhaust)
  let ?t = "t @ [(status_request, x)]"
  have after: "\<exists>v. t' = ?t @ v \<and> length v \<le> 5 \<and> fst ` set v \<subseteq> {c}"
    if "bind_e (follower_request (logged lk) c) (\<lambda>reply. ret_e (q, reply)) (w1, ?t) = (res, w', t')" for c q
  proof -
    obtain y z where yz: "follower_request (logged lk) c (w1, ?t) = (y, z)"
      by (rule prod.exhaust)
    then have "z = (w', t')"
      using that by (cases y) (simp_all add: bind_e_def)
    with yz have "request_from (logged lk) c 100 4 (w1, ?t) = (y, w', t')"
      by (simp add: follower_request_def)
    from request_traffic [OF this] show ?thesis
      by auto
  qed
  consider (none) "t' = ?t"
    | (one) "bind_e (follower_request (logged lk) (apply_config (?r + 1) config False)) (\<lambda>reply. ret_e (?r + 1, reply)) (w1, ?t)
               = (res, w', t')"
    | (far) s n where "x = Inr s" "as_u64 (json_index s ''revision'') = Some n" "unat ?r + 1 < n"
        "bind_e (follower_request (logged lk) (apply_config ?r config True)) (\<lambda>reply. ret_e (?r, reply)) (w1, ?t) = (res, w', t')"
    using assms client more_than_one checked_add_Some [of ?r 1]
    by (auto simp: ahead_def Let_def split: sum.splits option.splits if_splits)
  then show ?thesis
  proof cases
    case none
    then show ?thesis
      by (simp add: reset_distinct)
  next
    case one
    from after [OF one] obtain v where v: "t' = ?t @ v" "length v \<le> 5" "fst ` set v \<subseteq> {apply_config (?r + 1) config False}"
      by blast
    then have "apply_config ?r config True \<notin> fst ` set ((status_request, x) # v)"
      using reset_distinct by auto
    then show ?thesis
      using v by (intro exI [of _ "(status_request, x) # v"]) auto
  next
    case far
    from after [OF far(4)] obtain v where v: "t' = ?t @ v" "length v \<le> 5" "fst ` set v \<subseteq> {apply_config ?r config True}"
      by blast
    have "far_ahead st ((status_request, x) # v)"
      unfolding far_ahead_def using far(1-3) by auto
    then show ?thesis
      using v by (intro exI [of _ "(status_request, x) # v"]) auto
  qed
qed

text \<open>
  C34: A delivery never invents a revision and always ends: for any client it exchanges at most eleven
  messages; each is the status request or the document under the state's revision or the one right
  after it; and a reset is sent only after the follower itself reported a revision more than one ahead.
\<close>

theorem delivery_traffic:
  assumes "deliver (logged lk) st config (w, []) = (res, w', t)"
  shows "length t \<le> 11
    \<and> fst ` set t \<subseteq> {status_request, apply_config (sf_revision st) config False, apply_config (sf_revision st) config True,
                     apply_config (sf_revision st + 1) config False}
    \<and> (apply_config (sf_revision st) config True \<in> fst ` set t \<longrightarrow>
         (\<exists>s r. (status_request, Inr s) \<in> set t \<and> as_u64 (json_index s ''revision'') = Some r \<and> unat (sf_revision st) + 1 < r))"
proof -
  let ?c = "apply_config (sf_revision st) config False"
  obtain x w1 u where first: "follower_request (logged lk) ?c (w, []) = (x, w1, u)"
    by (metis prod.exhaust)
  from request_traffic [OF this [unfolded follower_request_def]] have u: "length u \<le> 5" "fst ` set u \<subseteq> {?c}"
    by auto
  consider "t = u" | refusal y where "ahead (logged lk) st config refusal (w1, u) = (y, w', t)"
    using assms first by (auto simp: deliver_def split: sum.splits if_splits prod.splits)
  then show ?thesis
  proof cases
    case 1
    then show ?thesis
      using u by (auto simp: reset_distinct)
  next
    case 2
    from ahead_traffic [OF this] obtain v where v: "t = u @ v" "length v \<le> 6"
        "fst ` set v \<subseteq> {status_request, apply_config (sf_revision st) config True, apply_config (sf_revision st + 1) config False}"
        "apply_config (sf_revision st) config True \<in> fst ` set v \<longrightarrow> far_ahead st v"
      by blast
    have "apply_config (sf_revision st) config True \<notin> fst ` set u"
      using u(2) reset_distinct(1) by blast
    then have "apply_config (sf_revision st) config True \<in> fst ` set t \<longrightarrow> far_ahead st t"
      using v(1,4) by (auto simp: far_ahead_def)
    moreover have "length t \<le> 11"
      using u(1) v(1,2) by simp
    ultimately show ?thesis
      using u(2) v(1,3) unfolding far_ahead_def by auto
  qed
qed

theorem delivery_traffic_witness:
  "\<exists>res t. deliver (logged \<lparr>lk_client = (\<lambda>_ w. (Inl ''timeout'', w)), lk_sleep = (\<lambda>d w. w + d), lk_print = show_errors\<rparr>)
      (new_state_file default_desired_state []) JNull (0 :: nat, []) = (res, 1500, t) \<and> length t = 5 \<and> length t \<le> 11"
proof -
  let ?lk = "\<lparr>lk_client = (\<lambda>_ w. (Inl ''timeout'', w)), lk_sleep = (\<lambda>d w. w + d), lk_print = show_errors\<rparr> :: nat link"
  have refusal: "\<not> contains_str OLDER_REVISION ''timeout''"
    by (auto simp: contains_str_iff OLDER_REVISION_def dest!: arg_cong [of _ _ length])
  have four: "(4 :: nat) = Suc (Suc (Suc (Suc 0)))"
    by simp
  have "\<exists>t. follower_request (logged ?lk) c (0, []) = (Inl ''timeout'', 1500, t) \<and> length t = 5" for c
    unfolding follower_request_def four by (simp add: request_from.simps [of "logged ?lk"])
  then obtain t where t: "follower_request (logged ?lk) (apply_config (sf_revision (new_state_file default_desired_state [])) JNull False) (0, [])
      = (Inl ''timeout'', 1500, t)" "length t = 5"
    by metis
  then have run: "deliver (logged ?lk) (new_state_file default_desired_state []) JNull (0, []) = (Inl ''timeout'', 1500, t)"
    using refusal by (simp add: deliver_def)
  from run t(2) delivery_traffic [OF run] show ?thesis
    by blast
qed

end
