(* ===== verification/Applier.thy ===== *)
theory Applier
  imports Follower Domain_Modules
begin

text \<open>
  The production applier (ndimon-state/src/apply.rs): what it remembers between calls, how every domain
  carries out its part of a plan (the \<open>preflight\<close>, \<open>apply\<close>, \<open>rollback\<close> and \<open>replay\<close> hooks of
  domains/*.rs, domains/outputs/follower.rs, domains/tessera/reload.rs and domains/plugins/jobs.rs), and how a plan is reconciled.

  The state \<open>applier_host\<close> holds the applier's memory, the outside world, and a record of the requests that were
  sent to the privileged process, with whether each succeeded. The privileged client, the follower links,
  the Tessera client, the plugin host, clocks and JSON encodings are parameters (\<open>services\<close>).
\<close>

section \<open>Memory\<close>

text \<open>Time is in milliseconds of the monotonic clock.\<close>

record obs_cache =
  oc_generation :: u64
  oc_last :: "(nat \<times> json) option"

definition OBSERVATION_MAX_AGE :: nat where "OBSERVATION_MAX_AGE = 30000"
definition RELEASE_MAX_AGE :: nat where "RELEASE_MAX_AGE = 3600000"
definition RELEASE_RETRY_AFTER :: nat where "RELEASE_RETRY_AFTER = 600000"

definition obs_fresh :: "nat \<Rightarrow> nat \<Rightarrow> obs_cache \<Rightarrow> json option" where
  "obs_fresh now max_age c =
     (case oc_last c of Some (t, v) \<Rightarrow> if now - t < max_age then Some v else None | None \<Rightarrow> None)"

definition obs_settled :: "json \<Rightarrow> bool" where
  "obs_settled v =
     (json_index v ''pending'' = JNull \<and> json_index v ''quiesced'' \<noteq> JBool True
      \<and> json_index v ''externally_managed'' \<noteq> JBool True)"

definition keep :: "nat \<Rightarrow> u64 \<Rightarrow> json \<Rightarrow> obs_cache \<Rightarrow> obs_cache" where
  "keep now generation observation c =
     c\<lparr>oc_last := (if obs_settled observation \<and> generation = oc_generation c then Some (now, observation) else None)\<rparr>"

definition invalidate :: "obs_cache \<Rightarrow> obs_cache" where
  "invalidate c = c\<lparr>oc_generation := oc_generation c + 1, oc_last := None\<rparr>"

text \<open>The privileged settings as last applied.\<close>

type_synonym applied_settings = "(string, json) bmap"

definition is_applied :: "string \<Rightarrow> json \<Rightarrow> applied_settings \<Rightarrow> bool" where
  "is_applied setting req m = (bt_get m setting = Some req)"

definition record_applied :: "string \<Rightarrow> json \<Rightarrow> applied_settings \<Rightarrow> applied_settings" where
  "record_applied setting req m = bt_insert setting req m"

definition forget_applied :: "string \<Rightarrow> applied_settings \<Rightarrow> applied_settings" where
  "forget_applied setting m = bt_remove setting m"

type_synonym release_answer = "string + string option"
type_synonym release_cache = "(nat \<times> release_answer) option"

definition release_holds :: "nat \<Rightarrow> nat \<Rightarrow> nat \<Rightarrow> release_cache \<Rightarrow> release_answer option" where
  "release_holds now max_age retry_after cache =
     (case cache of
        Some (t, answer) \<Rightarrow> if now - t < (if is_ok answer then max_age else retry_after) then Some answer else None
      | None \<Rightarrow> None)"

text \<open>The reload last sent to tesserad.\<close>

record daemon_start =
  sa_earliest :: nat
  sa_latest :: nat

definition checked_sub_time :: "nat \<Rightarrow> nat \<Rightarrow> nat option" where
  "checked_sub_time t d = (if d \<le> t then Some (t - d) else None)"

definition from_uptime :: "nat \<Rightarrow> nat \<Rightarrow> nat \<Rightarrow> daemon_start option" where
  "from_uptime sent received uptime =
     Option.bind (checked_sub_time sent (uptime + 1)) (\<lambda>earliest.
       map_option (\<lambda>latest. \<lparr>sa_earliest = earliest, sa_latest = latest\<rparr>) (checked_sub_time received uptime))"

definition overlaps :: "daemon_start \<Rightarrow> daemon_start \<Rightarrow> bool" where
  "overlaps a b = (sa_earliest a \<le> sa_latest b \<and> sa_earliest b \<le> sa_latest a)"

record seen =
  se_artifacts :: "(string \<times> string option) list option"
  se_daemon :: "daemon_start option"

definition same_as :: "seen \<Rightarrow> seen \<Rightarrow> bool" where
  "same_as now earlier =
     (case (se_artifacts now, se_artifacts earlier) of
        (Some a, Some b) \<Rightarrow>
          a = b \<and> (case (se_daemon now, se_daemon earlier) of
                     (Some x, Some y) \<Rightarrow> overlaps x y
                   | (None, None) \<Rightarrow> True
                   | _ \<Rightarrow> False)
      | _ \<Rightarrow> False)"

definition due :: "seen option \<Rightarrow> seen \<Rightarrow> bool" where
  "due last_sent s = (\<not> (case last_sent of Some l \<Rightarrow> same_as s l | None \<Rightarrow> False))"

section \<open>Services and state\<close>

record privd_output =
  po_job :: "string option"
  po_data :: "json option"

datatype tessera_error = TesseraIo | TesseraFailed string

text \<open>What the hooks of the plugin module call: the plugin host, the privileged client and the running plugins.\<close>

record 'w plugin_link =
  pk_host :: "json \<Rightarrow> 'w \<Rightarrow> (string + json) option \<times> 'w"
  pk_query :: "json \<Rightarrow> ('w, string, json) eff"
  pk_privd :: "request \<Rightarrow> 'w \<Rightarrow> (proto_error + json) option \<times> 'w"
  pk_quiesce :: "string \<Rightarrow> 'w \<Rightarrow> 'w"
  pk_sleep :: "nat \<Rightarrow> 'w \<Rightarrow> 'w"
  pk_print :: "json \<Rightarrow> string"
  pk_context :: "state_file \<Rightarrow> json"
  pk_manifest_of :: "json \<Rightarrow> string + manifest"
  pk_size_of :: "json \<Rightarrow> string + nat"

record 'w services =
  sv_execute :: "request \<Rightarrow> ('w, proto_error, privd_output) eff"
  sv_request :: "request \<Rightarrow> ('w, proto_error, privd_output) eff"
  sv_spawn :: "nat \<Rightarrow> request \<Rightarrow> 'w \<Rightarrow> 'w"
  sv_decoder :: "'w link"
  sv_finder :: "'w link"
  sv_now :: "'w \<Rightarrow> nat"
  sv_deadline :: "('w, string, int) eff"
  sv_sources :: "('w, string, json) eff"
  sv_param_file :: "string \<Rightarrow> ('w, string, unit) eff"
  sv_tessera_flow_lock :: "('w, tessera_error, bool) eff"
  sv_tessera_uptime :: "'w \<Rightarrow> nat option \<times> 'w"
  sv_tessera_files :: "'w \<Rightarrow> (string \<times> string option) list option"
  sv_tessera_reload :: "string option option \<Rightarrow> ('w, tessera_error, json) eff"
  sv_tessera_text :: "tessera_error \<Rightarrow> string"
  sv_tessera_api :: "tessera_error \<Rightarrow> api_error"
  sv_sizes :: json_sizes
  sv_decode_reason :: string
  sv_request_value :: "request \<Rightarrow> string + json"
  sv_section :: "domain \<Rightarrow> desired_state \<Rightarrow> json"
  sv_api_error :: "json \<Rightarrow> string + api_error"
  sv_printer :: doc_printer
  sv_plugins :: "'w plugin_link"

record 'w applier_host =
  pd_world :: 'w
  pd_log :: "(request \<times> bool) list"
  pd_network :: obs_cache
  pd_applied :: applied_settings
  pd_tessera :: "seen option"
  pd_releases :: release_cache

definition world_e :: "('w, 'e, 'a) eff \<Rightarrow> ('w applier_host, 'e, 'a) eff" where
  "world_e m p = (let (x, w') = m (pd_world p) in (x, p\<lparr>pd_world := w'\<rparr>))"

definition map_err_e :: "('e \<Rightarrow> 'f) \<Rightarrow> ('w, 'e, 'a) eff \<Rightarrow> ('w, 'f, 'a) eff" where
  "map_err_e f m w = (let (x, w') = m w in (map_err f x, w'))"

definition of_r :: "'e + 'a \<Rightarrow> ('w, 'e, 'a) eff" where
  "of_r x w = (x, w)"

fun each_e :: "('x \<Rightarrow> ('w, 'e, unit) eff) \<Rightarrow> 'x list \<Rightarrow> ('w, 'e, unit) eff" where
  "each_e f [] = ret_e ()"
| "each_e f (x # xs) = bind_e (f x) (\<lambda>_. each_e f xs)"

definition sent_e :: "('w services \<Rightarrow> request \<Rightarrow> ('w, proto_error, privd_output) eff) \<Rightarrow> 'w services \<Rightarrow> request
    \<Rightarrow> ('w applier_host, proto_error, privd_output) eff" where
  "sent_e call sv r p =
     (let (x, w') = call sv r (pd_world p) in (x, p\<lparr>pd_world := w', pd_log := pd_log p @ [(r, is_ok x)]\<rparr>))"

definition privd_execute :: "'w services \<Rightarrow> request \<Rightarrow> ('w applier_host, proto_error, privd_output) eff" where
  "privd_execute = sent_e sv_execute"

definition privd_request :: "'w services \<Rightarrow> request \<Rightarrow> ('w applier_host, proto_error, privd_output) eff" where
  "privd_request = sent_e sv_request"

definition spawn_request :: "'w services \<Rightarrow> nat \<Rightarrow> request \<Rightarrow> ('w applier_host, 'e, unit) eff" where
  "spawn_request sv delay r p =
     (Inr (), p\<lparr>pd_world := sv_spawn sv delay r (pd_world p), pd_log := pd_log p @ [(r, True)]\<rparr>)"

section \<open>Followers\<close>

definition decoder_config :: "'w services \<Rightarrow> state_file \<Rightarrow> json" where
  "decoder_config sv st =
     json_obj [(''outputs'', sv_section sv DOutputs (sf_document st)), (''ndi'', sv_section sv DNdi (sf_document st))]"

definition restart_unit :: "'w services \<Rightarrow> managed_unit \<Rightarrow> ('w applier_host, string, unit) eff" where
  "restart_unit sv u =
     bind_e (map_err_e proto_error_text (privd_execute sv (ServiceControlUnit u UnitRestart))) (\<lambda>_. ret_e ())"

definition follow_decoder :: "'w services \<Rightarrow> state_file \<Rightarrow> service list \<Rightarrow> ('w applier_host, string, unit) eff" where
  "follow_decoder sv st restarts =
     bind_e (world_e (deliver (sv_decoder sv) st (decoder_config sv st))) (\<lambda>reply.
     bind_e (if json_index reply ''restart_required'' = JBool True
             then if SvcDecoder \<notin> set restarts
                  then err_e ''decoder requested a restart outside the declared impact''
                  else restart_unit sv UnitDecoder
             else ret_e ()) (\<lambda>_.
     bind_e (world_e (follower_request (sv_decoder sv) (json_obj [(''action'', JString ''reload_config'')]))) (\<lambda>_.
     ret_e ())))"

definition follow_finder :: "'w services \<Rightarrow> state_file \<Rightarrow> ('w applier_host, string, unit) eff" where
  "follow_finder sv st =
     bind_e (world_e (deliver (sv_finder sv) st (json_obj [(''ndi'', sv_section sv DNdi (sf_document st))]))) (\<lambda>reply.
       if json_index reply ''restart_required'' = JBool True then err_e ''finder requested an undeclared restart''
       else ret_e ())"

section \<open>Device\<close>

definition device_unit :: "service \<Rightarrow> (managed_unit, api_error) result" where
  "device_unit s =
     (case s of
        SvcControl \<Rightarrow> Inr UnitControl
      | SvcDecoder \<Rightarrow> Inr UnitDecoder
      | SvcFinder \<Rightarrow> Inr UnitFinder
      | _ \<Rightarrow> Inl (Unsupported ''service is outside the appliance System surface''))"

definition unit_action_of :: "service_action \<Rightarrow> unit_action" where
  "unit_action_of a =
     (case a of ActStart \<Rightarrow> UnitStart | ActStop \<Rightarrow> UnitStop | ActRestart \<Rightarrow> UnitRestart | ActReload \<Rightarrow> UnitReload)"

definition decoded :: "'w services \<Rightarrow> request \<Rightarrow> string + request" where
  "decoded sv r = decode_request (sv_sizes sv) (sv_decode_reason sv) r"

definition time_sync_request :: "'w services \<Rightarrow> device \<Rightarrow> string + request" where
  "time_sync_request sv d =
     decoded sv (SetTimeSync (if dev_ntp_server d = [] then None else Some (dev_ntp_server d)))"

definition hostname_request :: "'w services \<Rightarrow> device \<Rightarrow> string + request option" where
  "hostname_request sv d =
     (if dev_hostname d = [] then Inr None else bind_r (decoded sv (SetHostname (dev_hostname d))) (\<lambda>r. Inr (Some r)))"

definition schedule_request :: "'w services \<Rightarrow> device \<Rightarrow> string + request" where
  "schedule_request sv d =
     (let s = dev_reboot_schedule d in
      decoded sv (SetRebootSchedule
        (if \<not> rs_enabled s then RebootDisabled
         else if length (rs_days s) = 7 then RebootDaily (rs_time s)
         else RebootWeekly (rs_time s) (rs_days s))))"

definition device_deliver :: "'w services \<Rightarrow> state_file \<Rightarrow> ('w applier_host, string, unit) eff" where
  "device_deliver sv st =
     bind_e (world_e (deliver (sv_decoder sv) st (json_obj [(''device'', sv_section sv DDevice (sf_document st))]))) (\<lambda>reply.
       if json_index reply ''restart_required'' = JBool True
       then err_e (''device apply_config refused: '' @ lk_print (sv_decoder sv) reply)
       else ret_e ())"

definition device_setting :: "'w services \<Rightarrow> device \<Rightarrow> device_action \<Rightarrow> (string \<times> (string + request option)) option" where
  "device_setting sv d a =
     (case a of
        DeviceHostname \<Rightarrow> Some (''hostname'', hostname_request sv d)
      | DeviceTimeSync \<Rightarrow> Some (''time_sync'', bind_r (time_sync_request sv d) (\<lambda>r. Inr (Some r)))
      | DeviceRebootSchedule \<Rightarrow> Some (''reboot_schedule'', bind_r (schedule_request sv d) (\<lambda>r. Inr (Some r)))
      | _ \<Rightarrow> None)"

definition send_setting :: "'w services \<Rightarrow> bool \<Rightarrow> string \<Rightarrow> request \<Rightarrow> ('w applier_host, string, unit) eff" where
  "send_setting sv unchanged_are_skipped setting r p =
     (case sv_request_value sv r of
        Inl e \<Rightarrow> (Inl e, p)
      | Inr v \<Rightarrow>
          if unchanged_are_skipped \<and> is_applied setting v (pd_applied p) then (Inr (), p)
          else (case privd_execute sv r p of
                  (Inr _, p') \<Rightarrow> (Inr (), p'\<lparr>pd_applied := record_applied setting v (pd_applied p')\<rparr>)
                | (Inl e, p') \<Rightarrow> (Inl (proto_error_text e), p'\<lparr>pd_applied := forget_applied setting (pd_applied p')\<rparr>)))"

definition configure_one :: "'w services \<Rightarrow> state_file \<Rightarrow> bool \<Rightarrow> device_action \<Rightarrow> ('w applier_host, string, unit) eff" where
  "configure_one sv st unchanged_are_skipped a =
     (case device_setting sv (ds_device (sf_document st)) a of
        None \<Rightarrow> if a = DeviceApplyConfig then device_deliver sv st else ret_e ()
      | Some (setting, Inl e) \<Rightarrow> err_e e
      | Some (setting, Inr None) \<Rightarrow> ret_e ()
      | Some (setting, Inr (Some r)) \<Rightarrow> send_setting sv unchanged_are_skipped setting r)"

definition configure :: "'w services \<Rightarrow> state_file \<Rightarrow> bool \<Rightarrow> device_action list \<Rightarrow> ('w applier_host, string, unit) eff" where
  "configure sv st unchanged_are_skipped = each_e (configure_one sv st unchanged_are_skipped)"

definition device_actions :: "plan \<Rightarrow> device_action list" where
  "device_actions p = List.map_filter (\<lambda>a. case a of ActionDevice d \<Rightarrow> Some d | _ \<Rightarrow> None) (pp_actions p)"

fun device_checks :: "'w services \<Rightarrow> device \<Rightarrow> device_action list \<Rightarrow> string + unit" where
  "device_checks sv d [] = Inr ()"
| "device_checks sv d (a # as) =
     (case device_setting sv d a of
        None \<Rightarrow> device_checks sv d as
      | Some (_, r) \<Rightarrow> bind_r r (\<lambda>r.
          case r of
            None \<Rightarrow> device_checks sv d as
          | Some q \<Rightarrow> bind_r (map_err proto_error_text (request_validate (sv_sizes sv) q)) (\<lambda>_. device_checks sv d as)))"

definition device_preflight :: "'w services \<Rightarrow> state_file \<Rightarrow> state_file \<Rightarrow> plan \<Rightarrow> ('w applier_host, string, unit) eff" where
  "device_preflight sv previous next' p = of_r (device_checks sv (ds_device (sf_document next')) (device_actions p))"

definition ok_reply :: json where
  "ok_reply = json_obj [(''ok'', JBool True)]"

definition priv_error :: "proto_error \<Rightarrow> string" where
  "priv_error e = (case e of PBusy \<Rightarrow> ''update already running'' | _ \<Rightarrow> proto_error_text e)"

definition started_job :: "'w services \<Rightarrow> request \<Rightarrow> ('w applier_host, string, json) eff" where
  "started_job sv r =
     bind_e (map_err_e priv_error (privd_request sv r)) (\<lambda>out.
       ret_e (json_obj [(''ok'', JBool True), (''job'', case po_job out of None \<Rightarrow> JNull | Some j \<Rightarrow> JString j)]))"

fun device_effects :: "'w services \<Rightarrow> device_action list \<Rightarrow> ('w applier_host, string, json) eff" where
  "device_effects sv [] = ret_e ok_reply"
| "device_effects sv (a # as) =
     (case a of
        DeviceReboot \<Rightarrow> bind_e (spawn_request sv 1000 RebootHost) (\<lambda>_. device_effects sv as)
      | DeviceRestartStack \<Rightarrow> bind_e (spawn_request sv 500 RestartStackUnits) (\<lambda>_. device_effects sv as)
      | DeviceInstallUpdate version force \<Rightarrow>
          bind_e (of_r (decoded sv (InstallRelease version force))) (started_job sv)
      | DeviceServiceControl s act' \<Rightarrow>
          bind_e (of_r (map_err error_text (device_unit s))) (\<lambda>u. started_job sv (ServiceControlUnit u (unit_action_of act')))
      | _ \<Rightarrow> device_effects sv as)"

definition device_apply :: "'w services \<Rightarrow> state_file \<Rightarrow> plan \<Rightarrow> ('w applier_host, string, json) eff" where
  "device_apply sv st p =
     bind_e (configure sv st False (device_actions p)) (\<lambda>_. device_effects sv (device_actions p))"

definition device_rollback :: "'w services \<Rightarrow> state_file \<Rightarrow> plan \<Rightarrow> ('w applier_host, string, unit) eff" where
  "device_rollback sv st p = configure sv st False (device_actions p)"

definition device_replay :: "'w services \<Rightarrow> state_file \<Rightarrow> ('w applier_host, string, unit) eff" where
  "device_replay sv st =
     bind_e (configure sv st True
        ([DeviceHostname] @ (if dev_ntp_server (ds_device (sf_document st)) \<noteq> [] then [DeviceTimeSync] else [])
         @ [DeviceRebootSchedule])) (\<lambda>_. device_deliver sv st)"


section \<open>NDI, outputs, display, audio\<close>

definition ndi_effect :: "'w services \<Rightarrow> action \<Rightarrow> ('w applier_host, string, unit) eff" where
  "ndi_effect sv a =
     (case a of
        ActionNdi NdiRestartDecoder \<Rightarrow> restart_unit sv UnitDecoder
      | ActionNdi NdiRefresh \<Rightarrow> restart_unit sv UnitFinder
      | ActionNdi NdiReset \<Rightarrow> world_e (sv_param_file sv ''-rs'')
      | _ \<Rightarrow> ret_e ())"

definition ndi_apply :: "'w services \<Rightarrow> state_file \<Rightarrow> plan \<Rightarrow> ('w applier_host, string, json) eff" where
  "ndi_apply sv st p =
     bind_e (follow_finder sv st) (\<lambda>_.
     bind_e (follow_decoder sv st (im_restarts (pp_impact p))) (\<lambda>_.
     bind_e (each_e (ndi_effect sv) (pp_actions p)) (\<lambda>_. ret_e ok_reply)))"

definition ndi_rollback :: "'w services \<Rightarrow> state_file \<Rightarrow> plan \<Rightarrow> ('w applier_host, string, unit) eff" where
  "ndi_rollback sv st p =
     bind_e (follow_finder sv st) (\<lambda>_.
     bind_e (follow_decoder sv st (im_restarts (pp_impact p))) (\<lambda>_.
     if SvcDecoder \<in> set (im_restarts (pp_impact p)) then restart_unit sv UnitDecoder else ret_e ()))"

definition output_verb :: "outputs_action \<Rightarrow> (output_id \<times> string) option" where
  "output_verb a =
     (case a of
        OutputsResolution o' \<Rightarrow> Some (o', ''resolution'')
      | OutputsRotation o' \<Rightarrow> Some (o', ''rotation'')
      | OutputsScale o' \<Rightarrow> Some (o', ''scale'')
      | OutputsReconnect o' \<Rightarrow> Some (o', ''reconnect'')
      | OutputsRetry o' _ _ \<Rightarrow> Some (o', ''retry'')
      | OutputsForgetNow o' \<Rightarrow> Some (o', ''forget'')
      | _ \<Rightarrow> None)"

definition scale_text :: "scale_mode \<Rightarrow> string" where
  "scale_text m = (case m of Stretch \<Rightarrow> ''stretch'' | Letterbox \<Rightarrow> ''letterbox'' | Crop \<Rightarrow> ''crop'')"

definition video_command :: "'w services \<Rightarrow> output_cfg \<Rightarrow> outputs_action \<Rightarrow> ('w applier_host, string, (string \<times> json) list) eff" where
  "video_command sv out a =
     (case a of
        OutputsResolution _ \<Rightarrow>
          bind_e (world_e (sv_deadline sv)) (\<lambda>t. ret_e
            (case ov_resolution (out_video out) of
               ResMode w h hz \<Rightarrow>
                 [(''action'', JString ''set_resolution''), (''width'', JInt (uint w)), (''height'', JInt (uint h)),
                  (''refresh'', JInt 0), (''refresh_hz'', JFloat hz), (''deadline_monotonic_ms'', JInt t)]
             | ResAuto \<Rightarrow> [(''action'', JString ''auto_resolution''), (''deadline_monotonic_ms'', JInt t)]))
      | OutputsRotation _ \<Rightarrow>
          ret_e [(''action'', JString ''set_rotation''), (''rotation'', JInt (uint (ov_rotation (out_video out))))]
      | OutputsScale _ \<Rightarrow>
          ret_e [(''action'', JString ''set_scale_mode''), (''scale_mode'', JString (scale_text (ov_scale_mode (out_video out))))]
      | OutputsForgetNow _ \<Rightarrow> ret_e [(''action'', JString ''forget_source'')]
      | OutputsRetry _ nm ep \<Rightarrow>
          ret_e [(''action'', JString ''connect''), (''source_name'', JString nm), (''source_ip'', JString ep)]
      | _ \<Rightarrow>
          (case out_source out of
             None \<Rightarrow> err_e ''no saved source''
           | Some src \<Rightarrow> (\<lambda>p.
               let (found, w') = sv_sources sv (pd_world p);
                   sources = (case found of Inr v \<Rightarrow> v | Inl _ \<Rightarrow> JNull);
                   ep = (case json_text (json_index (json_index sources ''list'') (src_name src)) of
                           Some t \<Rightarrow> if valid_endpoint (sv_printer sv) t then t else src_endpoint src
                         | None \<Rightarrow> src_endpoint src)
               in (Inr [(''action'', JString ''connect''), (''source_name'', JString (src_name src)), (''source_ip'', JString ep)],
                   p\<lparr>pd_world := w'\<rparr>))))"

fun apply_actions :: "'w services \<Rightarrow> state_file \<Rightarrow> json \<Rightarrow> action list \<Rightarrow> ('w applier_host, string, json) eff" where
  "apply_actions sv st reply [] = ret_e reply"
| "apply_actions sv st reply (ActionOutputs a # as) =
     (case output_verb a of
        None \<Rightarrow> apply_actions sv st reply as
      | Some (ident, _) \<Rightarrow>
          (case bt_get (ds_outputs (sf_document st)) ident of
             None \<Rightarrow> err_e ''output missing''
           | Some out \<Rightarrow>
               bind_e (video_command sv out a) (\<lambda>command.
               bind_e (world_e (lk_client (sv_decoder sv) (json_set ''output'' (JInt (uint ident - 1)) (json_obj command)))) (\<lambda>result.
               if json_index result ''ok'' \<noteq> JBool True then err_e (lk_print (sv_decoder sv) result)
               else apply_actions sv st result as))))"
| "apply_actions sv st reply (_ # as) = apply_actions sv st reply as"

definition check_rotation :: "'w services \<Rightarrow> state_file \<Rightarrow> action \<Rightarrow> ('w applier_host, string, unit) eff" where
  "check_rotation sv next' a =
     (case a of
        ActionOutputs (OutputsRotation ident) \<Rightarrow>
          bind_e (world_e (lk_client (sv_decoder sv)
                    (json_obj [(''action'', JString ''get_modes''), (''output'', JInt (uint ident - 1))]))) (\<lambda>modes.
            case (json_index modes ''supported_rotations'', bt_get (ds_outputs (sf_document next')) ident) of
              (JArray xs, Some out) \<Rightarrow>
                if JInt (uint (ov_rotation (out_video out))) \<in> set xs then ret_e ()
                else err_e (lk_print (sv_decoder sv) (json_obj [(''ok'', JBool False), (''error'', JString ''rotation_unsupported'')]))
            | _ \<Rightarrow> err_e (lk_print (sv_decoder sv) (json_obj [(''ok'', JBool False), (''error'', JString ''rotation_unsupported'')])))
      | _ \<Rightarrow> ret_e ())"

definition outputs_preflight :: "'w services \<Rightarrow> state_file \<Rightarrow> state_file \<Rightarrow> plan \<Rightarrow> ('w applier_host, string, unit) eff" where
  "outputs_preflight sv previous next' p =
     bind_e (each_e (check_rotation sv next') (pp_actions p)) (\<lambda>_. follow_decoder sv previous [])"

definition outputs_apply :: "'w services \<Rightarrow> state_file \<Rightarrow> plan \<Rightarrow> ('w applier_host, string, json) eff" where
  "outputs_apply sv st p =
     bind_e (apply_actions sv st ok_reply (pp_actions p)) (\<lambda>reply.
     bind_e (follow_decoder sv st (im_restarts (pp_impact p))) (\<lambda>_. ret_e reply))"

definition video_output :: "action \<Rightarrow> output_id option" where
  "video_output a =
     (case a of
        ActionOutputs (OutputsResolution o') \<Rightarrow> Some o'
      | ActionOutputs (OutputsRotation o') \<Rightarrow> Some o'
      | ActionOutputs (OutputsScale o') \<Rightarrow> Some o'
      | _ \<Rightarrow> None)"

definition with_default_output :: "output_id \<Rightarrow> state_file \<Rightarrow> state_file" where
  "with_default_output ident st =
     (if bt_contains (ds_outputs (sf_document st)) ident then st
      else st\<lparr>sf_document := sf_document st\<lparr>ds_outputs := bt_insert ident default_output (ds_outputs (sf_document st))\<rparr>\<rparr>)"

definition outputs_rollback :: "'w services \<Rightarrow> state_file \<Rightarrow> plan \<Rightarrow> ('w applier_host, string, unit) eff" where
  "outputs_rollback sv st p pd =
     (let video = filter (\<lambda>a. video_output a \<noteq> None) (pp_actions p);
          previous = fold (\<lambda>a s. case video_output a of Some ident \<Rightarrow> with_default_output ident s | None \<Rightarrow> s) video st;
          (outcome, pd1) = apply_actions sv previous ok_reply video pd;
          (delivered, pd2) = follow_decoder sv st [] pd1
      in (bind_r outcome (\<lambda>_. delivered), pd2))"

definition outputs_replay :: "'w services \<Rightarrow> state_file \<Rightarrow> ('w applier_host, string, unit) eff" where
  "outputs_replay sv st = follow_decoder sv st []"

definition display_deliver :: "'w services \<Rightarrow> state_file \<Rightarrow> ('w applier_host, string, json) eff" where
  "display_deliver sv st =
     bind_e (world_e (deliver (sv_decoder sv) st (json_obj [(''display'', sv_section sv DDisplay (sf_document st))]))) (\<lambda>reply.
       if json_index reply ''restart_required'' = JBool True then err_e (lk_print (sv_decoder sv) reply) else ret_e reply)"

definition display_apply :: "'w services \<Rightarrow> state_file \<Rightarrow> plan \<Rightarrow> ('w applier_host, string, json) eff" where
  "display_apply sv st p =
     bind_e (display_deliver sv st) (\<lambda>v. ret_e (json_obj [(''ok'', JBool True), (''display'', v)]))"

definition display_replay :: "'w services \<Rightarrow> state_file \<Rightarrow> ('w applier_host, string, unit) eff" where
  "display_replay sv st = bind_e (display_deliver sv st) (\<lambda>_. ret_e ())"

definition audio_apply :: "'w services \<Rightarrow> state_file \<Rightarrow> plan \<Rightarrow> ('w applier_host, string, json) eff" where
  "audio_apply sv st p =
     (if ActionAudio RestartDecoder \<in> set (pp_actions p)
      then bind_e (restart_unit sv UnitDecoder) (\<lambda>_. ret_e (json_obj [(''ok'', JBool True), (''restarted'', JBool True)]))
      else bind_e (world_e (lk_client (sv_decoder sv) (json_obj [(''action'', JString ''reload_audio'')]))) (\<lambda>reply.
             if json_index reply ''ok'' \<noteq> JBool True then err_e (lk_print (sv_decoder sv) reply) else ret_e reply))"


text \<open>Tessera is owned natively, so the branch of the audio preflight that writes PCM ranges is never taken.\<close>

definition audio_preflight :: "'w services \<Rightarrow> state_file \<Rightarrow> state_file \<Rightarrow> plan \<Rightarrow> ('w applier_host, string, unit) eff" where
  "audio_preflight sv previous next' p =
     (if ActionAudio CheckAudio \<in> set (pp_actions p)
      then bind_e (world_e (lk_client (sv_decoder sv) (json_obj [(''action'', JString ''check_audio'')]))) (\<lambda>cap.
        if json_index cap ''ok'' \<noteq> JBool True
        then err_e (case json_text (json_index cap ''error'') of Some e \<Rightarrow> e | None \<Rightarrow> ''decoder did not report video delay cap'')
        else (case as_u64 (json_index cap ''video_delay_cap_ms'') of
                None \<Rightarrow> err_e ''decoder did not report video delay cap''
              | Some n \<Rightarrow>
                  if n < unat (au_video_delay_ms (ds_audio (sf_document next')))
                  then err_e (''video delay capped at '' @ dec n @ '' ms'') else ret_e ()))
      else ret_e ())"

section \<open>Tessera\<close>

definition look :: "'w services \<Rightarrow> 'w applier_host \<Rightarrow> seen \<times> 'w applier_host" where
  "look sv p =
     (let sent = sv_now sv (pd_world p);
          (uptime, w') = sv_tessera_uptime sv (pd_world p);
          received = sv_now sv w'
      in (\<lparr>se_artifacts = sv_tessera_files sv w', se_daemon = Option.bind uptime (from_uptime sent received)\<rparr>,
          p\<lparr>pd_world := w'\<rparr>))"

definition tessera_preflight :: "'w services \<Rightarrow> state_file \<Rightarrow> state_file \<Rightarrow> plan \<Rightarrow> ('w applier_host, string, unit) eff" where
  "tessera_preflight sv previous next' p pd =
     (case ds_tessera (sf_document next') of
        None \<Rightarrow> (Inr (), pd)
      | Some t \<Rightarrow>
          (let (status, w') = sv_tessera_flow_lock sv (pd_world pd); pd' = pd\<lparr>pd_world := w'\<rparr> in
           case status of
             Inl _ \<Rightarrow> (Inr (), pd')
           | Inr supports \<Rightarrow>
               if te_protocol_flow_lock t \<noteq> supports
               then (Inl ''Tessera flow lock mode must match the daemon contract; wait for capability reconciliation'', pd')
               else (Inr (), pd')))"

definition tessera_unit_action :: "tessera_service_action \<Rightarrow> unit_action" where
  "tessera_unit_action a =
     (case a of TesStart \<Rightarrow> UnitStart | TesStop \<Rightarrow> UnitStop | TesRestart \<Rightarrow> UnitRestart | TesReload \<Rightarrow> UnitReload)"

definition tessera_effect ::
  "'w services \<Rightarrow> plan \<Rightarrow> bool \<Rightarrow> action \<Rightarrow> json \<Rightarrow> ('w applier_host, api_error, json) eff" where
  "tessera_effect sv p back' a result =
     (if a = ActionTessera TesseraReload \<or> a = ActionTessera (TesseraServiceAct TesReload)
      then (\<lambda>pd.
        let (s, pd1) = look sv pd;
            (x, w') = sv_tessera_reload sv (if back' then Some None else pp_confirmation p) (pd_world pd1)
        in (case x of
              Inl e \<Rightarrow> (Inl (sv_tessera_api sv e), pd1\<lparr>pd_world := w'\<rparr>)
            | Inr v \<Rightarrow> (Inr v, pd1\<lparr>pd_world := w', pd_tessera := Some s\<rparr>)))
      else (case a of
        ActionTessera (TesseraServiceAct act') \<Rightarrow>
          if back' then ret_e result
          else bind_e (map_err_e (\<lambda>e. Internal (proto_error_text e))
                 (privd_execute sv (TesseraServiceUnit (tessera_unit_action act')))) (\<lambda>_. ret_e result)
      | _ \<Rightarrow> ret_e result))"

fun tessera_effects :: "'w services \<Rightarrow> plan \<Rightarrow> bool \<Rightarrow> json \<Rightarrow> action list \<Rightarrow> ('w applier_host, api_error, json) eff" where
  "tessera_effects sv p back' result [] = ret_e (json_obj [(''ok'', JBool True), (''tessera_result'', result)])"
| "tessera_effects sv p back' result (a # as) =
     bind_e (tessera_effect sv p back' a result) (\<lambda>result. tessera_effects sv p back' result as)"

definition tessera_apply :: "'w services \<Rightarrow> plan \<Rightarrow> bool \<Rightarrow> ('w applier_host, api_error, json) eff" where
  "tessera_apply sv p back' = tessera_effects sv p back' (JString ''done'') (pp_actions p)"

definition tessera_enabled :: "state_file \<Rightarrow> bool" where
  "tessera_enabled st =
     (ds_tessera (sf_document st) \<noteq> None
      \<and> (case bt_get (ds_plugins (sf_document st)) ''tessera'' of Some pl \<Rightarrow> pl_enabled pl | None \<Rightarrow> False))"

definition tessera_replay :: "'w services \<Rightarrow> state_file \<Rightarrow> ('w applier_host, string, unit) eff" where
  "tessera_replay sv st pd =
     (if \<not> tessera_enabled st then (Inr (), pd)
      else
        let (status, w') = sv_tessera_flow_lock sv (pd_world pd); pd' = pd\<lparr>pd_world := w'\<rparr> in
        case status of
          Inl TesseraIo \<Rightarrow> (Inr (), pd'\<lparr>pd_tessera := None\<rparr>)
        | Inl e \<Rightarrow> (Inl (sv_tessera_text sv e), pd')
        | Inr _ \<Rightarrow>
            (let (s, pd1) = look sv pd' in
             if due (pd_tessera pd1) s
             then (case sv_tessera_reload sv (Some None) (pd_world pd1) of
                     (Inl e, w2) \<Rightarrow> (Inl (sv_tessera_text sv e), pd1\<lparr>pd_world := w2\<rparr>)
                   | (Inr _, w2) \<Rightarrow> (Inr (), pd1\<lparr>pd_world := w2, pd_tessera := Some s\<rparr>))
             else (Inr (), pd1)))"

section \<open>Network calls and observations\<close>

definition drop_observation :: "'w applier_host \<Rightarrow> 'w applier_host" where
  "drop_observation p = p\<lparr>pd_network := invalidate (pd_network p)\<rparr>"

definition network :: "'w services \<Rightarrow> network_call \<Rightarrow> ('w applier_host, api_error, json) eff" where
  "network sv call p =
     (let p0 = (if is_read_only call then p else drop_observation p);
          (out, p1) = privd_execute sv (NetworkNative call) p0;
          p2 = (if is_read_only call then p1 else drop_observation p1)
      in (case out of
            Inl e \<Rightarrow> (Inl (ApplyFailed DNetwork ''privd'' (proto_error_text e)), p2)
          | Inr o' \<Rightarrow>
              (case po_data o' of
                 None \<Rightarrow> (Inl (Internal ''missing network reply''), p2)
               | Some v \<Rightarrow>
                   (case json_get v ''err'' of
                      Some error \<Rightarrow>
                        (case sv_api_error sv error of Inl e \<Rightarrow> (Inl (Internal e), p2) | Inr e \<Rightarrow> (Inl e, p2))
                    | None \<Rightarrow> (ok_or (json_get v ''ok'') (Internal ''invalid network reply''), p2)))))"

definition network_observation :: "'w services \<Rightarrow> ('w applier_host, api_error, json) eff" where
  "network_observation sv p =
     (case obs_fresh (sv_now sv (pd_world p)) OBSERVATION_MAX_AGE (pd_network p) of
        Some v \<Rightarrow> (Inr v, p)
      | None \<Rightarrow>
          (let generation = oc_generation (pd_network p) in
           case network sv CallObserve p of
             (Inl e, p') \<Rightarrow> (Inl e, p')
           | (Inr v, p') \<Rightarrow> (Inr v, p'\<lparr>pd_network := keep (sv_now sv (pd_world p')) generation v (pd_network p')\<rparr>)))"

definition fetch_release :: "'w services \<Rightarrow> 'w applier_host \<Rightarrow> release_answer \<times> 'w applier_host" where
  "fetch_release sv p =
     (case privd_execute sv CheckUpdate p of
        (Inl (PFailed _ reason _), p') \<Rightarrow> (Inl reason, p')
      | (Inl e, p') \<Rightarrow> (Inl (proto_error_text e), p')
      | (Inr out, p') \<Rightarrow>
          (case json_index (case po_data out of Some v \<Rightarrow> v | None \<Rightarrow> JNull) ''latest_version'' of
             JString version \<Rightarrow> (Inr (Some version), p')
           | JNull \<Rightarrow> (Inr None, p')
           | _ \<Rightarrow> (Inl ''the update agent gave no release answer'', p')))"

definition latest_release :: "'w services \<Rightarrow> 'w applier_host \<Rightarrow> release_answer \<times> 'w applier_host" where
  "latest_release sv p =
     (case release_holds (sv_now sv (pd_world p)) RELEASE_MAX_AGE RELEASE_RETRY_AFTER (pd_releases p) of
        Some answer \<Rightarrow> (answer, p)
      | None \<Rightarrow>
          (let (answer, p') = fetch_release sv p
           in (answer, p'\<lparr>pd_releases := Some (sv_now sv (pd_world p'), answer)\<rparr>)))"

definition legacy_recovery :: "api_error \<Rightarrow> bool" where
  "legacy_recovery e = (case e of Locked _ (Some by') \<Rightarrow> by' = ''legacy_network_recovery'' | _ \<Rightarrow> False)"

definition network_follower_error :: "string \<Rightarrow> api_error" where
  "network_follower_error reason = ApplyFailed DNetwork ''follower'' reason"

definition network_deliver :: "'w services \<Rightarrow> state_file \<Rightarrow> ('w applier_host, api_error, unit) eff" where
  "network_deliver sv st =
     bind_e (map_err_e network_follower_error
        (world_e (deliver (sv_decoder sv) st (json_obj [(''network'', sv_section sv DNetwork (sf_document st))])))) (\<lambda>reply.
       if json_index reply ''restart_required'' = JBool True
       then err_e (network_follower_error (lk_print (sv_decoder sv) reply)) else ret_e ())"

definition network_replay :: "'w services \<Rightarrow> state_file \<Rightarrow> ('w applier_host, string, unit) eff" where
  "network_replay sv st p =
     (if nps_backend (ds_network (sf_document st)) = None then (Inr (), p)
      else (case network_observation sv p of
         (Inl e, p') \<Rightarrow>
           if (case e of Locked _ (Some by') \<Rightarrow> by' = ''state_transaction'' | _ \<Rightarrow> False) \<or> legacy_recovery e
           then (Inr (), p') else (Inl (error_text e), p')
       | (Inr status, p') \<Rightarrow>
           if json_index status ''externally_managed'' = JBool True \<or> json_index status ''quiesced'' = JBool True
           then (Inr (), p')
           else map_err_e error_text (network_deliver sv st) p'))"

section \<open>Plugins\<close>

text \<open>
  The hooks of the plugin module (domains/plugins.rs, and \<open>finish\<close> of plugins/jobs.rs). A call of the plugin
  host or of the privileged process ends after two seconds; then the answer is \<open>None\<close>. The host sends no
  privileged requests of its own in answering them.
\<close>

definition text_or :: "string \<Rightarrow> json \<Rightarrow> string" where
  "text_or d v = (case json_text v of Some t \<Rightarrow> t | None \<Rightarrow> d)"

definition try_e :: "('w, 'e, 'a) eff \<Rightarrow> ('w, 'f, 'e + 'a) eff" where
  "try_e m p = (let (x, p') = m p in (Inr x, p'))"

definition plugin_call :: "'w plugin_link \<Rightarrow> json \<Rightarrow> ('w, string, json) eff" where
  "plugin_call pk req w =
     (case pk_host pk (json_set ''wait_ready'' (JBool False) req) w of
        (None, w') \<Rightarrow> (Inl ''plugin host timeout'', w')
      | (Some x, w') \<Rightarrow> (x, w'))"

definition bridge :: "'w services \<Rightarrow> json \<Rightarrow> ('w applier_host, string, json) eff" where
  "bridge sv req = world_e (plugin_call (sv_plugins sv) req)"

definition uncertain_error :: "proto_error \<Rightarrow> bool" where
  "uncertain_error e =
     (case e of
        PFailed step reason _ \<Rightarrow> step \<in> set [''send'', ''receive'', ''request''] \<or> contains_str ''NDIMON_PLUGIN_JOB='' reason
      | _ \<Rightarrow> False)"

definition plugin_execute_error :: "proto_error \<Rightarrow> string" where
  "plugin_execute_error e = (if uncertain_error e then ''uncertain: '' @ proto_error_text e else proto_error_text e)"

definition privileged :: "'w services \<Rightarrow> request \<Rightarrow> ('w applier_host, string, json) eff" where
  "privileged sv r p =
     (let (x, w') = pk_privd (sv_plugins sv) r (pd_world p);
          ok = (case x of Some y \<Rightarrow> is_ok y | None \<Rightarrow> False)
      in (case x of
            None \<Rightarrow> Inl ''uncertain: plugin privileged acknowledgement timeout''
          | Some y \<Rightarrow> map_err plugin_execute_error y,
          p\<lparr>pd_world := w', pd_log := pd_log p @ [(r, ok)]\<rparr>))"

definition named_operation :: "string \<Rightarrow> string \<Rightarrow> json" where
  "named_operation op n = json_obj [(''operation'', JString op), (''name'', JString n)]"

definition enabled_operation :: "string \<Rightarrow> bool \<Rightarrow> json" where
  "enabled_operation n enabled =
     json_obj [(''operation'', JString ''enabled''), (''name'', JString n), (''enabled'', JBool enabled)]"

definition installed_operation :: "string \<Rightarrow> string \<Rightarrow> bool \<Rightarrow> string \<Rightarrow> json" where
  "installed_operation n version enable archive =
     json_obj [(''operation'', JString ''installed''), (''name'', JString n), (''version'', JString version),
               (''pending_enable'', JBool enable), (''archive'', JString archive)]"

definition has_job :: "json \<Rightarrow> bool" where
  "has_job v = (json_text (json_index v ''job'') \<noteq> None)"

definition started_reply :: "json \<Rightarrow> json" where
  "started_reply v =
     json_obj [(''ok'', JBool True), (''job'', json_index v ''job''), (''_plugin_job'', json_index v ''job'')]"

definition output_text :: "json \<Rightarrow> string" where
  "output_text v = text_or [] (json_index v ''stdout'') @ text_or [] (json_index v ''stderr'')"

definition enabled_reply :: "bool \<Rightarrow> string \<Rightarrow> json" where
  "enabled_reply enabled text' =
     json_obj [(''ok'', JBool True), (''state'', JString (if enabled then ''enabled'' else ''installed'')), (''log'', JString text')]"

definition removed_reply :: "string \<Rightarrow> json" where
  "removed_reply text' = json_obj [(''ok'', JBool True), (''state'', JString ''removed''), (''log'', JString text')]"

definition installed_reply :: "'w services \<Rightarrow> string \<Rightarrow> bool \<Rightarrow> json \<Rightarrow> string \<Rightarrow> ('w applier_host, string, json) eff" where
  "installed_reply sv n enable load_error text' =
     bind_e (try_e (bridge sv (named_operation ''manifest'' n))) (\<lambda>found.
       let ent = (case found of Inr v \<Rightarrow> v | Inl _ \<Rightarrow> JNull) in
       case json_text (json_index ent ''migration_warning'') of
         None \<Rightarrow> ret_e (json_obj [(''ok'', JBool True), (''state'', JString ''installed''), (''restart_pending'', JBool True),
           (''load_error'', load_error), (''pending_enable'', JBool enable), (''log'', JString text')])
       | Some warning \<Rightarrow>
           (let reply = json_obj [(''ok'', JBool True), (''state'', JString ''installed''), (''restart_pending'', JBool False),
              (''load_error'', load_error), (''pending_enable'', JBool False), (''migration_warning'', JString warning),
              (''log'', JString text')]
            in ret_e (if enable then json_set ''enable_error'' (JString warning) reply else reply)))"

definition plugin_start :: "'w services \<Rightarrow> request \<Rightarrow> ('w applier_host, string, json) eff" where
  "plugin_start sv r =
     bind_e (bridge sv (json_obj [(''operation'', JString ''job'')])) (\<lambda>journal.
       if has_job journal then err_e ''busy: plugin job requires observation or operator investigation''
       else privileged sv r)"

definition plugin_deliver :: "'w services \<Rightarrow> state_file \<Rightarrow> ('w applier_host, string, unit) eff" where
  "plugin_deliver sv st =
     bind_e (world_e (deliver
         \<lparr>lk_client = plugin_call (sv_plugins sv), lk_sleep = pk_sleep (sv_plugins sv), lk_print = pk_print (sv_plugins sv)\<rparr>
         st (json_obj [(''plugins'', sv_section sv DPlugins (sf_document st))]))) (\<lambda>reply.
       if json_index reply ''restart_required'' = JBool True
       then err_e ''legacy plugin follower requested an unplanned restart'' else ret_e ())"

definition plugin_stop :: "'w services \<Rightarrow> string \<Rightarrow> ('w applier_host, string, unit) eff" where
  "plugin_stop sv n =
     bind_e (bridge sv (named_operation ''manifest'' n)) (\<lambda>ent.
       if is_object (json_index (json_index ent ''manifest'') ''process'')
       then bind_e (world_e (\<lambda>w. (Inr (), pk_quiesce (sv_plugins sv) n w))) (\<lambda>_.
            bind_e (of_r (plugin_name_try_from n)) (\<lambda>n.
            bind_e (privileged sv (PluginRuntimeStop n)) (\<lambda>_. ret_e ())))
       else ret_e ())"

definition service_request :: "'w services \<Rightarrow> bool \<Rightarrow> json \<Rightarrow> string + request" where
  "service_request sv enabled u =
     (case u of
        JString n \<Rightarrow> decoded sv (PluginServiceControl n (if enabled then UnitStart else UnitStop))
      | _ \<Rightarrow> Inl (sv_decode_reason sv))"

fun collect_r :: "(string + 'a) list \<Rightarrow> string + 'a list" where
  "collect_r [] = Inr []"
| "collect_r (x # xs) = bind_r x (\<lambda>y. bind_r (collect_r xs) (\<lambda>ys. Inr (y # ys)))"

definition service_requests :: "'w services \<Rightarrow> string \<Rightarrow> bool \<Rightarrow> json \<Rightarrow> bool \<Rightarrow> string + request list" where
  "service_requests sv n enabled man hooks =
     (let command = (if enabled then ''enable'' else ''disable'') in
      if hooks \<and> (case as_array (json_index man ''priv_commands'') of Some vs \<Rightarrow> JString command \<in> set vs | None \<Rightarrow> False)
      then bind_r (decoded sv (PluginExec n command)) (\<lambda>r. Inr [r])
      else collect_r (map (service_request sv enabled)
             (case as_array (json_index man ''services'') of Some us \<Rightarrow> us | None \<Rightarrow> [])))"

definition service_call :: "'w services \<Rightarrow> request \<Rightarrow> ('w applier_host, string, json) eff" where
  "service_call sv r = (case r of PluginExec _ _ \<Rightarrow> plugin_start sv r | _ \<Rightarrow> privileged sv r)"

fun service_loop :: "'w services \<Rightarrow> string \<Rightarrow> request list \<Rightarrow> ('w applier_host, string, json) eff" where
  "service_loop sv text' [] = ret_e (json_obj [(''stdout'', JString text'), (''stderr'', JString [])])"
| "service_loop sv text' (r # rs) =
     bind_e (service_call sv r) (\<lambda>out. if has_job out then ret_e out else service_loop sv (text' @ output_text out) rs)"

definition plugin_services ::
  "'w services \<Rightarrow> string \<Rightarrow> bool \<Rightarrow> json \<Rightarrow> bool \<Rightarrow> ('w applier_host, string, json) eff" where
  "plugin_services sv n enabled ent hooks =
     (let man = json_index ent ''manifest'' in
      bind_e (if \<not> enabled \<and> is_object (json_index man ''process'') then plugin_stop sv n else ret_e ()) (\<lambda>_.
      bind_e (of_r (service_requests sv n enabled man hooks)) (\<lambda>rs. service_loop sv [] rs)))"

definition desired_enabled :: "state_file \<Rightarrow> string \<Rightarrow> bool" where
  "desired_enabled st n = (case bt_get (ds_plugins (sf_document st)) n of Some pl \<Rightarrow> pl_enabled pl | None \<Rightarrow> False)"

text \<open>The loader's answer to an installation, and what the operator reads of it.\<close>

definition report_installed ::
  "'w services \<Rightarrow> string \<Rightarrow> string \<Rightarrow> bool \<Rightarrow> string \<Rightarrow> string \<Rightarrow> ('w applier_host, string, json) eff" where
  "report_installed sv n version enable archive text' =
     bind_e (try_e (bridge sv (installed_operation n version enable archive))) (\<lambda>answer.
       let feedback = (case answer of Inr v \<Rightarrow> v | Inl error \<Rightarrow> json_obj [(''load_error'', JString error)]) in
       installed_reply sv n enable (case json_get feedback ''load_error'' of Some v \<Rightarrow> v | None \<Rightarrow> JNull) text')"

definition put_services_back :: "'w services \<Rightarrow> state_file \<Rightarrow> string \<Rightarrow> ('w applier_host, string, json) eff" where
  "put_services_back sv st n =
     bind_e (bridge sv (named_operation ''manifest'' n)) (\<lambda>ent.
     bind_e (plugin_services sv n (desired_enabled st n) ent False) (\<lambda>_.
     bridge sv (enabled_operation n (desired_enabled st n))))"

definition job_result_json :: "job_result \<Rightarrow> json" where
  "job_result_json r =
     json_obj [(''job'', JString (jr_job r)),
       (''response'', case jr_response r of Inr v \<Rightarrow> json_obj [(''Ok'', v)] | Inl e \<Rightarrow> json_obj [(''Err'', JString e)]),
       (''investigation'', JBool (jr_investigation r))]"

definition error_json :: "string + json \<Rightarrow> json" where
  "error_json x = (case x of Inl e \<Rightarrow> JString e | Inr _ \<Rightarrow> JNull)"

definition finished_success :: "'w services \<Rightarrow> state_file \<Rightarrow> plugin_action \<Rightarrow> json \<Rightarrow> ('w applier_host, string, json) eff" where
  "finished_success sv st a out =
     (case a of
        PluginsInstall n archive version enable _ \<Rightarrow> report_installed sv n version enable archive (output_text out)
      | PluginsEnable n enabled \<Rightarrow>
          bind_e (plugin_deliver sv st) (\<lambda>_.
          bind_e (bridge sv (enabled_operation n enabled)) (\<lambda>_. ret_e (enabled_reply enabled (output_text out))))
      | PluginsRemove n _ _ \<Rightarrow>
          bind_e (try_e (bridge sv (named_operation ''removed'' n))) (\<lambda>_. ret_e (removed_reply (output_text out)))
      | _ \<Rightarrow> err_e ''invalid plugin completion action'')"

definition finished_failure :: "'w services \<Rightarrow> state_file \<Rightarrow> plugin_action \<Rightarrow> string \<Rightarrow> ('w applier_host, string, string) eff" where
  "finished_failure sv st a error =
     bind_e (try_e (plugin_deliver sv st)) (\<lambda>x.
       let error1 = (case x of Inl e \<Rightarrow> error @ ''; loader rollback failed: '' @ e | Inr _ \<Rightarrow> error) in
       case a of
         PluginsEnable n _ \<Rightarrow>
           bind_e (try_e (put_services_back sv st n)) (\<lambda>y.
             ret_e (case y of Inl e \<Rightarrow> error1 @ ''; service rollback failed: '' @ e | Inr _ \<Rightarrow> error1))
       | _ \<Rightarrow> ret_e error1)"

definition plugin_finish ::
  "'w services \<Rightarrow> state_file \<Rightarrow> pending_job \<Rightarrow> job_outcome \<Rightarrow> ('w applier_host, string, json) eff" where
  "plugin_finish sv st pending outcome =
     bind_e (case outcome of
               JobSuccess out \<Rightarrow> bind_e (finished_success sv st (pj_action pending) out) (\<lambda>v. ret_e (Inr v))
             | JobFailure error \<Rightarrow> bind_e (finished_failure sv st (pj_action pending) error) (\<lambda>e. ret_e (Inl e))
             | JobUnknown error \<Rightarrow> ret_e (Inl error)) (\<lambda>response.
     let investigation = (case outcome of JobUnknown _ \<Rightarrow> True | _ \<Rightarrow> False) in
     bind_e (if investigation
             then bridge sv (json_obj [(''operation'', JString ''job''), (''value'', JString (pj_id pending)),
                    (''error'', error_json response)])
             else ret_e JNull) (\<lambda>_.
     ret_e (json_obj [(''_domain_failure'', error_json response),
       (''_plugin_result'', job_result_json
          \<lparr>jr_job = pj_id pending, jr_response = response, jr_investigation = investigation\<rparr>)])))"

definition plugin_install_effect ::
  "'w services \<Rightarrow> string \<Rightarrow> string \<Rightarrow> string \<Rightarrow> bool \<Rightarrow> bool \<Rightarrow> ('w applier_host, string, json) eff" where
  "plugin_install_effect sv n archive version enable force =
     bind_e (plugin_stop sv n) (\<lambda>_.
     bind_e (of_r (decoded sv (PluginInstall n (ArchiveDownload archive) (Some version) force))) (\<lambda>r.
     bind_e (plugin_start sv r) (\<lambda>installed.
       if has_job installed then ret_e (started_reply installed)
       else report_installed sv n version enable archive (output_text installed))))"

definition enable_refusal :: "state_file \<Rightarrow> string \<Rightarrow> bool \<Rightarrow> json \<Rightarrow> string + unit" where
  "enable_refusal st n enabled ent =
     (let inactive_legacy = (\<not> enabled \<and> json_text (json_index ent ''migration_warning'') \<noteq> None) in
      if \<not> inactive_legacy \<and> text_or ''error'' (json_index ent ''state'') \<notin> set [''installed'', ''enabled'']
      then Inl (text_or ''plugin not installed'' (json_index ent ''error''))
      else if (case bt_get (ds_plugins (sf_document st)) n of
                 Some pl \<Rightarrow> json_text (json_index ent ''version'') \<noteq> Some (pl_version pl) | None \<Rightarrow> False)
      then Inl ''installed version differs from accepted plugin version''
      else Inr ())"

definition plugin_enable_effect :: "'w services \<Rightarrow> state_file \<Rightarrow> string \<Rightarrow> bool \<Rightarrow> ('w applier_host, string, json) eff" where
  "plugin_enable_effect sv st n enabled =
     bind_e (bridge sv (named_operation ''manifest'' n)) (\<lambda>ent.
     bind_e (of_r (enable_refusal st n enabled ent)) (\<lambda>_.
     bind_e (plugin_services sv n enabled ent True) (\<lambda>out.
       if has_job out then ret_e (started_reply out)
       else bind_e (plugin_deliver sv st) (\<lambda>_.
            bind_e (bridge sv (enabled_operation n enabled)) (\<lambda>_.
            ret_e (enabled_reply enabled (text_or [] (json_index out ''stdout''))))))))"

definition plugin_remove_effect :: "'w services \<Rightarrow> string \<Rightarrow> bool \<Rightarrow> bool \<Rightarrow> ('w applier_host, string, json) eff" where
  "plugin_remove_effect sv n purge force =
     bind_e (plugin_stop sv n) (\<lambda>_.
     bind_e (of_r (decoded sv (PluginUninstall n (if force then Force else if purge then Purge else KeepState)))) (\<lambda>r.
     bind_e (plugin_start sv r) (\<lambda>out.
       if has_job out then ret_e (started_reply out)
       else bind_e (try_e (bridge sv (named_operation ''removed'' n))) (\<lambda>_. ret_e (removed_reply (output_text out))))))"

definition plugin_effect :: "'w services \<Rightarrow> state_file \<Rightarrow> plugin_action \<Rightarrow> json \<Rightarrow> ('w applier_host, string, json) eff" where
  "plugin_effect sv st a result =
     (case a of
        PluginsInstall n archive version enable force \<Rightarrow> plugin_install_effect sv n archive version enable force
      | PluginsEnable n enabled \<Rightarrow> plugin_enable_effect sv st n enabled
      | PluginsRemove n purge force \<Rightarrow> plugin_remove_effect sv n purge force
      | PluginsCancel job \<Rightarrow>
          if job = ''unknown'' then ret_e result
          else bind_e (of_r (decoded sv (PluginJobCancel job))) (\<lambda>r. bind_e (privileged sv r) (\<lambda>_. ret_e result))
      | PluginsReset \<Rightarrow>
          bind_e (privileged sv PluginResetStateRequest) (\<lambda>_.
          bind_e (plugin_deliver sv st) (\<lambda>_.
          bind_e (bridge sv (json_obj [(''operation'', JString ''reset'')])) (\<lambda>_. ret_e result)))
      | PluginsRestore \<Rightarrow> bind_e (plugin_deliver sv st) (\<lambda>_. ret_e result)
      | PluginsComplete pending outcome \<Rightarrow> plugin_finish sv st pending outcome)"

fun plugin_effects :: "'w services \<Rightarrow> state_file \<Rightarrow> json \<Rightarrow> action list \<Rightarrow> ('w applier_host, string, json) eff" where
  "plugin_effects sv st result [] = ret_e result"
| "plugin_effects sv st result (a # as) =
     (case a of
        ActionPlugins x \<Rightarrow> bind_e (plugin_effect sv st x result) (\<lambda>result. plugin_effects sv st result as)
      | _ \<Rightarrow> plugin_effects sv st result as)"

definition plugin_run :: "'w services \<Rightarrow> state_file \<Rightarrow> plan \<Rightarrow> ('w applier_host, string, json) eff" where
  "plugin_run sv st p = plugin_effects sv st ok_reply (pp_actions p)"

definition plugin_restore :: "'w services \<Rightarrow> state_file \<Rightarrow> plan \<Rightarrow> ('w applier_host, string, unit) eff" where
  "plugin_restore sv st p =
     (if \<not> list_ex (\<lambda>a. case a of ActionPlugins _ \<Rightarrow> True | _ \<Rightarrow> False) (pp_actions p) then ret_e ()
      else bind_e (plugin_deliver sv st) (\<lambda>_.
           each_e (\<lambda>a. case a of
                ActionPlugins (PluginsEnable n _) \<Rightarrow> bind_e (put_services_back sv st n) (\<lambda>_. ret_e ())
              | _ \<Rightarrow> ret_e ()) (rev (pp_actions p))))"

definition plugin_replay :: "'w services \<Rightarrow> state_file \<Rightarrow> ('w applier_host, string, unit) eff" where
  "plugin_replay sv st =
     (if list_all (\<lambda>(n, _). n = ''tessera'') (ds_plugins (sf_document st)) \<or> sf_plugin_job st \<noteq> None then ret_e ()
      else plugin_deliver sv st)"

text \<open>Before anything is accepted, new plugin data is checked against the schema of the installed plugin.\<close>

definition check_plugin_data :: "'w services \<Rightarrow> state_file \<Rightarrow> string \<Rightarrow> (string, json) bmap \<Rightarrow> ('w applier_host, string, unit) eff" where
  "check_plugin_data sv next' n data =
     bind_e (world_e (pk_query (sv_plugins sv)
         (json_set ''_context'' (pk_context (sv_plugins sv) next') (named_operation ''manifest'' n)))) (\<lambda>ent.
     bind_e (of_r (pk_manifest_of (sv_plugins sv) (json_index ent ''manifest''))) (\<lambda>man.
     bind_e (of_r (ok_or (mf_state man) ''plugin has no process state'')) (\<lambda>sch.
     of_r (validate_value (pk_size_of (sv_plugins sv)) (ss_schema sch) (JObject data)))))"

definition plugin_preflight :: "'w services \<Rightarrow> state_file \<Rightarrow> state_file \<Rightarrow> plan \<Rightarrow> ('w applier_host, string, unit) eff" where
  "plugin_preflight sv previous next' p =
     bind_e (each_e (\<lambda>(n, pl). case pl_state pl of
           None \<Rightarrow> ret_e ()
         | Some data \<Rightarrow>
             if (case bt_get (ds_plugins (sf_document previous)) n of None \<Rightarrow> True | Some q \<Rightarrow> pl_state q \<noteq> pl_state pl)
             then check_plugin_data sv next' n data else ret_e ()) (ds_plugins (sf_document next'))) (\<lambda>_.
     if list_ex (\<lambda>a. case a of
          ActionPlugins (PluginsInstall _ _ _ _ _) \<Rightarrow> True | ActionPlugins (PluginsEnable _ _) \<Rightarrow> True
        | ActionPlugins (PluginsRemove _ _ _) \<Rightarrow> True | _ \<Rightarrow> False) (pp_actions p)
     then bind_e (bridge sv (json_obj [(''operation'', JString ''check'')])) (\<lambda>_. ret_e ())
     else ret_e ())"

section \<open>The applier\<close>

text \<open>The hooks of one domain, with the defaults of the trait.\<close>

record 'w runtime_module =
  rm_preflight :: "state_file \<Rightarrow> state_file \<Rightarrow> plan \<Rightarrow> ('w applier_host, string, unit) eff"
  rm_apply_checked :: "state_file \<Rightarrow> plan \<Rightarrow> ('w applier_host, api_error, json) eff"
  rm_rollback :: "state_file \<Rightarrow> plan \<Rightarrow> ('w applier_host, string, unit) eff"
  rm_replay :: "state_file \<Rightarrow> ('w applier_host, string, unit) eff"

definition first_domain :: "plan \<Rightarrow> domain" where
  "first_domain p = (case pp_domains p of [] \<Rightarrow> DAudio | d # _ \<Rightarrow> d)"

definition checked_of ::
  "(state_file \<Rightarrow> plan \<Rightarrow> ('w applier_host, string, json) eff) \<Rightarrow> state_file \<Rightarrow> plan \<Rightarrow> ('w applier_host, api_error, json) eff" where
  "checked_of apply' st p = map_err_e (ApplyFailed (first_domain p) ''apply'') (apply' st p)"

definition drop_reply ::
  "(state_file \<Rightarrow> plan \<Rightarrow> ('w applier_host, string, json) eff) \<Rightarrow> state_file \<Rightarrow> plan \<Rightarrow> ('w applier_host, string, unit) eff" where
  "drop_reply apply' st p = bind_e (apply' st p) (\<lambda>_. ret_e ())"

definition default_runtime :: "'w runtime_module" where
  "default_runtime =
     \<lparr>rm_preflight = (\<lambda>_ _ _. ret_e ()), rm_apply_checked = (\<lambda>_ _. ret_e ok_reply),
      rm_rollback = (\<lambda>_ _. ret_e ()), rm_replay = (\<lambda>_. ret_e ())\<rparr>"

definition runtime_of :: "'w services \<Rightarrow> domain \<Rightarrow> 'w runtime_module" where
  "runtime_of sv d =
     (case d of
        DNetwork \<Rightarrow> default_runtime\<lparr>rm_replay := network_replay sv\<rparr>
      | DTessera \<Rightarrow> \<lparr>rm_preflight = tessera_preflight sv, rm_apply_checked = (\<lambda>_ p. tessera_apply sv p False),
                     rm_rollback = (\<lambda>_ p. map_err_e error_text (bind_e (tessera_apply sv p True) (\<lambda>_. ret_e ()))),
                     rm_replay = tessera_replay sv\<rparr>
      | DAudio \<Rightarrow> default_runtime\<lparr>rm_preflight := audio_preflight sv, rm_apply_checked := checked_of (audio_apply sv), rm_rollback := drop_reply (audio_apply sv)\<rparr>
      | DDevice \<Rightarrow> \<lparr>rm_preflight = device_preflight sv, rm_apply_checked = checked_of (device_apply sv),
                    rm_rollback = device_rollback sv, rm_replay = device_replay sv\<rparr>
      | DOutputs \<Rightarrow> \<lparr>rm_preflight = outputs_preflight sv, rm_apply_checked = checked_of (outputs_apply sv),
                     rm_rollback = outputs_rollback sv, rm_replay = outputs_replay sv\<rparr>
      | DNdi \<Rightarrow> \<lparr>rm_preflight = (\<lambda>_ _ _. ret_e ()), rm_apply_checked = checked_of (ndi_apply sv),
                 rm_rollback = ndi_rollback sv, rm_replay = follow_finder sv\<rparr>
      | DDisplay \<Rightarrow> \<lparr>rm_preflight = (\<lambda>_ _ _. ret_e ()), rm_apply_checked = checked_of (display_apply sv),
                     rm_rollback = (\<lambda>st _. display_replay sv st), rm_replay = display_replay sv\<rparr>
      | DPresets \<Rightarrow> default_runtime
      | DPlugins \<Rightarrow> \<lparr>rm_preflight = plugin_preflight sv, rm_apply_checked = checked_of (plugin_run sv),
                     rm_rollback = plugin_restore sv, rm_replay = plugin_replay sv\<rparr>)"

definition production_replay :: "'w services \<Rightarrow> state_file \<Rightarrow> ('w applier_host, api_error, unit) eff" where
  "production_replay sv st =
     each_e (\<lambda>(d, _). map_err_e (ApplyFailed d ''replay'') (rm_replay (runtime_of sv d) st))
       (filter (\<lambda>(d, _). ownership_of d = Native) registry_order)"

definition render_artifacts :: "'w services \<Rightarrow> state_file \<Rightarrow> ('w applier_host, api_error, json) eff" where
  "render_artifacts sv st =
     bind_e (map_err_e (\<lambda>e. case e of
          PInvalid field reason \<Rightarrow> invalid [new_field_error field reason]
        | _ \<Rightarrow> Internal (proto_error_text e))
       (privd_execute sv (RenderArtifacts (sf_revision st)))) (\<lambda>out.
     ret_e (case po_data out of Some v \<Rightarrow> v | None \<Rightarrow> JNull))"

definition merge_reply :: "json \<Rightarrow> json \<Rightarrow> (json, api_error) result" where
  "merge_reply reply v =
     (case v of
        JObject m \<Rightarrow> Inr (fold (\<lambda>(k, x) r. json_set k x r) m reply)
      | _ \<Rightarrow> Inl (Internal ''domain apply reply must be an object''))"

definition name_failure :: "domain \<Rightarrow> api_error \<Rightarrow> api_error" where
  "name_failure d e = (case e of ApplyFailed _ step reason \<Rightarrow> ApplyFailed d step reason | _ \<Rightarrow> e)"

definition reconcile_domain ::
  "'w services \<Rightarrow> state_file \<Rightarrow> plan \<Rightarrow> bool \<Rightarrow> domain \<Rightarrow> json \<Rightarrow> ('w applier_host, api_error, json) eff" where
  "reconcile_domain sv st p back' d reply =
     (if back' then bind_e (map_err_e Internal (rm_rollback (runtime_of sv d) st p)) (\<lambda>_. ret_e reply)
      else bind_e (map_err_e (name_failure d) (rm_apply_checked (runtime_of sv d) st p)) (\<lambda>v.
           of_r (merge_reply reply v)))"

fun reconcile_domains ::
  "'w services \<Rightarrow> state_file \<Rightarrow> plan \<Rightarrow> bool \<Rightarrow> json \<Rightarrow> domain list \<Rightarrow> ('w applier_host, api_error, json) eff" where
  "reconcile_domains sv st p back' reply [] = ret_e reply"
| "reconcile_domains sv st p back' reply (d # ds) =
     bind_e (reconcile_domain sv st p back' d reply) (\<lambda>reply. reconcile_domains sv st p back' reply ds)"

definition reconcile ::
  "'w services \<Rightarrow> state_file \<Rightarrow> plan \<Rightarrow> bool \<Rightarrow> ('w applier_host, api_error, json) eff" where
  "reconcile sv st p back' =
     bind_e (if pp_paths p = [] then ret_e JNull else render_artifacts sv st) (\<lambda>rendered.
     bind_e (reconcile_domains sv st p back' ok_reply (pp_domains p)) (\<lambda>reply.
     bind_e (if pp_paths p = [] then ret_e () else production_replay sv st) (\<lambda>_.
     ret_e (json_set ''_render_manifest'' rendered reply))))"

definition production_preflight ::
  "'w services \<Rightarrow> state_file \<Rightarrow> state_file \<Rightarrow> plan \<Rightarrow> ('w applier_host, string, unit) eff" where
  "production_preflight sv previous next' p =
     each_e (\<lambda>d. rm_preflight (runtime_of sv d) previous next' p) (pp_domains p)"

definition production_render :: "'w services \<Rightarrow> state_file \<Rightarrow> ('w applier_host, string, json) eff" where
  "production_render sv st =
     bind_e (map_err_e proto_error_text (privd_execute sv (RenderArtifacts (sf_revision st)))) (\<lambda>out.
       of_r (ok_or (po_data out) ''renderer did not return provenance''))"

definition production_applier :: "'w services \<Rightarrow> 'w applier_host applier" where
  "production_applier sv =
     \<lparr>ap_replay = production_replay sv,
      ap_render = production_render sv,
      ap_preflight = production_preflight sv,
      ap_apply_checked = (\<lambda>next' p. reconcile sv next' p False),
      ap_rollback = (\<lambda>previous p. map_err_e error_text (bind_e (reconcile sv previous p True) (\<lambda>_. ret_e ()))),
      ap_decoder = (\<lambda>command. world_e (lk_client (sv_decoder sv) command))\<rparr>"

end
