(* ===== verification/Applier_Theorems.thy ===== *)
theory Applier_Theorems
  imports Applier Domain_Theorems
begin

text \<open>
  What the production applier does to the host. Every hook is a composition of a few kinds of steps, so
  the properties are proved once for any relation between states that those steps keep (the interface
  \<open>host_relation\<close>), which is then interpreted: on the record of requests, to show that only announced
  services are restarted, and on the memory of applied settings, to show that it is truthful.
\<close>

section \<open>Relations that every hook keeps\<close>

definition setting_of :: "request \<Rightarrow> string option" where
  "setting_of r =
     (case r of
        SetHostname _ \<Rightarrow> Some ''hostname''
      | SetTimeSync _ \<Rightarrow> Some ''time_sync''
      | SetRebootSchedule _ \<Rightarrow> Some ''reboot_schedule''
      | _ \<Rightarrow> None)"

definition steps :: "('w applier_host \<Rightarrow> 'w applier_host \<Rightarrow> bool) \<Rightarrow> ('w applier_host, 'e, 'a) eff \<Rightarrow> bool" where
  "steps I m = (\<forall>p. I p (snd (m p)))"

lemma stepsD: "steps I m \<Longrightarrow> m p = (x, q) \<Longrightarrow> I p q"
  unfolding steps_def by (drule spec [of _ p]) simp

text \<open>The requests that carrying out an action sends. Those of a plugin concern that plugin or its units.\<close>

definition lifecycle_request :: "string \<Rightarrow> request \<Rightarrow> bool" where
  "lifecycle_request n r =
     (case r of
        PluginRuntimeStop m \<Rightarrow> m = n
      | PluginInstall m _ _ _ \<Rightarrow> m = n
      | PluginUninstall m _ \<Rightarrow> m = n
      | PluginExec m c \<Rightarrow> m = n \<and> (c = ''enable'' \<or> c = ''disable'')
      | PluginServiceControl _ act' \<Rightarrow> act' = UnitStart \<or> act' = UnitStop
      | _ \<Rightarrow> False)"

definition plugin_requests :: "plugin_action \<Rightarrow> request set" where
  "plugin_requests x =
     (case x of
        PluginsInstall n _ _ _ _ \<Rightarrow> Collect (lifecycle_request n)
      | PluginsEnable n _ \<Rightarrow> Collect (lifecycle_request n)
      | PluginsRemove n _ _ \<Rightarrow> Collect (lifecycle_request n)
      | PluginsCancel job \<Rightarrow> {PluginJobCancel job}
      | PluginsReset \<Rightarrow> {PluginResetStateRequest}
      | PluginsRestore \<Rightarrow> {}
      | PluginsComplete pending _ \<Rightarrow>
          (case pj_action pending of PluginsEnable n _ \<Rightarrow> Collect (lifecycle_request n) | _ \<Rightarrow> {}))"

definition action_requests :: "action \<Rightarrow> request set" where
  "action_requests a =
     (case a of
        ActionNdi NdiRestartDecoder \<Rightarrow> {ServiceControlUnit UnitDecoder UnitRestart}
      | ActionNdi NdiRefresh \<Rightarrow> {ServiceControlUnit UnitFinder UnitRestart}
      | ActionAudio RestartDecoder \<Rightarrow> {ServiceControlUnit UnitDecoder UnitRestart}
      | ActionDevice DeviceReboot \<Rightarrow> {RebootHost}
      | ActionDevice DeviceRestartStack \<Rightarrow> {RestartStackUnits}
      | ActionDevice (DeviceInstallUpdate v f) \<Rightarrow> {InstallRelease v f}
      | ActionDevice (DeviceServiceControl s act') \<Rightarrow>
          (case device_unit s of Inr u \<Rightarrow> {ServiceControlUnit u (unit_action_of act')} | Inl _ \<Rightarrow> {})
      | ActionTessera (TesseraServiceAct act') \<Rightarrow> {TesseraServiceUnit (tessera_unit_action act')}
      | ActionPlugins x \<Rightarrow> plugin_requests x
      | _ \<Rightarrow> {})"

definition plan_requests :: "plan \<Rightarrow> request set" where
  "plan_requests p =
     \<Union> (action_requests ` set (pp_actions p))
     \<union> (if SvcDecoder \<in> set (im_restarts (pp_impact p)) then {ServiceControlUnit UnitDecoder UnitRestart} else {})"

definition routine_requests :: "request set" where
  "routine_requests = insert CheckUpdate (insert (NetworkNative CallObserve) (range RenderArtifacts))"

lemma decoded_Inr: "decoded sv r = Inr q \<Longrightarrow> q = r"
  by (auto simp: decoded_def decode_request_def bind_r_eq_Inr split: if_splits)

lemma device_setting_of: "device_setting sv d a = Some (s, Inr (Some r)) \<Longrightarrow> setting_of r = Some s"
  by (auto simp: device_setting_def hostname_request_def time_sync_request_def schedule_request_def bind_r_eq_Inr
      setting_of_def Let_def split: device_action.splits if_splits dest!: decoded_Inr)

locale host_relation =
  fixes sv :: "'w services" and I :: "'w applier_host \<Rightarrow> 'w applier_host \<Rightarrow> bool" and allowed :: "request \<Rightarrow> bool"
  assumes refl: "I p p"
    and trans: "I p q \<Longrightarrow> I q q' \<Longrightarrow> I p q'"
    and world: "I p (p\<lparr>pd_world := w\<rparr>)"
    and network_memory: "I p (p\<lparr>pd_network := c\<rparr>)"
    and tessera_memory: "I p (p\<lparr>pd_tessera := t\<rparr>)"
    and release_memory: "I p (p\<lparr>pd_releases := l\<rparr>)"
    and sent: "allowed r \<Longrightarrow> I p (p\<lparr>pd_world := w, pd_log := pd_log p @ [(r, b)]\<rparr>)"
    and setting: "setting_of r = Some s \<Longrightarrow> I p (snd (send_setting sv skip s r p))"
    and routine: "r \<in> routine_requests \<Longrightarrow> allowed r"
begin

lemma ret: "steps I (ret_e x)"
  by (simp add: steps_def refl)

lemma err: "steps I (err_e x)"
  by (simp add: steps_def refl)

lemma of_r_step: "steps I (of_r x)"
  by (simp add: steps_def of_r_def refl)

lemma bind: "steps I m \<Longrightarrow> (\<And>x. steps I (f x)) \<Longrightarrow> steps I (bind_e m f)"
proof -
  assume m: "steps I m" and f: "\<And>x. steps I (f x)"
  have "I p (snd (bind_e m f p))" for p
  proof -
    obtain x q where x: "m p = (x, q)"
      by (rule prod.exhaust)
    have q: "I p q"
      by (rule stepsD [OF m x])
    show ?thesis
    proof (cases x)
      case (Inr y)
      then have "snd (bind_e m f p) = snd (f y q)"
        using x by (simp add: bind_e_def)
      then show ?thesis
        using q f trans by (simp add: steps_def)
    qed (use x q in \<open>simp add: bind_e_def\<close>)
  qed
  then show ?thesis
    by (simp add: steps_def)
qed

lemma cond: "(c \<Longrightarrow> steps I m) \<Longrightarrow> (\<not> c \<Longrightarrow> steps I n) \<Longrightarrow> steps I (if c then m else n)"
  by simp

lemma map_err_step: "steps I m \<Longrightarrow> steps I (map_err_e f m)"
  by (auto simp: steps_def map_err_e_def split: prod.splits) (metis snd_conv)

lemma world_step: "steps I (world_e m)"
  by (auto simp: steps_def world_e_def world split: prod.splits)

lemma each: "(\<And>x. x \<in> set xs \<Longrightarrow> steps I (f x)) \<Longrightarrow> steps I (each_e f xs)"
  by (induction xs) (auto intro: ret bind)

lemma execute: "allowed r \<Longrightarrow> steps I (privd_execute sv r)"
  by (auto simp: steps_def privd_execute_def sent_e_def sent split: prod.splits)

lemma request: "allowed r \<Longrightarrow> steps I (privd_request sv r)"
  by (auto simp: steps_def privd_request_def sent_e_def sent split: prod.splits)

lemma spawn: "allowed r \<Longrightarrow> steps I (spawn_request sv d r)"
  by (auto simp: steps_def spawn_request_def sent)

lemma routine_execute: "r \<in> routine_requests \<Longrightarrow> steps I (privd_execute sv r)"
  by (rule execute) (rule routine)

lemmas step_intros = ret err of_r_step bind cond map_err_step world_step each execute request spawn

lemma follower_steps:
  "SvcDecoder \<in> set restarts \<Longrightarrow> allowed (ServiceControlUnit UnitDecoder UnitRestart) \<Longrightarrow> steps I (follow_decoder sv st restarts)"
  "SvcDecoder \<notin> set restarts \<Longrightarrow> steps I (follow_decoder sv st restarts)"
  "steps I (follow_finder sv st)" "steps I (device_deliver sv st)" "steps I (display_deliver sv st)"
  "steps I (network_deliver sv st)"
  unfolding follow_decoder_def follow_finder_def device_deliver_def display_deliver_def network_deliver_def restart_unit_def
  by (intro step_intros; simp)+

lemma configure_steps: "steps I (configure sv st skip as)"
proof -
  have "steps I (configure_one sv st skip a)" for a
  proof (cases "device_setting sv (ds_device (sf_document st)) a")
    case None
    then show ?thesis
      by (simp only: configure_one_def option.case) (intro step_intros follower_steps)
  next
    case (Some sr)
    obtain s r where sr: "sr = (s, r)"
      by (rule prod.exhaust)
    consider e where "r = Inl e" | "r = Inr None" | q where "r = Inr (Some q)"
      by (metis not_None_eq sum.exhaust)
    then show ?thesis
    proof cases
      case 3
      then have "setting_of q = Some s"
        using Some sr device_setting_of by blast
      then show ?thesis
        using Some sr 3 setting by (simp add: configure_one_def steps_def)
    qed (simp_all only: configure_one_def Some sr option.case prod.case sum.case ret err)
  qed
  then show ?thesis
    unfolding configure_def by (intro each)
qed

lemma device_effects_steps:
  "(\<And>a r. a \<in> set as \<Longrightarrow> r \<in> action_requests (ActionDevice a) \<Longrightarrow> allowed r) \<Longrightarrow> steps I (device_effects sv as)"
proof (induction as)
  case Nil
  then show ?case
    by (simp only: device_effects.simps ret)
next
  case (Cons a as)
  have job: "steps I (started_job sv r)" if "allowed r" for r
    unfolding started_job_def by (intro step_intros that)
  have head: "r \<in> action_requests (ActionDevice a) \<Longrightarrow> allowed r" for r
    using Cons.prems [of a] by simp
  have tail: "steps I (device_effects sv as)"
    by (rule Cons.IH) (rule Cons.prems, auto)
  have install: "steps I (bind_e (of_r (decoded sv r)) (started_job sv))" if "allowed r" for r
  proof (cases "decoded sv r")
    case (Inr q)
    then have "bind_e (of_r (decoded sv r)) (started_job sv) = started_job sv r"
      using decoded_Inr [OF Inr] by (simp add: bind_e_def of_r_def fun_eq_iff)
    then show ?thesis
      using job that by simp
  qed (simp add: bind_e_def of_r_def steps_def refl)
  have unit: "steps I (bind_e (of_r (map_err error_text (device_unit s))) (\<lambda>u. started_job sv (ServiceControlUnit u x)))"
    if "\<And>u. device_unit s = Inr u \<Longrightarrow> allowed (ServiceControlUnit u x)" for s x
    using job that by (cases "device_unit s") (auto simp: bind_e_def of_r_def steps_def refl map_err_def)
  show ?case
    using tail head
    by (cases a) (auto simp: action_requests_def intro!: step_intros install unit)
qed

lemma decoder_steps:
  assumes "SvcDecoder \<in> set restarts \<Longrightarrow> allowed (ServiceControlUnit UnitDecoder UnitRestart)"
  shows "steps I (follow_decoder sv st restarts)"
  using assms follower_steps(1,2) by blast

lemma ndi_steps:
  assumes "\<And>r. r \<in> plan_requests p \<Longrightarrow> allowed r"
  shows "steps I (ndi_apply sv st p)" "steps I (ndi_rollback sv st p)"
proof -
  have decoder: "SvcDecoder \<in> set (im_restarts (pp_impact p)) \<Longrightarrow> allowed (ServiceControlUnit UnitDecoder UnitRestart)"
    using assms by (simp add: plan_requests_def)
  have restart: "steps I (restart_unit sv u)" if "allowed (ServiceControlUnit u UnitRestart)" for u
    unfolding restart_unit_def by (intro step_intros that)
  have "steps I (ndi_effect sv a)" if "a \<in> set (pp_actions p)" for a
  proof -
    have "r \<in> action_requests a \<Longrightarrow> allowed r" for r
      using assms that by (auto simp: plan_requests_def)
    then show ?thesis
      unfolding ndi_effect_def
      by (auto simp: action_requests_def simp del: ret_e_apply split: action.splits ndi_action.splits intro!: step_intros restart)
  qed
  then show "steps I (ndi_apply sv st p)" "steps I (ndi_rollback sv st p)"
    unfolding ndi_apply_def ndi_rollback_def by (intro step_intros follower_steps decoder_steps restart; simp add: decoder)+
qed

lemma video_steps: "steps I (video_command sv out a)"
  unfolding steps_def video_command_def
  by (cases a) (auto simp: refl world bind_e_def world_e_def Let_def split: option.splits prod.splits sum.splits)

lemma apply_actions_steps: "steps I (apply_actions sv st reply as)"
proof (induction as arbitrary: reply)
  case (Cons a as)
  show ?case
  proof (cases "\<exists>b ident v out. a = ActionOutputs b \<and> output_verb b = Some (ident, v) \<and> bt_get (ds_outputs (sf_document st)) ident = Some out")
    case True
    then show ?thesis
      by (elim exE conjE) (simp only: apply_actions.simps option.case prod.case, intro step_intros video_steps Cons)
  next
    case False
    then show ?thesis
      by (cases a) (auto simp: Cons simp del: ret_e_apply err_e_apply intro: err split: option.splits)
  qed
qed (simp only: apply_actions.simps ret)

lemma outputs_steps:
  assumes "\<And>r. r \<in> plan_requests p \<Longrightarrow> allowed r"
  shows "steps I (outputs_apply sv st p)" "steps I (outputs_preflight sv previous next' p)" "steps I (outputs_rollback sv st p)"
proof -
  show "steps I (outputs_apply sv st p)"
    unfolding outputs_apply_def
    by (intro step_intros apply_actions_steps decoder_steps) (use assms in \<open>simp add: plan_requests_def\<close>)
  have "steps I (check_rotation sv next' a)" for a
    unfolding steps_def check_rotation_def
    by (auto simp: refl world bind_e_def world_e_def split: action.splits outputs_action.splits json.splits option.splits prod.splits sum.splits)
  then show "steps I (outputs_preflight sv previous next' p)"
    unfolding outputs_preflight_def by (intro step_intros decoder_steps) simp_all
  show "steps I (outputs_rollback sv st p)"
    unfolding steps_def
  proof
    fix q
    let ?video = "filter (\<lambda>a. video_output a \<noteq> None) (pp_actions p)"
    let ?previous = "fold (\<lambda>a s. case video_output a of Some ident \<Rightarrow> with_default_output ident s | None \<Rightarrow> s) ?video st"
    obtain x q1 where one: "apply_actions sv ?previous ok_reply ?video q = (x, q1)"
      by (rule prod.exhaust)
    obtain y q2 where two: "follow_decoder sv st [] q1 = (y, q2)"
      by (rule prod.exhaust)
    have "I q q1"
      by (rule stepsD [OF apply_actions_steps one])
    moreover have "I q1 q2"
      by (rule stepsD [OF decoder_steps two]) simp
    moreover have "snd (outputs_rollback sv st p q) = q2"
      unfolding outputs_rollback_def Let_def one two prod.case by simp
    ultimately show "I q (snd (outputs_rollback sv st p q))"
      using trans [of q q1 q2] by simp
  qed
qed

lemma look_step: "look sv p = (s, q) \<Longrightarrow> I p q"
  by (auto simp: look_def Let_def world split: prod.splits)

lemma tessera_effect_steps:
  assumes "\<And>r. r \<in> action_requests a \<Longrightarrow> allowed r"
  shows "steps I (tessera_effect sv p back' a result)"
proof (cases "a = ActionTessera TesseraReload \<or> a = ActionTessera (TesseraServiceAct TesReload)")
  case True
  have "I q (snd (tessera_effect sv p back' a result q))" for q
  proof -
    obtain s q1 where s: "look sv q = (s, q1)"
      by (rule prod.exhaust)
    have one: "I q q1"
      by (rule look_step [OF s])
    have "I q1 (q1\<lparr>pd_world := w, pd_tessera := t\<rparr>)" for w t
      using trans [OF world [of q1 w] tessera_memory [of "q1\<lparr>pd_world := w\<rparr>" t]] by simp
    then have "I q1 (snd (tessera_effect sv p back' a result q))"
      using True s by (auto simp: tessera_effect_def world Let_def split: prod.splits sum.splits)
    then show ?thesis
      by (rule trans [OF one])
  qed
  then show ?thesis
    by (simp add: steps_def)
next
  case False
  consider act' where "a = ActionTessera (TesseraServiceAct act')" "a \<noteq> ActionTessera (TesseraServiceAct TesReload)"
    | "tessera_effect sv p back' a result = ret_e result"
    using False by (cases a; cases "case a of ActionTessera t \<Rightarrow> t | _ \<Rightarrow> TesseraReload") (auto simp: tessera_effect_def split: if_splits)
  then show ?thesis
  proof cases
    case 1
    then have "allowed (TesseraServiceUnit (tessera_unit_action act'))"
      using assms by (simp add: action_requests_def)
    moreover have "tessera_effect sv p back' a result =
        (if back' then ret_e result
         else bind_e (map_err_e (\<lambda>e. Internal (proto_error_text e))
                (privd_execute sv (TesseraServiceUnit (tessera_unit_action act')))) (\<lambda>_. ret_e result))"
      using 1 False by (simp add: tessera_effect_def)
    ultimately show ?thesis
      by (simp only:) (intro step_intros)
  qed (simp only: ret)
qed

lemma tessera_effects_steps:
  "(\<And>a r. a \<in> set as \<Longrightarrow> r \<in> action_requests a \<Longrightarrow> allowed r) \<Longrightarrow> steps I (tessera_effects sv p back' result as)"
proof (induction as arbitrary: result)
  case (Cons a as)
  have "steps I (tessera_effect sv p back' a x)" for x
    by (rule tessera_effect_steps) (rule Cons.prems [of a], auto)
  moreover have "steps I (tessera_effects sv p back' x as)" for x
    by (rule Cons.IH) (rule Cons.prems, auto)
  ultimately show ?case
    by (simp only: tessera_effects.simps) (intro bind)
qed (simp only: tessera_effects.simps ret)

lemma tessera_apply_steps: "(\<And>r. r \<in> plan_requests p \<Longrightarrow> allowed r) \<Longrightarrow> steps I (tessera_apply sv p back')"
  unfolding tessera_apply_def by (rule tessera_effects_steps) (auto simp: plan_requests_def)

lemma tessera_preflight_steps: "steps I (tessera_preflight sv previous next' p)"
  by (auto simp: steps_def tessera_preflight_def Let_def refl world split: option.splits prod.splits sum.splits)

lemma tessera_replay_steps: "steps I (tessera_replay sv st)"
  unfolding steps_def
proof
  fix q :: "'w applier_host"
  obtain x w where x: "sv_tessera_flow_lock sv (pd_world q) = (x, w)"
    by (rule prod.exhaust)
  obtain s q1 where s: "look sv (q\<lparr>pd_world := w\<rparr>) = (s, q1)"
    by (rule prod.exhaust)
  have "I q q1"
    by (rule trans [OF world look_step [OF s]])
  moreover have "I q1 (q1\<lparr>pd_world := w', pd_tessera := t\<rparr>)" for w' t
    using trans [OF world [of q1 w'] tessera_memory [of "q1\<lparr>pd_world := w'\<rparr>" t]] by simp
  ultimately have "I q q1" "I q (q1\<lparr>pd_world := w'\<rparr>)" "I q (q1\<lparr>pd_world := w', pd_tessera := t\<rparr>)" for w' t
    using trans world by blast+
  moreover have "I q (q\<lparr>pd_world := w, pd_tessera := None\<rparr>)"
    using trans [OF world [of q w] tessera_memory [of "q\<lparr>pd_world := w\<rparr>" None]] by simp
  ultimately show "I q (snd (tessera_replay sv st q))"
    using x s by (auto simp: tessera_replay_def Let_def refl world split: tessera_error.splits sum.splits prod.splits)
qed

lemma drop_step: "I p (drop_observation p)"
  by (simp add: drop_observation_def network_memory)

lemma network_steps: "allowed (NetworkNative call) \<Longrightarrow> steps I (network sv call)"
  unfolding steps_def
proof
  fix p :: "'w applier_host"
  assume ok: "allowed (NetworkNative call)"
  let ?p0 = "if is_read_only call then p else drop_observation p"
  obtain x p1 where x: "privd_execute sv (NetworkNative call) ?p0 = (x, p1)"
    by (rule prod.exhaust)
  let ?p2 = "if is_read_only call then p1 else drop_observation p1"
  have "I p ?p0" "I ?p0 p1" "I p1 ?p2"
    using refl drop_step stepsD [OF execute [OF ok] x] by auto
  then have "I p ?p2"
    using trans by blast
  moreover have "snd (network sv call p) = ?p2"
    unfolding network_def Let_def x prod.case by (auto split: sum.splits option.splits)
  ultimately show "I p (snd (network sv call p))"
    by simp
qed

lemma observe_steps: "steps I (network sv CallObserve)"
  by (rule network_steps) (simp add: routine routine_requests_def)

lemma observation_steps: "steps I (network_observation sv)"
  unfolding steps_def
proof
  fix p :: "'w applier_host"
  obtain x q where x: "network sv CallObserve p = (x, q)"
    by (rule prod.exhaust)
  have "I p q"
    by (rule stepsD [OF observe_steps x])
  then have "I p (q\<lparr>pd_network := c\<rparr>)" for c
    using trans network_memory by blast
  then show "I p (snd (network_observation sv p))"
    using x \<open>I p q\<close> by (auto simp: network_observation_def refl Let_def split: option.splits sum.splits)
qed

lemma network_replay_steps: "steps I (network_replay sv st)"
  unfolding steps_def
proof
  fix p :: "'w applier_host"
  obtain x q where x: "network_observation sv p = (x, q)"
    by (rule prod.exhaust)
  have q: "I p q"
    by (rule stepsD [OF observation_steps x])
  have "steps I (map_err_e error_text (network_deliver sv st))"
    by (intro step_intros follower_steps)
  then have "I p (snd (map_err_e error_text (network_deliver sv st) q))"
    using trans [OF q] by (simp add: steps_def)
  then show "I p (snd (network_replay sv st p))"
    using x q by (auto simp: network_replay_def refl split: sum.splits)
qed

lemma release_step: "I p (snd (latest_release sv p))"
proof -
  have fetch: "I p (snd (fetch_release sv p))"
  proof -
    obtain x q where x: "privd_execute sv CheckUpdate p = (x, q)"
      by (rule prod.exhaust)
    have "snd (fetch_release sv p) = q"
      using x by (auto simp: fetch_release_def split: sum.splits proto_error.splits json.splits)
    then show ?thesis
      using stepsD [OF routine_execute x] by (simp add: routine_requests_def)
  qed
  then have "I p ((snd (fetch_release sv p))\<lparr>pd_releases := l\<rparr>)" for l
    using trans release_memory by blast
  then show ?thesis
    by (auto simp: latest_release_def refl Let_def split: option.splits prod.splits)
qed

lemma audio_steps:
  assumes "\<And>r. r \<in> plan_requests p \<Longrightarrow> allowed r"
  shows "steps I (audio_apply sv st p)" "steps I (audio_preflight sv previous next' p)"
proof -
  have "allowed (ServiceControlUnit UnitDecoder UnitRestart)" if "ActionAudio RestartDecoder \<in> set (pp_actions p)"
    using assms that by (force simp: plan_requests_def action_requests_def)
  then show "steps I (audio_apply sv st p)"
    unfolding audio_apply_def restart_unit_def by (intro step_intros)
  show "steps I (audio_preflight sv previous next' p)"
    unfolding audio_preflight_def steps_def
    by (auto simp: refl world bind_e_def world_e_def split: option.splits prod.splits sum.splits)
qed

lemma device_steps:
  assumes "\<And>r. r \<in> plan_requests p \<Longrightarrow> allowed r"
  shows "steps I (device_apply sv st p)" "steps I (device_rollback sv st p)"
    "steps I (device_preflight sv previous next' p)"
proof -
  have "a \<in> set (device_actions p) \<Longrightarrow> ActionDevice a \<in> set (pp_actions p)" for a
    by (auto simp: device_actions_def List.map_filter_def split: action.splits if_splits)
  then have "a \<in> set (device_actions p) \<Longrightarrow> r \<in> action_requests (ActionDevice a) \<Longrightarrow> allowed r" for a r
    using assms by (auto simp: plan_requests_def)
  then show "steps I (device_apply sv st p)"
    unfolding device_apply_def by (intro step_intros configure_steps device_effects_steps) blast
  show "steps I (device_rollback sv st p)" "steps I (device_preflight sv previous next' p)"
    unfolding device_rollback_def device_preflight_def by (intro step_intros configure_steps)+
qed

lemma display_steps: "steps I (display_apply sv st p)" "steps I (display_replay sv st)"
  unfolding display_apply_def display_replay_def by (intro step_intros follower_steps)+

lemma try_step: "steps I m \<Longrightarrow> steps I (try_e m)"
  by (auto simp: steps_def try_e_def split: prod.splits) (metis snd_conv)

lemma bridge_step: "steps I (bridge sv r)"
  unfolding bridge_def by (rule world_step)

lemma privileged_step: "allowed r \<Longrightarrow> steps I (privileged sv r)"
  by (auto simp: steps_def privileged_def Let_def sent split: prod.splits)

lemma bind_of_r: "(\<And>y. x = Inr y \<Longrightarrow> steps I (f y)) \<Longrightarrow> steps I (bind_e (of_r x) f)"
  by (cases x) (auto simp: bind_e_def of_r_def steps_def refl)

lemma decoded_step: "steps I (f r) \<Longrightarrow> steps I (bind_e (of_r (decoded sv r)) f)"
  by (rule bind_of_r) (auto dest: decoded_Inr)

lemmas plugin_intros = step_intros try_step bridge_step privileged_step

lemma plugin_deliver_step: "steps I (plugin_deliver sv st)"
  unfolding plugin_deliver_def by (intro step_intros)

lemma start_step: "allowed r \<Longrightarrow> steps I (plugin_start sv r)"
  unfolding plugin_start_def by (intro plugin_intros)

lemma stop_step:
  assumes "allowed (PluginRuntimeStop n)"
  shows "steps I (plugin_stop sv n)"
proof -
  have "m = n" if "plugin_name_try_from n = Inr m" for m
    using that by (auto simp: plugin_name_try_from_def try_from_def split: if_splits)
  then have "steps I (bind_e (of_r (plugin_name_try_from n)) (\<lambda>n. bind_e (privileged sv (PluginRuntimeStop n)) (\<lambda>_. ret_e ())))"
    using assms by (intro bind_of_r bind ret privileged_step) simp
  then show ?thesis
    unfolding plugin_stop_def by (intro bind [OF bridge_step] cond bind [OF world_step] ret)
qed

lemma service_requests_lifecycle:
  "service_requests sv n enabled man hooks = Inr rs \<Longrightarrow> list_all (lifecycle_request n) rs"
proof -
  have units: "collect_r (map (service_request sv enabled) us) = Inr rs \<Longrightarrow> list_all (lifecycle_request n) rs" for us rs
    by (induction us arbitrary: rs)
      (auto simp: bind_r_eq_Inr service_request_def lifecycle_request_def split: json.splits dest!: decoded_Inr)
  assume "service_requests sv n enabled man hooks = Inr rs"
  then show ?thesis
    using units by (auto simp: service_requests_def Let_def bind_r_eq_Inr lifecycle_request_def split: if_splits dest!: decoded_Inr)
qed

lemma services_step:
  assumes "\<And>r. lifecycle_request n r \<Longrightarrow> allowed r"
  shows "steps I (plugin_services sv n enabled ent hooks)"
proof -
  have call: "steps I (service_call sv r)" if "lifecycle_request n r" for r
    using start_step [OF assms [OF that]] privileged_step [OF assms [OF that]]
    by (auto simp: service_call_def split: request.splits)
  have loop: "list_all (lifecycle_request n) rs \<Longrightarrow> steps I (service_loop sv t rs)" for t rs
    by (induction rs arbitrary: t) (auto simp del: ret_e_apply intro!: plugin_intros call)
  have stop: "allowed (PluginRuntimeStop n)"
    by (rule assms) (simp add: lifecycle_request_def)
  show ?thesis
    unfolding plugin_services_def Let_def
    by (intro bind cond stop_step [OF stop] ret bind_of_r loop) (rule service_requests_lifecycle)
qed

lemma report_step: "steps I (report_installed sv n v e ar t)"
proof -
  have "steps I (installed_reply sv n e x t)" for x
    unfolding installed_reply_def Let_def
    by (intro plugin_intros) (auto simp del: ret_e_apply intro: ret split: option.splits)
  then show ?thesis
    unfolding report_installed_def Let_def by (intro plugin_intros)
qed

lemma services_back_step:
  "(\<And>r. lifecycle_request n r \<Longrightarrow> allowed r) \<Longrightarrow> steps I (put_services_back sv st n)"
  unfolding put_services_back_def by (intro plugin_intros services_step)

lemma finish_step:
  assumes "\<And>r. r \<in> plugin_requests (PluginsComplete pending outcome) \<Longrightarrow> allowed r"
  shows "steps I (plugin_finish sv st pending outcome)"
proof -
  have success: "steps I (finished_success sv st (pj_action pending) out)" for out
    unfolding finished_success_def
    by (cases "pj_action pending") (simp_all only: plugin_action.case, (intro plugin_intros report_step plugin_deliver_step)+)
  have failure: "steps I (finished_failure sv st (pj_action pending) error)" for error
  proof (cases "pj_action pending")
    case (PluginsEnable n e)
    then have "steps I (put_services_back sv st n)"
      using assms by (intro services_back_step) (simp add: plugin_requests_def)
    then show ?thesis
      unfolding finished_failure_def Let_def PluginsEnable plugin_action.case by (intro plugin_intros plugin_deliver_step)
  qed (simp_all only: finished_failure_def Let_def plugin_action.case, (intro plugin_intros plugin_deliver_step)+)
  show ?thesis
    unfolding plugin_finish_def Let_def
    by (cases outcome) (simp_all only: job_outcome.case, (intro plugin_intros success failure)+)
qed

lemma plugin_effect_step:
  assumes "\<And>r. r \<in> plugin_requests x \<Longrightarrow> allowed r"
  shows "steps I (plugin_effect sv st x result)"
proof -
  have life: "allowed r" if "plugin_requests x = Collect (lifecycle_request n)" "lifecycle_request n r" for n r
    using assms that by simp
  have stop: "allowed (PluginRuntimeStop n)" if "plugin_requests x = Collect (lifecycle_request n)" for n
    by (rule life [OF that]) (simp add: lifecycle_request_def)
  show ?thesis
  proof (cases x)
    case (PluginsInstall n archive version enable force)
    then have req: "plugin_requests x = Collect (lifecycle_request n)"
      by (simp add: plugin_requests_def)
    show ?thesis
      unfolding plugin_effect_def PluginsInstall plugin_action.case plugin_install_effect_def
      by (intro bind [OF stop_step [OF stop [OF req]]] decoded_step bind [OF start_step [OF life [OF req]]] cond ret report_step)
        (simp_all add: lifecycle_request_def)
  next
    case (PluginsRemove n purge force)
    then have req: "plugin_requests x = Collect (lifecycle_request n)"
      by (simp add: plugin_requests_def)
    show ?thesis
      unfolding plugin_effect_def PluginsRemove plugin_action.case plugin_remove_effect_def
      by (intro bind [OF stop_step [OF stop [OF req]]] decoded_step bind [OF start_step [OF life [OF req]]] cond ret bind [OF try_step [OF bridge_step]])
        (simp_all add: lifecycle_request_def)
  next
    case (PluginsEnable n enabled)
    then have req: "plugin_requests x = Collect (lifecycle_request n)"
      by (simp add: plugin_requests_def)
    show ?thesis
      unfolding plugin_effect_def PluginsEnable plugin_action.case plugin_enable_effect_def
      by (intro bind [OF bridge_step] bind [OF of_r_step] bind [OF services_step] bind [OF plugin_deliver_step] cond ret) (rule life [OF req])
  next
    case (PluginsCancel job)
    then show ?thesis
      unfolding plugin_effect_def PluginsCancel plugin_action.case
      by (intro cond ret decoded_step bind [OF privileged_step]) (auto intro!: assms simp: plugin_requests_def PluginsCancel)
  next
    case PluginsReset
    then show ?thesis
      unfolding plugin_effect_def PluginsReset plugin_action.case
      by (intro bind [OF privileged_step] bind [OF plugin_deliver_step] bind [OF bridge_step] ret)
        (auto intro!: assms simp: plugin_requests_def PluginsReset)
  next
    case (PluginsComplete pending outcome)
    then show ?thesis
      unfolding plugin_effect_def PluginsComplete plugin_action.case by (intro finish_step assms) (simp add: PluginsComplete)
  qed (simp_all only: plugin_effect_def plugin_action.case, intro plugin_intros plugin_deliver_step)
qed

lemma plugin_steps:
  assumes "\<And>r. r \<in> plan_requests p \<Longrightarrow> allowed r"
  shows "steps I (plugin_run sv st p)" "steps I (plugin_restore sv st p)" "steps I (plugin_preflight sv previous next' p)"
proof -
  have told: "allowed r" if "ActionPlugins x \<in> set (pp_actions p)" "r \<in> plugin_requests x" for x r
    by (rule assms) (use that in \<open>force simp: plan_requests_def action_requests_def\<close>)
  have "set as \<subseteq> set (pp_actions p) \<Longrightarrow> steps I (plugin_effects sv st result as)" for as result
  proof (induction as arbitrary: result)
    case (Cons a as)
    show ?case
    proof (cases "\<exists>x. a = ActionPlugins x")
      case True
      then obtain x where x: "a = ActionPlugins x" ..
      then have "steps I (plugin_effect sv st x result)"
        using Cons.prems by (intro plugin_effect_step) (auto intro: told)
      then show ?thesis
        using Cons x by (simp only: plugin_effects.simps action.case) (intro bind, auto)
    next
      case False
      then show ?thesis
        using Cons by (cases a) auto
    qed
  qed (simp only: plugin_effects.simps ret)
  then show "steps I (plugin_run sv st p)"
    unfolding plugin_run_def by simp
  have "steps I (case a of ActionPlugins (PluginsEnable n _) \<Rightarrow> bind_e (put_services_back sv st n) (\<lambda>_. ret_e ()) | _ \<Rightarrow> ret_e ())"
    if "a \<in> set (pp_actions p)" for a
  proof (cases "\<exists>n e. a = ActionPlugins (PluginsEnable n e)")
    case True
    then obtain n e where a: "a = ActionPlugins (PluginsEnable n e)"
      by blast
    have "steps I (put_services_back sv st n)"
      by (rule services_back_step) (use that a in \<open>auto intro!: told simp: plugin_requests_def\<close>)
    then show ?thesis
      unfolding a by (simp only: action.case plugin_action.case) (intro bind ret)
  next
    case False
    then show ?thesis
      by (auto simp del: ret_e_apply intro: ret split: action.splits plugin_action.splits)
  qed
  then show "steps I (plugin_restore sv st p)"
    unfolding plugin_restore_def by (intro plugin_intros plugin_deliver_step) simp
  have "steps I (check_plugin_data sv next' n d)" for n d
    unfolding check_plugin_data_def by (intro plugin_intros)
  then show "steps I (plugin_preflight sv previous next' p)"
    unfolding plugin_preflight_def
    by (intro plugin_intros) (auto simp del: ret_e_apply intro!: plugin_intros split: option.splits)
qed

lemma default_steps:
  "steps I (rm_preflight default_runtime st st' p)" "steps I (rm_apply_checked default_runtime st p)"
  "steps I (rm_rollback default_runtime st p)" "steps I (rm_replay default_runtime st)"
  unfolding default_runtime_def runtime_module.simps by (rule ret)+

lemma checked_steps: "steps I (f st p) \<Longrightarrow> steps I (checked_of f st p)" "steps I (f st p) \<Longrightarrow> steps I (drop_reply f st p)"
  unfolding checked_of_def drop_reply_def by (intro step_intros; assumption)+

lemmas hook_steps = ret default_steps checked_steps display_steps network_replay_steps tessera_preflight_steps
  tessera_replay_steps follower_steps(3)

lemma plain_replays: "steps I (device_replay sv st)" "steps I (outputs_replay sv st)"
  unfolding device_replay_def outputs_replay_def
  by (intro step_intros configure_steps follower_steps) (intro decoder_steps, simp)

lemma plugin_replay_steps: "steps I (plugin_replay sv st)"
  unfolding plugin_replay_def by (intro plugin_intros plugin_deliver_step)

lemma replay_steps: "steps I (rm_replay (runtime_of sv d) st)"
  by (cases d) (auto simp: runtime_of_def hook_steps plain_replays plugin_replay_steps simp del: ret_e_apply)

lemma runtime_steps:
  assumes "\<And>r. r \<in> plan_requests p \<Longrightarrow> allowed r"
  shows "steps I (rm_preflight (runtime_of sv d) st st' p)"
    and "steps I (rm_apply_checked (runtime_of sv d) st p)"
    and "steps I (rm_rollback (runtime_of sv d) st p)"
proof -
  note plan = device_steps [OF assms(1)] outputs_steps [OF assms(1)] ndi_steps [OF assms(1)] audio_steps [OF assms(1)]
    tessera_apply_steps [OF assms(1)] plugin_steps [OF assms(1)]
  have undo: "steps I (map_err_e error_text (bind_e (tessera_apply sv p True) (\<lambda>_. ret_e ())))"
    by (intro step_intros plan)
  show "steps I (rm_preflight (runtime_of sv d) st st' p)"
    by (cases d) (simp_all add: runtime_of_def hook_steps plan del: ret_e_apply)
  show "steps I (rm_apply_checked (runtime_of sv d) st p)"
    by (cases d) (simp_all add: runtime_of_def hook_steps plan del: ret_e_apply)
  show "steps I (rm_rollback (runtime_of sv d) st p)"
    by (cases d) (simp_all add: runtime_of_def hook_steps plan undo del: ret_e_apply)
qed

lemma production_replay_steps: "steps I (production_replay sv st)"
  unfolding production_replay_def by (auto intro!: each map_err_step replay_steps)

lemma reconcile_steps:
  assumes "\<And>r. r \<in> plan_requests p \<Longrightarrow> allowed r"
  shows "steps I (reconcile sv st p back')"
proof -
  have domain: "steps I (reconcile_domain sv st p back' d reply)" for d reply
    unfolding reconcile_domain_def by (intro step_intros runtime_steps assms)
  have "steps I (reconcile_domains sv st p back' reply ds)" for reply ds
  proof (induction ds arbitrary: reply)
    case (Cons d ds)
    then show ?case
      by (simp only: reconcile_domains.simps) (intro bind domain)
  qed (simp only: reconcile_domains.simps ret)
  moreover have "steps I (render_artifacts sv st)"
    unfolding render_artifacts_def by (intro step_intros routine) (simp add: routine_requests_def)
  ultimately show ?thesis
    unfolding reconcile_def by (intro step_intros production_replay_steps)
qed

lemma preflight_steps:
  assumes "\<And>r. r \<in> plan_requests p \<Longrightarrow> allowed r"
  shows "steps I (production_preflight sv st st' p)"
  unfolding production_preflight_def by (intro each runtime_steps assms)

lemma render_steps: "steps I (production_render sv st)"
  unfolding production_render_def by (intro step_intros routine) (simp add: routine_requests_def)

end

section \<open>Only announced services are interrupted\<close>

definition core_services :: "service list" where
  "core_services = [SvcDecoder, SvcFinder, SvcControl]"

definition unit_service :: "managed_unit \<Rightarrow> service" where
  "unit_service u = (case u of UnitControl \<Rightarrow> SvcControl | UnitDecoder \<Rightarrow> SvcDecoder | UnitFinder \<Rightarrow> SvcFinder)"

text \<open>
  The services a privileged request stops or starts anew. Starting Tessera interrupts nothing: its planner
  announces a stop and a restart only. Plugin requests act on plugins, not on these services.
\<close>

definition request_restarts :: "request \<Rightarrow> service list" where
  "request_restarts r =
     (case r of
        ServiceControlUnit u act' \<Rightarrow> if act' = UnitReload then [] else [unit_service u]
      | RestartFinder \<Rightarrow> [SvcFinder]
      | RestartStackUnits \<Rightarrow> core_services
      | StopCore \<Rightarrow> core_services
      | StartCore \<Rightarrow> core_services
      | RebootHost \<Rightarrow> core_services
      | StartUpdate \<Rightarrow> core_services
      | InstallRelease _ _ \<Rightarrow> core_services
      | TesseraServiceUnit act' \<Rightarrow> if act' = UnitStop \<or> act' = UnitRestart then [SvcTessera] else []
      | TesseraDisable \<Rightarrow> [SvcTessera]
      | TesseraBundle _ \<Rightarrow> [SvcTessera]
      | _ \<Rightarrow> [])"

definition plugin_request :: "request \<Rightarrow> bool" where
  "plugin_request r =
     (case r of
        PluginRuntimeStart _ \<Rightarrow> True | PluginRuntimeStop _ \<Rightarrow> True | PluginRuntimeStatus _ \<Rightarrow> True
      | PluginResetStateRequest \<Rightarrow> True | PluginInspect _ _ _ \<Rightarrow> True | PluginInstall _ _ _ _ \<Rightarrow> True
      | PluginUninstall _ _ \<Rightarrow> True | PluginExec _ _ \<Rightarrow> True | PluginServiceControl _ _ \<Rightarrow> True
      | PluginJobStatus _ \<Rightarrow> True | PluginJobCancel _ \<Rightarrow> True | _ \<Rightarrow> False)"

definition keeps_to :: "plan \<Rightarrow> request \<Rightarrow> bool" where
  "keeps_to p r =
     (set (request_restarts r) \<subseteq> set (im_restarts (pp_impact p))
      \<and> (plugin_request r \<longrightarrow>
           (\<exists>x. ActionPlugins x \<in> set (pp_actions p) \<and> r \<in> plugin_requests x \<and> plugin_told (pp_impact p) x)))"

definition log_within :: "plan \<Rightarrow> 'w applier_host \<Rightarrow> 'w applier_host \<Rightarrow> bool" where
  "log_within pl p q = (\<exists>u. pd_log q = pd_log p @ u \<and> (\<forall>x \<in> set u. keeps_to pl (fst x)))"

lemma setting_restarts: "setting_of r = Some s \<Longrightarrow> keeps_to rs r"
  by (cases r) (simp_all add: setting_of_def keeps_to_def request_restarts_def plugin_request_def)

lemma send_setting_log: "keeps_to rs r \<Longrightarrow> log_within rs p (snd (send_setting sv skip s r p))"
  by (auto simp: send_setting_def log_within_def privd_execute_def sent_e_def Let_def split: sum.splits prod.splits)

interpretation announced: host_relation sv "log_within rs" "keeps_to rs"
proof
  fix p q q' :: "'a applier_host"
  show "log_within rs p q \<Longrightarrow> log_within rs q q' \<Longrightarrow> log_within rs p q'"
    unfolding log_within_def by (metis Un_iff append.assoc set_append)
  fix r b w
  show "keeps_to rs r \<Longrightarrow> log_within rs p (p\<lparr>pd_world := w, pd_log := pd_log p @ [(r, b)]\<rparr>)"
    by (simp add: log_within_def)
  show "log_within rs p p" "log_within rs p (p\<lparr>pd_world := w\<rparr>)" "log_within rs p (p\<lparr>pd_network := c\<rparr>)"
    "log_within rs p (p\<lparr>pd_tessera := t\<rparr>)" "log_within rs p (p\<lparr>pd_releases := l\<rparr>)" for c t l
    by (simp_all add: log_within_def)
  show "r \<in> routine_requests \<Longrightarrow> keeps_to rs r"
    by (auto simp: routine_requests_def keeps_to_def request_restarts_def plugin_request_def)
  fix s skip
  show "setting_of r = Some s \<Longrightarrow> log_within rs p (snd (send_setting sv skip s r p))"
    by (rule send_setting_log) (rule setting_restarts)
qed

lemma plugin_requests_restarts: "r \<in> plugin_requests x \<Longrightarrow> request_restarts r = []"
  by (auto simp: plugin_requests_def lifecycle_request_def request_restarts_def
      split: plugin_action.splits request.splits)

lemma action_requests_restarts: "r \<in> action_requests a \<Longrightarrow> set (request_restarts r) \<subseteq> set (action_restarts a)"
proof (cases "\<exists>x. a = ActionPlugins x")
  assume "r \<in> action_requests a" "\<exists>x. a = ActionPlugins x"
  then show ?thesis
    by (auto simp: action_requests_def plugin_requests_restarts)
next
  assume "r \<in> action_requests a" "\<nexists>x. a = ActionPlugins x"
  then show ?thesis
    by (auto simp: action_requests_def action_restarts_def request_restarts_def core_services_def unit_service_def
      device_unit_def unit_action_of_def tessera_unit_action_def
      split: action.splits ndi_action.splits audio_action.splits device_action.splits service.splits service_action.splits
        tessera_action.splits tessera_service_action.splits if_splits sum.splits)
qed

lemma action_requests_plugin: "r \<in> action_requests a \<Longrightarrow> plugin_request r \<Longrightarrow> \<exists>x. a = ActionPlugins x \<and> r \<in> plugin_requests x"
  by (auto simp: action_requests_def plugin_request_def
      split: action.splits ndi_action.splits audio_action.splits device_action.splits tessera_action.splits sum.splits)

lemma planned_requests_kept:
  assumes "make_plan pe (native_modules mp) previous next' c = Inr p" "r \<in> plan_requests p"
  shows "keeps_to p r"
proof -
  have decoder: "keeps_to p (ServiceControlUnit UnitDecoder UnitRestart)" if "SvcDecoder \<in> set (im_restarts (pp_impact p))"
    using that by (simp add: keeps_to_def request_restarts_def unit_service_def plugin_request_def)
  have "keeps_to p r" if "a \<in> set (pp_actions p)" "r \<in> action_requests a" for a
    using plan_announced [OF assms(1) that(1), unfolded announced_def] action_requests_restarts [OF that(2)]
      action_requests_plugin [OF that(2)] that(1) by (auto simp: keeps_to_def)
  then show ?thesis
    using assms(2) decoder by (auto simp: plan_requests_def split: if_splits)
qed


section \<open>The memory of applied settings\<close>

definition last_sent :: "string \<Rightarrow> (request \<times> bool) list \<Rightarrow> (request \<times> bool) option" where
  "last_sent s l = List.find (\<lambda>x. setting_of (fst x) = Some s) (rev l)"

definition truthful :: "'w services \<Rightarrow> 'w applier_host \<Rightarrow> bool" where
  "truthful sv p =
     (\<forall>s v. bt_get (pd_applied p) s = Some v \<longrightarrow>
        (\<exists>r. last_sent s (pd_log p) = Some (r, True) \<and> sv_request_value sv r = Inr v))"

definition keeps_truth :: "'w services \<Rightarrow> 'w applier_host \<Rightarrow> 'w applier_host \<Rightarrow> bool" where
  "keeps_truth sv p q = (truthful sv p \<longrightarrow> truthful sv q)"

lemma last_sent_snoc: "last_sent s (l @ [x]) = (if setting_of (fst x) = Some s then Some x else last_sent s l)"
  by (simp add: last_sent_def)

lemma setting_truth:
  assumes "setting_of r = Some s" "truthful sv p"
  shows "truthful sv (snd (send_setting sv skip s r p))"
  using assms
  by (auto simp: send_setting_def truthful_def privd_execute_def sent_e_def Let_def last_sent_snoc is_ok_def record_applied_def
      forget_applied_def bt_get_insert bt_get_remove split: sum.splits prod.splits if_splits)

interpretation truth: host_relation sv "keeps_truth sv" "\<lambda>r. setting_of r = None"
proof
  fix p q q' :: "'a applier_host" and r b w
  show "setting_of r = None \<Longrightarrow> keeps_truth sv p (p\<lparr>pd_world := w, pd_log := pd_log p @ [(r, b)]\<rparr>)"
    by (simp add: keeps_truth_def truthful_def last_sent_snoc)
  show "r \<in> routine_requests \<Longrightarrow> setting_of r = None"
    by (auto simp: routine_requests_def setting_of_def)
  fix s skip
  show "setting_of r = Some s \<Longrightarrow> keeps_truth sv p (snd (send_setting sv skip s r p))"
    using setting_truth [of r s sv p skip] by (simp add: keeps_truth_def)
qed (simp_all add: keeps_truth_def truthful_def)

lemma plugin_no_setting: "r \<in> plugin_requests x \<Longrightarrow> setting_of r = None"
  by (auto simp: plugin_requests_def lifecycle_request_def setting_of_def split: plugin_action.splits request.splits)

lemma action_no_setting: "r \<in> action_requests a \<Longrightarrow> setting_of r = None"
proof (cases "\<exists>x. a = ActionPlugins x")
  assume "r \<in> action_requests a" "\<exists>x. a = ActionPlugins x"
  then show ?thesis
    by (auto simp: action_requests_def plugin_no_setting)
next
  assume "r \<in> action_requests a" "\<nexists>x. a = ActionPlugins x"
  then show ?thesis
    by (auto simp: action_requests_def setting_of_def
        split: action.splits ndi_action.splits audio_action.splits device_action.splits tessera_action.splits sum.splits)
qed

lemma plan_no_setting: "r \<in> plan_requests p \<Longrightarrow> setting_of r = None"
  using action_no_setting by (auto simp: plan_requests_def setting_of_def split: if_splits)

text \<open>Every state the applier can reach, from a fresh start.\<close>

inductive applier_run :: "'w services \<Rightarrow> 'w applier_host \<Rightarrow> bool" for sv where
  start: "pd_log p = [] \<Longrightarrow> pd_applied p = [] \<Longrightarrow> applier_run sv p"
| preflight: "applier_run sv p \<Longrightarrow> applier_run sv (snd (production_preflight sv st st' pl p))"
| reconcile: "applier_run sv p \<Longrightarrow> applier_run sv (snd (reconcile sv st pl undo' p))"
| replay: "applier_run sv p \<Longrightarrow> applier_run sv (snd (production_replay sv st p))"
| render: "applier_run sv p \<Longrightarrow> applier_run sv (snd (production_render sv st p))"
| network: "applier_run sv p \<Longrightarrow> applier_run sv (snd (network sv call p))"
| observe: "applier_run sv p \<Longrightarrow> applier_run sv (snd (network_observation sv p))"
| release: "applier_run sv p \<Longrightarrow> applier_run sv (snd (latest_release sv p))"

text \<open>
  C12: The memory that lets a replay skip an unchanged setting is truthful. In whatever order plans are
  checked, applied, undone and replayed, a setting that is remembered as applied is the value of the last
  request sent for that setting, and that request succeeded: a failed or later different request is never
  hidden by the memory. The hooks are those of all nine domains, the plugin module's included.
\<close>

theorem applied_settings_truthful:
  assumes "applier_run sv p" "is_applied s v (pd_applied p)"
  shows "\<exists>r. last_sent s (pd_log p) = Some (r, True) \<and> sv_request_value sv r = Inr v"
proof -
  have kept: "truthful sv (snd (f q))" if "steps (keeps_truth sv) f" "truthful sv q" for f :: "('a applier_host, 'e, 'b) eff" and q
    using that by (simp add: steps_def keeps_truth_def)
  have "truthful sv p"
    using assms(1)
  proof induction
    case (start p)
    then show ?case
      by (simp add: truthful_def bt_get_def)
  next
    case (preflight p st st' pl)
    then show ?case
      by (intro kept truth.preflight_steps plan_no_setting)
  next
    case (reconcile p st pl undo')
    then show ?case
      by (intro kept truth.reconcile_steps plan_no_setting)
  next
    case (replay p st)
    then show ?case
      by (intro kept truth.production_replay_steps)
  next
    case (render p st)
    then show ?case
      by (intro kept truth.render_steps)
  next
    case (network p call)
    then show ?case
      by (intro kept truth.network_steps) (simp add: setting_of_def)
  next
    case (observe p)
    then show ?case
      by (intro kept truth.observation_steps)
  next
    case (release p)
    then show ?case
      using truth.release_step [of sv p] by (simp add: keeps_truth_def)
  qed
  then show ?thesis
    using assms(2) by (simp add: truthful_def is_applied_def)
qed

section \<open>Accepted documents can be carried out\<close>

lemma label_same: "valid_device_label = label_ok"
  by (auto simp: fun_eq_iff valid_device_label_def label_ok_def)

lemma ntp_same: "valid_device_ntp = ntp_server_ok"
  by (simp add: fun_eq_iff valid_device_ntp_def ntp_server_ok_def label_same)

lemma time_same: "reboot_time_ok = wall_time_ok"
  by (simp add: fun_eq_iff reboot_time_ok_def wall_time_ok_def)

lemma decoded_ok: "request_well_typed r \<Longrightarrow> request_validate (sv_sizes sv) r = Inr () \<Longrightarrow> decoded sv r = Inr r"
  by (simp add: decoded_def decode_request_def)

lemma setting_requests:
  "request_validate jz (SetHostname n) = Inr ()" "request_validate jz (SetTimeSync t) = Inr ()"
  "request_validate jz (SetRebootSchedule RebootDisabled) = Inr ()" "request_validate jz (SetRebootSchedule (RebootDaily w)) = Inr ()"
  "request_well_typed (SetHostname n) = label_ok n" "request_well_typed (SetTimeSync t) = opt_all ntp_server_ok t"
  "request_well_typed (SetRebootSchedule RebootDisabled)" "request_well_typed (SetRebootSchedule (RebootDaily w)) = wall_time_ok w"
  "request_well_typed (SetRebootSchedule (RebootWeekly w ds)) = wall_time_ok w"
  by (simp_all add: request_validate_def request_well_typed_def)

lemma weekly_validate:
  "request_validate jz (SetRebootSchedule (RebootWeekly w ds)) = Inr () \<longleftrightarrow> ds \<noteq> [] \<and> length ds \<le> 7 \<and> distinct ds"
  by (auto simp: request_validate_def)

lemma device_check_settings:
  assumes "device_check d = []"
  shows "dev_hostname d = [] \<or> label_ok (dev_hostname d)" "dev_ntp_server d = [] \<or> ntp_server_ok (dev_ntp_server d)"
    "wall_time_ok (rs_time (dev_reboot_schedule d))"
    "rs_enabled (dev_reboot_schedule d) \<longrightarrow> rs_days (dev_reboot_schedule d) \<noteq> []"
    "distinct (rs_days (dev_reboot_schedule d))"
  using assms by (auto simp: device_check_def Let_def label_same ntp_same time_same length_remdups_card_conv card_distinct)

lemma device_setting_valid:
  assumes "device_check d = []" "device_setting sv d a = Some (s, x)"
  shows "x = Inr None \<or> (\<exists>r. x = Inr (Some r) \<and> request_validate (sv_sizes sv) r = Inr ())"
proof -
  note ok = device_check_settings [OF assms(1)]
  have days: "\<not> 7 < length (rs_days (dev_reboot_schedule d))"
  proof -
    have "length (rs_days (dev_reboot_schedule d)) = card (set (rs_days (dev_reboot_schedule d)))"
      using ok(5) by (simp add: distinct_card)
    also have "\<dots> \<le> card (set [Sun, Mon, Tue, Wed, Thu, Fri, Sat])"
    proof (rule card_mono)
      show "set (rs_days (dev_reboot_schedule d)) \<subseteq> set [Sun, Mon, Tue, Wed, Thu, Fri, Sat]"
      proof
        fix x :: weekday
        show "x \<in> set [Sun, Mon, Tue, Wed, Thu, Fri, Sat]"
          by (cases x) simp_all
      qed
    qed simp
    finally show ?thesis
      by simp
  qed
  show ?thesis
  proof (cases a)
    case DeviceHostname
    then show ?thesis
      using assms(2) ok(1) decoded_ok [of "SetHostname (dev_hostname d)" sv]
      by (auto simp: device_setting_def hostname_request_def setting_requests split: if_splits)
  next
    case DeviceTimeSync
    let ?r = "SetTimeSync (if dev_ntp_server d = [] then None else Some (dev_ntp_server d))"
    have "decoded sv ?r = Inr ?r"
      using ok(2) by (intro decoded_ok) (auto simp: setting_requests opt_all_def)
    then show ?thesis
      using assms(2) DeviceTimeSync by (auto simp: device_setting_def time_sync_request_def setting_requests)
  next
    case DeviceRebootSchedule
    let ?s = "dev_reboot_schedule d"
    let ?r = "SetRebootSchedule (if \<not> rs_enabled ?s then RebootDisabled
       else if length (rs_days ?s) = 7 then RebootDaily (rs_time ?s) else RebootWeekly (rs_time ?s) (rs_days ?s))"
    have valid: "request_validate (sv_sizes sv) ?r = Inr ()"
      using ok(4,5) days by (simp add: setting_requests weekly_validate)
    have "decoded sv ?r = Inr ?r"
      using ok(3) by (intro decoded_ok valid) (simp add: setting_requests)
    then show ?thesis
      using assms(2) DeviceRebootSchedule valid
      by (auto simp: device_setting_def schedule_request_def Let_def simp del: if_split)
  qed (use assms(2) in \<open>simp_all add: device_setting_def\<close>)
qed

text \<open>
  C13: A document that passes validation never fails at the privileged boundary for its device settings: the
  host name, time server and reboot schedule it holds decode to requests that the privileged protocol
  accepts, so the device's preflight succeeds for whatever the plan contains. The two crates state the
  same rules separately; this says that they agree.
\<close>

theorem accepted_device_settings_apply:
  assumes "validate to_vec (sf_document next') = Inr ()"
  shows "device_preflight sv previous next' p h = (Inr (), h)"
proof -
  have d: "device_check (ds_device (sf_document next')) = []"
    using assms by (simp add: validate_ok document_errors_def)
  have "device_checks sv (ds_device (sf_document next')) as = Inr ()" for as
  proof (induction as)
    case (Cons a as)
    show ?case
    proof (cases "device_setting sv (ds_device (sf_document next')) a")
      case (Some sx)
      obtain s x where "sx = (s, x)"
        by (rule prod.exhaust)
      then show ?thesis
        using Some Cons device_setting_valid [OF d, of sv a s x] by auto
    qed (simp add: Cons)
  qed simp
  then show ?thesis
    by (simp add: device_preflight_def of_r_def)
qed

section \<open>Observations are current\<close>

text \<open>
  The cache of network observations under interleaving. An observer reads the generation before it asks
  the privileged process and offers its answer afterwards; meanwhile others may begin, offer, or
  invalidate. Each of these is one step on the shared cache.
\<close>

datatype cache_event = ObsBegin nat | ObsKeep nat json nat | ObsInvalidate

record cache_run =
  cr_cache :: obs_cache
  cr_started :: "nat \<Rightarrow> u64 option"

primrec cache_step :: "cache_event \<Rightarrow> cache_run \<Rightarrow> cache_run" where
  "cache_step (ObsBegin i) c = c\<lparr>cr_started := (cr_started c)(i \<mapsto> oc_generation (cr_cache c))\<rparr>"
| "cache_step (ObsKeep i v t) c =
     (case cr_started c i of None \<Rightarrow> c | Some g \<Rightarrow> c\<lparr>cr_cache := keep t g v (cr_cache c)\<rparr>)"
| "cache_step ObsInvalidate c = c\<lparr>cr_cache := invalidate (cr_cache c)\<rparr>"

definition run_cache :: "cache_event list \<Rightarrow> cache_run" where
  "run_cache es = fold cache_step es \<lparr>cr_cache = \<lparr>oc_generation = 0, oc_last = None\<rparr>, cr_started = (\<lambda>_. None)\<rparr>"

lemma run_cache_snoc: "run_cache (es @ [e]) = cache_step e (run_cache es)"
  by (simp add: run_cache_def)

definition changes :: "cache_event list \<Rightarrow> nat" where
  "changes es = length (filter (\<lambda>e. e = ObsInvalidate) es)"

lemma changes_simps [simp]: "changes [] = 0" "changes (es @ fs) = changes es + changes fs"
  "changes (e # es) = (if e = ObsInvalidate then 1 else 0) + changes es"
  by (simp_all add: changes_def)

lemma changes_zero: "changes es = 0 \<longleftrightarrow> ObsInvalidate \<notin> set es"
  by (induction es) auto

definition observed_since :: "cache_event list \<Rightarrow> nat \<Rightarrow> json \<Rightarrow> bool" where
  "observed_since es t v =
     (obs_settled v \<and> (\<exists>es1 es2 es3 i. es = es1 @ ObsBegin i # es2 @ ObsKeep i v t # es3
        \<and> ObsInvalidate \<notin> set es2 \<union> set es3))"

lemma observed_since_snoc: "observed_since es t v \<Longrightarrow> e \<noteq> ObsInvalidate \<Longrightarrow> observed_since (es @ [e]) t v"
  unfolding observed_since_def
  by (elim conjE exE, intro conjI, assumption) (rule exI, rule exI, rule_tac x = "es3 @ [e]" in exI, rule exI, auto)

lemma run_generation: "oc_generation (cr_cache (run_cache es)) = of_nat (changes es)"
proof (induction es rule: rev_induct)
  case (snoc e es)
  then show ?case
    by (cases e) (simp_all add: run_cache_snoc keep_def invalidate_def split: option.splits)
qed (simp add: run_cache_def)

lemma run_started:
  "cr_started (run_cache es) i = Some g \<Longrightarrow> \<exists>es1 es2. es = es1 @ ObsBegin i # es2 \<and> g = of_nat (changes es1)"
proof (induction es rule: rev_induct)
  case (snoc e es)
  show ?case
  proof (cases "e = ObsBegin i")
    case True
    then have "g = of_nat (changes es)"
      using snoc.prems by (simp add: run_cache_snoc run_generation)
    then show ?thesis
      using True by blast
  next
    case False
    then have "cr_started (run_cache es) i = Some g"
      using snoc.prems by (cases e) (auto simp: run_cache_snoc split: option.splits if_splits)
    then show ?thesis
      using snoc.IH by fastforce
  qed
qed (simp add: run_cache_def)

lemma unat_of_nat_eq_u64: "(of_nat a :: u64) = of_nat b \<Longrightarrow> a < 2 ^ 64 \<Longrightarrow> b < 2 ^ 64 \<Longrightarrow> a = b"
proof -
  assume "(of_nat a :: u64) = of_nat b" "a < 2 ^ 64" "b < 2 ^ 64"
  then have "a mod 2 ^ LENGTH(64) = b mod 2 ^ LENGTH(64)"
    by (metis unat_of_nat)
  then show "a = b"
    using \<open>a < 2 ^ 64\<close> \<open>b < 2 ^ 64\<close> by simp
qed

lemma run_last:
  "changes es < 2 ^ 64 \<Longrightarrow> oc_last (cr_cache (run_cache es)) = Some (t, v) \<Longrightarrow> observed_since es t v"
proof (induction es rule: rev_induct)
  case (snoc e es)
  have IH: "oc_last (cr_cache (run_cache es)) = Some (t, v) \<Longrightarrow> observed_since es t v"
    using snoc.IH snoc.prems(1) by simp
  show ?case
  proof (cases e)
    case (ObsBegin i)
    then show ?thesis
      using IH snoc.prems(2) observed_since_snoc [of es t v e] by (simp add: run_cache_snoc)
  next
    case ObsInvalidate
    then show ?thesis
      using snoc.prems(2) by (simp add: run_cache_snoc invalidate_def)
  next
    case (ObsKeep i u n)
    show ?thesis
    proof (cases "cr_started (run_cache es) i")
      case None
      then show ?thesis
        using ObsKeep IH snoc.prems(2) observed_since_snoc [of es t v e] by (simp add: run_cache_snoc)
    next
      case (Some g)
      then obtain es1 es2 where es: "es = es1 @ ObsBegin i # es2" and g: "g = of_nat (changes es1)"
        using run_started by blast
      have kept: "obs_settled u" "g = of_nat (changes es)" "t = n" "v = u"
        using ObsKeep Some snoc.prems(2) by (auto simp: run_cache_snoc keep_def run_generation split: if_splits)
      have "changes es1 < 2 ^ 64" "changes es < 2 ^ 64"
        using snoc.prems(1) es by simp_all
      then have "changes es1 = changes es"
        using g kept(2) by (metis unat_of_nat_eq_u64)
      then have "changes es2 = 0"
        using es by simp
      then show ?thesis
        using kept es ObsKeep unfolding observed_since_def changes_zero by fastforce
    qed
  qed
qed (simp add: run_cache_def)

text \<open>
  C20: What the observation cache answers is current: however observers and network changes interleave, an
  answer is a settled observation, younger than the limit, that was asked for after the last change and
  that no change has followed. (The generation counter must not have wrapped: fewer than 2^64 changes.)
\<close>

theorem observation_current:
  assumes "obs_fresh now max_age (cr_cache (run_cache es)) = Some v" "changes es < 2 ^ 64"
  shows "obs_settled v \<and> (\<exists>es1 es2 es3 i t. es = es1 @ ObsBegin i # es2 @ ObsKeep i v t # es3
    \<and> ObsInvalidate \<notin> set es2 \<union> set es3 \<and> now - t < max_age)"
proof -
  obtain t where t: "oc_last (cr_cache (run_cache es)) = Some (t, v)" "now - t < max_age"
    using assms(1) by (auto simp: obs_fresh_def split: option.splits if_splits)
  then show ?thesis
    using run_last [OF assms(2) t(1)] unfolding observed_since_def by blast
qed

theorem observation_current_witness:
  "let es = [ObsBegin 0, ObsInvalidate, ObsBegin 1, ObsKeep 1 JNull 5, ObsBegin 2] in
   obs_fresh 6 OBSERVATION_MAX_AGE (cr_cache (run_cache es)) = Some JNull \<and> obs_settled JNull"
proof -
  let ?es = "[ObsBegin 0, ObsInvalidate, ObsBegin 1, ObsKeep 1 JNull 5, ObsBegin 2]"
  have "obs_fresh 6 OBSERVATION_MAX_AGE (cr_cache (run_cache ?es)) = Some JNull"
    by (simp add: run_cache_def invalidate_def keep_def obs_settled_def json_index_def obs_fresh_def OBSERVATION_MAX_AGE_def)
  then show ?thesis
    using observation_current [of 6 OBSERVATION_MAX_AGE ?es JNull] by simp
qed

section \<open>A host for the witnesses\<close>

text \<open>A host whose privileged process accepts everything and whose followers do not answer.\<close>

definition silent_link :: "unit link" where
  "silent_link = \<lparr>lk_client = (\<lambda>_ w. (Inl ''timeout'', w)), lk_sleep = (\<lambda>_ w. w), lk_print = show_errors\<rparr>"

definition calm_plugins :: "unit plugin_link" where
  "calm_plugins =
     \<lparr>pk_host = (\<lambda>_ w. (None, w)), pk_query = (\<lambda>_. ret_e JNull), pk_privd = (\<lambda>_ w. (Some (Inr (json_obj [])), w)),
      pk_quiesce = (\<lambda>_ w. w), pk_sleep = (\<lambda>_ w. w), pk_print = show_errors, pk_context = (\<lambda>_. JNull),
      pk_manifest_of = (\<lambda>_. Inl []), pk_size_of = (\<lambda>_. Inr 0)\<rparr>"

definition calm_services :: "unit services" where
  "calm_services =
     \<lparr>sv_execute = (\<lambda>_ w. (Inr \<lparr>po_job = None, po_data = None\<rparr>, w)), sv_request = (\<lambda>_ w. (Inr \<lparr>po_job = None, po_data = None\<rparr>, w)),
      sv_spawn = (\<lambda>_ _ w. w), sv_decoder = silent_link, sv_finder = silent_link, sv_now = (\<lambda>_. 0), sv_deadline = ret_e 0,
      sv_sources = ret_e JNull, sv_param_file = (\<lambda>_. ret_e ()), sv_tessera_flow_lock = err_e TesseraIo,
      sv_tessera_uptime = (\<lambda>w. (None, w)), sv_tessera_files = (\<lambda>_. None), sv_tessera_reload = (\<lambda>_. err_e TesseraIo),
      sv_tessera_text = (\<lambda>_. []), sv_tessera_api = (\<lambda>_. Internal []),
      sv_sizes = \<lparr>jz_value = (\<lambda>_. Inr 0), jz_flows = (\<lambda>_. Inr 0), jz_profiles = (\<lambda>_. Inr 0)\<rparr>,
      sv_decode_reason = [], sv_request_value = (\<lambda>_. Inr JNull), sv_section = (\<lambda>_ _. JNull), sv_api_error = (\<lambda>_. Inl []),
      sv_printer = pe_printer sample_planner, sv_plugins = calm_plugins\<rparr>"

definition fresh_host :: "unit applier_host" where
  "fresh_host =
     \<lparr>pd_world = (), pd_log = [], pd_network = \<lparr>oc_generation = 0, oc_last = None\<rparr>, pd_applied = [], pd_tessera = None,
      pd_releases = None\<rparr>"

definition initial_state :: state_file where
  "initial_state = new_state_file default_desired_state []"


lemma silent_request: "request_from silent_link c d n w = (Inl ''timeout'', ())"
proof (induction n arbitrary: d w)
  case (Suc n)
  then show ?case
    by (subst request_from.simps) (simp add: silent_link_def)
qed (subst request_from.simps, simp add: silent_link_def)

lemma silent_deliver: "deliver silent_link st c w = (Inl ''timeout'', ())"
proof -
  have "\<not> contains_str OLDER_REVISION ''timeout''"
    by (auto simp: contains_str_iff OLDER_REVISION_def dest!: arg_cong [of _ _ length])
  then show ?thesis
    by (simp add: deliver_def follower_request_def silent_request)
qed

lemma calm_device_replay:
  "\<exists>h. device_replay calm_services initial_state fresh_host = (Inl ''timeout'', h) \<and> is_applied ''reboot_schedule'' JNull (pd_applied h)"
proof -
  have "device_deliver calm_services initial_state h = (Inl ''timeout'', h)" for h
    by (simp add: device_deliver_def bind_e_def world_e_def calm_services_def silent_deliver)
  moreover have "\<exists>h. configure calm_services initial_state True [DeviceHostname, DeviceRebootSchedule] fresh_host = (Inr (), h)
      \<and> is_applied ''reboot_schedule'' JNull (pd_applied h)"
    by (simp add: configure_def bind_e_def configure_one_def device_setting_def hostname_request_def schedule_request_def
        decoded_def decode_request_def setting_requests initial_state_def new_state_file_def default_desired_state_def
        default_device_def default_reboot_schedule_def send_setting_def calm_services_def privd_execute_def sent_e_def
        fresh_host_def is_applied_def record_applied_def bt_get_insert bt_get_def)
  ultimately show ?thesis
    by (auto simp: device_replay_def bind_e_def initial_state_def new_state_file_def default_desired_state_def default_device_def)
qed

lemma calm_replay:
  "is_applied ''reboot_schedule'' JNull (pd_applied (snd (production_replay calm_services initial_state fresh_host)))"
proof -
  have order: "filter (\<lambda>(d, _). ownership_of d = Native) registry_order
      = (DNetwork, ''network'') # (DTessera, ''tessera'') # (DAudio, ''audio'') # (DDevice, ''device'') # drop 4 registry_order"
    by (simp add: registry_order_def ownership_of_def OWNERSHIP_def)
  have quiet: "network_replay calm_services initial_state h = (Inr (), h)" "tessera_replay calm_services initial_state h = (Inr (), h)" for h
    by (simp_all add: network_replay_def tessera_replay_def tessera_enabled_def initial_state_def new_state_file_def
        default_desired_state_def default_network_profiles_def)
  obtain h where "device_replay calm_services initial_state fresh_host = (Inl ''timeout'', h)"
      "is_applied ''reboot_schedule'' JNull (pd_applied h)"
    using calm_device_replay by blast
  then show ?thesis
    unfolding production_replay_def order
    by (simp add: bind_e_def map_err_e_def map_err_def runtime_of_def default_runtime_def quiet)
qed

theorem applied_settings_truthful_witness:
  "\<exists>r. last_sent ''reboot_schedule'' (pd_log (snd (production_replay calm_services initial_state fresh_host)))
       = Some (r, True)"
proof -
  have "applier_run calm_services fresh_host"
    by (rule start) (simp_all add: fresh_host_def)
  then have "applier_run calm_services (snd (production_replay calm_services initial_state fresh_host))"
    by (rule replay)
  from applied_settings_truthful [OF this calm_replay] show ?thesis
    by blast
qed

theorem accepted_device_settings_apply_witness:
  "device_preflight calm_services initial_state initial_state
     \<lparr>pp_paths = [], pp_domains = [DDevice], pp_actions = [ActionDevice DeviceHostname, ActionDevice DeviceRebootSchedule],
      pp_impact = default_impact, pp_confirmation = None, pp_external_confirmation = False, pp_session = None\<rparr> fresh_host
   = (Inr (), fresh_host)"
  by (rule accepted_device_settings_apply [of "\<lambda>_. None"]) (simp add: initial_state_def new_state_file_def default_valid)

end
