(* ===== verification/Spec2Isabelle.thy ===== *)
theory Spec2Isabelle
  imports Doc_Validation Wire Authority Actor_Theorems Plugin_Supervisor Net_Polling Net_Theorems Control_Auth
    Domain_Theorems Applier_Theorems
begin

text \<open>
  Verification of the control plane of NDIMon-R (the Rust workspace under src/control).

  \<^bold>\<open>The program.\<close> One document, the desired state of a video and audio monitor, is owned by a single
  task, the state actor (ndimon-state). Commands of the web interface are admitted, reduced by the
  module of their domain, validated, planned, confirmed by the operator when they interrupt something,
  staged on disk, applied, and committed or rolled back. The network part of the document is decided
  by another process: the privileged helper runs the network engine (ndimon-netengine), which stages a
  change in its own journal, applies it under a timer and keeps it only when the operator confirms it
  over the new network. The two processes share one durable envelope and one lock. Plugins are
  described by manifests (ndimon-privd-proto) and installed by jobs that outlive the command. The types
  of the document and of the wire protocol are in ndimon-types. The web interface reaches the actor
  through the front door (ndimon-control), which authenticates every request. What a plan decides is
  carried out by the production applier, which sends configuration to follower processes (the decoder
  and the finder) and requests to the privileged process.

  \<^bold>\<open>Theories and sources.\<close>

  \<^item> \<open>Prelude\<close>, \<open>Rust_Text\<close>: machine integers as words, results as sums, ordered maps (the interface
    \<open>ordered_map\<close>, interpreted on association lists), and the text functions of the standard library.
  \<^item> \<open>Doc_Model\<close> (ndimon-types/src/model.rs): the document, one record per struct, one datatype per enum.
    \<open>Doc_Validation\<close> (validation.rs): every check, each returning the errors the source pushes, in order.
  \<^item> \<open>Wire\<close> (ndimon-types/src/wire.rs, network.rs): commands, impacts, errors, events; the seal of an
    impact.
  \<^item> \<open>State_Store\<close> (ndimon-state/src/persist.rs): the state directory, with an outcome injected at every
    system call; staging, commit, rollback, recovery. The interfaces \<open>staged_publication\<close> and
    \<open>peer_writer\<close> say what the actor relies on.
  \<^item> \<open>Planner\<close> (plan.rs, domains/mod.rs, backup.rs): routing, reduction, the structural diff, plans.
  \<^item> \<open>State_Actor\<close>, \<open>Actor_Safety\<close>, \<open>Actor_Theorems\<close> (lib.rs, apply.rs, commands.rs, observations.rs):
    the actor's handlers, Hoare triples over its envelope and directory, and its properties.
  \<^item> \<open>Authority\<close> (network_authority.rs): how the privileged process reads and replaces the network
    decision; interpreted as the \<open>peer_writer\<close> of the actor.
  \<^item> \<open>Privd_Values\<close>, \<open>Privd_Proto\<close>, \<open>Plugin_Manifest\<close> (ndimon-privd-proto): bounded values, framing, the
    closed request set, manifests and their schemas.
  \<^item> \<open>Versions\<close>, \<open>Plugin_Module\<close>, \<open>Plugin_Supervisor\<close> (ndimon-state/src/domains/plugins.rs, plugins/jobs.rs):
    version order, the plugin domain and the supervisor of its jobs.
  \<^item> \<open>Domain_Modules\<close>, \<open>Domain_Theorems\<close> (ndimon-state/src/domains/*.rs): the reducer and planner of every
    domain and the registry they form, interpreted as the \<open>governed_modules\<close> the actor relies on.
  \<^item> \<open>Follower\<close> (ndimon-state/src/follower.rs, src/FollowerProtocol.h, src/FollowerConfig.h, finder/main.cpp):
    delivery of configuration, and the finder at the other end of a connection that loses messages.
  \<^item> \<open>Applier\<close>, \<open>Applier_Theorems\<close> (ndimon-state/src/apply.rs, domains/*.rs): what the modules do to the host,
    reconciliation of plans, and the applier's memory, over a record of the privileged requests sent. The
    interface \<open>host_relation\<close> is interpreted twice, for announced restarts and for applied settings.
  \<^item> \<open>Ip_Text\<close>, \<open>Control_Sessions\<close>, \<open>Control_Limiter\<close>, \<open>Control_Guard\<close>, \<open>Control_Auth\<close> (ndimon-control/src/sessions.rs,
    hosts.rs, csrf.rs, auth.rs, legacy_auth.rs): sessions, the login limiter, the request guard, the password
    file and the login handlers.
  \<^item> \<open>Net_Validation\<close>, \<open>Net_Data\<close>, \<open>Net_Host\<close>, \<open>Net_Engine\<close> (ndimon-netengine: validation.rs, store.rs,
    host.rs, backend/mod.rs, handoff.rs, engine.rs; ndimon-render/src/network.rs): the engine, written over
    a world with the durable journal, the journal in memory and a record of what was done to the host.
    \<open>Net_Journal\<close>, \<open>Net_Theorems\<close>, \<open>Net_Polling\<close>: its properties; \<open>Net_Samples\<close>: a host for the witnesses.

  \<^bold>\<open>What is shown.\<close>

  \<^item> Document: accepted documents have disjoint subnets, one writer per audio channel, consistent routes
    and flows; the default document is accepted.
  \<^item> Store: after a crash at any system call the next reader finds the old or the new envelope; staging
    is invisible; loading always returns.
  \<^item> Actor: an invariant of every turn under any peer; a durable command refines an abstract
    compare-and-commit; stale requests are refused; shutdown is final; a restore spares the network.
  \<^item> Network engine: nothing is done to the host that the durable journal does not cover; a kept change
    is never undone; a successful recovery puts every file back; a confirmation decides exactly the
    applied change; what the engine accepts the document check accepts; polling ends.
  \<^item> Domains and applier: a command changes only its own sections; carrying out or undoing a plan
    interrupts only services its impact lists; the memory that lets a replay skip a setting is truthful;
    device settings of an accepted document pass the privileged boundary; cached observations are current.
  \<^item> Followers: an acknowledged delivery is an applied one; one delivery brings a finder in any state to
    the document, whatever it had cached; deliveries are bounded and never invent a revision.
  \<^item> Front door: a request on a protected path passes only with a session that a login with the current
    password opened; no spelling of a path avoids the guard; a password change ends every other session;
    a source is throttled for its own failures only; tables are bounded.
  \<^item> Protocol and plugins: names are safe, frames round-trip, manifests are confined, versions are
    totally preordered, failed jobs restore, results are bounded, lost jobs settle.

  \<^bold>\<open>Bounds and fuel.\<close> Loops of the sources are structural recursions or have a termination proof.
  \<open>POLL_FUEL\<close> (200 rounds) bounds the two polling loops of the network host; \<open>Net_Polling.polling_ends\<close>
  shows that the clock always ends them first, because a round that asks again sleeps 250 ms and the
  longest wait is 45 s. Counters keep their width: revisions are 64-bit and their overflow is an error.

  \<^bold>\<open>Parameters.\<close> JSON encodings, SHA-256, the random source, the file system below the state directory,
  systemd and the network tools are parameters: arguments of the definitions, constrained only by the
  hypotheses a theorem names.

  \<^bold>\<open>Not modelled.\<close> HTTP routing and event streams, the decoder and the finder's discovery (C++), the live
  commands and observers of the network module, queries, the plugin host, the drivers of single network
  backends, the preparation and review of network handoffs, the one-time migrations, rendering of
  configuration files, package inspection and build tooling: input and output, text output, or thin
  adapters over what is modelled.
\<close>

end
